(* ===== verification/Prelude.thy ===== *)
theory Prelude
  imports
    Main
    "HOL-Library.Word"
    "HOL-Library.Sublist"
    "HOL-Library.Char_ord"
    "HOL-Library.List_Lexorder"
    "HOL-Library.Option_ord"
    "HOL-Library.Product_Lexorder"
    "HOL-Library.Multiset"
    "HOL-Library.Code_Target_Numeral"
begin

text \<open>
  Shared vocabulary of the development: byte strings (a Rust \<^verbatim>\<open>String\<close> is the
  list of its UTF-8 bytes), the string routines of the Rust standard library the
  program calls, decimal numbers, comparator based sorting and selection, and
  small facts on lists.  The collections declared here are filled by the component theories:
  \<open>keeps\<close> holds the rules that a program of the world monad preserves an invariant,
  \<open>db_keeps\<close> those that a statement keeps the tables' integrity, and \<open>row_simps\<close> the facts on
  table updates.
\<close>

named_theorems keeps "a program keeps an invariant of the world"
named_theorems db_keeps "a statement keeps the integrity of the tables"
named_theorems row_simps "selections and updates of table rows"

section \<open>Byte strings\<close>

definition byte :: "nat \<Rightarrow> char" where
  "byte n = char_of n"

definition code :: "char \<Rightarrow> nat" where
  "code c = of_char c"

lemma code_less_256 [simp]: "code c < 256"
  by (simp add: code_def)

definition is_digit :: "char \<Rightarrow> bool" where
  "is_digit c \<longleftrightarrow> 48 \<le> code c \<and> code c \<le> 57"

definition is_upper :: "char \<Rightarrow> bool" where
  "is_upper c \<longleftrightarrow> 65 \<le> code c \<and> code c \<le> 90"

definition is_lower :: "char \<Rightarrow> bool" where
  "is_lower c \<longleftrightarrow> 97 \<le> code c \<and> code c \<le> 122"

definition is_alnum :: "char \<Rightarrow> bool" where
  "is_alnum c \<longleftrightarrow> is_digit c \<or> is_upper c \<or> is_lower c"

text \<open>A continuation byte of UTF-8; the bytes that are none start a character.\<close>

definition is_continuation :: "char \<Rightarrow> bool" where
  "is_continuation c \<longleftrightarrow> 128 \<le> code c \<and> code c < 192"

definition char_count :: "string \<Rightarrow> nat" where
  "char_count s = length (filter (\<lambda>c. \<not> is_continuation c) s)"

definition ascii_lower_char :: "char \<Rightarrow> char" where
  "ascii_lower_char c = (if is_upper c then byte (code c + 32) else c)"

definition to_ascii_lowercase :: "string \<Rightarrow> string" where
  "to_ascii_lowercase s = map ascii_lower_char s"

lemma code_byte: "n < 256 \<Longrightarrow> code (byte n) = n"
  by (simp add: code_def byte_def)

lemma byte_code [simp]: "byte (code c) = c"
  by (simp add: code_def byte_def)

lemma ascii_lower_char_idem [simp]:
  "ascii_lower_char (ascii_lower_char c) = ascii_lower_char c"
  by (auto simp: ascii_lower_char_def is_upper_def code_byte)

lemma to_ascii_lowercase_idem [simp]:
  "to_ascii_lowercase (to_ascii_lowercase s) = to_ascii_lowercase s"
  by (simp add: to_ascii_lowercase_def)

lemma to_ascii_lowercase_append [simp]:
  "to_ascii_lowercase (s @ t) = to_ascii_lowercase s @ to_ascii_lowercase t"
  by (simp add: to_ascii_lowercase_def)

lemma length_to_ascii_lowercase [simp]:
  "length (to_ascii_lowercase s) = length s"
  by (simp add: to_ascii_lowercase_def)

text \<open>\<^verbatim>\<open>str::contains\<close> of a string pattern.\<close>

fun contains_str :: "string \<Rightarrow> string \<Rightarrow> bool" where
  "contains_str [] pat = (pat = [])"
| "contains_str (c # cs) pat = (prefix pat (c # cs) \<or> contains_str cs pat)"

lemma contains_str_iff: "contains_str s pat \<longleftrightarrow> (\<exists>u v. s = u @ pat @ v)"
proof (induction s)
  case Nil
  then show ?case by auto
next
  case (Cons c cs)
  show ?case
  proof
    assume "contains_str (c # cs) pat"
    then consider "prefix pat (c # cs)" | "contains_str cs pat" by auto
    then show "\<exists>u v. c # cs = u @ pat @ v"
    proof cases
      case 1
      then obtain v where "c # cs = [] @ pat @ v" by (auto simp: prefix_def)
      then show ?thesis by blast
    next
      case 2
      then obtain u v where "cs = u @ pat @ v" using Cons.IH by blast
      then have "c # cs = (c # u) @ pat @ v" by simp
      then show ?thesis by blast
    qed
  next
    assume "\<exists>u v. c # cs = u @ pat @ v"
    then obtain u v where uv: "c # cs = u @ pat @ v" by blast
    show "contains_str (c # cs) pat"
    proof (cases u)
      case Nil
      then have "prefix pat (c # cs)" using uv by simp
      then show ?thesis by simp
    next
      case (Cons d u')
      then have "cs = u' @ pat @ v" using uv by simp
      then show ?thesis using Cons.IH by auto
    qed
  qed
qed

text \<open>\<^verbatim>\<open>str::split\<close> at every byte of a class: the empty pieces are kept.\<close>

fun split_by :: "(char \<Rightarrow> bool) \<Rightarrow> string \<Rightarrow> string list" where
  "split_by P [] = [[]]"
| "split_by P (c # cs) =
    (if P c then [] # split_by P cs
     else (c # hd (split_by P cs)) # tl (split_by P cs))"

lemma split_by_ne [simp]: "split_by P s \<noteq> []"
  by (cases s) auto

lemma split_by_none: "(\<And>c. c \<in> set s \<Longrightarrow> \<not> P c) \<Longrightarrow> split_by P s = [s]"
  by (induction s) auto

lemma split_by_append_sep:
  "(\<And>c. c \<in> set s \<Longrightarrow> \<not> P c) \<Longrightarrow> P d \<Longrightarrow> split_by P (s @ d # t) = s # split_by P t"
  by (induction s) auto

lemma split_by_unfold:
  "split_by P s = takeWhile (\<lambda>c. \<not> P c) s #
     (case dropWhile (\<lambda>c. \<not> P c) s of [] \<Rightarrow> [] | d # r \<Rightarrow> split_by P r)"
  by (induction s) auto

text \<open>The pieces are the maximal runs without a separator.\<close>

lemma split_by_mem:
  "p \<in> set (split_by P s) \<longleftrightarrow>
    (\<exists>u v. s = u @ p @ v \<and> (\<forall>c \<in> set p. \<not> P c) \<and> (u = [] \<or> P (last u)) \<and> (v = [] \<or> P (hd v)))"
proof (induction s rule: length_induct)
  case (1 s)
  define tw where "tw = takeWhile (\<lambda>c. \<not> P c) s"
  define dw where "dw = dropWhile (\<lambda>c. \<not> P c) s"
  have s: "s = tw @ dw" by (simp add: tw_def dw_def)
  have tw: "\<forall>c \<in> set tw. \<not> P c" by (auto simp: tw_def dest: set_takeWhileD)
  have dw: "dw = [] \<or> P (hd dw)" using hd_dropWhile [of "\<lambda>c. \<not> P c" s] by (auto simp: dw_def)
  show ?case
  proof
    assume "p \<in> set (split_by P s)"
    then have "p = tw \<or> (\<exists>d r. dw = d # r \<and> p \<in> set (split_by P r))"
      unfolding split_by_unfold [of P s] tw_def dw_def
      by (cases "dropWhile (\<lambda>c. \<not> P c) s") auto
    then show "\<exists>u v. s = u @ p @ v \<and> (\<forall>c \<in> set p. \<not> P c) \<and> (u = [] \<or> P (last u)) \<and> (v = [] \<or> P (hd v))"
    proof
      assume "p = tw"
      then have "s = [] @ p @ dw" using s by simp
      then show ?thesis using \<open>p = tw\<close> tw dw by blast
    next
      assume "\<exists>d r. dw = d # r \<and> p \<in> set (split_by P r)"
      then obtain d r where dr: "dw = d # r" "p \<in> set (split_by P r)" by blast
      then have "length r < length s" using s by simp
      then obtain u v where uv: "r = u @ p @ v" "\<forall>c \<in> set p. \<not> P c" "u = [] \<or> P (last u)" "v = [] \<or> P (hd v)"
        using 1 dr(2) by blast
      have "s = (tw @ d # u) @ p @ v" using s dr(1) uv(1) by simp
      moreover have "P (last (tw @ d # u))" using dw dr(1) uv(3) by auto
      ultimately show ?thesis using uv by blast
    qed
  next
    assume "\<exists>u v. s = u @ p @ v \<and> (\<forall>c \<in> set p. \<not> P c) \<and> (u = [] \<or> P (last u)) \<and> (v = [] \<or> P (hd v))"
    then obtain u v where uv: "s = u @ p @ v" "\<forall>c \<in> set p. \<not> P c" "u = [] \<or> P (last u)" "v = [] \<or> P (hd v)"
      by blast
    show "p \<in> set (split_by P s)"
    proof (cases "u = []")
      case True
      have "takeWhile (\<lambda>c. \<not> P c) (p @ v) = p"
        using uv(2,4) by (cases v) (auto simp: takeWhile_append2 intro: takeWhile_eq_all_conv [THEN iffD2])
      then have "tw = p" using uv(1) True by (simp add: tw_def)
      then show ?thesis unfolding split_by_unfold [of P s] tw_def by simp
    next
      case False
      then have "\<exists>c \<in> set u. P c" using uv(3) by force
      then obtain u1 d u2 where u: "u = u1 @ d # u2" "P d" "\<forall>c \<in> set u1. \<not> P c"
        using split_list_first_prop by (metis (no_types, lifting))
      then have "dw = d # u2 @ p @ v"
        unfolding dw_def uv(1) by (simp add: dropWhile_append2)
      moreover have "u2 = [] \<or> P (last u2)" using uv(3) u(1) by (cases u2) auto
      moreover have "length (u2 @ p @ v) < length s" using uv(1) u(1) by simp
      ultimately show ?thesis
        using 1 uv unfolding split_by_unfold [of P s] dw_def by auto
    qed
  qed
qed

text \<open>\<^verbatim>\<open>str::split_once\<close> of a string separator: the parts around its first occurrence.\<close>

fun split_once :: "string \<Rightarrow> string \<Rightarrow> (string \<times> string) option" where
  "split_once sep [] = (if sep = [] then Some ([], []) else None)"
| "split_once sep (c # cs) =
    (if prefix sep (c # cs) then Some ([], drop (length sep) (c # cs))
     else map_option (\<lambda>(a, b). (c # a, b)) (split_once sep cs))"

lemma split_once_Some: "split_once sep s = Some (a, b) \<Longrightarrow> s = a @ sep @ b"
proof (induction s arbitrary: a)
  case Nil
  then show ?case by (auto split: if_splits)
next
  case (Cons c cs)
  then show ?case by (auto simp: prefix_def split: if_splits)
qed

lemma split_once_None: "split_once sep s = None \<longleftrightarrow> \<not> contains_str s sep"
  by (induction s) auto

text \<open>\<^verbatim>\<open>str::strip_prefix\<close> and \<^verbatim>\<open>str::strip_suffix\<close>.\<close>

definition strip_prefix :: "string \<Rightarrow> string \<Rightarrow> string option" where
  "strip_prefix pre s = (if prefix pre s then Some (drop (length pre) s) else None)"

lemma strip_prefix_append [simp]: "strip_prefix pre (pre @ s) = Some s"
  by (simp add: strip_prefix_def)

lemma strip_prefix_Some: "strip_prefix pre s = Some t \<longleftrightarrow> s = pre @ t"
  by (auto simp: strip_prefix_def prefix_def split: if_splits)

definition strip_suffix :: "string \<Rightarrow> string \<Rightarrow> string option" where
  "strip_suffix suf s = (if suffix suf s then Some (take (length s - length suf) s) else None)"

subsection \<open>White space\<close>

text \<open>The UTF-8 encodings of the 25 characters with the Unicode property White\_Space.\<close>

definition white_space :: "string list" where
  "white_space = map (map byte)
     ([[9], [10], [11], [12], [13], [32], [194, 133], [194, 160], [225, 154, 128]]
      @ map (\<lambda>b. [226, 128, b]) [128, 129, 130, 131, 132, 133, 134, 135, 136, 137, 138]
      @ [[226, 128, 168], [226, 128, 169], [226, 128, 175], [226, 129, 159], [227, 128, 128]])"

lemma find_Some_in: "find P xs = Some x \<Longrightarrow> x \<in> set xs \<and> P x"
  by (auto simp: find_Some_iff in_set_conv_nth)

lemma find_None_all: "find P xs = None \<Longrightarrow> x \<in> set xs \<Longrightarrow> \<not> P x"
  by (auto simp: find_None_iff)

function strip_front :: "string list \<Rightarrow> string \<Rightarrow> string" where
  "strip_front ws s =
    (case find (\<lambda>w. w \<noteq> [] \<and> prefix w s) ws of
       None \<Rightarrow> s
     | Some w \<Rightarrow> strip_front ws (drop (length w) s))"
  by pat_completeness auto
termination
proof (relation "measure (length \<circ> snd)")
  fix ws :: "string list" and s w
  assume "find (\<lambda>w. w \<noteq> [] \<and> prefix w s) ws = Some w"
  then have "w \<noteq> []" "prefix w s" using find_Some_in by fastforce+
  then have "0 < length w" "length w \<le> length s" by (simp_all add: prefix_length_le)
  then have "length s - length w < length s" by linarith
  then show "((ws, drop (length w) s), ws, s) \<in> measure (length \<circ> snd)" by simp
qed simp

declare strip_front.simps [simp del]

definition trim_start :: "string \<Rightarrow> string" where
  "trim_start s = strip_front white_space s"

definition trim_end :: "string \<Rightarrow> string" where
  "trim_end s = rev (strip_front (map rev white_space) (rev s))"

definition trim :: "string \<Rightarrow> string" where
  "trim s = trim_end (trim_start s)"

lemma strip_front_suffix: "suffix (strip_front ws s) s"
proof (induction ws s rule: strip_front.induct)
  case (1 ws s)
  show ?case
  proof (cases "find (\<lambda>w. w \<noteq> [] \<and> prefix w s) ws")
    case None
    then show ?thesis by (simp add: strip_front.simps)
  next
    case (Some w)
    then have "suffix (strip_front ws s) (drop (length w) s)"
      using 1 by (simp add: strip_front.simps)
    then show ?thesis using suffix_drop suffix_order.trans by blast
  qed
qed

lemma strip_front_done: "find (\<lambda>w. w \<noteq> [] \<and> prefix w (strip_front ws s)) ws = None"
proof (induction ws s rule: strip_front.induct)
  case (1 ws s)
  then show ?case
    by (cases "find (\<lambda>w. w \<noteq> [] \<and> prefix w s) ws")
       (simp_all add: strip_front.simps [of ws s])
qed

lemma strip_front_id:
  "(\<And>w. w \<in> set ws \<Longrightarrow> w \<noteq> [] \<Longrightarrow> \<not> prefix w s) \<Longrightarrow> strip_front ws s = s"
proof -
  assume "\<And>w. w \<in> set ws \<Longrightarrow> w \<noteq> [] \<Longrightarrow> \<not> prefix w s"
  then have "find (\<lambda>w. w \<noteq> [] \<and> prefix w s) ws = None"
    by (auto simp: find_None_iff)
  then show ?thesis by (simp add: strip_front.simps)
qed

lemma strip_front_no_prefix:
  "w \<in> set ws \<Longrightarrow> w \<noteq> [] \<Longrightarrow> \<not> prefix w (strip_front ws s)"
  using strip_front_done [of ws s] by (auto simp: find_None_iff)

lemma trim_end_prefix: "prefix (trim_end s) s"
  unfolding trim_end_def
  using strip_front_suffix [of "map rev white_space" "rev s"] by (simp add: suffix_to_prefix)

lemma trim_start_idem [simp]: "trim_start (trim_start s) = trim_start s"
  unfolding trim_start_def by (rule strip_front_id) (rule strip_front_no_prefix)

lemma trim_end_idem [simp]: "trim_end (trim_end s) = trim_end s"
proof -
  have "strip_front (map rev white_space) (strip_front (map rev white_space) (rev s))
      = strip_front (map rev white_space) (rev s)"
    by (rule strip_front_id) (rule strip_front_no_prefix)
  then show ?thesis by (simp add: trim_end_def)
qed

text \<open>Trimming the end leaves a start that no white space character begins.\<close>

lemma trim_start_of_prefix:
  assumes "prefix t s" and "trim_start s = s"
  shows "trim_start t = t"
  unfolding trim_start_def
proof (rule strip_front_id)
  fix w assume w: "w \<in> set white_space" "w \<noteq> []"
  have "\<not> prefix w (strip_front white_space s)" using w by (rule strip_front_no_prefix)
  then have "\<not> prefix w s" using assms(2) by (simp add: trim_start_def)
  then show "\<not> prefix w t" using assms(1) prefix_order.trans by blast
qed

lemma trim_idem [simp]: "trim (trim s) = trim s"
proof -
  have "trim_start (trim s) = trim s"
    unfolding trim_def by (rule trim_start_of_prefix [OF trim_end_prefix]) simp
  then show ?thesis by (simp add: trim_def)
qed

text \<open>Stripping stops at a character that is part of no white space sequence.\<close>

lemma prefix_upto: "prefix w (u @ c # v) \<Longrightarrow> c \<notin> set w \<Longrightarrow> prefix w u"
  by (auto simp: prefix_append prefix_Cons)

lemma strip_front_stop_id:
  assumes "\<And>w. w \<in> set ws \<Longrightarrow> c \<notin> set w" and "strip_front ws u = u"
  shows "strip_front ws (u @ c # v) = u @ c # v"
proof (rule strip_front_id)
  fix w assume w: "w \<in> set ws" "w \<noteq> []"
  have "\<not> prefix w u" using strip_front_no_prefix [OF w, of u] unfolding assms(2) .
  then show "\<not> prefix w (u @ c # v)" using prefix_upto [of w u c v] assms(1) [OF w(1)] by blast
qed

lemma strip_front_stop:
  "(\<And>w. w \<in> set ws \<Longrightarrow> c \<notin> set w) \<Longrightarrow> \<exists>u'. suffix u' u \<and> strip_front ws (u @ c # v) = u' @ c # v"
proof (induction "length u" arbitrary: u rule: less_induct)
  case less
  show ?case
  proof (cases "find (\<lambda>w. w \<noteq> [] \<and> prefix w (u @ c # v)) ws")
    case None
    then have "strip_front ws (u @ c # v) = u @ c # v" by (simp add: strip_front.simps)
    then show ?thesis by blast
  next
    case (Some w)
    then have w: "w \<in> set ws" "w \<noteq> []" "prefix w (u @ c # v)"
      using find_Some_in [OF Some] by simp_all
    have short: "length w \<le> length u"
      using prefix_upto [OF w(3)] less.prems [OF w(1)] by (simp add: prefix_length_le)
    have step: "strip_front ws (u @ c # v) = strip_front ws (drop (length w) u @ c # v)"
      using Some short by (simp add: strip_front.simps [of ws "u @ c # v"])
    have "length (drop (length w) u) < length u" using w(2) short by (cases w) auto
    then obtain u' where "suffix u' (drop (length w) u)"
      "strip_front ws (drop (length w) u @ c # v) = u' @ c # v"
      using less by blast
    then show ?thesis using step suffix_order.trans [OF _ suffix_drop] by metis
  qed
qed

lemma trim_Nil [simp]: "trim [] = []"
proof -
  have "strip_front ws [] = []" for ws by (rule strip_front_id) auto
  then show ?thesis by (simp add: trim_def trim_start_def trim_end_def)
qed

text \<open>\<^verbatim>\<open>split_whitespace\<close>: the maximal runs without a white space character.\<close>

fun take_word :: "string \<Rightarrow> string \<times> string" where
  "take_word [] = ([], [])"
| "take_word (c # cs) =
    (if \<exists>w \<in> set white_space. prefix w (c # cs) then ([], c # cs)
     else (case take_word cs of (a, b) \<Rightarrow> (c # a, b)))"

lemma take_word_length: "length (fst (take_word s)) + length (snd (take_word s)) = length s"
  by (induction s) (auto split: prod.splits)

function split_whitespace :: "string \<Rightarrow> string list" where
  "split_whitespace s =
    (let t = trim_start s; (w, rest) = take_word t in
     if w = [] then [] else w # split_whitespace rest)"
  by pat_completeness auto
termination
proof (relation "measure length")
  fix s t p w rest
  assume a: "t = trim_start s" "p = take_word t" "(w, rest) = p" "w \<noteq> []"
  have "length t \<le> length s"
    using a(1) strip_front_suffix [of white_space s] by (simp add: trim_start_def suffix_length_le)
  moreover have "length w + length rest = length t"
    using a take_word_length [of t] by (metis fst_conv snd_conv)
  ultimately show "(rest, s) \<in> measure length" using a(4) by (cases w) auto
qed simp

declare split_whitespace.simps [simp del]

section \<open>Decimal numbers\<close>

definition digit :: "nat \<Rightarrow> char" where
  "digit n = byte (48 + n)"

definition digits_value :: "string \<Rightarrow> nat" where
  "digits_value s = foldl (\<lambda>n c. 10 * n + (code c - 48)) 0 s"

fun show_nat :: "nat \<Rightarrow> string" where
  "show_nat n = (if n < 10 then [digit n] else show_nat (n div 10) @ [digit (n mod 10)])"

declare show_nat.simps [simp del]

definition show_int :: "int \<Rightarrow> string" where
  "show_int i = (if i < 0 then ''-'' @ show_nat (nat (- i)) else show_nat (nat i))"

lemma code_digit: "n < 10 \<Longrightarrow> code (digit n) = 48 + n"
  by (simp add: digit_def code_byte)

lemma show_nat_ne [simp]: "show_nat n \<noteq> []"
  by (subst show_nat.simps) simp

lemma show_nat_digits: "c \<in> set (show_nat n) \<Longrightarrow> is_digit c"
proof (induction n arbitrary: c rule: show_nat.induct)
  case (1 n)
  show ?case
  proof (cases "n < 10")
    case True
    then show ?thesis using "1.prems"
      by (simp add: show_nat.simps [of n] is_digit_def code_digit)
  next
    case False
    then have "c \<in> set (show_nat (n div 10)) \<or> c = digit (n mod 10)"
      using "1.prems" by (subst (asm) show_nat.simps) auto
    then show ?thesis
      using "1.IH" [OF False] by (auto simp: is_digit_def code_digit)
  qed
qed

lemma digits_value_show_nat [simp]: "digits_value (show_nat n) = n"
proof (induction n rule: show_nat.induct)
  case (1 n)
  show ?case
  proof (cases "n < 10")
    case True
    then show ?thesis by (simp add: show_nat.simps [of n] digits_value_def code_digit)
  next
    case False
    then have "foldl (\<lambda>n c. 10 * n + (code c - 48)) 0 (show_nat (n div 10)) = n div 10"
      using 1 by (simp add: digits_value_def)
    then show ?thesis using False
      by (simp add: show_nat.simps [of n] digits_value_def code_digit)
  qed
qed

lemma show_nat_inject [simp]: "show_nat m = show_nat n \<longleftrightarrow> m = n"
  by (metis digits_value_show_nat)

section \<open>Comparators\<close>

text \<open>
  \<^verbatim>\<open>std::cmp::Ordering\<close>, the last maximum that \<^verbatim>\<open>Iterator::max_by\<close> returns and the stable
  \<^verbatim>\<open>slice::sort_by\<close>.  The locale states what a comparison function promises on the
  values it is used on; what selection and sorting then guarantee is proved once.
\<close>

datatype ordering = Less | Equal | Greater

definition cmp_of :: "'a::linorder \<Rightarrow> 'a \<Rightarrow> ordering" where
  "cmp_of a b = (if a < b then Less else if a = b then Equal else Greater)"

lemma cmp_of_simps [simp]:
  "cmp_of a b = Less \<longleftrightarrow> a < b" "cmp_of a b = Equal \<longleftrightarrow> a = b"
  "cmp_of a b = Greater \<longleftrightarrow> b < a"
  by (auto simp: cmp_of_def)

fun max_by :: "('a \<Rightarrow> 'a \<Rightarrow> ordering) \<Rightarrow> 'a list \<Rightarrow> 'a option" where
  "max_by cmp [] = None"
| "max_by cmp (x # xs) = Some (foldl (\<lambda>m y. if cmp m y = Greater then m else y) x xs)"

fun insert_by :: "('a \<Rightarrow> 'a \<Rightarrow> ordering) \<Rightarrow> 'a \<Rightarrow> 'a list \<Rightarrow> 'a list" where
  "insert_by cmp x [] = [x]"
| "insert_by cmp x (y # ys) =
    (if cmp x y = Greater then y # insert_by cmp x ys else x # y # ys)"

definition sort_by :: "('a \<Rightarrow> 'a \<Rightarrow> ordering) \<Rightarrow> 'a list \<Rightarrow> 'a list" where
  "sort_by cmp xs = foldr (insert_by cmp) xs []"

lemma mset_insert_by [simp]: "mset (insert_by cmp x xs) = add_mset x (mset xs)"
  by (induction xs) auto

lemma mset_sort_by [simp]: "mset (sort_by cmp xs) = mset xs"
  by (induction xs) (auto simp: sort_by_def)

lemma set_sort_by [simp]: "set (sort_by cmp xs) = set xs"
  by (metis mset_sort_by set_mset_mset)

lemma set_insert_by [simp]: "set (insert_by cmp x xs) = insert x (set xs)"
  by (metis mset_insert_by set_mset_add_mset_insert set_mset_mset)

lemma max_by_None [simp]: "max_by cmp xs = None \<longleftrightarrow> xs = []"
  by (cases xs) auto

lemma max_by_mem: "max_by cmp xs = Some m \<Longrightarrow> m \<in> set xs"
proof -
  have fold: "foldl (\<lambda>m y. if cmp m y = Greater then m else y) x ys \<in> insert x (set ys)" for x ys
    by (induction ys arbitrary: x) auto
  show "max_by cmp xs = Some m \<Longrightarrow> m \<in> set xs"
    using fold by (cases xs) fastforce+
qed

locale comparator =
  fixes cmp :: "'a \<Rightarrow> 'a \<Rightarrow> ordering" and dom_ok :: "'a \<Rightarrow> bool"
  assumes cmp_refl: "dom_ok a \<Longrightarrow> cmp a a = Equal"
    and cmp_flip: "dom_ok a \<Longrightarrow> dom_ok b \<Longrightarrow> cmp a b = Greater \<longleftrightarrow> cmp b a = Less"
    and cmp_trans: "dom_ok a \<Longrightarrow> dom_ok b \<Longrightarrow> dom_ok c \<Longrightarrow>
      cmp a b \<noteq> Greater \<Longrightarrow> cmp b c \<noteq> Greater \<Longrightarrow> cmp a c \<noteq> Greater"
begin

lemma cmp_total: "dom_ok a \<Longrightarrow> dom_ok b \<Longrightarrow> cmp a b \<noteq> Greater \<or> cmp b a \<noteq> Greater"
  using cmp_flip [of a b] by (cases "cmp b a") auto

lemma fold_max:
  assumes "dom_ok x" and "\<forall>y \<in> set ys. dom_ok y"
  shows "\<forall>z \<in> insert x (set ys).
    cmp z (foldl (\<lambda>m y. if cmp m y = Greater then m else y) x ys) \<noteq> Greater"
  using assms
proof (induction ys arbitrary: x)
  case Nil
  then show ?case using cmp_refl by simp
next
  case (Cons y ys)
  define k where "k = (if cmp x y = Greater then x else y)"
  have ok: "dom_ok k" using Cons.prems by (simp add: k_def)
  have xk: "cmp x k \<noteq> Greater" and yk: "cmp y k \<noteq> Greater"
    using Cons.prems cmp_refl cmp_flip [of x y] cmp_flip [of y x] by (auto simp: k_def)
  define m where "m = foldl (\<lambda>m y. if cmp m y = Greater then m else y) k ys"
  have all: "\<forall>z \<in> insert k (set ys). cmp z m \<noteq> Greater"
    unfolding m_def using Cons.IH [OF ok] Cons.prems by simp
  have "m \<in> insert k (set ys)"
    unfolding m_def by (induction ys arbitrary: k rule: rev_induct) auto
  then have okm: "dom_ok m" using ok Cons.prems by auto
  have "cmp x m \<noteq> Greater" "cmp y m \<noteq> Greater"
    using cmp_trans [of x k m] cmp_trans [of y k m] all xk yk okm ok Cons.prems by simp_all
  then show ?case using all by (simp add: m_def k_def)
qed

lemma max_by_greatest:
  assumes "max_by cmp xs = Some m" and "\<forall>x \<in> set xs. dom_ok x"
  shows "\<forall>x \<in> set xs. cmp x m \<noteq> Greater"
  using assms fold_max by (cases xs) fastforce+

lemma sorted_insert_by:
  assumes "sorted_wrt (\<lambda>a b. cmp a b \<noteq> Greater) xs" "dom_ok x" "\<forall>y \<in> set xs. dom_ok y"
  shows "sorted_wrt (\<lambda>a b. cmp a b \<noteq> Greater) (insert_by cmp x xs)"
  using assms
proof (induction xs)
  case Nil
  then show ?case by simp
next
  case (Cons y ys)
  show ?case
  proof (cases "cmp x y = Greater")
    case True
    then have "cmp y x \<noteq> Greater" using Cons.prems cmp_total by force
    then show ?thesis using Cons True by simp
  next
    case False
    moreover have "cmp x z \<noteq> Greater" if "z \<in> set ys" for z
      using False that Cons.prems cmp_trans [of x y z] by simp
    ultimately show ?thesis using Cons.prems by auto
  qed
qed

lemma sorted_sort_by:
  "\<forall>x \<in> set xs. dom_ok x \<Longrightarrow> sorted_wrt (\<lambda>a b. cmp a b \<noteq> Greater) (sort_by cmp xs)"
proof (induction xs)
  case Nil
  then show ?case by (simp add: sort_by_def)
next
  case (Cons x xs)
  have "sort_by cmp (x # xs) = insert_by cmp x (sort_by cmp xs)" by (simp add: sort_by_def)
  then show ?case using Cons sorted_insert_by by simp
qed

end

interpretation linear: comparator cmp_of "\<lambda>_. True"
  by unfold_locales (auto simp: cmp_of_def split: if_splits)

section \<open>Lists and options\<close>

lemma distinct_map_filter: "distinct (map f xs) \<Longrightarrow> distinct (map f (filter P xs))"
  by (induction xs) auto

lemma distinct_key_unique:
  "distinct (map f xs) \<Longrightarrow> x \<in> set xs \<Longrightarrow> y \<in> set xs \<Longrightarrow> f x = f y \<Longrightarrow> x = y"
  by (induction xs) (auto simp: image_iff)

lemma map_update_key:
  "(\<And>x. f (g x) = f x) \<Longrightarrow> map f (map g xs) = map f xs"
  by simp

section \<open>Ledgers of claims\<close>

text \<open>
  An operation that grants every key once: the first claim of a key succeeds, later ones do
  not, and a claim changes nothing about other keys.  A run of claims accepts exactly the
  first occurrences of the unclaimed keys.
\<close>

fun accepted :: "('a \<Rightarrow> 's \<Rightarrow> bool \<times> 's) \<Rightarrow> 'a list \<Rightarrow> 's \<Rightarrow> 'a list \<times> 's" where
  "accepted claim [] s = ([], s)"
| "accepted claim (a # as) s =
    (let (ok, s1) = claim a s; (rest, s2) = accepted claim as s1 in
     (if ok then a # rest else rest, s2))"

locale claim_ledger =
  fixes claim :: "'a \<Rightarrow> 's \<Rightarrow> bool \<times> 's"
    and key :: "'a \<Rightarrow> 'k"
    and claimed :: "'s \<Rightarrow> 'k \<Rightarrow> bool"
  assumes claim_result: "fst (claim a s) = (\<not> claimed s (key a))"
    and claim_claimed: "claimed (snd (claim a s)) k = (k = key a \<or> claimed s k)"
begin

lemma accepted_run:
  "distinct (map key (fst (accepted claim as s)))
   \<and> key ` set (fst (accepted claim as s)) = {k \<in> key ` set as. \<not> claimed s k}
   \<and> claimed (snd (accepted claim as s)) = (\<lambda>k. k \<in> key ` set as \<or> claimed s k)"
proof (induction as arbitrary: s)
  case Nil
  then show ?case by simp
next
  case (Cons a as)
  obtain ok s1 where c: "claim a s = (ok, s1)" by (cases "claim a s")
  obtain rest s2 where r: "accepted claim as s1 = (rest, s2)" by (cases "accepted claim as s1")
  have ok: "ok = (\<not> claimed s (key a))" and s1: "\<And>k. claimed s1 k = (k = key a \<or> claimed s k)"
    using claim_result [of a s] claim_claimed [of a s] c by auto
  have ih: "distinct (map key rest)" "key ` set rest = {k \<in> key ` set as. \<not> claimed s1 k}"
    "claimed s2 = (\<lambda>k. k \<in> key ` set as \<or> claimed s1 k)"
    using Cons.IH [of s1] r by auto
  have notin: "key a \<notin> key ` set rest" using ih(2) s1 by auto
  have run: "accepted claim (a # as) s = (if ok then a # rest else rest, s2)"
    using c r by simp
  have one: "distinct (map key (if ok then a # rest else rest))" using ih(1) notin by auto
  have two: "key ` set (if ok then a # rest else rest) = {k \<in> key ` set (a # as). \<not> claimed s k}"
    using ih(2) ok s1 by auto
  have three: "claimed s2 = (\<lambda>k. k \<in> key ` set (a # as) \<or> claimed s k)"
    using ih(3) s1 by auto
  show ?case using one two three run by simp
qed

end

section \<open>Leases\<close>

text \<open>
  Operations that grant keys until a deadline.  A key is granted only when its deadline is not
  set or has passed, so after a grant no claim made within the lease grants the key again,
  whatever the other claims of the run ask for.
\<close>

fun grants :: "(int \<Rightarrow> 'a \<Rightarrow> 's \<Rightarrow> 'k list \<times> 's) \<Rightarrow> (int \<times> 'a) list \<Rightarrow> 's \<Rightarrow> 'k list" where
  "grants grant [] s = []"
| "grants grant ((t, a) # cs) s =
    (let (ks, s1) = grant t a s in ks @ grants grant cs s1)"

locale lease_table =
  fixes grant :: "int \<Rightarrow> 'a \<Rightarrow> 's \<Rightarrow> 'k list \<times> 's"
    and deadline :: "'s \<Rightarrow> 'k \<Rightarrow> int option"
    and inv :: "'s \<Rightarrow> bool"
    and dur :: int
  assumes grant_free: "inv s \<Longrightarrow> k \<in> set (fst (grant t a s)) \<Longrightarrow>
      (case deadline s k of None \<Rightarrow> True | Some u \<Rightarrow> u < t)"
    and grant_locks: "inv s \<Longrightarrow> k \<in> set (fst (grant t a s)) \<Longrightarrow>
      deadline (snd (grant t a s)) k = Some (t + dur)"
    and grant_others: "inv s \<Longrightarrow> k \<notin> set (fst (grant t a s)) \<Longrightarrow>
      deadline (snd (grant t a s)) k = deadline s k"
    and grant_inv: "inv s \<Longrightarrow> inv (snd (grant t a s))"
begin

lemma held_not_granted:
  assumes "inv s" and "deadline s k = Some u" and "\<forall>c \<in> set cs. fst c \<le> u"
  shows "k \<notin> set (grants grant cs s)"
  using assms
proof (induction cs arbitrary: s)
  case Nil
  then show ?case by simp
next
  case (Cons c cs)
  obtain t a where c: "c = (t, a)" by (cases c)
  obtain ks s1 where g: "grant t a s = (ks, s1)" by (cases "grant t a s")
  have "k \<notin> set ks" using grant_free [of s k t a] Cons.prems c g by auto
  moreover have "deadline s1 k = Some u" "inv s1"
    using grant_others [of s k t a] grant_inv [of s t a] \<open>k \<notin> set ks\<close> Cons.prems g by auto
  ultimately show ?case using Cons c g by simp
qed

lemma lease_exclusive:
  assumes "inv s" and "k \<in> set (fst (grant t a s))" and "\<forall>c \<in> set cs. fst c \<le> t + dur"
  shows "k \<notin> set (grants grant cs (snd (grant t a s)))"
  using held_not_granted [OF grant_inv [OF assms(1)] grant_locks [OF assms(1,2)] assms(3)] .

end

end
