(* ===== verification/Breaker.thy ===== *)
theory Breaker
  imports Prelude
begin

text \<open>
  The circuit breaker of \<^verbatim>\<open>src/src/breaker.rs\<close>, shared by the notification sinks and the
  advisory lookup.  The failure streak is a 32 bit counter that saturates; an
  \<^verbatim>\<open>Instant\<close> and a \<^verbatim>\<open>Duration\<close> are milliseconds of the monotonic clock.  The main result
  replaces the state machine by its history: streak and window depend only on the
  failures since the last success.
\<close>

section \<open>State and operations\<close>

type_synonym instant = nat
type_synonym duration = nat

record breaker =
  consecutive_failures :: "32 word"
  open_until :: "instant option"

definition u32_saturating_add :: "32 word \<Rightarrow> 32 word \<Rightarrow> 32 word" where
  "u32_saturating_add a b = (if unat a + unat b < 2 ^ 32 then a + b else - 1)"

definition breaker_new :: breaker where
  "breaker_new = \<lparr>consecutive_failures = 0, open_until = None\<rparr>"

definition breaker_allows :: "breaker \<Rightarrow> instant \<Rightarrow> bool" where
  "breaker_allows b now = (case open_until b of None \<Rightarrow> True | Some t \<Rightarrow> t \<le> now)"

definition breaker_reset :: "breaker \<Rightarrow> breaker" where
  "breaker_reset b = b\<lparr>consecutive_failures := 0, open_until := None\<rparr>"

definition breaker_record ::
  "breaker \<Rightarrow> instant \<Rightarrow> bool \<Rightarrow> 32 word \<Rightarrow> duration \<Rightarrow> breaker \<times> bool" where
  "breaker_record b now success failure_threshold cooldown =
    (if success then (breaker_reset b, False)
     else
       let failures = u32_saturating_add (consecutive_failures b) 1;
           b1 = b\<lparr>consecutive_failures := failures\<rparr> in
       if failure_threshold \<le> failures then
         let already_open = (case open_until b of None \<Rightarrow> False | Some t \<Rightarrow> now < t) in
         (b1\<lparr>open_until := Some (now + cooldown)\<rparr>, \<not> already_open)
       else (b1, False))"

section \<open>The breaker as a function of its history\<close>

text \<open>A history lists the recorded outcomes, the oldest first.\<close>

type_synonym breaker_event = "instant \<times> bool"

definition breaker_after :: "32 word \<Rightarrow> duration \<Rightarrow> breaker_event list \<Rightarrow> breaker" where
  "breaker_after thr cd es =
     foldl (\<lambda>b (now, ok). fst (breaker_record b now ok thr cd)) breaker_new es"

definition failure_streak :: "breaker_event list \<Rightarrow> nat" where
  "failure_streak es = length (takeWhile (\<lambda>e. \<not> snd e) (rev es))"

definition tripped :: "32 word \<Rightarrow> breaker_event list \<Rightarrow> bool" where
  "tripped thr es \<longleftrightarrow> 0 < failure_streak es \<and> unat thr \<le> failure_streak es"

definition streak_word :: "nat \<Rightarrow> 32 word" where
  "streak_word n = word_of_nat (min n (2 ^ 32 - 1))"

definition breaker_spec :: "32 word \<Rightarrow> duration \<Rightarrow> breaker_event list \<Rightarrow> breaker" where
  "breaker_spec thr cd es =
    \<lparr>consecutive_failures = streak_word (failure_streak es),
     open_until = (if tripped thr es then Some (fst (last es) + cd) else None)\<rparr>"

lemma unat_word32_max: "unat (- 1 :: 32 word) = 2 ^ 32 - 1"
  by (simp add: unsigned_minus_1_eq_mask mask_eq_exp_minus_1)

lemma u32_saturating_add_unat:
  "unat (u32_saturating_add a b) = min (unat a + unat b) (2 ^ 32 - 1)"
proof (cases "unat a + unat b < 2 ^ 32")
  case True
  then have "unat (a + b) = unat a + unat b"
    using unat_add_lem [of a b] by simp
  then show ?thesis using True by (simp add: u32_saturating_add_def)
next
  case False
  then show ?thesis by (simp add: u32_saturating_add_def unat_word32_max)
qed

lemma failure_streak_snoc [simp]:
  "failure_streak (es @ [(t, ok)]) = (if ok then 0 else Suc (failure_streak es))"
  by (simp add: failure_streak_def)

lemma failure_streak_Nil [simp]: "failure_streak [] = 0"
  by (simp add: failure_streak_def)

lemma unat_streak [simp]: "unat (streak_word n) = min n (2 ^ 32 - 1)"
  by (simp add: streak_word_def unat_of_nat)

lemma streak_word_0 [simp]: "streak_word 0 = 0"
  by (simp add: streak_word_def)

lemma next_streak [simp]: "u32_saturating_add (streak_word n) 1 = streak_word (Suc n)"
  unfolding word_unat_eq_iff u32_saturating_add_unat unat_streak by simp

lemma next_streak_0 [simp]: "u32_saturating_add 0 1 = streak_word (Suc 0)"
  using next_streak [of 0] by (simp del: next_streak)

lemma threshold_reached [simp]: "thr \<le> streak_word n \<longleftrightarrow> unat thr \<le> n"
proof -
  have "unat thr < 2 ^ 32" using unsigned_less [of thr] by simp
  then show ?thesis unfolding word_le_nat_alt unat_streak by auto
qed

lemma breaker_after_snoc:
  "breaker_after thr cd (es @ [(t, ok)]) = fst (breaker_record (breaker_after thr cd es) t ok thr cd)"
  by (simp add: breaker_after_def)

lemma breaker_after_eq_spec: "breaker_after thr cd es = breaker_spec thr cd es"
proof (induction es rule: rev_induct)
  case Nil
  then show ?case
    by (simp add: breaker_after_def breaker_spec_def breaker_new_def tripped_def)
next
  case (snoc e es)
  obtain t ok where e: "e = (t, ok)" by (cases e)
  have "\<not> tripped thr es" if "\<not> unat thr \<le> Suc (failure_streak es)"
    using that by (auto simp: tripped_def)
  then show ?case
    unfolding e breaker_after_snoc snoc.IH
    by (auto simp: breaker_record_def breaker_spec_def breaker_reset_def Let_def tripped_def)
qed

lemma breaker_allows_spec:
  "breaker_allows (breaker_spec thr cd es) now
     = (if tripped thr es then fst (last es) + cd \<le> now else True)"
  by (simp add: breaker_allows_def breaker_spec_def)

lemma breaker_record_report:
  "snd (breaker_record b now ok thr cd)
     = (\<not> ok \<and> thr \<le> u32_saturating_add (consecutive_failures b) 1 \<and> breaker_allows b now)"
  by (auto simp: breaker_record_def breaker_allows_def Let_def split: option.splits)

text \<open>
  the breaker is the state machine its history prescribes.  After any sequence of recorded
  outcomes the streak is the number of failures since the last success (saturating at
  \<open>2 ^ 32 - 1\<close>), calls are rejected exactly from the outcome that reached the threshold until
  the cooldown after the latest failure has passed, and a further outcome is reported as an
  opening exactly when it is a failure that reaches the threshold while calls were allowed.
\<close>

theorem breaker_follows_history:
  "breaker_after thr cd es = breaker_spec thr cd es
   \<and> breaker_allows (breaker_after thr cd es) now
       = (if tripped thr es then fst (last es) + cd \<le> now else True)
   \<and> snd (breaker_record (breaker_after thr cd es) now ok thr cd)
       = (\<not> ok \<and> unat thr \<le> Suc (failure_streak es)
          \<and> (if tripped thr es then fst (last es) + cd \<le> now else True))"
  unfolding breaker_after_eq_spec breaker_record_report breaker_allows_spec
  by (simp add: breaker_spec_def)

end
