(* ===== verification/Releases.thy ===== *)
theory Releases
  imports Prelude
begin

text \<open>
  The release value of \<^verbatim>\<open>src/src/model.rs\<close>: construction, version parsing, and the order by which
  the newest release is picked and release lists are sorted.  The \<^verbatim>\<open>semver\<close> crate and the
  standard library's unspecified \<^verbatim>\<open>DefaultHasher\<close> are parameters: a record of the parser, the
  "has a pre-release part" test and the printer over a linearly ordered type of versions,
  and a 64 bit hash of body and URL.  A timestamp is an integer number of nanoseconds.
\<close>

section \<open>Version parsing\<close>

record 'v semver =
  sv_parse :: "string \<Rightarrow> 'v option"
  sv_pre :: "'v \<Rightarrow> bool"
  sv_show :: "'v \<Rightarrow> string"

definition strip_v :: "string \<Rightarrow> string" where
  "strip_v s = dropWhile (\<lambda>c. c = CHR ''v'' \<or> c = CHR ''V'') s"

definition numeric_core :: "string \<Rightarrow> nat list option" where
  "numeric_core trimmed =
    (let core = hd (split_by (\<lambda>c. c = CHR ''-'' \<or> c = CHR ''+'') trimmed);
         parts = split_by (\<lambda>c. c = CHR ''.'') core in
     if parts = [] \<or> \<not> list_all (\<lambda>p. p \<noteq> [] \<and> list_all is_digit p) parts then None
     else
       let nums = map digits_value (filter (\<lambda>p. digits_value p < 2 ^ 64) parts) in
       if length nums = length parts then Some nums else None)"

definition numeric_parts :: "string \<Rightarrow> nat list option" where
  "numeric_parts tag = numeric_core (strip_v (trim tag))"

definition pad_three :: "nat list \<Rightarrow> nat list" where
  "pad_three nums = nums @ replicate (3 - length nums) 0"

definition lenient_parse :: "'v semver \<Rightarrow> string \<Rightarrow> 'v option" where
  "lenient_parse lib s =
    (case numeric_parts s of
       None \<Rightarrow> None
     | Some ns \<Rightarrow>
         let nums = pad_three ns in
         sv_parse lib (show_nat (nums ! 0) @ ''.'' @ show_nat (nums ! 1) @ ''.'' @ show_nat (nums ! 2)))"

definition parse_version :: "'v semver \<Rightarrow> string \<Rightarrow> 'v option" where
  "parse_version lib tag =
    (let trimmed = strip_v (trim tag) in
     case sv_parse lib trimmed of
       Some v \<Rightarrow> Some v
     | None \<Rightarrow> lenient_parse lib trimmed)"

definition prerelease_markers :: "string list" where
  "prerelease_markers =
    [''alpha'', ''beta'', ''-rc'', ''.rc'', ''snapshot'', ''nightly'', ''preview'', ''canary'', ''-dev'']"

definition is_prerelease :: "'v semver \<Rightarrow> string \<Rightarrow> 'v option \<Rightarrow> bool" where
  "is_prerelease lib tag version =
    (if (case version of None \<Rightarrow> False | Some v \<Rightarrow> sv_pre lib v) then True
     else
       let lower = to_ascii_lowercase tag in
       list_ex (\<lambda>m. contains_str lower m) prerelease_markers)"

section \<open>Releases\<close>

record 'v release =
  rel_id :: string
  rel_raw_tag :: string
  rel_version :: "'v option"
  rel_url :: "string option"
  rel_published_at :: "int option"
  rel_prerelease :: bool
  rel_body :: "string option"

definition release_new :: "'v semver \<Rightarrow> string \<Rightarrow> 'v release" where
  "release_new lib i =
    (let v = parse_version lib i in
     \<lparr>rel_id = i, rel_raw_tag = i, rel_version = v, rel_url = None, rel_published_at = None,
      rel_prerelease = is_prerelease lib i v, rel_body = None\<rparr>)"

definition release_display :: "'v semver \<Rightarrow> 'v release \<Rightarrow> string \<Rightarrow> 'v release" where
  "release_display lib r tag =
    (let v = parse_version lib tag in
     r\<lparr>rel_version := v, rel_prerelease := is_prerelease lib tag v, rel_raw_tag := tag\<rparr>)"

definition with_url :: "'v release \<Rightarrow> string option \<Rightarrow> 'v release" where
  "with_url r u = r\<lparr>rel_url := u\<rparr>"

definition with_published :: "'v release \<Rightarrow> int option \<Rightarrow> 'v release" where
  "with_published r t = r\<lparr>rel_published_at := t\<rparr>"

definition with_body :: "'v release \<Rightarrow> string option \<Rightarrow> 'v release" where
  "with_body r b = r\<lparr>rel_body := b\<rparr>"

definition with_prerelease :: "'v release \<Rightarrow> bool \<Rightarrow> 'v release" where
  "with_prerelease r p = r\<lparr>rel_prerelease := p\<rparr>"

text \<open>Sixteen lower case hexadecimal digits, zero padded.\<close>

definition hex_digit :: "nat \<Rightarrow> char" where
  "hex_digit n = (if n < 10 then byte (48 + n) else byte (87 + n))"

definition hex16 :: "64 word \<Rightarrow> string" where
  "hex16 w = map (\<lambda>i. hex_digit (unat (drop_bit (4 * i) w) mod 16)) (rev [0..<16])"

definition content_fingerprint :: "(string \<Rightarrow> string \<Rightarrow> 64 word) \<Rightarrow> 'v release \<Rightarrow> string" where
  "content_fingerprint hash r =
    hex16 (hash (case rel_body r of None \<Rightarrow> [] | Some b \<Rightarrow> b)
                (case rel_url r of None \<Rightarrow> [] | Some u \<Rightarrow> u))"

section \<open>The order on releases\<close>

definition compare_published :: "'v release \<Rightarrow> 'v release \<Rightarrow> ordering" where
  "compare_published a b =
    (case (rel_published_at a, rel_published_at b) of
       (Some pa, Some pb) \<Rightarrow> cmp_of pa pb
     | (Some _, None) \<Rightarrow> Greater
     | (None, Some _) \<Rightarrow> Less
     | (None, None) \<Rightarrow> cmp_of (rel_raw_tag a) (rel_raw_tag b))"

definition compare_releases :: "'v::linorder release \<Rightarrow> 'v release \<Rightarrow> ordering" where
  "compare_releases a b =
    (case (rel_version a, rel_version b) of
       (Some va, Some vb) \<Rightarrow>
         if cmp_of va vb \<noteq> Equal then cmp_of va vb
         else (case (numeric_parts (rel_raw_tag a), numeric_parts (rel_raw_tag b)) of
             (Some na, Some nb) \<Rightarrow>
               if cmp_of na nb \<noteq> Equal then cmp_of na nb else compare_published a b
           | _ \<Rightarrow> compare_published a b)
     | (Some _, None) \<Rightarrow> Greater
     | (None, Some _) \<Rightarrow> Less
     | (None, None) \<Rightarrow> compare_published a b)"

definition pick_latest :: "'v::linorder release list \<Rightarrow> 'v release option" where
  "pick_latest rs = max_by compare_releases rs"

definition sort_releases_newest_first :: "'v::linorder release list \<Rightarrow> 'v release list" where
  "sort_releases_newest_first rs = sort_by (\<lambda>a b. compare_releases b a) rs"

section \<open>Parsing lemmas\<close>

lemma strip_v_idem [simp]: "strip_v (strip_v s) = strip_v s"
  by (simp add: strip_v_def dropWhile_idem)

fun join_dots :: "nat list \<Rightarrow> string" where
  "join_dots [] = []"
| "join_dots [n] = show_nat n"
| "join_dots (n # m # ns) = show_nat n @ ''.'' @ join_dots (m # ns)"

lemma digit_not_dot: "is_digit c \<Longrightarrow> c \<noteq> CHR ''.'' \<and> c \<noteq> CHR ''-'' \<and> c \<noteq> CHR ''+''"
  by (auto simp: is_digit_def code_def)

lemma digit_not_v: "is_digit c \<Longrightarrow> c \<noteq> CHR ''v'' \<and> c \<noteq> CHR ''V''"
  by (auto simp: is_digit_def code_def)

lemma join_dots_split: "ns \<noteq> [] \<Longrightarrow>
    split_by (\<lambda>c. c = CHR ''.'') (join_dots ns) = map show_nat ns"
proof (induction ns rule: join_dots.induct)
  case (2 n)
  then show ?case using show_nat_digits digit_not_dot by (fastforce intro: split_by_none)
next
  case (3 n m ns)
  have "split_by (\<lambda>c. c = CHR ''.'') (show_nat n @ CHR ''.'' # join_dots (m # ns))
      = show_nat n # split_by (\<lambda>c. c = CHR ''.'') (join_dots (m # ns))"
    using show_nat_digits digit_not_dot by (intro split_by_append_sep) blast+
  then show ?case using 3 by simp
qed simp

lemma join_dots_chars: "c \<in> set (join_dots ns) \<Longrightarrow> is_digit c \<or> c = CHR ''.''"
  by (induction ns rule: join_dots.induct) (auto dest: show_nat_digits)

lemma join_dots_core:
  "split_by (\<lambda>c. c = CHR ''-'' \<or> c = CHR ''+'') (join_dots ns) = [join_dots ns]"
  using join_dots_chars digit_not_dot by (fastforce intro: split_by_none)

lemma show_nat_ends: "is_digit (hd (show_nat n)) \<and> is_digit (last (show_nat n))"
  using show_nat_digits hd_in_set last_in_set show_nat_ne by blast

lemma show_nat_all_digits: "list_all is_digit (show_nat n)"
  using show_nat_digits by (auto simp: list_all_iff)

lemma numeric_core_join_dots:
  assumes "ns \<noteq> []" and "\<forall>n \<in> set ns. n < 2 ^ 64"
  shows "numeric_core (join_dots ns) = Some ns"
proof -
  have "filter (\<lambda>p. digits_value p < 2 ^ 64) (map show_nat ns) = map show_nat ns"
    using assms(2) by (auto intro: filter_True)
  moreover have "map digits_value (map show_nat ns) = ns"
    by (simp add: comp_def map_idI)
  ultimately show ?thesis
    unfolding numeric_core_def join_dots_core Let_def list.sel join_dots_split [OF assms(1)]
    using assms(1) show_nat_all_digits by (auto simp: list_all_iff)
qed

lemma numeric_core_bound: "numeric_core s = Some ns \<Longrightarrow> ns \<noteq> [] \<and> (\<forall>n \<in> set ns. n < 2 ^ 64)"
  by (auto simp: numeric_core_def Let_def split: if_splits)

lemma white_space_code:
  "w \<in> set white_space \<Longrightarrow> \<exists>c cs. w = c # cs \<and> (code c < 33 \<or> 127 < code c)"
  by (auto simp: white_space_def code_byte)

lemma prefix_white_space:
  "w \<in> set white_space \<Longrightarrow> prefix w (c # cs) \<Longrightarrow> code c < 33 \<or> 127 < code c"
  using white_space_code by fastforce

lemma white_space_last_code:
  "w \<in> set white_space \<Longrightarrow> \<exists>c cs. w = cs @ [c] \<and> (code c < 33 \<or> 127 < code c)"
  by (auto simp: white_space_def code_byte)

lemma trim_start_visible: "33 \<le> code c \<Longrightarrow> code c \<le> 127 \<Longrightarrow> trim_start (c # cs) = c # cs"
  unfolding trim_start_def by (rule strip_front_id) (use prefix_white_space in fastforce)

lemma trim_end_visible: "33 \<le> code c \<Longrightarrow> code c \<le> 127 \<Longrightarrow> trim_end (cs @ [c]) = cs @ [c]"
proof -
  assume c: "33 \<le> code c" "code c \<le> 127"
  have "strip_front (map rev white_space) (c # rev cs) = c # rev cs"
  proof (rule strip_front_id)
    fix w assume "w \<in> set (map rev white_space)"
    then obtain u where "u \<in> set white_space" "w = rev u" by auto
    then show "\<not> prefix w (c # rev cs)" using white_space_last_code [of u] c by fastforce
  qed
  then show ?thesis by (simp add: trim_end_def)
qed

lemma trim_visible:
  assumes "s \<noteq> []" and "33 \<le> code (hd s)" "code (hd s) \<le> 127"
    and "33 \<le> code (last s)" "code (last s) \<le> 127"
  shows "trim s = s"
proof -
  have "trim_start s = s" using assms trim_start_visible by (cases s) auto
  moreover have "trim_end s = s"
    using assms trim_end_visible [of "last s" "butlast s"] by simp
  ultimately show ?thesis by (simp add: trim_def)
qed

lemma join_dots_ends:
  "ns \<noteq> [] \<Longrightarrow> join_dots ns \<noteq> [] \<and> is_digit (hd (join_dots ns)) \<and> is_digit (last (join_dots ns))"
proof (induction ns rule: join_dots.induct)
  case (2 n)
  then show ?case using show_nat_ends by simp
next
  case (3 n m ns)
  then show ?case using show_nat_ends [of n] by simp
qed simp

lemma digit_visible: "is_digit c \<Longrightarrow> 33 \<le> code c \<and> code c \<le> 127"
  by (auto simp: is_digit_def)

lemma strip_v_digit: "s \<noteq> [] \<Longrightarrow> is_digit (hd s) \<Longrightarrow> strip_v s = s"
  using digit_not_v by (cases s) (auto simp: strip_v_def)

lemma trim_join_dots: "ns \<noteq> [] \<Longrightarrow> trim (join_dots ns) = join_dots ns"
  using join_dots_ends [of ns] digit_visible by (intro trim_visible) auto

lemma trim_v_join_dots: "ns \<noteq> [] \<Longrightarrow> trim (CHR ''v'' # join_dots ns) = CHR ''v'' # join_dots ns"
  using join_dots_ends [of ns] digit_visible [of "last (join_dots ns)"]
  by (intro trim_visible) (auto simp: code_def)

lemma strip_v_join_dots:
  "ns \<noteq> [] \<Longrightarrow> strip_v (join_dots ns) = join_dots ns"
  "ns \<noteq> [] \<Longrightarrow> strip_v (CHR ''v'' # join_dots ns) = join_dots ns"
  using join_dots_ends [of ns] strip_v_digit [of "join_dots ns"] by (auto simp: strip_v_def)

section \<open>The order is a total preorder\<close>

text \<open>
  A release is \<open>ordered\<close> when a parsed version comes with a numeric core of its tag.  On those
  the comparison is the lexicographic order of a key, which yields the comparator laws.
\<close>

definition ordered_release :: "'v release \<Rightarrow> bool" where
  "ordered_release r \<longleftrightarrow> (rel_version r = None \<or> numeric_parts (rel_raw_tag r) \<noteq> None)"

definition release_key ::
  "'v release \<Rightarrow> 'v option \<times> nat list option \<times> int option \<times> string" where
  "release_key r =
    (rel_version r,
     (if rel_version r = None then None else numeric_parts (rel_raw_tag r)),
     rel_published_at r,
     (if rel_published_at r = None then rel_raw_tag r else []))"

lemma cmp_of_option [simp]:
  "cmp_of (Some a) (Some b) = cmp_of a b" "cmp_of None (Some b) = Less"
  "cmp_of (Some a) None = Greater" "cmp_of None (None :: 'a::linorder option) = Equal"
  by (simp_all add: cmp_of_def)

lemma cmp_of_prod:
  "cmp_of (a, c) (b, d) = (if cmp_of a b = Equal then cmp_of c d else cmp_of a b)"
  by (auto simp: cmp_of_def)

lemma cmp_of_refl [simp]: "cmp_of a a = Equal"
  by simp

lemma compare_published_key:
  "compare_published a b =
     cmp_of (rel_published_at a, if rel_published_at a = None then rel_raw_tag a else [])
            (rel_published_at b, if rel_published_at b = None then rel_raw_tag b else [])"
  by (auto simp: compare_published_def cmp_of_prod split: option.splits)

lemma compare_releases_key:
  assumes "ordered_release a" and "ordered_release b"
  shows "compare_releases a b = cmp_of (release_key a) (release_key b)"
  using assms
  by (auto simp: compare_releases_def release_key_def ordered_release_def cmp_of_prod
      compare_published_key simp del: cmp_of_simps split: option.splits)

interpretation releases: comparator compare_releases ordered_release
proof
  fix a b c :: "'v::linorder release"
  show "compare_releases a a = Equal" if "ordered_release a"
    using that by (simp add: compare_releases_key)
  show "compare_releases a b = Greater \<longleftrightarrow> compare_releases b a = Less"
    if "ordered_release a" "ordered_release b"
    using that by (simp add: compare_releases_key)
  show "compare_releases a c \<noteq> Greater"
    if "ordered_release a" "ordered_release b" "ordered_release c"
      "compare_releases a b \<noteq> Greater" "compare_releases b c \<noteq> Greater"
    using that linear.cmp_trans by (simp add: compare_releases_key)
qed

interpretation newest_first: comparator "\<lambda>a b. compare_releases b a" ordered_release
proof
  fix a b c :: "'v::linorder release"
  show "compare_releases a a = Equal" if "ordered_release a"
    using that by (rule releases.cmp_refl)
  show "compare_releases b a = Greater \<longleftrightarrow> compare_releases a b = Less"
    if "ordered_release a" "ordered_release b"
    using that by (simp add: releases.cmp_flip)
  show "compare_releases c a \<noteq> Greater"
    if "ordered_release a" "ordered_release b" "ordered_release c"
      "compare_releases b a \<noteq> Greater" "compare_releases c b \<noteq> Greater"
    using that releases.cmp_trans by blast
qed

text \<open>What the code builds: the version of a release is the one parsed from its display tag.\<close>

definition built_release :: "'v semver \<Rightarrow> 'v release \<Rightarrow> bool" where
  "built_release lib r \<longleftrightarrow> rel_version r = parse_version lib (rel_raw_tag r)"

text \<open>
  The documented grammar of semantic versions: what parses starts with dot separated numbers
  below \<open>2 ^ 64\<close>.
\<close>

definition semver_numeric :: "'v semver \<Rightarrow> bool" where
  "semver_numeric lib \<longleftrightarrow> (\<forall>s. sv_parse lib s \<noteq> None \<longrightarrow> numeric_core s \<noteq> None)"

text \<open>No white space between a leading \<^verbatim>\<open>v\<close> and the rest of the tag.\<close>

definition tight_tag :: "string \<Rightarrow> bool" where
  "tight_tag tag \<longleftrightarrow> trim (strip_v (trim tag)) = strip_v (trim tag)"

lemma built_ordered:
  assumes "semver_numeric lib" "built_release lib r" "tight_tag (rel_raw_tag r)"
  shows "ordered_release r"
proof (cases "sv_parse lib (strip_v (trim (rel_raw_tag r)))")
  case None
  then show ?thesis
    using assms(2,3)
    by (auto simp: ordered_release_def built_release_def parse_version_def Let_def
        lenient_parse_def numeric_parts_def tight_tag_def split: option.splits)
next
  case (Some v)
  then have "numeric_core (strip_v (trim (rel_raw_tag r))) \<noteq> None"
    using assms(1) unfolding semver_numeric_def by force
  then show ?thesis by (simp add: ordered_release_def numeric_parts_def)
qed

lemma built_release_ops:
  "built_release lib (release_new lib i)"
  "built_release lib (release_display lib r tag)"
  "built_release lib r \<Longrightarrow> built_release lib (with_url r u)"
  "built_release lib r \<Longrightarrow> built_release lib (with_published r t)"
  "built_release lib r \<Longrightarrow> built_release lib (with_body r bd)"
  "built_release lib r \<Longrightarrow> built_release lib (with_prerelease r p)"
  by (simp_all add: built_release_def release_new_def release_display_def with_url_def
      with_published_def with_body_def with_prerelease_def Let_def)

section \<open>Properties\<close>

text \<open>A version library for the examples: three numbers, compared component by component.\<close>

definition plain_semver :: "nat list semver" where
  "plain_semver =
    \<lparr>sv_parse = (\<lambda>s. case numeric_core s of
        Some ns \<Rightarrow> if length ns = 3 then Some ns else None | None \<Rightarrow> None),
     sv_pre = (\<lambda>_. False), sv_show = join_dots\<rparr>"

lemma plain_semver_numeric: "semver_numeric plain_semver"
  by (auto simp: semver_numeric_def plain_semver_def split: option.splits)

definition example_release :: "string \<Rightarrow> nat list release" where
  "example_release tag = release_new plain_semver tag"

lemma example_release_built: "built_release plain_semver (example_release tag)"
  by (simp add: example_release_def built_release_ops)

text \<open>
  \<^verbatim>\<open>pick_latest\<close> returns a greatest release.  For releases as the code builds them, with tags that
  have no blank after a leading v, the result is one of the releases and no release compares
  greater than it; only the empty list has no latest release.
\<close>

theorem pick_latest_greatest:
  assumes "semver_numeric lib"
    and "\<forall>r \<in> set rs. built_release lib r \<and> tight_tag (rel_raw_tag r)"
  shows "(pick_latest rs = None \<longleftrightarrow> rs = [])
    \<and> (case pick_latest rs of None \<Rightarrow> True
        | Some m \<Rightarrow> m \<in> set rs \<and> list_all (\<lambda>r. compare_releases r m \<noteq> Greater) rs)"
proof -
  have "\<forall>r \<in> set rs. ordered_release r" using assms built_ordered by blast
  then show ?thesis
    unfolding pick_latest_def
    by (auto simp: list_all_iff dest: max_by_mem releases.max_by_greatest split: option.splits)
qed

theorem pick_latest_greatest_witness:
  "(case pick_latest [example_release ''v1.2.10'', example_release ''v1.2.9'', example_release ''1.2''] of
      None \<Rightarrow> True
    | Some m \<Rightarrow> m \<in> set [example_release ''v1.2.10'', example_release ''v1.2.9'', example_release ''1.2'']
        \<and> list_all (\<lambda>r. compare_releases r m \<noteq> Greater)
            [example_release ''v1.2.10'', example_release ''v1.2.9'', example_release ''1.2''])"
proof -
  have tight: "tight_tag ''v1.2.10'' \<and> tight_tag ''v1.2.9'' \<and> tight_tag ''1.2''" by code_simp
  have "rel_raw_tag (example_release t) = t" for t
    by (simp add: example_release_def release_new_def Let_def)
  then show ?thesis
    using pick_latest_greatest [OF plain_semver_numeric, of
        "[example_release ''v1.2.10'', example_release ''v1.2.9'', example_release ''1.2'']"]
      tight example_release_built by simp
qed

text \<open>
  \<^verbatim>\<open>sort_releases_newest_first\<close> is a permutation of its input in which no release is greater than an
  earlier one, under the same conditions on the tags.
\<close>

theorem sort_newest_first_sorted:
  assumes "semver_numeric lib"
    and "\<forall>r \<in> set rs. built_release lib r \<and> tight_tag (rel_raw_tag r)"
  shows "mset (sort_releases_newest_first rs) = mset rs
    \<and> sorted_wrt (\<lambda>a b. compare_releases b a \<noteq> Greater) (sort_releases_newest_first rs)"
proof -
  have "\<forall>r \<in> set rs. ordered_release r" using assms built_ordered by blast
  then show ?thesis
    unfolding sort_releases_newest_first_def
    using newest_first.sorted_sort_by [of rs] by simp
qed

theorem sort_newest_first_sorted_witness:
  "sorted_wrt (\<lambda>a b. compare_releases b a \<noteq> Greater)
     (sort_releases_newest_first [example_release ''1.2'', example_release ''v1.2.0.3'', example_release ''edge''])"
proof -
  have tight: "tight_tag ''1.2'' \<and> tight_tag ''v1.2.0.3'' \<and> tight_tag ''edge''" by code_simp
  have "rel_raw_tag (example_release t) = t" for t
    by (simp add: example_release_def release_new_def Let_def)
  then show ?thesis
    using sort_newest_first_sorted [OF plain_semver_numeric, of
        "[example_release ''1.2'', example_release ''v1.2.0.3'', example_release ''edge'']"]
      tight example_release_built by simp
qed

text \<open>
  tags of dot separated numbers.  All components of a (possibly v-prefixed) numeric tag are
  read back for tie breaking, and where the strict parser rejects the tag its version is that of
  the first three components, missing ones being zero.
\<close>

theorem numeric_tag_version:
  assumes "ns \<noteq> []" and "\<forall>n \<in> set ns. n < 2 ^ 64"
    and "sv_parse lib (join_dots ns) = None"
  shows "numeric_parts (''v'' @ join_dots ns) = Some ns
    \<and> numeric_parts (join_dots ns) = Some ns
    \<and> parse_version lib (''v'' @ join_dots ns) = sv_parse lib (join_dots (take 3 (pad_three ns)))"
proof -
  have parts: "numeric_parts (join_dots ns) = Some ns"
    using assms by (simp add: numeric_parts_def trim_join_dots strip_v_join_dots numeric_core_join_dots)
  have three: "take 3 (pad_three ns) = [pad_three ns ! 0, pad_three ns ! 1, pad_three ns ! 2]"
  proof -
    have "3 \<le> length (pad_three ns)" by (simp add: pad_three_def)
    then show ?thesis by (auto simp: list_eq_iff_nth_eq less_Suc_eq numeral_3_eq_3 numeral_2_eq_2)
  qed
  then show ?thesis
    using assms parts
    by (simp add: parse_version_def lenient_parse_def Let_def numeric_parts_def trim_v_join_dots
        strip_v_join_dots numeric_core_join_dots)
qed

theorem numeric_tag_version_witness:
  "parse_version plain_semver (''v'' @ join_dots [1, 2]) = Some [1, 2, 0]"
proof -
  have none: "sv_parse plain_semver (join_dots [1, 2]) = None" by code_simp
  have "sv_parse plain_semver (join_dots (take 3 (pad_three [1, 2]))) = Some [1, 2, 0]" by code_simp
  then show ?thesis using numeric_tag_version [of "[1, 2]" plain_semver] none by simp
qed

text \<open>
  the comparison is no order on every list of tags.  A tag with a blank after the leading v
  (a feed title such as "v 1.2") has a version but no numeric parts, so against four component
  tags of the same version it is ordered by date alone, and three releases can form a cycle:
  each compares less than the next.
\<close>

theorem compare_releases_cycle:
  assumes "sv_parse lib ''1.2.0'' = Some v" and "sv_parse lib '' 1.2'' = None"
    and "sv_parse lib ''1.2.0.3'' = None" and "sv_parse lib ''1.2.0.5'' = None"
    and "a = with_published (release_new lib ''1.2.0.5'') (Some 10)"
    and "b = with_published (release_new lib ''v 1.2'') (Some 20)"
    and "c = with_published (release_new lib ''1.2.0.3'') (Some 30)"
  shows "compare_releases a b = Less \<and> compare_releases b c = Less \<and> compare_releases c a = Less"
proof -
  have strips: "strip_v (trim ''1.2.0.5'') = ''1.2.0.5''" "strip_v (trim ''v 1.2'') = '' 1.2''"
    "strip_v (trim ''1.2.0.3'') = ''1.2.0.3''" by code_simp+
  have parts: "numeric_parts ''1.2.0.5'' = Some [1, 2, 0, 5]" "numeric_parts ''1.2.0.3'' = Some [1, 2, 0, 3]"
    "numeric_parts '' 1.2'' = Some [1, 2]" "numeric_parts ''v 1.2'' = None" by code_simp+
  have core: "show_nat (pad_three ns ! 0) @ ''.'' @ show_nat (pad_three ns ! 1) @ ''.''
      @ show_nat (pad_three ns ! 2) = ''1.2.0''" if "ns \<in> {[1, 2, 0, 5], [1, 2, 0, 3], [1, 2]}" for ns
    using that by safe code_simp+
  have less: "cmp_of [1, 2, 0, 3::nat] [1, 2, 0, 5] = Less" by simp
  have versions: "parse_version lib ''1.2.0.5'' = Some v" "parse_version lib ''v 1.2'' = Some v"
    "parse_version lib ''1.2.0.3'' = Some v"
    using assms(1-4) core
    by (simp_all add: parse_version_def strips Let_def lenient_parse_def parts del: One_nat_def append.simps)
  show ?thesis
    unfolding assms(5-7) using less
    by (simp add: compare_releases_def release_new_def with_published_def Let_def versions parts
        compare_published_def cmp_of_def)
qed

theorem compare_releases_cycle_witness:
  "compare_releases (with_published (example_release ''1.2.0.3'') (Some 30))
     (with_published (example_release ''1.2.0.5'') (Some 10)) = Less"
proof -
  have "sv_parse plain_semver ''1.2.0'' = Some [1, 2, 0]" "sv_parse plain_semver '' 1.2'' = None"
    "sv_parse plain_semver ''1.2.0.3'' = None" "sv_parse plain_semver ''1.2.0.5'' = None"
    by code_simp+
  then show ?thesis
    unfolding example_release_def using compare_releases_cycle [OF _ _ _ _ refl refl refl] by blast
qed

end
