(* ===== verification/Filters.thy ===== *)
theory Filters
  imports Releases
begin

text \<open>
  What a watch accepts and when it may notify: the release filter of
  \<^verbatim>\<open>src/src/pipeline/filter.rs\<close> and the delivery schedule of \<^verbatim>\<open>src/src/pipeline/schedule.rs\<close>.  The
  \<^verbatim>\<open>regex\<close> and \<^verbatim>\<open>cron\<close> crates are parameters: whether an expression compiles, whether it
  matches a text, and the next moment of a schedule after a given one.  A compiled
  expression is represented by its source text.
\<close>

section \<open>Release filter\<close>

record regex_lib =
  re_ok :: "string \<Rightarrow> bool"
  re_match :: "string \<Rightarrow> string \<Rightarrow> bool"

record release_filter =
  f_include_prerelease :: bool
  f_prerelease_tags :: "string list option"
  f_pattern :: "string option"
  f_exclude_pattern :: "string option"
  f_exclude_updated :: bool

text \<open>The error is the expression that does not compile.\<close>

definition compile_regex :: "regex_lib \<Rightarrow> string option \<Rightarrow> string + string option" where
  "compile_regex rx p =
    (case p of None \<Rightarrow> Inr None | Some e \<Rightarrow> if re_ok rx e then Inr (Some e) else Inl e)"

definition filter_with_options ::
  "regex_lib \<Rightarrow> bool \<Rightarrow> string list option \<Rightarrow> string option \<Rightarrow> string option \<Rightarrow> bool
     \<Rightarrow> string + release_filter" where
  "filter_with_options rx include_pre tags pattern exclude exclude_updated =
    (case compile_regex rx pattern of
       Inl e \<Rightarrow> Inl e
     | Inr pat \<Rightarrow>
         (case compile_regex rx exclude of
            Inl e \<Rightarrow> Inl e
          | Inr excl \<Rightarrow>
              Inr \<lparr>f_include_prerelease = include_pre,
                   f_prerelease_tags = (case tags of None \<Rightarrow> None
                      | Some ts \<Rightarrow> if ts = [] then None else Some ts),
                   f_pattern = pat, f_exclude_pattern = excl,
                   f_exclude_updated = exclude_updated\<rparr>))"

definition filter_with_prerelease_tags ::
  "regex_lib \<Rightarrow> bool \<Rightarrow> string list option \<Rightarrow> string option \<Rightarrow> string option
     \<Rightarrow> string + release_filter" where
  "filter_with_prerelease_tags rx include_pre tags pattern exclude =
    filter_with_options rx include_pre tags pattern exclude False"

definition filter_new ::
  "regex_lib \<Rightarrow> bool \<Rightarrow> string option \<Rightarrow> string option \<Rightarrow> string + release_filter" where
  "filter_new rx include_pre pattern exclude =
    filter_with_options rx include_pre None pattern exclude False"

definition filter_default :: release_filter where
  "filter_default =
    \<lparr>f_include_prerelease = False, f_prerelease_tags = None, f_pattern = None,
     f_exclude_pattern = None, f_exclude_updated = False\<rparr>"

definition excludes_updated :: "release_filter \<Rightarrow> bool" where
  "excludes_updated f = f_exclude_updated f"

definition matches_prerelease_marker :: "string \<Rightarrow> string list \<Rightarrow> bool" where
  "matches_prerelease_marker tag markers =
    (let tag_lower = to_ascii_lowercase tag in
     list_ex (\<lambda>marker.
       let m = to_ascii_lowercase marker in
       if m = [] then False
       else
         list_ex (\<lambda>part. part = m) (split_by (\<lambda>c. \<not> is_alnum c) tag_lower)
         \<or> contains_str tag_lower (''-'' @ m)
         \<or> contains_str tag_lower (''_'' @ m)
         \<or> contains_str tag_lower (''.'' @ m)) markers)"

definition accepts :: "regex_lib \<Rightarrow> release_filter \<Rightarrow> 'v release \<Rightarrow> bool" where
  "accepts rx f r =
    (if rel_prerelease r \<and> \<not> f_include_prerelease f then False
     else if rel_prerelease r \<and>
       (case f_prerelease_tags f of None \<Rightarrow> False
        | Some tags \<Rightarrow> \<not> matches_prerelease_marker (rel_raw_tag r) tags) then False
     else if (case f_exclude_pattern f of None \<Rightarrow> False
        | Some e \<Rightarrow> re_match rx e (rel_raw_tag r)) then False
     else (case f_pattern f of Some e \<Rightarrow> re_match rx e (rel_raw_tag r) | None \<Rightarrow> True))"

section \<open>Delivery schedule\<close>

record cron_lib =
  cron_ok :: "string \<Rightarrow> bool"
  cron_next :: "string \<Rightarrow> int \<Rightarrow> int option"

record notify_schedule =
  ns_expr :: string
  ns_schedule :: string

text \<open>The error carries the expression of the message \<^verbatim>\<open>invalid cron expression\<close>.\<close>

definition schedule_parse :: "cron_lib \<Rightarrow> string \<Rightarrow> string + notify_schedule" where
  "schedule_parse cr expr =
    (let trimmed = trim expr;
         normalized = (if length (split_whitespace trimmed) = 5 then ''0 '' @ trimmed else trimmed) in
     if cron_ok cr normalized then Inr \<lparr>ns_expr = trimmed, ns_schedule = normalized\<rparr>
     else Inl expr)"

definition next_after :: "cron_lib \<Rightarrow> notify_schedule \<Rightarrow> int \<Rightarrow> int option" where
  "next_after cr s now = cron_next cr (ns_schedule s) now"

section \<open>Marker matching\<close>

definition marker_separator :: "char \<Rightarrow> bool" where
  "marker_separator c \<longleftrightarrow> c = CHR ''-'' \<or> c = CHR ''_'' \<or> c = CHR ''.''"

text \<open>
  The occurrences of a marker that count: as a whole alphanumeric word, or anywhere after one of
  the separators, whatever follows.
\<close>

definition marker_at :: "string \<Rightarrow> string \<Rightarrow> string \<Rightarrow> bool" where
  "marker_at u m v \<longleftrightarrow>
    (\<forall>c \<in> set m. is_alnum c) \<and> (u = [] \<or> \<not> is_alnum (last u)) \<and> (v = [] \<or> \<not> is_alnum (hd v))
    \<or> u \<noteq> [] \<and> marker_separator (last u)"

lemma contains_after_char:
  "contains_str s (d # m) \<longleftrightarrow> (\<exists>u v. s = u @ m @ v \<and> u \<noteq> [] \<and> last u = d)"
proof
  assume "contains_str s (d # m)"
  then obtain u v where "s = u @ (d # m) @ v" unfolding contains_str_iff by blast
  then have "s = (u @ [d]) @ m @ v \<and> u @ [d] \<noteq> [] \<and> last (u @ [d]) = d" by simp
  then show "\<exists>u v. s = u @ m @ v \<and> u \<noteq> [] \<and> last u = d" by blast
next
  assume "\<exists>u v. s = u @ m @ v \<and> u \<noteq> [] \<and> last u = d"
  then obtain u v where uv: "s = u @ m @ v" "u \<noteq> []" "last u = d" by blast
  then have "s = butlast u @ (d # m) @ v"
    by (metis append_Cons append_Nil append_butlast_last_id append_assoc)
  then show "contains_str s (d # m)" unfolding contains_str_iff by blast
qed

lemma marker_cases:
  "(list_ex (\<lambda>part. part = m) (split_by (\<lambda>c. \<not> is_alnum c) s)
      \<or> contains_str s (''-'' @ m) \<or> contains_str s (''_'' @ m) \<or> contains_str s (''.'' @ m))
   = (\<exists>u v. s = u @ m @ v \<and> marker_at u m v)"
proof -
  have word: "list_ex (\<lambda>part. part = m) (split_by (\<lambda>c. \<not> is_alnum c) s)
      = (m \<in> set (split_by (\<lambda>c. \<not> is_alnum c) s))"
    by (auto simp: list_ex_iff)
  have merge: "((\<exists>u v. A u v) \<or> (\<exists>u v. B u v) \<or> (\<exists>u v. C u v) \<or> (\<exists>u v. D u v))
      = (\<exists>u v. A u v \<or> B u v \<or> C u v \<or> D u v)" for A B C D :: "string \<Rightarrow> string \<Rightarrow> bool"
    by blast
  show ?thesis
    unfolding word split_by_mem append_Cons append_Nil contains_after_char marker_at_def
      marker_separator_def merge
    by (intro arg_cong [where f = Ex] ext) blast
qed

text \<open>
  pre-release sub-channels.  A tag matches a marker list exactly when, ignoring ASCII case,
  it contains a non-empty marker as a whole alphanumeric word or directly after a dash,
  an underscore or a dot.
\<close>

theorem prerelease_marker_boundaries:
  "matches_prerelease_marker tag markers
     = list_ex (\<lambda>marker. to_ascii_lowercase marker \<noteq> [] \<and>
         (\<exists>u v. to_ascii_lowercase tag = u @ to_ascii_lowercase marker @ v
            \<and> marker_at u (to_ascii_lowercase marker) v)) markers"
  unfolding matches_prerelease_marker_def Let_def marker_cases
  by (rule list_ex_cong) auto

text \<open>
  a built filter.  The constructor fails on the first expression that does not compile and
  otherwise accepts exactly the releases that pass all four gates: pre-releases only when
  included, in a non-empty list of sub-channels, not matched by the exclusion and matched by
  the inclusion.
\<close>

theorem filter_accepts_gates:
  "case filter_with_options rx inc tags pat excl upd of
     Inl e \<Rightarrow> \<not> re_ok rx e \<and> (pat = Some e \<or> excl = Some e \<and> (case pat of None \<Rightarrow> True | Some p \<Rightarrow> re_ok rx p))
   | Inr f \<Rightarrow> excludes_updated f = upd \<and> list_all (re_ok rx) (List.map_filter id [pat, excl])
       \<and> accepts rx f r =
           ((if rel_prerelease r
             then inc \<and> (case tags of None \<Rightarrow> True
                | Some ts \<Rightarrow> if ts = [] then True else matches_prerelease_marker (rel_raw_tag r) ts)
             else True)
            \<and> (case excl of None \<Rightarrow> True | Some e \<Rightarrow> \<not> re_match rx e (rel_raw_tag r))
            \<and> (case pat of None \<Rightarrow> True | Some e \<Rightarrow> re_match rx e (rel_raw_tag r)))"
  by (auto simp: filter_with_options_def compile_regex_def accepts_def excludes_updated_def
      List.map_filter_def split: option.splits)

end
