(* ===== verification/Database.thy ===== *)
theory Database
  imports Releases
begin

text \<open>
  The PostgreSQL schema of \<^verbatim>\<open>src/src/store/postgres_schema.sql\<close> as one record of tables, each table
  a list of rows, and its integrity constraints as an invariant.  A timestamp is an integer
  number of microseconds of the database clock.  A statement of the store is a function on
  the record; \<open>upsert_row\<close> is \<^verbatim>\<open>INSERT ... ON CONFLICT (key) DO UPDATE\<close>, \<open>update_rows\<close> is
  \<^verbatim>\<open>UPDATE ... WHERE\<close>.  A query without \<^verbatim>\<open>ORDER BY\<close> answers in the order of the list.
\<close>

section \<open>Rows and tables\<close>

type_synonym timestamp = int

definition seconds :: "int \<Rightarrow> int" where
  "seconds n = n * 1000000"

definition days :: "int \<Rightarrow> int" where
  "days n = seconds (n * 86400)"

record source_state =
  ss_source_id :: string
  ss_initialized :: bool
  ss_last_polled_at :: "timestamp option"
  ss_etag :: "string option"
  ss_latest_release_tag :: "string option"

record seen_row =
  sr_source_id :: string
  sr_identity :: string
  sr_display_tag :: "string option"
  sr_first_seen_at :: timestamp
  sr_content_digest :: "string option"
  sr_published_at :: "timestamp option"
  sr_url :: "string option"

text \<open>The four values of the \<^verbatim>\<open>status\<close> columns.\<close>

datatype row_status = Pending | Failed | Sent | Dead

record outbox_row =
  ob_id :: int
  ob_source_id :: string
  ob_identity :: string
  ob_content_digest :: "string option"
  ob_display_tag :: "string option"
  ob_published_at :: "timestamp option"
  ob_title :: string
  ob_body :: string
  ob_url :: "string option"
  ob_routing_tag :: "string option"
  ob_source_kind :: string
  ob_status :: row_status
  ob_attempts :: int
  ob_last_error :: "string option"
  ob_created_at :: timestamp
  ob_sent_at :: "timestamp option"
  ob_locked_until :: "timestamp option"
  ob_deliver_after :: "timestamp option"

record sink_row =
  sd_outbox_id :: int
  sd_sink_index :: int
  sd_sink_kind :: string
  sd_status :: row_status
  sd_attempts :: int
  sd_last_error :: "string option"
  sd_sent_at :: "timestamp option"

record webhook_row =
  wh_delivery_id :: string
  wh_received_at :: timestamp

record advisory_row =
  ra_ecosystem :: string
  ra_package :: string
  ra_version :: string
  ra_advisory_id :: string
  ra_display_id :: string
  ra_summary :: "string option"
  ra_severity :: "string option"
  ra_cvss_vector :: "string option"
  ra_url :: "string option"
  ra_fetched_at :: timestamp

record check_row =
  ck_ecosystem :: string
  ck_package :: string
  ck_version :: string
  ck_checked_at :: timestamp

record db =
  db_sources :: "source_state list"
  db_seen :: "seen_row list"
  db_outbox :: "outbox_row list"
  db_next_id :: int
  db_sinks :: "sink_row list"
  db_webhooks :: "webhook_row list"
  db_advisories :: "advisory_row list"
  db_checks :: "check_row list"

definition empty_db :: db where
  "empty_db = \<lparr>db_sources = [], db_seen = [], db_outbox = [], db_next_id = 1, db_sinks = [],
     db_webhooks = [], db_advisories = [], db_checks = []\<rparr>"

definition seen_key :: "seen_row \<Rightarrow> string \<times> string" where
  "seen_key r = (sr_source_id r, sr_identity r)"

definition outbox_key :: "outbox_row \<Rightarrow> string \<times> string" where
  "outbox_key r = (ob_source_id r, ob_identity r)"

definition sink_key :: "sink_row \<Rightarrow> int \<times> int" where
  "sink_key r = (sd_outbox_id r, sd_sink_index r)"

definition advisory_coord :: "advisory_row \<Rightarrow> string \<times> string \<times> string" where
  "advisory_coord r = (ra_ecosystem r, ra_package r, ra_version r)"

definition check_key :: "check_row \<Rightarrow> string \<times> string \<times> string" where
  "check_key r = (ck_ecosystem r, ck_package r, ck_version r)"

section \<open>Statements\<close>

definition upsert_row :: "('r \<Rightarrow> 'k) \<Rightarrow> 'r \<Rightarrow> ('r \<Rightarrow> 'r) \<Rightarrow> 'r list \<Rightarrow> 'r list" where
  "upsert_row key new upd rows =
    (if key new \<in> set (map key rows) then map (\<lambda>r. if key r = key new then upd r else r) rows
     else rows @ [new])"

definition update_rows :: "('r \<Rightarrow> bool) \<Rightarrow> ('r \<Rightarrow> 'r) \<Rightarrow> 'r list \<Rightarrow> 'r list" where
  "update_rows P upd rows = map (\<lambda>r. if P r then upd r else r) rows"

definition coalesce :: "'a option \<Rightarrow> 'a option \<Rightarrow> 'a option" where
  "coalesce a b = (case a of None \<Rightarrow> b | Some x \<Rightarrow> Some x)"

lemma update_rows_keys [row_simps]:
  "(\<And>r. P r \<Longrightarrow> key (upd r) = key r) \<Longrightarrow> map key (update_rows P upd rows) = map key rows"
  by (simp add: update_rows_def)

lemma set_update_rows: "set (update_rows P upd rows) = (\<lambda>r. if P r then upd r else r) ` set rows"
  by (simp add: update_rows_def)

lemma length_update_rows [simp]: "length (update_rows P upd rows) = length rows"
  by (simp add: update_rows_def)

lemma list_all_update_rows:
  "list_all Q rows \<Longrightarrow> (\<And>r. Q r \<Longrightarrow> P r \<Longrightarrow> Q (upd r)) \<Longrightarrow> list_all Q (update_rows P upd rows)"
  by (auto simp: list_all_iff update_rows_def)

lemma upsert_keys [row_simps]:
  assumes "\<And>r. key r = key new \<Longrightarrow> key (upd r) = key r"
  shows "map key (upsert_row key new upd rows)
       = (if key new \<in> set (map key rows) then map key rows else map key rows @ [key new])"
  using assms by (auto simp: upsert_row_def)

lemma upsert_distinct:
  assumes "\<And>r. key r = key new \<Longrightarrow> key (upd r) = key r" and "distinct (map key rows)"
  shows "distinct (map key (upsert_row key new upd rows))"
proof -
  have "map key (upsert_row key new upd rows)
      = (if key new \<in> set (map key rows) then map key rows else map key rows @ [key new])"
    by (rule upsert_keys) (rule assms(1))
  then show ?thesis using assms(2) by (simp split: if_splits)
qed

lemma upsert_mem:
  assumes "\<And>r. key r = key new \<Longrightarrow> key (upd r) = key r"
  shows "set (map key (upsert_row key new upd rows)) = insert (key new) (set (map key rows))"
proof -
  have eq: "map key (upsert_row key new upd rows)
      = (if key new \<in> set (map key rows) then map key rows else map key rows @ [key new])"
    by (rule upsert_keys) (rule assms)
  show ?thesis unfolding eq by auto
qed

lemma find_update_rows:
  assumes "\<And>r. P r \<Longrightarrow> key (upd r) = key r"
  shows "find (\<lambda>r. key r = k) (update_rows P upd rows)
       = map_option (\<lambda>r. if P r then upd r else r) (find (\<lambda>r. key r = k) rows)"
  using assms by (induction rows) (auto simp: update_rows_def)

lemma list_ex_key:
  assumes "distinct (map key rows)"
  shows "list_ex (\<lambda>r. key r = k \<and> Q r) rows
       = (case find (\<lambda>r. key r = k) rows of None \<Rightarrow> False | Some r \<Rightarrow> Q r)"
  using assms by (induction rows) (auto simp: list_ex_iff image_iff split: option.splits)

lemma find_key_unique:
  assumes "distinct (map key rows)" and "r \<in> set rows"
  shows "find (\<lambda>x. key x = key r) rows = Some r"
  using assms by (induction rows) (auto simp: image_iff)

section \<open>Integrity\<close>

definition OUTBOX_MAX_ATTEMPTS :: int where
  "OUTBOX_MAX_ATTEMPTS = 50"

definition retryable :: "row_status \<Rightarrow> bool" where
  "retryable s \<longleftrightarrow> (s = Pending \<or> s = Failed)"

text \<open>
  What the schema and the store maintain of a queue row and of a ledger row: counters that never
  go below zero, a time of sending for what is sent, and a ledger row that is retryable exactly
  while its attempts are below the cap, or sent.
\<close>

definition outbox_row_ok :: "outbox_row \<Rightarrow> bool" where
  "outbox_row_ok r \<longleftrightarrow> 0 \<le> ob_attempts r \<and> (ob_status r = Sent \<longrightarrow> ob_sent_at r \<noteq> None)"

definition sink_row_ok :: "sink_row \<Rightarrow> bool" where
  "sink_row_ok r \<longleftrightarrow> 0 \<le> sd_attempts r \<and> 0 \<le> sd_sink_index r
    \<and> (sd_status r = Sent \<longrightarrow> sd_sent_at r \<noteq> None)
    \<and> (retryable (sd_status r) \<longrightarrow> sd_attempts r < OUTBOX_MAX_ATTEMPTS)
    \<and> (sd_status r = Dead \<longrightarrow> OUTBOX_MAX_ATTEMPTS \<le> sd_attempts r)"

definition outbox_ok :: "outbox_row list \<Rightarrow> int \<Rightarrow> bool" where
  "outbox_ok rows next_id \<longleftrightarrow>
     distinct (map ob_id rows) \<and> distinct (map outbox_key rows)
     \<and> list_all (\<lambda>r. ob_id r < next_id) rows \<and> list_all outbox_row_ok rows"

definition sinks_ok :: "int set \<Rightarrow> sink_row list \<Rightarrow> bool" where
  "sinks_ok ids rows \<longleftrightarrow>
     distinct (map sink_key rows) \<and> list_all (\<lambda>r. sd_outbox_id r \<in> ids) rows \<and> list_all sink_row_ok rows"

definition advisory_key :: "advisory_row \<Rightarrow> string \<times> string \<times> string \<times> string" where
  "advisory_key r = (ra_ecosystem r, ra_package r, ra_version r, ra_advisory_id r)"

definition db_ok :: "db \<Rightarrow> bool" where
  "db_ok d \<longleftrightarrow>
     distinct (map ss_source_id (db_sources d)) \<and> distinct (map seen_key (db_seen d))
     \<and> outbox_ok (db_outbox d) (db_next_id d)
     \<and> sinks_ok (ob_id ` set (db_outbox d)) (db_sinks d)
     \<and> distinct (map wh_delivery_id (db_webhooks d))
     \<and> distinct (map advisory_key (db_advisories d)) \<and> distinct (map check_key (db_checks d))"

lemma db_ok_empty: "db_ok empty_db"
  by (simp add: db_ok_def empty_db_def outbox_ok_def sinks_ok_def)

text \<open>Updates of one table: the other tables' constraints are not touched.\<close>

lemma db_ok_sources:
  "db_ok d \<Longrightarrow> distinct (map ss_source_id rows) \<Longrightarrow> db_ok (d\<lparr>db_sources := rows\<rparr>)"
  by (simp add: db_ok_def)

lemma db_ok_seen:
  "db_ok d \<Longrightarrow> distinct (map seen_key rows) \<Longrightarrow> db_ok (d\<lparr>db_seen := rows\<rparr>)"
  by (simp add: db_ok_def)

lemma db_ok_webhooks:
  "db_ok d \<Longrightarrow> distinct (map wh_delivery_id rows) \<Longrightarrow> db_ok (d\<lparr>db_webhooks := rows\<rparr>)"
  by (simp add: db_ok_def)

lemma db_ok_advisories:
  "db_ok d \<Longrightarrow> distinct (map advisory_key rows) \<Longrightarrow> db_ok (d\<lparr>db_advisories := rows\<rparr>)"
  by (simp add: db_ok_def)

lemma db_ok_checks:
  "db_ok d \<Longrightarrow> distinct (map check_key rows) \<Longrightarrow> db_ok (d\<lparr>db_checks := rows\<rparr>)"
  by (simp add: db_ok_def)

lemma db_ok_update_outbox:
  assumes "db_ok d"
    and "\<And>r. P r \<Longrightarrow> ob_id (upd r) = ob_id r \<and> outbox_key (upd r) = outbox_key r"
    and "\<And>r. outbox_row_ok r \<Longrightarrow> P r \<Longrightarrow> outbox_row_ok (upd r)"
  shows "db_ok (d\<lparr>db_outbox := update_rows P upd (db_outbox d)\<rparr>)"
proof -
  let ?rows = "update_rows P upd (db_outbox d)"
  have ids: "map ob_id ?rows = map ob_id (db_outbox d)"
    and keys: "map outbox_key ?rows = map outbox_key (db_outbox d)"
    using assms(2) by (simp_all add: update_rows_keys)
  have "ob_id ` set ?rows = ob_id ` set (db_outbox d)"
    using ids by (metis list.set_map)
  moreover have "list_all (\<lambda>r. ob_id r < db_next_id d) ?rows"
    using assms(1,2) by (intro list_all_update_rows) (auto simp: db_ok_def outbox_ok_def)
  moreover have "list_all outbox_row_ok ?rows"
    using assms(1,3) by (intro list_all_update_rows) (auto simp: db_ok_def outbox_ok_def)
  ultimately show ?thesis using assms(1) ids keys by (simp add: db_ok_def outbox_ok_def)
qed

lemma db_ok_update_sinks:
  assumes "db_ok d"
    and "\<And>r. P r \<Longrightarrow> sd_outbox_id (upd r) = sd_outbox_id r \<and> sd_sink_index (upd r) = sd_sink_index r"
    and "\<And>r. sink_row_ok r \<Longrightarrow> P r \<Longrightarrow> sink_row_ok (upd r)"
  shows "db_ok (d\<lparr>db_sinks := update_rows P upd (db_sinks d)\<rparr>)"
proof -
  let ?rows = "update_rows P upd (db_sinks d)"
  have "map sink_key ?rows = map sink_key (db_sinks d)"
    using assms(2) by (simp add: update_rows_keys sink_key_def)
  moreover have "list_all (\<lambda>r. sd_outbox_id r \<in> ob_id ` set (db_outbox d)) ?rows"
    using assms(1,2) by (intro list_all_update_rows) (auto simp: db_ok_def sinks_ok_def)
  moreover have "list_all sink_row_ok ?rows"
    using assms(1,3) by (intro list_all_update_rows) (auto simp: db_ok_def sinks_ok_def)
  ultimately show ?thesis using assms(1) by (simp add: db_ok_def sinks_ok_def)
qed

end
