(* ===== verification/Seen_Store.thy ===== *)
theory Seen_Store
  imports Database
begin

text \<open>
  The per-source state of \<^verbatim>\<open>src/src/store/postgres/mod.rs\<close>: baseline flag, poll times and ETag, the
  catalogue of seen releases with its upserts and listings, the idempotency ledger of webhook
  deliveries, and pruning.  Each method is a function of the tables; \<open>now\<close> is the
  \<^verbatim>\<open>now()\<close> of the database.  A text rendering of a timestamp is represented by the timestamp.
\<close>

section \<open>Source state\<close>

definition find_source :: "db \<Rightarrow> string \<Rightarrow> source_state option" where
  "find_source d s = find (\<lambda>r. ss_source_id r = s) (db_sources d)"

definition is_initialized :: "db \<Rightarrow> string \<Rightarrow> bool" where
  "is_initialized d s = (case find_source d s of None \<Rightarrow> False | Some r \<Rightarrow> ss_initialized r)"

definition upsert_source :: "source_state \<Rightarrow> (source_state \<Rightarrow> source_state) \<Rightarrow> db \<Rightarrow> db" where
  "upsert_source new upd d = d\<lparr>db_sources := upsert_row ss_source_id new upd (db_sources d)\<rparr>"

definition mark_initialized :: "timestamp \<Rightarrow> string \<Rightarrow> db \<Rightarrow> db" where
  "mark_initialized now s d = upsert_source
     \<lparr>ss_source_id = s, ss_initialized = True, ss_last_polled_at = Some now, ss_etag = None,
      ss_latest_release_tag = None\<rparr>
     (\<lambda>r. r\<lparr>ss_initialized := True\<rparr>) d"

definition touch_polled :: "timestamp \<Rightarrow> string \<Rightarrow> db \<Rightarrow> db" where
  "touch_polled now s d = upsert_source
     \<lparr>ss_source_id = s, ss_initialized = False, ss_last_polled_at = Some now, ss_etag = None,
      ss_latest_release_tag = None\<rparr>
     (\<lambda>r. r\<lparr>ss_last_polled_at := Some now\<rparr>) d"

definition set_latest_release_tag :: "timestamp \<Rightarrow> string \<Rightarrow> string \<Rightarrow> db \<Rightarrow> db" where
  "set_latest_release_tag now s tag d = upsert_source
     \<lparr>ss_source_id = s, ss_initialized = False, ss_last_polled_at = Some now, ss_etag = None,
      ss_latest_release_tag = Some tag\<rparr>
     (\<lambda>r. r\<lparr>ss_latest_release_tag := Some tag\<rparr>) d"

definition set_etag :: "timestamp \<Rightarrow> string \<Rightarrow> string option \<Rightarrow> db \<Rightarrow> db" where
  "set_etag now s etag d = upsert_source
     \<lparr>ss_source_id = s, ss_initialized = False, ss_last_polled_at = Some now, ss_etag = etag,
      ss_latest_release_tag = None\<rparr>
     (\<lambda>r. r\<lparr>ss_etag := etag\<rparr>) d"

definition get_etag :: "db \<Rightarrow> string \<Rightarrow> string option" where
  "get_etag d s = (case find_source d s of None \<Rightarrow> None | Some r \<Rightarrow> ss_etag r)"

record source_state_view =
  sv_initialized :: bool
  sv_last_polled_at :: "timestamp option"
  sv_latest_release_tag :: "string option"

definition view_state :: "source_state \<Rightarrow> source_state_view" where
  "view_state r = \<lparr>sv_initialized = ss_initialized r, sv_last_polled_at = ss_last_polled_at r,
     sv_latest_release_tag = ss_latest_release_tag r\<rparr>"

definition source_state_row :: "db \<Rightarrow> string \<Rightarrow> source_state_view" where
  "source_state_row d s =
    (case find_source d s of
       Some r \<Rightarrow> view_state r
     | None \<Rightarrow> \<lparr>sv_initialized = False, sv_last_polled_at = None, sv_latest_release_tag = None\<rparr>)"

definition all_source_states :: "db \<Rightarrow> (string \<times> source_state_view) list" where
  "all_source_states d = map (\<lambda>r. (ss_source_id r, view_state r)) (db_sources d)"

section \<open>The catalogue of seen releases\<close>

record seen_upsert =
  su_identity :: string
  su_display_tag :: "string option"
  su_content_digest :: "string option"
  su_published_at :: "timestamp option"
  su_url :: "string option"

definition display_label :: "'v release \<Rightarrow> string option" where
  "display_label r = (if rel_raw_tag r = rel_id r then None else Some (rel_raw_tag r))"

definition seen_from_release :: "'v release \<Rightarrow> string option \<Rightarrow> seen_upsert" where
  "seen_from_release r digest =
    \<lparr>su_identity = rel_id r, su_display_tag = display_label r, su_content_digest = digest,
     su_published_at = None, su_url = rel_url r\<rparr>"

definition seen_with_published :: "seen_upsert \<Rightarrow> timestamp option \<Rightarrow> seen_upsert" where
  "seen_with_published u t = u\<lparr>su_published_at := t\<rparr>"

definition seen_row_of :: "timestamp \<Rightarrow> string \<Rightarrow> seen_upsert \<Rightarrow> seen_row" where
  "seen_row_of now s u =
    \<lparr>sr_source_id = s, sr_identity = su_identity u, sr_display_tag = su_display_tag u,
     sr_first_seen_at = now, sr_content_digest = su_content_digest u,
     sr_published_at = su_published_at u, sr_url = su_url u\<rparr>"

definition merge_seen :: "seen_upsert \<Rightarrow> seen_row \<Rightarrow> seen_row" where
  "merge_seen u r =
    r\<lparr>sr_display_tag := coalesce (su_display_tag u) (sr_display_tag r),
      sr_content_digest := su_content_digest u,
      sr_published_at := coalesce (sr_published_at r) (su_published_at u),
      sr_url := coalesce (sr_url r) (su_url u)\<rparr>"

definition write_seen_row :: "timestamp \<Rightarrow> string \<Rightarrow> seen_upsert \<Rightarrow> db \<Rightarrow> db" where
  "write_seen_row now s u d =
    d\<lparr>db_seen := upsert_row seen_key (seen_row_of now s u) (merge_seen u) (db_seen d)\<rparr>"

definition record_seen :: "timestamp \<Rightarrow> string \<Rightarrow> seen_upsert \<Rightarrow> db \<Rightarrow> db" where
  "record_seen now s u d = write_seen_row now s u d"

text \<open>\<^verbatim>\<open>SELECT DISTINCT ON (identity)\<close>: the first item of each identity, sorted by identity.\<close>

definition distinct_items :: "seen_upsert list \<Rightarrow> seen_upsert list" where
  "distinct_items items =
    sort_key su_identity
      (rev (fold (\<lambda>u acc. if su_identity u \<in> set (map su_identity acc) then acc else u # acc) items []))"

definition record_seen_batch :: "timestamp \<Rightarrow> string \<Rightarrow> seen_upsert list \<Rightarrow> db \<Rightarrow> db" where
  "record_seen_batch now s items d =
    (if items = [] then mark_initialized now s d
     else
       mark_initialized now s
         (fold (\<lambda>u d. write_seen_row now s u d) (distinct_items items) d))"

definition source_rows :: "db \<Rightarrow> string \<Rightarrow> seen_row list" where
  "source_rows d s = filter (\<lambda>r. sr_source_id r = s) (db_seen d)"

definition find_seen :: "db \<Rightarrow> string \<Rightarrow> string \<Rightarrow> seen_row option" where
  "find_seen d s i = find (\<lambda>r. seen_key r = (s, i)) (db_seen d)"

definition content_digest :: "db \<Rightarrow> string \<Rightarrow> string \<Rightarrow> string option" where
  "content_digest d s i = (case find_seen d s i of None \<Rightarrow> None | Some r \<Rightarrow> sr_content_digest r)"

definition has_seen :: "db \<Rightarrow> string \<Rightarrow> string \<Rightarrow> bool" where
  "has_seen d s i = (find_seen d s i \<noteq> None)"

definition unseen :: "db \<Rightarrow> string \<Rightarrow> string list \<Rightarrow> string list" where
  "unseen d s ids =
    (if ids = [] then []
     else
       let seen = map sr_identity (filter (\<lambda>r. sr_identity r \<in> set ids) (source_rows d s)) in
       filter (\<lambda>i. i \<notin> set seen) ids)"

definition load_seen_index :: "db \<Rightarrow> string \<Rightarrow> string \<Rightarrow> string option option" where
  "load_seen_index d s = map_of (map (\<lambda>r. (sr_identity r, sr_content_digest r)) (source_rows d s))"

definition has_seen_missing_published_at :: "db \<Rightarrow> string \<Rightarrow> bool" where
  "has_seen_missing_published_at d s =
    list_ex (\<lambda>r. sr_source_id r = s \<and> sr_published_at r = None) (db_seen d)"

text \<open>
  The columns to merge in; releases that carry nothing new are not sent.  Where a list names an
  identity twice the join of the statement picks one of them, here the first.
\<close>

definition enrich_items :: "'v release list \<Rightarrow> 'v release list" where
  "enrich_items rs =
    filter (\<lambda>r. \<not> (rel_published_at r = None \<and> rel_url r = None \<and> display_label r = None)) rs"

definition enrich_seen_metadata :: "string \<Rightarrow> 'v release list \<Rightarrow> db \<Rightarrow> db" where
  "enrich_seen_metadata s rs d =
    (if rs = [] then d
     else if enrich_items rs = [] then d
     else
       d\<lparr>db_seen := map (\<lambda>row.
          if sr_source_id row = s then
            (case find (\<lambda>r. rel_id r = sr_identity row) (enrich_items rs) of
               None \<Rightarrow> row
             | Some r \<Rightarrow>
                 row\<lparr>sr_published_at := coalesce (sr_published_at row) (rel_published_at r),
                     sr_url := coalesce (sr_url row) (rel_url r),
                     sr_display_tag := coalesce (sr_display_tag row) (display_label r)\<rparr>)
          else row) (db_seen d)\<rparr>)"

subsection \<open>Listings\<close>

definition seen_count :: "db \<Rightarrow> string \<Rightarrow> nat" where
  "seen_count d s = length (source_rows d s)"

definition seen_counts_by_source :: "db \<Rightarrow> (string \<times> nat) list" where
  "seen_counts_by_source d =
    map (\<lambda>s. (s, seen_count d s)) (remdups (map sr_source_id (db_seen d)))"

record seen_entry =
  se_identity :: string
  se_tag :: string
  se_published_at :: "timestamp option"
  se_url :: "string option"
  se_first_seen_at :: "timestamp option"

definition row_tag :: "seen_row \<Rightarrow> string" where
  "row_tag r = (case sr_display_tag r of None \<Rightarrow> sr_identity r | Some t \<Rightarrow> t)"

definition entry_of_row :: "seen_row \<Rightarrow> seen_entry" where
  "entry_of_row r =
    \<lparr>se_identity = sr_identity r, se_tag = row_tag r, se_published_at = sr_published_at r,
     se_url = sr_url r, se_first_seen_at = Some (sr_first_seen_at r)\<rparr>"

text \<open>
  The sort key of \<^verbatim>\<open>DISTINCT ON\<close>, compared in descending order: the row carrying the latest tag,
  then the publication date (missing dates last), then the date of discovery.
\<close>

definition latest_key :: "db \<Rightarrow> seen_row \<Rightarrow> bool \<times> timestamp option \<times> timestamp" where
  "latest_key d r =
    ((case find_source d (sr_source_id r) of
        None \<Rightarrow> False | Some st \<Rightarrow> ss_latest_release_tag st = Some (row_tag r)),
     sr_published_at r, sr_first_seen_at r)"

definition latest_row :: "db \<Rightarrow> string \<Rightarrow> seen_row option" where
  "latest_row d s =
    (case sort_by (\<lambda>a b. cmp_of (latest_key d b) (latest_key d a)) (source_rows d s) of
       [] \<Rightarrow> None | r # _ \<Rightarrow> Some r)"

definition latest_seen_by_source :: "db \<Rightarrow> (string \<times> seen_entry) list" where
  "latest_seen_by_source d =
    List.map_filter (\<lambda>s. map_option (\<lambda>r. (s, entry_of_row r)) (latest_row d s))
      (remdups (map sr_source_id (db_seen d)))"

definition best_seen_identity :: "'v::linorder semver \<Rightarrow> db \<Rightarrow> string \<Rightarrow> string option" where
  "best_seen_identity lib d s =
    (let rows = source_rows d s in
     if rows = [] then None
     else map_option rel_raw_tag (pick_latest (map (\<lambda>r. release_new lib (sr_identity r)) rows)))"

definition list_seen_releases :: "'v::linorder semver \<Rightarrow> db \<Rightarrow> string \<Rightarrow> nat \<Rightarrow> seen_entry list" where
  "list_seen_releases lib d s limit =
    (let rows = source_rows d s;
         releases = sort_releases_newest_first (map (\<lambda>r.
            with_published (release_display lib (release_new lib (sr_identity r)) (row_tag r))
              (sr_published_at r)) rows) in
     map (\<lambda>rel.
       (case find (\<lambda>r. sr_identity r = rel_id rel) (rev rows) of
          Some r \<Rightarrow> \<lparr>se_identity = rel_id rel,
             se_tag = (case sr_display_tag r of None \<Rightarrow> rel_raw_tag rel | Some t \<Rightarrow> t),
             se_published_at = sr_published_at r, se_url = sr_url r,
             se_first_seen_at = Some (sr_first_seen_at r)\<rparr>
        | None \<Rightarrow> \<lparr>se_identity = rel_id rel, se_tag = rel_raw_tag rel, se_published_at = None,
             se_url = None, se_first_seen_at = None\<rparr>)) (take limit releases))"

section \<open>Webhook idempotency and pruning\<close>

definition claim_webhook_delivery :: "timestamp \<Rightarrow> string \<Rightarrow> db \<Rightarrow> bool \<times> db" where
  "claim_webhook_delivery now i d =
    (if i \<in> set (map wh_delivery_id (db_webhooks d)) then (False, d)
     else (True, d\<lparr>db_webhooks := db_webhooks d @ [\<lparr>wh_delivery_id = i, wh_received_at = now\<rparr>]\<rparr>))"

record prune_report =
  pr_seen_deleted :: nat
  pr_webhooks_deleted :: nat
  pr_outbox_deleted :: nat
  pr_advisories_deleted :: nat
  pr_advisory_checks_deleted :: nat

definition prune_report_any :: "prune_report \<Rightarrow> bool" where
  "prune_report_any r \<longleftrightarrow> 0 < pr_seen_deleted r \<or> 0 < pr_webhooks_deleted r
     \<or> 0 < pr_outbox_deleted r \<or> 0 < pr_advisories_deleted r \<or> 0 < pr_advisory_checks_deleted r"

text \<open>\<^verbatim>\<open>i32::try_from\<close> of an unsigned number, the maximum when it does not fit.\<close>

definition i32_of_nat :: "nat \<Rightarrow> int" where
  "i32_of_nat n = (if n < 2 ^ 31 then int n else 2 ^ 31 - 1)"

definition cutoff :: "timestamp \<Rightarrow> nat \<Rightarrow> timestamp" where
  "cutoff now n = now - days (i32_of_nat n)"

definition deleted_by :: "('r \<Rightarrow> bool) \<Rightarrow> 'r list \<Rightarrow> nat" where
  "deleted_by P rows = length (filter P rows)"

definition expired_outbox :: "timestamp \<Rightarrow> nat \<Rightarrow> outbox_row \<Rightarrow> bool" where
  "expired_outbox now n r \<longleftrightarrow> ob_status r = Sent
     \<and> (case ob_sent_at r of None \<Rightarrow> False | Some t \<Rightarrow> t < cutoff now n)"

text \<open>Deleting queue rows cascades to the ledger; orphaned ledger rows are deleted as well.\<close>

definition delete_outbox :: "(outbox_row \<Rightarrow> bool) \<Rightarrow> db \<Rightarrow> db" where
  "delete_outbox P d =
    (let kept = filter (\<lambda>r. \<not> P r) (db_outbox d) in
     d\<lparr>db_outbox := kept,
       db_sinks := filter (\<lambda>k. sd_outbox_id k \<in> set (map ob_id kept)) (db_sinks d)\<rparr>)"

definition prune_seen :: "timestamp \<Rightarrow> nat \<Rightarrow> db \<Rightarrow> nat \<times> db" where
  "prune_seen now n d =
    (if 0 < n then
       let old = (\<lambda>r. sr_first_seen_at r < cutoff now n) in
       (deleted_by old (db_seen d), d\<lparr>db_seen := filter (\<lambda>r. \<not> old r) (db_seen d)\<rparr>)
     else (0, d))"

definition prune_webhooks :: "timestamp \<Rightarrow> nat \<Rightarrow> db \<Rightarrow> nat \<times> db" where
  "prune_webhooks now n d =
    (if 0 < n then
       let old = (\<lambda>r. wh_received_at r < cutoff now n) in
       (deleted_by old (db_webhooks d), d\<lparr>db_webhooks := filter (\<lambda>r. \<not> old r) (db_webhooks d)\<rparr>)
     else (0, d))"

definition prune_outbox :: "timestamp \<Rightarrow> nat \<Rightarrow> db \<Rightarrow> nat \<times> db" where
  "prune_outbox now n d =
    (if 0 < n then (deleted_by (expired_outbox now n) (db_outbox d), delete_outbox (expired_outbox now n) d)
     else (0, d))"

definition prune_advisories :: "timestamp \<Rightarrow> nat \<Rightarrow> db \<Rightarrow> nat \<times> nat \<times> db" where
  "prune_advisories now n d =
    (if 0 < n then
       let old = (\<lambda>r. ra_fetched_at r < cutoff now n); oldc = (\<lambda>r. ck_checked_at r < cutoff now n) in
       (deleted_by old (db_advisories d), deleted_by oldc (db_checks d),
        d\<lparr>db_advisories := filter (\<lambda>r. \<not> old r) (db_advisories d),
          db_checks := filter (\<lambda>r. \<not> oldc r) (db_checks d)\<rparr>)
     else (0, 0, d))"

definition prune :: "timestamp \<Rightarrow> nat \<Rightarrow> nat \<Rightarrow> nat \<Rightarrow> nat \<Rightarrow> db \<Rightarrow> prune_report \<times> db" where
  "prune now seen_days webhook_days outbox_days advisory_days d =
    (let (a, d1) = prune_seen now seen_days d;
         (b, d2) = prune_webhooks now webhook_days d1;
         (c, d3) = prune_outbox now outbox_days d2;
         (e, f, d4) = prune_advisories now advisory_days d3 in
     (\<lparr>pr_seen_deleted = a, pr_webhooks_deleted = b, pr_outbox_deleted = c,
       pr_advisories_deleted = e, pr_advisory_checks_deleted = f\<rparr>, d4))"

section \<open>Integrity\<close>

lemma upsert_source_ok:
  "db_ok d \<Longrightarrow> (\<And>r. ss_source_id (upd r) = ss_source_id r) \<Longrightarrow> db_ok (upsert_source new upd d)"
  unfolding upsert_source_def by (rule db_ok_sources) (auto intro: upsert_distinct simp: db_ok_def)

lemma source_ops_ok [db_keeps]:
  assumes "db_ok d"
  shows "db_ok (mark_initialized now s d)" "db_ok (touch_polled now s d)"
    "db_ok (set_latest_release_tag now s tag d)" "db_ok (set_etag now s etag d)"
  unfolding mark_initialized_def touch_polled_def set_latest_release_tag_def set_etag_def
  by (rule upsert_source_ok [OF assms]; simp)+

lemma merge_seen_key [simp]: "seen_key (merge_seen u r) = seen_key r"
  by (simp add: merge_seen_def seen_key_def)

lemma seen_row_of_key [simp]: "seen_key (seen_row_of now s u) = (s, su_identity u)"
  by (simp add: seen_row_of_def seen_key_def)

lemma write_seen_row_ok [db_keeps]: "db_ok d \<Longrightarrow> db_ok (write_seen_row now s u d)"
  unfolding write_seen_row_def by (rule db_ok_seen) (auto intro: upsert_distinct simp: db_ok_def)

lemma record_seen_ok [db_keeps]: "db_ok d \<Longrightarrow> db_ok (record_seen now s u d)"
  by (simp add: record_seen_def write_seen_row_ok)

lemma record_seen_batch_ok [db_keeps]: "db_ok d \<Longrightarrow> db_ok (record_seen_batch now s items d)"
proof -
  have "db_ok d \<Longrightarrow> db_ok (fold (\<lambda>u d. write_seen_row now s u d) us d)" for us
    by (induction us arbitrary: d) (auto intro: db_keeps)
  then show "db_ok d \<Longrightarrow> db_ok (record_seen_batch now s items d)"
    by (simp add: record_seen_batch_def source_ops_ok)
qed

lemma enrich_keys:
  "map seen_key (db_seen (enrich_seen_metadata s rs d)) = map seen_key (db_seen d)"
  by (auto simp: enrich_seen_metadata_def seen_key_def split: option.splits)

lemma enrich_seen_metadata_ok [db_keeps]: "db_ok d \<Longrightarrow> db_ok (enrich_seen_metadata s rs d)"
proof -
  assume ok: "db_ok d"
  have "enrich_seen_metadata s rs d = d\<lparr>db_seen := db_seen (enrich_seen_metadata s rs d)\<rparr>"
    by (simp add: enrich_seen_metadata_def)
  then show ?thesis using db_ok_seen [OF ok] enrich_keys ok unfolding db_ok_def by metis
qed

lemma claim_webhook_ok [db_keeps]: "db_ok d \<Longrightarrow> db_ok (snd (claim_webhook_delivery now i d))"
  by (auto simp: claim_webhook_delivery_def db_ok_def)

lemma prune_seen_ok: "db_ok d \<Longrightarrow> db_ok (snd (prune_seen now n d))"
  by (simp add: prune_seen_def Let_def db_ok_def distinct_map_filter)

lemma prune_webhooks_ok: "db_ok d \<Longrightarrow> db_ok (snd (prune_webhooks now n d))"
  by (simp add: prune_webhooks_def Let_def db_ok_def distinct_map_filter)

lemma delete_outbox_ok: "db_ok d \<Longrightarrow> db_ok (delete_outbox P d)"
  by (auto simp: delete_outbox_def Let_def db_ok_def outbox_ok_def sinks_ok_def distinct_map_filter
      list_all_iff)

lemma prune_outbox_ok: "db_ok d \<Longrightarrow> db_ok (snd (prune_outbox now n d))"
  by (simp add: prune_outbox_def delete_outbox_ok)

lemma prune_advisories_ok: "db_ok d \<Longrightarrow> db_ok (snd (snd (prune_advisories now n d)))"
  by (simp add: prune_advisories_def Let_def db_ok_def distinct_map_filter)

lemma prune_ok [db_keeps]: "db_ok d \<Longrightarrow> db_ok (snd (prune now a b c e d))"
proof -
  assume ok: "db_ok d"
  define d1 where "d1 = snd (prune_seen now a d)"
  define d2 where "d2 = snd (prune_webhooks now b d1)"
  define d3 where "d3 = snd (prune_outbox now c d2)"
  have "db_ok d3"
    unfolding d3_def d2_def d1_def using ok prune_seen_ok prune_webhooks_ok prune_outbox_ok by blast
  moreover have "snd (prune now a b c e d) = snd (snd (prune_advisories now e d3))"
    by (simp add: prune_def d3_def d2_def d1_def split: prod.splits)
  ultimately show ?thesis using prune_advisories_ok by simp
qed

section \<open>What the catalogue answers\<close>

lemma find_upsert_row:
  assumes "\<And>r. key r = key new \<Longrightarrow> key (upd r) = key r"
  shows "find (\<lambda>r. key r = k) (upsert_row key new upd rows) =
    (if k = key new then
       (case find (\<lambda>r. key r = k) rows of None \<Rightarrow> Some new | Some r \<Rightarrow> Some (upd r))
     else find (\<lambda>r. key r = k) rows)"
proof -
  have mapped: "find (\<lambda>r. key r = k) (map (\<lambda>r. if key r = key new then upd r else r) rows) =
      (if k = key new then map_option upd (find (\<lambda>r. key r = k) rows)
       else find (\<lambda>r. key r = k) rows)"
    using assms by (induction rows) auto
  have appended: "find P (rows @ [new]) = (case find P rows of None \<Rightarrow> if P new then Some new else None
      | Some r \<Rightarrow> Some r)" for P
    by (induction rows) auto
  show ?thesis
  proof (cases "key new \<in> set (map key rows)")
    case True
    then have "find (\<lambda>r. key r = key new) rows \<noteq> None" by (auto simp: find_None_iff)
    then show ?thesis using True mapped by (auto simp: upsert_row_def)
  next
    case False
    then have "\<not> (\<exists>r. r \<in> set rows \<and> key r = key new)" by (metis image_eqI set_map)
    then have "find (\<lambda>r. key r = key new) rows = None" unfolding find_None_iff .
    then show ?thesis using False by (auto simp: upsert_row_def appended split: option.splits)
  qed
qed

lemma find_seen_write:
  "find_seen (write_seen_row now s u d) s' i =
    (if (s', i) = (s, su_identity u) then
       Some (case find_seen d s' i of None \<Rightarrow> seen_row_of now s u | Some r \<Rightarrow> merge_seen u r)
     else find_seen d s' i)"
proof -
  have "find (\<lambda>r. seen_key r = (s', i))
      (upsert_row seen_key (seen_row_of now s u) (merge_seen u) (db_seen d)) =
    (if (s', i) = seen_key (seen_row_of now s u) then
       (case find (\<lambda>r. seen_key r = (s', i)) (db_seen d) of
          None \<Rightarrow> Some (seen_row_of now s u) | Some r \<Rightarrow> Some (merge_seen u r))
     else find (\<lambda>r. seen_key r = (s', i)) (db_seen d))"
    by (rule find_upsert_row) simp
  then show ?thesis by (simp add: find_seen_def write_seen_row_def split: option.splits)
qed

lemma has_seen_write:
  "has_seen (write_seen_row now s u d) s' i \<longleftrightarrow> (s', i) = (s, su_identity u) \<or> has_seen d s' i"
  by (auto simp: has_seen_def find_seen_write)

lemma seen_other_tables [simp]:
  "find_seen (mark_initialized now s d) = find_seen d"
  "find_seen (touch_polled now s d) = find_seen d"
  "find_seen (set_latest_release_tag now s tag d) = find_seen d"
  "find_seen (set_etag now s etag d) = find_seen d"
  by (simp_all add: fun_eq_iff find_seen_def mark_initialized_def touch_polled_def
      set_latest_release_tag_def set_etag_def upsert_source_def)

lemma has_seen_iff: "has_seen d s i \<longleftrightarrow> (\<exists>r \<in> set (db_seen d). seen_key r = (s, i))"
  by (auto simp: has_seen_def find_seen_def find_None_iff)

lemma unseen_spec: "unseen d s ids = filter (\<lambda>i. \<not> has_seen d s i) ids"
proof -
  have "i \<in> set (map sr_identity (filter (\<lambda>r. sr_identity r \<in> set ids) (source_rows d s)))
      \<longleftrightarrow> i \<in> set ids \<and> has_seen d s i" for i
    by (auto simp: has_seen_iff seen_key_def source_rows_def)
  then have "filter (\<lambda>i. i \<notin> set (map sr_identity (filter (\<lambda>r. sr_identity r \<in> set ids) (source_rows d s)))) ids
      = filter (\<lambda>i. \<not> has_seen d s i) ids"
    by (intro filter_cong) simp_all
  then show ?thesis unfolding unseen_def Let_def by simp
qed

lemma load_seen_index_spec:
  "load_seen_index d s i = (if has_seen d s i then Some (content_digest d s i) else None)"
proof -
  have "map_of (map (\<lambda>r. (sr_identity r, sr_content_digest r)) (filter (\<lambda>r. sr_source_id r = s) rows)) i
      = map_option sr_content_digest (find (\<lambda>r. seen_key r = (s, i)) rows)" for rows
    by (induction rows) (auto simp: seen_key_def)
  then show ?thesis
    by (simp add: load_seen_index_def source_rows_def has_seen_def content_digest_def find_seen_def
        split: option.splits)
qed

lemma has_seen_fold_write:
  "has_seen (fold (\<lambda>u d. write_seen_row now s u d) us d) s' i
     \<longleftrightarrow> s' = s \<and> i \<in> su_identity ` set us \<or> has_seen d s' i"
  by (induction us arbitrary: d) (auto simp: has_seen_write)

lemma distinct_items_identities:
  "su_identity ` set (distinct_items items) = su_identity ` set items"
proof -
  have "su_identity ` set (fold (\<lambda>u acc. if su_identity u \<in> set (map su_identity acc) then acc else u # acc) us acc)
      = su_identity ` set us \<union> su_identity ` set acc" for us acc
    by (induction us arbitrary: acc) (auto simp: image_iff)
  from this [of items "[]"] show ?thesis by (simp add: distinct_items_def)
qed

lemma has_seen_batch:
  "has_seen (record_seen_batch now s items d) s' i
     \<longleftrightarrow> s' = s \<and> i \<in> su_identity ` set items \<or> has_seen d s' i"
proof -
  have "has_seen (mark_initialized now s d') s' i = has_seen d' s' i" for d'
    by (simp add: has_seen_def)
  then show ?thesis
    by (simp add: record_seen_batch_def has_seen_fold_write distinct_items_identities)
qed

subsection \<open>The baseline flag\<close>

lemma is_initialized_iff:
  assumes "db_ok d"
  shows "is_initialized d s \<longleftrightarrow> (\<exists>r \<in> set (db_sources d). ss_source_id r = s \<and> ss_initialized r)"
proof (cases "find_source d s")
  case None
  then have "\<not> (\<exists>r. r \<in> set (db_sources d) \<and> ss_source_id r = s)"
    unfolding find_source_def find_None_iff .
  then show ?thesis using None by (auto simp: is_initialized_def)
next
  case (Some r)
  then have r: "r \<in> set (db_sources d)" "ss_source_id r = s"
    using find_Some_in [OF Some [unfolded find_source_def]] by simp_all
  have "distinct (map ss_source_id (db_sources d))" using assms by (simp add: db_ok_def)
  then have unique: "r' = r" if "r' \<in> set (db_sources d)" "ss_source_id r' = s" for r'
    using distinct_key_unique [of ss_source_id "db_sources d" r' r] r that by simp
  have "is_initialized d s = ss_initialized r" using Some by (simp add: is_initialized_def)
  then show ?thesis using unique r by metis
qed

lemma is_initialized_upsert:
  assumes "\<And>r. ss_source_id (upd r) = ss_source_id r"
  shows "is_initialized (upsert_source new upd d) s =
    (if s = ss_source_id new then
       (case find_source d s of None \<Rightarrow> ss_initialized new | Some r \<Rightarrow> ss_initialized (upd r))
     else is_initialized d s)"
proof -
  have sel: "db_sources (upsert_source new upd d) = upsert_row ss_source_id new upd (db_sources d)"
    by (simp add: upsert_source_def)
  have eq: "find_source (upsert_source new upd d) s =
    (if s = ss_source_id new then
       (case find_source d s of None \<Rightarrow> Some new | Some r \<Rightarrow> Some (upd r))
     else find_source d s)"
    unfolding find_source_def sel by (rule find_upsert_row) (rule assms)
  show ?thesis
    unfolding is_initialized_def eq by (cases "find_source d (ss_source_id new)") auto
qed

lemma is_initialized_ops [simp]:
  "is_initialized (mark_initialized now s d) s' \<longleftrightarrow> s' = s \<or> is_initialized d s'"
  "is_initialized (touch_polled now s d) s' \<longleftrightarrow> is_initialized d s'"
  "is_initialized (set_latest_release_tag now s tag d) s' \<longleftrightarrow> is_initialized d s'"
  "is_initialized (set_etag now s etag d) s' \<longleftrightarrow> is_initialized d s'"
  unfolding mark_initialized_def touch_polled_def set_latest_release_tag_def set_etag_def
  by (simp_all add: is_initialized_upsert)
     (auto simp: is_initialized_def split: option.splits)

lemma find_source_seen_ops [simp]:
  "find_source (write_seen_row now s u d) = find_source d"
  "find_source (enrich_seen_metadata s rs d) = find_source d"
  "find_source (snd (claim_webhook_delivery now i d)) = find_source d"
  by (simp_all add: fun_eq_iff find_source_def write_seen_row_def enrich_seen_metadata_def
      claim_webhook_delivery_def)

lemma is_initialized_fold_write [simp]:
  "is_initialized (fold (\<lambda>u d. write_seen_row now s u d) us d) = is_initialized d"
  by (induction us arbitrary: d) (simp_all add: fun_eq_iff is_initialized_def)

lemma is_initialized_batch [simp]:
  "is_initialized (record_seen_batch now s items d) s' \<longleftrightarrow> s' = s \<or> is_initialized d s'"
  by (simp add: record_seen_batch_def)

lemma is_initialized_seen_ops [simp]:
  "is_initialized (write_seen_row now s u d) s' = is_initialized d s'"
  "is_initialized (record_seen now s u d) s' = is_initialized d s'"
  "is_initialized (enrich_seen_metadata s rs d) s' = is_initialized d s'"
  "is_initialized (snd (claim_webhook_delivery now i d)) s' = is_initialized d s'"
  by (simp_all add: is_initialized_def record_seen_def)

section \<open>Webhook deliveries\<close>

definition webhook_known :: "db \<Rightarrow> string \<Rightarrow> bool" where
  "webhook_known d i \<longleftrightarrow> i \<in> set (map wh_delivery_id (db_webhooks d))"

interpretation webhooks: claim_ledger "\<lambda>(now, i). claim_webhook_delivery now i" snd webhook_known
  by unfold_locales (auto simp: claim_webhook_delivery_def webhook_known_def split: if_splits prod.splits)

section \<open>Properties\<close>

text \<open>
  the silent baseline is recorded in one step.  After \<^verbatim>\<open>record_seen_batch\<close> exactly the listed
  identities of that source are seen in addition to those before, the source is initialized,
  no other source's flag changes, and the tables keep their integrity, whether or not the
  list names an identity twice.
\<close>

theorem baseline_records_all:
  assumes "db_ok d" and "d' = record_seen_batch now s items d"
  shows "db_ok d'
    \<and> has_seen d' = (\<lambda>s' i. s' = s \<and> i \<in> set (map su_identity items) \<or> has_seen d s' i)
    \<and> is_initialized d' = (\<lambda>s'. s' = s \<or> is_initialized d s')"
  using assms by (simp add: fun_eq_iff has_seen_batch record_seen_batch_ok)

definition example_item :: "string \<Rightarrow> seen_upsert" where
  "example_item i = \<lparr>su_identity = i, su_display_tag = None, su_content_digest = Some ''d1'',
     su_published_at = None, su_url = None\<rparr>"

theorem baseline_records_all_witness:
  "has_seen (record_seen_batch 5 ''gh:a'' [example_item ''v1'', example_item ''v1'', example_item ''v2''] empty_db)
     ''gh:a'' ''v2''"
  using baseline_records_all [OF db_ok_empty refl, of 5 "''gh:a''"
      "[example_item ''v1'', example_item ''v1'', example_item ''v2'']"]
  by (simp add: example_item_def)

text \<open>
  recording a release again.  The row keeps its date of discovery, a known publication date
  and a known URL; the content digest is replaced, a display tag only by a new one; other rows
  are untouched.
\<close>

theorem record_seen_merges:
  "find_seen (record_seen now s u d) s' i =
     (if (s', i) = (s, su_identity u) then
        Some (case find_seen d s i of
            None \<Rightarrow> \<lparr>sr_source_id = s, sr_identity = i, sr_display_tag = su_display_tag u,
              sr_first_seen_at = now, sr_content_digest = su_content_digest u,
              sr_published_at = su_published_at u, sr_url = su_url u\<rparr>
          | Some r \<Rightarrow>
              r\<lparr>sr_display_tag := (case su_display_tag u of None \<Rightarrow> sr_display_tag r | Some t \<Rightarrow> Some t),
                sr_content_digest := su_content_digest u,
                sr_published_at := (case sr_published_at r of None \<Rightarrow> su_published_at u | Some t \<Rightarrow> Some t),
                sr_url := (case sr_url r of None \<Rightarrow> su_url u | Some t \<Rightarrow> Some t)\<rparr>)
      else find_seen d s' i)"
  by (auto simp: record_seen_def find_seen_write merge_seen_def seen_row_of_def coalesce_def
      split: option.splits)

text \<open>
  webhook idempotency.  In every sequence of claims, at whatever times, each delivery id is
  accepted at most once, exactly the ids not known before are accepted, and all claimed ids
  are known afterwards.
\<close>

theorem webhook_delivery_once:
  "distinct (map snd (fst (accepted (\<lambda>(now, i). claim_webhook_delivery now i) claims d)))
   \<and> snd ` set (fst (accepted (\<lambda>(now, i). claim_webhook_delivery now i) claims d))
       = {i \<in> snd ` set claims. \<not> webhook_known d i}
   \<and> webhook_known (snd (accepted (\<lambda>(now, i). claim_webhook_delivery now i) claims d))
       = (\<lambda>i. i \<in> snd ` set claims \<or> webhook_known d i)"
  by (rule webhooks.accepted_run)

lemma delete_outbox_kept:
  "db_outbox (delete_outbox P d) = filter (\<lambda>r. \<not> P r) (db_outbox d)"
  "db_sinks (delete_outbox P d)
     = filter (\<lambda>k. sd_outbox_id k \<in> set (map ob_id (filter (\<lambda>r. \<not> P r) (db_outbox d)))) (db_sinks d)"
  by (simp_all add: delete_outbox_def Let_def)

lemma prune_outbox_view:
  "db_outbox (snd (prune now a b c e d)) = db_outbox (snd (prune_outbox now c d))"
  "db_sinks (snd (prune now a b c e d)) = db_sinks (snd (prune_outbox now c d))"
  "pr_outbox_deleted (fst (prune now a b c e d)) = fst (prune_outbox now c d)"
  by (simp_all add: prune_def prune_seen_def prune_webhooks_def prune_outbox_def prune_advisories_def
      delete_outbox_def Let_def split: prod.splits)

text \<open>
  pruning never loses an undelivered notification.  It keeps integrity, removes only rows sent
  before the retention cutoff (and counts them), keeps every other queue row unchanged and in
  order together with its ledger rows, and removes nothing from the queue when retention is off.
\<close>

theorem prune_keeps_undelivered:
  assumes "db_ok d"
  shows "db_ok (snd (prune now a b c e d))
    \<and> filter (\<lambda>r. ob_status r \<noteq> Sent) (db_outbox (snd (prune now a b c e d)))
        = filter (\<lambda>r. ob_status r \<noteq> Sent) (db_outbox d)
    \<and> length (db_outbox (snd (prune now a b c e d))) + pr_outbox_deleted (fst (prune now a b c e d))
        = length (db_outbox d)
    \<and> db_sinks (snd (prune now a b c e d))
        = filter (\<lambda>k. sd_outbox_id k \<in> ob_id ` set (db_outbox (snd (prune now a b c e d)))) (db_sinks d)
    \<and> (if c = 0 then db_outbox (snd (prune now a b c e d)) = db_outbox d else True)"
proof -
  have fk: "filter (\<lambda>k. sd_outbox_id k \<in> ob_id ` set (db_outbox d)) (db_sinks d) = db_sinks d"
    using assms by (auto simp: db_ok_def sinks_ok_def list_all_iff intro: filter_True)
  have undelivered: "filter (\<lambda>r. ob_status r \<noteq> Sent) (filter (\<lambda>r. \<not> expired_outbox now c r) rows)
      = filter (\<lambda>r. ob_status r \<noteq> Sent) rows" for rows
    by (auto simp: expired_outbox_def intro: filter_cong)
  have count: "length (filter (\<lambda>r. \<not> P r) rows) + length (filter P rows) = length rows"
    for P :: "outbox_row \<Rightarrow> bool" and rows
    by (induction rows) auto
  show ?thesis
    using prune_ok [OF assms] undelivered count fk
    by (simp add: prune_outbox_view prune_outbox_def delete_outbox_kept deleted_by_def)
qed

definition example_outbox_row :: "int \<Rightarrow> string \<Rightarrow> row_status \<Rightarrow> timestamp option \<Rightarrow> outbox_row" where
  "example_outbox_row i ident st sent =
    \<lparr>ob_id = i, ob_source_id = ''gh:a'', ob_identity = ident, ob_content_digest = None,
     ob_display_tag = None, ob_published_at = None, ob_title = ''t'', ob_body = ''b'', ob_url = None,
     ob_routing_tag = None, ob_source_kind = ''github'', ob_status = st, ob_attempts = 0,
     ob_last_error = None, ob_created_at = 0, ob_sent_at = sent, ob_locked_until = None,
     ob_deliver_after = None\<rparr>"

definition example_queue :: db where
  "example_queue = empty_db\<lparr>db_outbox := [example_outbox_row 1 ''v1'' Sent (Some 0),
     example_outbox_row 2 ''v2'' Pending None], db_next_id := 3\<rparr>"

lemma example_queue_ok: "db_ok example_queue"
  by (simp add: example_queue_def empty_db_def db_ok_def outbox_ok_def sinks_ok_def
      example_outbox_row_def outbox_row_ok_def outbox_key_def)

theorem prune_keeps_undelivered_witness:
  "filter (\<lambda>r. ob_status r \<noteq> Sent) (db_outbox (snd (prune (days 10) 0 0 3 0 example_queue)))
     = [example_outbox_row 2 ''v2'' Pending None]"
  using prune_keeps_undelivered [OF example_queue_ok, of "days 10" 0 0 3 0]
  by (simp add: example_queue_def example_outbox_row_def)

end
