(* ===== verification/Organizations.thy ===== *)
theory Organizations
  imports Prelude
begin

text \<open>
  Organization namespaces (\<^verbatim>\<open>src/src/config/organizations.rs\<close>) and the routing of events to sinks
  by tag (\<^verbatim>\<open>src/src/notify/routing.rs\<close>).  The separator of both source ids and tags is a double
  colon; what the namespaces promise holds for ids that do not contain it, which the
  catalogue does not check.
\<close>

section \<open>Catalogue entries\<close>

record organization_config =
  oc_id :: string
  oc_name :: "string option"
  oc_app :: "string option"

definition trimmed_nonempty :: "string option \<Rightarrow> string option" where
  "trimmed_nonempty v =
    (case v of None \<Rightarrow> None | Some s \<Rightarrow> if trim s = [] then None else Some (trim s))"

definition org_id :: "organization_config \<Rightarrow> string" where
  "org_id o' = trim (oc_id o')"

definition org_display_name :: "organization_config \<Rightarrow> string" where
  "org_display_name o' = (case trimmed_nonempty (oc_name o') of Some n \<Rightarrow> n | None \<Rightarrow> oc_id o')"

definition org_app_path :: "organization_config \<Rightarrow> string option" where
  "org_app_path o' = trimmed_nonempty (oc_app o')"

section \<open>Namespaces\<close>

definition ORGANIZATION_SEP :: string where
  "ORGANIZATION_SEP = ''::''"

definition namespace_scoped :: "string \<Rightarrow> string \<Rightarrow> string" where
  "namespace_scoped org value =
    (let v = trim value; pre = org @ ORGANIZATION_SEP in
     if prefix pre v then v else pre @ v)"

definition namespace_routing_tag :: "string \<Rightarrow> string \<Rightarrow> string" where
  "namespace_routing_tag org tag = namespace_scoped org tag"

definition namespace_source_id :: "string \<Rightarrow> string \<Rightarrow> string" where
  "namespace_source_id org s = namespace_scoped org s"

definition namespace_preset_name :: "string \<Rightarrow> string \<Rightarrow> string" where
  "namespace_preset_name org n = namespace_scoped org n"

definition organization_id_from_source_id :: "string \<Rightarrow> string option" where
  "organization_id_from_source_id s =
    (case split_once ORGANIZATION_SEP s of
       None \<Rightarrow> None
     | Some (org, _) \<Rightarrow> if org = [] then None else Some org)"

section \<open>Routing\<close>

definition matches_routing_tags :: "string list \<Rightarrow> string option \<Rightarrow> bool" where
  "matches_routing_tags sink_tags event_tag =
    (if sink_tags = [] then True
     else (case trimmed_nonempty event_tag of
         None \<Rightarrow> False
       | Some t \<Rightarrow> list_ex (\<lambda>tag. trim tag = t) sink_tags))"

section \<open>Lemmas\<close>

text \<open>A slug: what the catalogue's ids are meant to be.\<close>

definition slug_ok :: "string \<Rightarrow> bool" where
  "slug_ok org \<longleftrightarrow> org \<noteq> [] \<and> trim_start org = org \<and> last org \<noteq> CHR '':''
     \<and> \<not> contains_str org ORGANIZATION_SEP"

lemma split_once_org:
  assumes "\<not> contains_str org ''::''" and "org = [] \<or> last org \<noteq> CHR '':''"
  shows "split_once ''::'' (org @ ''::'' @ v) = Some (org, v)"
  using assms
proof (induction org)
  case Nil
  then show ?case by simp
next
  case (Cons c cs)
  have "\<not> prefix ''::'' ((c # cs) @ ''::'' @ v)"
    using Cons.prems by (cases cs) auto
  then show ?case using Cons by (auto split: if_splits)
qed

lemma org_of_namespaced:
  "slug_ok org \<Longrightarrow> organization_id_from_source_id (org @ ''::'' @ v) = Some org"
  unfolding organization_id_from_source_id_def slug_ok_def ORGANIZATION_SEP_def
  by (simp add: split_once_org [simplified])

lemma namespace_scoped_shape: "\<exists>v. namespace_scoped org value = org @ ''::'' @ v"
  by (auto simp: namespace_scoped_def Let_def ORGANIZATION_SEP_def prefix_def)

lemma colon_no_white_space: "w \<in> set white_space \<Longrightarrow> CHR '':'' \<notin> set w"
proof -
  have "list_all (\<lambda>w. \<not> List.member w (CHR '':'')) white_space" by code_simp
  then show "w \<in> set white_space \<Longrightarrow> CHR '':'' \<notin> set w" by (auto simp: list_all_iff)
qed

lemma trim_start_org:
  assumes "slug_ok org"
  shows "trim_start (org @ ''::'' @ v) = org @ ''::'' @ v"
proof -
  have "strip_front white_space org = org" using assms by (simp add: slug_ok_def trim_start_def)
  then show ?thesis
    using strip_front_stop_id [where ws = white_space, OF colon_no_white_space, of org "'':'' @ v"] by (simp add: trim_start_def)
qed

lemma colon_no_rev_white_space: "w \<in> set (map rev white_space) \<Longrightarrow> CHR '':'' \<notin> set w"
  using colon_no_white_space by auto

lemma trim_end_org: "\<exists>u. trim_end (org @ ''::'' @ v) = org @ ''::'' @ u"
proof -
  obtain u' where "strip_front (map rev white_space) (rev v @ CHR '':'' # CHR '':'' # rev org)
      = u' @ CHR '':'' # CHR '':'' # rev org"
    using strip_front_stop [OF colon_no_rev_white_space] by blast
  then have "trim_end (org @ ''::'' @ v) = org @ ''::'' @ rev u'" by (simp add: trim_end_def)
  then show ?thesis by blast
qed

lemma trim_namespaced:
  assumes "slug_ok org"
  shows "\<exists>u. trim (namespace_scoped org value) = org @ ''::'' @ u"
proof -
  obtain v where "namespace_scoped org value = org @ ''::'' @ v"
    using namespace_scoped_shape by blast
  then show ?thesis using trim_start_org [OF assms] trim_end_org by (simp add: trim_def)
qed

lemma org_of_trimmed:
  assumes "slug_ok org"
  shows "organization_id_from_source_id (trim (namespace_scoped org value)) = Some org"
proof -
  obtain u where "trim (namespace_scoped org value) = org @ ''::'' @ u"
    using trim_namespaced [OF assms] by blast
  then show ?thesis using org_of_namespaced [OF assms] by simp
qed

section \<open>Properties\<close>

text \<open>
  the organization of a namespaced source id.  For a slug the namespace is read back from the
  id it prefixes, and adding it a second time changes nothing.
\<close>

theorem namespace_round_trip:
  assumes "slug_ok org"
  shows "organization_id_from_source_id (namespace_source_id org s) = Some org
    \<and> namespace_source_id org (namespace_source_id org s) = namespace_source_id org s"
proof -
  obtain v where v: "namespace_scoped org s = org @ ''::'' @ v"
    using namespace_scoped_shape by blast
  obtain u where u: "trim (namespace_scoped org s) = org @ ''::'' @ u"
    using trim_namespaced [OF assms] by blast
  have "trim (namespace_scoped org s) = namespace_scoped org s"
  proof (cases "prefix (org @ ORGANIZATION_SEP) (trim s)")
    case True
    then show ?thesis by (simp add: namespace_scoped_def Let_def)
  next
    case False
    have "trim_end (org @ ''::'' @ trim s) = org @ ''::'' @ trim s"
    proof -
      have "strip_front (map rev white_space) (rev (trim s)) = rev (trim s)"
        using trim_end_idem [of "trim_start s"] by (simp add: trim_def trim_end_def)
      then have "strip_front (map rev white_space) (rev (trim s) @ CHR '':'' # CHR '':'' # rev org)
          = rev (trim s) @ CHR '':'' # CHR '':'' # rev org"
        using strip_front_stop_id [where ws = "map rev white_space", OF colon_no_rev_white_space] by blast
      then show ?thesis by (simp add: trim_end_def)
    qed
    then show ?thesis
      using False trim_start_org [OF assms] by (simp add: namespace_scoped_def Let_def ORGANIZATION_SEP_def trim_def)
  qed
  then have "namespace_scoped org (namespace_scoped org s) = namespace_scoped org s"
    unfolding namespace_scoped_def [of org "namespace_scoped org s"] Let_def ORGANIZATION_SEP_def
    using v by simp
  then show ?thesis
    using v org_of_namespaced [OF assms] by (simp add: namespace_source_id_def)
qed

theorem namespace_round_trip_witness:
  "organization_id_from_source_id (namespace_source_id ''platform'' ''github:a/b'') = Some ''platform''"
proof -
  have "slug_ok ''platform''" by code_simp
  then show ?thesis using namespace_round_trip [of "''platform''" "''github:a/b''"] by blast
qed

text \<open>
  no routing across organizations.  A sink whose tags are namespaced by one organization never
  receives an event whose tag is namespaced by another, whatever the tags are.
\<close>

theorem routing_isolated:
  assumes "slug_ok a" and "slug_ok b" and "a \<noteq> b" and "tags \<noteq> []"
  shows "\<not> matches_routing_tags (map (namespace_routing_tag a) tags) (Some (namespace_routing_tag b tag))"
proof
  assume "matches_routing_tags (map (namespace_routing_tag a) tags) (Some (namespace_routing_tag b tag))"
  then obtain t where "trim (namespace_scoped a t) = trim (namespace_scoped b tag)"
    using assms(4)
    by (auto simp: matches_routing_tags_def namespace_routing_tag_def trimmed_nonempty_def list_ex_iff
        split: if_splits)
  then have "organization_id_from_source_id (trim (namespace_scoped a t)) =
      organization_id_from_source_id (trim (namespace_scoped b tag))"
    by simp
  moreover have "organization_id_from_source_id (trim (namespace_scoped a t)) = Some a"
    using assms(1) by (rule org_of_trimmed)
  moreover have "organization_id_from_source_id (trim (namespace_scoped b tag)) = Some b"
    using assms(2) by (rule org_of_trimmed)
  ultimately show False using assms(3) by simp
qed

theorem routing_isolated_witness:
  "\<not> matches_routing_tags (map (namespace_routing_tag ''platform'') [''ops''])
       (Some (namespace_routing_tag ''security'' ''ops''))"
proof -
  have "slug_ok ''platform''" "slug_ok ''security''" by code_simp+
  then show ?thesis using routing_isolated [of "''platform''" "''security''" "[''ops'']"] by simp
qed

text \<open>
  the catalogue's missing slug check.  It accepts every non-empty id, so an organization whose id
  contains the separator shares source ids with another one, and its own ids are attributed
  to that one.
\<close>

theorem namespace_collision:
  "namespace_source_id ''a'' ''b::x'' = namespace_source_id ''a::b'' ''x''
   \<and> organization_id_from_source_id (namespace_source_id ''a::b'' ''x'') = Some ''a''
   \<and> matches_routing_tags [namespace_routing_tag ''a'' ''b::x''] (Some (namespace_routing_tag ''a::b'' ''x''))"
  by code_simp

end
