(* ===== verification/Outbox_Store.thy ===== *)
theory Outbox_Store
  imports Seen_Store Organizations
begin

text \<open>
  The notification outbox and its per-sink ledger (\<^verbatim>\<open>src/src/store/postgres/outbox.rs\<close>): enqueueing,
  leases, completion, failure, the synchronisation of a queue row with its ledger rows, and the
  recovery sweeps.  Each method is a function of the tables; \<open>now\<close> is the database clock and
  \<open>app_now\<close> the clock of the process.
\<close>

section \<open>Values\<close>

record event =
  ev_source_id :: string
  ev_source_kind :: string
  ev_title :: string
  ev_body :: string
  ev_url :: "string option"
  ev_routing_tag :: "string option"

record outbox_meta =
  om_content_digest :: "string option"
  om_display_tag :: "string option"
  om_published_at :: "timestamp option"
  om_deliver_after :: "timestamp option"

record enqueue_outcome =
  eo_id :: int
  eo_deliver_now :: bool
  eo_created :: bool

record outbox_record =
  or_id :: int
  or_source_id :: string
  or_identity :: string
  or_content_digest :: "string option"
  or_display_tag :: "string option"
  or_published_at :: "timestamp option"
  or_title :: string
  or_body :: string
  or_url :: "string option"
  or_routing_tag :: "string option"
  or_source_kind :: string
  or_attempts :: nat
  or_deliver_after :: "timestamp option"

definition to_event :: "outbox_record \<Rightarrow> event" where
  "to_event r =
    \<lparr>ev_source_id = or_source_id r, ev_source_kind = or_source_kind r, ev_title = or_title r,
     ev_body = or_body r, ev_url = or_url r, ev_routing_tag = or_routing_tag r\<rparr>"

definition outbox_record_from_row :: "outbox_row \<Rightarrow> outbox_record" where
  "outbox_record_from_row r =
    \<lparr>or_id = ob_id r, or_source_id = ob_source_id r, or_identity = ob_identity r,
     or_content_digest = ob_content_digest r, or_display_tag = ob_display_tag r,
     or_published_at = ob_published_at r, or_title = ob_title r, or_body = ob_body r,
     or_url = ob_url r, or_routing_tag = ob_routing_tag r, or_source_kind = ob_source_kind r,
     or_attempts = nat (ob_attempts r), or_deliver_after = ob_deliver_after r\<rparr>"

definition OUTBOX_LEASE_SECS :: int where
  "OUTBOX_LEASE_SECS = 300"

section \<open>Enqueueing\<close>

definition due :: "timestamp \<Rightarrow> timestamp option \<Rightarrow> bool" where
  "due now at = (case at of None \<Rightarrow> True | Some t \<Rightarrow> t \<le> now)"

definition unlocked :: "timestamp \<Rightarrow> timestamp option \<Rightarrow> bool" where
  "unlocked now lease = (case lease of None \<Rightarrow> True | Some t \<Rightarrow> t < now)"

definition new_outbox_row ::
  "timestamp \<Rightarrow> int \<Rightarrow> event \<Rightarrow> string \<Rightarrow> outbox_meta \<Rightarrow> outbox_row" where
  "new_outbox_row now i e ident m =
    \<lparr>ob_id = i, ob_source_id = ev_source_id e, ob_identity = ident,
     ob_content_digest = om_content_digest m, ob_display_tag = om_display_tag m,
     ob_published_at = om_published_at m, ob_title = ev_title e, ob_body = ev_body e,
     ob_url = ev_url e, ob_routing_tag = ev_routing_tag e, ob_source_kind = ev_source_kind e,
     ob_status = Pending, ob_attempts = 0, ob_last_error = None, ob_created_at = now,
     ob_sent_at = None, ob_locked_until = None, ob_deliver_after = om_deliver_after m\<rparr>"

definition reopen_row :: "event \<Rightarrow> outbox_meta \<Rightarrow> outbox_row \<Rightarrow> outbox_row" where
  "reopen_row e m r =
    r\<lparr>ob_status := Pending, ob_content_digest := om_content_digest m,
      ob_display_tag := om_display_tag m, ob_published_at := om_published_at m,
      ob_title := ev_title e, ob_body := ev_body e, ob_url := ev_url e,
      ob_routing_tag := ev_routing_tag e, ob_source_kind := ev_source_kind e,
      ob_deliver_after := om_deliver_after m, ob_attempts := 0, ob_last_error := None\<rparr>"

definition reset_sink :: "sink_row \<Rightarrow> sink_row" where
  "reset_sink k = k\<lparr>sd_status := Pending, sd_attempts := 0, sd_last_error := None, sd_sent_at := None\<rparr>"

definition find_outbox :: "db \<Rightarrow> string \<Rightarrow> string \<Rightarrow> outbox_row option" where
  "find_outbox d s i = find (\<lambda>r. outbox_key r = (s, i)) (db_outbox d)"

definition find_outbox_id :: "db \<Rightarrow> int \<Rightarrow> outbox_row option" where
  "find_outbox_id d i = find (\<lambda>r. ob_id r = i) (db_outbox d)"

definition try_enqueue_notification ::
  "timestamp \<Rightarrow> timestamp \<Rightarrow> event \<Rightarrow> string \<Rightarrow> outbox_meta \<Rightarrow> db \<Rightarrow> enqueue_outcome option \<times> db" where
  "try_enqueue_notification now app_now e ident m d =
    (let deliver_now = due app_now (om_deliver_after m);
         i = db_next_id d;
         d1 = d\<lparr>db_next_id := i + 1\<rparr> in
     case find_outbox d (ev_source_id e) ident of
       None \<Rightarrow>
         (Some \<lparr>eo_id = i, eo_deliver_now = deliver_now, eo_created = True\<rparr>,
          d1\<lparr>db_outbox := db_outbox d @ [new_outbox_row now i e ident m]\<rparr>)
     | Some r \<Rightarrow>
         if retryable (ob_status r) then
           (Some \<lparr>eo_id = ob_id r, eo_deliver_now = False, eo_created = False\<rparr>, d1)
         else if ob_status r = Sent \<and> ob_content_digest r \<noteq> om_content_digest m then
           (Some \<lparr>eo_id = ob_id r, eo_deliver_now = deliver_now, eo_created = True\<rparr>,
            d1\<lparr>db_outbox := update_rows (\<lambda>o'. ob_id o' = ob_id r \<and> ob_status o' = Sent) (reopen_row e m)
                 (db_outbox d),
               db_sinks := update_rows (\<lambda>k. sd_outbox_id k = ob_id r) reset_sink (db_sinks d)\<rparr>)
         else (None, d1))"

section \<open>Leases\<close>

definition claimable :: "timestamp \<Rightarrow> outbox_row \<Rightarrow> bool" where
  "claimable now r \<longleftrightarrow> retryable (ob_status r) \<and> unlocked now (ob_locked_until r)
     \<and> due now (ob_deliver_after r)"

definition lock_until :: "timestamp \<Rightarrow> outbox_row \<Rightarrow> outbox_row" where
  "lock_until t r = r\<lparr>ob_locked_until := Some t\<rparr>"

definition claim_outbox_batch :: "timestamp \<Rightarrow> nat \<Rightarrow> int \<Rightarrow> db \<Rightarrow> outbox_record list \<times> db" where
  "claim_outbox_batch now limit lease d =
    (let eligible = filter (\<lambda>r. claimable now r \<and> ob_attempts r < OUTBOX_MAX_ATTEMPTS) (db_outbox d);
         ids = map ob_id (take limit (sort_key ob_created_at eligible));
         rows = update_rows (\<lambda>r. ob_id r \<in> set ids) (lock_until (now + seconds lease)) (db_outbox d) in
     (map outbox_record_from_row (filter (\<lambda>r. ob_id r \<in> set ids) rows), d\<lparr>db_outbox := rows\<rparr>))"

definition claim_outbox_row :: "timestamp \<Rightarrow> int \<Rightarrow> int \<Rightarrow> db \<Rightarrow> bool \<times> db" where
  "claim_outbox_row now i lease d =
    (list_ex (\<lambda>r. ob_id r = i \<and> claimable now r) (db_outbox d),
     d\<lparr>db_outbox := update_rows (\<lambda>r. ob_id r = i \<and> claimable now r) (lock_until (now + seconds lease))
          (db_outbox d)\<rparr>)"

definition update_outbox_id :: "int \<Rightarrow> (outbox_row \<Rightarrow> outbox_row) \<Rightarrow> db \<Rightarrow> db" where
  "update_outbox_id i f d = d\<lparr>db_outbox := update_rows (\<lambda>r. ob_id r = i) f (db_outbox d)\<rparr>"

definition release_outbox_lease :: "int \<Rightarrow> db \<Rightarrow> db" where
  "release_outbox_lease i d = update_outbox_id i (\<lambda>r. r\<lparr>ob_locked_until := None\<rparr>) d"

definition apply_delivery_backoff :: "timestamp \<Rightarrow> int \<Rightarrow> int \<Rightarrow> db \<Rightarrow> db" where
  "apply_delivery_backoff now i backoff d =
    update_outbox_id i (\<lambda>r. r\<lparr>ob_locked_until := Some (now + seconds backoff),
                              ob_attempts := ob_attempts r + 1\<rparr>) d"

definition defer_delivery :: "timestamp \<Rightarrow> int \<Rightarrow> int \<Rightarrow> db \<Rightarrow> db" where
  "defer_delivery now i backoff d =
    update_outbox_id i (\<lambda>r. r\<lparr>ob_locked_until := Some (now + seconds backoff)\<rparr>) d"

section \<open>Outcome of a delivery\<close>

definition complete_notification :: "timestamp \<Rightarrow> int \<Rightarrow> string \<Rightarrow> seen_upsert \<Rightarrow> db \<Rightarrow> bool \<times> db" where
  "complete_notification now i s u d =
    (if list_ex (\<lambda>r. ob_id r = i \<and> retryable (ob_status r)) (db_outbox d) then
       (True, write_seen_row now s u
          (d\<lparr>db_outbox := update_rows (\<lambda>r. ob_id r = i \<and> retryable (ob_status r))
               (\<lambda>r. r\<lparr>ob_status := Sent, ob_sent_at := Some now, ob_last_error := None\<rparr>) (db_outbox d)\<rparr>))
     else (False, d))"

definition fail_row :: "string \<Rightarrow> outbox_row \<Rightarrow> outbox_row" where
  "fail_row err r =
    r\<lparr>ob_attempts := ob_attempts r + 1, ob_last_error := Some err,
      ob_status := (if OUTBOX_MAX_ATTEMPTS \<le> ob_attempts r + 1 then Dead else Failed)\<rparr>"

definition fail_notification :: "int \<Rightarrow> string \<Rightarrow> db \<Rightarrow> bool \<times> db" where
  "fail_notification i err d =
    (case find_outbox_id d i of
       None \<Rightarrow> (False, d)
     | Some r \<Rightarrow>
         (ob_status (fail_row err r) = Dead \<and> ob_attempts (fail_row err r) = OUTBOX_MAX_ATTEMPTS,
          update_outbox_id i (fail_row err) d))"

definition new_sink_row :: "int \<Rightarrow> int \<Rightarrow> string \<Rightarrow> sink_row" where
  "new_sink_row i idx kind =
    \<lparr>sd_outbox_id = i, sd_sink_index = idx, sd_sink_kind = kind, sd_status = Pending,
     sd_attempts = 0, sd_last_error = None, sd_sent_at = None\<rparr>"

definition insert_sink :: "int \<Rightarrow> nat \<times> string \<Rightarrow> sink_row list \<Rightarrow> sink_row list" where
  "insert_sink i sink rows =
    (if (i, i32_of_nat (fst sink)) \<in> set (map sink_key rows) then rows
     else rows @ [new_sink_row i (i32_of_nat (fst sink)) (snd sink)])"

text \<open>The foreign key of the ledger rejects rows for a notification that is gone.\<close>

definition ensure_sink_deliveries :: "int \<Rightarrow> (nat \<times> string) list \<Rightarrow> db \<Rightarrow> string + db" where
  "ensure_sink_deliveries i sinks d =
    (if sinks = [] then Inr d
     else
       let rows = fold (insert_sink i) sinks (db_sinks d) in
       if rows \<noteq> db_sinks d \<and> i \<notin> set (map ob_id (db_outbox d)) then Inl ''foreign key violation''
       else Inr (d\<lparr>db_sinks := rows\<rparr>))"

definition sinks_of :: "db \<Rightarrow> int \<Rightarrow> sink_row list" where
  "sinks_of d i = filter (\<lambda>k. sd_outbox_id k = i) (db_sinks d)"

definition list_pending_sink_indices :: "db \<Rightarrow> int \<Rightarrow> nat list" where
  "list_pending_sink_indices d i =
    map nat (sort (map sd_sink_index
      (filter (\<lambda>k. retryable (sd_status k) \<and> sd_attempts k < OUTBOX_MAX_ATTEMPTS) (sinks_of d i))))"

definition update_sinks :: "(sink_row \<Rightarrow> bool) \<Rightarrow> (sink_row \<Rightarrow> sink_row) \<Rightarrow> db \<Rightarrow> db" where
  "update_sinks P f d = d\<lparr>db_sinks := update_rows P f (db_sinks d)\<rparr>"

definition complete_sink_delivery :: "timestamp \<Rightarrow> int \<Rightarrow> nat \<Rightarrow> db \<Rightarrow> db" where
  "complete_sink_delivery now i idx d =
    update_sinks (\<lambda>k. sd_outbox_id k = i \<and> sd_sink_index k = i32_of_nat idx)
      (\<lambda>k. k\<lparr>sd_status := Sent, sd_sent_at := Some now, sd_last_error := None\<rparr>) d"

definition fail_sink :: "string \<Rightarrow> sink_row \<Rightarrow> sink_row" where
  "fail_sink err k =
    k\<lparr>sd_attempts := sd_attempts k + 1, sd_last_error := Some err,
      sd_status := (if OUTBOX_MAX_ATTEMPTS \<le> sd_attempts k + 1 then Dead else Failed)\<rparr>"

definition fail_sink_delivery :: "int \<Rightarrow> nat \<Rightarrow> string \<Rightarrow> db \<Rightarrow> db" where
  "fail_sink_delivery i idx err d =
    update_sinks (\<lambda>k. sd_outbox_id k = i \<and> sd_sink_index k = i32_of_nat idx) (fail_sink err) d"

definition abandon_sink :: "string \<Rightarrow> sink_row \<Rightarrow> sink_row" where
  "abandon_sink err k =
    k\<lparr>sd_status := Dead, sd_last_error := Some err,
      sd_attempts := max (sd_attempts k) OUTBOX_MAX_ATTEMPTS\<rparr>"

definition abandon_retryable_sinks :: "int \<Rightarrow> nat list \<Rightarrow> string \<Rightarrow> db \<Rightarrow> nat \<times> db" where
  "abandon_retryable_sinks i idxs err d =
    (let P = (\<lambda>k. sd_outbox_id k = i \<and> retryable (sd_status k)
         \<and> (idxs = [] \<or> sd_sink_index k \<in> set (map i32_of_nat idxs))) in
     (length (filter P (db_sinks d)), update_sinks P (abandon_sink err) d))"

definition sinks_delivery_complete :: "db \<Rightarrow> int \<Rightarrow> bool" where
  "sinks_delivery_complete d i = list_all (\<lambda>k. sd_status k = Sent) (sinks_of d i)"

definition sync_outbox_sink_status :: "int \<Rightarrow> db \<Rightarrow> bool \<times> db" where
  "sync_outbox_sink_status i d =
    (let rows = sinks_of d i;
         total = length rows;
         dead = length (filter (\<lambda>k. sd_status k = Dead) rows);
         retry = length (filter (\<lambda>k. retryable (sd_status k)) rows);
         unsent = length (filter (\<lambda>k. sd_status k \<noteq> Sent) rows) in
     if total = 0 \<or> unsent = 0 then (False, d)
     else if retry = 0 \<and> 0 < dead then
       (list_ex (\<lambda>r. ob_id r = i \<and> ob_status r \<noteq> Dead) (db_outbox d),
        d\<lparr>db_outbox := update_rows (\<lambda>r. ob_id r = i \<and> ob_status r \<noteq> Dead)
             (\<lambda>r. r\<lparr>ob_status := Dead\<rparr>) (db_outbox d)\<rparr>)
     else
       (False,
        d\<lparr>db_outbox := update_rows (\<lambda>r. ob_id r = i \<and> retryable (ob_status r))
             (\<lambda>r. r\<lparr>ob_status := Failed, ob_last_error := Some ''partial sink delivery failure''\<rparr>)
             (db_outbox d)\<rparr>))"

section \<open>Recovery and observation\<close>

definition requeue_dead_outbox :: "db \<Rightarrow> nat \<times> db" where
  "requeue_dead_outbox d =
    (let ids = map ob_id (filter (\<lambda>r. ob_status r = Dead) (db_outbox d)) in
     if ids = [] then (0, d)
     else
       (length ids,
        d\<lparr>db_outbox := update_rows (\<lambda>r. ob_id r \<in> set ids)
             (\<lambda>r. r\<lparr>ob_status := Pending, ob_attempts := 0, ob_last_error := None, ob_locked_until := None\<rparr>)
             (db_outbox d),
          db_sinks := update_rows (\<lambda>k. sd_outbox_id k \<in> set ids \<and> sd_status k \<noteq> Sent) reset_sink
             (db_sinks d)\<rparr>))"

definition exhausted :: "outbox_row \<Rightarrow> bool" where
  "exhausted r \<longleftrightarrow> retryable (ob_status r) \<and> OUTBOX_MAX_ATTEMPTS \<le> ob_attempts r"

definition finalize_exhausted_outbox :: "db \<Rightarrow> nat \<times> db" where
  "finalize_exhausted_outbox d =
    (length (filter exhausted (db_outbox d)),
     d\<lparr>db_outbox := update_rows exhausted (\<lambda>r. r\<lparr>ob_status := Dead\<rparr>) (db_outbox d)\<rparr>)"

record outbox_counts =
  cn_pending :: nat
  cn_failed :: nat
  cn_dead :: nat
  cn_deferred :: nat

definition outbox_counts_of :: "timestamp \<Rightarrow> db \<Rightarrow> outbox_counts" where
  "outbox_counts_of now d =
    \<lparr>cn_pending = length (filter (\<lambda>r. ob_status r = Pending) (db_outbox d)),
     cn_failed = length (filter (\<lambda>r. ob_status r = Failed) (db_outbox d)),
     cn_dead = length (filter (\<lambda>r. ob_status r = Dead) (db_outbox d)),
     cn_deferred = length (filter (\<lambda>r. retryable (ob_status r)
        \<and> (case ob_deliver_after r of None \<Rightarrow> False | Some t \<Rightarrow> now < t)) (db_outbox d))\<rparr>"

definition outbox_pending_count :: "timestamp \<Rightarrow> db \<Rightarrow> nat" where
  "outbox_pending_count now d =
    (let c = outbox_counts_of now d in cn_pending c + cn_failed c)"

record outbox_entry =
  oe_id :: int
  oe_source_id :: string
  oe_identity :: string
  oe_status :: row_status
  oe_attempts :: nat
  oe_last_error :: "string option"
  oe_created_at :: timestamp
  oe_title :: string
  oe_url :: "string option"
  oe_routing_tag :: "string option"
  oe_deliver_after :: "timestamp option"
  oe_organization_id :: "string option"

definition entry_of_outbox :: "outbox_row \<Rightarrow> outbox_entry" where
  "entry_of_outbox r =
    \<lparr>oe_id = ob_id r, oe_source_id = ob_source_id r, oe_identity = ob_identity r,
     oe_status = ob_status r, oe_attempts = nat (ob_attempts r), oe_last_error = ob_last_error r,
     oe_created_at = ob_created_at r, oe_title = ob_title r, oe_url = ob_url r,
     oe_routing_tag = ob_routing_tag r, oe_deliver_after = ob_deliver_after r,
     oe_organization_id = organization_id_from_source_id (ob_source_id r)\<rparr>"

fun status_rank :: "row_status \<Rightarrow> nat" where
  "status_rank Failed = 0"
| "status_rank Dead = 1"
| "status_rank Pending = 2"
| "status_rank Sent = 3"

definition listed :: "timestamp \<Rightarrow> outbox_row \<Rightarrow> bool" where
  "listed now r \<longleftrightarrow> ob_status r \<noteq> Sent
     \<or> now - days 7 < (case ob_sent_at r of None \<Rightarrow> ob_created_at r | Some t \<Rightarrow> t)"

definition list_outbox_entries :: "timestamp \<Rightarrow> nat \<Rightarrow> db \<Rightarrow> outbox_entry list" where
  "list_outbox_entries now limit d =
    map entry_of_outbox (take limit
      (sort_key (\<lambda>r. (status_rank (ob_status r), - ob_created_at r)) (filter (listed now) (db_outbox d))))"

section \<open>Integrity\<close>

lemma db_ok_next_id: "db_ok d \<Longrightarrow> db_next_id d \<le> n \<Longrightarrow> db_ok (d\<lparr>db_next_id := n\<rparr>)"
  by (fastforce simp: db_ok_def outbox_ok_def list_all_iff)

lemma reset_sink_ok [simp]: "sink_row_ok k \<Longrightarrow> sink_row_ok (reset_sink k)"
  by (simp add: sink_row_ok_def reset_sink_def OUTBOX_MAX_ATTEMPTS_def)

lemma reset_sink_key [simp]:
  "sd_outbox_id (reset_sink k) = sd_outbox_id k" "sd_sink_index (reset_sink k) = sd_sink_index k"
  by (simp_all add: reset_sink_def)

lemma update_outbox_id_ok:
  assumes "db_ok d" and "\<And>r. ob_id (f r) = ob_id r \<and> outbox_key (f r) = outbox_key r"
    and "\<And>r. outbox_row_ok r \<Longrightarrow> outbox_row_ok (f r)"
  shows "db_ok (update_outbox_id i f d)"
  unfolding update_outbox_id_def using assms by (intro db_ok_update_outbox) auto

lemma update_sinks_ok:
  assumes "db_ok d"
    and "\<And>k. P k \<Longrightarrow> sd_outbox_id (f k) = sd_outbox_id k \<and> sd_sink_index (f k) = sd_sink_index k"
    and "\<And>k. sink_row_ok k \<Longrightarrow> P k \<Longrightarrow> sink_row_ok (f k)"
  shows "db_ok (update_sinks P f d)"
  unfolding update_sinks_def using assms by (intro db_ok_update_sinks) auto

lemma insert_outbox_ok:
  assumes "db_ok d" and "find_outbox d (ev_source_id e) ident = None"
  shows "db_ok (d\<lparr>db_next_id := db_next_id d + 1,
    db_outbox := db_outbox d @ [new_outbox_row now (db_next_id d) e ident m]\<rparr>)"
proof -
  have "\<not> (\<exists>r. r \<in> set (db_outbox d) \<and> outbox_key r = (ev_source_id e, ident))"
    using assms(2) unfolding find_outbox_def find_None_iff .
  then have fresh: "outbox_key (new_outbox_row now (db_next_id d) e ident m) \<notin> outbox_key ` set (db_outbox d)"
    by (auto simp: new_outbox_row_def outbox_key_def)
  have "outbox_ok (db_outbox d @ [new_outbox_row now (db_next_id d) e ident m]) (db_next_id d + 1)"
    using assms(1) fresh
    by (fastforce simp: db_ok_def outbox_ok_def list_all_iff new_outbox_row_def outbox_row_ok_def)
  moreover have "sinks_ok (insert i (ob_id ` set (db_outbox d))) (db_sinks d)" for i
    using assms(1) by (auto simp: db_ok_def sinks_ok_def list_all_iff)
  ultimately show ?thesis using assms(1) by (simp add: db_ok_def)
qed

lemma enqueue_ok [db_keeps]:
  assumes "db_ok d"
  shows "db_ok (snd (try_enqueue_notification now app e ident m d))"
proof (cases "find_outbox d (ev_source_id e) ident")
  case None
  then show ?thesis
    using insert_outbox_ok [OF assms None] by (simp add: try_enqueue_notification_def Let_def)
next
  case (Some r)
  let ?d1 = "d\<lparr>db_next_id := db_next_id d + 1\<rparr>"
  let ?d2 = "?d1\<lparr>db_outbox := update_rows (\<lambda>o'. ob_id o' = ob_id r \<and> ob_status o' = Sent)
    (reopen_row e m) (db_outbox ?d1)\<rparr>"
  have d1: "db_ok ?d1" using db_ok_next_id [OF assms] by simp
  have d2: "db_ok ?d2"
    by (rule db_ok_update_outbox [OF d1]) (simp_all add: reopen_row_def outbox_key_def outbox_row_ok_def)
  have "db_ok (?d2\<lparr>db_sinks := update_rows (\<lambda>k. sd_outbox_id k = ob_id r) reset_sink (db_sinks ?d2)\<rparr>)"
    by (rule db_ok_update_sinks [OF d2]) simp_all
  then show ?thesis using Some d1 by (simp add: try_enqueue_notification_def Let_def)
qed

lemma claim_batch_ok [db_keeps]: "db_ok d \<Longrightarrow> db_ok (snd (claim_outbox_batch now n lease d))"
  unfolding claim_outbox_batch_def Let_def snd_conv
  by (rule db_ok_update_outbox) (simp_all add: lock_until_def outbox_key_def outbox_row_ok_def)

lemma claim_row_ok [db_keeps]: "db_ok d \<Longrightarrow> db_ok (snd (claim_outbox_row now i lease d))"
  unfolding claim_outbox_row_def snd_conv
  by (rule db_ok_update_outbox) (simp_all add: lock_until_def outbox_key_def outbox_row_ok_def)

lemma lease_ops_ok [db_keeps]:
  assumes "db_ok d"
  shows "db_ok (release_outbox_lease i d)" "db_ok (apply_delivery_backoff now i b d)"
    "db_ok (defer_delivery now i b d)"
  unfolding release_outbox_lease_def apply_delivery_backoff_def defer_delivery_def
  by (rule update_outbox_id_ok [OF assms]; simp add: outbox_key_def outbox_row_ok_def)+

lemma complete_notification_ok [db_keeps]:
  "db_ok d \<Longrightarrow> db_ok (snd (complete_notification now i s u d))"
  unfolding complete_notification_def
  by (auto intro!: write_seen_row_ok db_ok_update_outbox simp: outbox_key_def outbox_row_ok_def)

lemma fail_notification_ok [db_keeps]: "db_ok d \<Longrightarrow> db_ok (snd (fail_notification i err d))"
  unfolding fail_notification_def
  by (auto intro!: update_outbox_id_ok simp: fail_row_def outbox_key_def outbox_row_ok_def
      split: option.splits)

lemma i32_of_nat_nonneg [simp]: "0 \<le> i32_of_nat n"
  by (simp add: i32_of_nat_def)

lemma insert_sink_ok:
  "i \<in> ids \<Longrightarrow> sinks_ok ids rows \<Longrightarrow> sinks_ok ids (insert_sink i sink rows)"
  by (auto simp: insert_sink_def sinks_ok_def new_sink_row_def sink_key_def sink_row_ok_def
      OUTBOX_MAX_ATTEMPTS_def)

lemma ensure_sinks_ok [db_keeps]:
  assumes "db_ok d" and "ensure_sink_deliveries i sinks d = Inr d'"
  shows "db_ok d'"
proof -
  have fold: "i \<in> ids \<Longrightarrow> sinks_ok ids rows \<Longrightarrow> sinks_ok ids (fold (insert_sink i) ks rows)" for ids ks rows
    by (induction ks arbitrary: rows) (auto intro: insert_sink_ok)
  have "sinks_ok (ob_id ` set (db_outbox d)) (db_sinks d)" using assms(1) by (simp add: db_ok_def)
  then show ?thesis
    using assms fold
    by (auto simp: ensure_sink_deliveries_def Let_def db_ok_def split: if_splits)
qed

lemma sink_ops_ok [db_keeps]:
  assumes "db_ok d"
  shows "db_ok (complete_sink_delivery now i idx d)" "db_ok (fail_sink_delivery i idx err d)"
    "db_ok (snd (abandon_retryable_sinks i idxs err d))"
  unfolding complete_sink_delivery_def fail_sink_delivery_def abandon_retryable_sinks_def Let_def snd_conv
  by (rule update_sinks_ok [OF assms];
      auto simp: sink_row_ok_def fail_sink_def abandon_sink_def retryable_def split: if_splits)+

lemma sync_ok [db_keeps]: "db_ok d \<Longrightarrow> db_ok (snd (sync_outbox_sink_status i d))"
  unfolding sync_outbox_sink_status_def Let_def
  by (auto intro!: db_ok_update_outbox simp: outbox_key_def outbox_row_ok_def)

lemma requeue_ok [db_keeps]: "db_ok d \<Longrightarrow> db_ok (snd (requeue_dead_outbox d))"
proof -
  assume ok: "db_ok d"
  let ?ids = "map ob_id (filter (\<lambda>r. ob_status r = Dead) (db_outbox d))"
  let ?d1 = "d\<lparr>db_outbox := update_rows (\<lambda>r. ob_id r \<in> set ?ids)
     (\<lambda>r. r\<lparr>ob_status := Pending, ob_attempts := 0, ob_last_error := None, ob_locked_until := None\<rparr>)
     (db_outbox d)\<rparr>"
  have d1: "db_ok ?d1"
    by (rule db_ok_update_outbox [OF ok]) (simp_all add: outbox_key_def outbox_row_ok_def)
  have "db_ok (?d1\<lparr>db_sinks := update_rows (\<lambda>k. sd_outbox_id k \<in> set ?ids \<and> sd_status k \<noteq> Sent)
      reset_sink (db_sinks ?d1)\<rparr>)"
    by (rule db_ok_update_sinks [OF d1]) simp_all
  then show ?thesis using ok by (simp add: requeue_dead_outbox_def Let_def del: set_map)
qed

lemma finalize_ok [db_keeps]: "db_ok d \<Longrightarrow> db_ok (snd (finalize_exhausted_outbox d))"
  unfolding finalize_exhausted_outbox_def snd_conv
  by (rule db_ok_update_outbox) (simp_all add: outbox_key_def outbox_row_ok_def)

section \<open>Leases are exclusive\<close>

datatype claim_op = Claim_batch nat | Claim_row int

fun grant_rows :: "timestamp \<Rightarrow> claim_op \<Rightarrow> db \<Rightarrow> int list \<times> db" where
  "grant_rows now (Claim_batch n) d =
    (let (rs, d1) = claim_outbox_batch now n OUTBOX_LEASE_SECS d in (map or_id rs, d1))"
| "grant_rows now (Claim_row i) d =
    (let (ok, d1) = claim_outbox_row now i OUTBOX_LEASE_SECS d in (if ok then [i] else [], d1))"

definition row_deadline :: "db \<Rightarrow> int \<Rightarrow> timestamp option" where
  "row_deadline d i = (case find_outbox_id d i of None \<Rightarrow> None | Some r \<Rightarrow> ob_locked_until r)"

definition batch_ids :: "timestamp \<Rightarrow> nat \<Rightarrow> db \<Rightarrow> int list" where
  "batch_ids now n d = map ob_id (take n (sort_key ob_created_at
     (filter (\<lambda>r. claimable now r \<and> ob_attempts r < OUTBOX_MAX_ATTEMPTS) (db_outbox d))))"

lemma claim_outbox_batch_alt:
  "claim_outbox_batch now n lease d =
    (let rows = update_rows (\<lambda>r. ob_id r \<in> set (batch_ids now n d)) (lock_until (now + seconds lease)) (db_outbox d) in
     (map outbox_record_from_row (filter (\<lambda>r. ob_id r \<in> set (batch_ids now n d)) rows), d\<lparr>db_outbox := rows\<rparr>))"
  by (simp add: claim_outbox_batch_def batch_ids_def Let_def)

lemma batch_ids_claimable:
  assumes "db_ok d" and "i \<in> set (batch_ids now n d)"
  shows "\<exists>r. find_outbox_id d i = Some r \<and> claimable now r \<and> ob_attempts r < OUTBOX_MAX_ATTEMPTS"
proof -
  obtain r where r: "r \<in> set (db_outbox d)" "claimable now r" "ob_attempts r < OUTBOX_MAX_ATTEMPTS" "ob_id r = i"
    using assms(2) by (auto simp: batch_ids_def dest!: in_set_takeD)
  have "distinct (map ob_id (db_outbox d))" using assms(1) by (simp add: db_ok_def outbox_ok_def)
  then have "find (\<lambda>x. ob_id x = ob_id r) (db_outbox d) = Some r"
    using r(1) by (rule find_key_unique)
  then show ?thesis using r by (simp add: find_outbox_id_def)
qed

lemma lock_until_id [simp]: "ob_id (lock_until t r) = ob_id r"
  by (simp add: lock_until_def)

lemma batch_returned:
  "map or_id (fst (claim_outbox_batch now n lease d))
     = filter (\<lambda>i. i \<in> set (batch_ids now n d)) (map ob_id (db_outbox d))"
proof -
  have "map (or_id \<circ> outbox_record_from_row) (filter (\<lambda>r. ob_id r \<in> S) (update_rows (\<lambda>r. ob_id r \<in> S) (lock_until t) rows))
      = filter (\<lambda>i. i \<in> S) (map ob_id rows)" for S t rows
    by (induction rows) (auto simp: update_rows_def outbox_record_from_row_def)
  then show ?thesis by (simp add: claim_outbox_batch_alt Let_def)
qed

lemma batch_returned_set:
  "db_ok d \<Longrightarrow> set (map or_id (fst (claim_outbox_batch now n lease d))) = set (batch_ids now n d)"
proof -
  have "set (batch_ids now n d) \<subseteq> set (map ob_id (db_outbox d))"
    by (auto simp: batch_ids_def dest!: in_set_takeD)
  then show ?thesis unfolding batch_returned by auto
qed

lemma deadline_update:
  assumes "\<And>r. P r \<Longrightarrow> ob_id (f r) = ob_id r"
  shows "row_deadline (d\<lparr>db_outbox := update_rows P f (db_outbox d)\<rparr>) i
     = (case find_outbox_id d i of None \<Rightarrow> None
        | Some r \<Rightarrow> ob_locked_until (if P r then f r else r))"
proof -
  have "find (\<lambda>r. ob_id r = i) (update_rows P f (db_outbox d))
      = map_option (\<lambda>r. if P r then f r else r) (find (\<lambda>r. ob_id r = i) (db_outbox d))"
    by (rule find_update_rows) (rule assms)
  then show ?thesis
    by (simp add: row_deadline_def find_outbox_id_def option.case_eq_if map_option_case)
qed

lemma claim_row_granted:
  assumes "db_ok d"
  shows "fst (claim_outbox_row now i lease d)
    = (case find_outbox_id d i of None \<Rightarrow> False | Some r \<Rightarrow> claimable now r)"
  using assms list_ex_key [of ob_id "db_outbox d" i "claimable now"]
  by (simp add: claim_outbox_row_def find_outbox_id_def db_ok_def outbox_ok_def)

lemma claimable_unlocked:
  "claimable now r \<Longrightarrow> (case ob_locked_until r of None \<Rightarrow> True | Some u \<Rightarrow> u < now)"
  by (simp add: claimable_def unlocked_def)

lemma find_outbox_id_id: "find_outbox_id d i = Some r \<Longrightarrow> ob_id r = i"
  unfolding find_outbox_id_def by (drule find_Some_in) simp

lemma grant_rows_deadline:
  assumes "db_ok d"
  shows "row_deadline (snd (grant_rows now op d)) i
    = (if i \<in> set (fst (grant_rows now op d)) then Some (now + seconds OUTBOX_LEASE_SECS)
       else row_deadline d i)"
proof (cases op)
  case (Claim_batch n)
  have ids: "set (fst (grant_rows now op d)) = set (batch_ids now n d)"
    using batch_returned_set [OF assms] Claim_batch by (simp add: case_prod_beta del: set_map)
  have "snd (grant_rows now op d) = d\<lparr>db_outbox := update_rows (\<lambda>r. ob_id r \<in> set (batch_ids now n d))
      (lock_until (now + seconds OUTBOX_LEASE_SECS)) (db_outbox d)\<rparr>"
    using Claim_batch by (simp add: case_prod_beta claim_outbox_batch_alt Let_def)
  then show ?thesis
    using batch_ids_claimable [OF assms, of i now n]
    unfolding ids by (auto simp: deadline_update row_deadline_def [of d] lock_until_def
        dest: find_outbox_id_id split: option.splits)
next
  case (Claim_row j)
  have granted: "fst (grant_rows now op d)
      = (if (case find_outbox_id d j of None \<Rightarrow> False | Some r \<Rightarrow> claimable now r) then [j] else [])"
    using Claim_row claim_row_granted [OF assms, of now j OUTBOX_LEASE_SECS]
    by (simp add: case_prod_beta)
  have "snd (grant_rows now op d) = d\<lparr>db_outbox := update_rows (\<lambda>r. ob_id r = j \<and> claimable now r)
      (lock_until (now + seconds OUTBOX_LEASE_SECS)) (db_outbox d)\<rparr>"
    using Claim_row by (simp add: claim_outbox_row_def)
  then show ?thesis
    unfolding granted using find_outbox_id_id [of d i]
    by (cases "find_outbox_id d i") (auto simp: deadline_update row_deadline_def [of d] lock_until_def)
qed

lemma grant_rows_claimable:
  assumes "db_ok d" and "i \<in> set (fst (grant_rows now op d))"
  shows "\<exists>r. find_outbox_id d i = Some r \<and> claimable now r"
proof (cases op)
  case (Claim_batch n)
  then have "i \<in> set (batch_ids now n d)"
    using assms(2) batch_returned_set [OF assms(1)] by (simp add: case_prod_beta del: set_map)
  then show ?thesis using batch_ids_claimable [OF assms(1)] by blast
next
  case (Claim_row j)
  then show ?thesis
    using assms(2) claim_row_granted [OF assms(1), of now j OUTBOX_LEASE_SECS]
    by (auto simp: case_prod_beta split: if_splits option.splits)
qed

lemma grant_rows_ok: "db_ok d \<Longrightarrow> db_ok (snd (grant_rows now op d))"
  using claim_batch_ok claim_row_ok by (cases op) (simp_all add: case_prod_beta)

interpretation outbox_lease: lease_table grant_rows row_deadline db_ok "seconds OUTBOX_LEASE_SECS"
proof
  fix d :: db and i :: int and now and op
  assume ok: "db_ok d"
  show "db_ok (snd (grant_rows now op d))" using ok by (rule grant_rows_ok)
  show "case row_deadline d i of None \<Rightarrow> True | Some u \<Rightarrow> u < now"
    if "i \<in> set (fst (grant_rows now op d))"
    using grant_rows_claimable [OF ok that] claimable_unlocked by (auto simp: row_deadline_def)
  show "row_deadline (snd (grant_rows now op d)) i = Some (now + seconds OUTBOX_LEASE_SECS)"
    if "i \<in> set (fst (grant_rows now op d))"
    using that by (simp add: grant_rows_deadline [OF ok])
  show "row_deadline (snd (grant_rows now op d)) i = row_deadline d i"
    if "i \<notin> set (fst (grant_rows now op d))"
    using that by (simp add: grant_rows_deadline [OF ok])
qed

section \<open>Selection and status lemmas\<close>

lemma distinct_outbox_ids: "db_ok d \<Longrightarrow> distinct (map ob_id (db_outbox d))"
  by (simp add: db_ok_def outbox_ok_def)

lemma find_outbox_id_mem:
  "db_ok d \<Longrightarrow> r \<in> set (db_outbox d) \<Longrightarrow> find_outbox_id d (ob_id r) = Some r"
  unfolding find_outbox_id_def by (rule find_key_unique [OF distinct_outbox_ids])

lemma find_outbox_id_Some: "find_outbox_id d i = Some r \<Longrightarrow> r \<in> set (db_outbox d) \<and> ob_id r = i"
  unfolding find_outbox_id_def by (rule find_Some_in)

lemma distinct_batch_ids: "db_ok d \<Longrightarrow> distinct (batch_ids now n d)"
proof -
  assume "db_ok d"
  then have "distinct (map ob_id (filter P (db_outbox d)))" for P
    by (simp add: distinct_outbox_ids distinct_map_filter)
  moreover have "mset (map ob_id (sort_key ob_created_at rows)) = mset (map ob_id rows)" for rows
    by simp
  ultimately have "distinct (map ob_id (sort_key ob_created_at (filter P (db_outbox d))))" for P
    by (metis mset_eq_imp_distinct_iff)
  then show ?thesis by (simp add: batch_ids_def take_map [symmetric])
qed

lemma length_batch:
  assumes "db_ok d"
  shows "length (fst (claim_outbox_batch now n lease d)) = min n (length (filter
    (\<lambda>r. claimable now r \<and> ob_attempts r < OUTBOX_MAX_ATTEMPTS) (db_outbox d)))"
proof -
  let ?ids = "map or_id (fst (claim_outbox_batch now n lease d))"
  have "distinct ?ids"
    unfolding batch_returned by (simp add: distinct_outbox_ids [OF assms])
  then have "length ?ids = card (set ?ids)" by (simp only: distinct_card)
  also have "\<dots> = length (batch_ids now n d)"
    unfolding batch_returned_set [OF assms] by (rule distinct_card [OF distinct_batch_ids [OF assms]])
  finally show ?thesis by (simp add: batch_ids_def min.commute)
qed

lemma sorted_take_drop:
  assumes "sorted (map f xs)" and "x \<in> set (take n xs)" and "y \<in> set (drop n xs)"
  shows "f x \<le> f y"
proof -
  have "sorted (map f (take n xs) @ map f (drop n xs))"
    using assms(1) by (metis append_take_drop_id map_append)
  then show ?thesis using assms(2,3) by (auto simp: sorted_append)
qed

lemma batch_takes_oldest:
  assumes "db_ok d" "r \<in> set (db_outbox d)" "claimable now r" "ob_attempts r < OUTBOX_MAX_ATTEMPTS"
    and "ob_id r \<notin> set (batch_ids now n d)" "q \<in> set (db_outbox d)" "ob_id q \<in> set (batch_ids now n d)"
  shows "ob_created_at q \<le> ob_created_at r"
proof -
  let ?xs = "sort_key ob_created_at (filter (\<lambda>r. claimable now r \<and> ob_attempts r < OUTBOX_MAX_ATTEMPTS) (db_outbox d))"
  obtain q' where q': "q' \<in> set (take n ?xs)" "ob_id q' = ob_id q"
    using assms(7) by (auto simp: batch_ids_def)
  then have "q' \<in> set (db_outbox d)" by (auto dest: in_set_takeD)
  then have "q' = q"
    using distinct_key_unique [OF distinct_outbox_ids [OF assms(1)]] assms(6) q'(2) by blast
  have "r \<in> set ?xs" using assms(2-4) by simp
  moreover have "r \<notin> set (take n ?xs)" using assms(5) by (auto simp: batch_ids_def)
  ultimately have "r \<in> set (drop n ?xs)" by (metis Un_iff append_take_drop_id set_append)
  then show ?thesis
    using sorted_take_drop [of ob_created_at ?xs q n r] q'(1) \<open>q' = q\<close> by (simp del: set_sort)
qed

lemma find_outbox_update:
  assumes "\<And>r. P r \<Longrightarrow> ob_id (f r) = ob_id r"
  shows "find_outbox_id (d\<lparr>db_outbox := update_rows P f (db_outbox d)\<rparr>) i
     = map_option (\<lambda>r. if P r then f r else r) (find_outbox_id d i)"
proof -
  have "find (\<lambda>r. ob_id r = i) (update_rows P f (db_outbox d))
      = map_option (\<lambda>r. if P r then f r else r) (find (\<lambda>r. ob_id r = i) (db_outbox d))"
    by (rule find_update_rows) (rule assms)
  then show ?thesis by (simp add: find_outbox_id_def)
qed

lemma list_ex_outbox_id:
  "db_ok d \<Longrightarrow> list_ex (\<lambda>r. ob_id r = i \<and> Q r) (db_outbox d)
     = (case find_outbox_id d i of None \<Rightarrow> False | Some r \<Rightarrow> Q r)"
  unfolding find_outbox_id_def by (rule list_ex_key [OF distinct_outbox_ids])

definition synced_status :: "db \<Rightarrow> int \<Rightarrow> row_status \<Rightarrow> row_status" where
  "synced_status d i st =
    (if list_all (\<lambda>k. sd_status k = Sent) (sinks_of d i) then st
     else if list_ex (\<lambda>k. retryable (sd_status k)) (sinks_of d i) then (if retryable st then Failed else st)
     else Dead)"

lemma filter_none: "(length (filter P xs) = 0) = list_all (\<lambda>x. \<not> P x) xs"
  by (simp add: list_all_iff filter_empty_conv)

lemma sync_cases:
  "sync_outbox_sink_status i d =
    (if list_all (\<lambda>k. sd_status k = Sent) (sinks_of d i) then (False, d)
     else if list_ex (\<lambda>k. retryable (sd_status k)) (sinks_of d i) then
       (False, d\<lparr>db_outbox := update_rows (\<lambda>r. ob_id r = i \<and> retryable (ob_status r))
             (\<lambda>r. r\<lparr>ob_status := Failed, ob_last_error := Some ''partial sink delivery failure''\<rparr>)
             (db_outbox d)\<rparr>)
     else
       (list_ex (\<lambda>r. ob_id r = i \<and> ob_status r \<noteq> Dead) (db_outbox d),
        d\<lparr>db_outbox := update_rows (\<lambda>r. ob_id r = i \<and> ob_status r \<noteq> Dead)
             (\<lambda>r. r\<lparr>ob_status := Dead\<rparr>) (db_outbox d)\<rparr>))"
proof -
  let ?rows = "sinks_of d i"
  have unsent: "(length ?rows = 0 \<or> length (filter (\<lambda>k. sd_status k \<noteq> Sent) ?rows) = 0)
      = list_all (\<lambda>k. sd_status k = Sent) ?rows"
    unfolding filter_none by (cases ?rows) auto
  have retry: "(length (filter (\<lambda>k. retryable (sd_status k)) ?rows) = 0)
      = (\<not> list_ex (\<lambda>k. retryable (sd_status k)) ?rows)"
    unfolding filter_none by (auto simp: list_all_iff list_ex_iff)
  have dead: "0 < length (filter (\<lambda>k. sd_status k = Dead) ?rows)"
    if "\<not> list_all (\<lambda>k. sd_status k = Sent) ?rows" "\<not> list_ex (\<lambda>k. retryable (sd_status k)) ?rows"
  proof -
    have "\<exists>k \<in> set ?rows. sd_status k \<noteq> Sent" using that(1) by (simp add: list_all_iff)
    then obtain k where k: "k \<in> set ?rows" "sd_status k \<noteq> Sent" by blast
    then have "sd_status k = Dead"
      using that(2) by (cases "sd_status k") (auto simp: list_ex_iff retryable_def)
    then show ?thesis using k(1) by (auto simp: length_pos_if_in_set filter_empty_conv)
  qed
  show ?thesis unfolding sync_outbox_sink_status_def Let_def unsent retry using dead by simp
qed

lemma pending_sinks_retryable:
  assumes "db_ok d"
  shows "list_pending_sink_indices d i
    = map nat (sort (map sd_sink_index (filter (\<lambda>k. retryable (sd_status k)) (sinks_of d i))))"
proof -
  have "sd_attempts k < OUTBOX_MAX_ATTEMPTS" if "k \<in> set (sinks_of d i)" "retryable (sd_status k)" for k
    using assms that by (auto simp: db_ok_def sinks_ok_def sinks_of_def list_all_iff sink_row_ok_def)
  then have "filter (\<lambda>k. retryable (sd_status k) \<and> sd_attempts k < OUTBOX_MAX_ATTEMPTS) (sinks_of d i)
      = filter (\<lambda>k. retryable (sd_status k)) (sinks_of d i)"
    by (intro filter_cong) auto
  then show ?thesis by (simp add: list_pending_sink_indices_def)
qed

section \<open>Properties\<close>

text \<open>
  a claimed batch.  At most the requested number of rows is returned, each of them once; every
  one was due, unlocked, retryable and below the attempt cap, and is now leased for the lease
  time; a row that qualified but was left out is at least as young as every claimed row, and is
  left out only when the batch is full.
\<close>

theorem claim_batch_oldest_due:
  assumes "db_ok d" and "(rs, d') = claim_outbox_batch now n OUTBOX_LEASE_SECS d"
  shows "length rs \<le> n \<and> distinct (map or_id rs) \<and> db_ok d'
    \<and> (\<forall>i \<in> set (map or_id rs).
        row_deadline d' i = Some (now + seconds 300)
        \<and> (\<exists>r. find_outbox_id d i = Some r \<and> claimable now r \<and> ob_attempts r < OUTBOX_MAX_ATTEMPTS))
    \<and> (\<forall>r \<in> set (db_outbox d).
        claimable now r \<and> ob_attempts r < OUTBOX_MAX_ATTEMPTS \<and> ob_id r \<notin> set (map or_id rs)
        \<longrightarrow> length rs = n \<and> (\<forall>q \<in> set (db_outbox d). ob_id q \<in> set (map or_id rs) \<longrightarrow> ob_created_at q \<le> ob_created_at r))"
proof -
  have rs: "rs = fst (claim_outbox_batch now n OUTBOX_LEASE_SECS d)"
    and d': "d' = snd (claim_outbox_batch now n OUTBOX_LEASE_SECS d)"
    using assms(2) by (metis fst_conv snd_conv)+
  have ids: "set (map or_id rs) = set (batch_ids now n d)"
    unfolding rs by (rule batch_returned_set [OF assms(1)])
  let ?eligible = "filter (\<lambda>r. claimable now r \<and> ob_attempts r < OUTBOX_MAX_ATTEMPTS) (db_outbox d)"
  have len: "length rs = min n (length ?eligible)" unfolding rs by (rule length_batch [OF assms(1)])
  have dist: "distinct (map or_id rs)"
    unfolding rs batch_returned by (simp add: distinct_outbox_ids [OF assms(1)])
  have locked: "row_deadline d' i = Some (now + seconds 300)" if "i \<in> set (map or_id rs)" for i
    using grant_rows_deadline [OF assms(1), of now "Claim_batch n" i] that
    unfolding rs d' by (simp add: case_prod_beta OUTBOX_LEASE_SECS_def del: set_map)
  have full: "length rs = n"
    if "r \<in> set (db_outbox d)" "claimable now r" "ob_attempts r < OUTBOX_MAX_ATTEMPTS"
      "ob_id r \<notin> set (batch_ids now n d)" for r
  proof (rule ccontr)
    assume "length rs \<noteq> n"
    then have "length ?eligible < n" using len by simp
    then have "batch_ids now n d = map ob_id (sort_key ob_created_at ?eligible)"
      by (simp add: batch_ids_def)
    then show False using that by simp
  qed
  show ?thesis
    using dist len locked claim_batch_ok [OF assms(1)] batch_ids_claimable [OF assms(1)] full
      batch_takes_oldest [OF assms(1)]
    unfolding ids d' by auto
qed

theorem claim_batch_oldest_due_witness:
  "length (fst (claim_outbox_batch 7 1 OUTBOX_LEASE_SECS example_queue)) \<le> 1"
  using claim_batch_oldest_due [OF example_queue_ok prod.collapse, of 7 1] by blast

text \<open>
  C36: leases are exclusive.  Once a claim, of a batch or of a single row, has granted a row, no
  sequence of further claims made within the 300 seconds of the lease grants it to anyone else.
\<close>

theorem outbox_lease_exclusive:
  assumes "db_ok d" and "i \<in> set (fst (grant_rows now op d))"
    and "\<forall>c \<in> set cs. fst c \<le> now + seconds 300"
  shows "i \<notin> set (grants grant_rows cs (snd (grant_rows now op d)))"
  using outbox_lease.lease_exclusive [OF assms(1,2)] assms(3) by (simp add: OUTBOX_LEASE_SECS_def)

theorem outbox_lease_exclusive_witness:
  "2 \<notin> set (grants grant_rows [(0, Claim_batch 8), (seconds 300, Claim_row 2)]
      (snd (grant_rows 0 (Claim_row 2) example_queue)))"
proof -
  have "2 \<in> set (fst (grant_rows 0 (Claim_row 2) example_queue))"
    by (simp add: example_queue_def example_outbox_row_def claim_outbox_row_def claimable_def
        retryable_def unlocked_def due_def)
  then show ?thesis by (rule outbox_lease_exclusive [OF example_queue_ok]) (simp add: seconds_def)
qed

definition fresh_delivery :: "db \<Rightarrow> int \<Rightarrow> event \<Rightarrow> outbox_meta \<Rightarrow> bool" where
  "fresh_delivery d i e m =
    (case find_outbox_id d i of
       None \<Rightarrow> False
     | Some r \<Rightarrow> to_event (outbox_record_from_row r) = e \<and> ob_status r = Pending \<and> ob_attempts r = 0
         \<and> ob_content_digest r = om_content_digest m \<and> ob_deliver_after r = om_deliver_after m
         \<and> list_all (\<lambda>k. sd_status k = Pending \<and> sd_attempts k = 0) (sinks_of d i))"

lemma fresh_insert:
  assumes "db_ok d"
  shows "fresh_delivery (d\<lparr>db_next_id := db_next_id d + 1,
    db_outbox := db_outbox d @ [new_outbox_row now (db_next_id d) e ident m]\<rparr>) (db_next_id d) e m"
proof -
  have "ob_id r < db_next_id d" if "r \<in> set (db_outbox d)" for r
    using assms that by (auto simp: db_ok_def outbox_ok_def list_all_iff)
  then have fresh: "db_next_id d \<notin> ob_id ` set (db_outbox d)" by force
  have app: "find P (xs @ [x]) = (case find P xs of None \<Rightarrow> if P x then Some x else None | Some y \<Rightarrow> Some y)"
    for P and xs :: "outbox_row list" and x by (induction xs) auto
  have "find (\<lambda>r. ob_id r = db_next_id d) (db_outbox d) = None"
    using fresh by (force simp: find_None_iff)
  moreover have "sinks_of d (db_next_id d) = []"
    using assms fresh by (force simp: sinks_of_def filter_empty_conv db_ok_def sinks_ok_def list_all_iff)
  ultimately show ?thesis
    by (simp add: fresh_delivery_def find_outbox_id_def app sinks_of_def new_outbox_row_def
        to_event_def outbox_record_from_row_def)
qed

lemma fresh_reopen:
  assumes "db_ok d" and "r \<in> set (db_outbox d)" and "ob_status r = Sent" and "ob_source_id r = ev_source_id e"
  shows "fresh_delivery (d\<lparr>db_next_id := n,
    db_outbox := update_rows (\<lambda>o'. ob_id o' = ob_id r \<and> ob_status o' = Sent) (reopen_row e m) (db_outbox d),
    db_sinks := update_rows (\<lambda>k. sd_outbox_id k = ob_id r) reset_sink (db_sinks d)\<rparr>) (ob_id r) e m"
proof -
  have upd: "find (\<lambda>x. ob_id x = ob_id r)
       (update_rows (\<lambda>o'. ob_id o' = ob_id r \<and> ob_status o' = Sent) (reopen_row e m) (db_outbox d))
    = map_option (\<lambda>x. if ob_id x = ob_id r \<and> ob_status x = Sent then reopen_row e m x else x)
        (find (\<lambda>x. ob_id x = ob_id r) (db_outbox d))"
    by (rule find_update_rows) (simp add: reopen_row_def)
  have found: "find (\<lambda>x. ob_id x = ob_id r) (db_outbox d) = Some r"
    using find_outbox_id_mem [OF assms(1,2)] by (simp add: find_outbox_id_def)
  show ?thesis
    using upd found assms(3,4)
    by (auto simp: fresh_delivery_def find_outbox_id_def sinks_of_def list_all_iff set_update_rows
        reset_sink_def reopen_row_def to_event_def outbox_record_from_row_def)
qed

text \<open>
  C37: enqueueing.  A notification is created exactly when the release has no row yet or its row was
  sent with another content digest; then the row holds the event, is pending with no attempts,
  and no ledger row of an earlier round is left settled.  Otherwise no row changes.  Integrity,
  in particular at most one row for each source and identity, is kept.
\<close>

theorem enqueue_creates_once:
  assumes "db_ok d" and "(out, d') = try_enqueue_notification now app_now e ident m d"
  shows "db_ok d'
    \<and> (case out of None \<Rightarrow> False | Some o' \<Rightarrow> eo_created o') =
        (case find_outbox d (ev_source_id e) ident of
           None \<Rightarrow> True
         | Some r \<Rightarrow> ob_status r = Sent \<and> ob_content_digest r \<noteq> om_content_digest m)
    \<and> (case out of
         None \<Rightarrow> d' = d\<lparr>db_next_id := db_next_id d + 1\<rparr>
       | Some o' \<Rightarrow>
           if eo_created o' then fresh_delivery d' (eo_id o') e m
             \<and> eo_deliver_now o' = due app_now (om_deliver_after m)
           else d' = d\<lparr>db_next_id := db_next_id d + 1\<rparr> \<and> \<not> eo_deliver_now o')"
proof -
  have out: "out = fst (try_enqueue_notification now app_now e ident m d)"
    and d': "d' = snd (try_enqueue_notification now app_now e ident m d)"
    using assms(2) by (metis fst_conv snd_conv)+
  have ok: "db_ok d'" unfolding d' by (rule enqueue_ok [OF assms(1)])
  show ?thesis
  proof (cases "find_outbox d (ev_source_id e) ident")
    case None
    then have "out = Some \<lparr>eo_id = db_next_id d, eo_deliver_now = due app_now (om_deliver_after m),
        eo_created = True\<rparr>"
      "d' = d\<lparr>db_next_id := db_next_id d + 1,
        db_outbox := db_outbox d @ [new_outbox_row now (db_next_id d) e ident m]\<rparr>"
      unfolding out d' by (simp_all add: try_enqueue_notification_def Let_def)
    then show ?thesis using None ok fresh_insert [OF assms(1)] by simp
  next
    case (Some r)
    then have r: "r \<in> set (db_outbox d)" and key: "outbox_key r = (ev_source_id e, ident)"
      unfolding find_outbox_def by (blast dest: find_Some_in)+
    show ?thesis
    proof (cases "ob_status r = Sent \<and> ob_content_digest r \<noteq> om_content_digest m")
      case True
      then have "out = Some \<lparr>eo_id = ob_id r, eo_deliver_now = due app_now (om_deliver_after m),
          eo_created = True\<rparr>"
        "d' = d\<lparr>db_next_id := db_next_id d + 1,
          db_outbox := update_rows (\<lambda>o'. ob_id o' = ob_id r \<and> ob_status o' = Sent) (reopen_row e m) (db_outbox d),
          db_sinks := update_rows (\<lambda>k. sd_outbox_id k = ob_id r) reset_sink (db_sinks d)\<rparr>"
        unfolding out d' using Some by (simp_all add: try_enqueue_notification_def Let_def retryable_def)
      then show ?thesis using Some True ok key fresh_reopen [OF assms(1) r] by (simp add: outbox_key_def)
    next
      case False
      then show ?thesis
        using Some ok unfolding out d' by (auto simp: try_enqueue_notification_def Let_def)
    qed
  qed
qed

definition example_event :: event where
  "example_event = \<lparr>ev_source_id = ''gh:a'', ev_source_kind = ''github'', ev_title = ''new'',
     ev_body = ''notes'', ev_url = None, ev_routing_tag = None\<rparr>"

definition example_meta :: outbox_meta where
  "example_meta = \<lparr>om_content_digest = Some ''d2'', om_display_tag = None, om_published_at = None,
     om_deliver_after = None\<rparr>"

theorem enqueue_creates_once_witness:
  "fresh_delivery (snd (try_enqueue_notification 9 9 example_event ''v1'' example_meta example_queue))
     1 example_event example_meta"
proof -
  have "fst (try_enqueue_notification 9 9 example_event ''v1'' example_meta example_queue)
      = Some \<lparr>eo_id = 1, eo_deliver_now = True, eo_created = True\<rparr>"
    by code_simp
  then show ?thesis
    using enqueue_creates_once [OF example_queue_ok prod.collapse,
        of 9 9 example_event "''v1''" example_meta] by simp
qed

text \<open>
  C38: the queue row follows its ledger.  After \<^verbatim>\<open>sync_outbox_sink_status\<close> the row is unchanged when every
  ledger row is sent, failed (if it was retryable) while some ledger row can still be retried, and
  dead when none can; it is reported dead exactly when it becomes so.  The ledger and all other
  rows are untouched, so no retryable ledger row is ever stranded under a row just marked dead.
\<close>

theorem sync_follows_ledger:
  assumes "db_ok d"
  shows "map_option ob_status (find_outbox_id (snd (sync_outbox_sink_status i d)) j)
       = map_option (\<lambda>r. if j = i then synced_status d i (ob_status r) else ob_status r) (find_outbox_id d j)
    \<and> fst (sync_outbox_sink_status i d)
       = (case find_outbox_id d i of None \<Rightarrow> False
          | Some r \<Rightarrow> ob_status r \<noteq> Dead \<and> synced_status d i (ob_status r) = Dead)
    \<and> db_sinks (snd (sync_outbox_sink_status i d)) = db_sinks d"
proof -
  have status: "map_option ob_status (find_outbox_id (snd (sync_outbox_sink_status i d)) j)
      = map_option (\<lambda>r. if j = i then synced_status d i (ob_status r) else ob_status r) (find_outbox_id d j)"
  proof (cases "find_outbox_id d j")
    case None
    then show ?thesis by (simp add: sync_cases find_outbox_update)
  next
    case (Some a)
    then have "ob_id a = j" by (rule find_outbox_id_id)
    with Some show ?thesis
      by (cases "j = i") (simp_all add: sync_cases find_outbox_update synced_status_def)
  qed
  have never: "retryable st \<Longrightarrow> st \<noteq> Dead" for st by (auto simp: retryable_def)
  have "fst (sync_outbox_sink_status i d)
      = (case find_outbox_id d i of None \<Rightarrow> False
         | Some r \<Rightarrow> ob_status r \<noteq> Dead \<and> synced_status d i (ob_status r) = Dead)"
    using never by (cases "find_outbox_id d i")
      (auto simp: sync_cases synced_status_def list_ex_outbox_id [OF assms])
  then show ?thesis using status by (simp add: sync_cases)
qed

theorem sync_follows_ledger_witness:
  "map_option ob_status (find_outbox_id (snd (sync_outbox_sink_status 2
     (example_queue\<lparr>db_sinks := [fail_sink ''x'' (new_sink_row 2 0 ''webhook'')]\<rparr>))) 2) = Some Failed"
proof -
  let ?d = "example_queue\<lparr>db_sinks := [fail_sink ''x'' (new_sink_row 2 0 ''webhook'')]\<rparr>"
  have "db_ok ?d"
    by (simp add: example_queue_def empty_db_def db_ok_def outbox_ok_def sinks_ok_def fail_sink_def
      example_outbox_row_def outbox_row_ok_def outbox_key_def sink_row_ok_def new_sink_row_def
      retryable_def OUTBOX_MAX_ATTEMPTS_def)
  moreover have "map_option (\<lambda>r. synced_status ?d 2 (ob_status r)) (find_outbox_id ?d 2) = Some Failed"
    by code_simp
  ultimately show ?thesis using sync_follows_ledger [of ?d 2 2] by simp
qed

text \<open>
  recovery reaches every stuck notification.  Finalizing leaves no retryable row at the attempt
  cap; requeueing then makes every row that was exhausted or dead pending again, with no attempts
  and no lease, leaves no dead row, and never touches a ledger row that was already sent.
\<close>

theorem recovery_requeues_stuck:
  assumes "db_ok d" and "d1 = snd (finalize_exhausted_outbox d)" and "d2 = snd (requeue_dead_outbox d1)"
  shows "list_all (\<lambda>r. \<not> exhausted r) (db_outbox d1)
    \<and> list_all (\<lambda>r. ob_status r \<noteq> Dead) (db_outbox d2)
    \<and> (\<forall>r \<in> set (db_outbox d). exhausted r \<or> ob_status r = Dead \<longrightarrow>
        (case find_outbox_id d2 (ob_id r) of None \<Rightarrow> False
         | Some q \<Rightarrow> ob_status q = Pending \<and> ob_attempts q = 0 \<and> ob_locked_until q = None))
    \<and> filter (\<lambda>k. sd_status k = Sent) (db_sinks d2) = filter (\<lambda>k. sd_status k = Sent) (db_sinks d)
    \<and> db_ok d2"
proof -
  let ?kill = "\<lambda>r::outbox_row. r\<lparr>ob_status := Dead\<rparr>"
  have d1: "db_outbox d1 = update_rows exhausted ?kill (db_outbox d)" "db_sinks d1 = db_sinks d"
    using assms(2) by (simp_all add: finalize_exhausted_outbox_def)
  have ok1: "db_ok d1" unfolding assms(2) by (rule finalize_ok [OF assms(1)])
  have ok2: "db_ok d2" unfolding assms(3) by (rule requeue_ok [OF ok1])
  let ?ids = "map ob_id (filter (\<lambda>r. ob_status r = Dead) (db_outbox d1))"
  let ?revive = "\<lambda>r::outbox_row. r\<lparr>ob_status := Pending, ob_attempts := 0, ob_last_error := None, ob_locked_until := None\<rparr>"
  have d2: "db_outbox d2 = update_rows (\<lambda>r. ob_id r \<in> set ?ids) ?revive (db_outbox d1)"
    "db_sinks d2 = update_rows (\<lambda>k. sd_outbox_id k \<in> set ?ids \<and> sd_status k \<noteq> Sent) reset_sink (db_sinks d1)"
    unfolding assms(3) requeue_dead_outbox_def Let_def
    by (cases "?ids = []"; simp add: update_rows_def)+
  have one: "list_all (\<lambda>r. \<not> exhausted r) (db_outbox d1)"
    unfolding d1 by (auto simp: list_all_iff set_update_rows exhausted_def retryable_def)
  have two: "list_all (\<lambda>r. ob_status r \<noteq> Dead) (db_outbox d2)"
    unfolding d2 by (auto simp: list_all_iff set_update_rows)
  have three: "case find_outbox_id d2 (ob_id r) of None \<Rightarrow> False
      | Some q \<Rightarrow> ob_status q = Pending \<and> ob_attempts q = 0 \<and> ob_locked_until q = None"
    if r: "r \<in> set (db_outbox d)" "exhausted r \<or> ob_status r = Dead" for r
  proof -
    let ?q = "if exhausted r then ?kill r else r"
    have q: "?q \<in> set (db_outbox d1)" using r(1) by (auto simp: d1 set_update_rows)
    have dead: "ob_status ?q = Dead" "ob_id ?q = ob_id r" using r(2) by auto
    have "?q \<in> set (filter (\<lambda>r. ob_status r = Dead) (db_outbox d1))" using q dead(1) by simp
    then have "ob_id ?q \<in> set ?ids" unfolding set_map by (rule imageI)
    then have "ob_id r \<in> set ?ids" unfolding dead(2) .
    then have "?revive ?q \<in> set (db_outbox d2)" using q dead(2) unfolding d2 set_update_rows by force
    from find_outbox_id_mem [OF ok2 this] show ?thesis using dead(2) by simp
  qed
  have four: "filter (\<lambda>k. sd_status k = Sent) (update_rows (\<lambda>k. P k \<and> sd_status k \<noteq> Sent) reset_sink rows)
      = filter (\<lambda>k. sd_status k = Sent) rows" for P rows
    by (induction rows) (auto simp: update_rows_def reset_sink_def)
  show ?thesis using one two three ok2 unfolding d2(2) d1(2) four by blast
qed

definition example_stuck :: db where
  "example_stuck = example_queue\<lparr>db_outbox := [(example_outbox_row 1 ''v1'' Pending None)\<lparr>ob_attempts := 50\<rparr>]\<rparr>"

theorem recovery_requeues_stuck_witness:
  "map_option ob_status (find_outbox_id (snd (requeue_dead_outbox (snd (finalize_exhausted_outbox example_stuck)))) 1)
     = Some Pending"
proof -
  have "db_ok example_stuck"
    by (simp add: example_stuck_def example_queue_def empty_db_def db_ok_def outbox_ok_def sinks_ok_def
      example_outbox_row_def outbox_row_ok_def outbox_key_def)
  moreover have "(example_outbox_row 1 ''v1'' Pending None)\<lparr>ob_attempts := 50\<rparr> \<in> set (db_outbox example_stuck)"
    by (simp add: example_stuck_def)
  moreover have "exhausted ((example_outbox_row 1 ''v1'' Pending None)\<lparr>ob_attempts := 50\<rparr>)"
    by (simp add: exhausted_def example_outbox_row_def retryable_def OUTBOX_MAX_ATTEMPTS_def)
  moreover have "ob_id ((example_outbox_row 1 ''v1'' Pending None)\<lparr>ob_attempts := 50\<rparr>) = 1"
    by (simp add: example_outbox_row_def)
  ultimately show ?thesis
    using recovery_requeues_stuck [OF _ refl refl, of example_stuck]
    by (fastforce split: option.splits)
qed

lemma pending_indices_of:
  assumes "db_ok d"
  shows "sorted (list_pending_sink_indices d i) \<and> distinct (list_pending_sink_indices d i)
    \<and> set (list_pending_sink_indices d i)
        = nat ` sd_sink_index ` {k \<in> set (db_sinks d). sd_outbox_id k = i \<and> retryable (sd_status k)}"
proof -
  let ?rows = "filter (\<lambda>k. retryable (sd_status k)) (sinks_of d i)"
  have keys: "distinct (map sink_key (db_sinks d))" and nonneg: "\<forall>k \<in> set (db_sinks d). 0 \<le> sd_sink_index k"
    using assms by (auto simp: db_ok_def sinks_ok_def list_all_iff sink_row_ok_def)
  have "distinct (map sink_key ?rows)" unfolding sinks_of_def by (simp add: keys distinct_map_filter)
  moreover have "map sink_key ?rows = map (Pair i) (map sd_sink_index ?rows)"
    by (auto simp: sinks_of_def sink_key_def)
  ultimately have dist: "distinct (map sd_sink_index ?rows)" by (metis distinct_map)
  have pos: "\<forall>x \<in> set (sort (map sd_sink_index ?rows)). 0 \<le> x" using nonneg by (auto simp: sinks_of_def)
  have inj: "inj_on nat (set (sort (map sd_sink_index ?rows)))"
    by (rule inj_onI) (use pos in \<open>metis nat_eq_iff2\<close>)
  have "sorted (map nat (sort (map sd_sink_index ?rows)))"
    unfolding sorted_map using sorted_sort [of "map sd_sink_index ?rows"]
    by (rule sorted_wrt_mono_rel [rotated]) (simp add: nat_mono)
  then show ?thesis
    unfolding pending_sinks_retryable [OF assms] using dist inj
    by (auto simp: distinct_map sinks_of_def)
qed

text \<open>
  which sinks a delivery will try.  In intact tables the pending list of a notification is the
  list of its retryable ledger rows in ascending order without repetition: the attempt cap never
  hides a row that is still marked pending or failed.
\<close>

theorem pending_sinks_exact:
  assumes "db_ok d"
  shows "sorted (list_pending_sink_indices d i) \<and> distinct (list_pending_sink_indices d i)
    \<and> set (list_pending_sink_indices d i)
        = nat ` sd_sink_index ` {k \<in> set (db_sinks d). sd_outbox_id k = i \<and> retryable (sd_status k)}"
  by (rule pending_indices_of [OF assms])

theorem pending_sinks_exact_witness:
  "distinct (list_pending_sink_indices example_queue 2)"
  using pending_sinks_exact [OF example_queue_ok] by blast

end
