(* ===== verification/Metrics.thy ===== *)
theory Metrics
  imports Prelude
begin

text \<open>
  The counters of \<^verbatim>\<open>src/src/metrics.rs\<close>: process wide totals and the labelled series of each source
  and sink.  A counter is a 64 bit word that wraps, as an atomic \<^verbatim>\<open>fetch_add\<close> does.  Latency
  histograms and the text exposition are not modelled.
\<close>

section \<open>State\<close>

type_synonym u64 = "64 word"

record source_metrics =
  sm_polls :: u64
  sm_polls_not_modified :: u64
  sm_polls_errors :: u64
  sm_consecutive_errors :: u64
  sm_last_error :: "string option"
  sm_notifications :: u64

record sink_metrics =
  km_ok :: u64
  km_error :: u64
  km_breaker :: u64

datatype sink_delivery_result = Delivery_ok | Delivery_error | Delivery_breaker

datatype poll_outcome = Poll_delivered | Poll_noop | Poll_not_modified | Poll_error

datatype webhook_outcome = Hook_accepted | Hook_ignored | Hook_duplicate | Hook_error

record metrics =
  mt_polls_total :: u64
  mt_polls_not_modified :: u64
  mt_polls_errors :: u64
  mt_notifications_total :: u64
  mt_webhooks_accepted :: u64
  mt_webhooks_ignored :: u64
  mt_webhooks_duplicates :: u64
  mt_webhooks_errors :: u64
  mt_config_apply_total :: u64
  mt_config_apply_rejected_total :: u64
  mt_notify_breaker_skips :: u64
  mt_outbox_enqueued_total :: u64
  mt_outbox_delivery_failures_total :: u64
  mt_outbox_dead_lettered_total :: u64
  mt_outbox_requeued_total :: u64
  mt_http_rate_limited_total :: u64
  mt_prune_deleted_total :: u64
  mt_by_source :: "string \<Rightarrow> source_metrics option"
  mt_by_sink :: "string \<times> string \<Rightarrow> sink_metrics option"

definition source_metrics_default :: source_metrics where
  "source_metrics_default = \<lparr>sm_polls = 0, sm_polls_not_modified = 0, sm_polls_errors = 0,
     sm_consecutive_errors = 0, sm_last_error = None, sm_notifications = 0\<rparr>"

definition sink_metrics_default :: sink_metrics where
  "sink_metrics_default = \<lparr>km_ok = 0, km_error = 0, km_breaker = 0\<rparr>"

definition metrics_new :: metrics where
  "metrics_new = \<lparr>mt_polls_total = 0, mt_polls_not_modified = 0, mt_polls_errors = 0,
     mt_notifications_total = 0, mt_webhooks_accepted = 0, mt_webhooks_ignored = 0,
     mt_webhooks_duplicates = 0, mt_webhooks_errors = 0, mt_config_apply_total = 0,
     mt_config_apply_rejected_total = 0, mt_notify_breaker_skips = 0, mt_outbox_enqueued_total = 0,
     mt_outbox_delivery_failures_total = 0, mt_outbox_dead_lettered_total = 0,
     mt_outbox_requeued_total = 0, mt_http_rate_limited_total = 0, mt_prune_deleted_total = 0,
     mt_by_source = (\<lambda>_. None), mt_by_sink = (\<lambda>_. None)\<rparr>"

section \<open>Recording\<close>

definition or_default :: "'a \<Rightarrow> 'a option \<Rightarrow> 'a" where
  "or_default d v = (case v of None \<Rightarrow> d | Some x \<Rightarrow> x)"

definition on_source :: "string \<Rightarrow> (source_metrics \<Rightarrow> source_metrics) \<Rightarrow> metrics \<Rightarrow> metrics" where
  "on_source s f m = m\<lparr>mt_by_source := (mt_by_source m)
     (s := Some (f (or_default source_metrics_default (mt_by_source m s))))\<rparr>"

fun poll_entry :: "poll_outcome \<Rightarrow> source_metrics \<Rightarrow> source_metrics" where
  "poll_entry Poll_not_modified e =
     e\<lparr>sm_polls := sm_polls e + 1, sm_polls_not_modified := sm_polls_not_modified e + 1,
       sm_consecutive_errors := 0, sm_last_error := None\<rparr>"
| "poll_entry Poll_error e =
     e\<lparr>sm_polls := sm_polls e + 1, sm_polls_errors := sm_polls_errors e + 1,
       sm_consecutive_errors := sm_consecutive_errors e + 1\<rparr>"
| "poll_entry Poll_delivered e =
     e\<lparr>sm_polls := sm_polls e + 1, sm_consecutive_errors := 0, sm_last_error := None\<rparr>"
| "poll_entry Poll_noop e =
     e\<lparr>sm_polls := sm_polls e + 1, sm_consecutive_errors := 0, sm_last_error := None\<rparr>"

fun poll_totals :: "poll_outcome \<Rightarrow> metrics \<Rightarrow> metrics" where
  "poll_totals Poll_not_modified m =
     m\<lparr>mt_polls_total := mt_polls_total m + 1, mt_polls_not_modified := mt_polls_not_modified m + 1\<rparr>"
| "poll_totals Poll_error m =
     m\<lparr>mt_polls_total := mt_polls_total m + 1, mt_polls_errors := mt_polls_errors m + 1\<rparr>"
| "poll_totals Poll_delivered m = m\<lparr>mt_polls_total := mt_polls_total m + 1\<rparr>"
| "poll_totals Poll_noop m = m\<lparr>mt_polls_total := mt_polls_total m + 1\<rparr>"

definition record_poll :: "string \<Rightarrow> poll_outcome \<Rightarrow> metrics \<Rightarrow> metrics" where
  "record_poll s outcome m = on_source s (poll_entry outcome) (poll_totals outcome m)"

definition note_poll_error :: "string \<Rightarrow> string \<Rightarrow> metrics \<Rightarrow> metrics" where
  "note_poll_error s msg m = on_source s (\<lambda>e. e\<lparr>sm_last_error := Some msg\<rparr>) m"

definition record_notifications :: "string \<Rightarrow> nat \<Rightarrow> metrics \<Rightarrow> metrics" where
  "record_notifications s n m =
    (if n = 0 then m
     else on_source s (\<lambda>e. e\<lparr>sm_notifications := sm_notifications e + word_of_nat n\<rparr>)
       (m\<lparr>mt_notifications_total := mt_notifications_total m + word_of_nat n\<rparr>))"

fun sink_entry :: "sink_delivery_result \<Rightarrow> sink_metrics \<Rightarrow> sink_metrics" where
  "sink_entry Delivery_ok e = e\<lparr>km_ok := km_ok e + 1\<rparr>"
| "sink_entry Delivery_error e = e\<lparr>km_error := km_error e + 1\<rparr>"
| "sink_entry Delivery_breaker e = e\<lparr>km_breaker := km_breaker e + 1\<rparr>"

definition record_breaker_skip :: "metrics \<Rightarrow> metrics" where
  "record_breaker_skip m = m\<lparr>mt_notify_breaker_skips := mt_notify_breaker_skips m + 1\<rparr>"

definition record_sink_delivery :: "string \<Rightarrow> string \<Rightarrow> sink_delivery_result \<Rightarrow> metrics \<Rightarrow> metrics" where
  "record_sink_delivery kind label result m =
    (let m1 = m\<lparr>mt_by_sink := (mt_by_sink m)((kind, label) :=
           Some (sink_entry result (or_default sink_metrics_default (mt_by_sink m (kind, label)))))\<rparr> in
     if result = Delivery_breaker then record_breaker_skip m1 else m1)"

definition record_outbox_enqueued :: "nat \<Rightarrow> metrics \<Rightarrow> metrics" where
  "record_outbox_enqueued n m =
    (if n = 0 then m
     else m\<lparr>mt_outbox_enqueued_total := mt_outbox_enqueued_total m + word_of_nat n\<rparr>)"

definition record_outbox_delivery_failure :: "metrics \<Rightarrow> metrics" where
  "record_outbox_delivery_failure m =
     m\<lparr>mt_outbox_delivery_failures_total := mt_outbox_delivery_failures_total m + 1\<rparr>"

definition record_outbox_dead_lettered :: "nat \<Rightarrow> metrics \<Rightarrow> metrics" where
  "record_outbox_dead_lettered n m =
    (if n = 0 then m
     else m\<lparr>mt_outbox_dead_lettered_total := mt_outbox_dead_lettered_total m + word_of_nat n\<rparr>)"

definition record_outbox_requeued :: "nat \<Rightarrow> metrics \<Rightarrow> metrics" where
  "record_outbox_requeued n m =
    (if n = 0 then m
     else m\<lparr>mt_outbox_requeued_total := mt_outbox_requeued_total m + word_of_nat n\<rparr>)"

definition record_http_rate_limited :: "metrics \<Rightarrow> metrics" where
  "record_http_rate_limited m = m\<lparr>mt_http_rate_limited_total := mt_http_rate_limited_total m + 1\<rparr>"

definition record_prune_deleted :: "nat \<Rightarrow> metrics \<Rightarrow> metrics" where
  "record_prune_deleted n m =
    (if n = 0 then m
     else m\<lparr>mt_prune_deleted_total := mt_prune_deleted_total m + word_of_nat n\<rparr>)"

fun record_webhook :: "webhook_outcome \<Rightarrow> metrics \<Rightarrow> metrics" where
  "record_webhook Hook_accepted m = m\<lparr>mt_webhooks_accepted := mt_webhooks_accepted m + 1\<rparr>"
| "record_webhook Hook_ignored m = m\<lparr>mt_webhooks_ignored := mt_webhooks_ignored m + 1\<rparr>"
| "record_webhook Hook_duplicate m = m\<lparr>mt_webhooks_duplicates := mt_webhooks_duplicates m + 1\<rparr>"
| "record_webhook Hook_error m = m\<lparr>mt_webhooks_errors := mt_webhooks_errors m + 1\<rparr>"

definition record_config_apply :: "metrics \<Rightarrow> metrics" where
  "record_config_apply m = m\<lparr>mt_config_apply_total := mt_config_apply_total m + 1\<rparr>"

definition record_config_apply_rejected :: "metrics \<Rightarrow> metrics" where
  "record_config_apply_rejected m =
     m\<lparr>mt_config_apply_rejected_total := mt_config_apply_rejected_total m + 1\<rparr>"

section \<open>Reading\<close>

record source_metrics_view =
  mv_polls :: u64
  mv_polls_not_modified :: u64
  mv_poll_errors :: u64
  mv_consecutive_errors :: u64
  mv_last_error :: "string option"
  mv_notifications :: u64

definition source_stats :: "metrics \<Rightarrow> string \<Rightarrow> source_metrics_view" where
  "source_stats m s =
    (case mt_by_source m s of
       None \<Rightarrow> \<lparr>mv_polls = 0, mv_polls_not_modified = 0, mv_poll_errors = 0, mv_consecutive_errors = 0,
         mv_last_error = None, mv_notifications = 0\<rparr>
     | Some e \<Rightarrow>
         \<lparr>mv_polls = sm_polls e, mv_polls_not_modified = sm_polls_not_modified e,
          mv_poll_errors = sm_polls_errors e, mv_consecutive_errors = sm_consecutive_errors e,
          mv_last_error = (if 0 < sm_consecutive_errors e then sm_last_error e else None),
          mv_notifications = sm_notifications e\<rparr>)"

fun escape_label :: "string \<Rightarrow> string" where
  "escape_label [] = []"
| "escape_label (c # cs) =
    (if c = byte 92 \<or> c = byte 34 then byte 92 # c # escape_label cs else c # escape_label cs)"

section \<open>Streaks\<close>

definition record_polls :: "(string \<times> poll_outcome) list \<Rightarrow> metrics \<Rightarrow> metrics" where
  "record_polls ps m = fold (\<lambda>(s, p). record_poll s p) ps m"

definition polls_of :: "string \<Rightarrow> (string \<times> poll_outcome) list \<Rightarrow> poll_outcome list" where
  "polls_of s ps = map snd (filter (\<lambda>p. fst p = s) ps)"

definition error_streak :: "poll_outcome list \<Rightarrow> nat" where
  "error_streak ps = length (takeWhile (\<lambda>p. p = Poll_error) (rev ps))"

lemma record_polls_snoc:
  "record_polls (ps @ [(s, p)]) m = record_poll s p (record_polls ps m)"
  by (simp add: record_polls_def)

lemma polls_of_snoc:
  "polls_of s (ps @ [(s', p)]) = (if s' = s then polls_of s ps @ [p] else polls_of s ps)"
  by (simp add: polls_of_def)

lemma error_streak_snoc:
  "error_streak (ps @ [p]) = (if p = Poll_error then Suc (error_streak ps) else 0)"
  by (simp add: error_streak_def)

lemma totals_by_source [simp]: "mt_by_source (poll_totals p m) = mt_by_source m"
  by (cases p) simp_all

lemma source_stats_record:
  "source_stats (record_poll s' p m) s =
    (if s' = s then
       (source_stats m s)\<lparr>mv_polls := mv_polls (source_stats m s) + 1,
          mv_polls_not_modified := mv_polls_not_modified (source_stats m s) + (if p = Poll_not_modified then 1 else 0),
          mv_poll_errors := mv_poll_errors (source_stats m s) + (if p = Poll_error then 1 else 0),
          mv_consecutive_errors := (if p = Poll_error then mv_consecutive_errors (source_stats m s) + 1 else 0),
          mv_last_error := mv_last_error (source_stats (record_poll s' p m) s)\<rparr>
     else source_stats m s)"
  by (cases p; cases "mt_by_source m s")
     (auto simp: source_stats_def record_poll_def on_source_def or_default_def source_metrics_default_def)

lemma mt_polls_total_record: "mt_polls_total (record_poll s p m) = mt_polls_total m + 1"
  by (cases p) (simp_all add: record_poll_def on_source_def)

lemma source_stats_new [simp]: "mv_polls (source_stats metrics_new s) = 0"
  "mv_consecutive_errors (source_stats metrics_new s) = 0" "mv_poll_errors (source_stats metrics_new s) = 0"
  by (simp_all add: source_stats_def metrics_new_def)

text \<open>
  poll counters.  After any sequence of recorded polls the total is their number, each source's
  series counts its own polls and errors, and its consecutive errors are the failures since its
  last success (all modulo \<open>2 ^ 64\<close>).
\<close>

theorem poll_counters_exact:
  "mt_polls_total (record_polls ps metrics_new) = word_of_nat (length ps)
   \<and> mv_polls (source_stats (record_polls ps metrics_new) s) = word_of_nat (length (polls_of s ps))
   \<and> mv_poll_errors (source_stats (record_polls ps metrics_new) s)
       = word_of_nat (count_list (polls_of s ps) Poll_error)
   \<and> mv_consecutive_errors (source_stats (record_polls ps metrics_new) s)
       = word_of_nat (error_streak (polls_of s ps))"
proof (induction ps rule: rev_induct)
  case Nil
  then show ?case
    by (simp add: record_polls_def polls_of_def error_streak_def) (simp add: metrics_new_def)
next
  case (snoc x ps)
  obtain s' p where x: "x = (s', p)" by (cases x)
  show ?case
    unfolding x record_polls_snoc polls_of_snoc mt_polls_total_record
    by (subst (1 2 3) source_stats_record) (use snoc in \<open>simp add: error_streak_snoc\<close>)
qed

end
