(* ===== verification/Notifier.thy ===== *)
theory Notifier
  imports Outbox_Store Breaker
begin

text \<open>
  The fan-out over the configured sinks (\<^verbatim>\<open>src/src/notify/mod.rs\<close>): labels, routing, one circuit
  breaker per sink, partial and full delivery.  A sink's network call is the parameter
  \<open>send\<close>: for a sink index and an event it gives the time the call takes and its error, if any.
  The deliveries of one fan-out start together and finish in the order of their durations, which
  is the order in which they reach their breakers.
\<close>

section \<open>Errors\<close>

datatype notify_error =
    Http string
  | Misconfigured string
  | Rejected string nat string
  | Backend string string
  | Fan_out nat nat string
  | Breaker_open string

definition em_dash :: string where
  "em_dash = [byte 226, byte 128, byte 148]"

fun show_notify_error :: "notify_error \<Rightarrow> string" where
  "show_notify_error (Http e) = ''http request failed: '' @ e"
| "show_notify_error (Misconfigured m) = ''notifier misconfigured: '' @ m"
| "show_notify_error (Rejected backend status body) =
     backend @ '' rejected the notification (status '' @ show_nat status @ ''): '' @ body"
| "show_notify_error (Backend backend message) = backend @ '' delivery failed: '' @ message"
| "show_notify_error (Fan_out failed tried details) =
     show_nat failed @ ''/'' @ show_nat tried @ '' notifier(s) failed: '' @ details"
| "show_notify_error (Breaker_open backend) =
     backend @ '' circuit breaker open '' @ em_dash @ '' skipped after repeated failures''"

section \<open>Sinks\<close>

datatype sink_kind =
  Apprise | Webhook | Express | Novu | Slack | Telegram | Smtp | Kafka | Nats | Rabbit_mq

record routed_sink =
  rs_kind :: sink_kind
  rs_name :: string
  rs_tags :: "string list"

fun sink_kind_str :: "sink_kind \<Rightarrow> string" where
  "sink_kind_str Apprise = ''apprise''"
| "sink_kind_str Webhook = ''webhook''"
| "sink_kind_str Express = ''express''"
| "sink_kind_str Novu = ''novu''"
| "sink_kind_str Slack = ''slack''"
| "sink_kind_str Telegram = ''telegram''"
| "sink_kind_str Smtp = ''smtp''"
| "sink_kind_str Kafka = ''kafka''"
| "sink_kind_str Nats = ''nats''"
| "sink_kind_str Rabbit_mq = ''rabbitmq''"

definition rs_kind_str :: "routed_sink \<Rightarrow> string" where
  "rs_kind_str s = sink_kind_str (rs_kind s)"

definition sink_label :: "routed_sink \<Rightarrow> string" where
  "sink_label s =
    (let named = (if rs_kind s = Apprise then None else Some (rs_name s)) in
     case trimmed_nonempty named of None \<Rightarrow> rs_kind_str s | Some name \<Rightarrow> name)"

definition event_matches_sink_tags :: "event \<Rightarrow> string list \<Rightarrow> bool" where
  "event_matches_sink_tags ev tags = matches_routing_tags tags (ev_routing_tag ev)"

definition sink_matches :: "routed_sink \<Rightarrow> event \<Rightarrow> bool" where
  "sink_matches s ev = event_matches_sink_tags ev (rs_tags s)"

section \<open>The composite\<close>

record breaker_config =
  bc_failure_threshold :: "32 word"
  bc_cooldown :: duration

definition DEFAULT_SINK_BREAKER_FAILURE_THRESHOLD :: "32 word" where
  "DEFAULT_SINK_BREAKER_FAILURE_THRESHOLD = 5"

definition DEFAULT_SINK_BREAKER_COOLDOWN_SECS :: nat where
  "DEFAULT_SINK_BREAKER_COOLDOWN_SECS = 300"

definition breaker_config_default :: breaker_config where
  "breaker_config_default =
     \<lparr>bc_failure_threshold = DEFAULT_SINK_BREAKER_FAILURE_THRESHOLD,
      bc_cooldown = DEFAULT_SINK_BREAKER_COOLDOWN_SECS * 1000\<rparr>"

record composite =
  cn_sinks :: "routed_sink list"
  cn_breakers :: "breaker list"
  cn_config :: breaker_config
  cn_newly_opened :: "string list"

definition with_breaker_config :: "routed_sink list \<Rightarrow> breaker_config \<Rightarrow> composite" where
  "with_breaker_config sinks cfg =
     \<lparr>cn_sinks = sinks, cn_breakers = map (\<lambda>_. breaker_new) sinks, cn_config = cfg,
      cn_newly_opened = []\<rparr>"

definition composite_new :: "routed_sink list \<Rightarrow> composite" where
  "composite_new sinks = with_breaker_config sinks breaker_config_default"

definition get_at :: "'a list \<Rightarrow> nat \<Rightarrow> 'a option" where
  "get_at xs i = (if i < length xs then Some (xs ! i) else None)"

definition matching_indices :: "composite \<Rightarrow> event \<Rightarrow> nat list" where
  "matching_indices nc ev =
     filter (\<lambda>i. sink_matches (cn_sinks nc ! i) ev) [0..<length (cn_sinks nc)]"

definition kind_at :: "composite \<Rightarrow> nat \<Rightarrow> string" where
  "kind_at nc i = (case get_at (cn_sinks nc) i of None \<Rightarrow> ''unknown'' | Some s \<Rightarrow> rs_kind_str s)"

definition label_at :: "composite \<Rightarrow> nat \<Rightarrow> string" where
  "label_at nc i = (case get_at (cn_sinks nc) i of None \<Rightarrow> ''unknown'' | Some s \<Rightarrow> sink_label s)"

record breaker_open_view =
  bv_kind :: string
  bv_label :: string
  bv_open :: bool

definition breaker_states :: "instant \<Rightarrow> composite \<Rightarrow> breaker_open_view list" where
  "breaker_states now nc =
     map (\<lambda>i. let s = cn_sinks nc ! i in
         \<lparr>bv_kind = rs_kind_str s, bv_label = sink_label s,
          bv_open = (case get_at (cn_breakers nc) i of
              None \<Rightarrow> False | Some b \<Rightarrow> \<not> breaker_allows b now)\<rparr>)
       [0..<length (cn_sinks nc)]"

record sink_view =
  sv_index :: nat
  sv_kind :: string
  sv_name :: string
  sv_tags :: "string list"

definition describe :: "composite \<Rightarrow> sink_view list" where
  "describe nc =
     map (\<lambda>i. let s = cn_sinks nc ! i in
         \<lparr>sv_index = i, sv_kind = rs_kind_str s, sv_name = sink_label s, sv_tags = rs_tags s\<rparr>)
       [0..<length (cn_sinks nc)]"

section \<open>Delivery\<close>

type_synonym reply = "duration \<times> notify_error option"

definition out_of_range :: "composite \<Rightarrow> nat \<Rightarrow> notify_error" where
  "out_of_range nc i = Misconfigured (''sink index '' @ show_nat i @ '' out of range (''
     @ show_nat (length (cn_sinks nc)) @ '' configured)'')"

definition sink_breaker_allows :: "instant \<Rightarrow> composite \<Rightarrow> nat \<Rightarrow> bool" where
  "sink_breaker_allows now nc i =
     (case get_at (cn_breakers nc) i of None \<Rightarrow> True | Some b \<Rightarrow> breaker_allows b now)"

definition record_breaker_outcome ::
  "instant \<Rightarrow> nat \<Rightarrow> bool \<Rightarrow> composite \<Rightarrow> string option \<times> composite" where
  "record_breaker_outcome now i success nc =
    (case get_at (cn_breakers nc) i of
       None \<Rightarrow> (None, nc)
     | Some b \<Rightarrow>
         let (b', newly_opened) = breaker_record b now success
               (bc_failure_threshold (cn_config nc)) (bc_cooldown (cn_config nc)) in
         (if newly_opened then Some (label_at nc i) else None,
          nc\<lparr>cn_breakers := (cn_breakers nc)[i := b']\<rparr>))"

definition note_outcome :: "instant \<Rightarrow> nat \<Rightarrow> bool \<Rightarrow> composite \<Rightarrow> composite" where
  "note_outcome now i success nc =
    (case record_breaker_outcome now i success nc of
       (None, nc') \<Rightarrow> nc'
     | (Some label, nc') \<Rightarrow> nc'\<lparr>cn_newly_opened := cn_newly_opened nc' @ [label]\<rparr>)"

definition drain_newly_opened_breakers :: "composite \<Rightarrow> string list \<times> composite" where
  "drain_newly_opened_breakers nc = (cn_newly_opened nc, nc\<lparr>cn_newly_opened := []\<rparr>)"

text \<open>The outcomes of the calls of one fan-out, in the order in which they finish.\<close>

definition finish_order :: "(instant \<times> nat \<times> bool) list \<Rightarrow> (instant \<times> nat \<times> bool) list" where
  "finish_order = sort_key fst"

definition note_outcomes :: "(instant \<times> nat \<times> bool) list \<Rightarrow> composite \<Rightarrow> composite" where
  "note_outcomes os nc = fold (\<lambda>(t, i, ok). note_outcome t i ok) os nc"

definition calls ::
  "(nat \<Rightarrow> event \<Rightarrow> reply) \<Rightarrow> instant \<Rightarrow> event \<Rightarrow> nat list \<Rightarrow> (instant \<times> nat \<times> bool) list" where
  "calls send now ev idxs =
     map (\<lambda>i. (now + fst (send i ev), i, snd (send i ev) = None)) idxs"

definition last_finish :: "instant \<Rightarrow> (instant \<times> nat \<times> bool) list \<Rightarrow> instant" where
  "last_finish now os = fold max (map fst os) now"

definition test_at ::
  "(nat \<Rightarrow> event \<Rightarrow> reply) \<Rightarrow> instant \<Rightarrow> nat \<Rightarrow> event \<Rightarrow> composite \<Rightarrow> notify_error option \<times> composite" where
  "test_at send now i ev nc =
    (case get_at (cn_sinks nc) i of
       None \<Rightarrow> (Some (out_of_range nc i), nc)
     | Some s \<Rightarrow> (snd (send i ev), note_outcomes (calls send now ev [i]) nc))"

definition test_all ::
  "(nat \<Rightarrow> event \<Rightarrow> reply) \<Rightarrow> instant \<Rightarrow> event \<Rightarrow> composite \<Rightarrow> (nat \<times> notify_error option) list \<times> composite" where
  "test_all send now ev nc =
    (let idxs = [0..<length (cn_sinks nc)] in
     (map (\<lambda>i. (i, snd (send i ev))) idxs,
      note_outcomes (finish_order (calls send now ev idxs)) nc))"

text \<open>Which of the listed sinks are really called: configured, matching, and breaker closed.\<close>

definition called :: "instant \<Rightarrow> composite \<Rightarrow> event \<Rightarrow> nat \<Rightarrow> bool" where
  "called now nc ev i \<longleftrightarrow>
     i < length (cn_sinks nc) \<and> sink_matches (cn_sinks nc ! i) ev \<and> sink_breaker_allows now nc i"

definition delivery_result ::
  "(nat \<Rightarrow> event \<Rightarrow> reply) \<Rightarrow> instant \<Rightarrow> composite \<Rightarrow> event \<Rightarrow> nat \<Rightarrow> notify_error option" where
  "delivery_result send now nc ev i =
    (case get_at (cn_sinks nc) i of
       None \<Rightarrow> Some (out_of_range nc i)
     | Some s \<Rightarrow>
         if \<not> sink_matches s ev then None
         else if \<not> sink_breaker_allows now nc i then Some (Breaker_open (rs_kind_str s))
         else snd (send i ev))"

definition notify_partial ::
  "(nat \<Rightarrow> event \<Rightarrow> reply) \<Rightarrow> instant \<Rightarrow> event \<Rightarrow> nat list \<Rightarrow> composite
   \<Rightarrow> (nat \<times> notify_error option) list \<times> composite" where
  "notify_partial send now ev idxs nc =
    (map (\<lambda>i. (i, delivery_result send now nc ev i)) idxs,
     note_outcomes (finish_order (calls send now ev (filter (called now nc ev) idxs))) nc)"

text \<open>The fan-out returns when its slowest call does.\<close>

definition notify_partial_end ::
  "(nat \<Rightarrow> event \<Rightarrow> reply) \<Rightarrow> instant \<Rightarrow> event \<Rightarrow> nat list \<Rightarrow> composite \<Rightarrow> instant" where
  "notify_partial_end send now ev idxs nc =
     last_finish now (calls send now ev (filter (called now nc ev) idxs))"

text \<open>The \<^verbatim>\<open>{:?}\<close> rendering of a routing tag, for the escapes of ASCII characters.\<close>

definition hex_digit :: "nat \<Rightarrow> char" where
  "hex_digit n = (if n < 10 then byte (48 + n) else byte (87 + n))"

definition debug_char :: "char \<Rightarrow> string" where
  "debug_char c =
    (if code c = 0 then [byte 92, byte 48]
     else if code c = 9 then [byte 92, byte 116]
     else if code c = 10 then [byte 92, byte 110]
     else if code c = 13 then [byte 92, byte 114]
     else if c = byte 34 \<or> c = byte 92 then [byte 92, c]
     else if code c < 16 then [byte 92] @ ''u{'' @ [hex_digit (code c)] @ ''}''
     else if code c < 32 \<or> code c = 127 then
       [byte 92] @ ''u{'' @ [hex_digit (code c div 16), hex_digit (code c mod 16)] @ ''}''
     else [c])"

definition debug_tag :: "string option \<Rightarrow> string" where
  "debug_tag t = (case t of None \<Rightarrow> ''None''
     | Some s \<Rightarrow> ''Some('' @ [byte 34] @ concat (map debug_char s) @ [byte 34] @ '')'')"

definition join_with :: "string \<Rightarrow> string list \<Rightarrow> string" where
  "join_with sep xs = (case xs of [] \<Rightarrow> [] | y # ys \<Rightarrow> y @ concat (map (\<lambda>z. sep @ z) ys))"

definition notify ::
  "(nat \<Rightarrow> event \<Rightarrow> reply) \<Rightarrow> instant \<Rightarrow> event \<Rightarrow> composite \<Rightarrow> notify_error option \<times> composite" where
  "notify send now ev nc =
    (let matching = matching_indices nc ev;
         tried = length matching in
     if tried = 0 then
       (Some (Misconfigured (''no notifier matches team routing tag '' @ debug_tag (ev_routing_tag ev))), nc)
     else
       let (results, nc') = notify_partial send now ev matching nc;
           failures = List.map_filter (\<lambda>(i, r). case r of None \<Rightarrow> None
             | Some e \<Rightarrow> Some (kind_at nc i @ '': '' @ show_notify_error e)) results in
       (if failures = [] then None
        else Some (Fan_out (length failures) tried (join_with ''; '' failures)), nc'))"

section \<open>What a fan-out does to the breakers\<close>

definition composite_ok :: "composite \<Rightarrow> bool" where
  "composite_ok nc \<longleftrightarrow> length (cn_breakers nc) = length (cn_sinks nc)"

definition breaker_step :: "composite \<Rightarrow> instant \<times> bool \<Rightarrow> breaker \<Rightarrow> breaker" where
  "breaker_step nc e b = fst (breaker_record b (fst e) (snd e)
     (bc_failure_threshold (cn_config nc)) (bc_cooldown (cn_config nc)))"

definition breaker_opens :: "composite \<Rightarrow> instant \<times> nat \<times> bool \<Rightarrow> bool" where
  "breaker_opens nc e \<longleftrightarrow> (case e of (t, i, ok) \<Rightarrow> i < length (cn_breakers nc) \<and>
     snd (breaker_record (cn_breakers nc ! i) t ok
       (bc_failure_threshold (cn_config nc)) (bc_cooldown (cn_config nc))))"

definition outcomes_of :: "nat \<Rightarrow> (instant \<times> nat \<times> bool) list \<Rightarrow> (instant \<times> bool) list" where
  "outcomes_of i os = map (\<lambda>e. (fst e, snd (snd e))) (filter (\<lambda>e. fst (snd e) = i) os)"

lemma note_outcome_fields [simp]:
  "cn_sinks (note_outcome t i ok nc) = cn_sinks nc"
  "cn_config (note_outcome t i ok nc) = cn_config nc"
  "length (cn_breakers (note_outcome t i ok nc)) = length (cn_breakers nc)"
  by (auto simp: note_outcome_def record_breaker_outcome_def get_at_def split: prod.splits if_splits)

lemma note_outcome_breakers:
  "cn_breakers (note_outcome t i ok nc)
     = (cn_breakers nc)[i := breaker_step nc (t, ok) (cn_breakers nc ! i)]"
  by (auto simp: note_outcome_def record_breaker_outcome_def get_at_def breaker_step_def
      list_update_beyond split: prod.splits if_splits)

lemma label_at_note_outcome [simp]: "label_at (note_outcome t i ok nc) = label_at nc"
  by (simp add: label_at_def [abs_def])

lemma note_outcome_opened:
  "cn_newly_opened (note_outcome t i ok nc)
     = cn_newly_opened nc @ (if breaker_opens nc (t, i, ok) then [label_at nc i] else [])"
  by (auto simp: note_outcome_def record_breaker_outcome_def get_at_def breaker_opens_def
      split: prod.splits if_splits)

lemma note_outcomes_simps [simp]:
  "note_outcomes [] nc = nc"
  "note_outcomes ((t, i, ok) # os) nc = note_outcomes os (note_outcome t i ok nc)"
  by (simp_all add: note_outcomes_def)

lemma note_outcomes_fields [simp]:
  "cn_sinks (note_outcomes os nc) = cn_sinks nc"
  "cn_config (note_outcomes os nc) = cn_config nc"
  "length (cn_breakers (note_outcomes os nc)) = length (cn_breakers nc)"
  by (induction os arbitrary: nc) auto

lemma composite_ok_note_outcomes [simp]: "composite_ok (note_outcomes os nc) = composite_ok nc"
  by (simp add: composite_ok_def)

lemma outcomes_of_simps [simp]:
  "outcomes_of i [] = []"
  "outcomes_of i ((t, j, ok) # os) = (if j = i then (t, ok) # outcomes_of i os else outcomes_of i os)"
  by (simp_all add: outcomes_of_def)

lemma outcomes_of_append [simp]: "outcomes_of i (xs @ ys) = outcomes_of i xs @ outcomes_of i ys"
  by (simp add: outcomes_of_def)

lemma breaker_step_note_outcome [simp]: "breaker_step (note_outcome t i ok nc) = breaker_step nc"
  by (simp add: breaker_step_def [abs_def])

text \<open>The breaker of a sink sees the outcomes of that sink and no others.\<close>

lemma note_outcomes_breaker:
  "i < length (cn_breakers nc) \<Longrightarrow>
   cn_breakers (note_outcomes os nc) ! i = fold (breaker_step nc) (outcomes_of i os) (cn_breakers nc ! i)"
proof (induction os arbitrary: nc)
  case Nil
  then show ?case by simp
next
  case (Cons e os)
  obtain t j ok where e: "e = (t, j, ok)" by (cases e)
  show ?case using Cons by (simp add: e note_outcome_breakers nth_list_update)
qed

lemma breaker_opens_other:
  "j \<noteq> i \<Longrightarrow> breaker_opens (note_outcome t j ok nc) (t', i, ok') = breaker_opens nc (t', i, ok')"
  by (simp add: breaker_opens_def note_outcome_breakers)

lemma note_outcomes_opened:
  "distinct (map (\<lambda>e. fst (snd e)) os) \<Longrightarrow>
   cn_newly_opened (note_outcomes os nc)
     = cn_newly_opened nc @ map (\<lambda>e. label_at nc (fst (snd e))) (filter (breaker_opens nc) os)"
proof (induction os arbitrary: nc)
  case Nil
  then show ?case by simp
next
  case (Cons e os)
  obtain t j ok where e: "e = (t, j, ok)" by (cases e)
  have "filter (breaker_opens (note_outcome t j ok nc)) os = filter (breaker_opens nc) os"
  proof (intro filter_cong refl)
    fix x assume x: "x \<in> set os"
    obtain t' i ok' where x': "x = (t', i, ok')" by (metis prod.exhaust)
    have "j \<noteq> i" using Cons.prems x by (force simp: e x')
    then show "breaker_opens (note_outcome t j ok nc) x = breaker_opens nc x"
      by (simp add: x' breaker_opens_other)
  qed
  then show ?case using Cons by (simp add: e note_outcome_opened)
qed

lemma outcomes_of_finish_order:
  "distinct (map (\<lambda>e. fst (snd e)) os) \<Longrightarrow> outcomes_of i (finish_order os) = outcomes_of i os"
proof -
  assume d: "distinct (map (\<lambda>e. fst (snd e)) os)"
  let ?f = "filter (\<lambda>e. fst (snd e) = i) os"
  have "length ?f \<le> 1"
    using d
  proof (induction os)
    case (Cons e os)
    then have "fst (snd e) = i \<Longrightarrow> filter (\<lambda>e. fst (snd e) = i) os = []"
      by (auto simp: filter_empty_conv image_iff)
    then show ?case using Cons by auto
  qed simp
  then have "sort_key fst ?f = ?f"
    by (cases ?f; cases "tl ?f") auto
  then show ?thesis
    by (simp add: outcomes_of_def finish_order_def filter_sort)
qed

lemma outcomes_of_calls:
  "distinct idxs \<Longrightarrow> outcomes_of i (calls send now ev idxs)
     = (if i \<in> set idxs then [(now + fst (send i ev), snd (send i ev) = None)] else [])"
  by (induction idxs) (auto simp: calls_def)

lemma calls_indices [simp]: "map (\<lambda>e. fst (snd e)) (calls send now ev idxs) = idxs"
  by (induction idxs) (auto simp: calls_def)

lemma filter_calls:
  "filter P (calls send now ev idxs)
     = calls send now ev (filter (\<lambda>i. P (now + fst (send i ev), i, snd (send i ev) = None)) idxs)"
  by (induction idxs) (auto simp: calls_def)

lemma partial_breaker:
  assumes "distinct idxs" "i < length (cn_breakers nc)"
  shows "cn_breakers (snd (notify_partial send now ev idxs nc)) ! i
    = (if i \<in> set idxs \<and> called now nc ev i
       then breaker_step nc (now + fst (send i ev), snd (send i ev) = None) (cn_breakers nc ! i)
       else cn_breakers nc ! i)"
  using assms
  by (simp add: notify_partial_def note_outcomes_breaker outcomes_of_finish_order outcomes_of_calls)

lemma partial_opened:
  assumes "distinct idxs"
  shows "mset (cn_newly_opened (snd (notify_partial send now ev idxs nc)))
    = mset (cn_newly_opened nc) + mset (map (label_at nc) (filter (\<lambda>i. called now nc ev i \<and>
        breaker_opens nc (now + fst (send i ev), i, snd (send i ev) = None)) idxs))"
proof -
  let ?c = "calls send now ev (filter (called now nc ev) idxs)"
  have d: "distinct (map (\<lambda>e. fst (snd e)) ?c)" using assms by simp
  have "mset (map (\<lambda>e. fst (snd e)) (finish_order ?c)) = mset (map (\<lambda>e. fst (snd e)) ?c)"
    by (simp only: finish_order_def mset_map mset_sort)
  then have d': "distinct (map (\<lambda>e. fst (snd e)) (finish_order ?c))"
    using d mset_eq_imp_distinct_iff by blast
  have "mset (map (\<lambda>e. label_at nc (fst (snd e))) (filter (breaker_opens nc) (finish_order ?c)))
      = mset (map (\<lambda>e. label_at nc (fst (snd e))) (filter (breaker_opens nc) ?c))"
    by (simp only: finish_order_def filter_sort mset_map mset_sort)
  moreover have "map (\<lambda>e. label_at nc (fst (snd e))) (calls send now ev js) = map (label_at nc) js" for js
    by (simp add: calls_def comp_def)
  ultimately show ?thesis
    by (simp add: notify_partial_def note_outcomes_opened [OF d'] filter_calls conj_commute)
qed

section \<open>Sequences of deliveries\<close>

datatype notifier_op =
    Partial_op "nat \<Rightarrow> event \<Rightarrow> reply" instant event "nat list"
  | Notify_op "nat \<Rightarrow> event \<Rightarrow> reply" instant event
  | Test_op "nat \<Rightarrow> event \<Rightarrow> reply" instant nat event
  | Test_all_op "nat \<Rightarrow> event \<Rightarrow> reply" instant event
  | Drain_op

fun run_op :: "notifier_op \<Rightarrow> composite \<Rightarrow> composite" where
  "run_op (Partial_op send now ev idxs) nc = snd (notify_partial send now ev idxs nc)"
| "run_op (Notify_op send now ev) nc = snd (notify send now ev nc)"
| "run_op (Test_op send now i ev) nc = snd (test_at send now i ev nc)"
| "run_op (Test_all_op send now ev) nc = snd (test_all send now ev nc)"
| "run_op Drain_op nc = snd (drain_newly_opened_breakers nc)"

text \<open>The network calls one operation makes, in the order in which they finish.\<close>

fun op_outcomes :: "notifier_op \<Rightarrow> composite \<Rightarrow> (instant \<times> nat \<times> bool) list" where
  "op_outcomes (Partial_op send now ev idxs) nc =
     finish_order (calls send now ev (filter (called now nc ev) idxs))"
| "op_outcomes (Notify_op send now ev) nc =
     finish_order (calls send now ev (filter (called now nc ev) (matching_indices nc ev)))"
| "op_outcomes (Test_op send now i ev) nc =
     (if i < length (cn_sinks nc) then calls send now ev [i] else [])"
| "op_outcomes (Test_all_op send now ev) nc =
     finish_order (calls send now ev [0..<length (cn_sinks nc)])"
| "op_outcomes Drain_op nc = []"

fun run_ops :: "notifier_op list \<Rightarrow> composite \<Rightarrow> composite" where
  "run_ops [] nc = nc"
| "run_ops (p # ps) nc = run_ops ps (run_op p nc)"

fun call_log :: "notifier_op list \<Rightarrow> composite \<Rightarrow> (instant \<times> nat \<times> bool) list" where
  "call_log [] nc = []"
| "call_log (p # ps) nc = op_outcomes p nc @ call_log ps (run_op p nc)"

lemma finish_order_Nil [simp]: "finish_order [] = []"
  by (simp add: finish_order_def)

lemma calls_Nil [simp]: "calls send now ev [] = []"
  by (simp add: calls_def)

lemma run_op_fields [simp]:
  "cn_sinks (run_op p nc) = cn_sinks nc" "cn_config (run_op p nc) = cn_config nc"
  "length (cn_breakers (run_op p nc)) = length (cn_breakers nc)"
  by (cases p; simp add: notify_partial_def notify_def Let_def test_at_def test_all_def
      drain_newly_opened_breakers_def get_at_def)+

lemma run_op_breakers:
  "cn_breakers (run_op p nc) = cn_breakers (note_outcomes (op_outcomes p nc) nc)"
  by (cases p)
     (auto simp: notify_partial_def notify_def Let_def test_at_def test_all_def
       drain_newly_opened_breakers_def get_at_def)

lemma breaker_step_run_op [simp]: "breaker_step (run_op p nc) = breaker_step nc"
  by (simp add: breaker_step_def [abs_def])

lemma run_ops_breaker:
  "i < length (cn_breakers nc) \<Longrightarrow>
   cn_breakers (run_ops ps nc) ! i
     = fold (breaker_step nc) (outcomes_of i (call_log ps nc)) (cn_breakers nc ! i)"
  by (induction ps arbitrary: nc) (simp_all add: run_op_breakers note_outcomes_breaker)

lemma run_ops_fields [simp]:
  "cn_sinks (run_ops ps nc) = cn_sinks nc" "cn_config (run_ops ps nc) = cn_config nc"
  "length (cn_breakers (run_ops ps nc)) = length (cn_breakers nc)"
  by (induction ps arbitrary: nc) simp_all

lemma fold_breaker_step:
  "fold (breaker_step nc) es breaker_new
     = breaker_after (bc_failure_threshold (cn_config nc)) (bc_cooldown (cn_config nc)) es"
proof -
  have "breaker_step nc = (\<lambda>e b. case e of (t, ok) \<Rightarrow> fst (breaker_record b t ok
      (bc_failure_threshold (cn_config nc)) (bc_cooldown (cn_config nc))))"
    by (auto simp: breaker_step_def fun_eq_iff)
  then show ?thesis by (simp add: breaker_after_def foldl_conv_fold)
qed

lemma with_breaker_config_simps [simp]:
  "cn_sinks (with_breaker_config sinks cfg) = sinks"
  "cn_breakers (with_breaker_config sinks cfg) = map (\<lambda>_. breaker_new) sinks"
  "cn_config (with_breaker_config sinks cfg) = cfg"
  "cn_newly_opened (with_breaker_config sinks cfg) = []"
  by (simp_all add: with_breaker_config_def)

section \<open>Properties\<close>

definition example_sinks :: "routed_sink list" where
  "example_sinks =
     [\<lparr>rs_kind = Slack, rs_name = ''team'', rs_tags = [''a'']\<rparr>,
      \<lparr>rs_kind = Apprise, rs_name = [], rs_tags = []\<rparr>]"

definition example_send :: "nat \<Rightarrow> event \<Rightarrow> reply" where
  "example_send i ev = (if i = 0 then (10, Some (Http ''refused'')) else (5, None))"

text \<open>
  C39: sinks are isolated.  After any sequence of partial deliveries, full deliveries, forced tests
  and drains from a fresh notifier, the breaker of each sink is the breaker of that sink's own
  call history and of nothing else: it lets a call through exactly when that history has not
  tripped it or its cooldown is over.  The sinks themselves never change.
\<close>

theorem sink_breakers_isolated:
  assumes "i < length sinks"
  shows "let nc = run_ops ps (with_breaker_config sinks cfg);
             h = outcomes_of i (call_log ps (with_breaker_config sinks cfg)) in
    cn_sinks nc = sinks
    \<and> cn_breakers nc ! i = breaker_after (bc_failure_threshold cfg) (bc_cooldown cfg) h
    \<and> sink_breaker_allows now nc i
        = (if tripped (bc_failure_threshold cfg) h then fst (last h) + bc_cooldown cfg \<le> now else True)"
proof -
  let ?nc = "with_breaker_config sinks cfg"
  let ?h = "outcomes_of i (call_log ps ?nc)"
  have b: "cn_breakers (run_ops ps ?nc) ! i
      = breaker_after (bc_failure_threshold cfg) (bc_cooldown cfg) ?h"
    using run_ops_breaker [of i ?nc ps] fold_breaker_step [of ?nc ?h] assms by simp
  have "sink_breaker_allows now (run_ops ps ?nc) i
      = breaker_allows (breaker_after (bc_failure_threshold cfg) (bc_cooldown cfg) ?h) now"
    using assms by (simp add: sink_breaker_allows_def get_at_def b)
  then show ?thesis
    by (simp add: Let_def b breaker_after_eq_spec breaker_allows_spec)
qed

definition example_calls :: "notifier_op list" where
  "example_calls =
     replicate 5 (Partial_op example_send 0 (example_event\<lparr>ev_routing_tag := Some ''a''\<rparr>) [0, 1])"

lemma example_log:
  "outcomes_of 0 (call_log example_calls (with_breaker_config example_sinks breaker_config_default))
     = replicate 5 (10, False)"
  by code_simp

theorem sink_breakers_isolated_witness:
  "cn_sinks (run_ops example_calls (with_breaker_config example_sinks breaker_config_default)) = example_sinks
   \<and> \<not> sink_breaker_allows 100
       (run_ops example_calls (with_breaker_config example_sinks breaker_config_default)) 0"
proof -
  have "0 < length example_sinks" by (simp add: example_sinks_def)
  note t = sink_breakers_isolated [OF this, of example_calls breaker_config_default 100,
      unfolded Let_def example_log]
  show ?thesis
    using t by (simp add: tripped_def failure_streak_def breaker_config_default_def
        DEFAULT_SINK_BREAKER_FAILURE_THRESHOLD_def DEFAULT_SINK_BREAKER_COOLDOWN_SECS_def)
qed

text \<open>
  partial delivery.  For distinct indices each listed sink gets exactly one result, in the
  order asked: an error when there is no such sink, success without a call when the event is not
  routed to it, a breaker error without a call while its breaker is open, and otherwise the answer
  of its call.  Only the breakers of called sinks change, by one outcome each, and the labels of
  exactly those that open are queued for the operators.
\<close>

theorem partial_delivery_exact:
  assumes "composite_ok nc" and "distinct idxs"
  shows "let (results, nc') = notify_partial send now ev idxs nc in
    results = map (\<lambda>i. (i,
      if length (cn_sinks nc) \<le> i then Some (out_of_range nc i)
      else if \<not> sink_matches (cn_sinks nc ! i) ev then None
      else if \<not> breaker_allows (cn_breakers nc ! i) now
        then Some (Breaker_open (rs_kind_str (cn_sinks nc ! i)))
      else snd (send i ev))) idxs
    \<and> cn_sinks nc' = cn_sinks nc \<and> cn_config nc' = cn_config nc
    \<and> cn_breakers nc' = map (\<lambda>i. if i \<in> set idxs \<and> called now nc ev i
        then breaker_step nc (now + fst (send i ev), snd (send i ev) = None) (cn_breakers nc ! i)
        else cn_breakers nc ! i) [0..<length (cn_breakers nc)]
    \<and> mset (cn_newly_opened nc') = mset (cn_newly_opened nc)
        + mset (map (label_at nc) (filter (\<lambda>i. called now nc ev i \<and>
            breaker_opens nc (now + fst (send i ev), i, snd (send i ev) = None)) idxs))"
proof -
  let ?R = "notify_partial send now ev idxs nc"
  have res: "fst ?R = map (\<lambda>i. (i,
      if length (cn_sinks nc) \<le> i then Some (out_of_range nc i)
      else if \<not> sink_matches (cn_sinks nc ! i) ev then None
      else if \<not> breaker_allows (cn_breakers nc ! i) now
        then Some (Breaker_open (rs_kind_str (cn_sinks nc ! i)))
      else snd (send i ev))) idxs"
    using assms(1)
    by (auto simp: notify_partial_def delivery_result_def get_at_def sink_breaker_allows_def
        composite_ok_def)
  have fields: "cn_sinks (snd ?R) = cn_sinks nc" "cn_config (snd ?R) = cn_config nc"
    "length (cn_breakers (snd ?R)) = length (cn_breakers nc)"
    by (simp_all add: notify_partial_def)
  have br: "cn_breakers (snd ?R) = map (\<lambda>i. if i \<in> set idxs \<and> called now nc ev i
        then breaker_step nc (now + fst (send i ev), snd (send i ev) = None) (cn_breakers nc ! i)
        else cn_breakers nc ! i) [0..<length (cn_breakers nc)]"
    by (rule nth_equalityI) (simp_all add: fields partial_breaker [OF assms(2)])
  show ?thesis
    unfolding split_def Let_def
    by (intro conjI res fields(1,2) br partial_opened [OF assms(2)])
qed

theorem partial_delivery_exact_witness:
  "let (results, nc') = notify_partial example_send 0 (example_event\<lparr>ev_routing_tag := Some ''a''\<rparr>) [1, 0, 7]
       (composite_new example_sinks) in
   map fst results = [1, 0, 7] \<and> cn_sinks nc' = example_sinks"
  using partial_delivery_exact [of "composite_new example_sinks" "[1, 0, 7]" example_send 0
      "example_event\<lparr>ev_routing_tag := Some ''a''\<rparr>"]
  by (auto simp: composite_ok_def composite_new_def comp_def)

definition sink_fails :: "(nat \<Rightarrow> event \<Rightarrow> reply) \<Rightarrow> instant \<Rightarrow> composite \<Rightarrow> event \<Rightarrow> nat \<Rightarrow> bool" where
  "sink_fails send now nc ev i \<longleftrightarrow>
     \<not> sink_breaker_allows now nc i \<or> snd (send i ev) \<noteq> None"

lemma map_filter_results:
  "List.map_filter (\<lambda>(i, r). case r of None \<Rightarrow> None | Some e \<Rightarrow> Some (f i e)) (map (\<lambda>i. (i, g i)) xs)
     = map (\<lambda>i. f i (the (g i))) (filter (\<lambda>i. g i \<noteq> None) xs)"
  by (induction xs) (auto simp: map_filter_simps)

lemma matching_indices_mem:
  "i \<in> set (matching_indices nc ev) \<longleftrightarrow>
     i < length (cn_sinks nc) \<and> sink_matches (cn_sinks nc ! i) ev"
  by (auto simp: matching_indices_def)

lemma failing_sinks:
  "filter (\<lambda>i. delivery_result send now nc ev i \<noteq> None) (matching_indices nc ev)
     = filter (sink_fails send now nc ev) (matching_indices nc ev)"
  by (rule filter_cong)
     (auto simp: matching_indices_mem delivery_result_def get_at_def sink_fails_def)

text \<open>
  full delivery.  A delivery to all matching sinks succeeds exactly when some sink matches and
  every matching sink's breaker is closed and its call succeeds; otherwise it reports that none
  matches, or how many of the matching sinks failed with the message of each in sink order.
\<close>

theorem notify_reports_failures:
  "fst (notify send now ev nc)
     = (let matching = matching_indices nc ev;
            failing = filter (sink_fails send now nc ev) matching in
        if matching = []
        then Some (Misconfigured (''no notifier matches team routing tag '' @ debug_tag (ev_routing_tag ev)))
        else if failing = [] then None
        else Some (Fan_out (length failing) (length matching) (join_with ''; ''
          (map (\<lambda>i. kind_at nc i @ '': '' @ show_notify_error (the (delivery_result send now nc ev i)))
            failing))))"
proof -
  let ?f = "\<lambda>i e. kind_at nc i @ '': '' @ show_notify_error e"
  have "List.map_filter (\<lambda>(i, r). case r of None \<Rightarrow> None | Some e \<Rightarrow> Some (?f i e))
      (fst (notify_partial send now ev (matching_indices nc ev) nc))
    = map (\<lambda>i. ?f i (the (delivery_result send now nc ev i)))
        (filter (sink_fails send now nc ev) (matching_indices nc ev))"
    unfolding notify_partial_def fst_conv map_filter_results failing_sinks ..
  then show ?thesis
    by (simp add: notify_def Let_def split_def)
qed

end
