(* ===== verification/Advisories.thy ===== *)
theory Advisories
  imports Seen_Store Organizations Breaker
begin

text \<open>
  Security advisories (\<^verbatim>\<open>src/src/advisory\<close>, \<^verbatim>\<open>src/src/config/advisories.rs\<close>,
  \<^verbatim>\<open>src/src/store/postgres/advisory.rs\<close> and the registries of \<^verbatim>\<open>src/src/sources/package.rs\<close>): package
  coordinates, the conversion of advisory records, rendering, the cached lookup with its breaker,
  and the tables of findings and checks.  The advisory service is the parameter \<open>osv\<close>: for an
  ecosystem, a package and a version it gives the time of the call and its answer, if any.
\<close>

section \<open>Severity and advisories\<close>

datatype severity = Low | Moderate | High | Critical

fun severity_rank :: "severity \<Rightarrow> nat" where
  "severity_rank Low = 0"
| "severity_rank Moderate = 1"
| "severity_rank High = 2"
| "severity_rank Critical = 3"

instantiation severity :: linorder
begin

definition less_eq_severity :: "severity \<Rightarrow> severity \<Rightarrow> bool" where
  "less_eq_severity a b \<longleftrightarrow> severity_rank a \<le> severity_rank b"

definition less_severity :: "severity \<Rightarrow> severity \<Rightarrow> bool" where
  "less_severity a b \<longleftrightarrow> severity_rank a < severity_rank b"

instance
proof
  fix x y z :: severity
  show "(x < y) = (x \<le> y \<and> \<not> y \<le> x)" by (auto simp: less_eq_severity_def less_severity_def)
  show "x \<le> x" by (simp add: less_eq_severity_def)
  show "x \<le> y \<Longrightarrow> y \<le> z \<Longrightarrow> x \<le> z" by (simp add: less_eq_severity_def)
  show "x \<le> y \<Longrightarrow> y \<le> x \<Longrightarrow> x = y"
    by (cases x; cases y) (simp_all add: less_eq_severity_def)
  show "x \<le> y \<or> y \<le> x" by (auto simp: less_eq_severity_def)
qed

end

definition ascii_upper_char :: "char \<Rightarrow> char" where
  "ascii_upper_char c = (if is_lower c then byte (code c - 32) else c)"

definition to_ascii_uppercase :: "string \<Rightarrow> string" where
  "to_ascii_uppercase s = map ascii_upper_char s"

definition severity_parse :: "string \<Rightarrow> severity option" where
  "severity_parse raw =
    (let label = to_ascii_uppercase (trim raw) in
     if label = ''LOW'' then Some Low
     else if label = ''MODERATE'' \<or> label = ''MEDIUM'' then Some Moderate
     else if label = ''HIGH'' then Some High
     else if label = ''CRITICAL'' then Some Critical
     else None)"

fun severity_str :: "severity \<Rightarrow> string" where
  "severity_str Low = ''low''"
| "severity_str Moderate = ''moderate''"
| "severity_str High = ''high''"
| "severity_str Critical = ''critical''"

record advisory =
  av_id :: string
  av_display_id :: string
  av_summary :: "string option"
  av_severity :: "severity option"
  av_cvss_vector :: "string option"
  av_url :: "string option"

definition max_severity :: "advisory list \<Rightarrow> severity option" where
  "max_severity as = max_by cmp_of (List.map_filter av_severity as)"

section \<open>Package coordinates\<close>

datatype package_registry =
  Pypi | Npm | Cargo | Maven | Nuget | Hex | Rubygems | Packagist | Yarn | Cpan

fun registry_kind :: "package_registry \<Rightarrow> string" where
  "registry_kind Pypi = ''pypi''"
| "registry_kind Npm = ''npm''"
| "registry_kind Cargo = ''cargo''"
| "registry_kind Maven = ''maven''"
| "registry_kind Nuget = ''nuget''"
| "registry_kind Hex = ''hex''"
| "registry_kind Rubygems = ''rubygems''"
| "registry_kind Packagist = ''packagist''"
| "registry_kind Yarn = ''yarn''"
| "registry_kind Cpan = ''cpan''"

fun registry_kind_label :: "package_registry \<Rightarrow> string" where
  "registry_kind_label Pypi = ''PyPI''"
| "registry_kind_label Npm = ''npm''"
| "registry_kind_label Cargo = ''crates.io''"
| "registry_kind_label Maven = ''Maven Central''"
| "registry_kind_label Nuget = ''NuGet''"
| "registry_kind_label Hex = ''Hex''"
| "registry_kind_label Rubygems = ''RubyGems''"
| "registry_kind_label Packagist = ''Packagist''"
| "registry_kind_label Yarn = ''Yarn''"
| "registry_kind_label Cpan = ''CPAN''"

definition all_registries :: "package_registry list" where
  "all_registries = [Pypi, Npm, Cargo, Maven, Nuget, Hex, Rubygems, Packagist, Yarn, Cpan]"

definition from_kind :: "string \<Rightarrow> package_registry option" where
  "from_kind kind = find (\<lambda>r. registry_kind r = kind) all_registries"

definition from_kind_label :: "string \<Rightarrow> package_registry option" where
  "from_kind_label label = find (\<lambda>r. registry_kind_label r = label) all_registries"

fun ecosystem_for_registry :: "package_registry \<Rightarrow> string option" where
  "ecosystem_for_registry Pypi = Some ''PyPI''"
| "ecosystem_for_registry Npm = Some ''npm''"
| "ecosystem_for_registry Yarn = Some ''npm''"
| "ecosystem_for_registry Cargo = Some ''crates.io''"
| "ecosystem_for_registry Maven = Some ''Maven''"
| "ecosystem_for_registry Nuget = Some ''NuGet''"
| "ecosystem_for_registry Hex = Some ''Hex''"
| "ecosystem_for_registry Rubygems = Some ''RubyGems''"
| "ecosystem_for_registry Packagist = Some ''Packagist''"
| "ecosystem_for_registry Cpan = None"

definition bare_id :: "string \<Rightarrow> string" where
  "bare_id source_id =
    (case split_once ORGANIZATION_SEP source_id of None \<Rightarrow> source_id | Some (_, rest) \<Rightarrow> rest)"

definition coordinate_from_source_id :: "string \<Rightarrow> (package_registry \<times> string) option" where
  "coordinate_from_source_id source_id =
    (case split_once '':'' (bare_id source_id) of
       None \<Rightarrow> None
     | Some (kind, name) \<Rightarrow>
         (case from_kind kind of
            None \<Rightarrow> None
          | Some registry \<Rightarrow> if trim name = [] then None else Some (registry, trim name)))"

definition legacy_shared_package_name :: "string \<Rightarrow> string option" where
  "legacy_shared_package_name source_id =
    (case strip_prefix ''package:'' (bare_id source_id) of
       None \<Rightarrow> None
     | Some name \<Rightarrow> if name = [] then None else Some name)"

definition coordinate_from_source :: "string \<Rightarrow> string \<Rightarrow> string \<Rightarrow> (package_registry \<times> string) option" where
  "coordinate_from_source source_id kind package_name =
    (let name_hint = trim package_name in
     case coordinate_from_source_id source_id of
       Some (registry, name_from_id) \<Rightarrow>
         let name = (if name_hint = [] then name_from_id else name_hint) in
         if name = [] then None else Some (registry, name)
     | None \<Rightarrow>
         (case (case from_kind kind of Some r \<Rightarrow> Some r | None \<Rightarrow> from_kind_label kind) of
            None \<Rightarrow> None
          | Some registry \<Rightarrow>
              (case (if name_hint = [] then legacy_shared_package_name source_id else Some name_hint) of
                 None \<Rightarrow> None
               | Some name \<Rightarrow> if name = [] then None else Some (registry, name))))"

section \<open>Records of the advisory service\<close>

record osv_vuln =
  ov_id :: string
  ov_summary :: "string option"
  ov_details :: "string option"
  ov_aliases :: "string list"
  ov_scores :: "string option list"
  ov_severity_label :: "string option"
  ov_withdrawn :: "string option"

definition osv_is_active :: "osv_vuln \<Rightarrow> bool" where
  "osv_is_active v = (case ov_withdrawn v of None \<Rightarrow> True | Some w \<Rightarrow> trim w = [])"

text \<open>\<^verbatim>\<open>u8::from_str\<close>: an optional plus sign, digits, at most 255.\<close>

definition parse_u8 :: "string \<Rightarrow> nat option" where
  "parse_u8 s =
    (let ds = (case s of [] \<Rightarrow> [] | c # cs \<Rightarrow> if c = CHR ''+'' then cs else s) in
     if ds = [] \<or> \<not> list_all is_digit ds \<or> 255 < digits_value ds then None else Some (digits_value ds))"

definition cvss_major_version :: "string \<Rightarrow> nat" where
  "cvss_major_version vector =
    (case strip_prefix ''CVSS:'' vector of
       None \<Rightarrow> 0
     | Some rest \<Rightarrow>
         (case parse_u8 (hd (split_by (\<lambda>c. c = CHR ''.'' \<or> c = CHR ''/'') rest)) of
            None \<Rightarrow> 0 | Some n \<Rightarrow> n))"

definition best_cvss_vector :: "string option list \<Rightarrow> string option" where
  "best_cvss_vector scores =
     max_by (\<lambda>a b. cmp_of (cvss_major_version a) (cvss_major_version b))
       (filter (prefix ''CVSS:'') (List.map_filter id scores))"

definition MAX_SUMMARY_CHARS :: nat where
  "MAX_SUMMARY_CHARS = 240"

definition ellipsis :: string where
  "ellipsis = [byte 226, byte 128, byte 166]"

fun take_chars :: "nat \<Rightarrow> string \<Rightarrow> string" where
  "take_chars n [] = []"
| "take_chars n (c # cs) =
    (if is_continuation c then c # take_chars n cs
     else case n of 0 \<Rightarrow> [] | Suc k \<Rightarrow> c # take_chars k cs)"

definition is_markdown_furniture :: "string \<Rightarrow> bool" where
  "is_markdown_furniture line \<longleftrightarrow>
     prefix ''#'' line \<or> (3 \<le> length line \<and> list_all (\<lambda>c. c \<in> set ''-*_ '') line)"

definition first_line :: "string \<Rightarrow> string" where
  "first_line text =
    (let line = (case find (\<lambda>l. l \<noteq> [] \<and> \<not> is_markdown_furniture l)
                   (map trim (split_by (\<lambda>c. c = byte 10) text)) of
                 None \<Rightarrow> [] | Some l \<Rightarrow> l) in
     if MAX_SUMMARY_CHARS < char_count line then take_chars MAX_SUMMARY_CHARS line @ ellipsis
     else line)"

definition into_advisory :: "osv_vuln \<Rightarrow> advisory" where
  "into_advisory v =
    \<lparr>av_id = ov_id v,
     av_display_id = (case find (prefix ''CVE-'') (ov_aliases v) of None \<Rightarrow> ov_id v | Some a \<Rightarrow> a),
     av_summary = (case (case ov_summary v of None \<Rightarrow> ov_details v | s \<Rightarrow> s) of
         None \<Rightarrow> None
       | Some text \<Rightarrow> if first_line text = [] then None else Some (first_line text)),
     av_severity = (case ov_severity_label v of None \<Rightarrow> None | Some l \<Rightarrow> severity_parse l),
     av_cvss_vector = best_cvss_vector (ov_scores v),
     av_url = Some (''https://osv.dev/vulnerability/'' @ ov_id v)\<rparr>"

definition osv_advisories :: "osv_vuln list \<Rightarrow> advisory list" where
  "osv_advisories vulns = map into_advisory (filter osv_is_active vulns)"

section \<open>Rendering\<close>

definition MAX_RENDERED_ADVISORIES :: nat where
  "MAX_RENDERED_ADVISORIES = 8"

definition nl :: string where
  "nl = [byte 10]"

definition dash :: string where
  "dash = '' '' @ [byte 226, byte 128, byte 148] @ '' ''"

definition render_advisory :: "advisory \<Rightarrow> string" where
  "render_advisory a =
     nl @ ''- **'' @ av_display_id a @ ''**''
     @ (case av_severity a of None \<Rightarrow> [] | Some s \<Rightarrow> '' ('' @ severity_str s @ '')'')
     @ (case av_summary a of None \<Rightarrow> [] | Some s \<Rightarrow> dash @ s)
     @ (case av_severity a of
          None \<Rightarrow> (case av_cvss_vector a of None \<Rightarrow> [] | Some v \<Rightarrow> dash @ [byte 96] @ v @ [byte 96])
        | Some _ \<Rightarrow> [])
     @ (case av_url a of None \<Rightarrow> [] | Some u \<Rightarrow> nl @ ''  '' @ u)"

definition render_markdown :: "advisory list \<Rightarrow> string" where
  "render_markdown as =
    (if as = [] then []
     else nl @ nl @ ''---'' @ nl @ ''**Security advisories** ('' @ show_nat (length as)
       @ (case max_severity as of None \<Rightarrow> [] | Some m \<Rightarrow> '', highest: '' @ severity_str m)
       @ '')'' @ nl
       @ concat (map render_advisory (take MAX_RENDERED_ADVISORIES as))
       @ (let omitted = length as - MAX_RENDERED_ADVISORIES in
          if 0 < omitted then nl @ ''- '' @ ellipsis @ ''and '' @ show_nat omitted @ '' more'' else []))"

section \<open>Configuration\<close>

record advisory_config =
  ac_enabled :: bool
  ac_endpoint :: string
  ac_timeout_secs :: nat
  ac_cache_ttl_secs :: nat
  ac_breaker_threshold :: "32 word"
  ac_breaker_cooldown_secs :: nat
  ac_sweep_interval_secs :: nat
  ac_sweep_batch :: nat

definition advisory_config_default :: advisory_config where
  "advisory_config_default =
    \<lparr>ac_enabled = False, ac_endpoint = ''https://api.osv.dev'', ac_timeout_secs = 5,
     ac_cache_ttl_secs = 3600, ac_breaker_threshold = 5, ac_breaker_cooldown_secs = 300,
     ac_sweep_interval_secs = 3600, ac_sweep_batch = 10\<rparr>"

definition advisory_active :: "advisory_config \<Rightarrow> bool" where
  "advisory_active c \<longleftrightarrow> ac_enabled c \<and> trim (ac_endpoint c) \<noteq> []"

fun drop_trailing_slashes :: "string \<Rightarrow> string" where
  "drop_trailing_slashes s = rev (dropWhile (\<lambda>c. c = CHR ''/'') (rev s))"

definition endpoint_base :: "advisory_config \<Rightarrow> string" where
  "endpoint_base c = drop_trailing_slashes (trim (ac_endpoint c))"

definition sweep_active :: "advisory_config \<Rightarrow> bool" where
  "sweep_active c \<longleftrightarrow> advisory_active c \<and> 0 < ac_sweep_interval_secs c \<and> 0 < ac_sweep_batch c"

definition sweep_interval :: "advisory_config \<Rightarrow> nat option" where
  "sweep_interval c = (if sweep_active c then Some (ac_sweep_interval_secs c) else None)"

definition lookup_timeout :: "advisory_config \<Rightarrow> duration" where
  "lookup_timeout c = max (ac_timeout_secs c) 1 * 1000"

definition advisory_breaker_threshold :: "advisory_config \<Rightarrow> 32 word" where
  "advisory_breaker_threshold c = max (ac_breaker_threshold c) 1"

section \<open>The cached lookup\<close>

type_synonym cache_key = "string \<times> string \<times> string"

record cache_entry =
  ce_advisories :: "advisory list"
  ce_stored_at :: instant

record lookup_state =
  ls_cache :: "(cache_key \<times> cache_entry) list"
  ls_breaker :: breaker

record lookup_outcome =
  lo_advisories :: "advisory list"
  lo_verified :: bool

definition outcome_default :: lookup_outcome where
  "outcome_default = \<lparr>lo_advisories = [], lo_verified = False\<rparr>"

definition from_verified_answer :: "advisory list \<Rightarrow> lookup_outcome" where
  "from_verified_answer as = \<lparr>lo_advisories = as, lo_verified = True\<rparr>"

definition lookup_new :: lookup_state where
  "lookup_new = \<lparr>ls_cache = [], ls_breaker = breaker_new\<rparr>"

definition CACHE_MAX_ENTRIES :: nat where
  "CACHE_MAX_ENTRIES = 4096"

definition entry_fresh :: "advisory_config \<Rightarrow> instant \<Rightarrow> cache_entry \<Rightarrow> bool" where
  "entry_fresh c now e \<longleftrightarrow> now - ce_stored_at e < ac_cache_ttl_secs c * 1000"

definition cached :: "advisory_config \<Rightarrow> instant \<Rightarrow> cache_key \<Rightarrow> lookup_state \<Rightarrow> advisory list option" where
  "cached c now key st =
    (if ac_cache_ttl_secs c = 0 then None
     else case map_of (ls_cache st) key of
         None \<Rightarrow> None
       | Some e \<Rightarrow> if entry_fresh c now e then Some (ce_advisories e) else None)"

definition cache_insert :: "cache_key \<Rightarrow> cache_entry \<Rightarrow> (cache_key \<times> cache_entry) list
    \<Rightarrow> (cache_key \<times> cache_entry) list" where
  "cache_insert key e cache = (key, e) # filter (\<lambda>p. fst p \<noteq> key) cache"

definition make_room :: "advisory_config \<Rightarrow> instant \<Rightarrow> (cache_key \<times> cache_entry) list
    \<Rightarrow> (cache_key \<times> cache_entry) list" where
  "make_room c now cache =
    (if CACHE_MAX_ENTRIES \<le> length cache then
       let kept = filter (\<lambda>p. entry_fresh c now (snd p)) cache in
       if CACHE_MAX_ENTRIES \<le> length kept then [] else kept
     else cache)"

definition record_success ::
  "advisory_config \<Rightarrow> instant \<Rightarrow> cache_key \<Rightarrow> advisory list \<Rightarrow> lookup_state \<Rightarrow> lookup_state" where
  "record_success c now key as st =
    (let st1 = st\<lparr>ls_breaker := fst (breaker_record (ls_breaker st) now True 0 0)\<rparr> in
     if ac_cache_ttl_secs c = 0 then st1
     else st1\<lparr>ls_cache := cache_insert key \<lparr>ce_advisories = as, ce_stored_at = now\<rparr>
                (make_room c now (ls_cache st1))\<rparr>)"

definition record_failure :: "advisory_config \<Rightarrow> instant \<Rightarrow> lookup_state \<Rightarrow> lookup_state" where
  "record_failure c now st =
     st\<lparr>ls_breaker := fst (breaker_record (ls_breaker st) now False
         (advisory_breaker_threshold c) (ac_breaker_cooldown_secs c * 1000))\<rparr>"

type_synonym osv_service = "string \<Rightarrow> string \<Rightarrow> string \<Rightarrow> duration \<times> osv_vuln list option"

definition lookup_key :: "package_registry \<Rightarrow> string \<Rightarrow> string \<Rightarrow> cache_key option" where
  "lookup_key registry name version =
    (case ecosystem_for_registry registry of
       None \<Rightarrow> None
     | Some ecosystem \<Rightarrow>
         if trim name = [] \<or> trim version = [] then None
         else Some (ecosystem, trim name, trim version))"

text \<open>The result of a lookup, the state after it, and the time at which it returns.\<close>

definition lookup ::
  "osv_service \<Rightarrow> advisory_config \<Rightarrow> instant \<Rightarrow> package_registry \<Rightarrow> string \<Rightarrow> string \<Rightarrow> lookup_state
   \<Rightarrow> lookup_outcome \<times> lookup_state \<times> instant" where
  "lookup osv c now registry name version st =
    (if \<not> advisory_active c then (outcome_default, st, now)
     else case lookup_key registry name version of
         None \<Rightarrow> (outcome_default, st, now)
       | Some key \<Rightarrow>
           (case cached c now key st of
              Some hit \<Rightarrow> (from_verified_answer hit, st, now)
            | None \<Rightarrow>
                if \<not> breaker_allows (ls_breaker st) now then (outcome_default, st, now)
                else
                  (case osv (fst key) (fst (snd key)) (snd (snd key)) of
                     (dur, Some vulns) \<Rightarrow>
                       (from_verified_answer (osv_advisories vulns),
                        record_success c (now + dur) key (osv_advisories vulns) st, now + dur)
                   | (dur, None) \<Rightarrow> (outcome_default, record_failure c (now + dur) st, now + dur))))"

section \<open>Tables\<close>

definition advisory_row_of :: "timestamp \<Rightarrow> string \<Rightarrow> string \<Rightarrow> string \<Rightarrow> advisory \<Rightarrow> advisory_row" where
  "advisory_row_of now eco pkg ver a =
    \<lparr>ra_ecosystem = eco, ra_package = pkg, ra_version = ver, ra_advisory_id = av_id a,
     ra_display_id = av_display_id a, ra_summary = av_summary a,
     ra_severity = map_option severity_str (av_severity a), ra_cvss_vector = av_cvss_vector a,
     ra_url = av_url a, ra_fetched_at = now\<rparr>"

definition upsert_advisory ::
  "timestamp \<Rightarrow> string \<Rightarrow> string \<Rightarrow> string \<Rightarrow> advisory \<Rightarrow> advisory_row list \<Rightarrow> advisory_row list" where
  "upsert_advisory now eco pkg ver a =
     upsert_row advisory_key (advisory_row_of now eco pkg ver a)
       (\<lambda>r. advisory_row_of now eco pkg ver a)"

definition record_advisories ::
  "timestamp \<Rightarrow> string \<Rightarrow> string \<Rightarrow> string \<Rightarrow> advisory list \<Rightarrow> db \<Rightarrow> db" where
  "record_advisories now eco pkg ver as d =
     d\<lparr>db_advisories := fold (upsert_advisory now eco pkg ver) as
        (filter (\<lambda>r. advisory_coord r \<noteq> (eco, pkg, ver)) (db_advisories d))\<rparr>"

definition advisory_of_row :: "advisory_row \<Rightarrow> advisory" where
  "advisory_of_row r =
    \<lparr>av_id = ra_advisory_id r, av_display_id = ra_display_id r, av_summary = ra_summary r,
     av_severity = (case ra_severity r of None \<Rightarrow> None | Some s \<Rightarrow> severity_parse s),
     av_cvss_vector = ra_cvss_vector r, av_url = ra_url r\<rparr>"

definition advisories_for_versions ::
  "db \<Rightarrow> string \<Rightarrow> string \<Rightarrow> string list \<Rightarrow> string \<Rightarrow> advisory list option" where
  "advisories_for_versions d eco pkg versions v =
    (let rows = filter (\<lambda>r. advisory_coord r = (eco, pkg, v) \<and> ra_version r \<in> set versions) (db_advisories d)
     in if rows = [] then None else Some (map advisory_of_row (sort_key ra_advisory_id rows)))"

definition record_advisory_check :: "timestamp \<Rightarrow> string \<Rightarrow> string \<Rightarrow> string \<Rightarrow> db \<Rightarrow> db" where
  "record_advisory_check now eco pkg ver d =
    (let row = \<lparr>ck_ecosystem = eco, ck_package = pkg, ck_version = ver, ck_checked_at = now\<rparr> in
     d\<lparr>db_checks := upsert_row check_key row (\<lambda>r. r\<lparr>ck_checked_at := now\<rparr>) (db_checks d)\<rparr>)"

definition is_checked :: "db \<Rightarrow> string \<Rightarrow> string \<Rightarrow> string \<Rightarrow> bool" where
  "is_checked d eco pkg ver \<longleftrightarrow> (eco, pkg, ver) \<in> set (map check_key (db_checks d))"

definition unchecked_rows :: "db \<Rightarrow> string \<Rightarrow> string \<Rightarrow> string \<Rightarrow> seen_row list" where
  "unchecked_rows d source_id eco pkg =
     filter (\<lambda>r. sr_source_id r = source_id \<and> \<not> is_checked d eco pkg (sr_identity r)) (db_seen d)"

definition newest_discovered :: "seen_row \<Rightarrow> seen_row \<Rightarrow> ordering" where
  "newest_discovered a b = cmp_of (sr_first_seen_at b, sr_identity b) (sr_first_seen_at a, sr_identity a)"

definition unchecked_seen_versions :: "db \<Rightarrow> string \<Rightarrow> string \<Rightarrow> string \<Rightarrow> nat \<Rightarrow> string list" where
  "unchecked_seen_versions d source_id eco pkg limit =
    (if limit = 0 then []
     else map sr_identity (take limit (sort_by newest_discovered (unchecked_rows d source_id eco pkg))))"

definition checked_versions :: "db \<Rightarrow> string \<Rightarrow> string \<Rightarrow> string list \<Rightarrow> string set" where
  "checked_versions d eco pkg versions =
     set (map ck_version (filter (\<lambda>r. ck_ecosystem r = eco \<and> ck_package r = pkg
       \<and> ck_version r \<in> set versions) (db_checks d)))"


section \<open>Lemmas\<close>

lemma severity_parse_labels [simp]:
  "severity_parse ''low'' = Some Low" "severity_parse ''moderate'' = Some Moderate"
  "severity_parse ''high'' = Some High" "severity_parse ''critical'' = Some Critical"
  by code_simp+

lemma severity_parse_str [simp]: "severity_parse (severity_str s) = Some s"
  by (cases s) simp_all

lemma upsert_advisory_new:
  "advisory_key (advisory_row_of now eco pkg ver a) \<notin> advisory_key ` set rows \<Longrightarrow>
   upsert_advisory now eco pkg ver a rows = rows @ [advisory_row_of now eco pkg ver a]"
  by (simp add: upsert_advisory_def upsert_row_def)

lemma advisory_key_row [simp]: "advisory_key (advisory_row_of now eco pkg ver a) = (eco, pkg, ver, av_id a)"
  by (simp add: advisory_key_def advisory_row_of_def)

lemma fold_upsert_advisory:
  "distinct (map av_id as) \<Longrightarrow> (\<forall>a\<in>set as. (eco, pkg, ver, av_id a) \<notin> advisory_key ` set rows) \<Longrightarrow>
   fold (upsert_advisory now eco pkg ver) as rows = rows @ map (advisory_row_of now eco pkg ver) as"
proof (induction as arbitrary: rows)
  case (Cons a as)
  have "fold (upsert_advisory now eco pkg ver) as (rows @ [advisory_row_of now eco pkg ver a])
      = (rows @ [advisory_row_of now eco pkg ver a]) @ map (advisory_row_of now eco pkg ver) as"
    using Cons.prems by (intro Cons.IH) (auto simp: image_iff)
  then show ?case using Cons.prems by (simp add: upsert_advisory_new)
qed simp

lemma upsert_advisory_distinct:
  "distinct (map advisory_key rows) \<Longrightarrow> distinct (map advisory_key (upsert_advisory now eco pkg ver a rows))"
  unfolding upsert_advisory_def by (rule upsert_distinct) (auto simp del: set_map)

lemma fold_upsert_distinct:
  "distinct (map advisory_key rows) \<Longrightarrow>
   distinct (map advisory_key (fold (upsert_advisory now eco pkg ver) as rows))"
  by (induction as arbitrary: rows) (simp_all add: upsert_advisory_distinct)

lemma record_advisories_ok [db_keeps]:
  "db_ok d \<Longrightarrow> db_ok (record_advisories now eco pkg ver as d)"
  unfolding record_advisories_def
  by (intro db_ok_advisories fold_upsert_distinct distinct_map_filter) (simp_all add: db_ok_def)

lemma check_key_simp [simp]:
  "check_key \<lparr>ck_ecosystem = e, ck_package = p, ck_version = v, ck_checked_at = t\<rparr> = (e, p, v)"
  by (simp add: check_key_def)

lemma check_key_update [simp]: "check_key (r\<lparr>ck_checked_at := t\<rparr>) = check_key r"
  by (simp add: check_key_def)

lemma record_advisory_check_ok [db_keeps]:
  "db_ok d \<Longrightarrow> db_ok (record_advisory_check now eco pkg ver d)"
  unfolding record_advisory_check_def Let_def
  by (intro db_ok_checks upsert_distinct) (simp_all add: db_ok_def)

lemma is_checked_record:
  "is_checked (record_advisory_check now eco pkg ver d) e p v
     \<longleftrightarrow> (e, p, v) = (eco, pkg, ver) \<or> is_checked d e p v"
  unfolding is_checked_def record_advisory_check_def Let_def
  by (subst db.select_convs | simp add: upsert_mem del: set_map)+

lemma record_check_seen [simp]: "db_seen (record_advisory_check now eco pkg ver d) = db_seen d"
  by (simp add: record_advisory_check_def Let_def)

lemma coord_row [simp]: "advisory_coord (advisory_row_of now eco pkg ver a) = (eco, pkg, ver)"
  by (simp add: advisory_coord_def advisory_row_of_def)

lemma ra_version_row [simp]: "ra_version (advisory_row_of now eco pkg ver a) = ver"
  by (simp add: advisory_row_of_def)

lemma ra_id_row [simp]: "ra_advisory_id (advisory_row_of now eco pkg ver a) = av_id a"
  by (simp add: advisory_row_of_def)

lemma advisory_of_row_of [simp]: "advisory_of_row (advisory_row_of now eco pkg ver a) = a"
  by (cases "av_severity a") (simp_all add: advisory_of_row_def advisory_row_of_def)

lemma sort_key_map: "sort_key f (map g xs) = map g (sort_key (\<lambda>x. f (g x)) xs)"
proof -
  have ins: "insort_key f (g x) (map g ys) = map g (insort_key (\<lambda>x. f (g x)) x ys)" for x ys
    by (induction ys) auto
  show ?thesis by (induction xs) (auto simp: ins)
qed

lemma record_advisories_rows:
  "distinct (map av_id as) \<Longrightarrow> db_advisories (record_advisories now eco pkg ver as d)
     = filter (\<lambda>r. advisory_coord r \<noteq> (eco, pkg, ver)) (db_advisories d)
       @ map (advisory_row_of now eco pkg ver) as"
  by (simp add: record_advisories_def fold_upsert_advisory advisory_key_def advisory_coord_def image_iff)

lemma unchecked_after_checks:
  "unchecked_rows (fold (record_advisory_check now eco pkg) vs d) source_id eco pkg
     = filter (\<lambda>r. sr_identity r \<notin> set vs) (unchecked_rows d source_id eco pkg)"
proof (induction vs arbitrary: d)
  case (Cons v vs)
  have "unchecked_rows (record_advisory_check now eco pkg v d) source_id eco pkg
      = filter (\<lambda>r. sr_identity r \<noteq> v) (unchecked_rows d source_id eco pkg)"
    by (auto simp: unchecked_rows_def is_checked_record intro: filter_cong)
  then show ?case by (simp add: Cons.IH conj_commute)
qed (simp add: filter_True)

interpretation cvss_versions:
  comparator "\<lambda>a b. cmp_of (cvss_major_version a) (cvss_major_version b)" "\<lambda>_. True"
  by unfold_locales (auto simp: cmp_of_def split: if_splits)

section \<open>The lookup over time\<close>

text \<open>
  The answers the service really gave: a lookup that reaches the network and succeeds adds the key,
  the advisories and the time.
\<close>

type_synonym answer = "cache_key \<times> advisory list \<times> instant"

definition asks :: "advisory_config \<Rightarrow> instant \<Rightarrow> package_registry \<Rightarrow> string \<Rightarrow> string \<Rightarrow> lookup_state
    \<Rightarrow> cache_key option" where
  "asks c now registry name version st =
    (if \<not> advisory_active c then None
     else case lookup_key registry name version of
         None \<Rightarrow> None
       | Some key \<Rightarrow>
           if cached c now key st = None \<and> breaker_allows (ls_breaker st) now then Some key else None)"

definition new_answers ::
  "osv_service \<Rightarrow> advisory_config \<Rightarrow> instant \<Rightarrow> package_registry \<Rightarrow> string \<Rightarrow> string \<Rightarrow> lookup_state
   \<Rightarrow> answer list" where
  "new_answers osv c now registry name version st =
    (case asks c now registry name version st of
       None \<Rightarrow> []
     | Some key \<Rightarrow>
         (case osv (fst key) (fst (snd key)) (snd (snd key)) of
            (dur, Some vulns) \<Rightarrow> [(key, osv_advisories vulns, now + dur)]
          | (dur, None) \<Rightarrow> []))"

inductive lookup_run :: "advisory_config \<Rightarrow> answer list \<Rightarrow> lookup_state \<Rightarrow> bool" for c where
  run_start: "lookup_run c [] lookup_new"
| run_lookup: "lookup_run c log st \<Longrightarrow> lookup osv c now registry name version st = (out, st', t) \<Longrightarrow>
    lookup_run c (log @ new_answers osv c now registry name version st) st'"

inductive_cases lookup_runE: "lookup_run c log st"

definition cache_sound :: "answer list \<Rightarrow> lookup_state \<Rightarrow> bool" where
  "cache_sound log st \<longleftrightarrow>
     length (ls_cache st) \<le> CACHE_MAX_ENTRIES
     \<and> list_all (\<lambda>(k, e). (k, ce_advisories e, ce_stored_at e) \<in> set log) (ls_cache st)"

lemma make_room_length: "length cache \<le> CACHE_MAX_ENTRIES \<Longrightarrow> length (make_room c now cache) < CACHE_MAX_ENTRIES"
  by (auto simp: make_room_def Let_def CACHE_MAX_ENTRIES_def)

lemma make_room_subset: "set (make_room c now cache) \<subseteq> set cache"
  by (auto simp: make_room_def Let_def)

lemma record_success_sound:
  assumes "cache_sound log st"
  shows "cache_sound (log @ [(key, as, now)]) (record_success c now key as st)"
proof (cases "ac_cache_ttl_secs c = 0")
  case True
  then show ?thesis using assms by (auto simp: cache_sound_def record_success_def Let_def list_all_iff)
next
  case False
  let ?room = "make_room c now (ls_cache st)"
  have "length (ls_cache st) \<le> CACHE_MAX_ENTRIES" using assms by (simp add: cache_sound_def)
  then have "length (filter (\<lambda>p. fst p \<noteq> key) ?room) < CACHE_MAX_ENTRIES"
    by (rule le_less_trans [OF length_filter_le make_room_length])
  then show ?thesis
    using assms make_room_subset [of c now "ls_cache st"] False
    by (fastforce simp: cache_sound_def record_success_def Let_def cache_insert_def list_all_iff)
qed

lemma cache_sound_mono: "cache_sound log st \<Longrightarrow> cache_sound (log @ later) st"
  by (auto simp: cache_sound_def list_all_iff)

lemma cache_sound_failure: "cache_sound log (record_failure c now st) = cache_sound log st"
  by (simp add: cache_sound_def record_failure_def)

lemma lookup_sound:
  assumes "cache_sound log st" and "lookup osv c now registry name version st = (out, st', t)"
  shows "cache_sound (log @ new_answers osv c now registry name version st) st'"
  using assms
  by (auto simp: lookup_def new_answers_def asks_def record_success_sound cache_sound_failure
      split: option.splits if_splits prod.splits)

lemma lookup_run_sound: "lookup_run c log st \<Longrightarrow> cache_sound log st"
proof (induction rule: lookup_run.induct)
  case run_start
  then show ?case by (simp add: cache_sound_def lookup_new_def CACHE_MAX_ENTRIES_def)
next
  case (run_lookup log st osv now registry name version out st' t)
  then show ?case by (simp add: lookup_sound)
qed

lemma cached_sound:
  assumes "cache_sound log st" and "cached c now key st = Some as"
  obtains t where "(key, as, t) \<in> set log" "now - t < ac_cache_ttl_secs c * 1000"
  using assms
  by (auto simp: cached_def cache_sound_def list_all_iff entry_fresh_def
      dest!: map_of_SomeD split: option.splits if_splits)

definition example_osv :: osv_service where
  "example_osv eco pkg ver = (20, Some [\<lparr>ov_id = ''GHSA-1'', ov_summary = Some ''bad'', ov_details = None,
     ov_aliases = [''CVE-1''], ov_scores = [], ov_severity_label = Some ''HIGH'', ov_withdrawn = None\<rparr>])"

definition example_advisory_config :: advisory_config where
  "example_advisory_config = advisory_config_default\<lparr>ac_enabled := True\<rparr>"

section \<open>Properties\<close>

text \<open>
  verified answers are real.  Whatever lookups came before, a verified outcome carries either
  the answer the service gave just now or one it gave for the same coordinate within the cache's
  lifetime; an unverified outcome carries nothing, and the cache never exceeds its bound.  A
  lookup reaches the service only when enrichment is active, the registry has an ecosystem and
  name and version are not blank.
\<close>

theorem lookup_answers_real:
  assumes "lookup_run c log st"
    and "lookup osv c now registry name version st = (out, st', t)"
  shows "(lo_verified out \<longrightarrow> advisory_active c \<and> (\<exists>key. lookup_key registry name version = Some key \<and>
       ((key, lo_advisories out, t) \<in> set (new_answers osv c now registry name version st) \<or>
        (\<exists>t0. (key, lo_advisories out, t0) \<in> set log \<and> now - t0 < ac_cache_ttl_secs c * 1000))))
    \<and> (\<not> lo_verified out \<longrightarrow> lo_advisories out = [])
    \<and> length (ls_cache st') \<le> CACHE_MAX_ENTRIES
    \<and> (new_answers osv c now registry name version st \<noteq> [] \<longrightarrow>
        advisory_active c \<and> ecosystem_for_registry registry \<noteq> None \<and> trim name \<noteq> [] \<and> trim version \<noteq> [])"
proof -
  have sound: "cache_sound log st" using assms(1) by (rule lookup_run_sound)
  have "cache_sound (log @ new_answers osv c now registry name version st) st'"
    using sound assms(2) by (rule lookup_sound)
  then have bound: "length (ls_cache st') \<le> CACHE_MAX_ENTRIES" by (simp add: cache_sound_def)
  have real: "advisory_active c \<and> (\<exists>key. lookup_key registry name version = Some key \<and>
       ((key, lo_advisories out, t) \<in> set (new_answers osv c now registry name version st) \<or>
        (\<exists>t0. (key, lo_advisories out, t0) \<in> set log \<and> now - t0 < ac_cache_ttl_secs c * 1000)))"
    if "lo_verified out"
  proof (cases "\<exists>key as. lookup_key registry name version = Some key \<and> cached c now key st = Some as")
    case True
    then obtain key as where k: "lookup_key registry name version = Some key" "cached c now key st = Some as"
      by blast
    obtain t0 where "(key, as, t0) \<in> set log" "now - t0 < ac_cache_ttl_secs c * 1000"
      using cached_sound [OF sound k(2)] .
    then show ?thesis using assms(2) that k
      by (auto simp: lookup_def outcome_default_def from_verified_answer_def split: if_splits)
  next
    case False
    then show ?thesis using assms(2) that
      by (auto simp: lookup_def outcome_default_def from_verified_answer_def new_answers_def asks_def
          split: if_splits option.splits prod.splits)
  qed
  have none: "\<not> lo_verified out \<Longrightarrow> lo_advisories out = []"
    using assms(2)
    by (auto simp: lookup_def outcome_default_def from_verified_answer_def
        split: if_splits option.splits prod.splits)
  have asked: "new_answers osv c now registry name version st \<noteq> [] \<Longrightarrow>
      advisory_active c \<and> ecosystem_for_registry registry \<noteq> None \<and> trim name \<noteq> [] \<and> trim version \<noteq> []"
    by (auto simp: new_answers_def asks_def lookup_key_def split: if_splits option.splits)
  show ?thesis using real none bound asked by blast
qed

lemma example_lookup:
  "lookup example_osv example_advisory_config 5 Npm '' axios'' ''1.0'' lookup_new
     = (from_verified_answer (osv_advisories (the (snd (example_osv ''npm'' ''axios'' ''1.0'')))),
        record_success example_advisory_config 25 (''npm'', ''axios'', ''1.0'')
          (osv_advisories (the (snd (example_osv ''npm'' ''axios'' ''1.0'')))) lookup_new, 25)"
proof -
  have "lookup_key Npm '' axios'' ''1.0'' = Some (''npm'', ''axios'', ''1.0'')" by code_simp
  moreover have "advisory_active example_advisory_config" by code_simp
  ultimately show ?thesis
    by (simp add: lookup_def cached_def lookup_new_def breaker_allows_def breaker_new_def
        example_osv_def)
qed

theorem lookup_answers_real_witness:
  "\<exists>key. lookup_key Npm '' axios'' ''1.0'' = Some key
     \<and> length (ls_cache (fst (snd (lookup example_osv example_advisory_config 5 Npm '' axios'' ''1.0'' lookup_new))))
        \<le> CACHE_MAX_ENTRIES"
  using lookup_answers_real [OF run_start example_lookup]
  by (auto simp: from_verified_answer_def example_lookup)

text \<open>
  findings are replaced.  Recording the advisories of one version (with distinct ids) makes
  exactly these readable for it, ordered by id and with their severity intact; the findings of
  every other package and version stay as they were.
\<close>

theorem record_advisories_replaces:
  assumes "distinct (map av_id as)"
  shows "advisories_for_versions (record_advisories now eco pkg ver as d) e p versions v
    = (if (e, p, v) = (eco, pkg, ver)
       then (if v \<in> set versions \<and> as \<noteq> [] then Some (sort_key av_id as) else None)
       else advisories_for_versions d e p versions v)"
proof (cases "(e, p, v) = (eco, pkg, ver)")
  case True
  have "filter (\<lambda>r. advisory_coord r = (e, p, v) \<and> ra_version r \<in> set versions)
      (db_advisories (record_advisories now eco pkg ver as d))
    = (if v \<in> set versions then map (advisory_row_of now eco pkg ver) as else [])"
    using True by (auto simp: record_advisories_rows [OF assms] filter_empty_conv filter_map comp_def)
  then show ?thesis
    using True by (auto simp: advisories_for_versions_def Let_def sort_key_map comp_def)
next
  case False
  have "filter (\<lambda>r. advisory_coord r = (e, p, v) \<and> ra_version r \<in> set versions)
      (db_advisories (record_advisories now eco pkg ver as d))
    = filter (\<lambda>r. advisory_coord r = (e, p, v) \<and> ra_version r \<in> set versions) (db_advisories d)"
    unfolding record_advisories_rows [OF assms] filter_append filter_filter
    using False by (auto simp: filter_map comp_def intro!: filter_cong)
  then show ?thesis
    using False by (simp add: advisories_for_versions_def Let_def del: prod.inject)
qed

theorem record_advisories_replaces_witness:
  "advisories_for_versions (record_advisories 0 ''npm'' ''axios'' ''1.0''
      (osv_advisories (the (snd (example_osv ''npm'' ''axios'' ''1.0'')))) empty_db) ''npm'' ''axios'' [''1.0''] ''1.0''
     = Some (osv_advisories (the (snd (example_osv ''npm'' ''axios'' ''1.0''))))"
proof -
  obtain a where a: "osv_advisories (the (snd (example_osv ''npm'' ''axios'' ''1.0''))) = [a]"
    by (simp add: osv_advisories_def example_osv_def osv_is_active_def)
  show ?thesis unfolding a
    using record_advisories_replaces [of "[a]" 0 "''npm''" "''axios''" "''1.0''" empty_db "''npm''" "''axios''"
      "[''1.0'']" "''1.0''"] by simp
qed

text \<open>One round of the background sweep when the service answers for every version.\<close>

definition sweep_round :: "string \<Rightarrow> string \<Rightarrow> string \<Rightarrow> nat \<Rightarrow> timestamp \<Rightarrow> db \<Rightarrow> db" where
  "sweep_round source_id eco pkg batch now d =
     fold (record_advisory_check now eco pkg) (unchecked_seen_versions d source_id eco pkg batch) d"

lemma seen_identities_distinct:
  "distinct (map seen_key (db_seen d)) \<Longrightarrow> distinct (map sr_identity (unchecked_rows d source_id eco pkg))"
proof -
  assume "distinct (map seen_key (db_seen d))"
  then have "distinct (map seen_key (unchecked_rows d source_id eco pkg))"
    unfolding unchecked_rows_def by (rule distinct_map_filter)
  moreover have "map seen_key (unchecked_rows d source_id eco pkg)
      = map (Pair source_id) (map sr_identity (unchecked_rows d source_id eco pkg))"
    by (simp add: unchecked_rows_def seen_key_def)
  ultimately show ?thesis by (metis distinct_map)
qed

lemma filter_not_taken:
  assumes "distinct (map f xs)" and "mset ys = mset xs"
  shows "length (filter (\<lambda>x. f x \<notin> set (map f (take n ys))) xs) = length xs - n"
proof -
  have d: "distinct (map f ys)"
    using assms by (metis mset_eq_imp_distinct_iff mset_map)
  have "length (filter (\<lambda>x. f x \<notin> set (map f (take n ys))) xs)
      = length (filter (\<lambda>x. f x \<notin> set (map f (take n ys))) ys)"
    by (metis assms(2) mset_filter size_mset)
  also have "filter (\<lambda>x. f x \<notin> set (map f (take n ys))) ys = drop n ys"
  proof -
    have split: "ys = take n ys @ drop n ys" by simp
    have "f x \<notin> f ` set (take n ys)" if "x \<in> set (drop n ys)" for x
      using d split that by (metis distinct_append disjoint_iff imageI list.set_map map_append)
    then have "filter (\<lambda>x. f x \<notin> set (map f (take n ys))) (drop n ys) = drop n ys"
      by (intro filter_True) simp
    moreover have "filter (\<lambda>x. f x \<notin> set (map f (take n ys))) (take n ys) = []"
      by (simp add: filter_empty_conv)
    ultimately show ?thesis by (metis append_Nil append_take_drop_id filter_append)
  qed
  finally show ?thesis using assms(2) by (metis length_drop size_mset)
qed

lemma sweep_round_progress:
  assumes "distinct (map seen_key (db_seen d))"
  shows "length (unchecked_rows (sweep_round source_id eco pkg batch now d) source_id eco pkg)
    = length (unchecked_rows d source_id eco pkg) - batch"
proof (cases "batch = 0")
  case True
  then show ?thesis by (simp add: sweep_round_def unchecked_seen_versions_def)
next
  case False
  then show ?thesis
    using filter_not_taken [OF seen_identities_distinct [OF assms], of
        "sort_by newest_discovered (unchecked_rows d source_id eco pkg)"]
    by (simp add: sweep_round_def unchecked_after_checks unchecked_seen_versions_def)
qed

lemma sweep_round_seen [simp]: "db_seen (sweep_round source_id eco pkg batch now d) = db_seen d"
proof -
  have "db_seen (fold (record_advisory_check now eco pkg) vs d) = db_seen d" for vs
    by (induction vs arbitrary: d) simp_all
  then show ?thesis by (simp add: sweep_round_def)
qed

text \<open>
  the sweep converges.  While the service answers, every round checks exactly the versions it
  asked for, so after \<open>k\<close> rounds \<open>k\<close> batches fewer versions of the source are unchecked, and none
  is left once the batches cover them.
\<close>

theorem sweep_converges:
  assumes "distinct (map seen_key (db_seen d))"
  shows "length (unchecked_rows (fold (sweep_round source_id eco pkg batch) nows d) source_id eco pkg)
    = length (unchecked_rows d source_id eco pkg) - length nows * batch"
  using assms
proof (induction nows arbitrary: d)
  case (Cons now nows)
  then show ?case by (simp add: sweep_round_progress)
qed simp

theorem sweep_converges_witness:
  "length (unchecked_rows (fold (sweep_round ''npm:a'' ''npm'' ''a'' 2) [5, 6]
      (record_seen_batch 0 ''npm:a'' (map example_item [''1'', ''2'', ''3'']) empty_db)) ''npm:a'' ''npm'' ''a'') = 0"
proof -
  have d: "distinct (map seen_key (db_seen (record_seen_batch 0 ''npm:a'' (map example_item [''1'', ''2'', ''3'']) empty_db)))"
    by code_simp
  have n: "length (unchecked_rows (record_seen_batch 0 ''npm:a'' (map example_item [''1'', ''2'', ''3'']) empty_db)
      ''npm:a'' ''npm'' ''a'') = 3" by code_simp
  show ?thesis using sweep_converges [OF d, of "''npm:a''" "''npm''" "''a''" 2 "[5, 6]"] n by simp
qed

lemma char_count_Cons: "char_count (c # s) = (if is_continuation c then 0 else 1) + char_count s"
  by (simp add: char_count_def)

lemma char_count_append: "char_count (s @ t) = char_count s + char_count t"
  by (simp add: char_count_def)

lemma take_chars_count: "char_count (take_chars n s) \<le> n"
proof (induction n s rule: take_chars.induct)
  case (1 n)
  then show ?case by (simp add: char_count_def)
next
  case (2 n c cs)
  have "char_count [] = 0" by (simp add: char_count_def)
  with 2 show ?case by (cases n) (auto simp: char_count_Cons)
qed

lemma first_line_count: "char_count (first_line text) \<le> MAX_SUMMARY_CHARS + 1"
proof -
  have "char_count ellipsis = 1" by code_simp
  then show ?thesis
    using take_chars_count by (auto simp: first_line_def Let_def char_count_append not_less le_SucI)
qed

text \<open>
  advisory records.  Withdrawn records are dropped and the others kept in order; a summary has
  at most 241 characters; the display id is the first CVE alias or the id itself; the score is
  one of the record's CVSS vectors with the greatest major version, when it has any.
\<close>

theorem osv_conversion_faithful:
  "map av_id (osv_advisories vs) = map ov_id (filter osv_is_active vs)
   \<and> (case av_summary (into_advisory v) of None \<Rightarrow> True
        | Some s \<Rightarrow> s \<noteq> [] \<and> char_count s \<le> MAX_SUMMARY_CHARS + 1)
   \<and> (av_display_id (into_advisory v) = ov_id v \<and> filter (prefix ''CVE-'') (ov_aliases v) = []
      \<or> filter (prefix ''CVE-'') (ov_aliases v) \<noteq> []
        \<and> av_display_id (into_advisory v) = hd (filter (prefix ''CVE-'') (ov_aliases v)))
   \<and> (let vectors = filter (prefix ''CVSS:'') (List.map_filter id (ov_scores v)) in
      case av_cvss_vector (into_advisory v) of
        None \<Rightarrow> vectors = []
      | Some best \<Rightarrow> best \<in> set vectors
          \<and> list_all (\<lambda>x. cvss_major_version x \<le> cvss_major_version best) vectors)"
proof -
  have ids: "map av_id (osv_advisories vs) = map ov_id (filter osv_is_active vs)"
    by (simp add: osv_advisories_def into_advisory_def)
  have summary: "case av_summary (into_advisory v) of None \<Rightarrow> True
        | Some s \<Rightarrow> s \<noteq> [] \<and> char_count s \<le> MAX_SUMMARY_CHARS + 1"
    using first_line_count by (simp add: into_advisory_def split: option.splits)
  have find_hd: "find P xs = (if filter P xs = [] then None else Some (hd (filter P xs)))" for P :: "string \<Rightarrow> bool" and xs
    by (induction xs) auto
  have display: "av_display_id (into_advisory v) = ov_id v \<and> filter (prefix ''CVE-'') (ov_aliases v) = []
      \<or> filter (prefix ''CVE-'') (ov_aliases v) \<noteq> []
        \<and> av_display_id (into_advisory v) = hd (filter (prefix ''CVE-'') (ov_aliases v))"
    by (simp add: into_advisory_def find_hd)
  let ?vectors = "filter (prefix ''CVSS:'') (List.map_filter id (ov_scores v))"
  have best: "case av_cvss_vector (into_advisory v) of
        None \<Rightarrow> ?vectors = []
      | Some best \<Rightarrow> best \<in> set ?vectors
          \<and> list_all (\<lambda>x. cvss_major_version x \<le> cvss_major_version best) ?vectors"
  proof (cases "best_cvss_vector (ov_scores v)")
    case None
    then show ?thesis by (simp add: into_advisory_def best_cvss_vector_def)
  next
    case (Some best)
    then have m: "max_by (\<lambda>a b. cmp_of (cvss_major_version a) (cvss_major_version b)) ?vectors = Some best"
      by (simp add: best_cvss_vector_def)
    have "\<forall>x\<in>set ?vectors. cmp_of (cvss_major_version x) (cvss_major_version best) \<noteq> Greater"
      by (rule cvss_versions.max_by_greatest [OF m]) simp
    then show ?thesis
      using Some max_by_mem [OF m] by (simp add: into_advisory_def list_all_iff not_less)
  qed
  show ?thesis unfolding Let_def by (intro conjI ids summary display best)
qed

lemma from_registry_kind: "from_kind (registry_kind r) = Some r"
  by (cases r) (simp_all add: from_kind_def all_registries_def)

lemma split_once_kind: "split_once '':'' (registry_kind r @ '':'' @ name) = Some (registry_kind r, name)"
  by (cases r) simp_all

lemma coordinate_of_bare:
  "trim name \<noteq> [] \<Longrightarrow> bare_id source_id = registry_kind r @ '':'' @ name \<Longrightarrow>
   coordinate_from_source_id source_id = Some (r, trim name)"
  unfolding coordinate_from_source_id_def by (simp only: split_once_kind) (simp add: from_registry_kind)

text \<open>
  package coordinates.  The source id of a package is read back as its registry and trimmed
  name: in an organization's namespace whatever the name is, and without a namespace as long as
  the id contains no double colon.
\<close>

theorem coordinate_round_trip:
  assumes "trim name \<noteq> []"
  shows "(slug_ok org \<longrightarrow> coordinate_from_source_id (org @ ORGANIZATION_SEP @ registry_kind r @ '':'' @ name)
      = Some (r, trim name))
    \<and> (\<not> contains_str (registry_kind r @ '':'' @ name) ORGANIZATION_SEP \<longrightarrow>
      coordinate_from_source_id (registry_kind r @ '':'' @ name) = Some (r, trim name))"
proof (intro conjI impI)
  assume "slug_ok org"
  then have "bare_id (org @ ORGANIZATION_SEP @ registry_kind r @ '':'' @ name) = registry_kind r @ '':'' @ name"
    using split_once_org [of org "registry_kind r @ '':'' @ name"]
    by (simp add: bare_id_def slug_ok_def ORGANIZATION_SEP_def)
  then show "coordinate_from_source_id (org @ ORGANIZATION_SEP @ registry_kind r @ '':'' @ name) = Some (r, trim name)"
    by (rule coordinate_of_bare [OF assms])
next
  assume "\<not> contains_str (registry_kind r @ '':'' @ name) ORGANIZATION_SEP"
  then have "bare_id (registry_kind r @ '':'' @ name) = registry_kind r @ '':'' @ name"
    by (simp only: bare_id_def split_once_None [symmetric]) simp
  then show "coordinate_from_source_id (registry_kind r @ '':'' @ name) = Some (r, trim name)"
    by (rule coordinate_of_bare [OF assms])
qed

theorem coordinate_round_trip_witness:
  "coordinate_from_source_id (''acme'' @ ORGANIZATION_SEP @ registry_kind Maven @ '':'' @ ''org.x:lib'')
     = Some (Maven, ''org.x:lib'')"
proof -
  have n: "trim ''org.x:lib'' \<noteq> []" and o: "slug_ok ''acme''" and e: "trim ''org.x:lib'' = ''org.x:lib''"
    by code_simp+
  show ?thesis using coordinate_round_trip [OF n, of "''acme''" Maven] o e by simp
qed

end
