(* ===== verification/World.thy ===== *)
theory World
  imports Notifier Advisories Metrics "HOL-Library.State_Monad"
begin

text \<open>
  The running process: the tables, the clocks, the notifiers in memory, the runtime that a
  configuration swap replaces (\<^verbatim>\<open>src/src/engine.rs\<close>), and the effects of a program over them in
  the state monad.  Every store call first lets the surroundings take a step: time passes,
  other workers run store methods and fan-outs or swap the runtime, and the call itself may fail
  before it reaches the tables or after it has changed them.
\<close>

section \<open>The store methods that write\<close>

datatype store_op =
    Op_mark_initialized string
  | Op_touch_polled string
  | Op_set_latest_tag string string
  | Op_set_etag string "string option"
  | Op_record_seen string seen_upsert
  | Op_record_batch string "seen_upsert list"
  | Op_enrich string "unit release list"
  | Op_webhook string
  | Op_prune nat nat nat nat
  | Op_enqueue event string outbox_meta
  | Op_claim_batch nat
  | Op_claim_row int
  | Op_release int
  | Op_backoff int int
  | Op_defer int int
  | Op_complete int string seen_upsert
  | Op_fail int string
  | Op_ensure int "(nat \<times> string) list"
  | Op_sink_ok int nat
  | Op_sink_fail int nat string
  | Op_abandon int "nat list" string
  | Op_sync int
  | Op_requeue
  | Op_finalize
  | Op_advisories string string string "advisory list"
  | Op_check string string string

fun exec_op :: "timestamp \<Rightarrow> timestamp \<Rightarrow> store_op \<Rightarrow> db \<Rightarrow> db" where
  "exec_op now app (Op_mark_initialized s) d = mark_initialized now s d"
| "exec_op now app (Op_touch_polled s) d = touch_polled now s d"
| "exec_op now app (Op_set_latest_tag s t) d = set_latest_release_tag now s t d"
| "exec_op now app (Op_set_etag s e) d = set_etag now s e d"
| "exec_op now app (Op_record_seen s u) d = record_seen now s u d"
| "exec_op now app (Op_record_batch s us) d = record_seen_batch now s us d"
| "exec_op now app (Op_enrich s rs) d = enrich_seen_metadata s rs d"
| "exec_op now app (Op_webhook i) d = snd (claim_webhook_delivery now i d)"
| "exec_op now app (Op_prune a b c e) d = snd (prune now a b c e d)"
| "exec_op now app (Op_enqueue e ident m) d = snd (try_enqueue_notification now app e ident m d)"
| "exec_op now app (Op_claim_batch n) d = snd (claim_outbox_batch now n OUTBOX_LEASE_SECS d)"
| "exec_op now app (Op_claim_row i) d = snd (claim_outbox_row now i OUTBOX_LEASE_SECS d)"
| "exec_op now app (Op_release i) d = release_outbox_lease i d"
| "exec_op now app (Op_backoff i n) d = apply_delivery_backoff now i n d"
| "exec_op now app (Op_defer i n) d = defer_delivery now i n d"
| "exec_op now app (Op_complete i s u) d = snd (complete_notification now i s u d)"
| "exec_op now app (Op_fail i err) d = snd (fail_notification i err d)"
| "exec_op now app (Op_ensure i sinks) d = (case ensure_sink_deliveries i sinks d of Inl _ \<Rightarrow> d | Inr d' \<Rightarrow> d')"
| "exec_op now app (Op_sink_ok i idx) d = complete_sink_delivery now i idx d"
| "exec_op now app (Op_sink_fail i idx err) d = fail_sink_delivery i idx err d"
| "exec_op now app (Op_abandon i idxs err) d = snd (abandon_retryable_sinks i idxs err d)"
| "exec_op now app (Op_sync i) d = snd (sync_outbox_sink_status i d)"
| "exec_op now app Op_requeue d = snd (requeue_dead_outbox d)"
| "exec_op now app Op_finalize d = snd (finalize_exhausted_outbox d)"
| "exec_op now app (Op_advisories e p v as) d = record_advisories now e p v as d"
| "exec_op now app (Op_check e p v) d = record_advisory_check now e p v d"

section \<open>The process\<close>

record runtime =
  rt_notifier :: nat
  rt_flush_concurrency :: nat
  rt_backoff_max_secs :: nat
  rt_ops_tag :: "string option"

record prune_settings =
  ps_seen_after_days :: nat
  ps_webhooks_after_days :: nat
  ps_outbox_sent_after_days :: nat
  ps_advisories_after_days :: nat
  ps_interval_hours :: nat

datatype env_action =
    Store_action store_op
  | Notifier_action nat notifier_op
  | Swap_action composite nat nat "string option"

datatype fault = Healthy | Lost_request | Lost_reply

record env_step =
  es_elapsed :: nat
  es_actions :: "env_action list"
  es_fault :: fault

text \<open>What a fan-out was for: a delivery of a queue row or digest, or an operator alert.\<close>

datatype purpose = Row_delivery int | Digest_delivery "int list" | Ops_alert

record sent_call =
  sc_purpose :: purpose
  sc_sink :: nat
  sc_event :: event
  sc_ok :: bool

text \<open>
  The heap of notifiers gives an address to each composite ever built, because an attempt keeps
  the one it started with.  The functions \<open>w_net\<close>, \<open>w_env\<close> and \<open>w_osv\<close> are the surroundings:
  they answer the \<open>n\<close>-th fan-out, store call and advisory query.  The log of sink calls is a ghost.
\<close>

record world =
  w_db :: db
  w_now :: timestamp
  w_skew :: int
  w_instant :: instant
  w_ticks :: nat
  w_env :: "nat \<Rightarrow> env_step"
  w_heap :: "nat \<Rightarrow> composite"
  w_fresh :: nat
  w_runtime :: runtime
  w_net :: "nat \<Rightarrow> nat \<Rightarrow> event \<Rightarrow> reply"
  w_calls :: nat
  w_sent :: "sent_call list"
  w_metrics :: metrics
  w_prune :: prune_settings
  w_advisory_config :: advisory_config
  w_lookup :: lookup_state
  w_osv :: "nat \<Rightarrow> osv_service"
  w_queries :: nat

definition app_now :: "world \<Rightarrow> timestamp" where
  "app_now w = w_now w + w_skew w"

definition clamp :: "nat \<Rightarrow> nat \<Rightarrow> nat \<Rightarrow> nat" where
  "clamp lo hi n = max lo (min hi n)"

definition swap_runtime :: "composite \<Rightarrow> nat \<Rightarrow> nat \<Rightarrow> string option \<Rightarrow> world \<Rightarrow> world" where
  "swap_runtime nc concurrency backoff_max ops_tag w =
     w\<lparr>w_heap := (w_heap w)(w_fresh w := nc), w_fresh := w_fresh w + 1,
       w_runtime := \<lparr>rt_notifier = w_fresh w, rt_flush_concurrency = clamp 1 64 concurrency,
         rt_backoff_max_secs = clamp 60 86400 backoff_max, rt_ops_tag = trimmed_nonempty ops_tag\<rparr>\<rparr>"

fun env_act :: "env_action \<Rightarrow> world \<Rightarrow> world" where
  "env_act (Store_action p) w = w\<lparr>w_db := exec_op (w_now w) (app_now w) p (w_db w)\<rparr>"
| "env_act (Notifier_action a p) w = w\<lparr>w_heap := (w_heap w)(a := run_op p (w_heap w a))\<rparr>"
| "env_act (Swap_action nc c b t) w = swap_runtime nc c b t w"

definition pass_time :: "nat \<Rightarrow> world \<Rightarrow> world" where
  "pass_time ms w = w\<lparr>w_instant := w_instant w + ms, w_now := w_now w + int ms * 1000\<rparr>"

definition env_turn :: "world \<Rightarrow> fault \<times> world" where
  "env_turn w =
    (let st = w_env w (w_ticks w);
         w1 = (pass_time (es_elapsed st) w)\<lparr>w_ticks := w_ticks w + 1\<rparr> in
     (es_fault st, fold env_act (es_actions st) w1))"

section \<open>Programs\<close>

type_synonym 'a prog = "(world, 'a) state"

datatype pipeline_error =
    Source_error string
  | Store_error string
  | Notify_error notify_error
  | Other_error string

type_synonym 'a attempt = "(world, pipeline_error + 'a) state"

text \<open>The question mark operator: go on with the value, or return the error.\<close>

definition try_bind :: "'a attempt \<Rightarrow> ('a \<Rightarrow> 'b attempt) \<Rightarrow> 'b attempt" where
  "try_bind m f = do {
     r \<leftarrow> m;
     case r of Inl e \<Rightarrow> State_Monad.return (Inl e) | Inr x \<Rightarrow> f x
   }"

definition ok :: "'a \<Rightarrow> 'a attempt" where
  "ok x = State_Monad.return (Inr x)"

text \<open>A loop whose body may return an error, and one whose body may not.\<close>

fun try_map :: "('a \<Rightarrow> 'b attempt) \<Rightarrow> 'a list \<Rightarrow> 'b list attempt" where
  "try_map f [] = ok []"
| "try_map f (x # xs) = try_bind (f x) (\<lambda>y. try_bind (try_map f xs) (\<lambda>ys. ok (y # ys)))"

fun each :: "('a \<Rightarrow> unit prog) \<Rightarrow> 'a list \<Rightarrow> unit prog" where
  "each f [] = State_Monad.return ()"
| "each f (x # xs) = do { f x; each f xs }"

definition asks_world :: "(world \<Rightarrow> 'a) \<Rightarrow> 'a prog" where
  "asks_world f = State (\<lambda>w. (f w, w))"

definition modify :: "(world \<Rightarrow> world) \<Rightarrow> unit prog" where
  "modify f = State (\<lambda>w. ((), f w))"

definition store_call :: "(timestamp \<Rightarrow> timestamp \<Rightarrow> db \<Rightarrow> (string + 'a) \<times> db) \<Rightarrow> 'a attempt" where
  "store_call f = State (\<lambda>w.
     let (flt, w1) = env_turn w;
         (r, d) = f (w_now w1) (app_now w1) (w_db w1);
         r' = (case r of Inl e \<Rightarrow> Inl (Store_error e) | Inr x \<Rightarrow> Inr x) in
     case flt of
       Healthy \<Rightarrow> (r', w1\<lparr>w_db := d\<rparr>)
     | Lost_request \<Rightarrow> (Inl (Store_error ''postgres''), w1)
     | Lost_reply \<Rightarrow> (Inl (Store_error ''postgres''), w1\<lparr>w_db := d\<rparr>))"

text \<open>A method that cannot fail by itself: one that writes, and one that only reads.\<close>

definition store_write :: "(timestamp \<Rightarrow> timestamp \<Rightarrow> db \<Rightarrow> 'a \<times> db) \<Rightarrow> 'a attempt" where
  "store_write f = store_call (\<lambda>now app d. case f now app d of (x, d') \<Rightarrow> (Inr x, d'))"

definition store_read :: "(timestamp \<Rightarrow> timestamp \<Rightarrow> db \<Rightarrow> 'a) \<Rightarrow> 'a attempt" where
  "store_read f = store_call (\<lambda>now app d. (Inr (f now app d), d))"

definition count_metric :: "(metrics \<Rightarrow> metrics) \<Rightarrow> unit prog" where
  "count_metric f = modify (\<lambda>w. w\<lparr>w_metrics := f (w_metrics w)\<rparr>)"

section \<open>The engine\<close>

definition periodic_enabled :: "prune_settings \<Rightarrow> bool" where
  "periodic_enabled s \<longleftrightarrow> 0 < ps_interval_hours s
     \<and> (0 < ps_seen_after_days s \<or> 0 < ps_webhooks_after_days s
        \<or> 0 < ps_outbox_sent_after_days s \<or> 0 < ps_advisories_after_days s)"

definition outbox_flush_concurrency :: "nat prog" where
  "outbox_flush_concurrency = asks_world (\<lambda>w. rt_flush_concurrency (w_runtime w))"

definition outbox_retry_backoff_max_secs :: "nat prog" where
  "outbox_retry_backoff_max_secs = asks_world (\<lambda>w. rt_backoff_max_secs (w_runtime w))"

text \<open>The notifier that the configuration describes may fail to build; then nothing changes.\<close>

definition apply_runtime_config ::
  "string + composite \<Rightarrow> nat \<Rightarrow> nat \<Rightarrow> string option \<Rightarrow> unit attempt" where
  "apply_runtime_config built concurrency backoff_max ops_tag =
    (case built of
       Inl e \<Rightarrow> State_Monad.return (Inl (Other_error e))
     | Inr nc \<Rightarrow> do {
         modify (swap_runtime nc concurrency backoff_max ops_tag);
         ok ()
       })"

definition notifier_snapshot :: "nat prog" where
  "notifier_snapshot = asks_world (\<lambda>w. rt_notifier (w_runtime w))"

definition notifier_at :: "nat \<Rightarrow> composite prog" where
  "notifier_at a = asks_world (\<lambda>w. w_heap w a)"

definition log_calls :: "purpose \<Rightarrow> event \<Rightarrow> (nat \<Rightarrow> event \<Rightarrow> reply) \<Rightarrow> nat list \<Rightarrow> sent_call list" where
  "log_calls p ev send idxs =
     map (\<lambda>i. \<lparr>sc_purpose = p, sc_sink = i, sc_event = ev, sc_ok = (snd (send i ev) = None)\<rparr>) idxs"

definition fan_out :: "purpose \<Rightarrow> nat \<Rightarrow> event \<Rightarrow> nat list \<Rightarrow> (nat \<times> notify_error option) list prog" where
  "fan_out p a ev idxs = State (\<lambda>w.
     let nc = w_heap w a;
         send = w_net w (w_calls w);
         (results, nc') = notify_partial send (w_instant w) ev idxs nc;
         ms = notify_partial_end send (w_instant w) ev idxs nc - w_instant w in
     (results, (pass_time ms w)\<lparr>w_heap := (w_heap w)(a := nc'), w_calls := w_calls w + 1,
        w_sent := w_sent w @ log_calls p ev send (filter (called (w_instant w) nc ev) idxs)\<rparr>))"

definition emit_ops_alert :: "string \<Rightarrow> string \<Rightarrow> unit prog" where
  "emit_ops_alert title body = State (\<lambda>w.
     case rt_ops_tag (w_runtime w) of
       None \<Rightarrow> ((), w)
     | Some tag \<Rightarrow>
         let a = rt_notifier (w_runtime w);
             ev = \<lparr>ev_source_id = ''xrelease:ops'', ev_source_kind = ''xrelease'', ev_title = title,
                   ev_body = body, ev_url = None, ev_routing_tag = Some tag\<rparr>;
             nc = w_heap w a;
             send = w_net w (w_calls w);
             idxs = matching_indices nc ev;
             nc' = snd (notify send (w_instant w) ev nc);
             ms = notify_partial_end send (w_instant w) ev idxs nc - w_instant w in
         ((), (pass_time ms w)\<lparr>w_heap := (w_heap w)(a := nc'), w_calls := w_calls w + 1,
            w_sent := w_sent w @ log_calls Ops_alert ev send (filter (called (w_instant w) nc ev) idxs)\<rparr>))"

definition run_prune :: "prune_report attempt" where
  "run_prune = do {
     s \<leftarrow> asks_world w_prune;
     try_bind (store_write (\<lambda>now app. prune now (ps_seen_after_days s) (ps_webhooks_after_days s)
                 (ps_outbox_sent_after_days s) (ps_advisories_after_days s)))
       (\<lambda>report. do {
          count_metric (record_prune_deleted (pr_seen_deleted report + pr_webhooks_deleted report
             + pr_outbox_deleted report + pr_advisories_deleted report + pr_advisory_checks_deleted report));
          ok report
        })
   }"

section \<open>Contracts\<close>

text \<open>
  A program preserves a property of the world when it holds after every run from a world where it
  holds, whatever the surroundings do.  The locale \<open>program_contract\<close> lists the elementary
  effects that a property must survive, for the actions the surroundings may take and the store
  methods the program may call; inside it every building block of a program preserves the
  property, and so does each handler built from them.  \<open>world_contract\<close> is the contract for all
  actions, methods and fan-outs, and a property of the tables that every store method keeps gives
  one (\<open>store_contract\<close>).
\<close>

definition preserves :: "(world \<Rightarrow> bool) \<Rightarrow> 'a prog \<Rightarrow> bool" where
  "preserves J m \<longleftrightarrow> (\<forall>w. J w \<longrightarrow> J (snd (run_state m w)))"

lemma preservesI: "(\<And>w. J w \<Longrightarrow> J (snd (run_state m w))) \<Longrightarrow> preserves J m"
  by (simp add: preserves_def)

lemma preservesD: "preserves J m \<Longrightarrow> J w \<Longrightarrow> J (snd (run_state m w))"
  by (simp add: preserves_def)

lemma preserves_return [keeps]: "preserves J (State_Monad.return x)"
  by (simp add: preserves_def)

lemma preserves_ok [keeps]: "preserves J (ok x)"
  by (simp add: preserves_def ok_def)

lemma preserves_bind [keeps]:
  "preserves J m \<Longrightarrow> (\<And>x. preserves J (f x)) \<Longrightarrow> preserves J (State_Monad.bind m f)"
  by (simp add: preserves_def split: prod.splits) (metis snd_conv)

lemma preserves_try [keeps]:
  "preserves J m \<Longrightarrow> (\<And>x. preserves J (f x)) \<Longrightarrow> preserves J (try_bind m f)"
  unfolding try_bind_def by (intro preserves_bind) (auto intro: preserves_return split: sum.splits)

lemma preserves_asks [keeps]: "preserves J (asks_world f)"
  by (simp add: preserves_def asks_world_def)

lemma preserves_snapshot [keeps]:
  "preserves J notifier_snapshot" "preserves J (notifier_at a)"
  "preserves J outbox_flush_concurrency" "preserves J outbox_retry_backoff_max_secs"
  by (simp_all add: notifier_snapshot_def notifier_at_def outbox_flush_concurrency_def
      outbox_retry_backoff_max_secs_def preserves_asks)

lemma preserves_traverse [keeps]:
  "(\<And>x. preserves J (f x)) \<Longrightarrow> preserves J (traverse_list f xs)"
  by (induction xs) (auto intro!: preserves_bind preserves_return)

lemma preserves_try_map [keeps]: "(\<And>x. preserves J (f x)) \<Longrightarrow> preserves J (try_map f xs)"
  by (induction xs) (auto intro!: preserves_try preserves_ok)

lemma preserves_each [keeps]: "(\<And>x. preserves J (f x)) \<Longrightarrow> preserves J (each f xs)"
  by (induction xs) (auto intro!: preserves_bind preserves_return)

lemma preserves_if [keeps]:
  "(b \<Longrightarrow> preserves J m) \<Longrightarrow> (\<not> b \<Longrightarrow> preserves J n) \<Longrightarrow> preserves J (if b then m else n)"
  by simp

lemma preserves_option [keeps]:
  "preserves J m \<Longrightarrow> (\<And>x. preserves J (f x)) \<Longrightarrow> preserves J (case v of None \<Rightarrow> m | Some x \<Rightarrow> f x)"
  by (cases v) simp_all

lemma preserves_sum [keeps]:
  "(\<And>e. preserves J (g e)) \<Longrightarrow> (\<And>x. preserves J (f x)) \<Longrightarrow> preserves J (case v of Inl e \<Rightarrow> g e | Inr x \<Rightarrow> f x)"
  by (cases v) simp_all

lemma preserves_pair [keeps]:
  "(\<And>x y. preserves J (f x y)) \<Longrightarrow> preserves J (case p of (x, y) \<Rightarrow> f x y)"
  by (cases p) simp

locale program_contract =
  fixes J :: "world \<Rightarrow> bool" and act_ok :: "env_action \<Rightarrow> bool" and op_ok :: "store_op \<Rightarrow> bool"
  assumes env_ok: "J w \<Longrightarrow> x \<in> set (es_actions (w_env w n)) \<Longrightarrow> act_ok x"
    and act_keeps: "act_ok x \<Longrightarrow> J w \<Longrightarrow> J (env_act x w)"
    and op_keeps: "op_ok p \<Longrightarrow> J w \<Longrightarrow> J (w\<lparr>w_db := exec_op now app p (w_db w)\<rparr>)"
    and heap_keeps: "J w \<Longrightarrow> J (w\<lparr>w_heap := (w_heap w)(a := run_op q (w_heap w a))\<rparr>)"
    and time_keeps: "J w \<Longrightarrow> J (pass_time ms w)"
    and tick_keeps: "J w \<Longrightarrow> J (w\<lparr>w_ticks := n\<rparr>)"
    and metrics_keep: "J w \<Longrightarrow> J (w\<lparr>w_metrics := mt\<rparr>)"
    and cache_keeps: "J w \<Longrightarrow> J (w\<lparr>w_lookup := st, w_queries := n\<rparr>)"
    and alerts_keep: "J w \<Longrightarrow> J (w\<lparr>w_calls := n, w_sent := w_sent w @ log_calls Ops_alert ev send idxs\<rparr>)"
begin

lemma turn_keeps: "J w \<Longrightarrow> J (snd (env_turn w))"
proof -
  assume J: "J w"
  have "list_all act_ok as \<Longrightarrow> J v \<Longrightarrow> J (fold env_act as v)" for as v
    by (induction as arbitrary: v) (auto intro: act_keeps)
  then show ?thesis
    using tick_keeps [OF time_keeps [OF J]] env_ok [OF J] by (simp add: env_turn_def Let_def list_all_iff)
qed

lemma call_keeps:
  assumes "\<And>now app d. \<exists>p. op_ok p \<and> snd (f now app d) = exec_op now app p d \<or> snd (f now app d) = d"
  shows "preserves J (store_call f)"
proof (rule preservesI)
  fix w assume "J w"
  then have t: "J (snd (env_turn w))" by (rule turn_keeps)
  let ?v = "snd (env_turn w)"
  have "J (?v\<lparr>w_db := snd (f (w_now ?v) (app_now ?v) (w_db ?v))\<rparr>)"
    using assms [of "w_now ?v" "app_now ?v" "w_db ?v"] op_keeps [OF _ t] t by auto
  then show "J (snd (run_state (store_call f) w))"
    using t by (auto simp: store_call_def Let_def split_def split: fault.splits)
qed

lemma write_keeps:
  assumes "\<And>now app d. snd (f now app d) = exec_op now app p d" and "op_ok p"
  shows "preserves J (store_write f)"
  unfolding store_write_def by (rule call_keeps) (use assms in \<open>auto simp: split_def\<close>)

lemma read_keeps [keeps]: "preserves J (store_read f)"
  unfolding store_read_def by (rule call_keeps) simp

lemma metric_keeps [keeps]: "preserves J (count_metric f)"
  unfolding count_metric_def by (rule preservesI) (simp add: modify_def metrics_keep)

lemma sent_keeps:
  assumes "J w" and log: "\<And>v. J v \<Longrightarrow> J (v\<lparr>w_calls := n, w_sent := w_sent v @ cs\<rparr>)"
  shows "J ((pass_time ms w)\<lparr>w_heap := (w_heap w)(a := run_op q (w_heap w a)), w_calls := n,
    w_sent := w_sent w @ cs\<rparr>)"
proof -
  have "J ((pass_time ms w)\<lparr>w_heap := (w_heap (pass_time ms w))(a := run_op q (w_heap (pass_time ms w) a))\<rparr>)"
    by (intro heap_keeps time_keeps assms(1))
  from log [OF this] show ?thesis by (simp add: pass_time_def)
qed

lemma alert_keeps [keeps]: "preserves J (emit_ops_alert title body)"
proof (rule preservesI)
  fix w assume "J w"
  then show "J (snd (run_state (emit_ops_alert title body) w))"
    using sent_keeps [where q = "Notify_op (w_net w (w_calls w)) (w_instant w) ev" for ev] alerts_keep
    by (simp add: emit_ops_alert_def Let_def split: option.splits)
qed

end

text \<open>
  The contract of a delivery worker, which may call any sink and every store method that a
  delivery uses; and the contract for all store methods and all surroundings.
\<close>

fun delivery_op :: "store_op \<Rightarrow> bool" where
  "delivery_op (Op_backoff _ _) \<longleftrightarrow> True"
| "delivery_op (Op_defer _ _) \<longleftrightarrow> True"
| "delivery_op (Op_complete _ _ _) \<longleftrightarrow> True"
| "delivery_op (Op_fail _ _) \<longleftrightarrow> True"
| "delivery_op (Op_ensure _ _) \<longleftrightarrow> True"
| "delivery_op (Op_sink_ok _ _) \<longleftrightarrow> True"
| "delivery_op (Op_sink_fail _ _ _) \<longleftrightarrow> True"
| "delivery_op (Op_abandon _ _ _) \<longleftrightarrow> True"
| "delivery_op (Op_sync _) \<longleftrightarrow> True"
| "delivery_op (Op_advisories _ _ _ _) \<longleftrightarrow> True"
| "delivery_op (Op_check _ _ _) \<longleftrightarrow> True"
| "delivery_op _ \<longleftrightarrow> False"

locale worker_contract =
  program_contract J act_ok op_ok for J act_ok op_ok +
  assumes log_keeps: "J w \<Longrightarrow> J (w\<lparr>w_calls := n, w_sent := l\<rparr>)"
    and delivery_ok: "delivery_op p \<Longrightarrow> op_ok p"
begin

lemma fan_out_keeps [keeps]: "preserves J (fan_out p a ev idxs)"
proof (rule preservesI)
  fix w assume "J w"
  then show "J (snd (run_state (fan_out p a ev idxs) w))"
    using sent_keeps [where q = "Partial_op (w_net w (w_calls w)) (w_instant w) ev idxs"] log_keeps
    by (simp add: fan_out_def Let_def split_def)
qed

lemmas delivery_oks [simp] = delivery_ok [OF iffD2 [OF delivery_op.simps(1) TrueI]]
  delivery_ok [OF iffD2 [OF delivery_op.simps(2) TrueI]] delivery_ok [OF iffD2 [OF delivery_op.simps(3) TrueI]]
  delivery_ok [OF iffD2 [OF delivery_op.simps(4) TrueI]] delivery_ok [OF iffD2 [OF delivery_op.simps(5) TrueI]]
  delivery_ok [OF iffD2 [OF delivery_op.simps(6) TrueI]] delivery_ok [OF iffD2 [OF delivery_op.simps(7) TrueI]]
  delivery_ok [OF iffD2 [OF delivery_op.simps(8) TrueI]] delivery_ok [OF iffD2 [OF delivery_op.simps(9) TrueI]]
  delivery_ok [OF iffD2 [OF delivery_op.simps(10) TrueI]] delivery_ok [OF iffD2 [OF delivery_op.simps(11) TrueI]]

end

locale world_contract =
  program_contract J "\<lambda>_. True" "\<lambda>_. True" for J +
  assumes all_logs_keep: "J w \<Longrightarrow> J (w\<lparr>w_calls := n, w_sent := l\<rparr>)"

sublocale world_contract \<subseteq> worker_contract J "\<lambda>_. True" "\<lambda>_. True"
  by unfold_locales (simp_all add: all_logs_keep)

locale store_contract =
  fixes I :: "db \<Rightarrow> bool"
  assumes exec_keeps: "I d \<Longrightarrow> I (exec_op now app p d)"

lemma env_act_db:
  "(\<And>now app p. I (exec_op now app p (w_db w))) \<Longrightarrow> I (w_db w) \<Longrightarrow> I (w_db (env_act x (w :: world)))"
  by (cases x) (simp_all add: swap_runtime_def)

sublocale store_contract \<subseteq> world_contract "\<lambda>w. I (w_db w)"
  by unfold_locales (auto intro!: env_act_db exec_keeps simp: pass_time_def)

lemma env_act_fields [simp]:
  "w_now (env_act x w) = w_now w" "w_env (env_act x w) = w_env w" "w_net (env_act x w) = w_net w"
  "w_sent (env_act x w) = w_sent w" "w_metrics (env_act x w) = w_metrics w"
  by (cases x; simp add: swap_runtime_def)+

lemma env_act_sinks: "a < w_fresh w \<Longrightarrow> a < w_fresh (env_act x w) \<and> cn_sinks (w_heap (env_act x w) a) = cn_sinks (w_heap w a)"
  by (cases x) (auto simp: swap_runtime_def)

interpretation clock: world_contract "\<lambda>w. t \<le> w_now w" for t
  by unfold_locales (auto simp: pass_time_def)

text \<open>The surroundings, and the sinks of every notifier ever built, stay what they are.\<close>

interpretation settled: world_contract
  "\<lambda>w. w_env w = E \<and> w_net w = N \<and> a < w_fresh w \<and> cn_sinks (w_heap w a) = S" for E N a S
  by unfold_locales (auto simp: pass_time_def env_act_sinks)

lemma exec_op_ok:
  assumes "db_ok d"
  shows "db_ok (exec_op now app p d)"
proof (cases p)
  case (Op_ensure i sinks)
  then show ?thesis using assms by (auto intro: ensure_sinks_ok split: sum.splits)
qed (use assms in \<open>auto intro: db_keeps\<close>)

interpretation integrity: store_contract db_ok
  by unfold_locales (rule exec_op_ok)

text \<open>A source never falls back behind its baseline, and row ids are never handed out again.\<close>

lemma is_initialized_sources:
  "is_initialized d s \<Longrightarrow> db_sources d' = db_sources d \<Longrightarrow> is_initialized d' s"
  by (simp add: is_initialized_def find_source_def)

lemma outbox_ops_sources [simp]:
  "db_sources (snd (try_enqueue_notification now app e ident m d)) = db_sources d"
  "db_sources (snd (claim_outbox_batch now n lease d)) = db_sources d"
  "db_sources (snd (claim_outbox_row now i lease d)) = db_sources d"
  "db_sources (update_outbox_id i f d) = db_sources d"
  "db_sources (snd (fail_notification i err d)) = db_sources d"
  "db_sources (update_sinks P g d) = db_sources d"
  "db_sources (snd (sync_outbox_sink_status i d)) = db_sources d"
  "db_sources (snd (requeue_dead_outbox d)) = db_sources d"
  "db_sources (snd (finalize_exhausted_outbox d)) = db_sources d"
  "db_sources (record_advisories now ec pk ve as d) = db_sources d"
  "db_sources (record_advisory_check now ec pk ve d) = db_sources d"
  by (simp_all add: try_enqueue_notification_def claim_outbox_batch_def claim_outbox_row_def
      update_outbox_id_def fail_notification_def update_sinks_def sync_outbox_sink_status_def
      requeue_dead_outbox_def finalize_exhausted_outbox_def record_advisories_def
      record_advisory_check_def Let_def split: option.splits)

lemma ensure_sources: "ensure_sink_deliveries i sinks d = Inr d' \<Longrightarrow> db_sources d' = db_sources d"
  by (auto simp: ensure_sink_deliveries_def Let_def split: if_splits)

lemma complete_sources: "is_initialized (snd (complete_notification now i s u d)) s' = is_initialized d s'"
  by (simp add: complete_notification_def) (simp add: is_initialized_def find_source_def)

lemma prune_sources: "db_sources (snd (prune now a b c e d)) = db_sources d"
  by (simp add: prune_def prune_seen_def prune_webhooks_def prune_outbox_def prune_advisories_def
      delete_outbox_def Let_def split_def)

lemma exec_op_initialized: "is_initialized d s \<Longrightarrow> is_initialized (exec_op now app p d) s"
proof (cases p)
  case (Op_ensure i sinks)
  assume "is_initialized d s"
  with Op_ensure show ?thesis
    by (auto intro: is_initialized_sources [OF _ ensure_sources] split: sum.splits)
next
  case (Op_prune a b c e)
  assume "is_initialized d s"
  with Op_prune show ?thesis by (auto intro: is_initialized_sources prune_sources)
qed (simp_all add: complete_sources,
    auto elim!: is_initialized_sources simp: release_outbox_lease_def apply_delivery_backoff_def
      defer_delivery_def complete_sink_delivery_def fail_sink_delivery_def
      abandon_retryable_sinks_def Let_def)

interpretation baseline: store_contract "\<lambda>d. is_initialized d s" for s
  by unfold_locales (rule exec_op_initialized)

end
