(* ===== verification/Delivery.thy ===== *)
theory Delivery
  imports World
begin

text \<open>
  Delivery of queued notifications (\<^verbatim>\<open>src/src/pipeline/outbox.rs\<close>): one attempt at one row, one
  attempt at a digest, the grouping of a claimed wave and the flush loop.  The deliveries of a wave
  run one after another here; what another delivery or another process does meanwhile is part of
  the surroundings of each store call.
\<close>

section \<open>Counters and alerts\<close>

definition record_sink_attempt :: "composite \<Rightarrow> nat \<Rightarrow> notify_error option \<Rightarrow> unit prog" where
  "record_sink_attempt nc i result =
     count_metric (record_sink_delivery (kind_at nc i) (label_at nc i)
       (case result of None \<Rightarrow> Delivery_ok | Some (Breaker_open _) \<Rightarrow> Delivery_breaker
        | Some _ \<Rightarrow> Delivery_error))"

definition fail_outbox_row :: "int \<Rightarrow> string \<Rightarrow> bool attempt" where
  "fail_outbox_row i err =
     try_bind (store_write (\<lambda>now app. fail_notification i err)) (\<lambda>dead. do {
       count_metric record_outbox_delivery_failure;
       (if dead then count_metric (record_outbox_dead_lettered 1) else State_Monad.return ());
       ok dead
     })"

definition sync_outbox_status :: "int \<Rightarrow> bool attempt" where
  "sync_outbox_status i =
     try_bind (store_write (\<lambda>now app. sync_outbox_sink_status i)) (\<lambda>dead. do {
       (if dead then count_metric (record_outbox_dead_lettered 1) else State_Monad.return ());
       ok dead
     })"

definition backtick :: string where
  "backtick = [byte 96]"

definition emit_dead_outbox_alert :: "int \<Rightarrow> string \<Rightarrow> unit prog" where
  "emit_dead_outbox_alert i source_id =
     emit_ops_alert (''Outbox dead: '' @ source_id)
       (''Notification outbox row '' @ backtick @ show_int i @ backtick @ '' for source ''
        @ backtick @ source_id @ backtick @ '' exhausted delivery retries and was marked dead.'')"

definition drain_breakers :: "nat \<Rightarrow> string list prog" where
  "drain_breakers a = State (\<lambda>w.
     (fst (drain_newly_opened_breakers (w_heap w a)),
      w\<lparr>w_heap := (w_heap w)(a := snd (drain_newly_opened_breakers (w_heap w a)))\<rparr>))"

definition emit_breaker_alerts :: "nat \<Rightarrow> unit prog" where
  "emit_breaker_alerts a = do {
     labels \<leftarrow> drain_breakers a;
     each (\<lambda>label. emit_ops_alert (''Sink breaker open: '' @ label)
       (''Notification sink '' @ backtick @ label @ backtick
        @ '' tripped its circuit breaker after consecutive failures. Delivery to this sink is paused for the configured cooldown.''))
       labels
   }"

definition fail_outbox_row_alert :: "int \<Rightarrow> string \<Rightarrow> string \<Rightarrow> unit attempt" where
  "fail_outbox_row_alert i source_id err =
     try_bind (fail_outbox_row i err) (\<lambda>dead. do {
       (if dead then emit_dead_outbox_alert i source_id else State_Monad.return ());
       ok ()
     })"

definition sync_outbox_status_alert :: "int \<Rightarrow> string \<Rightarrow> unit attempt" where
  "sync_outbox_status_alert i source_id =
     try_bind (sync_outbox_status i) (\<lambda>dead. do {
       (if dead then emit_dead_outbox_alert i source_id else State_Monad.return ());
       ok ()
     })"

section \<open>One attempt at one row\<close>

record delivery_attempt =
  da_delivered :: bool
  da_deferred_only :: bool

definition attempt_delivered :: delivery_attempt where
  "attempt_delivered = \<lparr>da_delivered = True, da_deferred_only = False\<rparr>"

definition attempt_failed :: delivery_attempt where
  "attempt_failed = \<lparr>da_delivered = False, da_deferred_only = False\<rparr>"

definition attempt_deferred :: delivery_attempt where
  "attempt_deferred = \<lparr>da_delivered = False, da_deferred_only = True\<rparr>"

definition complete_or_failed :: "int \<Rightarrow> string \<Rightarrow> seen_upsert \<Rightarrow> delivery_attempt attempt" where
  "complete_or_failed i source_id seen =
     try_bind (store_write (\<lambda>now app. complete_notification now i source_id seen))
       (\<lambda>completed. ok (if completed then attempt_delivered else attempt_failed))"

definition ensure_call :: "int \<Rightarrow> (nat \<times> string) list \<Rightarrow> unit attempt" where
  "ensure_call i sinks = store_call (\<lambda>now app d.
     case ensure_sink_deliveries i sinks d of Inl e \<Rightarrow> (Inl e, d) | Inr d' \<Rightarrow> (Inr (), d'))"

definition sink_ok_call :: "int \<Rightarrow> nat \<Rightarrow> unit attempt" where
  "sink_ok_call i idx = store_write (\<lambda>now app d. ((), complete_sink_delivery now i idx d))"

definition sink_fail_call :: "int \<Rightarrow> nat \<Rightarrow> string \<Rightarrow> unit attempt" where
  "sink_fail_call i idx err = store_write (\<lambda>now app d. ((), fail_sink_delivery i idx err d))"

fun is_breaker_open :: "notify_error \<Rightarrow> bool" where
  "is_breaker_open (Breaker_open _) = True"
| "is_breaker_open _ = False"

text \<open>The ledger entry of one result: a success, a failure, or a skip that leaves it as it is.\<close>

definition apply_result :: "int \<Rightarrow> nat \<times> notify_error option \<Rightarrow> unit attempt" where
  "apply_result i r =
    (case snd r of
       None \<Rightarrow> sink_ok_call i (fst r)
     | Some err \<Rightarrow>
         if is_breaker_open err then ok () else sink_fail_call i (fst r) (show_notify_error err))"

definition any_failed :: "(nat \<times> notify_error option) list \<Rightarrow> bool" where
  "any_failed rs = list_ex (\<lambda>r. snd r \<noteq> None) rs"

definition any_real_failure :: "(nat \<times> notify_error option) list \<Rightarrow> bool" where
  "any_real_failure rs =
     list_ex (\<lambda>r. case snd r of None \<Rightarrow> False | Some err \<Rightarrow> \<not> is_breaker_open err) rs"

definition no_notifier_error :: "event \<Rightarrow> string" where
  "no_notifier_error ev = ''no notifier matches team routing tag '' @ debug_tag (ev_routing_tag ev)"

definition no_matching_error :: "event \<Rightarrow> string" where
  "no_matching_error ev = ''no matching sinks for current routing tag '' @ debug_tag (ev_routing_tag ev)"

definition orphan_error :: "event \<Rightarrow> string" where
  "orphan_error ev = ''sink no longer matches routing tag '' @ debug_tag (ev_routing_tag ev)"

definition abandon_call :: "int \<Rightarrow> nat list \<Rightarrow> string \<Rightarrow> nat attempt" where
  "abandon_call i idxs err = store_write (\<lambda>now app. abandon_retryable_sinks i idxs err)"

text \<open>
  The attempt through the notifier at address \<open>a\<close>, whose sinks are those of \<open>nc\<close> throughout, in
  the three stages of the code: the calls, the split of the pending entries, the whole attempt.
\<close>

definition call_pending_sinks ::
  "nat \<Rightarrow> composite \<Rightarrow> int \<Rightarrow> event \<Rightarrow> string \<Rightarrow> seen_upsert \<Rightarrow> nat list \<Rightarrow> delivery_attempt attempt" where
  "call_pending_sinks a nc i ev source_id seen pending_indices = do {
     results \<leftarrow> fan_out (Row_delivery i) a ev pending_indices;
     emit_breaker_alerts a;
     try_bind (try_map (\<lambda>r. do { record_sink_attempt nc (fst r) (snd r); apply_result i r }) results)
       (\<lambda>_. try_bind (sync_outbox_status_alert i source_id) (\<lambda>_.
       if any_failed results then
         ok (if any_real_failure results then attempt_failed else attempt_deferred)
       else
         try_bind (store_read (\<lambda>now app d. sinks_delivery_complete d i)) (\<lambda>complete.
         if complete then complete_or_failed i source_id seen else ok attempt_failed)))
   }"

definition deliver_pending ::
  "nat \<Rightarrow> composite \<Rightarrow> int \<Rightarrow> event \<Rightarrow> string \<Rightarrow> seen_upsert \<Rightarrow> nat list \<Rightarrow> delivery_attempt attempt" where
  "deliver_pending a nc i ev source_id seen pending =
    (let matching = matching_indices nc ev in
     if pending = [] then
       try_bind (store_read (\<lambda>now app d. sinks_delivery_complete d i)) (\<lambda>complete.
       if complete then complete_or_failed i source_id seen
       else try_bind (sync_outbox_status_alert i source_id) (\<lambda>_. ok attempt_failed))
     else
       (let pending_indices = filter (\<lambda>idx. idx \<in> set matching) pending;
            orphans = filter (\<lambda>idx. idx \<notin> set matching) pending in
        if pending_indices = [] then
          try_bind (abandon_call i [] (no_matching_error ev)) (\<lambda>_.
          try_bind (fail_outbox_row_alert i source_id (no_matching_error ev)) (\<lambda>_.
          try_bind (sync_outbox_status_alert i source_id) (\<lambda>_. ok attempt_failed)))
        else
          try_bind (if orphans = [] then ok 0 else abandon_call i orphans (orphan_error ev))
            (\<lambda>_. call_pending_sinks a nc i ev source_id seen pending_indices)))"

definition deliver_through ::
  "nat \<Rightarrow> composite \<Rightarrow> int \<Rightarrow> event \<Rightarrow> string \<Rightarrow> seen_upsert \<Rightarrow> delivery_attempt attempt" where
  "deliver_through a nc i ev source_id seen =
    (let matching = matching_indices nc ev in
     if matching = [] then
       try_bind (fail_outbox_row_alert i source_id (no_notifier_error ev)) (\<lambda>_. ok attempt_failed)
     else
       try_bind (ensure_call i (map (\<lambda>idx. (idx, kind_at nc idx)) matching)) (\<lambda>_.
       try_bind (store_read (\<lambda>now app d. list_pending_sink_indices d i))
         (deliver_pending a nc i ev source_id seen)))"

definition deliver_to_pending_sinks ::
  "int \<Rightarrow> event \<Rightarrow> string \<Rightarrow> seen_upsert \<Rightarrow> delivery_attempt attempt" where
  "deliver_to_pending_sinks i ev source_id seen = do {
     a \<leftarrow> notifier_snapshot;
     nc \<leftarrow> notifier_at a;
     deliver_through a nc i ev source_id seen
   }"

text \<open>
  The delay before the next claim doubles from one minute with every attempt, up to the cap.  The
  code computes in floating point, where these values are exact.
\<close>

definition backoff_secs :: "int \<Rightarrow> nat \<Rightarrow> int" where
  "backoff_secs attempts max_secs =
     min (60 * 2 ^ nat (max 0 (min 16 (attempts - 1)))) (int max_secs)"

definition apply_attempt_backoff :: "int \<Rightarrow> int \<Rightarrow> delivery_attempt \<Rightarrow> unit prog" where
  "apply_attempt_backoff i attempts_before attempt = do {
     max_secs \<leftarrow> outbox_retry_backoff_max_secs;
     let backoff = backoff_secs (attempts_before + 1) max_secs;
     _ \<leftarrow> (if da_deferred_only attempt
           then store_write (\<lambda>now app d. ((), defer_delivery now i backoff d))
           else store_write (\<lambda>now app d. ((), apply_delivery_backoff now i backoff d)));
     State_Monad.return ()
   }"

section \<open>Advisory enrichment\<close>

record delivery_context =
  dc_event :: event
  dc_source_id :: string
  dc_kind :: string
  dc_package_name :: string
  dc_seen :: seen_upsert

definition persist_advisory_result :: "string \<Rightarrow> string \<Rightarrow> string \<Rightarrow> advisory list \<Rightarrow> unit prog" where
  "persist_advisory_result eco pkg ver as = do {
     _ \<leftarrow> store_write (\<lambda>now app d. ((), record_advisories now eco pkg ver as d));
     _ \<leftarrow> store_write (\<lambda>now app d. ((), record_advisory_check now eco pkg ver d));
     State_Monad.return ()
   }"

definition advisory_lookup :: "package_registry \<Rightarrow> string \<Rightarrow> string \<Rightarrow> lookup_outcome prog" where
  "advisory_lookup registry name version = State (\<lambda>w.
     let (out, st, t) = lookup (w_osv w (w_queries w)) (w_advisory_config w) (w_instant w)
           registry name version (w_lookup w) in
     (out, (pass_time (t - w_instant w) w)\<lparr>w_lookup := st, w_queries := w_queries w + 1\<rparr>))"

definition enrich_with_advisories :: "delivery_context \<Rightarrow> event option prog" where
  "enrich_with_advisories c = do {
     cfg \<leftarrow> asks_world w_advisory_config;
     if \<not> advisory_active cfg then State_Monad.return None
     else (case coordinate_from_source (dc_source_id c) (dc_kind c) (dc_package_name c) of
         None \<Rightarrow> State_Monad.return None
       | Some (registry, name) \<Rightarrow> do {
           outcome \<leftarrow> advisory_lookup registry name (su_identity (dc_seen c));
           (if lo_verified outcome then
              (case ecosystem_for_registry registry of
                 None \<Rightarrow> State_Monad.return ()
               | Some eco \<Rightarrow> persist_advisory_result eco name (su_identity (dc_seen c)) (lo_advisories outcome))
            else State_Monad.return ());
           if lo_advisories outcome = [] then State_Monad.return None
           else State_Monad.return (Some ((dc_event c)
             \<lparr>ev_body := ev_body (dc_event c) @ render_markdown (lo_advisories outcome)\<rparr>))
         })
   }"

definition attempt_notification_delivery :: "int \<Rightarrow> int \<Rightarrow> delivery_context \<Rightarrow> bool attempt" where
  "attempt_notification_delivery i attempts_before c = do {
     enriched \<leftarrow> enrich_with_advisories c;
     let ev = (case enriched of None \<Rightarrow> dc_event c | Some e \<Rightarrow> e);
     outcome \<leftarrow> deliver_to_pending_sinks i ev (dc_source_id c) (dc_seen c);
     (case outcome of
        Inl _ \<Rightarrow> State_Monad.return ()
      | Inr attempt \<Rightarrow>
          if da_delivered attempt then State_Monad.return ()
          else apply_attempt_backoff i attempts_before attempt);
     State_Monad.return (map_sum id da_delivered outcome)
   }"

definition package_name_hint_for_advisory :: "string \<Rightarrow> string \<Rightarrow> string" where
  "package_name_hint_for_advisory source_id event_title =
    (case legacy_shared_package_name source_id of
       Some name \<Rightarrow> name
     | None \<Rightarrow> (case split_once '': new release '' event_title of None \<Rightarrow> [] | Some (name, _) \<Rightarrow> name))"

definition seen_upsert_for :: "outbox_record \<Rightarrow> seen_upsert" where
  "seen_upsert_for r =
    \<lparr>su_identity = or_identity r, su_display_tag = or_display_tag r,
     su_content_digest = or_content_digest r, su_published_at = or_published_at r, su_url = or_url r\<rparr>"

definition deliver_claimed_outbox_row :: "outbox_record \<Rightarrow> bool attempt" where
  "deliver_claimed_outbox_row r =
     attempt_notification_delivery (or_id r) (i32_of_nat (or_attempts r))
       \<lparr>dc_event = to_event r, dc_source_id = or_source_id r, dc_kind = or_source_kind r,
        dc_package_name = package_name_hint_for_advisory (or_source_id r) (or_title r),
        dc_seen = seen_upsert_for r\<rparr>"

section \<open>Digests\<close>

datatype delivery_unit = Single outbox_record | Digest "outbox_record list"

type_synonym digest_key = "timestamp \<times> string option"
type_synonym digest_groups = "(digest_key \<times> outbox_record list) list"

fun push_group :: "digest_key \<Rightarrow> outbox_record \<Rightarrow> digest_groups \<Rightarrow> digest_groups" where
  "push_group k r [] = [(k, [r])]"
| "push_group k r ((k', rs) # gs) = (if k' = k then (k', rs @ [r]) # gs else (k', rs) # push_group k r gs)"

fun add_to_groups :: "outbox_record \<Rightarrow> digest_groups \<Rightarrow> digest_groups" where
  "add_to_groups r gs =
    (case or_deliver_after r of None \<Rightarrow> gs | Some at \<Rightarrow> push_group (at, or_routing_tag r) r gs)"

fun unit_of_group :: "digest_key \<times> outbox_record list \<Rightarrow> delivery_unit" where
  "unit_of_group (k, rs) = (case rs of [r] \<Rightarrow> Single r | _ \<Rightarrow> Digest rs)"

text \<open>The order in which the hash map gives its groups back is the parameter \<open>order\<close>.\<close>

definition partition_for_digest ::
  "(digest_groups \<Rightarrow> digest_groups) \<Rightarrow> outbox_record list \<Rightarrow> delivery_unit list" where
  "partition_for_digest order wave =
     map Single (filter (\<lambda>r. or_deliver_after r = None) wave)
     @ map unit_of_group (order (fold add_to_groups wave []))"

definition build_digest_event :: "outbox_record list \<Rightarrow> event" where
  "build_digest_event grp =
    (let n = show_nat (length grp) in
     \<lparr>ev_source_id = ''digest'', ev_source_kind = ''Digest'', ev_title = n @ '' new releases'',
      ev_body = ''**'' @ n @ '' releases** ready:'' @ nl @ nl
        @ concat (map (\<lambda>r. ''- '' @ or_title r
            @ (case or_url r of None \<Rightarrow> [] | Some u \<Rightarrow> dash @ u) @ nl) grp),
      ev_url = None, ev_routing_tag = or_routing_tag (hd grp)\<rparr>)"

definition union_of :: "nat list list \<Rightarrow> nat list" where
  "union_of ps = fold (\<lambda>i us. if i \<in> set us then us else us @ [i]) (concat ps) []"

text \<open>The pending matching sinks of one row; ledger rows that no longer match are abandoned.\<close>

definition digest_row_pending :: "event \<Rightarrow> nat list \<Rightarrow> outbox_record \<Rightarrow> nat list attempt" where
  "digest_row_pending ev matching r =
     try_bind (store_read (\<lambda>now app d. list_pending_sink_indices d (or_id r))) (\<lambda>raw.
       let orphans = filter (\<lambda>idx. idx \<notin> set matching) raw in
       try_bind (if orphans = [] then ok 0 else abandon_call (or_id r) orphans (orphan_error ev))
         (\<lambda>_. ok (filter (\<lambda>idx. idx \<in> set matching) raw)))"

definition digest_nothing_pending :: "outbox_record \<Rightarrow> delivery_attempt attempt" where
  "digest_nothing_pending r =
     try_bind (store_read (\<lambda>now app d. sinks_delivery_complete d (or_id r))) (\<lambda>complete.
     if complete then complete_or_failed (or_id r) (or_source_id r) (seen_upsert_for r)
     else try_bind (sync_outbox_status_alert (or_id r) (or_source_id r)) (\<lambda>_. ok attempt_failed))"

definition digest_apply ::
  "(nat \<times> notify_error option) list \<Rightarrow> outbox_record \<times> nat list \<Rightarrow> delivery_attempt attempt" where
  "digest_apply results rp =
    (let r = fst rp; mine = filter (\<lambda>x. fst x \<in> set (snd rp)) results in
     try_bind (try_map (apply_result (or_id r)) mine) (\<lambda>_.
     try_bind (sync_outbox_status_alert (or_id r) (or_source_id r)) (\<lambda>_.
     try_bind (store_read (\<lambda>now app d. sinks_delivery_complete d (or_id r))) (\<lambda>complete.
     if complete then complete_or_failed (or_id r) (or_source_id r) (seen_upsert_for r)
     else ok (if any_failed mine \<and> \<not> any_real_failure mine then attempt_deferred else attempt_failed)))))"

definition deliver_digest_to_pending_sinks ::
  "event \<Rightarrow> outbox_record list \<Rightarrow> delivery_attempt list attempt" where
  "deliver_digest_to_pending_sinks ev grp = do {
     a \<leftarrow> notifier_snapshot;
     nc \<leftarrow> notifier_at a;
     let matching = matching_indices nc ev;
     if matching = [] then
       try_bind (try_map (\<lambda>r. fail_outbox_row_alert (or_id r) (or_source_id r) (no_notifier_error ev)) grp)
         (\<lambda>_. ok (replicate (length grp) attempt_failed))
     else
       try_bind (try_map (\<lambda>r. ensure_call (or_id r) (map (\<lambda>idx. (idx, kind_at nc idx)) matching)) grp) (\<lambda>_.
       try_bind (try_map (digest_row_pending ev matching) grp) (\<lambda>row_pending.
       if union_of row_pending = [] then try_map digest_nothing_pending grp
       else do {
         results \<leftarrow> fan_out (Digest_delivery (map or_id grp)) a ev (union_of row_pending);
         emit_breaker_alerts a;
         each (\<lambda>r. record_sink_attempt nc (fst r) (snd r)) results;
         try_map (digest_apply results) (zip grp row_pending)
       }))
   }"

definition digest_backoff :: "outbox_record \<times> delivery_attempt \<Rightarrow> (string \<times> bool) prog" where
  "digest_backoff ra = do {
     (if da_delivered (snd ra) then State_Monad.return ()
      else apply_attempt_backoff (or_id (fst ra)) (i32_of_nat (or_attempts (fst ra))) (snd ra));
     State_Monad.return (or_source_id (fst ra), da_delivered (snd ra))
   }"

definition deliver_claimed_outbox_digest :: "outbox_record list \<Rightarrow> (string \<times> bool) list attempt" where
  "deliver_claimed_outbox_digest grp =
     try_bind (deliver_digest_to_pending_sinks (build_digest_event grp) grp) (\<lambda>outcomes. do {
       rows \<leftarrow> traverse_list digest_backoff (zip grp outcomes);
       ok rows
     })"

section \<open>Flushing the queue\<close>

fun deliver_unit :: "delivery_unit \<Rightarrow> (string \<times> bool) list attempt" where
  "deliver_unit (Single r) =
     try_bind (deliver_claimed_outbox_row r) (\<lambda>delivered. ok [(or_source_id r, delivered)])"
| "deliver_unit (Digest grp) = deliver_claimed_outbox_digest grp"

definition claim_call :: "nat \<Rightarrow> outbox_record list attempt" where
  "claim_call n = store_write (\<lambda>now app. claim_outbox_batch now n OUTBOX_LEASE_SECS)"

text \<open>The rows of the successful units, and the first error.\<close>

definition rows_of :: "('e + (string \<times> bool) list) list \<Rightarrow> (string \<times> bool) list" where
  "rows_of results = concat (map (\<lambda>r. case r of Inl _ \<Rightarrow> [] | Inr rows \<Rightarrow> rows) results)"

fun first_error :: "'e option \<Rightarrow> ('e + 'a) list \<Rightarrow> 'e option" where
  "first_error err [] = err"
| "first_error err (Inr _ # rs) = first_error err rs"
| "first_error err (Inl e # rs) = first_error (case err of None \<Rightarrow> Some e | Some e0 \<Rightarrow> Some e0) rs"

definition count_delivered :: "string \<times> bool \<Rightarrow> unit prog" where
  "count_delivered row =
    (if snd row then count_metric (record_notifications (fst row) 1) else State_Monad.return ())"

definition flush_result :: "nat \<Rightarrow> pipeline_error option \<Rightarrow> nat attempt" where
  "flush_result sent err = State_Monad.return (case err of Some e \<Rightarrow> Inl e | None \<Rightarrow> Inr sent)"

function flush_waves ::
  "(digest_groups \<Rightarrow> digest_groups) \<Rightarrow> nat \<Rightarrow> nat \<Rightarrow> nat \<Rightarrow> nat \<Rightarrow> pipeline_error option \<Rightarrow> nat attempt" where
  "flush_waves order limit concurrency claimed_total sent err =
    (if claimed_total < limit then
       let wave_limit = min concurrency (limit - claimed_total) in
       try_bind (claim_call wave_limit) (\<lambda>wave.
         if wave = [] then flush_result sent err
         else do {
           results \<leftarrow> traverse_list deliver_unit (partition_for_digest order wave);
           each count_delivered (rows_of results);
           (let sent' = sent + length (filter snd (rows_of results));
                err' = first_error err results in
            if length wave < wave_limit then flush_result sent' err'
            else flush_waves order limit concurrency (claimed_total + length wave) sent' err')
         })
     else flush_result sent err)"
  by pat_completeness auto

termination
  by (relation "measure (\<lambda>(order, limit, concurrency, claimed_total, sent, err). limit - claimed_total)")
     (auto intro!: diff_less_mono2)

declare flush_waves.simps [simp del]

definition flush_notification_outbox :: "(digest_groups \<Rightarrow> digest_groups) \<Rightarrow> nat \<Rightarrow> nat attempt" where
  "flush_notification_outbox order limit = do {
     c \<leftarrow> outbox_flush_concurrency;
     flush_waves order limit (max c 1) 0 0 None
   }"

section \<open>Every handler keeps what the store keeps\<close>

lemmas row_program_defs = record_sink_attempt_def fail_outbox_row_def sync_outbox_status_def
  emit_dead_outbox_alert_def emit_breaker_alerts_def fail_outbox_row_alert_def
  sync_outbox_status_alert_def complete_or_failed_def sink_ok_call_def sink_fail_call_def
  apply_result_def abandon_call_def apply_attempt_backoff_def

context program_contract
begin

lemma fail_call_keeps [keeps]:
  "op_ok (Op_fail i err) \<Longrightarrow> preserves J (store_write (\<lambda>now app. fail_notification i err))"
  by (rule write_keeps) auto

lemma sync_call_keeps [keeps]:
  "op_ok (Op_sync i) \<Longrightarrow> preserves J (store_write (\<lambda>now app. sync_outbox_sink_status i))"
  by (rule write_keeps) auto

lemma complete_call_keeps [keeps]:
  "op_ok (Op_complete i s u) \<Longrightarrow> preserves J (store_write (\<lambda>now app. complete_notification now i s u))"
  by (rule write_keeps) auto

lemma sink_ok_keeps [keeps]:
  "op_ok (Op_sink_ok i k) \<Longrightarrow> preserves J (store_write (\<lambda>now app d. ((), complete_sink_delivery now i k d)))"
  by (rule write_keeps) auto

lemma sink_fail_keeps [keeps]:
  "op_ok (Op_sink_fail i k err) \<Longrightarrow> preserves J (store_write (\<lambda>now app d. ((), fail_sink_delivery i k err d)))"
  by (rule write_keeps) auto

lemma abandon_keeps [keeps]:
  "op_ok (Op_abandon i ks err) \<Longrightarrow> preserves J (store_write (\<lambda>now app. abandon_retryable_sinks i ks err))"
  by (rule write_keeps) auto

lemma defer_keeps [keeps]:
  "op_ok (Op_defer i b) \<Longrightarrow> preserves J (store_write (\<lambda>now app d. ((), defer_delivery now i b d)))"
  by (rule write_keeps) auto

lemma backoff_keeps [keeps]:
  "op_ok (Op_backoff i b) \<Longrightarrow> preserves J (store_write (\<lambda>now app d. ((), apply_delivery_backoff now i b d)))"
  by (rule write_keeps) auto

lemma advisories_keep [keeps]:
  "op_ok (Op_advisories e p v as) \<Longrightarrow>
   preserves J (store_write (\<lambda>now app d. ((), record_advisories now e p v as d)))"
  by (rule write_keeps) auto

lemma check_keeps [keeps]:
  "op_ok (Op_check e p v) \<Longrightarrow> preserves J (store_write (\<lambda>now app d. ((), record_advisory_check now e p v d)))"
  by (rule write_keeps) auto

lemma claim_keeps [keeps]:
  "op_ok (Op_claim_batch n) \<Longrightarrow>
   preserves J (store_write (\<lambda>now app. claim_outbox_batch now n OUTBOX_LEASE_SECS))"
  by (rule write_keeps) auto

lemma ensure_call_keeps [keeps]:
  assumes "op_ok (Op_ensure i sinks)"
  shows "preserves J (ensure_call i sinks)"
  unfolding ensure_call_def
proof (rule call_keeps)
  fix now app :: int and d
  have "snd (case ensure_sink_deliveries i sinks d of Inl e \<Rightarrow> (Inl e, d) | Inr d' \<Rightarrow> (Inr (), d'))
      = exec_op now app (Op_ensure i sinks) d"
    by (simp split: sum.splits)
  then show "\<exists>p. op_ok p \<and> snd (case ensure_sink_deliveries i sinks d of Inl e \<Rightarrow> (Inl e, d) | Inr d' \<Rightarrow> (Inr (), d'))
      = exec_op now app p d
    \<or> snd (case ensure_sink_deliveries i sinks d of Inl e \<Rightarrow> (Inl e, d) | Inr d' \<Rightarrow> (Inr (), d')) = d"
    using assms by blast
qed

lemma drain_keeps [keeps]: "preserves J (drain_breakers a)"
proof (rule preservesI)
  fix w assume "J w"
  then show "J (snd (run_state (drain_breakers a) w))"
    using heap_keeps [of w a Drain_op] by (simp add: drain_breakers_def)
qed

lemma lookup_keeps [keeps]: "preserves J (advisory_lookup r n v)"
proof (rule preservesI)
  fix w assume "J w"
  then show "J (snd (run_state (advisory_lookup r n v) w))"
    using cache_keeps [OF time_keeps] by (simp add: advisory_lookup_def Let_def split_def)
qed

lemma counter_programs_keep [keeps]:
  "preserves J (record_sink_attempt nc k r)" "preserves J (emit_breaker_alerts a)"
  "preserves J (emit_dead_outbox_alert i s)" "preserves J (count_delivered row)"
  unfolding row_program_defs count_delivered_def
  by (intro keeps)+

lemma fail_row_keeps [keeps]: "op_ok (Op_fail i err) \<Longrightarrow> preserves J (fail_outbox_row_alert i s err)"
  unfolding fail_outbox_row_alert_def fail_outbox_row_def by (intro keeps)

lemma sync_row_keeps [keeps]: "op_ok (Op_sync i) \<Longrightarrow> preserves J (sync_outbox_status_alert i s)"
  unfolding sync_outbox_status_alert_def sync_outbox_status_def by (intro keeps)

lemma abandon_row_keeps [keeps]: "op_ok (Op_abandon i ks err) \<Longrightarrow> preserves J (abandon_call i ks err)"
  unfolding abandon_call_def by (intro keeps)

lemma complete_row_keeps [keeps]: "op_ok (Op_complete i s u) \<Longrightarrow> preserves J (complete_or_failed i s u)"
  unfolding complete_or_failed_def by (intro keeps)

lemma apply_result_keeps [keeps]:
  "op_ok (Op_sink_ok i (fst x)) \<Longrightarrow> (\<And>err. op_ok (Op_sink_fail i (fst x) err)) \<Longrightarrow> preserves J (apply_result i x)"
  unfolding apply_result_def sink_ok_call_def sink_fail_call_def by (intro keeps)

lemma attempt_backoff_keeps [keeps]:
  "(\<And>b. op_ok (Op_defer i b)) \<Longrightarrow> (\<And>b. op_ok (Op_backoff i b)) \<Longrightarrow> preserves J (apply_attempt_backoff i n at)"
  unfolding apply_attempt_backoff_def Let_def by (intro keeps)

lemma persist_keeps [keeps]:
  "op_ok (Op_advisories e p v as) \<Longrightarrow> op_ok (Op_check e p v) \<Longrightarrow> preserves J (persist_advisory_result e p v as)"
  unfolding persist_advisory_result_def by (intro keeps)

lemma enrich_keeps [keeps]:
  "(\<And>e p v as. op_ok (Op_advisories e p v as)) \<Longrightarrow> (\<And>e p v. op_ok (Op_check e p v)) \<Longrightarrow>
   preserves J (enrich_with_advisories c)"
  unfolding enrich_with_advisories_def by (intro keeps)

lemma flush_result_keeps [keeps]: "preserves J (flush_result sent err)"
  unfolding flush_result_def by (intro keeps)

lemma claim_call_keeps [keeps]: "op_ok (Op_claim_batch n) \<Longrightarrow> preserves J (claim_call n)"
  unfolding claim_call_def by (intro keeps)

end

context worker_contract
begin

lemma deliver_row_keeps [keeps]: "preserves J (deliver_to_pending_sinks i ev s u)"
  unfolding deliver_to_pending_sinks_def deliver_through_def deliver_pending_def
    call_pending_sinks_def Let_def by (intro keeps delivery_oks)

lemma attempt_keeps [keeps]: "preserves J (attempt_notification_delivery i n c)"
  unfolding attempt_notification_delivery_def Let_def by (intro keeps delivery_oks)

end

context world_contract
begin

lemma deliver_digest_keeps [keeps]: "preserves J (deliver_digest_to_pending_sinks ev grp)"
  unfolding deliver_digest_to_pending_sinks_def digest_row_pending_def digest_nothing_pending_def
    digest_apply_def Let_def by (intro keeps TrueI)

lemma deliver_unit_keeps [keeps]: "preserves J (deliver_unit x)"
  by (cases x)
     (auto simp: deliver_claimed_outbox_row_def deliver_claimed_outbox_digest_def digest_backoff_def
       intro!: keeps)

lemma flush_waves_keep: "preserves J (flush_waves order limit c claimed sent err)"
proof (induction order limit c claimed sent err rule: flush_waves.induct)
  case (1 order limit c claimed sent err)
  have IH: "preserves J (flush_waves order limit c (claimed + length wave)
      (sent + length (filter snd (rows_of results))) (first_error err results))"
    if "claimed < limit" "wave \<noteq> []" "\<not> length wave < min c (limit - claimed)"
    for wave :: "outbox_record list" and results
    by (rule "1.IH" [OF that(1) refl that(2) refl refl that(3)])
  show ?case
    by (subst flush_waves.simps) (unfold Let_def, intro keeps IH TrueI)
qed

lemma flush_keeps [keeps]: "preserves J (flush_notification_outbox order limit)"
  unfolding flush_notification_outbox_def by (intro keeps flush_waves_keep)

end

end
