(* ===== verification/Flush.thy ===== *)
theory Flush
  imports Delivery
begin

text \<open>
  What the flush loop guarantees (\<^verbatim>\<open>src/src/pipeline/outbox.rs\<close>): tables kept under faults and
  interference, its bound, the digest grouping and the retry delays.
\<close>

section \<open>Grouping\<close>

definition moment_of :: "outbox_record \<Rightarrow> digest_key option" where
  "moment_of r = map_option (\<lambda>at. (at, or_routing_tag r)) (or_deliver_after r)"

fun unit_rows :: "delivery_unit \<Rightarrow> outbox_record list" where
  "unit_rows (Single r) = [r]"
| "unit_rows (Digest rs) = rs"

definition group_of :: "outbox_record list \<Rightarrow> digest_key \<Rightarrow> outbox_record list option" where
  "group_of wave k =
    (let rs = filter (\<lambda>r. moment_of r = Some k) wave in if rs = [] then None else Some rs)"

lemma push_group_keys: "fst ` set (push_group k r gs) = insert k (fst ` set gs)"
  by (induction k r gs rule: push_group.induct) auto

lemma push_group_distinct: "distinct (map fst gs) \<Longrightarrow> distinct (map fst (push_group k r gs))"
proof (induction k r gs rule: push_group.induct)
  case (2 k r k' rs gs)
  then show ?case by (cases "k' = k") (simp_all add: push_group_keys)
qed simp

lemma push_group_lookup:
  "map_of (push_group k r gs) x
     = (if x = k then Some (case map_of gs k of None \<Rightarrow> [r] | Some rs \<Rightarrow> rs @ [r]) else map_of gs x)"
proof (induction k r gs rule: push_group.induct)
  case (2 k r k' rs gs)
  then show ?case by (cases "k' = k"; cases "x = k") simp_all
qed simp

lemma push_group_map_of:
  "map_of (push_group k r gs)
     = (map_of gs)(k := Some (case map_of gs k of None \<Rightarrow> [r] | Some rs \<Rightarrow> rs @ [r]))"
  by (rule ext) (simp only: push_group_lookup fun_upd_apply)

lemma groups_of_wave:
  "distinct (map fst (fold add_to_groups wave [])) \<and> map_of (fold add_to_groups wave []) = group_of wave"
proof (induction wave rule: rev_induct)
  case Nil
  then show ?case by (simp add: group_of_def fun_eq_iff)
next
  case (snoc r wave)
  let ?gs = "fold add_to_groups wave []"
  show ?case
  proof (cases "or_deliver_after r")
    case None
    then have "group_of (wave @ [r]) = group_of wave"
      by (simp add: group_of_def moment_of_def fun_eq_iff)
    then show ?thesis using snoc None by simp
  next
    case (Some at)
    let ?k = "(at, or_routing_tag r)"
    have "moment_of r = Some ?k" using Some by (simp add: moment_of_def)
    then have "group_of (wave @ [r]) = (group_of wave)
        (?k := Some (case group_of wave ?k of None \<Rightarrow> [r] | Some rs \<Rightarrow> rs @ [r]))"
      by (rule_tac ext) (simp add: group_of_def Let_def)
    then show ?thesis using snoc Some by (simp add: push_group_map_of push_group_distinct)
  qed
qed

lemma group_mem:
  "(k, rs) \<in> set (fold add_to_groups wave []) \<longleftrightarrow>
     rs = filter (\<lambda>r. moment_of r = Some k) wave \<and> rs \<noteq> []"
proof -
  have "(k, rs) \<in> set (fold add_to_groups wave []) \<longleftrightarrow> group_of wave k = Some rs"
    using groups_of_wave [of wave] by (metis map_of_eq_Some_iff)
  then show ?thesis by (auto simp: group_of_def Let_def)
qed

lemma push_group_rows: "mset (concat (map snd (push_group k r gs))) = add_mset r (mset (concat (map snd gs)))"
  by (induction k r gs rule: push_group.induct) auto

lemma groups_rows:
  "mset (concat (map snd (fold add_to_groups wave []))) = mset (filter (\<lambda>r. or_deliver_after r \<noteq> None) wave)"
  by (induction wave rule: rev_induct) (auto simp: push_group_rows split: option.splits)

lemma unit_rows_group [simp]: "unit_rows (unit_of_group (k, rs)) = rs"
  by (cases rs; cases "tl rs") auto

lemma map_unit_rows_group: "map (unit_rows \<circ> unit_of_group) gs = map snd gs"
proof -
  have "unit_rows (unit_of_group g) = snd g" for g
    using unit_rows_group [of "fst g" "snd g"] by (simp del: unit_rows_group)
  then show ?thesis by simp
qed

lemma mset_concat_perm:
  assumes "mset xs = mset ys"
  shows "mset (concat (map f xs)) = mset (concat (map f ys))"
proof -
  have "mset (concat (map f zs)) = sum_mset (image_mset (\<lambda>x. mset (f x)) (mset zs))" for zs
    by (induction zs) auto
  then show ?thesis using assms by simp
qed

definition same_order :: "digest_groups \<Rightarrow> digest_groups" where
  "same_order gs = gs"

lemma partition_rows:
  assumes "\<And>gs. mset (order gs) = mset gs"
  shows "mset (concat (map unit_rows (partition_for_digest order wave))) = mset wave"
proof -
  let ?gs = "fold add_to_groups wave []"
  have "mset (concat (map snd (order ?gs))) = mset (concat (map snd ?gs))"
    by (rule mset_concat_perm) (rule assms)
  then have scheduled: "mset (concat (map snd (order ?gs)))
      = mset (filter (\<lambda>r. or_deliver_after r \<noteq> None) wave)"
    by (simp only: groups_rows)
  have singles: "concat (map (unit_rows \<circ> Single) xs) = xs" for xs
    by (induction xs) auto
  have "mset (filter (\<lambda>r. or_deliver_after r = None) wave)
      + mset (filter (\<lambda>r. or_deliver_after r \<noteq> None) wave) = mset wave"
    by (induction wave) auto
  then show ?thesis
    unfolding partition_for_digest_def map_append map_map concat_append mset_append
      map_unit_rows_group singles scheduled .
qed

text \<open>
  C34: digests lose and repeat nothing.  Whatever order the hash map of the groups answers in, the
  units of a wave contain exactly its rows, each as often as the wave does; a row with a scheduled
  moment is delivered singly only when no other row of the wave shares its moment and routing tag,
  and a digest consists of all rows (at least two) of the wave that share one moment and tag.
\<close>

theorem partition_groups_by_moment:
  assumes "\<And>gs. mset (order gs) = mset gs"
  shows "mset (concat (map unit_rows (partition_for_digest order wave))) = mset wave
    \<and> list_all (\<lambda>u. case u of
        Single r \<Rightarrow> (case moment_of r of None \<Rightarrow> True
          | Some k \<Rightarrow> filter (\<lambda>x. moment_of x = Some k) wave = [r])
      | Digest rs \<Rightarrow> 2 \<le> length rs \<and> (\<exists>k. rs = filter (\<lambda>x. moment_of x = Some k) wave))
      (partition_for_digest order wave)"
proof (rule conjI [OF partition_rows [OF assms]])
  let ?gs = "fold add_to_groups wave []"
  have set_eq: "set (order ?gs) = set ?gs" using assms by (metis set_mset_mset)
  have grp: "(k, rs) \<in> set (order ?gs) \<Longrightarrow> rs = filter (\<lambda>r. moment_of r = Some k) wave \<and> rs \<noteq> []" for k rs
    unfolding set_eq group_mem .
  have "case unit_of_group (k, rs) of
        Single r \<Rightarrow> (case moment_of r of None \<Rightarrow> True
          | Some k \<Rightarrow> filter (\<lambda>x. moment_of x = Some k) wave = [r])
      | Digest rs \<Rightarrow> 2 \<le> length rs \<and> (\<exists>k. rs = filter (\<lambda>x. moment_of x = Some k) wave)"
    if "(k, rs) \<in> set (order ?gs)" for k rs
  proof (cases "\<exists>r. rs = [r]")
    case True
    then obtain r where r: "rs = [r]" by blast
    then have "moment_of r = Some k" using grp [OF that] by (auto dest!: arg_cong [where f = set])
    moreover have "filter (\<lambda>r. moment_of r = Some k) wave = [r]" using grp [OF that] r by simp
    ultimately show ?thesis by (simp add: r)
  next
    case False
    have "rs \<noteq> []" using grp [OF that] by blast
    with False obtain x y ys where rs: "rs = x # y # ys" by (metis neq_Nil_conv)
    then have "unit_of_group (k, rs) = Digest rs" "2 \<le> length rs" by simp_all
    then show ?thesis using grp [OF that] by (simp only: delivery_unit.case) blast
  qed
  then show "list_all (\<lambda>u. case u of
        Single r \<Rightarrow> (case moment_of r of None \<Rightarrow> True
          | Some k \<Rightarrow> filter (\<lambda>x. moment_of x = Some k) wave = [r])
      | Digest rs \<Rightarrow> 2 \<le> length rs \<and> (\<exists>k. rs = filter (\<lambda>x. moment_of x = Some k) wave))
      (partition_for_digest order wave)"
    by (auto simp: partition_for_digest_def list_all_iff moment_of_def)
qed

definition example_record :: "int \<Rightarrow> timestamp option \<Rightarrow> outbox_record" where
  "example_record i at = outbox_record_from_row ((example_outbox_row i ''r'' Pending None)\<lparr>ob_deliver_after := at\<rparr>)"

theorem partition_groups_by_moment_witness:
  "mset (concat (map unit_rows (partition_for_digest rev [example_record 1 (Some 5), example_record 2 None,
      example_record 3 (Some 5)])))
     = mset [example_record 1 (Some 5), example_record 2 None, example_record 3 (Some 5)]"
proof -
  have "\<And>gs :: digest_groups. mset (rev gs) = mset gs" by simp
  note p = partition_groups_by_moment [OF this]
  show ?thesis by (rule conjunct1 [OF p])
qed

section \<open>Delays\<close>

text \<open>
  retry delays.  With the cap of a running engine (at least one minute) the delay is between
  one minute and the cap, never shrinks with more attempts, and for the first seventeen attempts
  is exactly one minute doubled per attempt, up to the cap.
\<close>

theorem backoff_bounds:
  assumes "60 \<le> max_secs" and "m \<le> n"
  shows "60 \<le> backoff_secs n max_secs \<and> backoff_secs n max_secs \<le> int max_secs
    \<and> backoff_secs m max_secs \<le> backoff_secs n max_secs
    \<and> (1 \<le> n \<and> n \<le> 17 \<longrightarrow> backoff_secs n max_secs = min (60 * 2 ^ nat (n - 1)) (int max_secs))"
proof -
  have "nat (max 0 (min 16 (m - 1))) \<le> nat (max 0 (min 16 (n - 1)))" using assms(2) by simp
  then have "(2::int) ^ nat (max 0 (min 16 (m - 1))) \<le> 2 ^ nat (max 0 (min 16 (n - 1)))"
    by (rule power_increasing) simp
  moreover have "(1::int) \<le> 2 ^ nat (max 0 (min 16 (n - 1)))" by simp
  moreover have "nat (max 0 (min 16 (n - 1))) = nat (n - 1)" if "1 \<le> n" "n \<le> 17"
    using that by simp
  ultimately show ?thesis using assms(1)
    by (auto simp: backoff_secs_def min_le_iff_disj)
qed

theorem backoff_bounds_witness: "backoff_secs 1 3600 \<le> backoff_secs 7 3600 \<and> backoff_secs 7 3600 = 3600"
  using backoff_bounds [of 3600 1 7] by simp

section \<open>The bound of a flush\<close>

text \<open>Intact tables stay intact and a source keeps its baseline, whatever the surroundings do.\<close>

lemma flush_keeps_tables:
  assumes "db_ok (w_db w)"
  shows "db_ok (w_db (snd (run_state (flush_notification_outbox order limit) w)))"
    and "is_initialized (w_db w) s \<Longrightarrow>
      is_initialized (w_db (snd (run_state (flush_notification_outbox order limit) w))) s"
  using preservesD [OF integrity.flush_keeps] preservesD [OF baseline.flush_keeps] assms by blast+

lemma traverse_length: "run_state (traverse_list f xs) w = (ys, w') \<Longrightarrow> length ys = length xs"
  by (induction xs arbitrary: w ys) (auto split: prod.splits)

lemma run_try:
  "run_state (try_bind m f) w = (case run_state m w of (Inl e, w1) \<Rightarrow> (Inl e, w1) | (Inr x, w1) \<Rightarrow> run_state (f x) w1)"
  by (simp add: try_bind_def split: prod.splits sum.splits)

lemma run_ok [simp]: "run_state (ok x) w = (Inr x, w)"
  by (simp add: ok_def)

lemma deliver_unit_rows:
  "run_state (deliver_unit u) w = (Inr rows, w') \<Longrightarrow> length rows \<le> length (unit_rows u)"
proof (cases u)
  case (Single r)
  then show "run_state (deliver_unit u) w = (Inr rows, w') \<Longrightarrow> ?thesis"
    by (auto simp: run_try split: prod.splits sum.splits)
next
  case (Digest rs)
  then show "run_state (deliver_unit u) w = (Inr rows, w') \<Longrightarrow> ?thesis"
    by (auto simp: deliver_claimed_outbox_digest_def run_try split: prod.splits sum.splits
        dest!: traverse_length)
qed

lemma deliver_units_rows:
  "run_state (traverse_list deliver_unit us) w = (results, w') \<Longrightarrow>
   length (rows_of results) \<le> length (concat (map unit_rows us))"
proof (induction us arbitrary: w w' results)
  case Nil
  then show ?case by (simp add: rows_of_def)
next
  case (Cons u us)
  obtain r w1 where r: "run_state (deliver_unit u) w = (r, w1)" by force
  obtain rs w2 where rs: "run_state (traverse_list deliver_unit us) w1 = (rs, w2)" by force
  have "results = r # rs" using Cons.prems r rs by simp
  moreover have "length (case r of Inl e \<Rightarrow> [] | Inr rows \<Rightarrow> rows) \<le> length (unit_rows u)"
    using deliver_unit_rows r by (cases r) auto
  moreover have "length (rows_of rs) \<le> length (concat (map unit_rows us))" by (rule Cons.IH [OF rs])
  ultimately show ?case by (simp add: rows_of_def)
qed

lemma claim_call_length:
  assumes "db_ok (w_db w)" and "run_state (claim_call n) w = (Inr wave, w')"
  shows "length wave \<le> n"
proof -
  let ?v = "snd (env_turn w)"
  have "db_ok (w_db ?v)" by (rule integrity.turn_keeps) (rule assms(1))
  then have "length (fst (claim_outbox_batch (w_now ?v) n OUTBOX_LEASE_SECS (w_db ?v))) \<le> n"
    by (simp add: length_batch)
  then show ?thesis using assms(2)
    by (auto simp: claim_call_def store_write_def store_call_def Let_def split_def split: fault.splits)
qed

text \<open>One wave: what it delivers, and the world in which the next one starts.\<close>

definition run_wave :: "(digest_groups \<Rightarrow> digest_groups) \<Rightarrow> outbox_record list
    \<Rightarrow> (pipeline_error + (string \<times> bool) list) list prog" where
  "run_wave order wave = do {
     results \<leftarrow> traverse_list deliver_unit (partition_for_digest order wave);
     each count_delivered (rows_of results);
     State_Monad.return results
   }"

lemma run_wave_keeps: "db_ok (w_db w) \<Longrightarrow> db_ok (w_db (snd (run_state (run_wave order wave) w)))"
  unfolding run_wave_def
  by (rule preservesD [where J = "\<lambda>w. db_ok (w_db w)"]) (intro keeps integrity.deliver_unit_keeps
      integrity.counter_programs_keep)

lemma run_wave_rows:
  assumes "\<And>gs. mset (order gs) = mset gs" and "run_state (run_wave order wave) w = (results, w')"
  shows "length (rows_of results) \<le> length wave"
proof -
  obtain w1 where "run_state (traverse_list deliver_unit (partition_for_digest order wave)) w = (results, w1)"
    using assms(2) by (auto simp: run_wave_def split: prod.splits)
  then have "length (rows_of results) \<le> length (concat (map unit_rows (partition_for_digest order wave)))"
    by (rule deliver_units_rows)
  also have "\<dots> = length wave"
    using partition_rows [of order wave, OF assms(1)] by (metis size_mset)
  finally show ?thesis .
qed

lemma flush_waves_unfold:
  "flush_waves order limit c claimed sent err =
    (if claimed < limit then
       try_bind (claim_call (min c (limit - claimed))) (\<lambda>wave.
         if wave = [] then flush_result sent err
         else State_Monad.bind (run_wave order wave) (\<lambda>results.
           if length wave < min c (limit - claimed)
           then flush_result (sent + length (filter snd (rows_of results))) (first_error err results)
           else flush_waves order limit c (claimed + length wave)
             (sent + length (filter snd (rows_of results))) (first_error err results)))
     else flush_result sent err)"
  by (subst flush_waves.simps) (simp add: run_wave_def Let_def cong: if_cong)

lemma flush_result_Inr: "run_state (flush_result sent err) w = (Inr n, w') \<Longrightarrow> n = sent"
  by (auto simp: flush_result_def split: option.splits)

lemma flush_waves_bound:
  assumes order: "\<And>gs. mset (order gs) = mset gs"
  shows "db_ok (w_db w) \<Longrightarrow> sent \<le> claimed \<Longrightarrow> claimed \<le> limit \<Longrightarrow>
    run_state (flush_waves order limit c claimed sent err) w = (Inr n, w') \<Longrightarrow> n \<le> limit"
proof (induction "limit - claimed" arbitrary: w claimed sent err rule: less_induct)
  case less
  let ?n = "min c (limit - claimed)"
  show ?case
  proof (cases "claimed < limit")
    case False
    then show ?thesis using less.prems by (auto simp: flush_waves_unfold dest!: flush_result_Inr)
  next
    case True
    obtain wave w1 where cl: "run_state (claim_call ?n) w = (Inr wave, w1)"
      using less.prems(4) True by (subst (asm) flush_waves_unfold) (auto simp: run_try split: prod.splits sum.splits)
    have len: "length wave \<le> ?n" by (rule claim_call_length [OF less.prems(1) cl])
    have ok1: "db_ok (w_db w1)"
      using preservesD [OF integrity.claim_call_keeps, of w ?n] less.prems(1) cl by simp
    obtain results w2 where rw: "run_state (run_wave order wave) w1 = (results, w2)" by force
    have ok2: "db_ok (w_db w2)" using run_wave_keeps [OF ok1, of order wave] rw by simp
    have "length (filter snd (rows_of results)) \<le> length wave"
      using run_wave_rows [OF order rw] length_filter_le le_trans by blast
    then have s: "sent + length (filter snd (rows_of results)) \<le> claimed + length wave"
      using less.prems(2) by simp
    have bound: "claimed + length wave \<le> limit" using len True by arith
    show ?thesis
    proof (cases "wave = [] \<or> length wave < ?n")
      case True
      then show ?thesis using less.prems(2-4) cl rw s bound
        by (subst (asm) flush_waves_unfold) (auto simp: run_try split: if_splits dest!: flush_result_Inr)
    next
      case again: False
      have "run_state (flush_waves order limit c (claimed + length wave)
          (sent + length (filter snd (rows_of results))) (first_error err results)) w2 = (Inr n, w')"
        using less.prems(4) True cl rw again by (subst (asm) flush_waves_unfold) (auto simp: run_try)
      moreover have "limit - (claimed + length wave) < limit - claimed"
        using again True by (intro diff_less_mono2) auto
      ultimately show ?thesis using less.hyps [OF _ ok2 s bound] by blast
    qed
  qed
qed

text \<open>
  C35: a flush is bounded.  Under any faults and interference a flush that reports success reports
  at most its limit of delivered notifications, because every wave claims at most what is left of
  the limit and every claimed row is delivered at most once.
\<close>

theorem flush_sent_bounded:
  assumes "db_ok (w_db w)" and "\<And>gs. mset (order gs) = mset gs"
    and "run_state (flush_notification_outbox order limit) w = (Inr n, w')"
  shows "n \<le> limit"
proof -
  have "run_state (flush_waves order limit (max (rt_flush_concurrency (w_runtime w)) 1) 0 0 None) w = (Inr n, w')"
    using assms(3) by (simp add: flush_notification_outbox_def outbox_flush_concurrency_def asks_world_def)
  then show ?thesis using flush_waves_bound [OF assms(2) assms(1)] by blast
qed

definition quiet_step :: env_step where
  "quiet_step = \<lparr>es_elapsed = 0, es_actions = [], es_fault = Healthy\<rparr>"

definition example_world :: world where
  "example_world =
    \<lparr>w_db = example_queue, w_now = 100, w_skew = 0, w_instant = 0, w_ticks = 0,
     w_env = (\<lambda>_. quiet_step), w_heap = (\<lambda>_. composite_new example_sinks), w_fresh = 1,
     w_runtime = \<lparr>rt_notifier = 0, rt_flush_concurrency = 8, rt_backoff_max_secs = 3600, rt_ops_tag = None\<rparr>,
     w_net = (\<lambda>_ _ _. (3, None)), w_calls = 0, w_sent = [], w_metrics = metrics_new,
     w_prune = \<lparr>ps_seen_after_days = 0, ps_webhooks_after_days = 0, ps_outbox_sent_after_days = 0,
       ps_advisories_after_days = 0, ps_interval_hours = 0\<rparr>,
     w_advisory_config = advisory_config_default, w_lookup = lookup_new, w_osv = (\<lambda>_. example_osv),
     w_queries = 0\<rparr>"

lemma quiet_turn: "env_turn (example_world\<lparr>w_db := d\<rparr>) = (Healthy, example_world\<lparr>w_db := d, w_ticks := 1\<rparr>)"
  by (simp add: env_turn_def Let_def example_world_def quiet_step_def pass_time_def)

lemma idle_flush:
  "run_state (flush_notification_outbox same_order 5) (example_world\<lparr>w_db := empty_db\<rparr>)
     = (Inr 0, example_world\<lparr>w_db := empty_db, w_ticks := 1\<rparr>)"
proof -
  have "fst (claim_outbox_batch now n l empty_db) = []" "snd (claim_outbox_batch now n l empty_db) = empty_db"
    for now n l
    by (simp_all add: claim_outbox_batch_def empty_db_def update_rows_def Let_def)
  then have "run_state (claim_call n) (example_world\<lparr>w_db := empty_db\<rparr>)
      = (Inr [], example_world\<lparr>w_db := empty_db, w_ticks := 1\<rparr>)" for n
    by (simp add: claim_call_def store_write_def store_call_def quiet_turn Let_def split_def)
  then show ?thesis
    by (simp add: flush_notification_outbox_def outbox_flush_concurrency_def asks_world_def)
       (subst flush_waves_unfold, simp add: run_try flush_result_def)
qed

theorem flush_sent_bounded_witness:
  "\<exists>w'. run_state (flush_notification_outbox same_order 5) (example_world\<lparr>w_db := empty_db\<rparr>) = (Inr 0, w')
     \<and> (0::nat) \<le> 5"
proof -
  have "mset (same_order gs) = mset gs" for gs by (simp add: same_order_def)
  moreover have "db_ok (w_db (example_world\<lparr>w_db := empty_db\<rparr>))" by (simp add: db_ok_empty)
  ultimately show ?thesis using flush_sent_bounded [OF _ _ idle_flush] idle_flush by blast
qed

end
