(* ===== verification/Attempt.thy ===== *)
theory Attempt
  imports Flush
begin

text \<open>
  The safety of one delivery attempt under interference (\<^verbatim>\<open>deliver_to_pending_sinks\<close>).  What a
  reported delivery means is shown for surroundings that may take the row over, with the one
  moment before the completion left to them only as far as they spare the row; which sinks an
  attempt may call is shown for surroundings that do not act as the holder of the row's lease,
  which the exclusivity of leases grants until the lease runs out.
\<close>

section \<open>Triples\<close>

definition triple :: "(world \<Rightarrow> bool) \<Rightarrow> 'a prog \<Rightarrow> ('a \<Rightarrow> world \<Rightarrow> bool) \<Rightarrow> bool" where
  "triple P m Q \<longleftrightarrow> (\<forall>w. P w \<longrightarrow> Q (fst (run_state m w)) (snd (run_state m w)))"

lemma tripleI: "(\<And>w. P w \<Longrightarrow> Q (fst (run_state m w)) (snd (run_state m w))) \<Longrightarrow> triple P m Q"
  by (simp add: triple_def)

lemma tripleD: "triple P m Q \<Longrightarrow> P w \<Longrightarrow> run_state m w = (x, w') \<Longrightarrow> Q x w'"
  by (force simp: triple_def)

lemma triple_bind: "triple P m R \<Longrightarrow> (\<And>x. triple (R x) (f x) Q) \<Longrightarrow> triple P (State_Monad.bind m f) Q"
  by (simp add: triple_def split_def)

lemma triple_return: "(\<And>w. P w \<Longrightarrow> Q x w) \<Longrightarrow> triple P (State_Monad.return x) Q"
  by (simp add: triple_def)

lemma triple_ok: "(\<And>w. P w \<Longrightarrow> Q (Inr x) w) \<Longrightarrow> triple P (ok x) Q"
  by (simp add: triple_def ok_def)

lemma triple_try:
  assumes "triple P m (\<lambda>r w. case r of Inl e \<Rightarrow> Q (Inl e) w | Inr x \<Rightarrow> R x w)"
    and "\<And>x. triple (R x) (f x) Q"
  shows "triple P (try_bind m f) Q"
  unfolding try_bind_def
  by (rule triple_bind [OF assms(1)]) (auto split: sum.splits intro: triple_return assms(2))

lemma triple_if: "(b \<Longrightarrow> triple P m Q) \<Longrightarrow> (\<not> b \<Longrightarrow> triple P n Q) \<Longrightarrow> triple P (if b then m else n) Q"
  by simp

lemma triple_pre: "triple P' m Q \<Longrightarrow> (\<And>w. P w \<Longrightarrow> P' w) \<Longrightarrow> triple P m Q"
  by (simp add: triple_def)

lemma triple_post: "triple P m Q' \<Longrightarrow> (\<And>x w. Q' x w \<Longrightarrow> Q x w) \<Longrightarrow> triple P m Q"
  by (simp add: triple_def)

lemma triple_keep: "preserves J m \<Longrightarrow> triple J m (\<lambda>_. J)"
  by (simp add: triple_def preserves_def)

lemma triple_asks: "triple P (asks_world f) (\<lambda>x w. P w \<and> x = f w)"
  by (simp add: triple_def asks_world_def)

section \<open>What the surroundings leave alone\<close>

fun holder_op :: "int \<Rightarrow> store_op \<Rightarrow> bool" where
  "holder_op i (Op_release j) \<longleftrightarrow> j = i"
| "holder_op i (Op_backoff j _) \<longleftrightarrow> j = i"
| "holder_op i (Op_defer j _) \<longleftrightarrow> j = i"
| "holder_op i (Op_complete j _ _) \<longleftrightarrow> j = i"
| "holder_op i (Op_fail j _) \<longleftrightarrow> j = i"
| "holder_op i (Op_ensure j _) \<longleftrightarrow> j = i"
| "holder_op i (Op_sink_ok j _) \<longleftrightarrow> j = i"
| "holder_op i (Op_sink_fail j _ _) \<longleftrightarrow> j = i"
| "holder_op i (Op_abandon j _ _) \<longleftrightarrow> j = i"
| "holder_op i (Op_sync j) \<longleftrightarrow> j = i"
| "holder_op i _ \<longleftrightarrow> False"

fun foreign_action :: "int \<Rightarrow> env_action \<Rightarrow> bool" where
  "foreign_action i (Store_action p) \<longleftrightarrow> \<not> holder_op i p"
| "foreign_action i _ \<longleftrightarrow> True"

definition left_alone :: "int \<Rightarrow> world \<Rightarrow> bool" where
  "left_alone i w \<longleftrightarrow> (\<forall>n. list_all (foreign_action i) (es_actions (w_env w n)))"

definition open_row :: "int \<Rightarrow> db \<Rightarrow> bool" where
  "open_row i d \<longleftrightarrow> db_ok d \<and> list_ex (\<lambda>r. ob_id r = i \<and> ob_status r \<noteq> Sent) (db_outbox d)"

definition ledger_indices :: "int \<Rightarrow> db \<Rightarrow> int set" where
  "ledger_indices i d = sd_sink_index ` set (sinks_of d i)"

definition sent_indices :: "int \<Rightarrow> db \<Rightarrow> int set" where
  "sent_indices i d = sd_sink_index ` set (filter (\<lambda>k. sd_status k = Sent) (sinks_of d i))"

definition completes :: "int \<Rightarrow> store_op \<Rightarrow> bool" where
  "completes i p \<longleftrightarrow> (case p of Op_complete j _ _ \<Rightarrow> j = i | _ \<Rightarrow> False)"

definition revive :: "sink_row list \<Rightarrow> sink_row list" where
  "revive ks = map (\<lambda>k. if sd_status k \<noteq> Sent then reset_sink k else k) ks"

lemma revive_idem [simp]: "revive (revive ks) = revive ks"
  by (induction ks) (auto simp: revive_def reset_sink_def)

lemma reset_index [simp]: "sd_sink_index (reset_sink k) = sd_sink_index k"
  "sd_outbox_id (reset_sink k) = sd_outbox_id k"
  by (simp_all add: reset_sink_def)

lemma revive_sent: "filter (\<lambda>k. sd_status k = Sent) (revive ks) = filter (\<lambda>k. sd_status k = Sent) ks"
  by (induction ks) (auto simp: revive_def reset_sink_def)

lemma revive_indices: "map sd_sink_index (revive ks) = map sd_sink_index ks"
  by (induction ks) (auto simp: revive_def)

lemma revive_all_sent: "list_all (\<lambda>k. sd_status k = Sent) ks \<Longrightarrow> revive ks = ks"
  by (induction ks) (auto simp: revive_def)

section \<open>Open rows stay open, and their ledger is kept\<close>

lemma write_seen_tables [simp]:
  "db_outbox (write_seen_row now s u d) = db_outbox d" "db_sinks (write_seen_row now s u d) = db_sinks d"
  by (simp_all add: write_seen_row_def)

lemma fold_write_tables [simp]:
  "db_outbox (fold (\<lambda>u d. write_seen_row now s u d) us d) = db_outbox d"
  "db_sinks (fold (\<lambda>u d. write_seen_row now s u d) us d) = db_sinks d"
  by (induction us arbitrary: d) simp_all

lemma catalogue_tables [simp]:
  "db_outbox (mark_initialized now s d) = db_outbox d" "db_sinks (mark_initialized now s d) = db_sinks d"
  "db_outbox (touch_polled now s d) = db_outbox d" "db_sinks (touch_polled now s d) = db_sinks d"
  "db_outbox (set_latest_release_tag now s t d) = db_outbox d" "db_sinks (set_latest_release_tag now s t d) = db_sinks d"
  "db_outbox (set_etag now s e d) = db_outbox d" "db_sinks (set_etag now s e d) = db_sinks d"
  "db_outbox (record_seen now s u d) = db_outbox d" "db_sinks (record_seen now s u d) = db_sinks d"
  "db_outbox (snd (claim_webhook_delivery now h d)) = db_outbox d" "db_sinks (snd (claim_webhook_delivery now h d)) = db_sinks d"
  "db_outbox (record_advisories now ec pk ve as d) = db_outbox d" "db_sinks (record_advisories now ec pk ve as d) = db_sinks d"
  "db_outbox (record_advisory_check now ec pk ve d) = db_outbox d" "db_sinks (record_advisory_check now ec pk ve d) = db_sinks d"
  by (simp_all add: mark_initialized_def touch_polled_def set_latest_release_tag_def set_etag_def
      upsert_source_def record_seen_def claim_webhook_delivery_def record_advisories_def
      record_advisory_check_def Let_def)

lemma batch_tables [simp]:
  "db_outbox (record_seen_batch now s us d) = db_outbox d" "db_sinks (record_seen_batch now s us d) = db_sinks d"
  by (simp_all add: record_seen_batch_def)

lemma open_update:
  assumes "list_ex Q rows" and "\<And>r. Q r \<Longrightarrow> P r \<Longrightarrow> Q (f r)"
  shows "list_ex Q (update_rows P f rows)"
  using assms by (auto simp: list_ex_iff update_rows_def)

lemma open_row_op:
  assumes "open_row i d" and "\<not> completes i p"
  shows "open_row i (exec_op now app p d)"
proof -
  have ok: "db_ok (exec_op now app p d)" using assms(1) exec_op_ok by (simp add: open_row_def)
  have row: "list_ex (\<lambda>r. ob_id r = i \<and> ob_status r \<noteq> Sent) (db_outbox d)"
    using assms(1) by (simp add: open_row_def)
  have "list_ex (\<lambda>r. ob_id r = i \<and> ob_status r \<noteq> Sent) (db_outbox (exec_op now app p d))"
  proof (cases p)
    case (Op_enqueue e ident m)
    show ?thesis using row unfolding Op_enqueue
      by (auto simp: try_enqueue_notification_def Let_def reopen_row_def intro!: open_update split: option.splits)
  next
    case (Op_ensure j sinks)
    then show ?thesis using row
      by (auto simp: ensure_sink_deliveries_def Let_def split: sum.splits if_splits)
  next
    case (Op_prune a b c e)
    show ?thesis using row unfolding Op_prune
      by (auto simp: prune_outbox_view prune_outbox_def delete_outbox_kept expired_outbox_def list_ex_iff)
  next
    case (Op_complete j s u)
    then show ?thesis using row assms(2)
      by (auto simp: complete_notification_def completes_def intro!: open_update)
  qed (use row in \<open>auto simp: claim_outbox_batch_def claim_outbox_row_def lock_until_def Let_def
      release_outbox_lease_def apply_delivery_backoff_def defer_delivery_def update_outbox_id_def
      fail_notification_def fail_row_def complete_sink_delivery_def fail_sink_delivery_def
      abandon_retryable_sinks_def update_sinks_def sync_outbox_sink_status_def requeue_dead_outbox_def
      finalize_exhausted_outbox_def enrich_seen_metadata_def intro!: open_update split: option.splits if_splits\<close>)
  then show ?thesis using ok by (simp add: open_row_def)
qed

lemma filter_update_rows:
  assumes "\<And>k. P k \<Longrightarrow> key (f k) = key k"
  shows "filter (\<lambda>k. key k = i) (update_rows P f rows)
    = map (\<lambda>k. if P k then f k else k) (filter (\<lambda>k. key k = i) rows)"
  using assms by (induction rows) (auto simp: update_rows_def)

lemma update_rows_other:
  assumes "\<And>k. P k \<Longrightarrow> key (f k) = key k" and "\<And>k. P k \<Longrightarrow> key k \<noteq> i"
  shows "filter (\<lambda>k. key k = i) (update_rows P f rows) = filter (\<lambda>k. key k = i) rows"
proof -
  have "filter (\<lambda>k. key k = i) (update_rows P f rows)
      = map (\<lambda>k. if P k then f k else k) (filter (\<lambda>k. key k = i) rows)"
    by (rule filter_update_rows) (rule assms(1))
  also have "\<dots> = filter (\<lambda>k. key k = i) rows" by (rule map_idI) (use assms(2) in auto)
  finally show ?thesis .
qed

lemma other_sinks:
  "(\<And>k. P k \<Longrightarrow> sd_outbox_id (f k) = sd_outbox_id k) \<Longrightarrow> (\<And>k. P k \<Longrightarrow> sd_outbox_id k \<noteq> i) \<Longrightarrow>
   sinks_of (update_sinks P f d) i = sinks_of d i"
  by (simp add: sinks_of_def update_sinks_def update_rows_other)

lemma open_row_unique:
  assumes "open_row i d" and "r \<in> set (db_outbox d)" and "ob_id r = i"
  shows "ob_status r \<noteq> Sent"
  using assms by (auto simp: open_row_def db_ok_def outbox_ok_def list_ex_iff dest: distinct_key_unique)

lemma open_row_kept:
  "open_row i d \<Longrightarrow> i \<in> ob_id ` set (filter (\<lambda>r. \<not> expired_outbox now c r) (db_outbox d))"
  by (force simp: open_row_def list_ex_iff expired_outbox_def)

lemma enqueue_sinks:
  assumes "open_row i d"
  shows "sinks_of (snd (try_enqueue_notification now app e ident m d)) i = sinks_of d i"
proof (cases "find_outbox d (ev_source_id e) ident")
  case None
  then show ?thesis by (simp add: try_enqueue_notification_def Let_def sinks_of_def)
next
  case (Some r)
  have "r \<in> set (db_outbox d)" using Some by (auto simp: find_outbox_def dest: find_Some_in)
  then have "ob_status r = Sent \<Longrightarrow> ob_id r \<noteq> i" using open_row_unique [OF assms] by blast
  then show ?thesis using Some
    by (auto simp: try_enqueue_notification_def Let_def sinks_of_def intro!: update_rows_other)
qed

lemma requeue_sinks:
  "sinks_of (snd (requeue_dead_outbox d)) i = sinks_of d i
   \<or> sinks_of (snd (requeue_dead_outbox d)) i = revive (sinks_of d i)"
proof (cases "i \<in> set (map ob_id (filter (\<lambda>r. ob_status r = Dead) (db_outbox d)))")
  case True
  have "filter (\<lambda>k. sd_outbox_id k = i) (update_rows (\<lambda>k. sd_outbox_id k \<in> S \<and> sd_status k \<noteq> Sent) reset_sink rows)
      = revive (filter (\<lambda>k. sd_outbox_id k = i) rows)" if "i \<in> S" for S rows
    unfolding revive_def using that
    by (subst filter_update_rows) (auto intro!: map_cong)
  then show ?thesis using True
    by (auto simp: requeue_dead_outbox_def Let_def sinks_of_def simp del: set_map)
next
  case False
  have "filter (\<lambda>k. sd_outbox_id k = i) (update_rows (\<lambda>k. sd_outbox_id k \<in> S \<and> sd_status k \<noteq> Sent) reset_sink rows)
      = filter (\<lambda>k. sd_outbox_id k = i) rows" if "i \<notin> S" for S rows
    by (rule update_rows_other) (use that in auto)
  then show ?thesis using False
    by (auto simp: requeue_dead_outbox_def Let_def sinks_of_def simp del: set_map)
qed

lemma prune_sinks:
  assumes "open_row i d"
  shows "sinks_of (snd (prune now a b c e d)) i = sinks_of d i"
  using open_row_kept [OF assms]
  by (auto simp: sinks_of_def prune_outbox_view prune_outbox_def delete_outbox_kept intro!: filter_cong)

lemma foreign_sinks:
  assumes "open_row i d" and "\<not> holder_op i p"
  shows "sinks_of (exec_op now app p d) i = sinks_of d i
    \<or> sinks_of (exec_op now app p d) i = revive (sinks_of d i)"
proof (cases p)
  case (Op_enqueue e ident m)
  then show ?thesis using enqueue_sinks [OF assms(1)] by simp
next
  case (Op_prune a b c e)
  then show ?thesis using prune_sinks [OF assms(1)] by simp
next
  case Op_requeue
  then show ?thesis using requeue_sinks by simp
next
  case (Op_ensure j sinks)
  have other: "filter (\<lambda>k. sd_outbox_id k = i) (fold (insert_sink j) sinks rows) = filter (\<lambda>k. sd_outbox_id k = i) rows"
    if "j \<noteq> i" for rows
    using that by (induction sinks arbitrary: rows) (auto simp: insert_sink_def new_sink_row_def)
  show ?thesis using assms(2) other
    by (auto simp: Op_ensure ensure_sink_deliveries_def Let_def sinks_of_def split: sum.splits if_splits)
next
  case (Op_complete j s u)
  then show ?thesis by (simp add: complete_notification_def sinks_of_def)
next
  case (Op_sync j)
  then show ?thesis by (simp add: sync_outbox_sink_status_def sinks_of_def Let_def)
next
  case (Op_sink_ok j k)
  then show ?thesis using assms(2)
    by (auto simp: complete_sink_delivery_def intro!: disjI1 other_sinks)
next
  case (Op_sink_fail j k err)
  then show ?thesis using assms(2)
    by (auto simp: fail_sink_delivery_def fail_sink_def intro!: disjI1 other_sinks)
next
  case (Op_abandon j ks err)
  then show ?thesis using assms(2)
    by (auto simp: abandon_retryable_sinks_def Let_def abandon_sink_def intro!: disjI1 other_sinks)
qed (simp_all add: sinks_of_def claim_outbox_batch_def claim_outbox_row_def Let_def
    release_outbox_lease_def apply_delivery_backoff_def defer_delivery_def update_outbox_id_def
    fail_notification_def finalize_exhausted_outbox_def enrich_seen_metadata_def split: option.splits)

lemma ledger_indices_revive: "sinks_of d' i = revive (sinks_of d i) \<Longrightarrow> ledger_indices i d' = ledger_indices i d"
  unfolding ledger_indices_def by (metis list.set_map revive_indices)

lemma ledger_indices_same: "sinks_of d' i = sinks_of d i \<Longrightarrow> ledger_indices i d' = ledger_indices i d"
  by (simp add: ledger_indices_def)

lemma update_indices:
  assumes "\<And>k. P k \<Longrightarrow> sd_outbox_id (f k) = sd_outbox_id k \<and> sd_sink_index (f k) = sd_sink_index k"
  shows "ledger_indices i (update_sinks P f d) = ledger_indices i d"
proof -
  have "filter (\<lambda>k. sd_outbox_id k = i) (update_rows P f (db_sinks d))
      = map (\<lambda>k. if P k then f k else k) (filter (\<lambda>k. sd_outbox_id k = i) (db_sinks d))"
    by (rule filter_update_rows) (use assms in blast)
  then have "map sd_sink_index (sinks_of (update_sinks P f d) i) = map sd_sink_index (sinks_of d i)"
    using assms by (simp add: sinks_of_def update_sinks_def)
  then show ?thesis unfolding ledger_indices_def by (metis list.set_map)
qed

lemma ensure_indices:
  assumes "ensure_sink_deliveries i sinks d = Inr d'"
  shows "ledger_indices j d \<subseteq> ledger_indices j d'"
    and "(\<lambda>s. i32_of_nat (fst s)) ` set sinks \<subseteq> ledger_indices i d'"
proof -
  have one: "set rows \<subseteq> set (insert_sink i s rows)" for s rows by (auto simp: insert_sink_def)
  have m: "set rs \<subseteq> set (fold (insert_sink i) ss rs)" for ss rs
  proof (induction ss arbitrary: rs)
    case (Cons s ss)
    then show ?case using one [of rs s] by fastforce
  qed simp
  have rows: "db_sinks d' = fold (insert_sink i) sinks (db_sinks d)"
    using assms by (auto simp: ensure_sink_deliveries_def Let_def split: if_splits)
  show "ledger_indices j d \<subseteq> ledger_indices j d'"
    using m [where rs = "db_sinks d"] by (auto simp: ledger_indices_def sinks_of_def rows)
  have "s \<in> set sinks \<Longrightarrow> (i, i32_of_nat (fst s)) \<in> sink_key ` set (fold (insert_sink i) sinks rows)" for s rows
  proof (induction sinks arbitrary: rows)
    case (Cons s' ss)
    have "(i, i32_of_nat (fst s')) \<in> sink_key ` set (insert_sink i s' rows)"
      by (auto simp: insert_sink_def new_sink_row_def sink_key_def)
    then show ?case using Cons m by fastforce
  qed simp
  then show "(\<lambda>s. i32_of_nat (fst s)) ` set sinks \<subseteq> ledger_indices i d'"
    by (force simp: ledger_indices_def sinks_of_def rows sink_key_def)
qed

section \<open>What holds of a row whoever works on it\<close>

text \<open>
  Another worker may take the row over at any moment.  Whatever anybody does, an id is never
  given twice and keeps its source and release, and as long as the row exists its ledger only
  grows; this is all that an attempt needs until it has read that every entry is sent.
\<close>

definition held :: "int \<Rightarrow> string \<times> string \<Rightarrow> int set \<Rightarrow> db \<Rightarrow> bool" where
  "held i K M d \<longleftrightarrow> db_ok d \<and> i < db_next_id d
     \<and> list_all (\<lambda>r. ob_id r = i \<longrightarrow> outbox_key r = K \<and> M \<subseteq> ledger_indices i d) (db_outbox d)"

definition row_names :: "outbox_row list \<Rightarrow> (int \<times> string \<times> string) set" where
  "row_names rows = (\<lambda>r. (ob_id r, outbox_key r)) ` set rows"

lemma update_names:
  "(\<And>r. P r \<Longrightarrow> ob_id (f r) = ob_id r \<and> outbox_key (f r) = outbox_key r) \<Longrightarrow>
   row_names (update_rows P f rows) = row_names rows"
  unfolding row_names_def update_rows_def set_map image_image by (rule image_cong) auto

lemma filter_names: "row_names (filter P rows) \<subseteq> row_names rows"
  by (auto simp: row_names_def)

lemma names_past:
  "row_names (db_outbox (exec_op now app p d)) \<subseteq> row_names (db_outbox d) \<union> {x. fst x = db_next_id d}"
proof (cases p)
  case (Op_enqueue e ident m)
  have "row_names (rows @ [new_outbox_row now n e ident m]) \<subseteq> row_names rows \<union> {x. fst x = n}" for rows n
    by (auto simp: row_names_def new_outbox_row_def)
  then show ?thesis unfolding Op_enqueue
    by (auto simp: try_enqueue_notification_def Let_def reopen_row_def outbox_key_def update_names split: option.splits)
next
  case (Op_prune a b c e)
  then show ?thesis using filter_names
    by (auto simp: prune_outbox_view prune_outbox_def delete_outbox_kept)
qed (auto simp: update_names claim_outbox_batch_def claim_outbox_row_def lock_until_def Let_def outbox_key_def
    release_outbox_lease_def apply_delivery_backoff_def defer_delivery_def update_outbox_id_def
    fail_notification_def fail_row_def complete_sink_delivery_def fail_sink_delivery_def
    abandon_retryable_sinks_def update_sinks_def sync_outbox_sink_status_def requeue_dead_outbox_def
    finalize_exhausted_outbox_def enrich_seen_metadata_def complete_notification_def ensure_sink_deliveries_def
    split: option.splits sum.splits if_splits)

lemma fold_write_next: "(\<And>u d. db_next_id (f u d) = db_next_id d) \<Longrightarrow> db_next_id (fold f us d) = db_next_id d"
  by (induction us arbitrary: d) simp_all

lemma catalogue_next [simp]:
  "db_next_id (write_seen_row now s u d) = db_next_id d"
  "db_next_id (mark_initialized now s d) = db_next_id d" "db_next_id (touch_polled now s d) = db_next_id d"
  "db_next_id (set_latest_release_tag now s t d) = db_next_id d" "db_next_id (set_etag now s e d) = db_next_id d"
  "db_next_id (record_seen now s u d) = db_next_id d" "db_next_id (record_seen_batch now s us d) = db_next_id d"
  "db_next_id (snd (claim_webhook_delivery now h d)) = db_next_id d"
  "db_next_id (record_advisories now ec pk ve as d) = db_next_id d"
  "db_next_id (record_advisory_check now ec pk ve d) = db_next_id d"
  by (simp_all add: mark_initialized_def touch_polled_def set_latest_release_tag_def set_etag_def
      upsert_source_def record_seen_def claim_webhook_delivery_def record_advisories_def
      record_advisory_check_def write_seen_row_def record_seen_batch_def fold_write_next Let_def)

lemma next_id_grows: "db_next_id d \<le> db_next_id (exec_op now app p d)"
proof (cases p)
  case (Op_prune a b c e)
  then show ?thesis
    by (simp add: prune_def prune_seen_def prune_webhooks_def prune_outbox_def prune_advisories_def
      delete_outbox_def Let_def split: prod.splits)
qed (auto simp: try_enqueue_notification_def claim_outbox_batch_def claim_outbox_row_def Let_def
    release_outbox_lease_def apply_delivery_backoff_def defer_delivery_def update_outbox_id_def
    fail_notification_def complete_sink_delivery_def fail_sink_delivery_def
    abandon_retryable_sinks_def update_sinks_def sync_outbox_sink_status_def requeue_dead_outbox_def
    finalize_exhausted_outbox_def enrich_seen_metadata_def complete_notification_def ensure_sink_deliveries_def
    split: option.splits sum.splits if_splits)

lemma enqueue_sinks_cases:
  "db_sinks (snd (try_enqueue_notification now app e ident m d)) = db_sinks d
   \<or> (\<exists>r \<in> set (db_outbox d). outbox_key r = (ev_source_id e, ident)
       \<and> db_sinks (snd (try_enqueue_notification now app e ident m d))
           = update_rows (\<lambda>k. sd_outbox_id k = ob_id r) reset_sink (db_sinks d))"
proof (cases "find_outbox d (ev_source_id e) ident")
  case (Some r)
  then have "r \<in> set (db_outbox d)" "outbox_key r = (ev_source_id e, ident)"
    by (auto simp: find_outbox_def dest: find_Some_in)
  then show ?thesis using Some by (auto simp: try_enqueue_notification_def Let_def)
qed (simp add: try_enqueue_notification_def Let_def)

lemma requeue_sinks_cases:
  "\<exists>ids. db_sinks (snd (requeue_dead_outbox d))
     = update_rows (\<lambda>k. sd_outbox_id k \<in> ids \<and> sd_status k \<noteq> Sent) reset_sink (db_sinks d)"
proof (cases "filter (\<lambda>r. ob_status r = Dead) (db_outbox d)")
  case Nil
  then show ?thesis by (intro exI [of _ "{}"]) (simp add: requeue_dead_outbox_def update_rows_def)
next
  case (Cons r rs)
  then show ?thesis
    by (intro exI [of _ "set (map ob_id (filter (\<lambda>r. ob_status r = Dead) (db_outbox d)))"])
      (simp add: requeue_dead_outbox_def Let_def)
qed

lemma reset_indices:
  "db_sinks d' = update_rows P reset_sink (db_sinks d) \<Longrightarrow> ledger_indices i d' = ledger_indices i d"
  using update_indices [of P reset_sink i d] by (simp add: ledger_indices_def sinks_of_def update_sinks_def)

lemma kept_ledger:
  assumes "i \<in> ob_id ` set (db_outbox (exec_op now app p d))"
  shows "ledger_indices i d \<subseteq> ledger_indices i (exec_op now app p d)"
proof (cases p)
  case (Op_enqueue e ident m)
  then show ?thesis using enqueue_sinks_cases [of now app e ident m d] reset_indices
    by (auto simp: ledger_indices_def sinks_of_def)
next
  case Op_requeue
  then show ?thesis using requeue_sinks_cases [of d] reset_indices by auto
next
  case (Op_prune a b c e)
  then show ?thesis using assms
    by (auto simp: ledger_indices_def sinks_of_def prune_outbox_view prune_outbox_def delete_outbox_kept)
next
  case (Op_ensure j sinks)
  then show ?thesis using ensure_indices(1) by (auto split: sum.splits)
next
  case (Op_sink_ok j k)
  then show ?thesis by (simp add: complete_sink_delivery_def update_indices)
next
  case (Op_sink_fail j k err)
  then show ?thesis by (simp add: fail_sink_delivery_def update_indices fail_sink_def)
next
  case (Op_abandon j ks err)
  then show ?thesis by (simp add: abandon_retryable_sinks_def update_indices Let_def abandon_sink_def)
qed (auto simp: ledger_indices_def sinks_of_def claim_outbox_batch_def claim_outbox_row_def Let_def
    release_outbox_lease_def apply_delivery_backoff_def defer_delivery_def update_outbox_id_def
    fail_notification_def finalize_exhausted_outbox_def enrich_seen_metadata_def
    complete_notification_def sync_outbox_sink_status_def split: option.splits)

lemma held_op:
  assumes "held i K M d"
  shows "held i K M (exec_op now app p d)"
proof -
  let ?d = "exec_op now app p d"
  have "outbox_key r = K \<and> M \<subseteq> ledger_indices i ?d" if r: "r \<in> set (db_outbox ?d)" "ob_id r = i" for r
  proof -
    have "(i, outbox_key r) \<in> row_names (db_outbox ?d)" using r by (force simp: row_names_def)
    then have "(i, outbox_key r) \<in> row_names (db_outbox d)"
      using names_past [of now app p d] assms by (auto simp: held_def)
    then obtain r0 where "r0 \<in> set (db_outbox d)" "ob_id r0 = i" "outbox_key r0 = outbox_key r"
      by (auto simp: row_names_def)
    then have "outbox_key r = K" "M \<subseteq> ledger_indices i d" using assms by (auto simp: held_def list_all_iff)
    moreover have "ledger_indices i d \<subseteq> ledger_indices i ?d" by (rule kept_ledger) (use r in force)
    ultimately show ?thesis by blast
  qed
  then show ?thesis
    using assms next_id_grows [of d now app p] exec_op_ok [of d] by (auto simp: held_def list_all_iff)
qed

text \<open>
  From then on only two things could take a sent entry back: the failure of a sink of this row,
  and the release queued once more.
\<close>

fun spares_row :: "int \<Rightarrow> string \<times> string \<Rightarrow> store_op \<Rightarrow> bool" where
  "spares_row i K (Op_sink_fail j _ _) \<longleftrightarrow> j \<noteq> i"
| "spares_row i K (Op_enqueue e ident _) \<longleftrightarrow> (ev_source_id e, ident) \<noteq> K"
| "spares_row i K _ \<longleftrightarrow> True"

fun spares_action :: "int \<Rightarrow> string \<times> string \<Rightarrow> env_action \<Rightarrow> bool" where
  "spares_action i K (Store_action p) \<longleftrightarrow> spares_row i K p"
| "spares_action i K _ \<longleftrightarrow> True"

definition settled :: "int \<Rightarrow> string \<times> string \<Rightarrow> int set \<Rightarrow> db \<Rightarrow> bool" where
  "settled i K M d \<longleftrightarrow> held i K M d \<and> (i \<in> ob_id ` set (db_outbox d) \<longrightarrow> M \<subseteq> sent_indices i d)"

lemma sent_indices_iff:
  "n \<in> sent_indices i d \<longleftrightarrow> (\<exists>k \<in> set (db_sinks d). sd_outbox_id k = i \<and> sd_status k = Sent \<and> sd_sink_index k = n)"
  by (auto simp: sent_indices_def sinks_of_def)

lemma update_sent:
  assumes "\<And>k. P k \<Longrightarrow> sd_outbox_id k = i \<Longrightarrow> sd_status k = Sent \<Longrightarrow>
      sd_outbox_id (f k) = i \<and> sd_status (f k) = Sent \<and> sd_sink_index (f k) = sd_sink_index k"
    and "db_sinks d' = update_rows P f (db_sinks d)"
  shows "sent_indices i d \<subseteq> sent_indices i d'"
proof
  fix n assume "n \<in> sent_indices i d"
  then obtain k where k: "k \<in> set (db_sinks d)" "sd_outbox_id k = i" "sd_status k = Sent" "sd_sink_index k = n"
    by (auto simp: sent_indices_iff)
  then have "(if P k then f k else k) \<in> set (db_sinks d')" by (simp add: assms(2) set_update_rows image_eqI)
  then show "n \<in> sent_indices i d'" unfolding sent_indices_iff
    by (rule bexI [rotated]) (use assms(1) k in simp)
qed

lemma subset_sent: "set (db_sinks d) \<subseteq> set (db_sinks d') \<Longrightarrow> sent_indices i d \<subseteq> sent_indices i d'"
  unfolding subset_iff sent_indices_iff by blast

lemma held_key:
  "held i K M d \<Longrightarrow> r \<in> set (db_outbox d) \<Longrightarrow> ob_id r = i \<Longrightarrow> outbox_key r = K"
  by (auto simp: held_def list_all_iff)

lemma kept_sent_enqueue:
  assumes "held i K M d" and "(ev_source_id e, ident) \<noteq> K"
  shows "sent_indices i d \<subseteq> sent_indices i (snd (try_enqueue_notification now app e ident m d))"
  using enqueue_sinks_cases [of now app e ident m d]
proof (elim disjE bexE conjE)
  fix r
  assume r: "r \<in> set (db_outbox d)" "outbox_key r = (ev_source_id e, ident)"
    and eq: "db_sinks (snd (try_enqueue_notification now app e ident m d))
      = update_rows (\<lambda>k. sd_outbox_id k = ob_id r) reset_sink (db_sinks d)"
  have "ob_id r \<noteq> i" using held_key [OF assms(1) r(1)] r(2) assms(2) by metis
  then show ?thesis by (intro update_sent [OF _ eq]) simp
qed (simp add: subset_sent)

lemma ensure_rows: "ensure_sink_deliveries j sinks d = Inr d' \<Longrightarrow> set (db_sinks d) \<subseteq> set (db_sinks d')"
proof -
  have one: "set rows \<subseteq> set (insert_sink j s rows)" for s rows by (auto simp: insert_sink_def)
  have m: "set rs \<subseteq> set (fold (insert_sink j) ss rs)" for ss rs
  proof (induction ss arbitrary: rs)
    case (Cons s ss)
    then show ?case using one [of rs s] by fastforce
  qed simp
  assume "ensure_sink_deliveries j sinks d = Inr d'"
  then have "db_sinks d' = fold (insert_sink j) sinks (db_sinks d)"
    by (auto simp: ensure_sink_deliveries_def Let_def split: if_splits)
  then show "set (db_sinks d) \<subseteq> set (db_sinks d')" using m by simp
qed

lemma kept_sent:
  assumes "held i K M d" and "spares_row i K p" and "i \<in> ob_id ` set (db_outbox (exec_op now app p d))"
  shows "sent_indices i d \<subseteq> sent_indices i (exec_op now app p d)"
proof (cases p)
  case (Op_enqueue e ident m)
  then show ?thesis using kept_sent_enqueue [OF assms(1)] assms(2) by simp
next
  case Op_requeue
  obtain ids where "db_sinks (snd (requeue_dead_outbox d))
      = update_rows (\<lambda>k. sd_outbox_id k \<in> ids \<and> sd_status k \<noteq> Sent) reset_sink (db_sinks d)"
    using requeue_sinks_cases [of d] by blast
  then show ?thesis unfolding Op_requeue exec_op.simps by (rule update_sent [rotated]) simp
next
  case (Op_prune a b c e)
  then show ?thesis using assms(3)
    by (auto simp: sent_indices_def sinks_of_def prune_outbox_view prune_outbox_def delete_outbox_kept)
next
  case (Op_ensure j sinks)
  then show ?thesis using ensure_rows subset_sent by (auto split: sum.splits)
next
  case (Op_sink_ok j k)
  then show ?thesis unfolding exec_op.simps Op_sink_ok complete_sink_delivery_def
    by (intro update_sent) (auto simp: update_sinks_def)
next
  case (Op_sink_fail j k err)
  then show ?thesis using assms(2) unfolding exec_op.simps Op_sink_fail fail_sink_delivery_def
    by (intro update_sent) (auto simp: update_sinks_def)
next
  case (Op_abandon j ks err)
  show ?thesis unfolding exec_op.simps Op_abandon abandon_retryable_sinks_def Let_def snd_conv
    by (rule update_sent [of "\<lambda>k. sd_outbox_id k = j \<and> retryable (sd_status k)
         \<and> (ks = [] \<or> sd_sink_index k \<in> set (map i32_of_nat ks))" _ "abandon_sink err"])
      (simp_all add: update_sinks_def retryable_def)
qed (auto simp: sent_indices_def sinks_of_def claim_outbox_batch_def claim_outbox_row_def Let_def
    release_outbox_lease_def apply_delivery_backoff_def defer_delivery_def update_outbox_id_def
    fail_notification_def finalize_exhausted_outbox_def enrich_seen_metadata_def
    complete_notification_def sync_outbox_sink_status_def split: option.splits)

lemma settled_op:
  assumes "settled i K M d" and "spares_row i K p"
  shows "settled i K M (exec_op now app p d)"
proof -
  have h: "held i K M d" using assms(1) by (simp add: settled_def)
  have "M \<subseteq> sent_indices i (exec_op now app p d)" if i: "i \<in> ob_id ` set (db_outbox (exec_op now app p d))"
  proof -
    obtain r where "r \<in> set (db_outbox (exec_op now app p d))" "ob_id r = i" using i by blast
    then have "i \<in> ob_id ` set (db_outbox d)"
      using names_past [of now app p d] h by (force simp: row_names_def held_def)
    then show ?thesis using assms(1) kept_sent [OF h assms(2) i] by (auto simp: settled_def)
  qed
  then show ?thesis using held_op [OF h] by (simp add: settled_def)
qed

section \<open>Contracts of one attempt\<close>

definition own_calls :: "int \<Rightarrow> world \<Rightarrow> sent_call list" where
  "own_calls i w = filter (\<lambda>c. sc_purpose c = Row_delivery i) (w_sent w)"

lemma own_alerts [simp]: "filter (\<lambda>c. sc_purpose c = Row_delivery i) (log_calls Ops_alert ev send idxs) = []"
  by (simp add: log_calls_def filter_empty_conv)

lemma foreign_not_holder: "foreign_action i (Store_action p) \<Longrightarrow> \<not> completes i p"
  by (cases p) (auto simp: completes_def)

lemma left_alone_action: "left_alone i w \<Longrightarrow> x \<in> set (es_actions (w_env w n)) \<Longrightarrow> foreign_action i x"
  by (simp add: left_alone_def list_all_iff)

lemma left_alone_env: "w_env w' = w_env w \<Longrightarrow> left_alone i w' = left_alone i w"
  by (simp add: left_alone_def)

lemma env_act_left_alone [simp]: "left_alone i (env_act x w) = left_alone i w"
  by (rule left_alone_env) simp

lemma env_act_own [simp]: "own_calls i (env_act x w) = own_calls i w"
  by (simp add: own_calls_def)

lemma env_act_open:
  assumes "foreign_action i x" and "open_row i (w_db w)"
  shows "open_row i (w_db (env_act x w))"
    "sinks_of (w_db (env_act x w)) i = sinks_of (w_db w) i
     \<or> sinks_of (w_db (env_act x w)) i = revive (sinks_of (w_db w) i)"
  using assms open_row_op foreign_not_holder foreign_sinks
  by (cases x; auto simp: swap_runtime_def)+

lemma sent_indices_step:
  "sinks_of d' i = sinks_of d i \<or> sinks_of d' i = revive (sinks_of d i) \<Longrightarrow> sent_indices i d' = sent_indices i d"
  unfolding sent_indices_def by (metis revive_sent)

text \<open>Until the sinks are called: what was sent stays sent, and nothing is logged.\<close>

definition gentle_op :: "int \<Rightarrow> store_op \<Rightarrow> bool" where
  "gentle_op i p \<longleftrightarrow> \<not> holder_op i p
     \<or> (case p of Op_ensure _ _ \<Rightarrow> True | Op_abandon _ _ _ \<Rightarrow> True | _ \<Rightarrow> False)"

lemma gentle_sent:
  assumes "open_row i d" and "gentle_op i p"
  shows "sent_indices i d \<subseteq> sent_indices i (exec_op now app p d)"
proof (cases "holder_op i p")
  case False
  then show ?thesis using foreign_sinks [OF assms(1) False] sent_indices_step by blast
next
  case True
  then consider (ensure) j sinks where "p = Op_ensure j sinks" | (abandon) j ks err where "p = Op_abandon j ks err"
    using assms(2) by (cases p) (auto simp: gentle_op_def)
  then show ?thesis
  proof cases
    case ensure
    show ?thesis using ensure_rows subset_sent by (auto simp: ensure split: sum.splits)
  next
    case abandon
    have "k \<in> set rows \<Longrightarrow> sd_status k = Sent \<Longrightarrow>
        k \<in> set (update_rows (\<lambda>k. A k \<and> retryable (sd_status k) \<and> B k) f rows)" for k rows A B f
      by (force simp: update_rows_def image_iff retryable_def)
    then show ?thesis
      by (auto simp: abandon abandon_retryable_sinks_def Let_def update_sinks_def sent_indices_def sinks_of_def
          intro!: imageI)
  qed
qed

lemma gentle_not_completes: "gentle_op i p \<Longrightarrow> \<not> completes i p"
  by (cases p) (auto simp: gentle_op_def completes_def)

interpretation before_calls: program_contract
  "\<lambda>w. left_alone i w \<and> open_row i (w_db w) \<and> S0 \<subseteq> sent_indices i (w_db w) \<and> own_calls i w = L"
  "foreign_action i" "gentle_op i" for i S0 L
proof (unfold_locales, goal_cases)
  case (2 x w)
  then have "sent_indices i (w_db (env_act x w)) = sent_indices i (w_db w)"
    using env_act_open(2) sent_indices_step by blast
  then show ?case using 2 env_act_open(1) [of i x w] by simp
next
  case (3 p w now app)
  then show ?case using open_row_op [OF _ gentle_not_completes] gentle_sent [of i "w_db w" p now app]
    by (auto simp: left_alone_def own_calls_def)
qed (auto simp: left_alone_action, auto simp: left_alone_def pass_time_def own_calls_def)

interpretation own_log: program_contract "\<lambda>w. own_calls i w = L" "\<lambda>_. True" "\<lambda>_. True" for i L
  by unfold_locales (auto simp: own_calls_def pass_time_def)

section \<open>Reads\<close>

lemma triple_read:
  assumes "program_contract J act_ok op_ok"
    and "\<And>x. triple (\<lambda>w. J w \<and> (\<exists>now app. x = f now app (w_db w))) (g x) Q"
    and "\<And>e w. J w \<Longrightarrow> Q (Inl e) w"
  shows "triple J (try_bind (store_read f) g) Q"
proof (rule triple_try)
  show "triple J (store_read f) (\<lambda>r w. case r of Inl e \<Rightarrow> Q (Inl e) w
      | Inr x \<Rightarrow> J w \<and> (\<exists>now app. x = f now app (w_db w)))"
  proof (rule tripleI)
    fix w assume "J w"
    then have "J (snd (env_turn w))" by (rule program_contract.turn_keeps [OF assms(1)])
    then show "case fst (run_state (store_read f) w) of
        Inl e \<Rightarrow> Q (Inl e) (snd (run_state (store_read f) w))
      | Inr x \<Rightarrow> J (snd (run_state (store_read f) w))
          \<and> (\<exists>now app. x = f now app (w_db (snd (run_state (store_read f) w))))"
      using assms(3)
      by (auto simp: store_read_def store_call_def Let_def split_def split: fault.splits)
  qed
qed (rule assms(2))

section \<open>A reported delivery is a delivery\<close>

definition delivered_state :: "int \<Rightarrow> int set \<Rightarrow> string \<Rightarrow> seen_upsert \<Rightarrow> db \<Rightarrow> bool" where
  "delivered_state i M s u d \<longleftrightarrow> db_ok d
     \<and> list_ex (\<lambda>r. ob_id r = i \<and> ob_status r = Sent) (db_outbox d)
     \<and> M \<subseteq> sent_indices i d \<and> has_seen d s (su_identity u)"

lemma sent_indices_all:
  "list_all (\<lambda>k. sd_status k = Sent) (sinks_of d i) \<Longrightarrow> sent_indices i d = ledger_indices i d"
  by (auto simp: sent_indices_def ledger_indices_def list_all_iff)

lemma complete_delivers:
  assumes "settled i K M d" and "fst (complete_notification now i s u d)"
  shows "delivered_state i M s u (snd (complete_notification now i s u d))"
proof -
  let ?d = "snd (complete_notification now i s u d)"
  obtain r where r: "r \<in> set (db_outbox d)" "ob_id r = i" "retryable (ob_status r)"
    using assms(2) by (auto simp: complete_notification_def list_ex_iff split: if_splits)
  then have eq: "?d = write_seen_row now s u (d\<lparr>db_outbox := update_rows (\<lambda>r. ob_id r = i \<and> retryable (ob_status r))
               (\<lambda>r. r\<lparr>ob_status := Sent, ob_sent_at := Some now, ob_last_error := None\<rparr>) (db_outbox d)\<rparr>)"
    by (auto simp: complete_notification_def list_ex_iff)
  have "r\<lparr>ob_status := Sent, ob_sent_at := Some now, ob_last_error := None\<rparr> \<in> set (db_outbox ?d)"
    unfolding eq using r by (simp add: set_update_rows)
  then have row: "list_ex (\<lambda>r. ob_id r = i \<and> ob_status r = Sent) (db_outbox ?d)"
    unfolding list_ex_iff by (rule bexI [rotated]) (simp add: r(2))
  have seen: "has_seen ?d s (su_identity u)"
    unfolding eq by (simp add: has_seen_def find_seen_write)
  have "i \<in> ob_id ` set (db_outbox d)" using r by blast
  then have "M \<subseteq> sent_indices i d" "db_ok ?d"
    using assms(1) complete_notification_ok by (auto simp: settled_def held_def)
  moreover have "sent_indices i ?d = sent_indices i d"
    by (simp add: complete_notification_def sent_indices_def sinks_of_def)
  ultimately show ?thesis using row seen by (simp add: delivered_state_def)
qed

text \<open>
  The surroundings of the last store call act between the last look at the ledger and the
  completion of the row: the guarantee needs that they spare the row in that one moment.
\<close>

definition delivery_sound :: "(nat \<Rightarrow> env_step) \<Rightarrow> int \<Rightarrow> string \<times> string \<Rightarrow> int set \<Rightarrow> string \<Rightarrow> seen_upsert
    \<Rightarrow> pipeline_error + delivery_attempt \<Rightarrow> world \<Rightarrow> bool" where
  "delivery_sound E i K M s u r w \<longleftrightarrow>
     (case r of Inl _ \<Rightarrow> True
      | Inr att \<Rightarrow> da_delivered att \<longrightarrow> list_all (spares_action i K) (es_actions (E (w_ticks w - 1)))
          \<longrightarrow> delivered_state i M s u (w_db w))"

definition open_with :: "(nat \<Rightarrow> env_step) \<Rightarrow> int \<Rightarrow> string \<times> string \<Rightarrow> int set \<Rightarrow> world \<Rightarrow> bool" where
  "open_with E i K M w \<longleftrightarrow> w_env w = E \<and> held i K M (w_db w)"

interpretation taken_over: worker_contract "open_with E i K M" "\<lambda>_. True" "\<lambda>_. True" for E i K M
proof (unfold_locales, goal_cases)
  case (2 x w)
  then show ?case using held_op by (cases x) (auto simp: open_with_def swap_runtime_def)
next
  case (3 p w now app)
  then show ?case using held_op by (simp add: open_with_def)
qed (auto simp: open_with_def pass_time_def)

lemma settled_turn:
  fixes w :: world
  assumes "settled i K M (w_db w)" and "list_all (spares_action i K) (es_actions (w_env w (w_ticks w)))"
  shows "settled i K M (w_db (snd (env_turn w)))"
proof -
  have act: "settled i K M (w_db (env_act x v))" if "spares_action i K x" "settled i K M (w_db v)" for x v
    using that settled_op by (cases x) (auto simp: swap_runtime_def)
  have "settled i K M (w_db (fold env_act as v))" if "list_all (spares_action i K) as" "settled i K M (w_db v)" for as v
    using that by (induction as arbitrary: v) (auto intro: act)
  then show ?thesis using assms by (simp add: env_turn_def Let_def pass_time_def)
qed

lemma sound_trivial [simp]:
  "delivery_sound E i K M s u (Inl e) w" "delivery_sound E i K M s u (Inr attempt_failed) w"
  "delivery_sound E i K M s u (Inr attempt_deferred) w"
  by (simp_all add: delivery_sound_def attempt_failed_def attempt_deferred_def)

lemma env_act_ticks: "w_ticks (env_act x w) = w_ticks w"
  by (cases x) (simp_all add: swap_runtime_def)

lemma turn_ticks:
  fixes w :: world
  shows "w_ticks (snd (env_turn w)) = Suc (w_ticks w)" "w_env (snd (env_turn w)) = w_env w"
proof -
  have "w_ticks (fold env_act as v) = w_ticks v \<and> w_env (fold env_act as v) = w_env v" for as and v :: world
    by (induction as arbitrary: v) (simp_all add: env_act_ticks)
  then show "w_ticks (snd (env_turn w)) = Suc (w_ticks w)" "w_env (snd (env_turn w)) = w_env w"
    by (simp_all add: env_turn_def Let_def pass_time_def)
qed

lemma complete_or_failed_sound:
  "triple (\<lambda>w. w_env w = E \<and> settled i K M (w_db w)) (complete_or_failed i s u) (delivery_sound E i K M s u)"
proof (rule tripleI)
  fix w :: world
  assume w: "w_env w = E \<and> settled i K M (w_db w)"
  let ?v = "snd (env_turn w)"
  have "list_all (spares_action i K) (es_actions (E (w_ticks w))) \<Longrightarrow> settled i K M (w_db ?v)"
    using settled_turn [of i K M w] w by simp
  then show "delivery_sound E i K M s u (fst (run_state (complete_or_failed i s u) w))
     (snd (run_state (complete_or_failed i s u) w))"
    using complete_delivers [of i K M "w_db ?v"]
    by (auto simp: complete_or_failed_def try_bind_def store_write_def store_call_def Let_def split_def turn_ticks
        ok_def delivery_sound_def attempt_failed_def attempt_delivered_def split: fault.splits sum.splits)
qed

lemma failing_sound:
  "triple P (try_bind m (\<lambda>_. ok attempt_failed)) (delivery_sound E i K M s u)"
  by (rule triple_try [where R = "\<lambda>_ _. True"]) (rule tripleI, simp split: sum.splits, rule triple_ok, simp)

lemma final_read_sound:
  assumes "\<And>P. triple P other (delivery_sound E i K M s u)"
  shows "triple (open_with E i K M) (try_bind (store_read (\<lambda>now app d. sinks_delivery_complete d i))
     (\<lambda>complete. if complete then complete_or_failed i s u else other)) (delivery_sound E i K M s u)"
proof (rule triple_read [OF taken_over.program_contract_axioms])
  fix complete
  show "triple (\<lambda>w. open_with E i K M w \<and> (\<exists>now app. complete = sinks_delivery_complete (w_db w) i))
     (if complete then complete_or_failed i s u else other) (delivery_sound E i K M s u)"
  proof (rule triple_if)
    assume complete
    then show "triple (\<lambda>w. open_with E i K M w \<and> (\<exists>now app. complete = sinks_delivery_complete (w_db w) i))
       (complete_or_failed i s u) (delivery_sound E i K M s u)"
      by (intro triple_pre [OF complete_or_failed_sound])
        (auto simp: open_with_def settled_def sinks_delivery_complete_def sent_indices_all held_def list_all_iff)
  qed (rule assms)
qed simp

lemma triple_try_keep:
  assumes "preserves J m" and "\<And>x. triple J (f x) (delivery_sound E i K M s u)"
  shows "triple J (try_bind m f) (delivery_sound E i K M s u)"
  by (rule triple_try [where R = "\<lambda>_. J"])
     (use assms in \<open>auto intro: triple_post [OF triple_keep] split: sum.splits\<close>)

lemma triple_bind_keep:
  "preserves J m \<Longrightarrow> (\<And>x. triple J (f x) Q) \<Longrightarrow> triple J (State_Monad.bind m f) Q"
  by (rule triple_bind [OF triple_keep])

lemma ensure_call_opens:
  "triple (open_with E i K {}) (ensure_call i sinks)
     (\<lambda>r w. case r of Inl e \<Rightarrow> True | Inr _ \<Rightarrow> open_with E i K ((\<lambda>s. i32_of_nat (fst s)) ` set sinks) w)"
proof (rule tripleI)
  fix w assume J: "open_with E i K {} w"
  let ?v = "snd (env_turn w)"
  let ?w = "snd (run_state (ensure_call i sinks) w)"
  have "preserves (open_with E i K {}) (ensure_call i sinks)"
    by (rule taken_over.ensure_call_keeps) simp
  then have J': "open_with E i K {} ?w" using J by (rule preservesD)
  have "case fst (run_state (ensure_call i sinks) w) of Inl e \<Rightarrow> True
      | Inr _ \<Rightarrow> ensure_sink_deliveries i sinks (w_db ?v) = Inr (w_db ?w)"
    by (auto simp: ensure_call_def store_call_def Let_def split_def split: fault.splits sum.splits)
  then show "case fst (run_state (ensure_call i sinks) w) of Inl e \<Rightarrow> True
      | Inr _ \<Rightarrow> open_with E i K ((\<lambda>s. i32_of_nat (fst s)) ` set sinks) ?w"
    using J' ensure_indices(2) by (auto simp: open_with_def held_def list_all_iff split: sum.splits)
qed

lemma sound_after:
  "(\<And>x. triple (\<lambda>_. True) (f x) (delivery_sound E i K M s u)) \<Longrightarrow> triple P (try_bind m f) (delivery_sound E i K M s u)"
  by (rule triple_try [where R = "\<lambda>_ _. True"]) (auto intro: tripleI split: sum.splits)

lemma open_keeps:
  "preserves (open_with E i K M) (sync_outbox_status_alert i s)"
  "preserves (open_with E i K M) (abandon_call i ks err)"
  "preserves (open_with E i K M) (emit_breaker_alerts a)"
  "preserves (open_with E i K M) (fan_out p a ev idxs)"
  "preserves (open_with E i K M) (try_map (\<lambda>r. do { record_sink_attempt nc (fst r) (snd r); apply_result i r }) rs)"
  by (intro keeps TrueI taken_over.sync_row_keeps taken_over.abandon_row_keeps
      taken_over.counter_programs_keep taken_over.apply_result_keeps taken_over.fan_out_keeps)+

lemma call_pending_sound:
  "triple (open_with E i K M) (call_pending_sinks a nc i ev s u idxs) (delivery_sound E i K M s u)"
  unfolding call_pending_sinks_def
  by (intro triple_bind_keep triple_try_keep open_keeps triple_if final_read_sound)
    (auto intro: triple_ok)

lemma deliver_pending_sound:
  "triple (open_with E i K M) (deliver_pending a nc i ev s u pending) (delivery_sound E i K M s u)"
  unfolding deliver_pending_def Let_def
  by (intro triple_if final_read_sound failing_sound sound_after
      triple_try_keep [OF preserves_if [OF preserves_ok open_keeps(2)]] call_pending_sound)

lemma deliver_through_sound:
  "triple (open_with E i K {}) (deliver_through a nc i ev s u)
     (delivery_sound E i K (i32_of_nat ` set (matching_indices nc ev)) s u)"
proof -
  let ?M = "i32_of_nat ` set (matching_indices nc ev)"
  let ?sinks = "map (\<lambda>idx. (idx, kind_at nc idx)) (matching_indices nc ev)"
  have read: "triple (open_with E i K ?M) (try_bind (store_read (\<lambda>now app d. list_pending_sink_indices d i))
      (deliver_pending a nc i ev s u)) (delivery_sound E i K ?M s u)"
    by (rule triple_read [OF taken_over.program_contract_axioms, OF triple_pre [OF deliver_pending_sound]]) auto
  have "triple (open_with E i K {}) (ensure_call i ?sinks)
      (\<lambda>r w. case r of Inl e \<Rightarrow> delivery_sound E i K ?M s u (Inl e) w | Inr x \<Rightarrow> open_with E i K ?M w)"
    by (rule triple_post [OF ensure_call_opens]) (auto simp: image_image split: sum.splits)
  then have "triple (open_with E i K {}) (try_bind (ensure_call i ?sinks) (\<lambda>_.
      try_bind (store_read (\<lambda>now app d. list_pending_sink_indices d i)) (deliver_pending a nc i ev s u)))
      (delivery_sound E i K ?M s u)"
    by (rule triple_try) (rule read)
  then show ?thesis
    unfolding deliver_through_def Let_def by (intro triple_if failing_sound)
qed

lemma deliver_sound:
  assumes "db_ok (w_db w)" and "r \<in> set (db_outbox (w_db w))" and "ob_id r = i"
    and "run_state (deliver_to_pending_sinks i ev s u) w = (res, w')"
  shows "delivery_sound (w_env w) i (outbox_key r)
     (i32_of_nat ` set (matching_indices (w_heap w (rt_notifier (w_runtime w))) ev)) s u res w'"
proof -
  let ?a = "rt_notifier (w_runtime w)"
  have "held i (outbox_key r) {} (w_db w)"
    using assms(1-3) by (auto simp: held_def db_ok_def outbox_ok_def list_all_iff dest: distinct_key_unique)
  then have "open_with (w_env w) i (outbox_key r) {} w" by (simp add: open_with_def)
  moreover have "run_state (deliver_through ?a (w_heap w ?a) i ev s u) w = (res, w')"
    using assms(4) by (simp add: deliver_to_pending_sinks_def notifier_snapshot_def notifier_at_def asks_world_def)
  ultimately show ?thesis using tripleD [OF deliver_through_sound] by blast
qed

section \<open>Which sinks are called\<close>

definition calls_sound :: "int \<Rightarrow> int set \<Rightarrow> nat set \<Rightarrow> event \<Rightarrow> sent_call list \<Rightarrow> 'a \<Rightarrow> world \<Rightarrow> bool" where
  "calls_sound i S0 M ev L r w \<longleftrightarrow>
     (\<exists>cs. own_calls i w = L @ cs \<and> distinct (map sc_sink cs)
       \<and> list_all (\<lambda>c. sc_sink c \<in> M \<and> int (sc_sink c) \<notin> S0 \<and> sc_event c = ev) cs)"

definition before_with :: "int \<Rightarrow> int set \<Rightarrow> sent_call list \<Rightarrow> world \<Rightarrow> bool" where
  "before_with i S0 L w \<longleftrightarrow>
     left_alone i w \<and> open_row i (w_db w) \<and> S0 \<subseteq> sent_indices i (w_db w) \<and> own_calls i w = L"

lemma before_contract: "program_contract (before_with i S0 L) (foreign_action i) (gentle_op i)"
  unfolding before_with_def [abs_def] by (rule before_calls.program_contract_axioms)

lemma no_calls_sound: "own_calls i w = L \<Longrightarrow> calls_sound i S0 M ev L r w"
  by (simp add: calls_sound_def)

lemma before_no_calls: "before_with i S0 L w \<Longrightarrow> calls_sound i S0 M ev L r w"
  by (simp add: before_with_def no_calls_sound)

lemma quiet_program:
  assumes "preserves (\<lambda>w. own_calls i w = L) m"
  shows "triple (before_with i S0 L) m (calls_sound i S0 M ev L)"
  by (rule triple_pre [OF triple_post [OF triple_keep [OF assms]]]) (auto simp: no_calls_sound before_with_def)

lemma after_calls:
  assumes "\<And>L. preserves (\<lambda>w. own_calls i w = L) m"
  shows "triple (calls_sound i S0 M ev L r) m (calls_sound i S0 M ev L)"
proof (rule tripleI)
  fix w assume "calls_sound i S0 M ev L r w"
  moreover have "own_calls i (snd (run_state m w)) = own_calls i w" by (rule preservesD [OF assms]) simp
  ultimately show "calls_sound i S0 M ev L (fst (run_state m w)) (snd (run_state m w))"
    by (simp add: calls_sound_def)
qed

lemma pending_fresh:
  assumes "db_ok d" and "idx \<in> set (list_pending_sink_indices d i)"
  shows "int idx \<notin> sent_indices i d"
proof
  assume "int idx \<in> sent_indices i d"
  then obtain k where k: "k \<in> set (db_sinks d)" "sd_outbox_id k = i" "sd_status k = Sent" "sd_sink_index k = int idx"
    by (auto simp: sent_indices_def sinks_of_def)
  obtain k' where k': "k' \<in> set (db_sinks d)" "sd_outbox_id k' = i" "retryable (sd_status k')" "nat (sd_sink_index k') = idx"
    using assms pending_indices_of [OF assms(1), of i] by auto
  have "0 \<le> sd_sink_index k'" using assms(1) k'(1) by (auto simp: db_ok_def sinks_ok_def list_all_iff sink_row_ok_def)
  then have "sink_key k = sink_key k'" using k k' by (auto simp: sink_key_def)
  then have "k = k'" using assms(1) k(1) k'(1) distinct_key_unique
    by (fastforce simp: db_ok_def sinks_ok_def)
  then show False using k k' by (simp add: retryable_def)
qed

lemma own_row_calls: "filter (\<lambda>c. sc_purpose c = Row_delivery i) (log_calls (Row_delivery i) ev send idxs)
    = log_calls (Row_delivery i) ev send idxs"
  by (simp add: log_calls_def filter_map o_def)

lemma fan_out_calls:
  assumes "distinct idxs" and "\<forall>idx \<in> set idxs. idx \<in> M \<and> int idx \<notin> S0"
  shows "triple (before_with i S0 L) (fan_out (Row_delivery i) a ev idxs) (calls_sound i S0 M ev L)"
proof (rule tripleI)
  fix w assume "before_with i S0 L w"
  then have "own_calls i w = L" by (simp add: before_with_def)
  then show "calls_sound i S0 M ev L (fst (run_state (fan_out (Row_delivery i) a ev idxs) w))
      (snd (run_state (fan_out (Row_delivery i) a ev idxs) w))"
    using assms
    by (auto simp: calls_sound_def fan_out_def Let_def split_def own_calls_def own_row_calls)
      (auto simp: log_calls_def o_def list_all_iff)
qed

lemma own_log_keeps:
  "preserves (\<lambda>w. own_calls i w = L) (emit_breaker_alerts a)"
  "preserves (\<lambda>w. own_calls i w = L) (sync_outbox_status_alert i s)"
  "preserves (\<lambda>w. own_calls i w = L) (fail_outbox_row_alert i s e)"
  "preserves (\<lambda>w. own_calls i w = L) (abandon_call i ks e)"
  "preserves (\<lambda>w. own_calls i w = L) (complete_or_failed i s u)"
  "preserves (\<lambda>w. own_calls i w = L) (store_read f)"
  "preserves (\<lambda>w. own_calls i w = L) (try_map (\<lambda>r. do { record_sink_attempt nc (fst r) (snd r); apply_result i r }) rs)"
  by (intro keeps TrueI own_log.sync_row_keeps own_log.fail_row_keeps own_log.abandon_row_keeps
      own_log.complete_row_keeps own_log.counter_programs_keep own_log.apply_result_keeps own_log.read_keeps)+

lemma after_complete:
  "triple (calls_sound i S0 M ev L r) (try_bind (store_read (\<lambda>now app d. sinks_delivery_complete d i))
     (\<lambda>complete. if complete then complete_or_failed i s u else ok attempt_failed)) (calls_sound i S0 M ev L)"
  by (intro after_calls keeps own_log_keeps)

lemma call_pending_calls:
  assumes "distinct idxs" and "\<forall>idx \<in> set idxs. idx \<in> M \<and> int idx \<notin> S0"
  shows "triple (before_with i S0 L) (call_pending_sinks a nc i ev s u idxs) (calls_sound i S0 M ev L)"
  unfolding call_pending_sinks_def
  by (rule triple_bind [OF fan_out_calls [OF assms]])
    (intro after_calls keeps own_log_keeps)

lemma deliver_pending_calls:
  assumes "distinct pending" and "\<forall>idx \<in> set pending. int idx \<notin> S0"
  shows "triple (before_with i S0 L) (deliver_pending a nc i ev s u pending)
    (calls_sound i S0 (set (matching_indices nc ev)) ev L)"
  unfolding deliver_pending_def Let_def
proof (intro triple_if)
  show "triple (before_with i S0 L) (try_bind (if xs = [] then ok 0 else abandon_call i xs e)
      (\<lambda>_. call_pending_sinks a nc i ev s u (filter (\<lambda>idx. idx \<in> set (matching_indices nc ev)) pending)))
      (calls_sound i S0 (set (matching_indices nc ev)) ev L)" for xs e
  proof (rule triple_try [where R = "\<lambda>_. before_with i S0 L"])
    have "preserves (before_with i S0 L) (if xs = [] then ok 0 else abandon_call i xs e)"
      by (intro preserves_if preserves_ok program_contract.abandon_row_keeps [OF before_contract])
        (simp add: gentle_op_def)
    then show "triple (before_with i S0 L) (if xs = [] then ok 0 else abandon_call i xs e)
        (\<lambda>r w. case r of Inl err \<Rightarrow> calls_sound i S0 (set (matching_indices nc ev)) ev L (Inl err) w
          | Inr _ \<Rightarrow> before_with i S0 L w)"
      by (auto intro!: triple_post [OF triple_keep] intro: before_no_calls split: sum.splits)
  qed (rule call_pending_calls; use assms in auto)
qed (intro quiet_program keeps own_log_keeps)+

lemma deliver_through_calls:
  "triple (before_with i S0 L) (deliver_through a nc i ev s u) (calls_sound i S0 (set (matching_indices nc ev)) ev L)"
  unfolding deliver_through_def Let_def
proof (rule triple_if)
  let ?Q = "calls_sound i S0 (set (matching_indices nc ev)) ev L"
  show "triple (before_with i S0 L) (try_bind (fail_outbox_row_alert i s e) (\<lambda>_. ok attempt_failed)) ?Q" for e
    by (intro quiet_program keeps own_log_keeps)
  have read: "triple (before_with i S0 L) (try_bind (store_read (\<lambda>now app d. list_pending_sink_indices d i))
      (deliver_pending a nc i ev s u)) ?Q"
  proof (rule triple_read [OF before_contract])
    fix x
    show "triple (\<lambda>w. before_with i S0 L w \<and> (\<exists>now app. x = list_pending_sink_indices (w_db w) i))
      (deliver_pending a nc i ev s u x) ?Q"
    proof (cases "distinct x \<and> (\<forall>idx \<in> set x. int idx \<notin> S0)")
      case True
      then show ?thesis by (intro triple_pre [OF deliver_pending_calls]) auto
    next
      case False
      have "\<not> (before_with i S0 L w \<and> x = list_pending_sink_indices (w_db w) i)" for w
        using False pending_indices_of [of "w_db w" i] pending_fresh [of "w_db w" _ i]
        by (auto simp: before_with_def open_row_def)
      then show ?thesis by (auto intro!: tripleI)
    qed
  qed (rule before_no_calls)
  show "triple (before_with i S0 L) (try_bind (ensure_call i sinks) (\<lambda>_.
      try_bind (store_read (\<lambda>now app d. list_pending_sink_indices d i)) (deliver_pending a nc i ev s u))) ?Q" for sinks
  proof (rule triple_try [where R = "\<lambda>_. before_with i S0 L"])
    have "preserves (before_with i S0 L) (ensure_call i sinks)"
      by (rule program_contract.ensure_call_keeps [OF before_contract]) (simp add: gentle_op_def)
    then show "triple (before_with i S0 L) (ensure_call i sinks)
        (\<lambda>r w. case r of Inl err \<Rightarrow> ?Q (Inl err) w | Inr _ \<Rightarrow> before_with i S0 L w)"
      by (auto intro!: triple_post [OF triple_keep] intro: before_no_calls split: sum.splits)
  qed (rule read)
qed

lemma deliver_calls:
  assumes "left_alone i w" and "open_row i (w_db w)"
    and "run_state (deliver_to_pending_sinks i ev s u) w = (r, w')"
  shows "calls_sound i (sent_indices i (w_db w))
    (set (matching_indices (w_heap w (rt_notifier (w_runtime w))) ev)) ev (own_calls i w) r w'"
proof -
  let ?a = "rt_notifier (w_runtime w)"
  have "run_state (deliver_through ?a (w_heap w ?a) i ev s u) w = (r, w')"
    using assms(3) by (simp add: deliver_to_pending_sinks_def notifier_snapshot_def notifier_at_def asks_world_def)
  then show ?thesis
    using assms(1,2) tripleD [OF deliver_through_calls] by (force simp: before_with_def)
qed

section \<open>Example runs\<close>

definition example_disturbed :: "nat \<Rightarrow> store_op list \<Rightarrow> world" where
  "example_disturbed n ps = example_world\<lparr>w_env := (\<lambda>k. if k = n then quiet_step\<lparr>es_actions := map Store_action ps\<rparr>
     else quiet_step)\<rparr>"

lemma disturbed_call:
  assumes "w_env w = (\<lambda>k. if k = n then quiet_step\<lparr>es_actions := map Store_action ps\<rparr> else quiet_step)"
    and "w_ticks w = m"
  shows "run_state (store_call f) w
    = (let d0 = (if m = n then fold (exec_op (w_now w) (app_now w)) ps (w_db w) else w_db w) in
       case f (w_now w) (app_now w) d0 of (r, d) \<Rightarrow>
        (map_sum Store_error id r, w\<lparr>w_ticks := Suc m, w_db := d\<rparr>))"
proof -
  have [simp]: "fold env_act (map Store_action ps) v
    = v\<lparr>w_db := fold (exec_op (w_now v) (app_now v)) ps (w_db v)\<rparr>" for v :: world
    by (induction ps arbitrary: v) (simp_all add: app_now_def)
  show ?thesis using assms
    by (simp add: store_call_def env_turn_def Let_def quiet_step_def pass_time_def app_now_def
        split: prod.splits sum.splits)
qed

lemma quiet_call:
  assumes "w_env w = (\<lambda>_. quiet_step)"
  shows "run_state (store_call f) w
    = (case f (w_now w) (app_now w) (w_db w) of (r, d) \<Rightarrow>
        (map_sum Store_error id r, w\<lparr>w_ticks := w_ticks w + 1, w_db := d\<rparr>))"
  using assms
  by (simp add: store_call_def env_turn_def Let_def quiet_step_def pass_time_def app_now_def split: prod.splits sum.splits)

lemma example_matching: "matching_indices (composite_new example_sinks) example_event = [1]"
  by code_simp

definition example_ledger :: "row_status \<Rightarrow> timestamp option \<Rightarrow> db" where
  "example_ledger st at = example_queue\<lparr>db_sinks :=
     [(new_sink_row 2 1 ''apprise'')\<lparr>sd_status := st, sd_sent_at := at\<rparr>]\<rparr>"

lemma example_ensure:
  "ensure_sink_deliveries 2 [(1, ''apprise'')] example_queue = Inr (example_ledger Pending None)"
  by code_simp

lemma example_pending: "list_pending_sink_indices (example_ledger Pending None) 2 = [1]"
  by code_simp

lemma example_sink_ok: "complete_sink_delivery 3100 2 1 (example_ledger Pending None) = example_ledger Sent (Some 3100)"
  by code_simp

lemma example_sync: "sync_outbox_sink_status 2 (example_ledger Sent (Some 3100)) = (False, example_ledger Sent (Some 3100))"
  by code_simp

lemma example_complete: "sinks_delivery_complete (example_ledger Sent (Some 3100)) 2"
  by code_simp

lemma example_kind: "kind_at (composite_new example_sinks) 1 = ''apprise''"
  by code_simp

lemma example_partial:
  "notify_partial (\<lambda>_ _. (3, None)) 0 example_event [1] (composite_new example_sinks)
     = ([(1, None)], composite_new example_sinks)"
  by code_simp

definition example_upsert :: seen_upsert where
  "example_upsert = \<lparr>su_identity = ''v2'', su_display_tag = None, su_content_digest = None,
     su_published_at = None, su_url = None\<rparr>"

lemma example_completes: "fst (complete_notification 3100 2 ''gh:a'' example_upsert (example_ledger Sent (Some 3100)))"
  by code_simp

lemma example_end: "notify_partial_end (\<lambda>_ _. (3, None)) 0 example_event [1] (composite_new example_sinks) = 3"
  by code_simp

lemma example_drain: "drain_newly_opened_breakers (composite_new example_sinks) = ([], composite_new example_sinks)"
  by code_simp

lemmas example_steps = example_end example_drain example_matching example_kind example_ensure example_pending example_partial
  example_sink_ok example_sync example_complete example_completes

lemmas attempt_steps = deliver_to_pending_sinks_def deliver_through_def deliver_pending_def
  call_pending_sinks_def notifier_snapshot_def notifier_at_def asks_world_def Let_def try_bind_def
  ensure_call_def disturbed_call example_disturbed_def store_read_def store_write_def fan_out_def split_def
  app_now_def ok_def example_world_def emit_breaker_alerts_def drain_breakers_def
  record_sink_attempt_def count_metric_def modify_def
  apply_result_def sink_ok_call_def sync_outbox_status_alert_def sync_outbox_status_def any_failed_def
  complete_or_failed_def pass_time_def

text \<open>
  A worker that takes the row over between the last look at the ledger and the completion: it
  releases the lease, claims the row, adds a sink of its own configuration and reports the sink
  it shares as sent.
\<close>

definition takeover :: "store_op list" where
  "takeover = [Op_release 2, Op_claim_row 2, Op_ensure 2 [(0, ''slack'')], Op_sink_ok 2 1, Op_sync 2]"

lemma takeover_completes:
  "fst (complete_notification 3100 2 ''gh:a'' example_upsert
     (fold (exec_op 3100 3100) takeover (example_ledger Sent (Some 3100))))"
  by code_simp

lemma taken_over_run:
  "fst (run_state (deliver_to_pending_sinks 2 example_event ''gh:a'' example_upsert) (example_disturbed 5 takeover))
     = Inr attempt_delivered"
  by (simp add: attempt_steps example_steps takeover_completes del: One_nat_def exec_op.simps)

text \<open>
  The statement that records the failure of a sink does not look at its status
  (\<^verbatim>\<open>fail_sink_delivery\<close>), and the one that completes a row does not look at the ledger: a failure
  that another worker records in that moment turns the sent entry into a failed one, and the
  attempt still completes the row and reports a delivery.
\<close>

lemma late_failure:
  "fst (complete_notification 3100 2 ''gh:a'' example_upsert (fail_sink_delivery 2 1 ''late'' (example_ledger Sent (Some 3100))))"
  "list_all (\<lambda>k. sd_status k = Failed) (sinks_of (snd (complete_notification 3100 2 ''gh:a'' example_upsert
     (fail_sink_delivery 2 1 ''late'' (example_ledger Sent (Some 3100))))) 2)"
  by code_simp+

lemma late_failure_slips_through:
  "case run_state (deliver_to_pending_sinks 2 example_event ''gh:a'' example_upsert)
      (example_disturbed 5 [Op_sink_fail 2 1 ''late'']) of
    (r, w) \<Rightarrow> r = Inr attempt_delivered \<and> list_all (\<lambda>k. sd_status k = Failed) (sinks_of (w_db w) 2)"
  by (simp add: attempt_steps example_steps late_failure del: One_nat_def)

lemma example_alone: "left_alone i example_world"
  by (simp add: left_alone_def example_world_def quiet_step_def)

lemma example_open: "open_row 2 (w_db example_world)"
  using example_queue_ok
  by (simp add: open_row_def example_world_def) (simp add: example_queue_def example_outbox_row_def)

section \<open>The guarantees of one attempt\<close>

text \<open>
  C1: a reported delivery is a delivery, also when another worker has taken the row over.  Let an
  attempt at a row of intact tables report success.  Whatever other workers did to the tables
  around its store calls (claimed, released, completed, failed, requeued, synchronised or pruned
  the row, wrote, failed or abandoned its sinks), provided only that between its last look at the
  ledger and its completion of the row nobody recorded a failure of a sink of the row and nobody
  queued the release again: then the tables are intact, the row is marked sent, every sink that
  matches the event has a sent entry in its ledger, and the release is recorded as seen.
\<close>

theorem reported_delivery_real:
  assumes "db_ok (w_db w)" and "r \<in> set (db_outbox (w_db w))"
    and "run_state (deliver_to_pending_sinks (ob_id r) ev s u) w = (Inr att, w')" and "da_delivered att"
    and "list_all (spares_action (ob_id r) (outbox_key r)) (es_actions (w_env w (w_ticks w' - 1)))"
  shows "db_ok (w_db w') \<and> list_ex (\<lambda>r'. ob_id r' = ob_id r \<and> ob_status r' = Sent) (db_outbox (w_db w'))
    \<and> i32_of_nat ` set (matching_indices (w_heap w (rt_notifier (w_runtime w))) ev)
        \<subseteq> sd_sink_index ` set (filter (\<lambda>k. sd_status k = Sent) (sinks_of (w_db w') (ob_id r)))
    \<and> has_seen (w_db w') s (su_identity u)"
  using deliver_sound [OF assms(1,2) refl assms(3)] assms(4,5)
  by (simp add: delivery_sound_def delivered_state_def sent_indices_def)

theorem reported_delivery_real_witness:
  "has_seen (w_db (snd (run_state (deliver_to_pending_sinks 2 example_event ''gh:a'' example_upsert)
     (example_disturbed 5 takeover)))) ''gh:a'' ''v2''"
proof -
  let ?w = "example_disturbed 5 takeover"
  have r: "example_outbox_row 2 ''v2'' Pending None \<in> set (db_outbox (w_db ?w))"
    by (simp add: example_disturbed_def example_world_def example_queue_def)
  have run: "run_state (deliver_to_pending_sinks 2 example_event ''gh:a'' example_upsert) ?w
      = (Inr attempt_delivered, snd (run_state (deliver_to_pending_sinks 2 example_event ''gh:a'' example_upsert) ?w))"
    by (rule prod_eqI) (simp_all add: taken_over_run)
  show ?thesis
    using reported_delivery_real [OF _ r, of example_event "''gh:a''" example_upsert attempt_delivered] run example_queue_ok
    by (simp add: attempt_delivered_def example_upsert_def example_outbox_row_def example_disturbed_def
        example_world_def quiet_step_def takeover_def)
qed



end
