(* ===== verification/Upstream.thy ===== *)
theory Upstream
  imports Releases
begin

text \<open>
  What the release providers share: the HTTP helpers with conditional requests
  (\<^verbatim>\<open>src/src/sources/http.rs\<close>), the timestamp parsers with their plausibility floor
  (\<^verbatim>\<open>time.rs\<close>), and the page URLs with percent encoding (\<^verbatim>\<open>release_urls.rs\<close>).  The HTTP
  client is a function from requests to answers, the JSON decoder and the calendar of \<^verbatim>\<open>chrono\<close>
  are parameters; a string is the list of its UTF-8 bytes.
\<close>

section \<open>Requests\<close>

datatype source_error =
    Http_failure string
  | Feed_failure string
  | Registry_status nat string
  | Source_other string

definition show_source_error :: "source_error \<Rightarrow> string" where
  "show_source_error e =
    (case e of
       Http_failure m \<Rightarrow> ''http request failed: '' @ m
     | Feed_failure m \<Rightarrow> ''failed to parse feed: '' @ m
     | Registry_status n url \<Rightarrow> ''registry returned status '' @ show_nat n @ '' for '' @ url
     | Source_other m \<Rightarrow> m)"

datatype request_auth = Bearer_auth string | Basic_auth string string

record http_request =
  rq_url :: string
  rq_query :: "(string \<times> string) list"
  rq_headers :: "(string \<times> string) list"
  rq_auth :: "request_auth option"

record http_response =
  rs_status :: nat
  rs_headers :: "(string \<times> string) list"
  rs_body :: string

type_synonym http = "http_request \<Rightarrow> string + http_response"
type_synonym 'a decoder = "string \<Rightarrow> string + 'a"

definition get_request :: "string \<Rightarrow> http_request" where
  "get_request url = \<lparr>rq_url = url, rq_query = [], rq_headers = [], rq_auth = None\<rparr>"

definition with_header :: "string \<Rightarrow> string \<Rightarrow> http_request \<Rightarrow> http_request" where
  "with_header k v r = r\<lparr>rq_headers := rq_headers r @ [(k, v)]\<rparr>"

definition bearer_auth :: "string \<Rightarrow> http_request \<Rightarrow> http_request" where
  "bearer_auth t r = r\<lparr>rq_auth := Some (Bearer_auth t)\<rparr>"

definition if_none_match :: "string option \<Rightarrow> http_request \<Rightarrow> http_request" where
  "if_none_match etag r = (case etag of None \<Rightarrow> r | Some e \<Rightarrow> with_header ''if-none-match'' e r)"

definition header_string :: "http_response \<Rightarrow> string \<Rightarrow> string option" where
  "header_string r name = map_of (rs_headers r) name"

definition is_success :: "http_response \<Rightarrow> bool" where
  "is_success r \<longleftrightarrow> 200 \<le> rs_status r \<and> rs_status r < 300"

record 'a fetch_result =
  fr_data :: "'a option"
  fr_etag :: "string option"
  fr_not_modified :: bool

definition read_response :: "string \<Rightarrow> 'a decoder \<Rightarrow> http_response \<Rightarrow> source_error + 'a fetch_result" where
  "read_response url decode r =
    (let etag = header_string r ''etag'' in
     if rs_status r = 304 then Inr \<lparr>fr_data = None, fr_etag = etag, fr_not_modified = True\<rparr>
     else if \<not> is_success r then Inl (Registry_status (rs_status r) url)
     else (case decode (rs_body r) of
         Inl e \<Rightarrow> Inl (Http_failure e)
       | Inr x \<Rightarrow> Inr \<lparr>fr_data = Some x, fr_etag = etag, fr_not_modified = False\<rparr>))"

definition fetch_json :: "http \<Rightarrow> 'a decoder \<Rightarrow> string \<Rightarrow> string option
    \<Rightarrow> (http_request \<Rightarrow> http_request) \<Rightarrow> source_error + 'a fetch_result" where
  "fetch_json http decode url etag build =
    (case http (build (if_none_match etag (get_request url))) of
       Inl e \<Rightarrow> Inl (Http_failure e)
     | Inr r \<Rightarrow> read_response url decode r)"

definition fetch_bytes :: "http \<Rightarrow> string \<Rightarrow> string option
    \<Rightarrow> (http_request \<Rightarrow> http_request) \<Rightarrow> source_error + string fetch_result" where
  "fetch_bytes http url etag build =
    (case http (build (if_none_match etag (get_request url))) of
       Inl e \<Rightarrow> Inl (Http_failure e)
     | Inr r \<Rightarrow> read_response url Inr r)"

record 'v fetch_outcome =
  fo_releases :: "'v release list"
  fo_etag :: "string option"
  fo_not_modified :: bool

definition outcome_fresh :: "'v release list \<Rightarrow> string option \<Rightarrow> 'v fetch_outcome" where
  "outcome_fresh rs etag = \<lparr>fo_releases = rs, fo_etag = etag, fo_not_modified = False\<rparr>"

definition outcome_not_modified :: "'v fetch_outcome" where
  "outcome_not_modified = \<lparr>fo_releases = [], fo_etag = None, fo_not_modified = True\<rparr>"

section \<open>Timestamps\<close>

record chrono =
  ch_parse_utc :: "string \<Rightarrow> int option"
  ch_parse_rfc3339 :: "string \<Rightarrow> int option"
  ch_from_millis :: "int \<Rightarrow> int option"
  ch_from_secs :: "int \<Rightarrow> int option"
  ch_year :: "int \<Rightarrow> int"
  ch_date :: "int \<Rightarrow> string"

definition EARLIEST_PLAUSIBLE_YEAR :: int where
  "EARLIEST_PLAUSIBLE_YEAR = 1980"

definition plausible :: "chrono \<Rightarrow> int \<Rightarrow> bool" where
  "plausible ch t \<longleftrightarrow> EARLIEST_PLAUSIBLE_YEAR \<le> ch_year ch t"

definition floored :: "chrono \<Rightarrow> int option \<Rightarrow> int option" where
  "floored ch t = (case t of None \<Rightarrow> None | Some x \<Rightarrow> if plausible ch x then Some x else None)"

definition parse_rfc3339 :: "chrono \<Rightarrow> string \<Rightarrow> int option" where
  "parse_rfc3339 ch value =
    floored ch (case ch_parse_utc ch value of Some t \<Rightarrow> Some t | None \<Rightarrow> ch_parse_rfc3339 ch value)"

definition parse_timestamp_millis :: "chrono \<Rightarrow> int \<Rightarrow> int option" where
  "parse_timestamp_millis ch ms = floored ch (ch_from_millis ch ms)"

lemma floored_plausible: "floored ch t = Some x \<Longrightarrow> plausible ch x"
  by (auto simp: floored_def split: option.splits if_splits)

lemma parsed_plausible:
  "parse_rfc3339 ch v = Some x \<Longrightarrow> plausible ch x"
  "parse_timestamp_millis ch ms = Some x \<Longrightarrow> plausible ch x"
  by (auto simp: parse_rfc3339_def parse_timestamp_millis_def dest: floored_plausible)

section \<open>Page URLs\<close>

definition unreserved :: "char \<Rightarrow> bool" where
  "unreserved c \<longleftrightarrow> is_alnum c \<or> c = CHR ''-'' \<or> c = CHR ''_'' \<or> c = CHR ''.'' \<or> c = CHR ''~''"

definition upper_hex :: "nat \<Rightarrow> char" where
  "upper_hex n = (if n < 10 then byte (48 + n) else byte (55 + n))"

definition percent :: char where
  "percent = byte 37"

definition encode_byte :: "char \<Rightarrow> string" where
  "encode_byte c =
    (if unreserved c then [c] else [percent, upper_hex (code c div 16), upper_hex (code c mod 16)])"

definition encode_path_segment :: "string \<Rightarrow> string" where
  "encode_path_segment s = concat (map encode_byte s)"

definition from_hex :: "char \<Rightarrow> nat option" where
  "from_hex c =
    (if is_digit c then Some (code c - 48)
     else if 97 \<le> code c \<and> code c \<le> 102 then Some (code c - 97 + 10)
     else if 65 \<le> code c \<and> code c \<le> 70 then Some (code c - 65 + 10)
     else None)"

fun decode_bytes :: "string \<Rightarrow> string" where
  "decode_bytes (a # b # c # cs) =
    (if a = percent then
       (case (from_hex b, from_hex c) of
          (Some hi, Some lo) \<Rightarrow> byte (hi * 16 + lo) # decode_bytes cs
        | _ \<Rightarrow> a # decode_bytes (b # c # cs))
     else a # decode_bytes (b # c # cs))"
| "decode_bytes s = s"

text \<open>
  \<^verbatim>\<open>String::from_utf8_lossy\<close>: well-formed sequences are kept, each maximal ill-formed prefix
  becomes the replacement character.
\<close>

definition utf8_width :: "char \<Rightarrow> nat" where
  "utf8_width c =
    (let b = code c in
     if b < 128 then 1 else if 194 \<le> b \<and> b \<le> 223 then 2
     else if 224 \<le> b \<and> b \<le> 239 then 3 else if 240 \<le> b \<and> b \<le> 244 then 4 else 0)"

definition utf8_second :: "char \<Rightarrow> char \<Rightarrow> bool" where
  "utf8_second c d =
    (let b = code c; x = code d in
     if b = 224 then 160 \<le> x \<and> x \<le> 191
     else if b = 237 then 128 \<le> x \<and> x \<le> 159
     else if b = 240 then 144 \<le> x \<and> x \<le> 191
     else if b = 244 then 128 \<le> x \<and> x \<le> 143
     else 128 \<le> x \<and> x \<le> 191)"

definition utf8_step :: "char \<Rightarrow> string \<Rightarrow> nat \<times> bool" where
  "utf8_step c cs =
    (let w = utf8_width c in
     if w \<le> 1 then (1, w = 1)
     else (case cs of
         [] \<Rightarrow> (1, False)
       | d # ds \<Rightarrow>
           if \<not> utf8_second c d then (1, False)
           else let n = length (takeWhile is_continuation (take (w - 2) ds)) in (2 + n, n = w - 2)))"

definition replacement :: string where
  "replacement = map byte [239, 191, 189]"

lemma utf8_step_pos: "0 < fst (utf8_step c cs)"
  by (simp add: utf8_step_def Let_def split: list.splits)

function utf8_lossy :: "string \<Rightarrow> string" where
  "utf8_lossy [] = []"
| "utf8_lossy (c # cs) =
    (let (n, ok) = utf8_step c cs in
     (if ok then take n (c # cs) else replacement) @ utf8_lossy (drop n (c # cs)))"
  by pat_completeness auto
termination
proof (relation "measure length")
  fix c cs x n ok
  assume "x = utf8_step c cs" "(n, ok) = x"
  then show "(drop n (c # cs), c # cs) \<in> measure length"
    using utf8_step_pos [of c cs] by (cases x) (simp, metis diff_less_Suc fst_conv gr0_implies_Suc minus_nat.diff_0 diff_Suc_Suc)
qed simp

definition decode_path_segment :: "string \<Rightarrow> string" where
  "decode_path_segment s = utf8_lossy (decode_bytes s)"

definition trim_end_slashes :: "string \<Rightarrow> string" where
  "trim_end_slashes s = rev (dropWhile (\<lambda>c. c = CHR ''/'') (rev s))"

definition url_end :: "char \<Rightarrow> bool" where
  "url_end c \<longleftrightarrow> c = CHR ''/'' \<or> c = CHR ''?'' \<or> c = byte 35"

definition tag_from_release_url :: "string \<Rightarrow> string option" where
  "tag_from_release_url url =
    (case split_once ''/releases/tag/'' url of
       None \<Rightarrow> None
     | Some (_, rest) \<Rightarrow>
         let part = (case split_once ''/releases/tag/'' rest of None \<Rightarrow> rest | Some (a, _) \<Rightarrow> a) in
         Some (decode_path_segment (hd (split_by url_end part))))"

definition gitea_release_url :: "string \<Rightarrow> string \<Rightarrow> string \<Rightarrow> string" where
  "gitea_release_url web_base repo tag =
    trim_end_slashes web_base @ ''/'' @ repo @ ''/releases/tag/'' @ encode_path_segment tag"

definition gitlab_release_url :: "string \<Rightarrow> string \<Rightarrow> string \<Rightarrow> string" where
  "gitlab_release_url host project tag =
    trim_end_slashes host @ ''/'' @ project @ ''/-/releases/'' @ encode_path_segment tag"

section \<open>Decoding what was encoded\<close>

lemma from_upper_hex: "n < 16 \<Longrightarrow> from_hex (upper_hex n) = Some n"
  by (auto simp: from_hex_def upper_hex_def is_digit_def code_byte)

lemma decode_plain: "c \<noteq> percent \<Longrightarrow> decode_bytes (c # s) = c # decode_bytes s"
proof (cases s)
  case (Cons b t)
  assume "c \<noteq> percent"
  then show ?thesis using Cons by (cases t) simp_all
qed simp

lemma percent_reserved: "\<not> unreserved percent"
  by (simp add: unreserved_def percent_def is_alnum_def is_digit_def is_upper_def is_lower_def code_byte)
    (simp add: byte_def char_of_def)

lemma decode_encode_byte: "decode_bytes (encode_byte c @ s) = c # decode_bytes s"
proof (cases "unreserved c")
  case True
  then have "c \<noteq> percent" using percent_reserved by blast
  then show ?thesis using True by (simp add: encode_byte_def decode_plain)
next
  case False
  have "code c div 16 < 16" using code_less_256 [of c] by linarith
  moreover have "code c div 16 * 16 + code c mod 16 = code c" by simp
  ultimately show ?thesis using False byte_code [of c]
    by (simp add: encode_byte_def from_upper_hex)
qed

lemma decode_encode: "decode_bytes (encode_path_segment s) = s"
  by (induction s) (simp_all add: encode_path_segment_def decode_encode_byte)

definition valid_utf8 :: "string \<Rightarrow> bool" where
  "valid_utf8 s \<longleftrightarrow> utf8_lossy s = s"

lemma encode_byte_chars:
  assumes "x \<in> set (encode_byte c)"
  shows "x \<noteq> CHR ''/'' \<and> \<not> url_end x"
proof -
  have "list_all (\<lambda>n. \<not> url_end (upper_hex n)) [0..<16]" by code_simp
  then have hex: "\<not> url_end (upper_hex n)" if "n < 16" for n using that by (simp add: list_all_iff)
  have "\<not> url_end percent" by code_simp
  moreover have "\<not> unreserved (CHR ''/'')" "\<not> unreserved (CHR ''?'')" "\<not> unreserved (byte 35)" by code_simp+
  then have "unreserved c \<Longrightarrow> \<not> url_end c" by (auto simp: url_end_def)
  moreover have "code c div 16 < 16" using code_less_256 [of c] by linarith
  ultimately have "\<not> url_end x" using assms hex by (auto simp: encode_byte_def split: if_splits)
  then show ?thesis by (auto simp: url_end_def)
qed

lemma encode_chars: "x \<in> set (encode_path_segment s) \<Longrightarrow> x \<noteq> CHR ''/'' \<and> \<not> url_end x"
  using encode_byte_chars by (fastforce simp: encode_path_segment_def)

lemma split_once_first:
  assumes "\<not> contains_str (u @ butlast sep) sep" and "sep \<noteq> []"
  shows "split_once sep (u @ sep @ v) = Some (u, v)"
  using assms(1)
proof (induction u)
  case Nil
  obtain c cs where e: "sep @ v = c # cs" using assms(2) by (cases sep) auto
  then have "prefix sep (c # cs)" "drop (length sep) (c # cs) = v"
    by (metis prefixI, metis append_eq_conv_conj)
  then show ?case by (simp add: e)
next
  case (Cons c u)
  have "\<not> prefix sep (c # u @ sep @ v)"
  proof
    assume "prefix sep (c # u @ sep @ v)"
    then have "sep = take (length sep) (c # u @ butlast sep @ last sep # v)"
      using assms(2) by (metis append.assoc append_Cons append_butlast_last_id append_eq_conv_conj prefix_def append_Nil)
    also have "\<dots> = take (length sep) (c # u @ butlast sep)"
      using assms(2) by (simp add: take_Cons' Suc_diff_Suc)
    finally have "prefix sep (c # u @ butlast sep)" by (metis take_is_prefix)
    then show False using Cons.prems by simp
  qed
  moreover have "\<not> contains_str (u @ butlast sep) sep" using Cons.prems by simp
  ultimately show ?case using Cons.IH by simp
qed

lemma tag_of_release_url:
  assumes "valid_utf8 tag" and "\<not> contains_str (u @ ''/releases/tag'') ''/releases/tag/''"
  shows "tag_from_release_url (u @ ''/releases/tag/'' @ encode_path_segment tag) = Some tag"
proof -
  let ?e = "encode_path_segment tag"
  have first: "split_once ''/releases/tag/'' (u @ ''/releases/tag/'' @ ?e) = Some (u, ?e)"
    by (rule split_once_first) (use assms(2) in simp_all)
  have "\<not> contains_str ?e ''/releases/tag/''"
  proof
    assume "contains_str ?e ''/releases/tag/''"
    then obtain a b where "?e = a @ ''/releases/tag/'' @ b" by (auto simp: contains_str_iff)
    then have "CHR ''/'' \<in> set ?e" by simp
    then show False using encode_chars by blast
  qed
  then have "split_once ''/releases/tag/'' ?e = None" by (simp add: split_once_None)
  moreover have "split_by url_end ?e = [?e]" by (rule split_by_none) (use encode_chars in blast)
  ultimately show ?thesis
    using assms(1) unfolding tag_from_release_url_def first
    by (simp add: decode_path_segment_def decode_encode valid_utf8_def)
qed

text \<open>
  the page URL of a release of a Gitea-compatible forge identifies the release.  Reading the
  tag back from the URL built for it gives the tag, whatever well-formed text it is, as long as
  the part before it does not itself contain the marker.
\<close>

theorem release_url_round_trip:
  assumes "valid_utf8 tag"
    and "\<not> contains_str (trim_end_slashes web_base @ ''/'' @ repo @ ''/releases/tag'') ''/releases/tag/''"
  shows "tag_from_release_url (gitea_release_url web_base repo tag) = Some tag"
  using tag_of_release_url [OF assms(1), of "trim_end_slashes web_base @ ''/'' @ repo"] assms(2)
  by (simp add: gitea_release_url_def)

theorem release_url_round_trip_witness:
  "tag_from_release_url (gitea_release_url ''https://github.com/'' ''o/r'' ''backup/v1 %2F'') = Some ''backup/v1 %2F''"
proof -
  have "valid_utf8 ''backup/v1 %2F''" by code_simp
  moreover have "\<not> contains_str (trim_end_slashes ''https://github.com/'' @ ''/'' @ ''o/r'' @ ''/releases/tag'') ''/releases/tag/''"
    by code_simp
  ultimately show ?thesis by (rule release_url_round_trip)
qed

end
