(* ===== verification/Packages.thy ===== *)
theory Packages
  imports Upstream Advisories
begin

text \<open>
  The package registries (\<^verbatim>\<open>src/src/sources/package.rs\<close>): the URLs of each registry, the
  conditional fetch they share, and the conversion of each registry's document into releases.
  The JSON decoders are parameters that give the fields the code reads; a JSON object read into
  an ordered map is the list of its entries in key order.
\<close>

record package_source =
  pk_id :: string
  pk_name :: string
  pk_registry :: package_registry

definition parse_packagist_name :: "string \<Rightarrow> source_error + unit" where
  "parse_packagist_name name =
    (let err = Inl (Source_other (''packagist name must be '' @ [byte 96] @ ''vendor/package'' @ [byte 96]
                 @ '', got '' @ [byte 96] @ name @ [byte 96])) in
     case split_once ''/'' name of
       None \<Rightarrow> err
     | Some (vendor, package) \<Rightarrow> if vendor = [] \<or> package = [] then err else Inr ())"

definition parse_maven_coords :: "string \<Rightarrow> source_error + string \<times> string" where
  "parse_maven_coords name =
    (let err = Inl (Source_other (''maven name must be '' @ [byte 96] @ ''group:artifact'' @ [byte 96]
                 @ '', got '' @ [byte 96] @ name @ [byte 96])) in
     case split_once '':'' name of
       None \<Rightarrow> err
     | Some (grp, artifact) \<Rightarrow> if grp = [] \<or> artifact = [] then err else Inr (grp, artifact))"

definition package_index_url :: "package_source \<Rightarrow> string" where
  "package_index_url p =
    (let name = pk_name p in
     case pk_registry p of
       Pypi \<Rightarrow> ''https://pypi.org/project/'' @ name @ ''/''
     | Npm \<Rightarrow> ''https://www.npmjs.com/package/'' @ name
     | Cargo \<Rightarrow> ''https://crates.io/crates/'' @ name
     | Maven \<Rightarrow>
         (case parse_maven_coords name of
            Inr (grp, artifact) \<Rightarrow> ''https://search.maven.org/artifact/'' @ grp @ ''/'' @ artifact
          | Inl _ \<Rightarrow> ''https://search.maven.org/artifact/'' @ name)
     | Nuget \<Rightarrow> ''https://www.nuget.org/packages/'' @ name
     | Hex \<Rightarrow> ''https://hex.pm/packages/'' @ name
     | Rubygems \<Rightarrow> ''https://rubygems.org/gems/'' @ name
     | Packagist \<Rightarrow> ''https://packagist.org/packages/'' @ name
     | Yarn \<Rightarrow> ''https://www.npmjs.com/package/'' @ name
     | Cpan \<Rightarrow> ''https://metacpan.org/dist/'' @ name)"

definition package_fetch_url :: "package_source \<Rightarrow> source_error + string" where
  "package_fetch_url p =
    (let name = pk_name p in
     case pk_registry p of
       Pypi \<Rightarrow> Inr (''https://pypi.org/pypi/'' @ name @ ''/json'')
     | Npm \<Rightarrow> Inr (''https://registry.npmjs.org/'' @ name)
     | Cargo \<Rightarrow> Inr (''https://crates.io/api/v1/crates/'' @ name @ ''/versions'')
     | Maven \<Rightarrow>
         (case parse_maven_coords name of
            Inl e \<Rightarrow> Inl e
          | Inr (grp, artifact) \<Rightarrow>
              Inr (''https://search.maven.org/solrsearch/select?q=g:'' @ grp @ ''+AND+a:'' @ artifact
                @ ''&core=gav&rows=100&wt=json''))
     | Nuget \<Rightarrow> Inr (''https://api.nuget.org/v3-flatcontainer/'' @ to_ascii_lowercase name @ ''/index.json'')
     | Hex \<Rightarrow> Inr (''https://hex.pm/api/packages/'' @ name @ ''/releases'')
     | Rubygems \<Rightarrow> Inr (''https://rubygems.org/api/v1/versions/'' @ name @ ''.json'')
     | Packagist \<Rightarrow>
         (case parse_packagist_name name of
            Inl e \<Rightarrow> Inl e
          | Inr _ \<Rightarrow> Inr (''https://packagist.org/packages/'' @ name @ ''.json''))
     | Yarn \<Rightarrow> Inr (''https://registry.yarnpkg.com/'' @ name)
     | Cpan \<Rightarrow> Inr (''https://fastapi.metacpan.org/v1/release?distribution='' @ name
                @ ''&sort=date&order=desc&size=100''))"

definition package_url :: "package_source \<Rightarrow> string \<Rightarrow> string" where
  "package_url p version =
    (let name = pk_name p in
     case pk_registry p of
       Pypi \<Rightarrow> ''https://pypi.org/project/'' @ name @ ''/'' @ version @ ''/''
     | Npm \<Rightarrow> ''https://www.npmjs.com/package/'' @ name @ ''/v/'' @ version
     | Cargo \<Rightarrow> ''https://crates.io/crates/'' @ name @ ''/'' @ version
     | Maven \<Rightarrow>
         (case parse_maven_coords name of
            Inl _ \<Rightarrow> ''https://search.maven.org/artifact/'' @ name @ ''/'' @ version
          | Inr (grp, artifact) \<Rightarrow>
              ''https://search.maven.org/artifact/'' @ grp @ ''/'' @ artifact @ ''/'' @ version)
     | Nuget \<Rightarrow> ''https://www.nuget.org/packages/'' @ name @ ''/'' @ version
     | Hex \<Rightarrow> ''https://hex.pm/packages/'' @ name @ ''/'' @ version
     | Rubygems \<Rightarrow> ''https://rubygems.org/gems/'' @ name @ ''/versions/'' @ version
     | Packagist \<Rightarrow> ''https://packagist.org/packages/'' @ name @ ''#v'' @ version
     | Yarn \<Rightarrow> ''https://www.npmjs.com/package/'' @ name @ ''/v/'' @ version
     | Cpan \<Rightarrow> ''https://metacpan.org/dist/'' @ name @ ''/'')"

section \<open>The documents\<close>

record nuget_entry =
  ne_version :: string
  ne_published :: "string option"

record nuget_page =
  np_id :: string
  np_items :: "nuget_entry option list option"

text \<open>A version with an optional date, the shape that five of the registries share.\<close>

type_synonym dated_version = "string \<times> string option"

record package_decoders =
  js_pypi :: "(string \<times> string option list) list decoder"
  js_npm :: "(string list \<times> (string \<times> string) list) decoder"
  js_cargo :: "dated_version list decoder"
  js_maven :: "(string \<times> int option) list decoder"
  js_nuget :: "string list decoder"
  js_nuget_index :: "nuget_page list decoder"
  js_nuget_page :: "nuget_page decoder"
  js_hex :: "(string \<times> string option \<times> string option) list decoder"
  js_rubygems :: "dated_version list decoder"
  js_packagist :: "dated_version list decoder"
  js_cpan :: "dated_version list decoder"

text \<open>What a provider needs besides the network: versions, the calendar and the decoders.\<close>

record 'v source_libs =
  sl_semver :: "'v semver"
  sl_chrono :: chrono
  sl_package :: package_decoders

definition package_release :: "'v source_libs \<Rightarrow> package_source \<Rightarrow> string \<Rightarrow> int option \<Rightarrow> 'v release" where
  "package_release lib p version published =
    with_published (with_url (release_new (sl_semver lib) version) (Some (package_url p version))) published"

definition date_of :: "'v source_libs \<Rightarrow> string option \<Rightarrow> int option" where
  "date_of lib d = (case d of None \<Rightarrow> None | Some s \<Rightarrow> parse_rfc3339 (sl_chrono lib) s)"

definition dated_releases :: "'v source_libs \<Rightarrow> package_source \<Rightarrow> dated_version list \<Rightarrow> 'v release list" where
  "dated_releases lib p vs = map (\<lambda>(v, d). package_release lib p v (date_of lib d)) vs"

definition earliest :: "int list \<Rightarrow> int option" where
  "earliest ts = (if ts = [] then None else Some (Min (set ts)))"

definition pypi_releases :: "'v source_libs \<Rightarrow> package_source \<Rightarrow> (string \<times> string option list) list \<Rightarrow> 'v release list" where
  "pypi_releases lib p vs =
    map (\<lambda>(v, files). package_release lib p v (earliest (List.map_filter (date_of lib) files))) vs"

definition npm_releases :: "'v source_libs \<Rightarrow> package_source \<Rightarrow> string list \<times> (string \<times> string) list \<Rightarrow> 'v release list" where
  "npm_releases lib p doc =
    map (\<lambda>v. package_release lib p v (date_of lib (map_of (snd doc) v))) (fst doc)"

definition maven_releases :: "'v source_libs \<Rightarrow> package_source \<Rightarrow> (string \<times> int option) list \<Rightarrow> 'v release list" where
  "maven_releases lib p docs =
    map (\<lambda>(v, ms). package_release lib p v
      (case ms of None \<Rightarrow> None | Some n \<Rightarrow> parse_timestamp_millis (sl_chrono lib) n)) docs"

definition nuget_releases :: "'v source_libs \<Rightarrow> package_source \<Rightarrow> string list \<Rightarrow> 'v release list" where
  "nuget_releases lib p vs = map (\<lambda>v. package_release lib p v None) vs"

definition hex_releases :: "'v source_libs \<Rightarrow> package_source
    \<Rightarrow> (string \<times> string option \<times> string option) list \<Rightarrow> 'v release list" where
  "hex_releases lib p vs =
    map (\<lambda>(v, url, at). with_published (with_url (release_new (sl_semver lib) v)
      (case url of Some u \<Rightarrow> Some u | None \<Rightarrow> Some (package_url p v))) (date_of lib at)) vs"

section \<open>Fetching\<close>

definition fetch_versions :: "http \<Rightarrow> package_source \<Rightarrow> 'a decoder \<Rightarrow> string \<Rightarrow> string option
    \<Rightarrow> (http_request \<Rightarrow> http_request) \<Rightarrow> ('a \<Rightarrow> 'v release list) \<Rightarrow> source_error + 'v fetch_outcome" where
  "fetch_versions http p decode url etag build extract =
    (case fetch_json http decode url etag build of
       Inl e \<Rightarrow> Inl e
     | Inr r \<Rightarrow>
         if fr_not_modified r then Inr outcome_not_modified
         else (case fr_data r of
             None \<Rightarrow> Inl (Source_other (''empty '' @ registry_kind (pk_registry p) @ '' response''))
           | Some data \<Rightarrow> Inr (outcome_fresh (extract data) (fr_etag r))))"

fun nuget_collect :: "chrono \<Rightarrow> nuget_entry option list \<Rightarrow> (string \<rightharpoonup> int) \<Rightarrow> (string \<rightharpoonup> int)" where
  "nuget_collect ch [] into = into"
| "nuget_collect ch (leaf # leaves) into =
    nuget_collect ch leaves
      (case leaf of
         None \<Rightarrow> into
       | Some entry \<Rightarrow>
           (case ne_published entry of
              None \<Rightarrow> into
            | Some s \<Rightarrow> (case parse_rfc3339 ch s of None \<Rightarrow> into | Some at \<Rightarrow> into(ne_version entry \<mapsto> at))))"

text \<open>The inlined pages, and the last page that is not inlined.\<close>

definition nuget_inlined :: "chrono \<Rightarrow> nuget_page list \<Rightarrow> (string \<rightharpoonup> int)" where
  "nuget_inlined ch pages =
    fold (\<lambda>page m. case np_items page of None \<Rightarrow> m | Some leaves \<Rightarrow> nuget_collect ch leaves m) pages Map.empty"

definition last_uninlined :: "nuget_page list \<Rightarrow> string option" where
  "last_uninlined pages =
    fold (\<lambda>page x. case np_items page of None \<Rightarrow> Some (np_id page) | Some _ \<Rightarrow> x) pages None"

definition fetch_nuget_published :: "http \<Rightarrow> 'v source_libs \<Rightarrow> package_source \<Rightarrow> source_error + (string \<rightharpoonup> int)" where
  "fetch_nuget_published http lib p =
    (let ch = sl_chrono lib; js = sl_package lib;
         index_url = ''https://api.nuget.org/v3/registration5-semver1/'' @ to_ascii_lowercase (pk_name p)
           @ ''/index.json'' in
     case fetch_json http (js_nuget_index js) index_url None id of
       Inl e \<Rightarrow> Inl e
     | Inr r \<Rightarrow>
         (case fr_data r of
            None \<Rightarrow> Inl (Source_other ''empty nuget registration index'')
          | Some pages \<Rightarrow>
              let dates = nuget_inlined ch pages in
              (case last_uninlined pages of
                 None \<Rightarrow> Inr dates
               | Some page_url \<Rightarrow>
                   (case fetch_json http (js_nuget_page js) page_url None id of
                      Inl e \<Rightarrow> Inl e
                    | Inr r \<Rightarrow>
                        Inr (case fr_data r of
                               None \<Rightarrow> dates
                             | Some page \<Rightarrow>
                                 (case np_items page of
                                    None \<Rightarrow> dates
                                  | Some leaves \<Rightarrow> nuget_collect ch leaves dates))))))"

definition attach_dates :: "(string \<rightharpoonup> int) \<Rightarrow> 'v release list \<Rightarrow> 'v release list" where
  "attach_dates dates rs =
    map (\<lambda>r. case dates (rel_id r) of None \<Rightarrow> r | Some at \<Rightarrow> r\<lparr>rel_published_at := Some at\<rparr>) rs"

definition attach_nuget_published :: "http \<Rightarrow> 'v source_libs \<Rightarrow> package_source \<Rightarrow> 'v fetch_outcome \<Rightarrow> 'v fetch_outcome" where
  "attach_nuget_published http lib p out =
    (case fetch_nuget_published http lib p of
       Inl _ \<Rightarrow> out
     | Inr dates \<Rightarrow> out\<lparr>fo_releases := attach_dates dates (fo_releases out)\<rparr>)"

definition fetch_nuget :: "http \<Rightarrow> 'v source_libs \<Rightarrow> package_source \<Rightarrow> string \<Rightarrow> string option
    \<Rightarrow> source_error + 'v fetch_outcome" where
  "fetch_nuget http lib p url etag =
    (case fetch_versions http p (js_nuget (sl_package lib)) url etag id (nuget_releases lib p) of
       Inl e \<Rightarrow> Inl e
     | Inr out \<Rightarrow>
         if fo_not_modified out \<or> fo_releases out = [] then Inr out
         else Inr (attach_nuget_published http lib p out))"

definition cargo_headers :: "string \<Rightarrow> http_request \<Rightarrow> http_request" where
  "cargo_headers pkg_version r =
    with_header ''User-Agent'' (''xrelease/'' @ pkg_version) (with_header ''Accept'' ''application/json'' r)"

definition fetch_pypi :: "http \<Rightarrow> 'v source_libs \<Rightarrow> package_source \<Rightarrow> string \<Rightarrow> string option
    \<Rightarrow> source_error + 'v fetch_outcome" where
  "fetch_pypi http lib p url etag = fetch_versions http p (js_pypi (sl_package lib)) url etag id (pypi_releases lib p)"

definition fetch_npm :: "http \<Rightarrow> 'v source_libs \<Rightarrow> package_source \<Rightarrow> string \<Rightarrow> string option
    \<Rightarrow> source_error + 'v fetch_outcome" where
  "fetch_npm http lib p url etag = fetch_versions http p (js_npm (sl_package lib)) url etag id (npm_releases lib p)"

definition fetch_cargo :: "string \<Rightarrow> http \<Rightarrow> 'v source_libs \<Rightarrow> package_source \<Rightarrow> string \<Rightarrow> string option
    \<Rightarrow> source_error + 'v fetch_outcome" where
  "fetch_cargo pkg_version http lib p url etag = fetch_versions http p (js_cargo (sl_package lib)) url etag (cargo_headers pkg_version) (dated_releases lib p)"

definition fetch_maven :: "http \<Rightarrow> 'v source_libs \<Rightarrow> package_source \<Rightarrow> string \<Rightarrow> string option
    \<Rightarrow> source_error + 'v fetch_outcome" where
  "fetch_maven http lib p url etag = fetch_versions http p (js_maven (sl_package lib)) url etag id (maven_releases lib p)"

definition fetch_hex :: "http \<Rightarrow> 'v source_libs \<Rightarrow> package_source \<Rightarrow> string \<Rightarrow> string option
    \<Rightarrow> source_error + 'v fetch_outcome" where
  "fetch_hex http lib p url etag = fetch_versions http p (js_hex (sl_package lib)) url etag id (hex_releases lib p)"

definition fetch_rubygems :: "http \<Rightarrow> 'v source_libs \<Rightarrow> package_source \<Rightarrow> string \<Rightarrow> string option
    \<Rightarrow> source_error + 'v fetch_outcome" where
  "fetch_rubygems http lib p url etag = fetch_versions http p (js_rubygems (sl_package lib)) url etag id (dated_releases lib p)"

definition fetch_packagist :: "http \<Rightarrow> 'v source_libs \<Rightarrow> package_source \<Rightarrow> string \<Rightarrow> string option
    \<Rightarrow> source_error + 'v fetch_outcome" where
  "fetch_packagist http lib p url etag = fetch_versions http p (js_packagist (sl_package lib)) url etag id (dated_releases lib p)"

definition fetch_cpan :: "http \<Rightarrow> 'v source_libs \<Rightarrow> package_source \<Rightarrow> string \<Rightarrow> string option
    \<Rightarrow> source_error + 'v fetch_outcome" where
  "fetch_cpan http lib p url etag = fetch_versions http p (js_cpan (sl_package lib)) url etag id (dated_releases lib p)"

definition package_fetch :: "string \<Rightarrow> http \<Rightarrow> 'v source_libs \<Rightarrow> package_source \<Rightarrow> string option
    \<Rightarrow> source_error + 'v fetch_outcome" where
  "package_fetch pkg_version http lib p etag =
    (case package_fetch_url p of
       Inl e \<Rightarrow> Inl e
     | Inr url \<Rightarrow>
         (case pk_registry p of
            Pypi \<Rightarrow> fetch_pypi http lib p url etag
          | Npm \<Rightarrow> fetch_npm http lib p url etag
          | Cargo \<Rightarrow> fetch_cargo pkg_version http lib p url etag
          | Maven \<Rightarrow> fetch_maven http lib p url etag
          | Nuget \<Rightarrow> fetch_nuget http lib p url etag
          | Hex \<Rightarrow> fetch_hex http lib p url etag
          | Rubygems \<Rightarrow> fetch_rubygems http lib p url etag
          | Packagist \<Rightarrow> fetch_packagist http lib p url etag
          | Yarn \<Rightarrow> fetch_npm http lib p url etag
          | Cpan \<Rightarrow> fetch_cpan http lib p url etag))"

lemmas registry_fetches = fetch_pypi_def fetch_npm_def fetch_cargo_def fetch_maven_def fetch_hex_def
  fetch_rubygems_def fetch_packagist_def fetch_cpan_def

section \<open>What a fetch yields\<close>

definition published_ok :: "'v source_libs \<Rightarrow> int option \<Rightarrow> bool" where
  "published_ok lib t \<longleftrightarrow> (case t of None \<Rightarrow> True | Some x \<Rightarrow> 1980 \<le> ch_year (sl_chrono lib) x)"

definition fetched_ok :: "'v source_libs \<Rightarrow> package_source \<Rightarrow> 'v release \<Rightarrow> bool" where
  "fetched_ok lib p r \<longleftrightarrow> rel_raw_tag r = rel_id r \<and> rel_version r = parse_version (sl_semver lib) (rel_id r)
     \<and> rel_body r = None \<and> rel_url r \<noteq> None
     \<and> (pk_registry p \<noteq> Hex \<longrightarrow> rel_url r = Some (package_url p (rel_id r)))
     \<and> published_ok lib (rel_published_at r)"

lemma plausible_iff: "plausible ch t \<longleftrightarrow> 1980 \<le> ch_year ch t"
  by (simp add: plausible_def EARLIEST_PLAUSIBLE_YEAR_def)

lemma date_ok: "published_ok lib (date_of lib d)"
  by (auto simp: published_ok_def date_of_def plausible_iff [symmetric] split: option.splits
      dest: parsed_plausible)

lemma millis_ok: "published_ok lib (parse_timestamp_millis (sl_chrono lib) n)"
  by (auto simp: published_ok_def plausible_iff [symmetric] split: option.splits dest: parsed_plausible)

lemma none_ok [simp]: "published_ok lib None"
  by (simp add: published_ok_def)

lemma built_ok: "fetched_ok lib p (with_published (with_url (release_new (sl_semver lib) v) (Some u)) t)
    \<longleftrightarrow> published_ok lib t \<and> (pk_registry p = Hex \<or> u = package_url p v)"
  by (auto simp: fetched_ok_def release_new_def Let_def with_url_def with_published_def)

lemma package_release_ok [simp]: "fetched_ok lib p (package_release lib p v t) = published_ok lib t"
  by (simp add: package_release_def built_ok)

lemma earliest_ok: "published_ok lib (earliest (List.map_filter (date_of lib) files))"
proof -
  have mem: "published_ok lib (Some t)" if t: "t \<in> set (List.map_filter (date_of lib) files)" for t
  proof -
    obtain d where "date_of lib d = Some t" using t by (auto simp: List.map_filter_def)
    then show ?thesis using date_ok [of lib d] by simp
  qed
  show ?thesis
  proof (cases "List.map_filter (date_of lib) files = []")
    case False
    then have "Min (set (List.map_filter (date_of lib) files)) \<in> set (List.map_filter (date_of lib) files)" by simp
    then show ?thesis using mem False by (simp add: earliest_def)
  qed (simp add: earliest_def)
qed

lemma extracted_ok:
  "list_all (fetched_ok lib p) (dated_releases lib p vs)"
  "list_all (fetched_ok lib p) (pypi_releases lib p fs)"
  "list_all (fetched_ok lib p) (npm_releases lib p doc)"
  "list_all (fetched_ok lib p) (maven_releases lib p docs)"
  "list_all (fetched_ok lib p) (nuget_releases lib p ns)"
  "pk_registry p = Hex \<Longrightarrow> list_all (fetched_ok lib p) (hex_releases lib p hs)"
  by (auto simp: list_all_iff dated_releases_def pypi_releases_def npm_releases_def maven_releases_def
      nuget_releases_def hex_releases_def date_ok earliest_ok millis_ok built_ok split: option.splits)

definition outcome_ok :: "'v source_libs \<Rightarrow> package_source \<Rightarrow> 'v fetch_outcome \<Rightarrow> bool" where
  "outcome_ok lib p out \<longleftrightarrow> list_all (fetched_ok lib p) (fo_releases out)
     \<and> (fo_not_modified out \<longrightarrow> fo_releases out = [] \<and> fo_etag out = None)"

lemma fetch_versions_ok:
  assumes "\<And>x. list_all (fetched_ok lib p) (extract x)" and "fetch_versions http p dec url etag build extract = Inr out"
  shows "outcome_ok lib p out"
  using assms by (auto simp: fetch_versions_def outcome_ok_def outcome_not_modified_def outcome_fresh_def
      split: sum.splits option.splits if_splits)

lemma collect_ok:
  "\<forall>v t. m v = Some t \<longrightarrow> published_ok lib (Some t) \<Longrightarrow>
    nuget_collect (sl_chrono lib) leaves m v = Some t \<Longrightarrow> published_ok lib (Some t)"
proof (induction "sl_chrono lib" leaves m arbitrary: v t rule: nuget_collect.induct)
  case (2 leaf leaves into)
  have "published_ok lib (Some t)" if "parse_rfc3339 (sl_chrono lib) s = Some t" for s t
    using date_ok [of lib "Some s"] that by (simp add: date_of_def)
  then have step: "\<forall>v t. (case leaf of None \<Rightarrow> into | Some entry \<Rightarrow>
           (case ne_published entry of None \<Rightarrow> into
            | Some s \<Rightarrow> (case parse_rfc3339 (sl_chrono lib) s of None \<Rightarrow> into | Some at \<Rightarrow> into(ne_version entry \<mapsto> at)))) v
       = Some t \<longrightarrow> published_ok lib (Some t)"
    using "2.prems"(1) by (auto split: option.splits)
  show ?case using "2.hyps" [OF step] "2.prems"(2) by simp
qed simp

lemma inlined_ok: "nuget_inlined (sl_chrono lib) pages v = Some t \<Longrightarrow> published_ok lib (Some t)"
proof (induction pages arbitrary: v t rule: rev_induct)
  case (snoc page pages)
  then show ?case
    using collect_ok [of "nuget_inlined (sl_chrono lib) pages" lib]
    by (auto simp: nuget_inlined_def split: option.splits)
qed (simp add: nuget_inlined_def)

lemma nuget_dates_ok:
  assumes "fetch_nuget_published http lib p = Inr dates" and "dates v = Some t"
  shows "published_ok lib (Some t)"
proof -
  have base: "\<forall>v t. nuget_inlined (sl_chrono lib) pages v = Some t \<longrightarrow> published_ok lib (Some t)" for pages
    using inlined_ok by blast
  show ?thesis
    using assms collect_ok [OF base] base
    by (fastforce simp: fetch_nuget_published_def Let_def split: sum.splits option.splits)
qed

lemma fetch_nuget_ok:
  assumes "fetch_nuget http lib p url etag = Inr out"
  shows "outcome_ok lib p out"
proof -
  obtain out' where base: "fetch_versions http p (js_nuget (sl_package lib)) url etag id (nuget_releases lib p) = Inr out'"
    and out: "out = out' \<or> \<not> fo_not_modified out' \<and> out = attach_nuget_published http lib p out'"
    using assms by (auto simp: fetch_nuget_def split: sum.splits if_splits)
  have ok: "outcome_ok lib p out'" by (rule fetch_versions_ok [OF extracted_ok(5) base])
  have "outcome_ok lib p (attach_nuget_published http lib p out')" if "\<not> fo_not_modified out'"
    using ok that nuget_dates_ok [of http lib p]
    by (auto simp: outcome_ok_def attach_nuget_published_def attach_dates_def list_all_iff fetched_ok_def
        split: sum.splits option.splits)
  then show ?thesis using ok out by auto
qed

text \<open>
  what a package registry can tell the pipeline.  Whatever the registry answers, a fetch that
  succeeds is either a 304 with no release at all, or releases that are identified and labelled by
  their version, carry the page of that version (Hex may name its own), no notes, and a publication
  date only if it is not one of the placeholders before 1980.
\<close>

theorem package_fetch_sound:
  assumes "package_fetch pkg_version http lib p etag = Inr out"
  shows "(fo_not_modified out \<longrightarrow> fo_releases out = [] \<and> fo_etag out = None)
    \<and> (\<forall>r \<in> set (fo_releases out). rel_raw_tag r = rel_id r
        \<and> rel_version r = parse_version (sl_semver lib) (rel_id r) \<and> rel_body r = None
        \<and> (\<exists>u. rel_url r = Some u \<and> (pk_registry p = Hex \<or> u = package_url p (rel_id r)))
        \<and> (case rel_published_at r of None \<Rightarrow> True | Some t \<Rightarrow> 1980 \<le> ch_year (sl_chrono lib) t))"
proof -
  have "outcome_ok lib p out"
    using assms fetch_versions_ok [OF extracted_ok(6)]
    by (auto simp: package_fetch_def registry_fetches split: sum.splits package_registry.splits
        dest!: fetch_versions_ok [OF extracted_ok(1)] fetch_versions_ok [OF extracted_ok(2)]
          fetch_versions_ok [OF extracted_ok(3)] fetch_versions_ok [OF extracted_ok(4)]
          fetch_nuget_ok)
  then show ?thesis
    by (auto simp: outcome_ok_def fetched_ok_def published_ok_def list_all_iff)
qed

definition example_chrono :: chrono where
  "example_chrono =
    \<lparr>ch_parse_utc = (\<lambda>s. if s = ''1900'' then Some (-5) else Some 50), ch_parse_rfc3339 = (\<lambda>_. None),
     ch_from_millis = Some, ch_from_secs = Some, ch_year = (\<lambda>t. 1970 + t), ch_date = (\<lambda>_. ''2025-01-15'')\<rparr>"

definition example_package_decoders :: package_decoders where
  "example_package_decoders =
    \<lparr>js_pypi = (\<lambda>_. Inr []), js_npm = (\<lambda>_. Inr ([], [])),
     js_cargo = (\<lambda>_. Inr [(''1.0.0'', Some ''2020''), (''0.9.0'', Some ''1900'')]), js_maven = (\<lambda>_. Inr []),
     js_nuget = (\<lambda>_. Inr []), js_nuget_index = (\<lambda>_. Inr []), js_nuget_page = (\<lambda>_. Inl ''eof''),
     js_hex = (\<lambda>_. Inr []), js_rubygems = (\<lambda>_. Inr []), js_packagist = (\<lambda>_. Inr []), js_cpan = (\<lambda>_. Inr [])\<rparr>"

definition example_semver :: "nat semver" where
  "example_semver = \<lparr>sv_parse = (\<lambda>s. if s = ''1.0.0'' then Some 1 else None), sv_pre = (\<lambda>_. False), sv_show = show_nat\<rparr>"

definition example_libs :: "nat source_libs" where
  "example_libs = \<lparr>sl_semver = example_semver, sl_chrono = example_chrono, sl_package = example_package_decoders\<rparr>"

definition example_http :: http where
  "example_http r = Inr \<lparr>rs_status = 200, rs_headers = [(''etag'', ''e1'')], rs_body = ''{}''\<rparr>"

theorem package_fetch_sound_witness:
  "\<exists>out. package_fetch ''1.0'' example_http example_libs \<lparr>pk_id = ''cargo:serde'', pk_name = ''serde'', pk_registry = Cargo\<rparr> None
      = Inr out \<and> map rel_published_at (fo_releases out) = [Some 50, None]
    \<and> (\<forall>r \<in> set (fo_releases out). rel_body r = None)"
proof -
  let ?p = "\<lparr>pk_id = ''cargo:serde'', pk_name = ''serde'', pk_registry = Cargo\<rparr>"
  have "map_sum id (\<lambda>out. map rel_published_at (fo_releases out)) (package_fetch ''1.0'' example_http example_libs ?p None)
      = Inr [Some 50, None]"
    by code_simp
  then obtain out where out: "package_fetch ''1.0'' example_http example_libs ?p None = Inr out"
    "map rel_published_at (fo_releases out) = [Some 50, None]"
    by (cases "package_fetch ''1.0'' example_http example_libs ?p None") auto
  then show ?thesis using package_fetch_sound [OF out(1)] by (intro exI [of _ out]) simp
qed

end
