(* ===== verification/Docker.thy ===== *)
theory Docker
  imports Packages
begin

text \<open>
  Container registries (\<^verbatim>\<open>src/src/sources/docker.rs\<close>): the registry presets, the catalogue URLs,
  the token handshake of the Registry protocol, and the listing of all tags along the \<^verbatim>\<open>Link\<close>
  headers, with its page cap.
\<close>

definition TAGS_PAGE_SIZE :: nat where "TAGS_PAGE_SIZE = 100"

definition MAX_TAG_PAGES :: nat where "MAX_TAG_PAGES = 50"

definition REGISTRY_DOCKER_HUB :: string where
  "REGISTRY_DOCKER_HUB = ''https://registry-1.docker.io''"

definition REGISTRY_GHCR :: string where
  "REGISTRY_GHCR = ''https://ghcr.io''"

definition REGISTRY_QUAY :: string where
  "REGISTRY_QUAY = ''https://quay.io''"

definition REGISTRY_ECR_PUBLIC :: string where
  "REGISTRY_ECR_PUBLIC = ''https://public.ecr.aws''"

datatype container_registry = Docker_hub | Ghcr_registry | Quay_registry | Ecr_public | Custom_registry string

fun container_prefix :: "container_registry \<Rightarrow> string" where
  "container_prefix Docker_hub = ''docker''"
| "container_prefix (Custom_registry _) = ''docker''"
| "container_prefix Ghcr_registry = ''ghcr''"
| "container_prefix Quay_registry = ''quay''"
| "container_prefix Ecr_public = ''ecr''"

record docker_source =
  dk_id :: string
  dk_kind :: string
  dk_kind_label :: string
  dk_registry :: string
  dk_image :: string
  dk_token :: "string option"

definition docker_new :: "string \<Rightarrow> string \<Rightarrow> string \<Rightarrow> string option \<Rightarrow> docker_source" where
  "docker_new i registry img token =
    \<lparr>dk_id = i, dk_kind = ''docker'', dk_kind_label = ''Docker registry'', dk_registry = registry,
     dk_image = img, dk_token = token\<rparr>"

definition docker_hub :: "string \<Rightarrow> string \<Rightarrow> string option \<Rightarrow> docker_source" where
  "docker_hub i img token =
    \<lparr>dk_id = i, dk_kind = ''docker'', dk_kind_label = ''Docker Hub'', dk_registry = REGISTRY_DOCKER_HUB,
     dk_image = img, dk_token = token\<rparr>"

definition docker_ghcr :: "string \<Rightarrow> string \<Rightarrow> string option \<Rightarrow> docker_source" where
  "docker_ghcr i img token =
    \<lparr>dk_id = i, dk_kind = ''ghcr'', dk_kind_label = ''GHCR'', dk_registry = REGISTRY_GHCR,
     dk_image = img, dk_token = token\<rparr>"

definition docker_quay :: "string \<Rightarrow> string \<Rightarrow> string option \<Rightarrow> docker_source" where
  "docker_quay i img token =
    \<lparr>dk_id = i, dk_kind = ''quay'', dk_kind_label = ''Quay'', dk_registry = REGISTRY_QUAY,
     dk_image = img, dk_token = token\<rparr>"

definition docker_ecr_public :: "string \<Rightarrow> string \<Rightarrow> string option \<Rightarrow> docker_source" where
  "docker_ecr_public i img token =
    \<lparr>dk_id = i, dk_kind = ''ecr'', dk_kind_label = ''AWS ECR Public'', dk_registry = REGISTRY_ECR_PUBLIC,
     dk_image = img, dk_token = token\<rparr>"

fun build_source :: "container_registry \<Rightarrow> string \<Rightarrow> string \<Rightarrow> string option \<Rightarrow> docker_source" where
  "build_source Docker_hub i img token = docker_hub i img token"
| "build_source Ghcr_registry i img token = docker_ghcr i img token"
| "build_source Quay_registry i img token = docker_quay i img token"
| "build_source Ecr_public i img token = docker_ecr_public i img token"
| "build_source (Custom_registry r) i img token = docker_new i r img token"

section \<open>URLs\<close>

definition ghcr_catalog_url :: "string \<Rightarrow> string" where
  "ghcr_catalog_url img =
    (case split_by (\<lambda>c. c = CHR ''/'') img of
       [owner, name] \<Rightarrow> ''https://github.com/'' @ owner @ ''/'' @ name @ ''/pkgs/container/'' @ name
     | [owner, repo, name] \<Rightarrow> ''https://github.com/'' @ owner @ ''/'' @ repo @ ''/pkgs/container/'' @ name
     | _ \<Rightarrow> ''https://ghcr.io/'' @ img)"

definition ghcr_release_url :: "string \<Rightarrow> string \<Rightarrow> string" where
  "ghcr_release_url img tag =
    (let encoded = encode_path_segment tag in
     case split_by (\<lambda>c. c = CHR ''/'') img of
       [owner, name] \<Rightarrow>
         ''https://github.com/'' @ owner @ ''/'' @ name @ ''/pkgs/container/'' @ name @ ''/versions/'' @ encoded
     | [owner, repo, name] \<Rightarrow>
         ''https://github.com/'' @ owner @ ''/'' @ repo @ ''/pkgs/container/'' @ name @ ''/versions/'' @ encoded
     | _ \<Rightarrow> ''https://ghcr.io/'' @ img @ '':'' @ encoded)"

definition docker_page_url :: "docker_source \<Rightarrow> string" where
  "docker_page_url s =
    (if dk_kind s = ''docker'' then ''https://hub.docker.com/r/'' @ dk_image s
     else if dk_kind s = ''ghcr'' then ghcr_catalog_url (dk_image s)
     else if dk_kind s = ''quay'' then ''https://quay.io/repository/'' @ dk_image s
     else if dk_kind s = ''ecr'' then ''https://gallery.ecr.aws/'' @ dk_image s
     else dk_registry s @ ''/v2/'' @ dk_image s @ ''/tags/list'')"

definition docker_release_url :: "docker_source \<Rightarrow> string \<Rightarrow> string" where
  "docker_release_url s tag =
    (let encoded = encode_path_segment tag in
     if dk_kind s = ''docker'' then ''https://hub.docker.com/r/'' @ dk_image s @ ''/tags?name='' @ encoded
     else if dk_kind s = ''ghcr'' then ghcr_release_url (dk_image s) tag
     else if dk_kind s = ''quay'' then
       ''https://quay.io/repository/'' @ dk_image s @ ''?tab=tags&tag='' @ encoded
     else if dk_kind s = ''ecr'' then ''https://gallery.ecr.aws/'' @ dk_image s @ ''?tag='' @ encoded
     else docker_page_url s)"

definition quote :: char where
  "quote = byte 34"

text \<open>The target of the next page in a \<^verbatim>\<open>Link\<close> header: the first part that names one.\<close>

definition next_link_of_part :: "string \<Rightarrow> string option" where
  "next_link_of_part part =
    (let part = trim part in
     if \<not> contains_str part (''rel='' @ [quote] @ ''next'' @ [quote]) \<and> \<not> contains_str part ''rel=next'' then None
     else (case split_once ''<'' part of
         None \<Rightarrow> None
       | Some (_, rest) \<Rightarrow> (case split_once ''>'' rest of None \<Rightarrow> None | Some (target, _) \<Rightarrow> Some target)))"

definition parse_next_link :: "string \<Rightarrow> string option" where
  "parse_next_link header =
    (case List.map_filter next_link_of_part (split_by (\<lambda>c. c = CHR '','') header) of
       [] \<Rightarrow> None | t # _ \<Rightarrow> Some t)"

definition join_registry_url :: "string \<Rightarrow> string \<Rightarrow> string" where
  "join_registry_url registry target =
    (if prefix ''http://'' target \<or> prefix ''https://'' target then target
     else trim_end_slashes registry @ target)"

section \<open>The token handshake\<close>

text \<open>The decoders of the protocol: a page of tags, a token answer, and the tag dates of the Hub.\<close>

record docker_decoders =
  js_tags :: "string list option decoder"
  js_token :: "(string option \<times> string option) decoder"
  js_hub :: "(string \<times> string option \<times> string option) list decoder"

definition trim_quotes :: "string \<Rightarrow> string" where
  "trim_quotes s = rev (dropWhile (\<lambda>c. c = quote) (rev (dropWhile (\<lambda>c. c = quote) s)))"

definition challenge_pair :: "string \<Rightarrow> string \<times> string" where
  "challenge_pair part =
    (case split_once ''='' part of
       None \<Rightarrow> (trim part, [])
     | Some (k, v) \<Rightarrow> (trim k, trim_quotes (trim v)))"

definition strip_bearer :: "string \<Rightarrow> string" where
  "strip_bearer challenge =
    (case strip_prefix ''Bearer '' (trim challenge) of
       Some c \<Rightarrow> c
     | None \<Rightarrow> (case strip_prefix ''bearer '' (trim challenge) of Some c \<Rightarrow> c | None \<Rightarrow> challenge))"

definition challenge_pairs :: "string \<Rightarrow> (string \<times> string) list" where
  "challenge_pairs challenge = map challenge_pair (split_by (\<lambda>c. c = CHR '','') (strip_bearer challenge))"

text \<open>The last realm wins; empty keys are dropped, all others go to the query.\<close>

definition challenge_realm :: "string \<Rightarrow> string option" where
  "challenge_realm challenge = map_of (rev (challenge_pairs challenge)) ''realm''"

definition challenge_query :: "string \<Rightarrow> (string \<times> string) list" where
  "challenge_query challenge = filter (\<lambda>(k, _). k \<noteq> ''realm'' \<and> k \<noteq> []) (challenge_pairs challenge)"

definition token_from_response :: "docker_decoders \<Rightarrow> http_response \<Rightarrow> source_error + string" where
  "token_from_response js r =
    (if 400 \<le> rs_status r then Inl (Http_failure ''status'')
     else (case js_token js (rs_body r) of
         Inl e \<Rightarrow> Inl (Http_failure e)
       | Inr (token, access) \<Rightarrow>
           (case (case token of Some t \<Rightarrow> Some t | None \<Rightarrow> access) of
              Some t \<Rightarrow> Inr t
            | None \<Rightarrow> Inl (Source_other ''registry auth response contained no token''))))"

definition basic_auth :: "string \<Rightarrow> request_auth" where
  "basic_auth secret =
    (case split_once '':'' secret of
       Some (user, pass) \<Rightarrow> Basic_auth user pass
     | None \<Rightarrow> Basic_auth secret [])"

definition nonblank :: "string option \<Rightarrow> string option" where
  "nonblank s = (case s of None \<Rightarrow> None | Some t \<Rightarrow> if trim t = [] then None else Some (trim t))"

definition obtain_token :: "http \<Rightarrow> docker_decoders \<Rightarrow> string \<Rightarrow> string option \<Rightarrow> source_error + string" where
  "obtain_token http js challenge identity =
    (case challenge_realm challenge of
       None \<Rightarrow> Inl (Source_other ''registry auth challenge missing realm'')
     | Some realm \<Rightarrow>
         let req = (get_request realm)\<lparr>rq_query := challenge_query challenge\<rparr> in
         (case http req of
            Inl e \<Rightarrow> Inl (Http_failure e)
          | Inr anonymous \<Rightarrow>
              if is_success anonymous then token_from_response js anonymous
              else (case nonblank identity of
                  None \<Rightarrow> Inl (Registry_status (rs_status anonymous) realm)
                | Some secret \<Rightarrow>
                    (case http (req\<lparr>rq_auth := Some (basic_auth secret)\<rparr>) of
                       Inl e \<Rightarrow> Inl (Http_failure e)
                     | Inr authed \<Rightarrow>
                         if is_success authed then token_from_response js authed
                         else Inl (Registry_status (rs_status authed) realm)))))"

definition send_authenticated :: "http \<Rightarrow> docker_decoders \<Rightarrow> docker_source \<Rightarrow> string \<Rightarrow> string option
    \<Rightarrow> source_error + http_response" where
  "send_authenticated http js s url etag =
    (let make = (\<lambda>bearer. if_none_match etag
           (case bearer of None \<Rightarrow> get_request url | Some t \<Rightarrow> bearer_auth t (get_request url))) in
     case http (make None) of
       Inl e \<Rightarrow> Inl (Http_failure e)
     | Inr r \<Rightarrow>
         if rs_status r \<noteq> 401 then Inr r
         else
           let challenge = (case header_string r ''www-authenticate'' of None \<Rightarrow> [] | Some c \<Rightarrow> c) in
           if challenge = [] then Inr r
           else (case obtain_token http js challenge (dk_token s) of
               Inl e \<Rightarrow> Inl e
             | Inr token \<Rightarrow>
                 (case http (make (Some token)) of Inl e \<Rightarrow> Inl (Http_failure e) | Inr r' \<Rightarrow> Inr r')))"

section \<open>Listing the tags\<close>

record tags_page =
  tp_etag :: "string option"
  tp_link :: "string option"
  tp_tags :: "string list option"

text \<open>One page; nothing on a 304.\<close>

definition get_page :: "http \<Rightarrow> docker_decoders \<Rightarrow> docker_source \<Rightarrow> string \<Rightarrow> string option
    \<Rightarrow> source_error + tags_page option" where
  "get_page http js s url etag =
    (case send_authenticated http js s url etag of
       Inl e \<Rightarrow> Inl e
     | Inr r \<Rightarrow>
         if rs_status r = 304 then Inr None
         else if \<not> is_success r then Inl (Registry_status (rs_status r) url)
         else (case js_tags js (rs_body r) of
             Inl e \<Rightarrow> Inl (Http_failure e)
           | Inr tags \<Rightarrow> Inr (Some \<lparr>tp_etag = header_string r ''etag'', tp_link = header_string r ''link'', tp_tags = tags\<rparr>)))"

definition tags_of :: "tags_page \<Rightarrow> string list" where
  "tags_of p = (case tp_tags p of None \<Rightarrow> [] | Some ts \<Rightarrow> ts)"

definition next_of :: "tags_page \<Rightarrow> string option" where
  "next_of p = (case tp_link p of None \<Rightarrow> None | Some h \<Rightarrow> parse_next_link h)"

text \<open>The loop over the next pages, with the tags so far, the next target and the pages fetched.\<close>

function more_tags :: "http \<Rightarrow> docker_decoders \<Rightarrow> docker_source \<Rightarrow> string list \<Rightarrow> string option \<Rightarrow> nat
    \<Rightarrow> source_error + string list" where
  "more_tags http js s tags nxt pages =
    (case nxt of
       None \<Rightarrow> Inr tags
     | Some rel \<Rightarrow>
         if MAX_TAG_PAGES \<le> pages then Inr tags
         else (case get_page http js s (join_registry_url (dk_registry s) rel) None of
             Inl e \<Rightarrow> Inl e
           | Inr None \<Rightarrow> Inr tags
           | Inr (Some page) \<Rightarrow> more_tags http js s (tags @ tags_of page) (next_of page) (pages + 1)))"
  by pat_completeness auto
termination
  by (relation "measure (\<lambda>(http, js, s, tags, nxt, pages). MAX_TAG_PAGES - pages)") auto

declare more_tags.simps [simp del]

definition docker_base :: "docker_source \<Rightarrow> string" where
  "docker_base s = trim_end_slashes (dk_registry s) @ ''/v2/'' @ dk_image s @ ''/tags/list''"

definition hub_dates :: "chrono \<Rightarrow> (string \<times> string option \<times> string option) list \<Rightarrow> (string \<rightharpoonup> int)" where
  "hub_dates ch rows =
    fold (\<lambda>(name, pushed, updated) m.
      (case (case pushed of Some p \<Rightarrow> Some p | None \<Rightarrow> updated) of
         None \<Rightarrow> m
       | Some d \<Rightarrow> (case parse_rfc3339 ch d of None \<Rightarrow> m | Some t \<Rightarrow> m(name \<mapsto> t)))) rows Map.empty"

definition fetch_hub_pushed :: "http \<Rightarrow> docker_decoders \<Rightarrow> chrono \<Rightarrow> docker_source \<Rightarrow> source_error + (string \<rightharpoonup> int)" where
  "fetch_hub_pushed http js ch s =
    (let url = ''https://hub.docker.com/v2/repositories/'' @ dk_image s @ ''/tags?page_size='' @ show_nat TAGS_PAGE_SIZE in
     case http (get_request url) of
       Inl e \<Rightarrow> Inl (Http_failure e)
     | Inr r \<Rightarrow>
         if \<not> is_success r then Inl (Registry_status (rs_status r) url)
         else (case js_hub js (rs_body r) of Inl e \<Rightarrow> Inl (Http_failure e) | Inr rows \<Rightarrow> Inr (hub_dates ch rows)))"

definition attach_hub_pushed :: "http \<Rightarrow> docker_decoders \<Rightarrow> chrono \<Rightarrow> docker_source
    \<Rightarrow> 'v fetch_outcome \<Rightarrow> 'v fetch_outcome" where
  "attach_hub_pushed http js ch s out =
    (if fo_releases out = [] then out
     else (case fetch_hub_pushed http js ch s of
         Inl _ \<Rightarrow> out
       | Inr dates \<Rightarrow> out\<lparr>fo_releases := attach_dates dates (fo_releases out)\<rparr>))"

definition docker_release :: "'v source_libs \<Rightarrow> docker_source \<Rightarrow> string \<Rightarrow> 'v release" where
  "docker_release lib s tag = with_url (release_new (sl_semver lib) tag) (Some (docker_release_url s tag))"

definition docker_fetch :: "http \<Rightarrow> docker_decoders \<Rightarrow> 'v source_libs \<Rightarrow> docker_source \<Rightarrow> string option
    \<Rightarrow> source_error + 'v fetch_outcome" where
  "docker_fetch http js lib s etag =
    (let first_url = docker_base s @ ''?n='' @ show_nat TAGS_PAGE_SIZE in
     case get_page http js s first_url etag of
       Inl e \<Rightarrow> Inl e
     | Inr None \<Rightarrow> Inr outcome_not_modified
     | Inr (Some first) \<Rightarrow>
         (case more_tags http js s (tags_of first) (next_of first) 1 of
            Inl e \<Rightarrow> Inl e
          | Inr tags \<Rightarrow>
              let out = outcome_fresh (map (docker_release lib s) tags) (tp_etag first) in
              Inr (if dk_registry s = REGISTRY_DOCKER_HUB then attach_hub_pushed http js (sl_chrono lib) s out
                   else out)))"

section \<open>The listing is the concatenation of the pages\<close>

text \<open>
  The chain of pages a registry serves from a target: each page names the next one.
\<close>

inductive page_chain :: "http \<Rightarrow> docker_decoders \<Rightarrow> docker_source \<Rightarrow> string option \<Rightarrow> tags_page list \<Rightarrow> bool"
  for http js s where
  chain_end: "page_chain http js s None []"
| chain_page: "get_page http js s (join_registry_url (dk_registry s) rel) None = Inr (Some page) \<Longrightarrow>
    page_chain http js s (next_of page) pages \<Longrightarrow> page_chain http js s (Some rel) (page # pages)"

lemma more_tags_chain:
  "page_chain http js s nxt chain \<Longrightarrow> pages \<le> MAX_TAG_PAGES \<Longrightarrow>
    more_tags http js s tags nxt pages
      = Inr (tags @ concat (map tags_of (take (MAX_TAG_PAGES - pages) chain)))"
proof (induction nxt chain arbitrary: tags pages rule: page_chain.induct)
  case chain_end
  then show ?case by (simp add: more_tags.simps)
next
  case (chain_page rel page chain)
  show ?case
  proof (cases "MAX_TAG_PAGES \<le> pages")
    case False
    then have "MAX_TAG_PAGES - pages = Suc (MAX_TAG_PAGES - (pages + 1))" by simp
    then show ?thesis
      using False chain_page.hyps(1) chain_page.IH [of "pages + 1" "tags @ tags_of page"]
      by (simp add: more_tags.simps [where nxt = "Some rel"])
  qed (use chain_page.prems in \<open>simp add: more_tags.simps\<close>)
qed

lemma attach_dates_id: "map rel_id (attach_dates m rs) = map rel_id rs"
  by (induction rs) (auto simp: attach_dates_def split: option.splits)

lemma attach_hub_ids:
  "map rel_id (fo_releases (attach_hub_pushed http js ch s out)) = map rel_id (fo_releases out)"
  "fo_etag (attach_hub_pushed http js ch s out) = fo_etag out"
  "fo_not_modified (attach_hub_pushed http js ch s out) = fo_not_modified out"
  by (auto simp: attach_hub_pushed_def attach_dates_id split: sum.splits)

text \<open>
  C40: every tag is listed, up to the page cap.  When the registry serves a chain of pages that each
  name the next one, a fetch yields exactly the tags of the first fifty pages, in their order and
  without losing one to the lookup of dates, under the ETag of the first page.
\<close>

theorem docker_lists_chain:
  assumes "get_page http js s (docker_base s @ ''?n='' @ show_nat TAGS_PAGE_SIZE) etag = Inr (Some first)"
    and "page_chain http js s (next_of first) chain"
  shows "\<exists>out. docker_fetch http js lib s etag = Inr out
    \<and> map rel_id (fo_releases out) = concat (map tags_of (take 50 (first # chain)))
    \<and> fo_etag out = tp_etag first \<and> \<not> fo_not_modified out"
proof -
  have "more_tags http js s (tags_of first) (next_of first) 1
      = Inr (tags_of first @ concat (map tags_of (take 49 chain)))"
    using more_tags_chain [OF assms(2), of 1] by (simp add: MAX_TAG_PAGES_def)
  moreover have "take 50 (first # chain) = first # take 49 chain" by (simp add: eval_nat_numeral)
  moreover have "map (rel_id \<circ> docker_release lib s) ts = ts" for ts
    by (induction ts) (simp_all add: docker_release_def with_url_def release_new_def Let_def)
  ultimately show ?thesis
    using assms(1) by (simp add: docker_fetch_def Let_def attach_hub_ids outcome_fresh_def)
qed

definition example_docker :: docker_source where
  "example_docker = docker_quay ''quay:o/i'' ''o/i'' None"

definition example_docker_decoders :: docker_decoders where
  "example_docker_decoders =
    \<lparr>js_tags = (\<lambda>b. Inr (Some [b @ ''a'', b @ ''b''])), js_token = (\<lambda>_. Inl ''eof''), js_hub = (\<lambda>_. Inr [])\<rparr>"

definition example_registry :: http where
  "example_registry r =
    (if rq_url r = ''https://quay.io/v2/o/i/tags/list?n=100'' then
       Inr \<lparr>rs_status = 200, rs_headers = [(''link'', ''</next>; rel=next'')], rs_body = ''1''\<rparr>
     else Inr \<lparr>rs_status = 200, rs_headers = [], rs_body = ''2''\<rparr>)"

theorem docker_lists_chain_witness:
  "\<exists>out. docker_fetch example_registry example_docker_decoders example_libs example_docker None = Inr out
    \<and> map rel_id (fo_releases out) = [''1a'', ''1b'', ''2a'', ''2b'']"
proof -
  let ?first = "\<lparr>tp_etag = None, tp_link = Some ''</next>; rel=next'', tp_tags = Some [''1a'', ''1b'']\<rparr>"
  let ?second = "\<lparr>tp_etag = None, tp_link = None, tp_tags = Some [''2a'', ''2b'']\<rparr>"
  have first: "get_page example_registry example_docker_decoders example_docker
      (docker_base example_docker @ ''?n='' @ show_nat TAGS_PAGE_SIZE) None = Inr (Some ?first)"
    by code_simp
  have nxt: "next_of ?first = Some ''/next''" by code_simp
  have second: "get_page example_registry example_docker_decoders example_docker
      (join_registry_url (dk_registry example_docker) ''/next'') None = Inr (Some ?second)"
    by code_simp
  have "page_chain example_registry example_docker_decoders example_docker (next_of ?first) [?second]"
    unfolding nxt by (rule chain_page [OF second]) (simp add: next_of_def chain_end)
  from docker_lists_chain [OF first this, of example_libs] show ?thesis by (auto simp: tags_of_def)
qed

end
