(* ===== verification/Forges.thy ===== *)
theory Forges
  imports Docker
begin

text \<open>
  The release providers of the code forges and feeds: \<^verbatim>\<open>gitea_releases.rs\<close> (GitHub, Codeberg,
  Gitea), \<^verbatim>\<open>gitlab.rs\<close>, \<^verbatim>\<open>bitbucket.rs\<close>, \<^verbatim>\<open>artifacthub.rs\<close> and \<^verbatim>\<open>feed.rs\<close> under
  \<^verbatim>\<open>src/src/sources\<close>.  The feed parser and the JSON decoders are parameters.
\<close>

section \<open>Documents\<close>

record release_api =
  ra_tag_name :: string
  ra_html_url :: string
  ra_body :: "string option"
  ra_published :: "string option"
  ra_prerelease :: bool
  ra_draft :: bool

record feed_entry =
  fe_id :: string
  fe_title :: "string option"
  fe_links :: "string list"
  fe_published :: "int option"
  fe_updated :: "int option"

record gitlab_release =
  gl_tag_name :: string
  gl_description :: "string option"
  gl_released_at :: "string option"
  gl_self_link :: "string option"

record cloud_tag =
  ct_name :: string
  ct_date :: "string option"
  ct_href :: "string option"

record server_tag =
  st_display_id :: string
  st_timestamp :: "int option"

record available_version =
  av_version :: string
  av_prerelease :: bool
  av_ts :: "int option"

record forge_decoders =
  js_releases :: "release_api list decoder"
  js_feed :: "feed_entry list decoder"
  js_gitlab :: "gitlab_release list decoder"
  js_cloud :: "cloud_tag list option decoder"
  js_server :: "server_tag list option decoder"
  js_artifacthub :: "available_version list option decoder"

definition nonblank_text :: "string option \<Rightarrow> string option" where
  "nonblank_text t = (case t of None \<Rightarrow> None | Some s \<Rightarrow> if trim s = [] then None else Some s)"

section \<open>Gitea-compatible hosts\<close>

datatype auth_style = Bearer_style | Token_style

record gitea_preset =
  gp_kind :: string
  gp_kind_label :: string
  gp_api_repos_base :: string
  gp_web_base :: string
  gp_auth_style :: auth_style
  gp_api_version :: "string option"

record gitea_source =
  gs_id :: string
  gs_repo :: string
  gs_preset :: gitea_preset
  gs_token :: "string option"

definition gitea_github :: "string \<Rightarrow> string \<Rightarrow> string option \<Rightarrow> gitea_source" where
  "gitea_github i repo token =
    \<lparr>gs_id = i, gs_repo = repo, gs_preset =
      \<lparr>gp_kind = ''github'', gp_kind_label = ''GitHub'', gp_api_repos_base = ''https://api.github.com/repos'',
       gp_web_base = ''https://github.com'', gp_auth_style = Bearer_style, gp_api_version = Some ''2022-11-28''\<rparr>,
     gs_token = token\<rparr>"

definition gitea_codeberg :: "string \<Rightarrow> string \<Rightarrow> string option \<Rightarrow> gitea_source" where
  "gitea_codeberg i repo token =
    \<lparr>gs_id = i, gs_repo = repo, gs_preset =
      \<lparr>gp_kind = ''codeberg'', gp_kind_label = ''Codeberg'',
       gp_api_repos_base = ''https://codeberg.org/api/v1/repos'', gp_web_base = ''https://codeberg.org'',
       gp_auth_style = Token_style, gp_api_version = None\<rparr>,
     gs_token = token\<rparr>"

definition gitea_gitea :: "string \<Rightarrow> string \<Rightarrow> string \<Rightarrow> string option \<Rightarrow> gitea_source" where
  "gitea_gitea i host repo token =
    (let host = trim_end_slashes host in
     \<lparr>gs_id = i, gs_repo = repo, gs_preset =
       \<lparr>gp_kind = ''gitea'', gp_kind_label = ''Gitea'', gp_api_repos_base = host @ ''/api/v1/repos'',
        gp_web_base = host, gp_auth_style = Token_style, gp_api_version = None\<rparr>,
      gs_token = token\<rparr>)"

definition gitea_page_url :: "gitea_source \<Rightarrow> string" where
  "gitea_page_url s = trim_end_slashes (gp_web_base (gs_preset s)) @ ''/'' @ gs_repo s"

definition gitea_tag_url :: "gitea_source \<Rightarrow> string \<Rightarrow> string" where
  "gitea_tag_url s tag = gitea_release_url (gp_web_base (gs_preset s)) (gs_repo s) tag"

definition gitea_rest_url :: "gitea_source \<Rightarrow> string" where
  "gitea_rest_url s =
    trim_end_slashes (gp_api_repos_base (gs_preset s)) @ ''/'' @ gs_repo s @ ''/releases?per_page=30''"

definition gitea_atom_url :: "gitea_source \<Rightarrow> string" where
  "gitea_atom_url s = trim_end_slashes (gp_web_base (gs_preset s)) @ ''/'' @ gs_repo s @ ''/releases.atom''"

definition gitea_auth :: "gitea_source \<Rightarrow> http_request \<Rightarrow> http_request" where
  "gitea_auth s r =
    (case gs_token s of
       None \<Rightarrow> r
     | Some token \<Rightarrow>
         (case gp_auth_style (gs_preset s) of
            Bearer_style \<Rightarrow> with_header ''Authorization'' (''Bearer '' @ token) r
          | Token_style \<Rightarrow> with_header ''Authorization'' (''token '' @ token) r))"

definition gitea_rest_headers :: "gitea_source \<Rightarrow> http_request \<Rightarrow> http_request" where
  "gitea_rest_headers s r =
    (let r1 = with_header ''Accept'' ''application/json'' r in
     gitea_auth s (case gp_api_version (gs_preset s) of
       None \<Rightarrow> r1 | Some v \<Rightarrow> with_header ''X-GitHub-Api-Version'' v r1))"

definition api_to_release :: "'v source_libs \<Rightarrow> release_api \<Rightarrow> 'v release" where
  "api_to_release lib r =
    with_body (with_published (with_url (with_prerelease (release_new (sl_semver lib) (ra_tag_name r))
      (ra_prerelease r)) (Some (ra_html_url r))) (date_of lib (ra_published r))) (nonblank_text (ra_body r))"

definition data_or_empty :: "'a list fetch_result \<Rightarrow> 'a list" where
  "data_or_empty r = (case fr_data r of None \<Rightarrow> [] | Some xs \<Rightarrow> xs)"

definition fetch_rest :: "http \<Rightarrow> forge_decoders \<Rightarrow> 'v source_libs \<Rightarrow> gitea_source \<Rightarrow> string option
    \<Rightarrow> source_error + 'v fetch_outcome" where
  "fetch_rest http js lib s etag =
    (case fetch_json http (js_releases js) (gitea_rest_url s) etag (gitea_rest_headers s) of
       Inl e \<Rightarrow> Inl e
     | Inr r \<Rightarrow>
         if fr_not_modified r then Inr outcome_not_modified
         else Inr (outcome_fresh (map (api_to_release lib) (filter (\<lambda>x. \<not> ra_draft x) (data_or_empty r)))
                (fr_etag r)))"

definition first_link :: "feed_entry \<Rightarrow> string option" where
  "first_link e = (case fe_links e of [] \<Rightarrow> None | l # _ \<Rightarrow> Some l)"

definition entry_date :: "feed_entry \<Rightarrow> int option" where
  "entry_date e = (case fe_published e of Some t \<Rightarrow> Some t | None \<Rightarrow> fe_updated e)"

definition atom_tag :: "feed_entry \<Rightarrow> string" where
  "atom_tag e =
    (case (case first_link e of None \<Rightarrow> None | Some u \<Rightarrow> tag_from_release_url u) of
       Some t \<Rightarrow> t
     | None \<Rightarrow> (case fe_title e of Some t \<Rightarrow> t | None \<Rightarrow> fe_id e))"

definition atom_release :: "'v source_libs \<Rightarrow> feed_entry \<Rightarrow> 'v release" where
  "atom_release lib e =
    with_published (with_url (release_new (sl_semver lib) (atom_tag e)) (first_link e)) (entry_date e)"

text \<open>The feed parser works on bytes, so its failure is an error of its own.\<close>

definition fetch_feed :: "http \<Rightarrow> forge_decoders \<Rightarrow> string \<Rightarrow> string option \<Rightarrow> string
    \<Rightarrow> (feed_entry \<Rightarrow> 'v release) \<Rightarrow> source_error + 'v fetch_outcome" where
  "fetch_feed http js url etag missing convert =
    (case fetch_bytes http url etag id of
       Inl e \<Rightarrow> Inl e
     | Inr r \<Rightarrow>
         if fr_not_modified r then Inr outcome_not_modified
         else (case fr_data r of
             None \<Rightarrow> Inl (Source_other missing)
           | Some bytes \<Rightarrow>
               (case js_feed js bytes of
                  Inl e \<Rightarrow> Inl (Feed_failure e)
                | Inr entries \<Rightarrow> Inr (outcome_fresh (map convert entries) (fr_etag r)))))"

definition fetch_atom :: "http \<Rightarrow> forge_decoders \<Rightarrow> 'v source_libs \<Rightarrow> gitea_source \<Rightarrow> string option
    \<Rightarrow> source_error + 'v fetch_outcome" where
  "fetch_atom http js lib s etag =
    fetch_feed http js (gitea_atom_url s) etag ''empty atom response'' (atom_release lib)"

fun auth_failure :: "source_error \<Rightarrow> bool" where
  "auth_failure (Registry_status n _) \<longleftrightarrow> n = 401 \<or> n = 403"
| "auth_failure _ \<longleftrightarrow> False"

definition gitea_fetch :: "http \<Rightarrow> forge_decoders \<Rightarrow> 'v source_libs \<Rightarrow> gitea_source \<Rightarrow> string option
    \<Rightarrow> source_error + 'v fetch_outcome" where
  "gitea_fetch http js lib s etag =
    (if gs_token s \<noteq> None then
       (case fetch_rest http js lib s etag of
          Inr out \<Rightarrow> Inr out
        | Inl e \<Rightarrow> if auth_failure e then fetch_atom http js lib s etag else Inl e)
     else fetch_atom http js lib s etag)"

section \<open>Feeds\<close>

record feed_source =
  fs_id :: string
  fs_url :: string

definition entry_to_release :: "'v source_libs \<Rightarrow> feed_entry \<Rightarrow> 'v release" where
  "entry_to_release lib e =
    with_published (with_url (release_display (sl_semver lib) (release_new (sl_semver lib) (fe_id e))
      (case fe_title e of Some t \<Rightarrow> t | None \<Rightarrow> fe_id e)) (first_link e)) (entry_date e)"

definition feed_fetch :: "http \<Rightarrow> forge_decoders \<Rightarrow> 'v source_libs \<Rightarrow> feed_source \<Rightarrow> string option
    \<Rightarrow> source_error + 'v fetch_outcome" where
  "feed_fetch http js lib s etag =
    fetch_feed http js (fs_url s) etag ''empty feed response'' (entry_to_release lib)"

section \<open>GitLab\<close>

record gitlab_source =
  gl_id :: string
  gl_project :: string
  gl_host :: string
  gl_token :: "string option"

definition gitlab_new :: "string \<Rightarrow> string \<Rightarrow> string \<Rightarrow> string option \<Rightarrow> gitlab_source" where
  "gitlab_new i host project token =
    \<lparr>gl_id = i, gl_project = project,
     gl_host = (if host = [] then ''https://gitlab.com'' else trim_end_slashes host), gl_token = token\<rparr>"

definition gitlab_page_url :: "gitlab_source \<Rightarrow> string" where
  "gitlab_page_url s = trim_end_slashes (gl_host s) @ ''/'' @ gl_project s"

definition gitlab_tag_url :: "gitlab_source \<Rightarrow> string \<Rightarrow> string" where
  "gitlab_tag_url s tag = gitlab_release_url (gl_host s) (gl_project s) tag"

definition replace_char :: "char \<Rightarrow> string \<Rightarrow> string \<Rightarrow> string" where
  "replace_char c by_text s = concat (map (\<lambda>x. if x = c then by_text else [x]) s)"

definition gitlab_releases_url :: "gitlab_source \<Rightarrow> string" where
  "gitlab_releases_url s =
    gl_host s @ ''/api/v4/projects/'' @ replace_char (CHR ''/'') ''%2F'' (gl_project s) @ ''/releases?per_page=20''"

definition gitlab_to_release :: "'v source_libs \<Rightarrow> gitlab_release \<Rightarrow> 'v release" where
  "gitlab_to_release lib r =
    with_body (with_published (with_url (release_new (sl_semver lib) (gl_tag_name r))
      (case gl_self_link r of None \<Rightarrow> None | Some s \<Rightarrow> if s = [] then None else Some s))
      (date_of lib (gl_released_at r))) (nonblank_text (gl_description r))"

definition gitlab_fetch :: "http \<Rightarrow> forge_decoders \<Rightarrow> 'v source_libs \<Rightarrow> gitlab_source \<Rightarrow> string option
    \<Rightarrow> source_error + 'v fetch_outcome" where
  "gitlab_fetch http js lib s etag =
    (case fetch_json http (js_gitlab js) (gitlab_releases_url s) etag
        (\<lambda>r. case gl_token s of None \<Rightarrow> r | Some t \<Rightarrow> with_header ''PRIVATE-TOKEN'' t r) of
       Inl e \<Rightarrow> Inl e
     | Inr r \<Rightarrow>
         if fr_not_modified r then Inr outcome_not_modified
         else Inr (outcome_fresh (map (gitlab_to_release lib) (data_or_empty r)) (fr_etag r)))"

section \<open>Bitbucket\<close>

datatype bitbucket_edition = Cloud_edition | Server_edition

record bitbucket_source =
  bb_id :: string
  bb_edition :: bitbucket_edition
  bb_repo :: string
  bb_project_key :: string
  bb_repo_slug :: string
  bb_api_base :: string
  bb_web_base :: string
  bb_token :: "string option"

definition split_repo :: "string \<Rightarrow> string \<times> string" where
  "split_repo repo = (case split_once ''/'' repo of None \<Rightarrow> (repo, []) | Some (p, s) \<Rightarrow> (p, s))"

definition bitbucket_cloud :: "string \<Rightarrow> string \<Rightarrow> string option \<Rightarrow> bitbucket_source" where
  "bitbucket_cloud i repo token =
    \<lparr>bb_id = i, bb_edition = Cloud_edition, bb_repo = repo, bb_project_key = fst (split_repo repo),
     bb_repo_slug = snd (split_repo repo), bb_api_base = ''https://api.bitbucket.org/2.0'',
     bb_web_base = ''https://bitbucket.org'', bb_token = token\<rparr>"

definition bitbucket_server :: "string \<Rightarrow> string \<Rightarrow> string \<Rightarrow> string option \<Rightarrow> bitbucket_source" where
  "bitbucket_server i host repo token =
    (let host = trim_end_slashes host in
     \<lparr>bb_id = i, bb_edition = Server_edition, bb_repo = repo, bb_project_key = fst (split_repo repo),
      bb_repo_slug = snd (split_repo repo), bb_api_base = host, bb_web_base = host, bb_token = token\<rparr>)"

definition bitbucket_with_host :: "string \<Rightarrow> string \<Rightarrow> string \<Rightarrow> string \<Rightarrow> string option \<Rightarrow> bitbucket_source" where
  "bitbucket_with_host i repo api_base web_base token =
    \<lparr>bb_id = i, bb_edition = Cloud_edition, bb_repo = repo, bb_project_key = fst (split_repo repo),
     bb_repo_slug = snd (split_repo repo), bb_api_base = trim_end_slashes api_base,
     bb_web_base = trim_end_slashes web_base, bb_token = token\<rparr>"

definition bitbucket_page_url :: "bitbucket_source \<Rightarrow> string" where
  "bitbucket_page_url s = trim_end_slashes (bb_web_base s) @ ''/'' @ bb_repo s"

definition bitbucket_tag_url :: "bitbucket_source \<Rightarrow> string \<Rightarrow> string" where
  "bitbucket_tag_url s tag =
    trim_end_slashes (bb_web_base s) @ ''/'' @ bb_repo s @ ''/src/'' @ encode_path_segment tag"

definition bitbucket_auth :: "bitbucket_source \<Rightarrow> http_request \<Rightarrow> http_request" where
  "bitbucket_auth s r = (case bb_token s of None \<Rightarrow> r | Some t \<Rightarrow> bearer_auth t r)"

definition cloud_tag_to_release :: "'v source_libs \<Rightarrow> bitbucket_source \<Rightarrow> cloud_tag \<Rightarrow> 'v release" where
  "cloud_tag_to_release lib s e =
    with_published (with_url (release_new (sl_semver lib) (ct_name e))
      (case ct_href e of
         Some u \<Rightarrow> Some u
       | None \<Rightarrow> Some (bb_web_base s @ ''/'' @ bb_repo s @ ''/src/'' @ ct_name e))) (date_of lib (ct_date e))"

definition server_tag_to_release :: "'v source_libs \<Rightarrow> bitbucket_source \<Rightarrow> server_tag \<Rightarrow> 'v release" where
  "server_tag_to_release lib s e =
    with_published (with_url (release_new (sl_semver lib) (st_display_id e))
      (Some (bb_web_base s @ ''/projects/'' @ bb_project_key s @ ''/repos/'' @ bb_repo_slug s
        @ ''/browse?at=refs/tags/'' @ st_display_id e)))
      (case st_timestamp e of None \<Rightarrow> None | Some ms \<Rightarrow> ch_from_millis (sl_chrono lib) ms)"

definition values_or_empty :: "'a list option \<Rightarrow> 'a list" where
  "values_or_empty v = (case v of None \<Rightarrow> [] | Some xs \<Rightarrow> xs)"

definition fetch_tags :: "http \<Rightarrow> 'a list option decoder \<Rightarrow> string \<Rightarrow> string option
    \<Rightarrow> (http_request \<Rightarrow> http_request) \<Rightarrow> string \<Rightarrow> ('a \<Rightarrow> 'v release) \<Rightarrow> source_error + 'v fetch_outcome" where
  "fetch_tags http decode url etag build missing convert =
    (case fetch_json http decode url etag build of
       Inl e \<Rightarrow> Inl e
     | Inr r \<Rightarrow>
         if fr_not_modified r then Inr outcome_not_modified
         else (case fr_data r of
             None \<Rightarrow> Inl (Source_other missing)
           | Some page \<Rightarrow> Inr (outcome_fresh (map convert (values_or_empty page)) (fr_etag r))))"

definition fetch_cloud :: "http \<Rightarrow> forge_decoders \<Rightarrow> 'v source_libs \<Rightarrow> bitbucket_source \<Rightarrow> string option
    \<Rightarrow> source_error + 'v fetch_outcome" where
  "fetch_cloud http js lib s etag =
    fetch_tags http (js_cloud js)
      (bb_api_base s @ ''/repositories/'' @ bb_repo s @ ''/refs/tags?pagelen=100&sort=-target.date'')
      etag (bitbucket_auth s) ''empty Bitbucket tags response'' (cloud_tag_to_release lib s)"

definition fetch_server :: "http \<Rightarrow> forge_decoders \<Rightarrow> 'v source_libs \<Rightarrow> bitbucket_source \<Rightarrow> string option
    \<Rightarrow> source_error + 'v fetch_outcome" where
  "fetch_server http js lib s etag =
    fetch_tags http (js_server js)
      (bb_api_base s @ ''/rest/api/1.0/projects/'' @ bb_project_key s @ ''/repos/'' @ bb_repo_slug s
        @ ''/tags?limit=100&orderBy=MODIFICATION'')
      etag (bitbucket_auth s) ''empty Bitbucket Server tags response'' (server_tag_to_release lib s)"

definition bitbucket_fetch :: "http \<Rightarrow> forge_decoders \<Rightarrow> 'v source_libs \<Rightarrow> bitbucket_source \<Rightarrow> string option
    \<Rightarrow> source_error + 'v fetch_outcome" where
  "bitbucket_fetch http js lib s etag =
    (case bb_edition s of
       Cloud_edition \<Rightarrow> fetch_cloud http js lib s etag
     | Server_edition \<Rightarrow> fetch_server http js lib s etag)"

section \<open>Artifact Hub\<close>

record artifacthub_source =
  ah_id :: string
  ah_name :: string
  ah_repository :: string
  ah_chart :: string
  ah_package_kind :: string
  ah_host :: string

definition split_repo_chart :: "string \<Rightarrow> source_error + string \<times> string" where
  "split_repo_chart name =
    (let err = Inl (Source_other (''artifacthub name must be '' @ [byte 96] @ ''repository/chart'' @ [byte 96]
                 @ '', got '' @ [byte 96] @ name @ [byte 96])) in
     case split_once ''/'' name of
       None \<Rightarrow> err
     | Some (repository, chart) \<Rightarrow> if repository = [] \<or> chart = [] then err else Inr (repository, chart))"

definition artifacthub_with_options :: "string \<Rightarrow> string \<Rightarrow> string \<Rightarrow> string \<Rightarrow> source_error + artifacthub_source" where
  "artifacthub_with_options i name host package_kind =
    (case split_repo_chart name of
       Inl e \<Rightarrow> Inl e
     | Inr (repository, chart) \<Rightarrow>
         Inr \<lparr>ah_id = i, ah_name = name, ah_repository = repository, ah_chart = chart,
           ah_package_kind = package_kind, ah_host = trim_end_slashes host\<rparr>)"

definition artifacthub_helm :: "string \<Rightarrow> string \<Rightarrow> source_error + artifacthub_source" where
  "artifacthub_helm i name = artifacthub_with_options i name ''https://artifacthub.io'' ''helm''"

definition artifacthub_path :: "artifacthub_source \<Rightarrow> string" where
  "artifacthub_path s = ah_package_kind s @ ''/'' @ ah_repository s @ ''/'' @ ah_chart s"

definition artifacthub_page_url :: "artifacthub_source \<Rightarrow> string" where
  "artifacthub_page_url s = ah_host s @ ''/packages/'' @ artifacthub_path s"

definition artifacthub_fetch_url :: "artifacthub_source \<Rightarrow> string" where
  "artifacthub_fetch_url s = ah_host s @ ''/api/v1/packages/'' @ artifacthub_path s"

definition artifacthub_version_url :: "artifacthub_source \<Rightarrow> string \<Rightarrow> string" where
  "artifacthub_version_url s version = ah_host s @ ''/packages/'' @ artifacthub_path s @ ''/'' @ version"

definition version_to_release :: "'v source_libs \<Rightarrow> artifacthub_source \<Rightarrow> available_version \<Rightarrow> 'v release" where
  "version_to_release lib s e =
    with_published (with_url (with_prerelease (release_new (sl_semver lib) (av_version e)) (av_prerelease e))
      (Some (artifacthub_version_url s (av_version e))))
      (case av_ts e of None \<Rightarrow> None | Some secs \<Rightarrow> ch_from_secs (sl_chrono lib) secs)"

definition artifacthub_fetch :: "http \<Rightarrow> forge_decoders \<Rightarrow> 'v source_libs \<Rightarrow> artifacthub_source \<Rightarrow> string option
    \<Rightarrow> source_error + 'v fetch_outcome" where
  "artifacthub_fetch http js lib s etag =
    fetch_tags http (js_artifacthub js) (artifacthub_fetch_url s) etag id ''empty artifact hub response''
      (version_to_release lib s)"

section \<open>What the forges yield\<close>

lemma fetch_rest_no_draft:
  assumes "fetch_rest http js lib s etag = Inr out"
  shows "\<exists>docs. fo_releases out = map (api_to_release lib) docs \<and> list_all (\<lambda>x. \<not> ra_draft x) docs"
proof (cases "fo_not_modified out")
  case True
  then have "fo_releases out = map (api_to_release lib) []"
    using assms by (auto simp: fetch_rest_def outcome_not_modified_def outcome_fresh_def split: sum.splits if_splits)
  then show ?thesis by (intro exI [of _ "[]"]) simp
next
  case False
  then obtain r where "fo_releases out = map (api_to_release lib) (filter (\<lambda>x. \<not> ra_draft x) (data_or_empty r))"
    using assms by (auto simp: fetch_rest_def outcome_not_modified_def outcome_fresh_def split: sum.splits if_splits)
  then show ?thesis by (intro exI [of _ "filter (\<lambda>x. \<not> ra_draft x) (data_or_empty r)"]) (simp add: list_all_iff)
qed

text \<open>
  drafts stay private and a bad token does not stop a source.  A source without a token reads
  the public feed; one whose token is refused by the REST interface falls back to it; and in every
  other case a successful fetch is the conversion of REST documents none of which is a draft.
\<close>

theorem gitea_fetch_paths:
  shows "(gs_token s = None \<longrightarrow> gitea_fetch http js lib s etag = fetch_atom http js lib s etag)
    \<and> (\<forall>n url. gs_token s \<noteq> None \<and> fetch_rest http js lib s etag = Inl (Registry_status n url) \<and> n \<in> {401, 403}
        \<longrightarrow> gitea_fetch http js lib s etag = fetch_atom http js lib s etag)
    \<and> (\<forall>out. gitea_fetch http js lib s etag = Inr out \<and> gitea_fetch http js lib s etag \<noteq> fetch_atom http js lib s etag
        \<longrightarrow> (\<exists>docs. fo_releases out = map (api_to_release lib) docs \<and> list_all (\<lambda>x. \<not> ra_draft x) docs))"
  using fetch_rest_no_draft [of http js lib s etag]
  by (auto simp: gitea_fetch_def split: sum.splits if_splits)

definition example_forge_decoders :: forge_decoders where
  "example_forge_decoders =
    \<lparr>js_releases = (\<lambda>_. Inr [\<lparr>ra_tag_name = ''v1'', ra_html_url = ''u'', ra_body = None, ra_published = None,
       ra_prerelease = False, ra_draft = True\<rparr>]),
     js_feed = (\<lambda>_. Inr [\<lparr>fe_id = ''i'', fe_title = Some ''v0'', fe_links = [], fe_published = None, fe_updated = None\<rparr>]),
     js_gitlab = (\<lambda>_. Inr []), js_cloud = (\<lambda>_. Inr None), js_server = (\<lambda>_. Inr None), js_artifacthub = (\<lambda>_. Inr None)\<rparr>"

definition example_github :: gitea_source where
  "example_github = gitea_github ''github:o/r'' ''o/r'' (Some ''bad'')"

definition refusing_http :: http where
  "refusing_http r =
    (if rq_url r = ''https://github.com/o/r/releases.atom'' then Inr \<lparr>rs_status = 200, rs_headers = [], rs_body = ''<feed>''\<rparr>
     else Inr \<lparr>rs_status = 401, rs_headers = [], rs_body = []\<rparr>)"

theorem gitea_fetch_paths_witness:
  "map_sum id (\<lambda>out. map rel_id (fo_releases out))
     (gitea_fetch refusing_http example_forge_decoders example_libs example_github None) = Inr [''v0'']"
proof -
  have "fetch_rest refusing_http example_forge_decoders example_libs example_github None
      = Inl (Registry_status 401 ''https://api.github.com/repos/o/r/releases?per_page=30'')" by code_simp
  moreover have "gs_token example_github \<noteq> None" by code_simp
  ultimately have "gitea_fetch refusing_http example_forge_decoders example_libs example_github None
      = fetch_atom refusing_http example_forge_decoders example_libs example_github None"
    using gitea_fetch_paths [of example_github refusing_http example_forge_decoders example_libs None] by auto
  moreover have "map_sum id (\<lambda>out. map rel_id (fo_releases out))
     (fetch_atom refusing_http example_forge_decoders example_libs example_github None) = Inr [''v0'']" by code_simp
  ultimately show ?thesis by simp
qed

text \<open>
  The Artifact Hub and Bitbucket Server conversions read their timestamps without the plausibility
  floor of the other providers, so a zeroed field is shown as a date of 1970.
\<close>

lemma placeholder_dates_kept:
  "ch_from_secs (sl_chrono lib) 0 = Some t \<Longrightarrow>
     rel_published_at (version_to_release lib s \<lparr>av_version = v, av_prerelease = p, av_ts = Some 0\<rparr>) = Some t"
  "ch_from_millis (sl_chrono lib) 0 = Some t \<Longrightarrow>
     rel_published_at (server_tag_to_release lib b \<lparr>st_display_id = v, st_timestamp = Some 0\<rparr>) = Some t"
  by (simp_all add: version_to_release_def server_tag_to_release_def with_published_def)

end
