(* ===== verification/Sources.thy ===== *)
theory Sources
  imports Forges
begin

text \<open>
  The closed set of source kinds (\<^verbatim>\<open>src/src/sources/mod.rs\<close>): each provider delegates its
  identity, its labels, its page URLs and its fetch to the source it wraps.
\<close>

datatype provider =
    Github gitea_source
  | Codeberg gitea_source
  | Gitea gitea_source
  | Gitlab gitlab_source
  | Bitbucket bitbucket_source
  | Docker_provider docker_source
  | Ghcr docker_source
  | Quay docker_source
  | Ecr docker_source
  | Feed feed_source
  | Package package_source
  | Artifact_hub artifacthub_source

text \<open>
  The ten package kinds of the code wrap the same source and are told apart by its registry alone,
  which is their one constructor here.
\<close>

definition provider_container :: "string \<Rightarrow> string \<Rightarrow> container_registry \<Rightarrow> string option \<Rightarrow> provider" where
  "provider_container i img registry token =
    (let source = build_source registry i img token in
     if dk_kind source = ''ghcr'' then Ghcr source
     else if dk_kind source = ''quay'' then Quay source
     else if dk_kind source = ''ecr'' then Ecr source
     else Docker_provider source)"

definition provider_package :: "string \<Rightarrow> string \<Rightarrow> package_registry \<Rightarrow> provider" where
  "provider_package i name registry = Package \<lparr>pk_id = i, pk_name = name, pk_registry = registry\<rparr>"

fun container_of :: "provider \<Rightarrow> docker_source option" where
  "container_of (Docker_provider s) = Some s"
| "container_of (Ghcr s) = Some s"
| "container_of (Quay s) = Some s"
| "container_of (Ecr s) = Some s"
| "container_of _ = None"

fun package_of :: "provider \<Rightarrow> package_source option" where
  "package_of (Package s) = Some s"
| "package_of _ = None"

datatype primary_source =
    Gitea_primary gitea_source
  | Gitlab_primary gitlab_source
  | Bitbucket_primary bitbucket_source
  | Artifacthub_primary artifacthub_source
  | Feed_primary feed_source

text \<open>The remaining kinds; the code is unreachable for containers and packages.\<close>

fun primary_of :: "provider \<Rightarrow> primary_source option" where
  "primary_of (Github s) = Some (Gitea_primary s)"
| "primary_of (Codeberg s) = Some (Gitea_primary s)"
| "primary_of (Gitea s) = Some (Gitea_primary s)"
| "primary_of (Gitlab s) = Some (Gitlab_primary s)"
| "primary_of (Bitbucket s) = Some (Bitbucket_primary s)"
| "primary_of (Artifact_hub s) = Some (Artifacthub_primary s)"
| "primary_of (Feed s) = Some (Feed_primary s)"
| "primary_of _ = None"

definition by_source :: "(package_source \<Rightarrow> 'a) \<Rightarrow> (docker_source \<Rightarrow> 'a) \<Rightarrow> (primary_source \<Rightarrow> 'a) \<Rightarrow> 'a \<Rightarrow> provider \<Rightarrow> 'a" where
  "by_source f g h unreachable p =
    (case package_of p of
       Some s \<Rightarrow> f s
     | None \<Rightarrow>
         (case container_of p of
            Some s \<Rightarrow> g s
          | None \<Rightarrow> (case primary_of p of Some s \<Rightarrow> h s | None \<Rightarrow> unreachable)))"

definition provider_id :: "provider \<Rightarrow> string" where
  "provider_id = by_source pk_id dk_id
     (\<lambda>s. case s of Gitea_primary s \<Rightarrow> gs_id s | Gitlab_primary s \<Rightarrow> gl_id s | Bitbucket_primary s \<Rightarrow> bb_id s
        | Artifacthub_primary s \<Rightarrow> ah_id s | Feed_primary s \<Rightarrow> fs_id s) []"

definition provider_kind :: "provider \<Rightarrow> string" where
  "provider_kind = by_source (\<lambda>s. registry_kind (pk_registry s)) dk_kind
     (\<lambda>s. case s of Gitea_primary s \<Rightarrow> gp_kind (gs_preset s) | Gitlab_primary _ \<Rightarrow> ''gitlab''
        | Bitbucket_primary _ \<Rightarrow> ''bitbucket'' | Artifacthub_primary _ \<Rightarrow> ''artifacthub'' | Feed_primary _ \<Rightarrow> ''feed'') []"

definition provider_kind_label :: "provider \<Rightarrow> string" where
  "provider_kind_label = by_source (\<lambda>s. registry_kind_label (pk_registry s)) dk_kind_label
     (\<lambda>s. case s of Gitea_primary s \<Rightarrow> gp_kind_label (gs_preset s) | Gitlab_primary _ \<Rightarrow> ''GitLab''
        | Bitbucket_primary _ \<Rightarrow> ''Bitbucket'' | Artifacthub_primary _ \<Rightarrow> ''Artifact Hub'' | Feed_primary _ \<Rightarrow> ''Feed'') []"

definition provider_display_name :: "provider \<Rightarrow> string" where
  "provider_display_name = by_source pk_name dk_image
     (\<lambda>s. case s of Gitea_primary s \<Rightarrow> gs_repo s | Gitlab_primary s \<Rightarrow> gl_project s | Bitbucket_primary s \<Rightarrow> bb_repo s
        | Artifacthub_primary s \<Rightarrow> ah_name s | Feed_primary s \<Rightarrow> fs_url s) []"

definition source_page_url :: "provider \<Rightarrow> string option" where
  "source_page_url = by_source (\<lambda>s. Some (package_index_url s)) (\<lambda>s. Some (docker_page_url s))
     (\<lambda>s. case s of Gitea_primary s \<Rightarrow> Some (gitea_page_url s) | Gitlab_primary s \<Rightarrow> Some (gitlab_page_url s)
        | Bitbucket_primary s \<Rightarrow> Some (bitbucket_page_url s) | Artifacthub_primary s \<Rightarrow> Some (artifacthub_page_url s)
        | Feed_primary s \<Rightarrow> Some (fs_url s)) None"

definition release_page_url :: "provider \<Rightarrow> string \<Rightarrow> string option" where
  "release_page_url p i = by_source (\<lambda>s. Some (package_url s i)) (\<lambda>s. Some (docker_release_url s i))
     (\<lambda>s. case s of Gitea_primary s \<Rightarrow> Some (gitea_tag_url s i) | Gitlab_primary s \<Rightarrow> Some (gitlab_tag_url s i)
        | Bitbucket_primary s \<Rightarrow> Some (bitbucket_tag_url s i)
        | Artifacthub_primary s \<Rightarrow> Some (artifacthub_version_url s i) | Feed_primary _ \<Rightarrow> None) None p"

record fetch_env =
  fv_version :: string
  fv_docker :: docker_decoders
  fv_forge :: forge_decoders

definition provider_fetch :: "fetch_env \<Rightarrow> 'v source_libs \<Rightarrow> http \<Rightarrow> provider \<Rightarrow> string option
    \<Rightarrow> source_error + 'v fetch_outcome" where
  "provider_fetch e lib http p etag = by_source
     (\<lambda>s. package_fetch (fv_version e) http lib s etag)
     (\<lambda>s. docker_fetch http (fv_docker e) lib s etag)
     (\<lambda>s. case s of Gitea_primary s \<Rightarrow> gitea_fetch http (fv_forge e) lib s etag
        | Gitlab_primary s \<Rightarrow> gitlab_fetch http (fv_forge e) lib s etag
        | Bitbucket_primary s \<Rightarrow> bitbucket_fetch http (fv_forge e) lib s etag
        | Artifacthub_primary s \<Rightarrow> artifacthub_fetch http (fv_forge e) lib s etag
        | Feed_primary s \<Rightarrow> feed_fetch http (fv_forge e) lib s etag)
     (Inl (Source_other ''unreachable'')) p"

text \<open>Every kind has a source, so the unreachable arm is never taken.\<close>

lemma primary_reached: "package_of p = None \<Longrightarrow> container_of p = None \<Longrightarrow> primary_of p \<noteq> None"
  by (cases p) simp_all

lemma container_provider [simp]:
  "provider_id (provider_container i img r t) = i"
  "provider_display_name (provider_container i img r t) = img"
  "provider_kind (provider_container i img r t) = container_prefix r"
  by (cases r; simp add: provider_id_def provider_display_name_def provider_kind_def provider_container_def
      by_source_def docker_new_def docker_hub_def docker_ghcr_def docker_quay_def docker_ecr_public_def Let_def)+

lemma package_provider [simp]:
  "provider_id (provider_package i name r) = i"
  "provider_display_name (provider_package i name r) = name"
  "provider_kind (provider_package i name r) = registry_kind r"
  by (simp_all add: provider_id_def provider_display_name_def provider_kind_def provider_package_def by_source_def)

end
