(* ===== verification/Polling.thy ===== *)
theory Polling
  imports Attempt Sources Filters
begin

text \<open>
  One poll of a watched source (\<^verbatim>\<open>src/src/pipeline/poll.rs\<close> and \<^verbatim>\<open>watch.rs\<close>): the conditional
  fetch, the silent baseline of a new source, the selection of new and changed releases, the
  notification built for each, and its way into the queue and to a first delivery attempt.
\<close>

record watch =
  wt_provider :: provider
  wt_interval :: nat
  wt_jitter :: nat
  wt_poll_on_startup :: bool
  wt_filter :: release_filter
  wt_routing_tag :: "string option"
  wt_notify_schedule :: "notify_schedule option"
  wt_organization_id :: "string option"

text \<open>The libraries a poll uses, and the answers to its fetches: the first one and the refresh.\<close>

record 'v poll_libs =
  pb_source :: "'v source_libs"
  pb_regex :: regex_lib
  pb_cron :: cron_lib
  pb_hash :: "string \<Rightarrow> string \<Rightarrow> 64 word"

type_synonym 'v upstream = "nat \<Rightarrow> string option \<Rightarrow> source_error + 'v fetch_outcome"

definition MAX_BODY_CHARS :: nat where
  "MAX_BODY_CHARS = 3000"

definition release_notes :: "string \<Rightarrow> string" where
  "release_notes notes =
    nl @ ''---'' @ nl @ nl
      @ (if MAX_BODY_CHARS < char_count notes
         then take_chars MAX_BODY_CHARS notes @ nl @ nl @ ''*'' @ ellipsis @ ''changelog truncated'' @ ellipsis @ ''*''
         else notes)"

definition build_event :: "'v poll_libs \<Rightarrow> provider \<Rightarrow> 'v release \<Rightarrow> event" where
  "build_event lib p r =
    (let name = provider_display_name p;
         version = (case rel_version r of
             None \<Rightarrow> rel_raw_tag r | Some v \<Rightarrow> sv_show (sl_semver (pb_source lib)) v);
         title = name @ '': new release '' @ rel_raw_tag r;
         body = ''**'' @ name @ ''** published **'' @ rel_raw_tag r @ ''**.'' @ nl @ nl
           @ ''- Source: '' @ provider_kind_label p @ nl
           @ ''- Version: '' @ version @ nl
           @ (case rel_published_at r of
                None \<Rightarrow> []
              | Some t \<Rightarrow> ''- Published: '' @ ch_date (sl_chrono (pb_source lib)) t @ nl)
           @ (case rel_body r of None \<Rightarrow> [] | Some notes \<Rightarrow> release_notes notes) in
     \<lparr>ev_source_id = provider_id p, ev_source_kind = provider_kind_label p, ev_title = title,
      ev_body = body, ev_url = rel_url r, ev_routing_tag = None\<rparr>)"

section \<open>Selection\<close>

definition fingerprint :: "'v poll_libs \<Rightarrow> 'v release \<Rightarrow> string" where
  "fingerprint lib r = content_fingerprint (pb_hash lib) r"

definition upsert_of :: "'v poll_libs \<Rightarrow> 'v release \<Rightarrow> seen_upsert" where
  "upsert_of lib r = seen_with_published (seen_from_release r (Some (fingerprint lib r))) (rel_published_at r)"

definition should_deliver_cached :: "'v poll_libs \<Rightarrow> 'v release \<Rightarrow> bool \<Rightarrow> (string \<Rightarrow> string option option) \<Rightarrow> bool" where
  "should_deliver_cached lib r exclude_updated seen =
    (case seen (rel_id r) of
       None \<Rightarrow> True
     | Some stored \<Rightarrow> if exclude_updated then False else stored \<noteq> Some (fingerprint lib r))"

text \<open>Releases lose their parsed version where a store method only reads the other fields.\<close>

definition unversioned :: "'v release \<Rightarrow> unit release" where
  "unversioned r =
    \<lparr>rel_id = rel_id r, rel_raw_tag = rel_raw_tag r, rel_version = None, rel_url = rel_url r,
     rel_published_at = rel_published_at r, rel_prerelease = rel_prerelease r, rel_body = rel_body r\<rparr>"

definition set_latest_call :: "string \<Rightarrow> 'v::linorder release list \<Rightarrow> unit attempt" where
  "set_latest_call s rs =
    (case pick_latest rs of
       None \<Rightarrow> ok ()
     | Some r \<Rightarrow> store_write (\<lambda>now app d. ((), set_latest_release_tag now s (rel_raw_tag r) d)))"

definition enrich_call :: "string \<Rightarrow> 'v release list \<Rightarrow> unit attempt" where
  "enrich_call s rs = store_write (\<lambda>now app d. ((), enrich_seen_metadata s (map unversioned rs) d))"

definition deliverable :: "'v::linorder poll_libs \<Rightarrow> 'v release list \<Rightarrow> bool \<Rightarrow> (string \<Rightarrow> string option option) \<Rightarrow> 'v release list" where
  "deliverable lib rs exclude_updated seen =
    sort_key (\<lambda>r. (rel_published_at r, rel_version r))
      (filter (\<lambda>r. should_deliver_cached lib r exclude_updated seen) rs)"

definition select_for_delivery :: "'v::linorder poll_libs \<Rightarrow> string \<Rightarrow> 'v release list \<Rightarrow> bool \<Rightarrow> 'v release list attempt" where
  "select_for_delivery lib s rs exclude_updated =
     try_bind (store_read (\<lambda>now app d. is_initialized d s)) (\<lambda>initialized.
     if \<not> initialized then
       try_bind (store_write (\<lambda>now app d. ((), record_seen_batch now s (map (upsert_of lib) rs) d))) (\<lambda>_.
       try_bind (set_latest_call s rs) (\<lambda>_. ok []))
     else
       try_bind (store_read (\<lambda>now app d. load_seen_index d s)) (\<lambda>seen.
       ok (deliverable lib rs exclude_updated seen)))"

section \<open>Queueing and the first attempt\<close>

definition enqueue_call :: "event \<Rightarrow> string \<Rightarrow> outbox_meta \<Rightarrow> enqueue_outcome option attempt" where
  "enqueue_call ev i m = store_write (\<lambda>now app. try_enqueue_notification now app ev i m)"

definition record_seen_call :: "string \<Rightarrow> seen_upsert \<Rightarrow> unit attempt" where
  "record_seen_call s u = store_write (\<lambda>now app d. ((), record_seen now s u d))"

definition claim_row_call :: "int \<Rightarrow> bool attempt" where
  "claim_row_call i = store_write (\<lambda>now app. claim_outbox_row now i OUTBOX_LEASE_SECS)"

definition watch_event :: "'v poll_libs \<Rightarrow> watch \<Rightarrow> 'v release \<Rightarrow> event" where
  "watch_event lib wt r = (build_event lib (wt_provider wt) r)\<lparr>ev_routing_tag := wt_routing_tag wt\<rparr>"

definition meta_of :: "'v poll_libs \<Rightarrow> watch \<Rightarrow> 'v release \<Rightarrow> timestamp \<Rightarrow> outbox_meta" where
  "meta_of lib wt r app_time =
    \<lparr>om_content_digest = Some (fingerprint lib r), om_display_tag = display_label r,
     om_published_at = rel_published_at r,
     om_deliver_after = (case wt_notify_schedule wt of
        None \<Rightarrow> None | Some sc \<Rightarrow> next_after (pb_cron lib) sc app_time)\<rparr>"

definition deliver_release :: "'v poll_libs \<Rightarrow> watch \<Rightarrow> 'v release \<Rightarrow> nat attempt" where
  "deliver_release lib wt r = do {
     let s = provider_id (wt_provider wt);
     let ev = watch_event lib wt r;
     let seen = upsert_of lib r;
     app_time \<leftarrow> asks_world app_now;
     try_bind (enqueue_call ev (rel_id r) (meta_of lib wt r app_time)) (\<lambda>enq.
       case enq of
         None \<Rightarrow> ok 0
       | Some enqueued \<Rightarrow> do {
           (if eo_created enqueued then count_metric (record_outbox_enqueued 1) else State_Monad.return ());
           try_bind (record_seen_call s seen) (\<lambda>_.
           if \<not> eo_deliver_now enqueued then ok 0
           else
             try_bind (claim_row_call (eo_id enqueued)) (\<lambda>claimed.
             if \<not> claimed then ok 0
             else
               try_bind (attempt_notification_delivery (eo_id enqueued) 0
                 \<lparr>dc_event = ev, dc_source_id = s, dc_kind = provider_kind (wt_provider wt),
                  dc_package_name = provider_display_name (wt_provider wt), dc_seen = seen\<rparr>)
                 (\<lambda>sent. ok (if sent then 1 else 0))))
         })
   }"

fun deliver_each :: "'v poll_libs \<Rightarrow> watch \<Rightarrow> 'v release list \<Rightarrow> nat attempt" where
  "deliver_each lib wt [] = ok 0"
| "deliver_each lib wt (r # rs) =
     try_bind (deliver_release lib wt r) (\<lambda>n. try_bind (deliver_each lib wt rs) (\<lambda>m. ok (n + m)))"

definition accepted_releases :: "'v poll_libs \<Rightarrow> watch \<Rightarrow> 'v release list \<Rightarrow> 'v release list" where
  "accepted_releases lib wt rs = filter (accepts (pb_regex lib) (wt_filter wt)) rs"

definition deliver_new_releases :: "'v::linorder poll_libs \<Rightarrow> watch \<Rightarrow> 'v release list \<Rightarrow> nat attempt" where
  "deliver_new_releases lib wt releases =
    (let s = provider_id (wt_provider wt); filtered = accepted_releases lib wt releases in
     try_bind (set_latest_call s filtered) (\<lambda>_.
     try_bind (enrich_call s filtered) (\<lambda>_.
     try_bind (select_for_delivery lib s filtered (excludes_updated (wt_filter wt))) (\<lambda>todo.
     if todo = [] then ok 0
     else
       try_bind (deliver_each lib wt todo) (\<lambda>sent. do {
         (if 0 < sent then count_metric (record_notifications s sent) else State_Monad.return ());
         ok sent
       })))))"

section \<open>The poll\<close>

definition set_etag_call :: "string \<Rightarrow> string option \<Rightarrow> unit attempt" where
  "set_etag_call s etag =
    (case etag of None \<Rightarrow> ok () | Some _ \<Rightarrow> store_write (\<lambda>now app d. ((), set_etag now s etag d)))"

definition refresh_seen_metadata :: "'v::linorder poll_libs \<Rightarrow> 'v upstream \<Rightarrow> watch \<Rightarrow> unit attempt" where
  "refresh_seen_metadata lib net wt =
    (let s = provider_id (wt_provider wt) in
     case net 1 None of
       Inl e \<Rightarrow> State_Monad.return (Inl (Source_error (show_source_error e)))
     | Inr out \<Rightarrow>
         if fo_not_modified out then ok ()
         else
           try_bind (enrich_call s (accepted_releases lib wt (fo_releases out))) (\<lambda>_.
           set_etag_call s (fo_etag out)))"

definition backfill_latest_release_tag_if_missing :: "'v::linorder semver \<Rightarrow> string \<Rightarrow> unit attempt" where
  "backfill_latest_release_tag_if_missing lib s =
     try_bind (store_read (\<lambda>now app d. source_state_row d s)) (\<lambda>st.
     if sv_latest_release_tag st \<noteq> None then ok ()
     else
       try_bind (store_read (\<lambda>now app d. best_seen_identity lib d s)) (\<lambda>best.
       case best of
         None \<Rightarrow> ok ()
       | Some tag \<Rightarrow> store_write (\<lambda>now app d. ((), set_latest_release_tag now s tag d))))"

definition touch_call :: "string \<Rightarrow> unit attempt" where
  "touch_call s = store_write (\<lambda>now app d. ((), touch_polled now s d))"

definition poll_once_inner :: "'v::linorder poll_libs \<Rightarrow> 'v upstream \<Rightarrow> watch \<Rightarrow> bool \<Rightarrow> nat attempt" where
  "poll_once_inner lib net wt force_fetch =
    (let s = provider_id (wt_provider wt) in
     try_bind (if force_fetch then ok None else store_read (\<lambda>now app d. get_etag d s)) (\<lambda>stored_etag.
     case net 0 stored_etag of
       Inl err \<Rightarrow> do {
         _ \<leftarrow> touch_call s;
         count_metric (record_poll s Poll_error);
         count_metric (note_poll_error s (show_source_error err));
         State_Monad.return (Inl (Source_error (show_source_error err)))
       }
     | Inr out \<Rightarrow>
         try_bind (touch_call s) (\<lambda>_.
         if fo_not_modified out then
           try_bind (if force_fetch then ok False
                     else store_read (\<lambda>now app d. has_seen_missing_published_at d s)) (\<lambda>missing.
           try_bind (if missing then refresh_seen_metadata lib net wt else ok ()) (\<lambda>_.
           try_bind (backfill_latest_release_tag_if_missing (sl_semver (pb_source lib)) s) (\<lambda>_. do {
             count_metric (record_poll s Poll_not_modified);
             ok 0
           })))
         else
           try_bind (set_etag_call s (fo_etag out)) (\<lambda>_.
           try_bind (deliver_new_releases lib wt (fo_releases out)) (\<lambda>sent. do {
             count_metric (record_poll s (if 0 < sent then Poll_delivered else Poll_noop));
             ok sent
           })))))"

text \<open>The poll over the network: the fetches are those of the provider.\<close>

definition upstream_of :: "fetch_env \<Rightarrow> 'v poll_libs \<Rightarrow> (nat \<Rightarrow> http) \<Rightarrow> watch \<Rightarrow> 'v upstream" where
  "upstream_of e lib https wt n etag = provider_fetch e (pb_source lib) (https n) (wt_provider wt) etag"

definition poll_once :: "fetch_env \<Rightarrow> 'v::linorder poll_libs \<Rightarrow> (nat \<Rightarrow> http) \<Rightarrow> watch \<Rightarrow> bool \<Rightarrow> nat attempt" where
  "poll_once e lib https wt force_fetch = poll_once_inner lib (upstream_of e lib https wt) wt force_fetch"

section \<open>Contracts\<close>

lemma unversioned_fields [simp]:
  "rel_id (unversioned r) = rel_id r" "rel_published_at (unversioned r) = rel_published_at r"
  "rel_url (unversioned r) = rel_url r" "display_label (unversioned r) = display_label r"
  by (simp_all add: unversioned_def display_label_def)

context program_contract
begin

lemma enqueue_call_keeps:
  "op_ok (Op_enqueue ev i m) \<Longrightarrow> preserves J (enqueue_call ev i m)"
  unfolding enqueue_call_def by (rule write_keeps) simp_all

lemma record_seen_keeps: "op_ok (Op_record_seen s u) \<Longrightarrow> preserves J (record_seen_call s u)"
  unfolding record_seen_call_def by (rule write_keeps) simp_all

lemma claim_row_keeps: "op_ok (Op_claim_row i) \<Longrightarrow> preserves J (claim_row_call i)"
  unfolding claim_row_call_def by (rule write_keeps) simp_all

lemma touch_keeps: "op_ok (Op_touch_polled s) \<Longrightarrow> preserves J (touch_call s)"
  unfolding touch_call_def by (rule write_keeps) simp_all

lemma enrich_call_keeps: "op_ok (Op_enrich s (map unversioned rs)) \<Longrightarrow> preserves J (enrich_call s rs)"
  unfolding enrich_call_def by (rule write_keeps) simp_all

lemma set_etag_write:
  "op_ok (Op_set_etag s x) \<Longrightarrow> preserves J (store_write (\<lambda>now app d. ((), set_etag now s x d)))"
  by (rule write_keeps [where p = "Op_set_etag s x"]) simp_all

lemma set_latest_write:
  "op_ok (Op_set_latest_tag s t) \<Longrightarrow> preserves J (store_write (\<lambda>now app d. ((), set_latest_release_tag now s t d)))"
  by (rule write_keeps [where p = "Op_set_latest_tag s t"]) simp_all

lemma set_etag_keeps: "(\<And>x. op_ok (Op_set_etag s x)) \<Longrightarrow> preserves J (set_etag_call s etag)"
  unfolding set_etag_call_def by (intro preserves_option preserves_ok set_etag_write)

lemma set_latest_keeps: "(\<And>t. op_ok (Op_set_latest_tag s t)) \<Longrightarrow> preserves J (set_latest_call s rs)"
  unfolding set_latest_call_def by (intro preserves_option preserves_ok set_latest_write)

lemma record_batch_keeps:
  "op_ok (Op_record_batch s us) \<Longrightarrow> preserves J (store_write (\<lambda>now app d. ((), record_seen_batch now s us d)))"
  by (rule write_keeps) simp_all

end

text \<open>The contract of a poll: a delivery worker that may also call the store methods of the intake.\<close>

fun polling_op :: "store_op \<Rightarrow> bool" where
  "polling_op (Op_touch_polled _) \<longleftrightarrow> True"
| "polling_op (Op_set_latest_tag _ _) \<longleftrightarrow> True"
| "polling_op (Op_set_etag _ _) \<longleftrightarrow> True"
| "polling_op (Op_record_seen _ _) \<longleftrightarrow> True"
| "polling_op (Op_record_batch _ _) \<longleftrightarrow> True"
| "polling_op (Op_enrich _ _) \<longleftrightarrow> True"
| "polling_op (Op_enqueue _ _ _) \<longleftrightarrow> True"
| "polling_op (Op_claim_row _) \<longleftrightarrow> True"
| "polling_op _ \<longleftrightarrow> False"

locale polling_contract =
  worker_contract J act_ok op_ok for J act_ok op_ok +
  assumes polling_ok: "polling_op p \<Longrightarrow> op_ok p"
begin

lemmas polling_oks = polling_op.simps(1-8) [THEN iffD2, OF TrueI, THEN polling_ok]

lemma deliver_release_keeps: "preserves J (deliver_release lib wt r)"
  unfolding deliver_release_def Let_def
  by (intro keeps enqueue_call_keeps record_seen_keeps claim_row_keeps attempt_keeps polling_oks)

lemma deliver_each_keeps: "preserves J (deliver_each lib wt rs)"
  by (induction rs) (auto intro!: keeps deliver_release_keeps)

lemma select_keeps: "preserves J (select_for_delivery lib s rs x)"
  unfolding select_for_delivery_def
  by (intro keeps record_batch_keeps set_latest_keeps polling_oks)

lemma deliver_new_keeps: "preserves J (deliver_new_releases lib wt rs)"
  unfolding deliver_new_releases_def Let_def
  by (intro keeps set_latest_keeps enrich_call_keeps select_keeps deliver_each_keeps polling_oks)

lemma poll_keeps: "preserves J (poll_once_inner lib net wt force)"
  unfolding poll_once_inner_def Let_def refresh_seen_metadata_def backfill_latest_release_tag_if_missing_def
  by (intro keeps touch_keeps set_etag_keeps enrich_call_keeps deliver_new_keeps set_latest_write polling_oks)

end

sublocale world_contract \<subseteq> polling_contract J "\<lambda>_. True" "\<lambda>_. True"
  by unfold_locales simp

end
