(* ===== verification/Poll_Safety.thy ===== *)
theory Poll_Safety
  imports Polling
begin

text \<open>
  What a poll guarantees while other workers act on the same tables: the baseline of a new source
  notifies nobody, and a delivery round that succeeds has queued every release that was new.
\<close>

section \<open>What the store methods do to the catalogue and the queue\<close>

fun is_prune :: "store_op \<Rightarrow> bool" where
  "is_prune (Op_prune _ _ _ _) \<longleftrightarrow> True"
| "is_prune _ \<longleftrightarrow> False"

fun baselines :: "string \<Rightarrow> store_op \<Rightarrow> bool" where
  "baselines s (Op_mark_initialized s') \<longleftrightarrow> s' = s"
| "baselines s (Op_record_batch s' _) \<longleftrightarrow> s' = s"
| "baselines s _ \<longleftrightarrow> False"

fun records :: "string \<Rightarrow> store_op \<Rightarrow> string set" where
  "records s (Op_record_seen s' u) = (if s' = s then {su_identity u} else {})"
| "records s (Op_record_batch s' us) = (if s' = s then su_identity ` set us else {})"
| "records s (Op_complete _ s' u) = (if s' = s then {su_identity u} else {})"
| "records s _ = {}"

definition queued :: "string \<Rightarrow> string \<Rightarrow> db \<Rightarrow> bool" where
  "queued s i d \<longleftrightarrow> list_ex (\<lambda>r. outbox_key r = (s, i)) (db_outbox d)"

lemma queued_find: "queued s i d \<longleftrightarrow> find_outbox d s i \<noteq> None"
  by (auto simp: queued_def find_outbox_def list_ex_iff find_None_iff)

lemma initialized_op:
  assumes "\<not> baselines s p"
  shows "is_initialized (exec_op now app p d) s = is_initialized d s"
proof -
  consider (ensure) i sinks where "p = Op_ensure i sinks" | (prune) a b c e where "p = Op_prune a b c e"
    | (complete) i s' u where "p = Op_complete i s' u"
    | (other) "\<not> (\<exists>i sinks. p = Op_ensure i sinks)" "\<not> is_prune p" "\<not> (\<exists>i s' u. p = Op_complete i s' u)"
    by (cases p) auto
  then show ?thesis
  proof cases
    case ensure
    then show ?thesis
      by (auto simp: is_initialized_def find_source_def dest: ensure_sources split: sum.splits)
  next
    case prune
    then show ?thesis by (simp add: is_initialized_def find_source_def prune_sources)
  next
    case complete
    then show ?thesis by (simp add: complete_sources)
  next
    case other
    have same: "db_sources d' = db_sources d \<Longrightarrow> is_initialized d' s = is_initialized d s" for d'
      by (simp add: is_initialized_def find_source_def)
    show ?thesis using other assms
      by (cases p) (auto intro!: same simp: release_outbox_lease_def apply_delivery_backoff_def
          defer_delivery_def complete_sink_delivery_def fail_sink_delivery_def abandon_retryable_sinks_def Let_def)
  qed
qed

lemma seen_keys_same: "db_seen d' = db_seen d \<Longrightarrow> has_seen d' s i = has_seen d s i"
  by (simp add: has_seen_iff)

lemma enrich_has_seen [simp]: "has_seen (enrich_seen_metadata s rs d) s' i = has_seen d s' i"
proof -
  define f :: "seen_row \<Rightarrow> seen_row" where "f row = (if sr_source_id row = s then
            (case find (\<lambda>r. rel_id r = sr_identity row) (enrich_items rs) of
               None \<Rightarrow> row
             | Some r \<Rightarrow>
                 row\<lparr>sr_published_at := coalesce (sr_published_at row) (rel_published_at r),
                     sr_url := coalesce (sr_url row) (rel_url r),
                     sr_display_tag := coalesce (sr_display_tag row) (display_label r)\<rparr>)
          else row)" for row
  have "seen_key (f row) = seen_key row" for row
    by (simp add: f_def seen_key_def split: option.splits)
  then show ?thesis
    by (auto simp: has_seen_iff enrich_seen_metadata_def f_def [symmetric])
qed

lemma outbox_ops_seen [simp]:
  "db_seen (snd (try_enqueue_notification now app e ident m d)) = db_seen d"
  "db_seen (snd (claim_outbox_batch now n lease d)) = db_seen d"
  "db_seen (snd (claim_outbox_row now i lease d)) = db_seen d"
  "db_seen (update_outbox_id i f d) = db_seen d"
  "db_seen (snd (fail_notification i err d)) = db_seen d"
  "db_seen (update_sinks P g d) = db_seen d"
  "db_seen (snd (sync_outbox_sink_status i d)) = db_seen d"
  "db_seen (snd (requeue_dead_outbox d)) = db_seen d"
  "db_seen (snd (finalize_exhausted_outbox d)) = db_seen d"
  "db_seen (record_advisories now ec pk ve as d) = db_seen d"
  "db_seen (record_advisory_check now ec pk ve d) = db_seen d"
  "db_seen (snd (claim_webhook_delivery now h d)) = db_seen d"
  "db_seen (mark_initialized now s d) = db_seen d" "db_seen (touch_polled now s d) = db_seen d"
  "db_seen (set_latest_release_tag now s t d) = db_seen d" "db_seen (set_etag now s x d) = db_seen d"
  by (simp_all add: try_enqueue_notification_def claim_outbox_batch_def claim_outbox_row_def
      update_outbox_id_def fail_notification_def update_sinks_def sync_outbox_sink_status_def
      requeue_dead_outbox_def finalize_exhausted_outbox_def record_advisories_def
      record_advisory_check_def claim_webhook_delivery_def mark_initialized_def touch_polled_def
      set_latest_release_tag_def set_etag_def upsert_source_def Let_def split: option.splits)

lemma has_seen_fields [simp]:
  "has_seen (d\<lparr>db_outbox := x\<rparr>) s i = has_seen d s i"
  by (simp add: has_seen_iff)

lemma complete_has_seen:
  "has_seen (snd (complete_notification now j s' u d)) s i \<longleftrightarrow> has_seen d s i
     \<or> fst (complete_notification now j s' u d) \<and> (s, i) = (s', su_identity u)"
  by (auto simp: complete_notification_def has_seen_write)

lemma prune_has_seen: "has_seen (snd (prune now a b c e d)) s i \<Longrightarrow> has_seen d s i"
  by (auto simp: has_seen_iff prune_def prune_seen_def prune_webhooks_def prune_outbox_def
      prune_advisories_def delete_outbox_def Let_def split_def split: if_splits)

definition writes_seen :: "store_op \<Rightarrow> bool" where
  "writes_seen p \<longleftrightarrow> (case p of Op_record_seen _ _ \<Rightarrow> True | Op_record_batch _ _ \<Rightarrow> True
     | Op_complete _ _ _ \<Rightarrow> True | Op_enrich _ _ \<Rightarrow> True | Op_prune _ _ _ _ \<Rightarrow> True | _ \<Rightarrow> False)"

lemma seen_table_op: "\<not> writes_seen p \<Longrightarrow> db_seen (exec_op now app p d) = db_seen d"
  by (cases p) (auto simp: writes_seen_def ensure_sink_deliveries_def release_outbox_lease_def
      apply_delivery_backoff_def defer_delivery_def complete_sink_delivery_def fail_sink_delivery_def
      abandon_retryable_sinks_def Let_def split: sum.splits if_splits)

lemma has_seen_unwritten: "\<not> writes_seen p \<Longrightarrow> has_seen (exec_op now app p d) s i = has_seen d s i"
  by (simp add: has_seen_iff seen_table_op)

lemma seen_op:
  assumes "has_seen d s i" and "\<not> is_prune p"
  shows "has_seen (exec_op now app p d) s i"
proof (cases "writes_seen p")
  case True
  then show ?thesis using assms
    by (cases p) (simp_all add: writes_seen_def complete_has_seen has_seen_write has_seen_batch record_seen_def)
qed (use assms in \<open>simp add: has_seen_unwritten\<close>)

lemma unseen_op:
  assumes "\<not> has_seen d s i" and "i \<notin> records s p"
  shows "\<not> has_seen (exec_op now app p d) s i"
proof (cases "writes_seen p")
  case True
  show ?thesis
  proof (cases p)
    case (Op_prune a b c e)
    then show ?thesis using assms(1) prune_has_seen by simp blast
  next
    case (Op_complete j s' u)
    then show ?thesis using assms by (auto simp: complete_has_seen split: if_splits)
  next
    case (Op_record_batch s' us)
    then show ?thesis using assms by (auto simp: has_seen_batch split: if_splits)
  next
    case (Op_record_seen s' u)
    then show ?thesis using assms by (auto simp: has_seen_write record_seen_def split: if_splits)
  qed (use True assms in \<open>simp_all add: writes_seen_def\<close>)
qed (use assms in \<open>simp add: has_seen_unwritten\<close>)

lemma queued_same: "db_outbox d' = db_outbox d \<Longrightarrow> queued s i d \<Longrightarrow> queued s i d'"
  by (simp add: queued_def)

lemma queued_update:
  assumes "queued s i d" and "db_outbox d' = update_rows P f (db_outbox d)"
    and "\<And>r. outbox_key (f r) = outbox_key r"
  shows "queued s i d'"
  using assms(1) unfolding queued_def assms(2) by (rule open_update) (simp add: assms(3))

lemma enqueue_keeps_queued:
  assumes "queued s i d"
  shows "queued s i (snd (try_enqueue_notification now app e ident m d))"
proof (cases "find_outbox d (ev_source_id e) ident")
  case None
  then show ?thesis using assms by (simp add: queued_def try_enqueue_notification_def Let_def)
next
  case (Some r)
  have key: "outbox_key (reopen_row e m x) = outbox_key x" for x by (simp add: reopen_row_def outbox_key_def)
  have "db_outbox (snd (try_enqueue_notification now app e ident m d)) = db_outbox d
      \<or> (\<exists>P. db_outbox (snd (try_enqueue_notification now app e ident m d))
             = update_rows P (reopen_row e m) (db_outbox d))"
    using Some by (auto simp: try_enqueue_notification_def Let_def)
  then show ?thesis
    using queued_same [OF _ assms] queued_update [OF assms _ key] by blast
qed

lemma enqueue_queues: "queued (ev_source_id e) ident (snd (try_enqueue_notification now app e ident m d))"
proof (cases "find_outbox d (ev_source_id e) ident")
  case None
  then show ?thesis
    by (simp add: queued_def try_enqueue_notification_def Let_def new_outbox_row_def outbox_key_def)
next
  case (Some r)
  then have "queued (ev_source_id e) ident d" by (simp add: queued_find)
  then show ?thesis by (rule enqueue_keeps_queued)
qed

lemma queued_op:
  assumes "queued s i d" and "\<not> is_prune p"
  shows "queued s i (exec_op now app p d)"
proof (cases p)
  case (Op_ensure j sinks)
  then show ?thesis using assms
    by (auto simp: queued_def ensure_sink_deliveries_def Let_def split: sum.splits if_splits)
next
  case (Op_enqueue e ident m)
  then show ?thesis using assms(1) by (simp add: enqueue_keeps_queued)
next
  case (Op_claim_row j)
  then show ?thesis using assms(1) 
    by (auto simp: claim_outbox_row_def Let_def lock_until_def outbox_key_def intro: queued_same
        intro!: queued_update [OF assms(1)] split: option.splits)
qed (use assms in \<open>simp_all\<close>, 
   (auto simp: queued_def claim_outbox_batch_def lock_until_def Let_def
      release_outbox_lease_def apply_delivery_backoff_def defer_delivery_def update_outbox_id_def outbox_key_def
      fail_notification_def fail_row_def complete_sink_delivery_def fail_sink_delivery_def complete_notification_def
      abandon_retryable_sinks_def update_sinks_def sync_outbox_sink_status_def requeue_dead_outbox_def
      finalize_exhausted_outbox_def enrich_seen_metadata_def intro!: open_update split: option.splits if_splits))

text \<open>A row of a source enters the queue through an enqueue for that source alone.\<close>

fun enqueues :: "string \<Rightarrow> store_op \<Rightarrow> bool" where
  "enqueues s (Op_enqueue e _ _) \<longleftrightarrow> ev_source_id e = s"
| "enqueues s _ \<longleftrightarrow> False"

lemma queued_keys: "queued s i d \<longleftrightarrow> (s, i) \<in> outbox_key ` set (db_outbox d)"
  by (auto simp: queued_def list_ex_iff image_iff) metis

lemma outbox_keys_op:
  assumes "\<not> enqueues s p"
  shows "queued s i (exec_op now app p d) \<Longrightarrow> queued s i d"
proof (cases p)
  case (Op_enqueue e ident m)
  then show "queued s i (exec_op now app p d) \<Longrightarrow> queued s i d" using assms
    by (auto simp: queued_keys try_enqueue_notification_def new_outbox_row_def reopen_row_def outbox_key_def
        set_update_rows Let_def split: option.splits if_splits)
next
  case (Op_prune a b c e)
  then show "queued s i (exec_op now app p d) \<Longrightarrow> queued s i d"
    by (auto simp: queued_keys prune_def prune_seen_def prune_webhooks_def prune_outbox_def
        prune_advisories_def delete_outbox_def Let_def split_def split: if_splits)
next
  case (Op_ensure j sinks)
  then show "queued s i (exec_op now app p d) \<Longrightarrow> queued s i d"
    by (auto simp: queued_def ensure_sink_deliveries_def Let_def split: sum.splits if_splits)
qed (auto simp: queued_keys set_update_rows claim_outbox_batch_def claim_outbox_row_def lock_until_def Let_def
      release_outbox_lease_def apply_delivery_backoff_def defer_delivery_def update_outbox_id_def outbox_key_def
      fail_notification_def fail_row_def complete_sink_delivery_def fail_sink_delivery_def complete_notification_def
      abandon_retryable_sinks_def update_sinks_def sync_outbox_sink_status_def requeue_dead_outbox_def
      finalize_exhausted_outbox_def enrich_seen_metadata_def split: option.splits if_splits)

section \<open>The silent baseline\<close>

text \<open>
  The surroundings leave a source to its own poll when they neither establish its baseline, nor
  queue its releases, nor prune.
\<close>

definition not_for :: "string \<Rightarrow> store_op \<Rightarrow> bool" where
  "not_for s p \<longleftrightarrow> \<not> baselines s p \<and> \<not> enqueues s p \<and> \<not> is_prune p"

definition source_left :: "string \<Rightarrow> world \<Rightarrow> bool" where
  "source_left s w \<longleftrightarrow> (\<forall>n p. Store_action p \<in> set (es_actions (w_env w n)) \<longrightarrow> not_for s p)"

definition act_not_for :: "string \<Rightarrow> env_action \<Rightarrow> bool" where
  "act_not_for s x \<longleftrightarrow> (\<forall>p. x = Store_action p \<longrightarrow> not_for s p)"

definition notifications :: "world \<Rightarrow> sent_call list" where
  "notifications w = filter (\<lambda>c. sc_purpose c \<noteq> Ops_alert) (w_sent w)"

definition quiet_since :: "string \<Rightarrow> sent_call list \<Rightarrow> string set \<Rightarrow> world \<Rightarrow> bool" where
  "quiet_since s L Q w \<longleftrightarrow> source_left s w \<and> notifications w = L \<and> (\<forall>i. queued s i (w_db w) \<longrightarrow> i \<in> Q)"

lemma alerts_no_notifications [simp]: "filter (\<lambda>c. sc_purpose c \<noteq> Ops_alert) (log_calls Ops_alert ev send idxs) = []"
  by (simp add: log_calls_def filter_empty_conv)

lemma source_left_act [simp]: "source_left s (env_act x w) = source_left s w"
  by (simp add: source_left_def)

lemma queued_act: "act_not_for s x \<Longrightarrow> queued s i (w_db (env_act x w)) \<Longrightarrow> queued s i (w_db w)"
  by (cases x) (simp_all add: act_not_for_def not_for_def swap_runtime_def, metis outbox_keys_op)

lemma quiet_act: "act_not_for s x \<Longrightarrow> quiet_since s L Q w \<Longrightarrow> quiet_since s L Q (env_act x w)"
  using queued_act [of s x] by (auto simp: quiet_since_def notifications_def)

lemma initialized_act:
  "act_not_for s x \<Longrightarrow> is_initialized (w_db (env_act x w)) s = is_initialized (w_db w) s"
  by (cases x) (simp_all add: act_not_for_def not_for_def swap_runtime_def initialized_op)

lemma quiet_fields:
  "quiet_since s L Q (w\<lparr>w_heap := h\<rparr>) = quiet_since s L Q w"
  "quiet_since s L Q (pass_time ms w) = quiet_since s L Q w"
  "quiet_since s L Q (w\<lparr>w_ticks := n\<rparr>) = quiet_since s L Q w"
  "quiet_since s L Q (w\<lparr>w_metrics := mt\<rparr>) = quiet_since s L Q w"
  "quiet_since s L Q (w\<lparr>w_lookup := lk, w_queries := n\<rparr>) = quiet_since s L Q w"
  "quiet_since s L Q (w\<lparr>w_calls := n, w_sent := w_sent w @ log_calls Ops_alert ev send idxs\<rparr>) = quiet_since s L Q w"
  by (simp_all add: quiet_since_def source_left_def notifications_def pass_time_def)

lemma source_left_acts: "source_left s w \<Longrightarrow> x \<in> set (es_actions (w_env w n)) \<Longrightarrow> act_not_for s x"
  by (auto simp: source_left_def act_not_for_def)

lemma baselines_not_enqueue: "baselines s p \<Longrightarrow> \<not> enqueues s p"
  by (cases p) simp_all

lemma quiet_op:
  "not_for s p \<or> baselines s p \<Longrightarrow> quiet_since s L Q w \<Longrightarrow> quiet_since s L Q (w\<lparr>w_db := exec_op now app p (w_db w)\<rparr>)"
  using baselines_not_enqueue outbox_keys_op
  by (simp add: quiet_since_def source_left_def notifications_def not_for_def) blast

text \<open>Before the baseline, and after it.\<close>

interpretation before_baseline: program_contract
  "\<lambda>w. quiet_since s L Q w \<and> \<not> is_initialized (w_db w) s" "act_not_for s" "not_for s" for s L Q
proof (unfold_locales, goal_cases)
  case (1 w x n)
  then show ?case by (auto simp: quiet_since_def intro: source_left_acts)
next
  case (2 x w)
  then show ?case by (simp add: quiet_act initialized_act)
next
  case (3 p w now app)
  then show ?case using initialized_op [of s p] by (simp add: quiet_op not_for_def)
qed (simp_all add: quiet_fields, simp_all add: pass_time_def)

definition baselined :: "string \<Rightarrow> string set \<Rightarrow> db \<Rightarrow> bool" where
  "baselined s K d \<longleftrightarrow> is_initialized d s \<and> (\<forall>i \<in> K. has_seen d s i)"

lemma baselined_op: "\<not> is_prune p \<Longrightarrow> baselined s K d \<Longrightarrow> baselined s K (exec_op now app p d)"
  by (auto simp: baselined_def intro: seen_op exec_op_initialized)

lemma baselined_act: "act_not_for s x \<Longrightarrow> baselined s K (w_db w) \<Longrightarrow> baselined s K (w_db (env_act x w))"
  by (cases x) (auto simp: act_not_for_def not_for_def swap_runtime_def baselined_op)

interpretation after_baseline: program_contract
  "\<lambda>w. quiet_since s L Q w \<and> baselined s K (w_db w)" "act_not_for s" "not_for s" for s L Q K
proof (unfold_locales, goal_cases)
  case (1 w x n)
  then show ?case by (auto simp: quiet_since_def intro: source_left_acts)
next
  case (2 x w)
  then show ?case by (simp add: quiet_act baselined_act)
next
  case (3 p w now app)
  then show ?case by (simp add: quiet_op baselined_op not_for_def)
qed (simp_all add: quiet_fields, simp_all add: pass_time_def)

lemma not_for_polling [simp]:
  "not_for s (Op_set_latest_tag s' t)" "not_for s (Op_enrich s' rs)" "not_for s (Op_set_etag s' x)"
  by (simp_all add: not_for_def)

text \<open>The invariant holds on every exit, and on success so does the baseline, with nothing to deliver.\<close>

definition silent :: "string \<Rightarrow> sent_call list \<Rightarrow> string set \<Rightarrow> string set \<Rightarrow> 'a \<Rightarrow> pipeline_error + 'a \<Rightarrow> world \<Rightarrow> bool" where
  "silent s L Q K v r w \<longleftrightarrow> quiet_since s L Q w
     \<and> (case r of Inl _ \<Rightarrow> True | Inr x \<Rightarrow> x = v \<and> baselined s K (w_db w))"

lemma triple_keeping:
  assumes "preserves J m" and "\<And>e w. J w \<Longrightarrow> Q (Inl e) w" and "\<And>x. triple J (f x) Q"
  shows "triple J (try_bind m f) Q"
  by (rule triple_try [where R = "\<lambda>_. J"])
     (use assms in \<open>auto intro: triple_post [OF triple_keep] split: sum.splits\<close>)

lemma triple_store_write:
  assumes "program_contract J act_ok op_ok"
    and "\<And>e v now app. J v \<Longrightarrow> Q (Inl e) v \<and> Q (Inl e) (v\<lparr>w_db := snd (f now app (w_db v))\<rparr>)"
    and "\<And>v now app. J v \<Longrightarrow> R (fst (f now app (w_db v))) (v\<lparr>w_db := snd (f now app (w_db v))\<rparr>)"
    and "\<And>x. triple (R x) (g x) Q"
  shows "triple J (try_bind (store_write f) g) Q"
proof (rule triple_try)
  show "triple J (store_write f) (\<lambda>r w. case r of Inl e \<Rightarrow> Q (Inl e) w | Inr x \<Rightarrow> R x w)"
  proof (rule tripleI)
    fix w assume "J w"
    then have "J (snd (env_turn w))" by (rule program_contract.turn_keeps [OF assms(1)])
    then show "case fst (run_state (store_write f) w) of
        Inl e \<Rightarrow> Q (Inl e) (snd (run_state (store_write f) w))
      | Inr x \<Rightarrow> R x (snd (run_state (store_write f) w))"
      using assms(2,3) by (auto simp: store_write_def store_call_def Let_def split_def split: fault.splits)
  qed
qed (rule assms(4))

lemmas before_baseline_contract = before_baseline.program_contract_axioms

lemma batch_baselines:
  "quiet_since s L Q v \<Longrightarrow> quiet_since s L Q (v\<lparr>w_db := record_seen_batch now s us (w_db v)\<rparr>)"
  "baselined s (su_identity ` set us) (record_seen_batch now s us d)"
  using quiet_op [of s "Op_record_batch s us" L Q v now] by (auto simp: baselined_def has_seen_batch)

lemma upsert_identities: "su_identity ` set (map (upsert_of lib) rs) = rel_id ` set rs"
  by (simp add: upsert_of_def image_image seen_with_published_def seen_from_release_def)

lemma select_silent:
  "triple (\<lambda>w. quiet_since s L Q w \<and> \<not> is_initialized (w_db w) s)
     (select_for_delivery lib s rs x) (silent s L Q (rel_id ` set rs) [])"
  unfolding select_for_delivery_def
proof (rule triple_read [OF before_baseline_contract])
  fix b
  let ?J = "\<lambda>w. quiet_since s L Q w \<and> baselined s (rel_id ` set rs) (w_db w)"
  have last: "triple ?J (try_bind (set_latest_call s rs) (\<lambda>_. ok [])) (silent s L Q (rel_id ` set rs) [])"
    by (intro triple_keeping after_baseline.set_latest_keeps triple_ok) (simp_all add: silent_def)
  have base: "triple (\<lambda>w. quiet_since s L Q w \<and> \<not> is_initialized (w_db w) s)
      (try_bind (store_write (\<lambda>now app d. ((), record_seen_batch now s (map (upsert_of lib) rs) d)))
        (\<lambda>_. try_bind (set_latest_call s rs) (\<lambda>_. ok []))) (silent s L Q (rel_id ` set rs) [])"
    by (rule triple_store_write [OF before_baseline_contract, where R = "\<lambda>_. ?J"])
       (use last batch_baselines(1) batch_baselines(2) [of s "map (upsert_of lib) rs"] in
         \<open>simp_all add: silent_def upsert_identities del: set_map\<close>)
  show "triple (\<lambda>w. (quiet_since s L Q w \<and> \<not> is_initialized (w_db w) s)
        \<and> (\<exists>now app. b = is_initialized (w_db w) s))
     (if \<not> b then try_bind (store_write (\<lambda>now app d. ((), record_seen_batch now s (map (upsert_of lib) rs) d)))
        (\<lambda>_. try_bind (set_latest_call s rs) (\<lambda>_. ok []))
      else try_bind (store_read (\<lambda>now app d. load_seen_index d s)) (\<lambda>seen. ok (deliverable lib rs x seen)))
     (silent s L Q (rel_id ` set rs) [])"
  proof (rule triple_if)
    show "triple (\<lambda>w. (quiet_since s L Q w \<and> \<not> is_initialized (w_db w) s)
          \<and> (\<exists>now app. b = is_initialized (w_db w) s))
       (try_bind (store_write (\<lambda>now app d. ((), record_seen_batch now s (map (upsert_of lib) rs) d)))
          (\<lambda>_. try_bind (set_latest_call s rs) (\<lambda>_. ok []))) (silent s L Q (rel_id ` set rs) [])"
      by (rule triple_pre [OF base]) blast
  qed (auto intro!: tripleI)
qed (simp add: silent_def)

lemma deliver_new_silent:
  fixes lib :: "'v::linorder poll_libs" and rs :: "'v release list" and wt :: watch
  defines "s \<equiv> provider_id (wt_provider wt)" and "rs' \<equiv> accepted_releases lib wt rs"
  shows "triple (\<lambda>w. quiet_since s L Q w \<and> \<not> is_initialized (w_db w) s)
     (deliver_new_releases lib wt rs) (silent s L Q (rel_id ` set rs') 0)"
  unfolding deliver_new_releases_def Let_def s_def [symmetric] rs'_def [symmetric]
proof (rule triple_keeping, rule before_baseline.set_latest_keeps, simp, simp add: silent_def,
    rule triple_keeping, rule before_baseline.enrich_call_keeps, simp, simp add: silent_def)
  let ?R = "\<lambda>todo w. todo = [] \<and> silent s L Q (rel_id ` set rs') (0 :: nat) (Inr 0) w"
  have "triple (\<lambda>w. quiet_since s L Q w \<and> \<not> is_initialized (w_db w) s)
     (select_for_delivery lib s rs' (excludes_updated (wt_filter wt)))
     (\<lambda>r w. case r of Inl e \<Rightarrow> silent s L Q (rel_id ` set rs') 0 (Inl e) w | Inr todo \<Rightarrow> ?R todo w)"
    by (rule triple_post [OF select_silent]) (auto simp: silent_def split: sum.splits)
  then show "triple (\<lambda>w. quiet_since s L Q w \<and> \<not> is_initialized (w_db w) s)
     (try_bind (select_for_delivery lib s rs' (excludes_updated (wt_filter wt))) (\<lambda>todo.
        if todo = [] then ok 0
        else try_bind (deliver_each lib wt todo) (\<lambda>sent. do {
          (if 0 < sent then count_metric (record_notifications s sent) else State_Monad.return ());
          ok sent }))) (silent s L Q (rel_id ` set rs') 0)"
  proof (rule triple_try, goal_cases)
    case (1 todo)
    show ?case by (cases "todo = []") (auto intro: triple_ok tripleI)
  qed
qed


definition example_poll :: "nat poll_libs" where
  "example_poll =
    \<lparr>pb_source = example_libs, pb_regex = \<lparr>re_ok = (\<lambda>_. True), re_match = (\<lambda>_ _. True)\<rparr>,
     pb_cron = \<lparr>cron_ok = (\<lambda>_. False), cron_next = (\<lambda>_ t. Some (t + 1000))\<rparr>, pb_hash = (\<lambda>_ _. 7)\<rparr>"

definition example_watch :: watch where
  "example_watch =
    \<lparr>wt_provider = Package \<lparr>pk_id = ''cargo:serde'', pk_name = ''serde'', pk_registry = Cargo\<rparr>,
     wt_interval = 60, wt_jitter = 0, wt_poll_on_startup = True, wt_filter = filter_default,
     wt_routing_tag = None, wt_notify_schedule = None, wt_organization_id = None\<rparr>"

definition example_releases :: "nat release list" where
  "example_releases = [release_new example_semver ''1.0.0'']"

definition fresh_world :: world where
  "fresh_world = example_world\<lparr>w_db := empty_db\<rparr>"

lemma example_quiet: "w_env example_world = (\<lambda>_. quiet_step)"
  by (simp add: example_world_def)

lemma fresh_left: "source_left s fresh_world"
  by (simp add: source_left_def fresh_world_def example_quiet quiet_step_def)

lemmas run_polls = quiet_call store_read_def store_write_def split_def try_bind_def ok_def

lemma example_facts:
  "provider_id (wt_provider example_watch) = ''cargo:serde''"
  "accepted_releases example_poll example_watch example_releases = example_releases"
  "map_option rel_raw_tag (pick_latest example_releases) = Some ''1.0.0''"
  "is_initialized empty_db ''cargo:serde'' = False"
  by code_simp+

lemma example_pick: "\<exists>x. pick_latest example_releases = Some x"
  using example_facts(3) by auto

lemma example_baseline:
  "fst (run_state (deliver_new_releases example_poll example_watch example_releases) fresh_world) = Inr 0"
  using example_pick
  by (auto simp: run_polls deliver_new_releases_def Let_def set_latest_call_def enrich_call_def select_for_delivery_def
      example_quiet fresh_world_def example_facts)


section \<open>A successful round queues what is new\<close>

text \<open>
  The surroundings spare the releases \<open>K\<close> of a source when they record none of them as seen and
  do not prune.
\<close>

definition spares :: "string \<Rightarrow> string set \<Rightarrow> store_op \<Rightarrow> bool" where
  "spares s K p \<longleftrightarrow> \<not> is_prune p \<and> records s p \<inter> K = {}"

definition spared :: "string \<Rightarrow> string set \<Rightarrow> world \<Rightarrow> bool" where
  "spared s K w \<longleftrightarrow> (\<forall>n p. Store_action p \<in> set (es_actions (w_env w n)) \<longrightarrow> spares s K p)"

definition act_spares :: "string \<Rightarrow> string set \<Rightarrow> env_action \<Rightarrow> bool" where
  "act_spares s K x \<longleftrightarrow> (\<forall>p. x = Store_action p \<longrightarrow> spares s K p)"

definition all_new :: "string \<Rightarrow> string set \<Rightarrow> db \<Rightarrow> bool" where
  "all_new s K d \<longleftrightarrow> is_initialized d s \<and> (\<forall>i \<in> K. \<not> has_seen d s i)"

definition all_queued :: "string \<Rightarrow> string set \<Rightarrow> db \<Rightarrow> bool" where
  "all_queued s Q d \<longleftrightarrow> (\<forall>i \<in> Q. queued s i d)"

lemma all_new_op: "spares s K p \<Longrightarrow> all_new s K d \<Longrightarrow> all_new s K (exec_op now app p d)"
  unfolding all_new_def spares_def by (blast intro: exec_op_initialized dest: unseen_op)

lemma all_queued_op: "\<not> is_prune p \<Longrightarrow> all_queued s Q d \<Longrightarrow> all_queued s Q (exec_op now app p d)"
  unfolding all_queued_def by (blast intro: queued_op)

lemma spared_acts: "spared s K w \<Longrightarrow> x \<in> set (es_actions (w_env w n)) \<Longrightarrow> act_spares s K x"
  by (auto simp: spared_def act_spares_def)

lemma all_new_act: "act_spares s K x \<Longrightarrow> all_new s K (w_db w) \<Longrightarrow> all_new s K (w_db (env_act x w))"
  by (cases x) (simp_all add: act_spares_def swap_runtime_def all_new_op)

lemma all_queued_act: "act_spares s K x \<Longrightarrow> all_queued s Q (w_db w) \<Longrightarrow> all_queued s Q (w_db (env_act x w))"
  by (cases x) (simp_all add: act_spares_def spares_def swap_runtime_def all_queued_op)

interpretation arrival: program_contract
  "\<lambda>w. spared s K w \<and> all_new s K (w_db w)" "act_spares s K" "spares s K" for s K
proof (unfold_locales, goal_cases)
  case (1 w x n)
  then show ?case by (auto intro: spared_acts)
next
  case (2 x w)
  then show ?case by (simp add: all_new_act spared_def)
next
  case (3 p w now app)
  then show ?case by (simp add: all_new_op spared_def)
qed (auto simp: spared_def pass_time_def)

interpretation intake: worker_contract
  "\<lambda>w. spared s K w \<and> all_queued s Q (w_db w)" "act_spares s K" "\<lambda>p. \<not> is_prune p" for s K Q
proof (unfold_locales, goal_cases)
  case (1 w x n)
  then show ?case by (auto intro: spared_acts)
next
  case (2 x w)
  then show ?case by (simp add: all_queued_act spared_def)
next
  case (3 p w now app)
  then show ?case by (simp add: all_queued_op spared_def)
next
  case (11 p)
  then show ?case by (cases p) simp_all
qed (auto simp: spared_def pass_time_def)

lemmas intake_contract = intake.program_contract_axioms
lemmas arrival_contract = arrival.program_contract_axioms

lemma watch_event_source [simp]: "ev_source_id (watch_event lib wt r) = provider_id (wt_provider wt)"
  by (simp add: watch_event_def build_event_def Let_def)

lemma enqueue_all_queued:
  "all_queued s Q d \<Longrightarrow> ev_source_id e = s
     \<Longrightarrow> all_queued s (insert i Q) (snd (try_enqueue_notification now app e i m d))"
  using enqueue_queues enqueue_keeps_queued by (auto simp: all_queued_def)

definition intaken :: "string \<Rightarrow> string set \<Rightarrow> string set \<Rightarrow> pipeline_error + 'a \<Rightarrow> world \<Rightarrow> bool" where
  "intaken s K Q r w \<longleftrightarrow> (case r of Inl _ \<Rightarrow> True | Inr _ \<Rightarrow> spared s K w \<and> all_queued s Q (w_db w))"

lemma intaken_keep: "preserves (\<lambda>w. spared s K w \<and> all_queued s Q (w_db w)) m
    \<Longrightarrow> triple (\<lambda>w. spared s K w \<and> all_queued s Q (w_db w)) m (intaken s K Q)"
  by (rule triple_post [OF triple_keep]) (auto simp: intaken_def split: sum.splits)

lemma deliver_release_intake:
  assumes "s = provider_id (wt_provider wt)"
  shows "triple (\<lambda>w. spared s K w \<and> all_queued s Q (w_db w)) (deliver_release lib wt r)
    (intaken s K (insert (rel_id r) Q))"
  unfolding deliver_release_def Let_def enqueue_call_def assms [symmetric]
proof (rule triple_bind_keep, rule preserves_asks,
    rule triple_store_write [OF intake_contract, where R = "\<lambda>_ w. spared s K w \<and> all_queued s (insert (rel_id r) Q) (w_db w)"],
    goal_cases)
  case (1 x e v now app)
  then show ?case by (simp add: intaken_def)
next
  case (2 x v now app)
  then show ?case using enqueue_all_queued [of s Q "w_db v" "watch_event lib wt r"]
    by (simp add: spared_def assms)
next
  case (3 x enq)
  show ?case
    by (intro intaken_keep keeps intake.metric_keeps intake.record_seen_keeps intake.claim_row_keeps intake.attempt_keeps) simp_all
qed

lemma deliver_each_intake:
  assumes "s = provider_id (wt_provider wt)"
  shows "triple (\<lambda>w. spared s K w \<and> all_queued s Q (w_db w)) (deliver_each lib wt rs)
    (intaken s K (rel_id ` set rs \<union> Q))"
proof (induction rs arbitrary: Q)
  case Nil
  show ?case by (auto intro!: triple_ok simp: intaken_def)
next
  case (Cons r rs)
  let ?J = "\<lambda>Q w. spared s K w \<and> all_queued s Q (w_db w)"
  let ?Q = "rel_id ` set rs \<union> insert (rel_id r) Q"
  have one: "triple (?J Q) (deliver_release lib wt r)
      (\<lambda>x w. case x of Inl e \<Rightarrow> intaken s K ?Q (Inl e :: pipeline_error + nat) w | Inr _ \<Rightarrow> ?J (insert (rel_id r) Q) w)"
    by (rule triple_post [OF deliver_release_intake [OF assms]]) (auto simp: intaken_def split: sum.splits)
  have "triple (?J (insert (rel_id r) Q)) (deliver_each lib wt rs)
      (\<lambda>x w. case x of Inl e \<Rightarrow> intaken s K ?Q (Inl e :: pipeline_error + nat) w | Inr _ \<Rightarrow> ?J ?Q w)"
    by (rule triple_post [OF Cons.IH]) (auto simp: intaken_def split: sum.splits)
  then have "triple (?J (insert (rel_id r) Q)) (try_bind (deliver_each lib wt rs) (\<lambda>m. ok (n + m))) (intaken s K ?Q)" for n
    by (rule triple_try) (auto intro!: triple_ok simp: intaken_def)
  then have "triple (?J Q) (deliver_each lib wt (r # rs)) (intaken s K ?Q)"
    unfolding deliver_each.simps by (rule triple_try [OF one])
  then show ?case by simp
qed

lemma select_intake:
  assumes "K \<subseteq> rel_id ` set rs"
  shows "triple (\<lambda>w. spared s K w \<and> all_new s K (w_db w)) (select_for_delivery lib s rs x)
    (\<lambda>r w. case r of Inl _ \<Rightarrow> True | Inr todo \<Rightarrow> spared s K w \<and> K \<subseteq> rel_id ` set todo)"
  unfolding select_for_delivery_def
proof (rule triple_read [OF arrival_contract])
  fix b
  let ?Q = "\<lambda>r w. case r of Inl _ \<Rightarrow> True | Inr todo \<Rightarrow> spared s K w \<and> K \<subseteq> rel_id ` set todo"
  have new: "K \<subseteq> rel_id ` set (deliverable lib rs x (load_seen_index d s))" if "all_new s K d" for d
  proof
    fix i assume i: "i \<in> K"
    then obtain r where r: "r \<in> set rs" "i = rel_id r" using assms by auto
    have "load_seen_index d s i = None" using that i by (simp add: all_new_def load_seen_index_spec)
    then have "r \<in> set (deliverable lib rs x (load_seen_index d s))"
      using r by (simp add: deliverable_def should_deliver_cached_def)
    then show "i \<in> rel_id ` set (deliverable lib rs x (load_seen_index d s))" using r(2) by blast
  qed
  have read: "triple (\<lambda>w. spared s K w \<and> all_new s K (w_db w))
      (try_bind (store_read (\<lambda>now app d. load_seen_index d s)) (\<lambda>seen. ok (deliverable lib rs x seen))) ?Q"
    by (rule triple_read [OF arrival_contract]) (use new in \<open>auto intro!: triple_ok\<close>)
  show "triple (\<lambda>w. (spared s K w \<and> all_new s K (w_db w)) \<and> (\<exists>now app. b = is_initialized (w_db w) s))
     (if \<not> b then try_bind (store_write (\<lambda>now app d. ((), record_seen_batch now s (map (upsert_of lib) rs) d)))
        (\<lambda>_. try_bind (set_latest_call s rs) (\<lambda>_. ok []))
      else try_bind (store_read (\<lambda>now app d. load_seen_index d s)) (\<lambda>seen. ok (deliverable lib rs x seen))) ?Q"
  proof (rule triple_if)
    show "triple (\<lambda>w. (spared s K w \<and> all_new s K (w_db w)) \<and> (\<exists>now app. b = is_initialized (w_db w) s))
        (try_bind (store_read (\<lambda>now app d. load_seen_index d s)) (\<lambda>seen. ok (deliverable lib rs x seen))) ?Q"
      by (rule triple_pre [OF read]) blast
  qed (auto intro!: tripleI simp: all_new_def)
qed simp

lemma spares_polling [simp]: "spares s K (Op_set_latest_tag s' t)" "spares s K (Op_enrich s' rs)"
  by (simp_all add: spares_def)

lemma deliver_new_intake:
  fixes lib :: "'v::linorder poll_libs" and rs :: "'v release list" and wt :: watch
  defines "s \<equiv> provider_id (wt_provider wt)" and "rs' \<equiv> accepted_releases lib wt rs"
  assumes K: "K \<subseteq> rel_id ` set rs'"
  shows "triple (\<lambda>w. spared s K w \<and> all_new s K (w_db w)) (deliver_new_releases lib wt rs) (intaken s K K)"
  unfolding deliver_new_releases_def Let_def s_def [symmetric] rs'_def [symmetric]
proof (rule triple_keeping, rule arrival.set_latest_keeps, simp, simp add: intaken_def,
    rule triple_keeping, rule arrival.enrich_call_keeps, simp, simp add: intaken_def)
  let ?R = "\<lambda>todo w. spared s K w \<and> K \<subseteq> rel_id ` set todo"
  have select: "triple (\<lambda>w. spared s K w \<and> all_new s K (w_db w))
     (select_for_delivery lib s rs' (excludes_updated (wt_filter wt)))
     (\<lambda>r w. case r of Inl e \<Rightarrow> intaken s K K (Inl e) w | Inr todo \<Rightarrow> ?R todo w)"
    by (rule triple_post [OF select_intake [OF K]]) (auto simp: intaken_def split: sum.splits)
  let ?count = "\<lambda>sent. do { (if 0 < sent then count_metric (record_notifications s sent) else State_Monad.return ()); ok sent }"
  have deliver: "triple (?R todo) (try_bind (deliver_each lib wt todo) ?count) (intaken s K K)" for todo
  proof (rule triple_try [where R = "\<lambda>_ w. spared s K w \<and> all_queued s K (w_db w)"])
    show "triple (?R todo) (deliver_each lib wt todo) (\<lambda>r w. case r of Inl e \<Rightarrow> intaken s K K (Inl e) w
        | Inr _ \<Rightarrow> spared s K w \<and> all_queued s K (w_db w))"
      using tripleI [of "?R todo"] deliver_each_intake [OF s_def [THEN meta_eq_to_obj_eq], where Q = "{}" and K = K and rs = todo and lib = lib]
      unfolding triple_def
      by (fastforce simp: intaken_def all_queued_def split: sum.splits)
  qed (intro intaken_keep keeps intake.metric_keeps)
  show "triple (\<lambda>w. spared s K w \<and> all_new s K (w_db w))
     (try_bind (select_for_delivery lib s rs' (excludes_updated (wt_filter wt)))
       (\<lambda>todo. if todo = [] then ok 0 else try_bind (deliver_each lib wt todo) ?count)) (intaken s K K)"
  proof (rule triple_try [OF select], rule triple_if [OF _ deliver])
    show "triple (?R todo) (ok 0) (intaken s K K)" if "todo = []" for todo :: "'v release list"
      using that by (auto intro!: triple_ok simp: intaken_def all_queued_def)
  qed
qed

text \<open>
  C10: a successful round loses no release.  Take any set of identities that the filter accepts from
  the fetched list and that an initialized source has not seen.  While nobody else records them or
  prunes, whatever other workers do to the queue and whichever calls are slow or fail, a round that
  reports success has put a row for each of them into the notification queue.
\<close>

theorem new_releases_queued:
  fixes lib :: "'v::linorder poll_libs" and rs :: "'v release list"
  assumes "\<And>i. i \<in> K \<Longrightarrow> \<not> has_seen (w_db w) (provider_id (wt_provider wt)) i
      \<and> (\<exists>r \<in> set rs. rel_id r = i \<and> accepts (pb_regex lib) (wt_filter wt) r)"
    and "is_initialized (w_db w) (provider_id (wt_provider wt))"
    and "spared (provider_id (wt_provider wt)) K w"
    and "run_state (deliver_new_releases lib wt rs) w = (Inr n, w')" and "i \<in> K"
  shows "\<exists>r. find_outbox (w_db w') (provider_id (wt_provider wt)) i = Some r"
proof -
  have "K \<subseteq> rel_id ` set (accepted_releases lib wt rs)"
    using assms(1) by (force simp: accepted_releases_def)
  then have "intaken (provider_id (wt_provider wt)) K K (Inr n :: pipeline_error + nat) w'"
    by (rule tripleD [OF deliver_new_intake _ assms(4)]) (use assms(1-3) in \<open>auto simp: all_new_def\<close>)
  then show ?thesis using assms(5) queued_find by (auto simp: intaken_def all_queued_def)
qed

definition scheduled_watch :: watch where
  "scheduled_watch = example_watch\<lparr>wt_notify_schedule := Some \<lparr>ns_expr = ''daily'', ns_schedule = ''daily''\<rparr>\<rparr>"

definition known_db :: db where
  "known_db = mark_initialized 50 ''cargo:serde'' empty_db"

definition prepared_db :: db where
  "prepared_db = enrich_seen_metadata ''cargo:serde'' (map unversioned example_releases)
     (set_latest_release_tag 100 ''cargo:serde'' ''1.0.0'' known_db)"

lemma scheduled_facts:
  "provider_id (wt_provider scheduled_watch) = ''cargo:serde''"
  "accepted_releases example_poll scheduled_watch example_releases = example_releases"
  "deliverable example_poll example_releases (excludes_updated (wt_filter scheduled_watch))
     (load_seen_index prepared_db ''cargo:serde'') = example_releases"
  "fst (try_enqueue_notification 100 100 (watch_event example_poll scheduled_watch (hd example_releases))
     (rel_id (hd example_releases)) (meta_of example_poll scheduled_watch (hd example_releases) 100) prepared_db)
     = Some \<lparr>eo_id = 1, eo_deliver_now = False, eo_created = True\<rparr>"
  "is_initialized prepared_db ''cargo:serde''" "is_initialized known_db ''cargo:serde''"
  "\<not> has_seen known_db ''cargo:serde'' ''1.0.0''"
  by code_simp+

lemma example_hd: "example_releases = [hd example_releases]"
  by (simp add: example_releases_def)

lemma example_intake:
  "fst (run_state (deliver_new_releases example_poll scheduled_watch example_releases)
     (example_world\<lparr>w_db := known_db\<rparr>)) = Inr 0"
proof -
  obtain x where x: "pick_latest example_releases = Some x" "rel_raw_tag x = ''1.0.0''"
    using example_facts(3) by auto
  have clock: "w_now example_world = 100" "w_skew example_world = 0" by (simp_all add: example_world_def)
  have one: "deliver_each example_poll scheduled_watch example_releases
      = try_bind (deliver_release example_poll scheduled_watch (hd example_releases)) (\<lambda>n. try_bind (ok 0) (\<lambda>m. ok (n + m)))"
    by (subst example_hd) simp
  have ne: "example_releases \<noteq> []" by (simp add: example_releases_def)
  show ?thesis
    using x by (simp add: run_polls deliver_new_releases_def Let_def set_latest_call_def enrich_call_def
        select_for_delivery_def example_quiet scheduled_facts clock app_now_def prepared_db_def [symmetric]
        ne one deliver_release_def asks_world_def enqueue_call_def record_seen_call_def count_metric_def modify_def)
qed

theorem new_releases_queued_witness:
  "\<exists>w' r. run_state (deliver_new_releases example_poll scheduled_watch example_releases)
      (example_world\<lparr>w_db := known_db\<rparr>) = (Inr 0, w') \<and> find_outbox (w_db w') ''cargo:serde'' ''1.0.0'' = Some r"
proof -
  let ?w = "example_world\<lparr>w_db := known_db\<rparr>"
  let ?m = "deliver_new_releases example_poll scheduled_watch example_releases"
  have run: "run_state ?m ?w = (Inr 0, snd (run_state ?m ?w))"
    by (rule prod_eqI) (simp_all add: example_intake)
  have new: "\<not> has_seen (w_db ?w) (provider_id (wt_provider scheduled_watch)) i
      \<and> (\<exists>r \<in> set example_releases. rel_id r = i
           \<and> accepts (pb_regex example_poll) (wt_filter scheduled_watch) r)" if "i \<in> {''1.0.0''}" for i
  proof -
    have "list_ex (\<lambda>r. rel_id r = ''1.0.0'' \<and> accepts (pb_regex example_poll) (wt_filter scheduled_watch) r)
        example_releases" by code_simp
    then show ?thesis using that scheduled_facts by (simp add: list_ex_iff)
  qed
  have "\<exists>r. find_outbox (w_db (snd (run_state ?m ?w))) (provider_id (wt_provider scheduled_watch)) ''1.0.0'' = Some r"
    by (rule new_releases_queued [OF new _ _ run, of "{''1.0.0''}"])
      (simp_all add: scheduled_facts spared_def example_quiet quiet_step_def)
  then show ?thesis using run by (auto simp: scheduled_facts)
qed

section \<open>The entity tag is stored before the delivery\<close>

definition flaky_env :: "nat \<Rightarrow> env_step" where
  "flaky_env n = (if n = 7 then quiet_step\<lparr>es_fault := Lost_request\<rparr> else quiet_step)"

definition flaky_world :: world where
  "flaky_world = example_world\<lparr>w_db := known_db, w_env := flaky_env\<rparr>"

definition example_upstream :: "nat upstream" where
  "example_upstream n etag =
    (if etag = Some ''e1'' then Inr \<lparr>fo_releases = [], fo_etag = Some ''e1'', fo_not_modified = True\<rparr>
     else Inr \<lparr>fo_releases = example_releases, fo_etag = Some ''e1'', fo_not_modified = False\<rparr>)"

lemma flaky_call:
  assumes "w_env w = flaky_env"
  shows "run_state (store_call f) w
    = (if w_ticks w = 7 then (Inl (Store_error ''postgres''), w\<lparr>w_ticks := w_ticks w + 1\<rparr>)
       else (case f (w_now w) (app_now w) (w_db w) of (r, d) \<Rightarrow>
        (map_sum Store_error id r, w\<lparr>w_ticks := w_ticks w + 1, w_db := d\<rparr>)))"
  using assms
  by (simp add: store_call_def env_turn_def Let_def flaky_env_def quiet_step_def pass_time_def app_now_def
      split: prod.splits sum.splits)

definition tagged_db :: db where
  "tagged_db = enrich_seen_metadata ''cargo:serde'' (map unversioned example_releases)
     (set_latest_release_tag 100 ''cargo:serde'' ''1.0.0''
       (set_etag 100 ''cargo:serde'' (Some ''e1'') (touch_polled 100 ''cargo:serde'' known_db)))"

lemma tagged_facts:
  "deliverable example_poll example_releases (excludes_updated (wt_filter example_watch))
     (load_seen_index tagged_db ''cargo:serde'') = example_releases"
  "get_etag known_db ''cargo:serde'' = None"
  "get_etag tagged_db ''cargo:serde'' = Some ''e1''"
  "is_initialized tagged_db ''cargo:serde''"
  "has_seen_missing_published_at (touch_polled 100 ''cargo:serde'' tagged_db) ''cargo:serde'' = False"
  "sv_latest_release_tag (source_state_row (touch_polled 100 ''cargo:serde'' tagged_db) ''cargo:serde'') = Some ''1.0.0''"
  "find_outbox (touch_polled 100 ''cargo:serde'' tagged_db) ''cargo:serde'' ''1.0.0'' = None"
  "has_seen (touch_polled 100 ''cargo:serde'' tagged_db) ''cargo:serde'' ''1.0.0'' = False"
  by code_simp+

lemma flaky_start:
  "w_env flaky_world = flaky_env" "w_ticks flaky_world = 0" "w_now flaky_world = 100"
  "app_now flaky_world = 100" "w_db flaky_world = known_db" "w_skew flaky_world = 0"
  by (simp_all add: flaky_world_def example_world_def app_now_def)

lemma first_poll:
  "\<exists>mt. run_state (poll_once_inner example_poll example_upstream example_watch False) flaky_world
     = (Inl (Store_error ''postgres''), flaky_world\<lparr>w_ticks := 8, w_db := tagged_db, w_metrics := mt\<rparr>)"
proof -
  obtain x where x: "pick_latest example_releases = Some x" "rel_raw_tag x = ''1.0.0''"
    using example_facts(3) by auto
  have one: "deliver_each example_poll example_watch example_releases
      = try_bind (deliver_release example_poll example_watch (hd example_releases)) (\<lambda>n. try_bind (ok 0) (\<lambda>m. ok (n + m)))"
    by (subst example_hd) simp
  have ne: "example_releases \<noteq> []" by (simp add: example_releases_def)
  have same: "flaky_world = flaky_world\<lparr>w_metrics := w_metrics flaky_world\<rparr>" by simp
  show ?thesis
    using x by (intro exI [of _ "w_metrics flaky_world"])
      (simp add: run_polls flaky_call flaky_start poll_once_inner_def deliver_new_releases_def Let_def
        set_latest_call_def enrich_call_def set_etag_call_def touch_call_def tagged_facts example_facts
        select_for_delivery_def example_upstream_def app_now_def ne one deliver_release_def asks_world_def
        enqueue_call_def tagged_db_def [symmetric])
qed

lemma second_poll:
  "fst (run_state (poll_once_inner example_poll example_upstream example_watch False)
      (flaky_world\<lparr>w_ticks := 8, w_db := tagged_db, w_metrics := mt\<rparr>)) = Inr 0"
  "w_db (snd (run_state (poll_once_inner example_poll example_upstream example_watch False)
      (flaky_world\<lparr>w_ticks := 8, w_db := tagged_db, w_metrics := mt\<rparr>))) = touch_polled 100 ''cargo:serde'' tagged_db"
  by (simp_all add: run_polls flaky_call flaky_start poll_once_inner_def Let_def touch_call_def tagged_facts
      example_facts example_upstream_def app_now_def backfill_latest_release_tag_if_missing_def
      count_metric_def modify_def)

text \<open>
  the entity tag outlives a failed delivery.  The code stores the tag of a response before it
  delivers the releases of that response.  In this run the store loses the connection at the first
  enqueue: the poll reports the error, but the next poll presents the stored tag, is told that
  nothing changed, and reports success; the release is neither queued nor recorded as seen, and no
  later conditional poll fetches it until the upstream changes again.
\<close>

theorem etag_outlives_failed_delivery:
  "let poll = poll_once_inner example_poll example_upstream example_watch False;
       (r1, w1) = run_state poll flaky_world;
       (r2, w2) = run_state poll w1 in
   r1 = Inl (Store_error ''postgres'') \<and> r2 = Inr 0
   \<and> find_outbox (w_db w2) ''cargo:serde'' ''1.0.0'' = None
   \<and> \<not> has_seen (w_db w2) ''cargo:serde'' ''1.0.0''"
proof -
  obtain mt where first: "run_state (poll_once_inner example_poll example_upstream example_watch False) flaky_world
     = (Inl (Store_error ''postgres''), flaky_world\<lparr>w_ticks := 8, w_db := tagged_db, w_metrics := mt\<rparr>)"
    using first_poll by blast
  show ?thesis
    using second_poll [of mt] by (simp add: first Let_def split_def tagged_facts)
qed

end
