(* ===== verification/Users.thy ===== *)
theory Users
  imports Database Organizations
begin

text \<open>
  The table of local and single sign-on users: the SQL of
  \<^verbatim>\<open>src/src/store/postgres/users.rs\<close> with the constraints of \<^verbatim>\<open>postgres_schema.sql\<close>.  The
  function \<^verbatim>\<open>lower\<close> of the database depends on its locale and is a parameter.  An error value is
  the message of the store error.
\<close>

section \<open>The table\<close>

record app_user =
  au_id :: int
  au_username :: "string option"
  au_password_hash :: "string option"
  au_oidc_sub :: "string option"
  au_email :: "string option"
  au_display_name :: "string option"
  au_role :: string
  au_auth_source :: string
  au_created_at :: timestamp
  au_updated_at :: timestamp
  au_last_login_at :: "timestamp option"
  au_session_version :: int

record user_table =
  ut_rows :: "app_user list"
  ut_next_id :: int

record app_user_insert =
  ai_username :: "string option"
  ai_password_hash :: "string option"
  ai_oidc_sub :: "string option"
  ai_email :: "string option"
  ai_display_name :: "string option"
  ai_role :: string
  ai_auth_source :: string

record app_user_upsert_oidc =
  ao_oidc_sub :: string
  ao_email :: "string option"
  ao_display_name :: "string option"
  ao_role :: string
  ao_link_by_email :: bool
  ao_allow_create :: bool

type_synonym sql_lower = "string \<Rightarrow> string"

text \<open>The checks and the unique columns of the schema.\<close>

definition user_row_ok :: "app_user \<Rightarrow> bool" where
  "user_row_ok u \<longleftrightarrow> au_role u \<in> {''admin'', ''operator'', ''viewer''}
     \<and> (au_auth_source u = ''local'' \<and> au_username u \<noteq> None \<and> au_password_hash u \<noteq> None
        \<or> au_auth_source u = ''oidc'' \<and> au_oidc_sub u \<noteq> None)"

definition unique_column :: "(app_user \<Rightarrow> string option) \<Rightarrow> app_user list \<Rightarrow> bool" where
  "unique_column f rows \<longleftrightarrow>
     (\<forall>u \<in> set rows. \<forall>v \<in> set rows. f u \<noteq> None \<longrightarrow> f u = f v \<longrightarrow> au_id u = au_id v)"

definition users_ok :: "user_table \<Rightarrow> bool" where
  "users_ok t \<longleftrightarrow> distinct (map au_id (ut_rows t)) \<and> unique_column au_username (ut_rows t)
     \<and> unique_column au_oidc_sub (ut_rows t) \<and> list_all user_row_ok (ut_rows t)
     \<and> list_all (\<lambda>u. au_id u < ut_next_id t) (ut_rows t)"

section \<open>Queries\<close>

definition count_users :: "user_table \<Rightarrow> nat" where
  "count_users t = length (ut_rows t)"

definition list_users :: "user_table \<Rightarrow> app_user list" where
  "list_users t = sort_key (\<lambda>u. (au_created_at u, au_id u)) (ut_rows t)"

definition get_user_by_username :: "string \<Rightarrow> user_table \<Rightarrow> app_user option" where
  "get_user_by_username name t = find (\<lambda>u. au_username u = Some name) (ut_rows t)"

definition get_user_by_id :: "int \<Rightarrow> user_table \<Rightarrow> app_user option" where
  "get_user_by_id i t = find (\<lambda>u. au_id u = i) (ut_rows t)"

definition get_user_by_oidc_sub :: "string \<Rightarrow> user_table \<Rightarrow> app_user option" where
  "get_user_by_oidc_sub sub t = find (\<lambda>u. au_oidc_sub u = Some sub) (ut_rows t)"

definition linkable :: "sql_lower \<Rightarrow> string \<Rightarrow> app_user \<Rightarrow> bool" where
  "linkable lower email u \<longleftrightarrow> au_auth_source u = ''local'' \<and> au_oidc_sub u = None
     \<and> map_option lower (au_email u) = Some (lower email)"

definition find_linkable_local_user_by_email :: "sql_lower \<Rightarrow> string \<Rightarrow> user_table \<Rightarrow> app_user option" where
  "find_linkable_local_user_by_email lower email t =
    (if trim email = [] then None
     else find (\<lambda>_. True) (sort_key au_id (filter (linkable lower (trim email)) (ut_rows t))))"

section \<open>Statements\<close>

text \<open>An insert takes an id from the sequence, also when a constraint refuses the row.\<close>

definition new_user :: "timestamp \<Rightarrow> int \<Rightarrow> timestamp option \<Rightarrow> app_user_insert \<Rightarrow> app_user" where
  "new_user now i login u =
    \<lparr>au_id = i, au_username = ai_username u, au_password_hash = ai_password_hash u,
     au_oidc_sub = ai_oidc_sub u, au_email = ai_email u, au_display_name = ai_display_name u,
     au_role = ai_role u, au_auth_source = ai_auth_source u, au_created_at = now, au_updated_at = now,
     au_last_login_at = login, au_session_version = 0\<rparr>"

definition clashes :: "app_user \<Rightarrow> user_table \<Rightarrow> bool" where
  "clashes u t \<longleftrightarrow>
     (au_username u \<noteq> None \<and> list_ex (\<lambda>r. au_username r = au_username u) (ut_rows t))
     \<or> (au_oidc_sub u \<noteq> None \<and> list_ex (\<lambda>r. au_oidc_sub r = au_oidc_sub u) (ut_rows t))"

definition insert_row :: "app_user \<Rightarrow> user_table \<Rightarrow> (string + app_user) \<times> user_table" where
  "insert_row u t =
    (let t1 = t\<lparr>ut_next_id := ut_next_id t + 1\<rparr> in
     if \<not> user_row_ok u \<or> clashes u t then (Inl ''constraint'', t1)
     else (Inr u, t1\<lparr>ut_rows := ut_rows t @ [u]\<rparr>))"

definition insert_user :: "timestamp \<Rightarrow> app_user_insert \<Rightarrow> user_table \<Rightarrow> (string + app_user) \<times> user_table" where
  "insert_user now u t = insert_row (new_user now (ut_next_id t) None u) t"

text \<open>An update by id; it returns the row as it is afterwards.\<close>

definition update_user :: "(app_user \<Rightarrow> bool) \<Rightarrow> (app_user \<Rightarrow> app_user) \<Rightarrow> user_table \<Rightarrow> app_user option \<times> user_table" where
  "update_user P f t =
    (map_option f (find P (ut_rows t)), t\<lparr>ut_rows := map (\<lambda>u. if P u then f u else u) (ut_rows t)\<rparr>)"

definition quoted :: "string \<Rightarrow> string" where
  "quoted s = [byte 96] @ s @ [byte 96]"

definition no_local_user :: "int \<Rightarrow> string" where
  "no_local_user i = ''no local app_user with id '' @ show_int i"

definition local_with_id :: "int \<Rightarrow> app_user \<Rightarrow> bool" where
  "local_with_id i u \<longleftrightarrow> au_id u = i \<and> au_auth_source u = ''local''"

definition relink_email :: "sql_lower \<Rightarrow> timestamp \<Rightarrow> string option \<Rightarrow> app_user \<Rightarrow> app_user" where
  "relink_email lower now email u =
    u\<lparr>au_email := email,
      au_oidc_sub := (case email of
         None \<Rightarrow> None
       | Some e \<Rightarrow>
           if lower (case au_email u of None \<Rightarrow> [] | Some o' \<Rightarrow> o') \<noteq> lower e then None else au_oidc_sub u),
      au_updated_at := now\<rparr>"

definition set_user_oidc_link_email ::
  "sql_lower \<Rightarrow> timestamp \<Rightarrow> int \<Rightarrow> string option \<Rightarrow> user_table \<Rightarrow> (string + app_user) \<times> user_table" where
  "set_user_oidc_link_email lower now i email t =
    (let email = trimmed_nonempty email in
     case (case email of None \<Rightarrow> None
           | Some e \<Rightarrow> find (\<lambda>u. map_option lower (au_email u) = Some (lower e) \<and> au_id u \<noteq> i) (ut_rows t)) of
       Some owner \<Rightarrow> (Inl (''email '' @ quoted (case email of None \<Rightarrow> [] | Some e \<Rightarrow> e)
            @ '' is already used by user '' @ show_int (au_id owner)), t)
     | None \<Rightarrow>
         (case update_user (local_with_id i) (relink_email lower now email) t of
            (None, t') \<Rightarrow> (Inl (no_local_user i), t')
          | (Some u, t') \<Rightarrow> (Inr u, t')))"

definition other_owner :: "int \<Rightarrow> string option \<Rightarrow> user_table \<Rightarrow> app_user option" where
  "other_owner i sub t =
    (case sub of None \<Rightarrow> None
     | Some s \<Rightarrow> (case get_user_by_oidc_sub s t of
         None \<Rightarrow> None | Some owner \<Rightarrow> if au_id owner \<noteq> i then Some owner else None))"

definition link_user_oidc_sub ::
  "timestamp \<Rightarrow> int \<Rightarrow> string option \<Rightarrow> user_table \<Rightarrow> (string + app_user) \<times> user_table" where
  "link_user_oidc_sub now i sub t =
    (let sub = trimmed_nonempty sub in
     case other_owner i sub t of
       Some owner \<Rightarrow>
         (Inl (''oidc_sub '' @ quoted (case sub of None \<Rightarrow> [] | Some s \<Rightarrow> s)
            @ '' is already linked to user '' @ show_int (au_id owner)), t)
     | None \<Rightarrow>
         (case update_user (local_with_id i) (\<lambda>u. u\<lparr>au_oidc_sub := sub, au_updated_at := now\<rparr>) t of
            (None, t') \<Rightarrow> (Inl (no_local_user i @ '' (OIDC-only rows cannot be re-linked here)''), t')
          | (Some u, t') \<Rightarrow> (Inr u, t')))"

definition refresh_oidc :: "timestamp \<Rightarrow> app_user_upsert_oidc \<Rightarrow> app_user \<Rightarrow> app_user" where
  "refresh_oidc now o' u =
    u\<lparr>au_email := coalesce (ao_email o') (au_email u),
      au_display_name := coalesce (ao_display_name o') (au_display_name u),
      au_role := ao_role o', au_updated_at := now, au_last_login_at := Some now\<rparr>"

definition linkable_email :: "app_user_upsert_oidc \<Rightarrow> string option" where
  "linkable_email o' = (if ao_link_by_email o' then trimmed_nonempty (ao_email o') else None)"

definition upsert_oidc_user ::
  "sql_lower \<Rightarrow> timestamp \<Rightarrow> app_user_upsert_oidc \<Rightarrow> user_table \<Rightarrow> (string + app_user option) \<times> user_table" where
  "upsert_oidc_user lower now o' t =
    (case get_user_by_oidc_sub (ao_oidc_sub o') t of
       Some u \<Rightarrow>
         if user_row_ok (refresh_oidc now o' u) then
           (let (r, t') = update_user (\<lambda>r. au_id r = au_id u) (refresh_oidc now o') t in (Inr r, t'))
         else (Inl ''constraint'', t)
     | None \<Rightarrow>
         (case (case linkable_email o' of None \<Rightarrow> None
                | Some e \<Rightarrow> find_linkable_local_user_by_email lower e t) of
            Some u \<Rightarrow>
              (let f = (\<lambda>r. (refresh_oidc now o' r)\<lparr>au_oidc_sub := Some (ao_oidc_sub o')\<rparr>) in
               if user_row_ok (f u) then
                 (let (r, t') = update_user (\<lambda>r. au_id r = au_id u) f t in (Inr r, t'))
               else (Inl ''constraint'', t))
          | None \<Rightarrow>
              if \<not> ao_allow_create o' then (Inr None, t)
              else
                (case insert_row (new_user now (ut_next_id t) (Some now)
                    \<lparr>ai_username = None, ai_password_hash = None, ai_oidc_sub = Some (ao_oidc_sub o'),
                     ai_email = ao_email o', ai_display_name = ao_display_name o', ai_role = ao_role o',
                     ai_auth_source = ''oidc''\<rparr>) t of
                   (Inl e, t') \<Rightarrow> (Inl e, t')
                 | (Inr u, t') \<Rightarrow> (Inr (Some u), t'))))"

definition touch_user_last_login :: "timestamp \<Rightarrow> int \<Rightarrow> user_table \<Rightarrow> user_table" where
  "touch_user_last_login now i t =
    snd (update_user (\<lambda>u. au_id u = i) (\<lambda>u. u\<lparr>au_last_login_at := Some now, au_updated_at := now\<rparr>) t)"

definition bump_session_version :: "timestamp \<Rightarrow> int \<Rightarrow> user_table \<Rightarrow> (string + int) \<times> user_table" where
  "bump_session_version now i t =
    (case update_user (\<lambda>u. au_id u = i)
        (\<lambda>u. u\<lparr>au_session_version := au_session_version u + 1, au_updated_at := now\<rparr>) t of
       (None, t') \<Rightarrow> (Inl (''no app_user with id '' @ show_int i), t')
     | (Some u, t') \<Rightarrow> (Inr (au_session_version u), t'))"

section \<open>The statements of the table\<close>

text \<open>The writes of the program, as one transition; failed statements change at most the sequence.\<close>

datatype user_op =
    User_insert app_user_insert
  | User_link_email int "string option"
  | User_link_sub int "string option"
  | User_upsert_oidc app_user_upsert_oidc
  | User_touch int
  | User_bump int

fun exec_user :: "sql_lower \<Rightarrow> timestamp \<Rightarrow> user_op \<Rightarrow> user_table \<Rightarrow> user_table" where
  "exec_user lower now (User_insert u) t = snd (insert_user now u t)"
| "exec_user lower now (User_link_email i e) t = snd (set_user_oidc_link_email lower now i e t)"
| "exec_user lower now (User_link_sub i s) t = snd (link_user_oidc_sub now i s t)"
| "exec_user lower now (User_upsert_oidc o') t = snd (upsert_oidc_user lower now o' t)"
| "exec_user lower now (User_touch i) t = touch_user_last_login now i t"
| "exec_user lower now (User_bump i) t = snd (bump_session_version now i t)"

fun run_users :: "sql_lower \<Rightarrow> (timestamp \<times> user_op) list \<Rightarrow> user_table \<Rightarrow> user_table" where
  "run_users lower [] t = t"
| "run_users lower ((now, p) # ps) t = run_users lower ps (exec_user lower now p t)"

lemma update_user_simps [simp]:
  "fst (update_user P f t) = map_option f (find P (ut_rows t))"
  "ut_rows (snd (update_user P f t)) = map (\<lambda>u. if P u then f u else u) (ut_rows t)"
  "ut_next_id (snd (update_user P f t)) = ut_next_id t"
  by (simp_all add: update_user_def)

lemma unique_columnD:
  "unique_column f rows \<Longrightarrow> u \<in> set rows \<Longrightarrow> v \<in> set rows \<Longrightarrow> f u = Some x \<Longrightarrow> f v = Some x \<Longrightarrow> au_id u = au_id v"
  unfolding unique_column_def by (metis option.simps(3))

lemma unique_columnI:
  "(\<And>u v x. u \<in> set rows \<Longrightarrow> v \<in> set rows \<Longrightarrow> f u = Some x \<Longrightarrow> f v = Some x \<Longrightarrow> au_id u = au_id v)
     \<Longrightarrow> unique_column f rows"
  unfolding unique_column_def by (metis not_None_eq)

lemma unique_map:
  "(\<And>u. f (g u) = f u) \<Longrightarrow> (\<And>u. au_id (g u) = au_id u) \<Longrightarrow> unique_column f (map g rows) = unique_column f rows"
  by (simp add: unique_column_def)

lemma unique_snoc:
  assumes "unique_column f rows" and "f u \<noteq> None \<longrightarrow> \<not> list_ex (\<lambda>r. f r = f u) rows"
  shows "unique_column f (rows @ [u])"
proof (rule unique_columnI)
  fix v w x
  assume vw: "v \<in> set (rows @ [u])" "w \<in> set (rows @ [u])" "f v = Some x" "f w = Some x"
  have none: "r \<in> set rows \<Longrightarrow> f u = Some x \<Longrightarrow> f r \<noteq> Some x" for r
    using assms(2) by (auto simp: list_ex_iff)
  consider "v = u" "w = u" | "v = u" "w \<in> set rows" | "w = u" "v \<in> set rows" | "v \<in> set rows" "w \<in> set rows"
    using vw by auto
  then show "au_id v = au_id w"
  proof cases
    case 4
    then show ?thesis using unique_columnD [OF assms(1) _ _ vw(3,4)] by simp
  qed (use vw(3,4) none in auto)
qed

lemma users_okD:
  assumes "users_ok t"
  shows "distinct (map au_id (ut_rows t))" "unique_column au_username (ut_rows t)"
    "unique_column au_oidc_sub (ut_rows t)" "list_all user_row_ok (ut_rows t)"
    "list_all (\<lambda>u. au_id u < ut_next_id t) (ut_rows t)"
  using assms by (simp_all add: users_ok_def)

lemma update_user_ok:
  assumes ok: "users_ok t" and keep: "\<And>u. au_id (f u) = au_id u" "\<And>u. au_username (f u) = au_username u"
    and rows: "\<And>u. u \<in> set (ut_rows t) \<Longrightarrow> P u \<Longrightarrow> user_row_ok (f u)"
    and subs: "unique_column au_oidc_sub (map (\<lambda>u. if P u then f u else u) (ut_rows t))"
  shows "users_ok (snd (update_user P f t))"
proof -
  let ?g = "\<lambda>u. if P u then f u else u"
  have g: "au_id (?g u) = au_id u" "au_username (?g u) = au_username u" for u by (simp_all add: keep)
  have "map au_id (map ?g (ut_rows t)) = map au_id (ut_rows t)" by (simp add: keep(1) comp_def)
  moreover have "unique_column au_username (map ?g (ut_rows t))"
    using unique_map [of au_username ?g] g users_okD(2) [OF ok] by simp
  moreover have "list_all user_row_ok (map ?g (ut_rows t))"
    using users_okD(4) [OF ok] rows by (auto simp: list_all_iff)
  moreover have "list_all (\<lambda>u. au_id u < ut_next_id t) (map ?g (ut_rows t))"
    using users_okD(5) [OF ok] keep(1) by (auto simp: list_all_iff)
  ultimately show ?thesis using users_okD(1) [OF ok] subs by (simp add: users_ok_def del: map_map)
qed

text \<open>An update that binds no subject: each row keeps the one it has or loses it.\<close>

lemma update_user_same:
  assumes "users_ok t" and "\<And>u. au_id (f u) = au_id u" "\<And>u. au_username (f u) = au_username u"
    and sub: "\<And>u s. au_oidc_sub (f u) = Some s \<Longrightarrow> au_oidc_sub u = Some s"
    and "\<And>u. u \<in> set (ut_rows t) \<Longrightarrow> P u \<Longrightarrow> user_row_ok (f u)"
  shows "users_ok (snd (update_user P f t))"
proof (rule update_user_ok [OF assms(1-3)])
  let ?g = "\<lambda>u. if P u then f u else u"
  have g: "au_oidc_sub u = Some s" if "au_oidc_sub (?g u) = Some s" for u s
    using that sub [of u s] by (cases "P u") simp_all
  have id: "au_id (?g u) = au_id u" for u by (simp add: assms(2))
  show "unique_column au_oidc_sub (map ?g (ut_rows t))"
  proof (rule unique_columnI)
    fix x y s
    assume x: "x \<in> set (map ?g (ut_rows t))" "au_oidc_sub x = Some s"
      and y: "y \<in> set (map ?g (ut_rows t))" "au_oidc_sub y = Some s"
    obtain u v where u: "u \<in> set (ut_rows t)" "x = ?g u" and v: "v \<in> set (ut_rows t)" "y = ?g v"
      using x(1) y(1) by auto
    have "au_id u = au_id v"
      by (rule unique_columnD [OF users_okD(3) [OF assms(1)] u(1) v(1)]) (use g u(2) v(2) x(2) y(2) in blast)+
    then show "au_id x = au_id y" using u(2) v(2) id by metis
  qed
qed (use assms(5) in auto)

text \<open>Binding a subject that no other row has to rows that share one id.\<close>

lemma update_user_bind:
  assumes "users_ok t" and "\<And>u. au_id (f u) = au_id u" "\<And>u. au_username (f u) = au_username u"
    "\<And>u. au_oidc_sub (f u) = sub" "\<And>u. P u \<Longrightarrow> au_id u = i"
    "\<And>u. u \<in> set (ut_rows t) \<Longrightarrow> P u \<Longrightarrow> user_row_ok (f u)"
    and free: "\<And>v. v \<in> set (ut_rows t) \<Longrightarrow> sub \<noteq> None \<Longrightarrow> au_oidc_sub v = sub \<Longrightarrow> au_id v = i"
  shows "users_ok (snd (update_user P f t))"
proof (rule update_user_ok [OF assms(1-3)])
  show "unique_column au_oidc_sub (map (\<lambda>u. if P u then f u else u) (ut_rows t))"
  proof (rule unique_columnI)
    fix x y s
    assume x: "x \<in> set (map (\<lambda>u. if P u then f u else u) (ut_rows t))" "au_oidc_sub x = Some s"
      and y: "y \<in> set (map (\<lambda>u. if P u then f u else u) (ut_rows t))" "au_oidc_sub y = Some s"
    obtain u v where u: "u \<in> set (ut_rows t)" "x = (if P u then f u else u)"
      and v: "v \<in> set (ut_rows t)" "y = (if P v then f v else v)"
      using x(1) y(1) by auto
    have "au_id u = au_id v"
    proof (cases "P u"; cases "P v")
      assume "P u" "P v"
      then show ?thesis using assms(5) by simp
    next
      assume "P u" "\<not> P v"
      then show ?thesis using assms(4,5) free [OF v(1)] u v x(2) y(2) by auto
    next
      assume "\<not> P u" "P v"
      then show ?thesis using assms(4,5) free [OF u(1)] u v x(2) y(2) by auto
    next
      assume "\<not> P u" "\<not> P v"
      then show ?thesis using unique_columnD [OF users_okD(3) [OF assms(1)] u(1) v(1)] u v x(2) y(2) by simp
    qed
    then show "au_id x = au_id y" using u(2) v(2) assms(2) by auto
  qed
qed (use assms(6) in auto)

lemma insert_row_ok:
  assumes "users_ok t" and "au_id u = ut_next_id t"
  shows "users_ok (snd (insert_row u t))"
proof -
  have next_id: "users_ok (t\<lparr>ut_next_id := ut_next_id t + 1\<rparr>)"
    using assms(1) by (auto simp: users_ok_def list_all_iff)
  have new: "users_ok (t\<lparr>ut_next_id := ut_next_id t + 1, ut_rows := ut_rows t @ [u]\<rparr>)"
    if "user_row_ok u" "\<not> clashes u t"
  proof -
    have "unique_column au_username (ut_rows t @ [u])" "unique_column au_oidc_sub (ut_rows t @ [u])"
      using that(2) users_okD(2,3) [OF assms(1)] by (auto intro!: unique_snoc simp: clashes_def)
    moreover have "au_id u \<notin> au_id ` set (ut_rows t)"
      using users_okD(5) [OF assms(1)] assms(2) by (auto simp: list_all_iff)
    ultimately show ?thesis
      using users_okD(1,4,5) [OF assms(1)] that(1) assms(2) by (auto simp: users_ok_def list_all_iff)
  qed
  show ?thesis using next_id new by (simp add: insert_row_def Let_def)
qed

lemma user_row: "users_ok t \<Longrightarrow> u \<in> set (ut_rows t) \<Longrightarrow> user_row_ok u"
  by (simp add: users_ok_def list_all_iff)

lemma refresh_fields [simp]:
  "au_id (refresh_oidc now o' u) = au_id u" "au_username (refresh_oidc now o' u) = au_username u"
  "au_oidc_sub (refresh_oidc now o' u) = au_oidc_sub u"
  "au_session_version (refresh_oidc now o' u) = au_session_version u"
  by (simp_all add: refresh_oidc_def)

lemma found_sub: "get_user_by_oidc_sub s t = Some u \<Longrightarrow> u \<in> set (ut_rows t) \<and> au_oidc_sub u = Some s"
  unfolding get_user_by_oidc_sub_def by (drule find_Some_in) simp

lemma found_id: "get_user_by_id i t = Some u \<Longrightarrow> u \<in> set (ut_rows t) \<and> au_id u = i"
  unfolding get_user_by_id_def by (drule find_Some_in) simp

lemma found_linkable:
  "find_linkable_local_user_by_email lower e t = Some u
     \<Longrightarrow> u \<in> set (ut_rows t) \<and> linkable lower (trim e) u"
  unfolding find_linkable_local_user_by_email_def by (auto split: if_splits dest!: find_Some_in)

lemma same_id_row:
  "users_ok t \<Longrightarrow> u \<in> set (ut_rows t) \<Longrightarrow> v \<in> set (ut_rows t) \<Longrightarrow> au_id u = au_id v \<Longrightarrow> u = v"
  by (rule distinct_key_unique [OF users_okD(1)])

lemma insert_user_ok: "users_ok t \<Longrightarrow> users_ok (snd (insert_user now u t))"
  unfolding insert_user_def by (rule insert_row_ok) (simp_all add: new_user_def)

lemma link_email_ok:
  assumes "users_ok t"
  shows "users_ok (snd (set_user_oidc_link_email lower now i e t))"
proof -
  let ?f = "relink_email lower now (trimmed_nonempty e)"
  have "users_ok (snd (update_user (local_with_id i) ?f t))"
  proof (rule update_user_same [OF assms])
    fix u assume u: "u \<in> set (ut_rows t)" "local_with_id i u"
    then show "user_row_ok (?f u)" using user_row [OF assms u(1)]
      by (auto simp: user_row_ok_def relink_email_def local_with_id_def)
  qed (auto simp: relink_email_def split: option.splits if_splits)
  then show ?thesis using assms
    by (auto simp: set_user_oidc_link_email_def Let_def split: option.splits prod.splits)
qed

lemma link_sub_ok:
  assumes "users_ok t"
  shows "users_ok (snd (link_user_oidc_sub now i sub t))"
proof -
  let ?s = "trimmed_nonempty sub"
  let ?f = "\<lambda>u. u\<lparr>au_oidc_sub := ?s, au_updated_at := now\<rparr>"
  have "users_ok (snd (update_user (local_with_id i) ?f t))" if none: "other_owner i ?s t = None"
  proof (rule update_user_bind [OF assms, where sub = ?s and i = i])
    fix u assume u: "u \<in> set (ut_rows t)" "local_with_id i u"
    then show "user_row_ok (?f u)" using user_row [OF assms u(1)]
      by (auto simp: user_row_ok_def local_with_id_def)
  next
    fix v assume v: "v \<in> set (ut_rows t)" "?s \<noteq> None" "au_oidc_sub v = ?s"
    then obtain s where s: "?s = Some s" by auto
    show "au_id v = i"
    proof (cases "get_user_by_oidc_sub s t")
      case None
      then show ?thesis using find_None_all [OF _ v(1)] v(3) s unfolding get_user_by_oidc_sub_def by metis
    next
      case (Some w)
      then have w: "w \<in> set (ut_rows t)" "au_oidc_sub w = Some s"
        using found_sub by simp_all
      have "au_id v = au_id w" using unique_columnD [OF users_okD(3) [OF assms] v(1) w(1)] v(3) s w(2) by simp
      then show ?thesis using none s Some by (simp add: other_owner_def split: if_splits)
    qed
  qed (auto simp: local_with_id_def)
  then show ?thesis using assms
    by (auto simp: link_user_oidc_sub_def Let_def split: option.splits prod.splits)
qed

lemma no_sub: "get_user_by_oidc_sub s t = None \<Longrightarrow> u \<in> set (ut_rows t) \<Longrightarrow> au_oidc_sub u \<noteq> Some s"
  unfolding get_user_by_oidc_sub_def by (drule find_None_all) simp_all

lemma upsert_oidc_ok:
  assumes "users_ok t"
  shows "users_ok (snd (upsert_oidc_user lower now o' t))"
proof (cases "get_user_by_oidc_sub (ao_oidc_sub o') t")
  case (Some u)
  have "users_ok (snd (update_user (\<lambda>r. au_id r = au_id u) (refresh_oidc now o') t))"
    if "user_row_ok (refresh_oidc now o' u)"
    by (rule update_user_same [OF assms])
       (use that same_id_row [OF assms] found_sub [OF Some] in auto)
  then show ?thesis using assms Some by (simp add: upsert_oidc_user_def split_def)
next
  case None
  let ?hit = "case linkable_email o' of None \<Rightarrow> None | Some e \<Rightarrow> find_linkable_local_user_by_email lower e t"
  show ?thesis
  proof (cases ?hit)
    case hit: (Some u)
    then have u: "u \<in> set (ut_rows t)" using found_linkable by (auto split: option.splits)
    let ?f = "\<lambda>r. (refresh_oidc now o' r)\<lparr>au_oidc_sub := Some (ao_oidc_sub o')\<rparr>"
    have "users_ok (snd (update_user (\<lambda>r. au_id r = au_id u) ?f t))" if "user_row_ok (?f u)"
      by (rule update_user_bind [OF assms, where sub = "Some (ao_oidc_sub o')" and i = "au_id u"])
         (use that same_id_row [OF assms _ u] no_sub [OF None] in auto)
    then show ?thesis using assms None hit by (simp add: upsert_oidc_user_def Let_def split_def)
  next
    case miss: None
    have "users_ok (snd (insert_row (new_user now (ut_next_id t) (Some now) x) t))" for x
      by (rule insert_row_ok [OF assms]) (simp add: new_user_def)
    then show ?thesis using assms None miss
      by (auto simp: upsert_oidc_user_def split: prod.splits sum.splits) (metis snd_conv)+
  qed
qed

lemma touch_bump_ok:
  assumes "users_ok t"
  shows "users_ok (touch_user_last_login now i t)" "users_ok (snd (bump_session_version now i t))"
proof -
  have row: "user_row_ok u \<Longrightarrow> user_row_ok (u\<lparr>au_last_login_at := x, au_updated_at := now\<rparr>)"
    "user_row_ok u \<Longrightarrow> user_row_ok (u\<lparr>au_session_version := v, au_updated_at := now\<rparr>)" for u x v
    by (simp_all add: user_row_ok_def)
  show "users_ok (touch_user_last_login now i t)"
    unfolding touch_user_last_login_def
    by (rule update_user_same [OF assms]) (use row user_row [OF assms] in simp_all)
  have "users_ok (snd (update_user (\<lambda>u. au_id u = i)
      (\<lambda>u. u\<lparr>au_session_version := au_session_version u + 1, au_updated_at := now\<rparr>) t))"
    by (rule update_user_same [OF assms]) (use row user_row [OF assms] in simp_all)
  then show "users_ok (snd (bump_session_version now i t))"
    by (auto simp: bump_session_version_def split: prod.splits option.splits)
qed

lemma exec_user_ok: "users_ok t \<Longrightarrow> users_ok (exec_user lower now p t)"
  by (cases p) (simp_all add: insert_user_ok link_email_ok link_sub_ok upsert_oidc_ok touch_bump_ok)

lemma run_users_ok: "users_ok t \<Longrightarrow> users_ok (run_users lower ps t)"
  by (induction lower ps t rule: run_users.induct) (auto intro: exec_user_ok)

text \<open>
  C33: The account table stays well typed: whatever statements run on it, every row has one of the three
  roles and the columns that its source needs, ids are distinct and below the next one, and no two rows
  share a user name or an identity of the provider.
\<close>

theorem accounts_stay_well_typed:
  assumes "users_ok t"
  shows "(\<forall>u \<in> set (ut_rows (run_users lower ps t)). au_role u \<in> {''admin'', ''operator'', ''viewer''}
      \<and> au_id u < ut_next_id (run_users lower ps t)
      \<and> (au_auth_source u = ''local'' \<and> au_username u \<noteq> None \<and> au_password_hash u \<noteq> None
         \<or> au_auth_source u = ''oidc'' \<and> au_oidc_sub u \<noteq> None))
    \<and> distinct (map au_id (ut_rows (run_users lower ps t)))
    \<and> unique_column au_username (ut_rows (run_users lower ps t)) \<and> unique_column au_oidc_sub (ut_rows (run_users lower ps t))"
  using run_users_ok [OF assms] by (simp add: users_ok_def list_all_iff user_row_ok_def)

section \<open>Session epochs only grow\<close>

text \<open>Every statement maps the rows, keeping ids and not lowering epochs, and may append a row.\<close>

definition grows :: "user_table \<Rightarrow> user_table \<Rightarrow> bool" where
  "grows t t' \<longleftrightarrow> (\<exists>g fresh. ut_rows t' = map g (ut_rows t) @ fresh
     \<and> (\<forall>u. au_id (g u) = au_id u \<and> au_session_version u \<le> au_session_version (g u)))"

lemma grows_same: "ut_rows t' = ut_rows t @ fresh \<Longrightarrow> grows t t'"
  unfolding grows_def by (rule exI [of _ id]) auto

lemma grows_refl [simp]: "grows t t"
  by (rule grows_same [where fresh = "[]"]) simp

lemma grows_update:
  assumes "\<And>u. au_id (f u) = au_id u" and "\<And>u. au_session_version u \<le> au_session_version (f u)"
  shows "grows t (snd (update_user P f t))"
  unfolding grows_def by (rule exI [of _ "\<lambda>u. if P u then f u else u"]) (simp add: assms)

lemma grows_insert [simp]: "grows t (snd (insert_row u t))"
  by (cases "\<not> user_row_ok u \<or> clashes u t")
     (auto simp: insert_row_def Let_def intro: grows_same [where fresh = "[]"] grows_same [where fresh = "[u]"])

lemma grows_upsert: "grows t (snd (upsert_oidc_user lower now o' t))"
proof -
  have upd: "grows t (snd (update_user P (refresh_oidc now o') t))"
    "grows t (snd (update_user P (\<lambda>r. (refresh_oidc now o' r)\<lparr>au_oidc_sub := s\<rparr>) t))" for P s
    by (rule grows_update; simp)+
  have ins: "grows t (snd (case insert_row x t of (Inl e, t') \<Rightarrow> (Inl e, t') | (Inr u, t') \<Rightarrow> (Inr (Some u), t')))" for x
    using grows_insert [of t x] by (cases "insert_row x t") (auto split: sum.splits)
  show ?thesis
    using upd ins by (simp add: upsert_oidc_user_def Let_def split_def split: option.splits)
qed

lemma exec_user_grows: "grows t (exec_user lower now p t)"
proof (cases p)
  case (User_insert u)
  then show ?thesis by (simp add: insert_user_def)
next
  case (User_link_email i e)
  have "grows t (snd (update_user P (relink_email lower now x) t))" for P x
    by (rule grows_update) (simp_all add: relink_email_def)
  then show ?thesis using User_link_email
    by (auto simp: set_user_oidc_link_email_def Let_def split: option.splits prod.splits) (metis snd_conv)+
next
  case (User_link_sub i s)
  have "grows t (snd (update_user P (\<lambda>u. u\<lparr>au_oidc_sub := x, au_updated_at := now\<rparr>) t))" for P x
    by (rule grows_update) simp_all
  then show ?thesis using User_link_sub
    by (auto simp: link_user_oidc_sub_def Let_def split: option.splits prod.splits) (metis snd_conv)+
next
  case (User_upsert_oidc o')
  then show ?thesis by (simp add: grows_upsert)
next
  case (User_touch i)
  then show ?thesis by (simp add: touch_user_last_login_def grows_update)
next
  case (User_bump i)
  have "grows t (snd (update_user (\<lambda>u. au_id u = i)
      (\<lambda>u. u\<lparr>au_session_version := au_session_version u + 1, au_updated_at := now\<rparr>) t))"
    by (rule grows_update) simp_all
  then show ?thesis using User_bump by (auto simp: bump_session_version_def split: prod.splits option.splits)
qed

lemma find_snoc: "find P xs = Some x \<Longrightarrow> find P (xs @ ys) = Some x"
  by (induction xs) auto

lemma find_map_id:
  "(\<And>u. au_id (g u) = au_id u) \<Longrightarrow> find (\<lambda>u. au_id u = i) (map g rows) = map_option g (find (\<lambda>u. au_id u = i) rows)"
  by (induction rows) simp_all

lemma grows_version:
  assumes "grows t t'" and "get_user_by_id i t = Some u"
  shows "\<exists>v. get_user_by_id i t' = Some v \<and> au_session_version u \<le> au_session_version v"
proof -
  obtain g fresh where g: "ut_rows t' = map g (ut_rows t) @ fresh"
    "\<And>u. au_id (g u) = au_id u" "\<And>u. au_session_version u \<le> au_session_version (g u)"
    using assms(1) by (auto simp: grows_def)
  have "find (\<lambda>u. au_id u = i) (map g (ut_rows t)) = Some (g u)"
    using assms(2) find_map_id [of g i] g(2) by (simp add: get_user_by_id_def)
  then have "get_user_by_id i t' = Some (g u)"
    using g(1) by (simp add: get_user_by_id_def find_snoc)
  then show ?thesis using g(3) by blast
qed

lemma run_users_version:
  "get_user_by_id i t = Some u
     \<Longrightarrow> \<exists>v. get_user_by_id i (run_users lower ps t) = Some v \<and> au_session_version u \<le> au_session_version v"
proof (induction lower ps t arbitrary: u rule: run_users.induct)
  case (2 lower now p ps t)
  obtain v where "get_user_by_id i (exec_user lower now p t) = Some v" "au_session_version u \<le> au_session_version v"
    using grows_version [OF exec_user_grows 2(2)] by blast
  then show ?case using 2(1) [of v] by force
qed simp

lemma bump_version:
  assumes "bump_session_version now i t = (Inr n, t')"
  shows "\<exists>u v. get_user_by_id i t = Some u \<and> n = au_session_version u + 1
    \<and> get_user_by_id i t' = Some v \<and> au_session_version v = n"
proof -
  let ?f = "\<lambda>u. u\<lparr>au_session_version := au_session_version u + 1, au_updated_at := now\<rparr>"
  let ?g = "\<lambda>u. if au_id u = i then ?f u else u"
  obtain u where u: "find (\<lambda>u. au_id u = i) (ut_rows t) = Some u" "n = au_session_version u + 1"
      "t' = snd (update_user (\<lambda>u. au_id u = i) ?f t)"
    using assms by (auto simp: bump_session_version_def update_user_def split: option.splits)
  have "find (\<lambda>u. au_id u = i) (map ?g (ut_rows t)) = map_option ?g (find (\<lambda>u. au_id u = i) (ut_rows t))"
    by (rule find_map_id) simp
  moreover have "au_id u = i" using u(1) by (auto dest: find_Some_in)
  ultimately have "get_user_by_id i t' = Some (?f u)"
    using u(1,3) by (simp add: get_user_by_id_def)
  then show ?thesis using u(1,2) by (simp add: get_user_by_id_def)
qed

section \<open>Single sign-on\<close>

lemma find_id_row:
  assumes "users_ok t" and "u \<in> set (ut_rows t)"
  shows "find (\<lambda>r. au_id r = au_id u) (ut_rows t) = Some u"
proof (cases "find (\<lambda>r. au_id r = au_id u) (ut_rows t)")
  case None
  then show ?thesis using find_None_all [OF None assms(2)] by simp
next
  case (Some r)
  then have "r \<in> set (ut_rows t)" "au_id r = au_id u" using find_Some_in [OF Some] by simp_all
  then show ?thesis using same_id_row [OF assms(1) _ assms(2)] Some by simp
qed

lemma update_id_spec:
  assumes "users_ok t" and "u \<in> set (ut_rows t)"
    and "update_user (\<lambda>r. au_id r = au_id u) f t = (r, t')"
  shows "r = Some (f u)" "f u \<in> set (ut_rows t')"
    "v \<in> set (ut_rows t) \<Longrightarrow> au_id v \<noteq> au_id u \<Longrightarrow> v \<in> set (ut_rows t')"
proof -
  have t': "ut_rows t' = map (\<lambda>r. if au_id r = au_id u then f r else r) (ut_rows t)"
    and r: "r = map_option f (find (\<lambda>r. au_id r = au_id u) (ut_rows t))"
    using assms(3) by (auto simp: update_user_def)
  show "r = Some (f u)" using r find_id_row [OF assms(1,2)] by simp
  show "f u \<in> set (ut_rows t')" using t' assms(2) by force
  show "v \<in> set (ut_rows t) \<Longrightarrow> au_id v \<noteq> au_id u \<Longrightarrow> v \<in> set (ut_rows t')" using t' by force
qed

text \<open>What a sign-in may do to the row it returns.\<close>

definition binding_ok :: "sql_lower \<Rightarrow> app_user_upsert_oidc \<Rightarrow> user_table \<Rightarrow> app_user \<Rightarrow> bool" where
  "binding_ok lower o' t u \<longleftrightarrow>
     (\<forall>v \<in> set (ut_rows t). au_id v = au_id u \<longrightarrow>
        au_username u = au_username v \<and> au_password_hash u = au_password_hash v
        \<and> au_auth_source u = au_auth_source v \<and> au_session_version u = au_session_version v
        \<and> (au_oidc_sub v = Some (ao_oidc_sub o')
           \<or> ao_link_by_email o' \<and> (\<exists>e. ao_email o' = Some e \<and> trim e \<noteq> [] \<and> linkable lower (trim e) v)))
     \<and> ((\<forall>v \<in> set (ut_rows t). au_id v \<noteq> au_id u) \<longrightarrow> ao_allow_create o' \<and> au_auth_source u = ''oidc''
          \<and> au_password_hash u = None)"

lemma trimmed_nonempty_Some: "trimmed_nonempty v = Some s \<longleftrightarrow> (\<exists>e. v = Some e \<and> s = trim e \<and> trim e \<noteq> [])"
  by (auto simp: trimmed_nonempty_def split: option.splits)

lemma linkable_hit:
  assumes "(case linkable_email o' of None \<Rightarrow> None | Some e \<Rightarrow> find_linkable_local_user_by_email lower e t) = Some u"
  shows "u \<in> set (ut_rows t)" "ao_link_by_email o'" "\<exists>e. ao_email o' = Some e \<and> trim e \<noteq> [] \<and> linkable lower (trim e) u"
proof -
  obtain e where e: "linkable_email o' = Some e" "find_linkable_local_user_by_email lower e t = Some u"
    using assms by (auto split: option.splits)
  then show "u \<in> set (ut_rows t)" "ao_link_by_email o'"
    using found_linkable [OF e(2)] by (simp_all add: linkable_email_def split: if_splits)
  obtain e' where e': "ao_email o' = Some e'" "e = trim e'" "trim e' \<noteq> []"
    using e(1) by (auto simp: linkable_email_def trimmed_nonempty_Some split: if_splits)
  have "trim e = e" using e'(2) by simp
  then show "\<exists>e. ao_email o' = Some e \<and> trim e \<noteq> [] \<and> linkable lower (trim e) u"
    using e' found_linkable [OF e(2)] by auto
qed

lemma upsert_by_update:
  assumes ok: "users_ok t" and u: "u \<in> set (ut_rows t)"
    and upd: "update_user (\<lambda>r. au_id r = au_id u) f t = (r, t')"
    and f: "au_id (f u) = au_id u" "au_username (f u) = au_username u" "au_password_hash (f u) = au_password_hash u"
      "au_auth_source (f u) = au_auth_source u" "au_session_version (f u) = au_session_version u"
    and why: "au_oidc_sub u = Some (ao_oidc_sub o')
      \<or> ao_link_by_email o' \<and> (\<exists>e. ao_email o' = Some e \<and> trim e \<noteq> [] \<and> linkable lower (trim e) u)"
  shows "r = Some (f u) \<and> f u \<in> set (ut_rows t') \<and> binding_ok lower o' t (f u)
    \<and> (\<forall>v \<in> set (ut_rows t). au_id v \<noteq> au_id (f u) \<longrightarrow> v \<in> set (ut_rows t'))"
proof -
  have same: "v \<in> set (ut_rows t) \<Longrightarrow> au_id v = au_id u \<Longrightarrow> v = u" for v
    by (rule same_id_row [OF ok _ u])
  have "binding_ok lower o' t (f u)"
    unfolding binding_ok_def using same u f why by metis
  then show ?thesis using update_id_spec [OF ok u upd] f(1) by simp
qed

lemma upsert_by_insert:
  assumes ok: "users_ok t" and ins: "insert_row u t = (Inr u', t')"
    and u: "au_id u = ut_next_id t" "au_auth_source u = ''oidc''" "au_password_hash u = None"
    and "ao_allow_create o'"
  shows "u' = u \<and> u \<in> set (ut_rows t') \<and> binding_ok lower o' t u
    \<and> (\<forall>v \<in> set (ut_rows t). au_id v \<noteq> au_id u \<longrightarrow> v \<in> set (ut_rows t'))"
proof -
  have "u' = u" "ut_rows t' = ut_rows t @ [u]" using ins by (auto simp: insert_row_def Let_def split: if_splits)
  moreover have "\<forall>v \<in> set (ut_rows t). au_id v \<noteq> au_id u"
    using users_okD(5) [OF ok] u(1) by (auto simp: list_all_iff)
  ultimately show ?thesis using assms(3-) by (simp add: binding_ok_def)
qed

lemma upsert_cases:
  assumes ok: "users_ok t" and run: "upsert_oidc_user lower now o' t = (Inr r, t')"
  shows "(case r of None \<Rightarrow> t' = t \<and> \<not> ao_allow_create o'
     | Some u \<Rightarrow> u \<in> set (ut_rows t') \<and> au_oidc_sub u = Some (ao_oidc_sub o') \<and> au_role u = ao_role o'
         \<and> binding_ok lower o' t u \<and> (\<forall>v \<in> set (ut_rows t). au_id v \<noteq> au_id u \<longrightarrow> v \<in> set (ut_rows t')))"
proof (cases "get_user_by_oidc_sub (ao_oidc_sub o') t")
  case (Some u)
  have upd: "update_user (\<lambda>r. au_id r = au_id u) (refresh_oidc now o') t = (r, t')"
    using run Some by (auto simp: upsert_oidc_user_def Let_def split: if_splits prod.splits)
  have u: "u \<in> set (ut_rows t)" "au_oidc_sub u = Some (ao_oidc_sub o')" using found_sub [OF Some] by simp_all
  show ?thesis
    using upsert_by_update [OF ok u(1) upd, of o' lower] u(2)
    by (simp add: refresh_oidc_def)
next
  case None
  let ?hit = "case linkable_email o' of None \<Rightarrow> None | Some e \<Rightarrow> find_linkable_local_user_by_email lower e t"
  show ?thesis
  proof (cases ?hit)
    case hit: (Some u)
    let ?f = "\<lambda>r. (refresh_oidc now o' r)\<lparr>au_oidc_sub := Some (ao_oidc_sub o')\<rparr>"
    have upd: "update_user (\<lambda>r. au_id r = au_id u) ?f t = (r, t')"
      using run None hit by (auto simp: upsert_oidc_user_def Let_def split: if_splits prod.splits)
    show ?thesis
      using upsert_by_update [OF ok linkable_hit(1) [OF hit] upd, of o' lower] linkable_hit(2,3) [OF hit]
      by (simp add: refresh_oidc_def)
  next
    case miss: None
    let ?u = "new_user now (ut_next_id t) (Some now)
      \<lparr>ai_username = None, ai_password_hash = None, ai_oidc_sub = Some (ao_oidc_sub o'),
       ai_email = ao_email o', ai_display_name = ao_display_name o', ai_role = ao_role o',
       ai_auth_source = ''oidc''\<rparr>"
    show ?thesis
    proof (cases "ao_allow_create o'")
      case False
      then show ?thesis using run None miss by (simp add: upsert_oidc_user_def)
    next
      case True
      then obtain u' where ins: "insert_row ?u t = (Inr u', t')" "r = Some u'"
        using run None miss by (auto simp: upsert_oidc_user_def split: prod.splits sum.splits)
      show ?thesis
        using upsert_by_insert [OF ok ins(1) _ _ _ True] ins(2) by (simp add: new_user_def)
    qed
  qed
qed

text \<open>
  C32: single sign-on takes over no account.  A sign-in that succeeds returns a row bound to the
  subject of the token and leaves every other row alone.  If the row existed before, it was bound to
  this very subject, or the identity provider had verified the address, and the row was a local
  account without a subject and with that address; its password, name and session epoch stay.  If
  the row is new, provisioning was allowed and it has no password.  A sign-in that finds nothing and
  may not provision changes nothing, and the constraints of the table hold afterwards.
\<close>

theorem sso_binds_only_own:
  assumes "users_ok t" and "upsert_oidc_user lower now o' t = (Inr r, t')"
  shows "users_ok t' \<and> (case r of None \<Rightarrow> t' = t \<and> \<not> ao_allow_create o'
     | Some u \<Rightarrow> u \<in> set (ut_rows t') \<and> au_oidc_sub u = Some (ao_oidc_sub o')
         \<and> (\<forall>v \<in> set (ut_rows t). au_id v \<noteq> au_id u \<longrightarrow> v \<in> set (ut_rows t'))
         \<and> (\<forall>v \<in> set (ut_rows t). au_id v = au_id u \<longrightarrow>
              au_username u = au_username v \<and> au_password_hash u = au_password_hash v
              \<and> au_session_version u = au_session_version v
              \<and> (au_oidc_sub v = Some (ao_oidc_sub o')
                 \<or> ao_link_by_email o' \<and> au_auth_source v = ''local'' \<and> au_oidc_sub v = None
                   \<and> (\<exists>e. ao_email o' = Some e \<and> trim e \<noteq> [] \<and> map_option lower (au_email v) = Some (lower (trim e)))))
         \<and> ((\<forall>v \<in> set (ut_rows t). au_id v \<noteq> au_id u) \<longrightarrow> ao_allow_create o' \<and> au_password_hash u = None))"
  using upsert_cases [OF assms] upsert_oidc_ok [OF assms(1), of lower now o'] assms(2)
  by (cases r) (auto simp: binding_ok_def linkable_def)

definition example_admin :: app_user where
  "example_admin =
    \<lparr>au_id = 1, au_username = Some ''admin'', au_password_hash = Some ''phc'', au_oidc_sub = None,
     au_email = Some ''a@x'', au_display_name = Some ''admin'', au_role = ''admin'', au_auth_source = ''local'',
     au_created_at = 5, au_updated_at = 5, au_last_login_at = None, au_session_version = 0\<rparr>"

definition example_users :: user_table where
  "example_users = \<lparr>ut_rows = [example_admin], ut_next_id = 2\<rparr>"

definition example_sign_in :: "bool \<Rightarrow> app_user_upsert_oidc" where
  "example_sign_in verified =
    \<lparr>ao_oidc_sub = ''s1'', ao_email = Some ''A@x'', ao_display_name = None, ao_role = ''viewer'',
     ao_link_by_email = verified, ao_allow_create = True\<rparr>"

lemma example_users_ok: "users_ok example_users"
  by code_simp

theorem accounts_stay_well_typed_witness:
  "users_ok example_users
   \<and> list_all (\<lambda>u. au_role u \<in> {''admin'', ''operator'', ''viewer''}) (ut_rows (run_users to_ascii_lowercase
        [(5, User_bump 1), (6, User_upsert_oidc (example_sign_in False)), (7, User_link_sub 1 (Some ''idp'')), (8, User_touch 2)]
        example_users))"
  using accounts_stay_well_typed [OF example_users_ok] example_users_ok unfolding list_all_iff by blast

text \<open>An unverified address gets an account of its own, a verified one the local account.\<close>

theorem sso_binds_only_own_witness:
  "map_sum id (map_option au_id) (fst (upsert_oidc_user to_ascii_lowercase 9 (example_sign_in False) example_users)) = Inr (Some 2)
   \<and> map_sum id (map_option au_id) (fst (upsert_oidc_user to_ascii_lowercase 9 (example_sign_in True) example_users)) = Inr (Some 1)
   \<and> users_ok (snd (upsert_oidc_user to_ascii_lowercase 9 (example_sign_in True) example_users))"
proof -
  have one: "map_sum id (map_option au_id) (fst (upsert_oidc_user to_ascii_lowercase 9 (example_sign_in False) example_users)) = Inr (Some 2)"
    and two: "map_sum id (map_option au_id) (fst (upsert_oidc_user to_ascii_lowercase 9 (example_sign_in True) example_users)) = Inr (Some 1)"
    by code_simp+
  obtain r where "fst (upsert_oidc_user to_ascii_lowercase 9 (example_sign_in True) example_users) = Inr r"
    using two by (cases "fst (upsert_oidc_user to_ascii_lowercase 9 (example_sign_in True) example_users)") auto
  then have "upsert_oidc_user to_ascii_lowercase 9 (example_sign_in True) example_users
      = (Inr r, snd (upsert_oidc_user to_ascii_lowercase 9 (example_sign_in True) example_users))"
    by (simp add: prod_eq_iff)
  from sso_binds_only_own [OF example_users_ok this] one two show ?thesis by simp
qed

end
