(* ===== verification/Access.thy ===== *)
theory Access
  imports Users
begin

text \<open>
  Who may call the management API: roles and claims (\<^verbatim>\<open>src/src/api/role.rs\<close>), session tokens
  (\<^verbatim>\<open>session.rs\<close>), identity provider tokens (\<^verbatim>\<open>oidc.rs\<close>), the principal of a request and what
  it is allowed (\<^verbatim>\<open>auth.rs\<close>), with the settings of \<^verbatim>\<open>config/api.rs\<close> and \<^verbatim>\<open>config_api.rs\<close>.  The token
  codecs, the message authentication code and the password hash are parameters.
\<close>

section \<open>Documents\<close>

datatype json =
    Json_null
  | Json_bool bool
  | Json_number string
  | Json_string string
  | Json_array "json list"
  | Json_object "(string \<times> json) list"

section \<open>Errors\<close>

datatype store_error = Pool_error string | Postgres_error string | Poller_busy | Other_store string

datatype api_error =
    Unprocessable string "json option"
  | Unauthorized string
  | Forbidden string
  | Bad_request string
  | Not_found string
  | Conflict string
  | Precondition_failed string
  | Bad_gateway string
  | Service_unavailable string
  | Internal string

fun api_status :: "api_error \<Rightarrow> nat" where
  "api_status (Unauthorized _) = 401"
| "api_status (Forbidden _) = 403"
| "api_status (Unprocessable _ _) = 422"
| "api_status (Bad_request _) = 400"
| "api_status (Not_found _) = 404"
| "api_status (Conflict _) = 409"
| "api_status (Precondition_failed _) = 412"
| "api_status (Bad_gateway _) = 502"
| "api_status (Service_unavailable _) = 503"
| "api_status (Internal _) = 500"

definition store_error_text :: "store_error \<Rightarrow> string" where
  "store_error_text e =
    (case e of
       Postgres_error m \<Rightarrow> ''postgres error: '' @ m
     | Pool_error m \<Rightarrow> ''connection pool error: '' @ m
     | Poller_busy \<Rightarrow> ''another xrelease poller already holds this PostgreSQL database ''
         @ ''(single poller per DB ''  @ map byte [226, 128, 148]
         @ '' stop the other process, or use a separate database)''
     | Other_store m \<Rightarrow> m)"

definition api_of_store :: "store_error \<Rightarrow> api_error" where
  "api_of_store e =
    (case e of
       Poller_busy \<Rightarrow> Conflict (store_error_text e)
     | Pool_error _ \<Rightarrow> Service_unavailable (store_error_text e)
     | _ \<Rightarrow> Internal (store_error_text e))"

section \<open>Roles\<close>

datatype app_role = Viewer | Operator | Admin

definition role_parse :: "string \<Rightarrow> app_role option" where
  "role_parse value =
    (let v = to_ascii_lowercase (trim value) in
     if v = ''viewer'' then Some Viewer
     else if v = ''operator'' then Some Operator
     else if v = ''admin'' then Some Admin
     else None)"

fun role_str :: "app_role \<Rightarrow> string" where
  "role_str Viewer = ''viewer''"
| "role_str Operator = ''operator''"
| "role_str Admin = ''admin''"

fun role_rank :: "app_role \<Rightarrow> nat" where
  "role_rank Viewer = 1"
| "role_rank Operator = 2"
| "role_rank Admin = 3"

definition role_allows :: "app_role \<Rightarrow> app_role \<Rightarrow> bool" where
  "role_allows r minimum \<longleftrightarrow> role_rank minimum \<le> role_rank r"

definition role_max :: "app_role \<Rightarrow> app_role \<Rightarrow> app_role" where
  "role_max r s = (if role_rank s \<le> role_rank r then r else s)"

record resolved_roles =
  rr_global :: app_role
  rr_per_org :: "string \<Rightarrow> app_role option"

definition for_org :: "resolved_roles \<Rightarrow> string option \<Rightarrow> app_role" where
  "for_org rs organization =
    (case organization of
       None \<Rightarrow> rr_global rs
     | Some org \<Rightarrow> (case rr_per_org rs org of
         None \<Rightarrow> rr_global rs | Some scoped \<Rightarrow> role_max scoped (rr_global rs)))"

text \<open>The three alias lists of the configuration.\<close>

record role_aliases =
  al_admin :: "string list"
  al_operator :: "string list"
  al_viewer :: "string list"

definition resolve_app_role :: "string list \<Rightarrow> role_aliases \<Rightarrow> app_role \<Rightarrow> app_role" where
  "resolve_app_role claimed as fallback =
    (let normalized = map to_ascii_lowercase claimed in
     fold (\<lambda>(role, aliases) resolved.
        if list_ex (\<lambda>a. to_ascii_lowercase a \<in> set normalized) aliases \<and> role_rank resolved \<le> role_rank role
        then role else resolved)
       [(Admin, al_admin as), (Operator, al_operator as), (Viewer, al_viewer as)] fallback)"

definition role_for_alias :: "string \<Rightarrow> role_aliases \<Rightarrow> app_role option" where
  "role_for_alias alias_name as =
    (let name = to_ascii_lowercase (trim alias_name);
         hit = (\<lambda>aliases. list_ex (\<lambda>a. to_ascii_lowercase a = name) aliases) in
     if hit (al_admin as) then Some Admin
     else if hit (al_operator as) then Some Operator
     else if hit (al_viewer as) then Some Viewer
     else None)"

definition grant_org :: "role_aliases \<Rightarrow> string \<Rightarrow> (string \<Rightarrow> app_role option) \<Rightarrow> string \<Rightarrow> app_role option" where
  "grant_org as claim per_org =
    (case split_once '':'' claim of
       None \<Rightarrow> per_org
     | Some (alias_name, org) \<Rightarrow>
         if trim org = [] then per_org
         else (case role_for_alias alias_name as of
             None \<Rightarrow> per_org
           | Some role \<Rightarrow> per_org(trim org := Some
               (case per_org (trim org) of None \<Rightarrow> role | Some current \<Rightarrow> role_max current role))))"

definition resolve_resolved_roles :: "string list \<Rightarrow> role_aliases \<Rightarrow> app_role \<Rightarrow> resolved_roles" where
  "resolve_resolved_roles claimed as fallback =
    \<lparr>rr_global = resolve_app_role claimed as fallback,
     rr_per_org = fold (grant_org as) claimed (\<lambda>_. None)\<rparr>"

section \<open>Claims\<close>

fun json_get :: "string \<Rightarrow> json \<Rightarrow> json option" where
  "json_get k (Json_object kvs) = map_of kvs k"
| "json_get k _ = None"

fun json_str :: "json \<Rightarrow> string option" where
  "json_str (Json_string s) = Some s"
| "json_str _ = None"

fun json_path :: "string list \<Rightarrow> json \<Rightarrow> json option" where
  "json_path [] j = Some j"
| "json_path (k # ks) j = (case json_get k j of None \<Rightarrow> None | Some j' \<Rightarrow> json_path ks j')"

definition nonempty_str :: "json \<Rightarrow> string option" where
  "nonempty_str j = (case json_str j of Some s \<Rightarrow> if s = [] then None else Some s | None \<Rightarrow> None)"

definition claim_strings :: "json \<Rightarrow> string \<Rightarrow> string list" where
  "claim_strings claims path =
    (case json_path (filter (\<lambda>k. k \<noteq> []) (split_by (\<lambda>c. c = CHR ''.'') path)) claims of
       None \<Rightarrow> []
     | Some (Json_array items) \<Rightarrow> List.map_filter nonempty_str items
     | Some j \<Rightarrow> (case nonempty_str j of None \<Rightarrow> [] | Some s \<Rightarrow> [s]))"

definition claim_str :: "string \<Rightarrow> json \<Rightarrow> string option" where
  "claim_str k claims = (case json_get k claims of None \<Rightarrow> None | Some j \<Rightarrow> nonempty_str j)"

section \<open>Session tokens\<close>

definition SESSION_ISS :: string where "SESSION_ISS = ''xrelease''"

definition SESSION_TYP :: string where "SESSION_TYP = ''session''"

record session_claims =
  cl_sub :: string
  cl_iss :: string
  cl_typ :: string
  cl_uid :: int
  cl_role :: app_role
  cl_username :: string
  cl_ver :: int
  cl_exp :: nat
  cl_iat :: nat

text \<open>
  The token library under a key: signing, and decoding with the checks that the code asks for (the
  signature, the algorithm, the issuer, and the expiry at the given second).
\<close>

record jwt_lib =
  jw_encode :: "string \<Rightarrow> session_claims \<Rightarrow> string + string"
  jw_decode :: "string \<Rightarrow> nat \<Rightarrow> string \<Rightarrow> string + session_claims"

definition U64_MAX :: nat where "U64_MAX = 2 ^ 64 - 1"

definition issue_session_token ::
  "jwt_lib \<Rightarrow> nat \<Rightarrow> string \<Rightarrow> int \<Rightarrow> string \<Rightarrow> app_role \<Rightarrow> int \<Rightarrow> nat \<Rightarrow> string + string \<times> nat" where
  "issue_session_token jw now secret uid username role version ttl_secs =
    (let ttl = max ttl_secs 60 in
     case jw_encode jw secret
         \<lparr>cl_sub = ''local:'' @ show_int uid, cl_iss = SESSION_ISS, cl_typ = SESSION_TYP, cl_uid = uid,
          cl_role = role, cl_username = username, cl_ver = version, cl_exp = min U64_MAX (now + ttl),
          cl_iat = now\<rparr> of
       Inl e \<Rightarrow> Inl e
     | Inr token \<Rightarrow> Inr (token, ttl))"

definition validate_session_token :: "jwt_lib \<Rightarrow> nat \<Rightarrow> string \<Rightarrow> string \<Rightarrow> string + session_claims" where
  "validate_session_token jw now secret token =
    (case jw_decode jw secret now token of
       Inl e \<Rightarrow> Inl e
     | Inr c \<Rightarrow>
         if cl_typ c \<noteq> SESSION_TYP then Inl ''not a session token''
         else if cl_username c = [] \<or> cl_uid c \<le> 0 then Inl ''invalid session claims''
         else Inr c)"

section \<open>Identity provider tokens\<close>

record jwk =
  jk_key_id :: "string option"
  jk_algorithm :: "string option"

record jwt_header =
  jh_alg :: string
  jh_kid :: "string option"

text \<open>Decoding under a published key, with the accepted issuers, the audiences unless unchecked, and the second.\<close>

record oidc_lib =
  ol_header :: "string \<Rightarrow> string + jwt_header"
  ol_decode :: "jwk \<Rightarrow> string list \<Rightarrow> string list option \<Rightarrow> string \<Rightarrow> nat \<Rightarrow> string \<Rightarrow> string + json"

record oidc_validator =
  ov_issuer :: string
  ov_audiences :: "string list"
  ov_required_scope :: "string option"
  ov_jwks :: "jwk list"

definition forbidden_alg_in_decode_error :: "string \<Rightarrow> bool" where
  "forbidden_alg_in_decode_error msg \<longleftrightarrow> contains_str msg (''unknown variant '' @ quoted ''none'')"

definition find_verification_jwk :: "jwk list \<Rightarrow> string option \<Rightarrow> string \<Rightarrow> jwk option" where
  "find_verification_jwk keys kid alg =
    (case kid of
       Some k \<Rightarrow> find (\<lambda>key. jk_key_id key = Some k) keys
     | None \<Rightarrow> (case find (\<lambda>key. jk_algorithm key = Some alg) keys of
         Some key \<Rightarrow> Some key | None \<Rightarrow> (case keys of [] \<Rightarrow> None | key # _ \<Rightarrow> Some key)))"

definition decode_and_validate :: "oidc_lib \<Rightarrow> nat \<Rightarrow> oidc_validator \<Rightarrow> string \<Rightarrow> string + json" where
  "decode_and_validate ol now v token =
    (case ol_header ol token of
       Inl msg \<Rightarrow> Inl (if forbidden_alg_in_decode_error msg then ''forbidden JWT algorithm: none'' else msg)
     | Inr header \<Rightarrow>
         if to_ascii_lowercase (jh_alg header) = ''none'' then Inl (''forbidden JWT algorithm: '' @ jh_alg header)
         else if jh_alg header \<notin> {''RS256'', ''RS384'', ''RS512''} then
           Inl (''unsupported JWT algorithm: '' @ jh_alg header)
         else if ov_jwks v = [] then
           Inl ''JWKS cache is empty (identity provider unreachable); retrying in background''
         else (case find_verification_jwk (ov_jwks v) (jh_kid header) (jh_alg header) of
             None \<Rightarrow> Inl ''no matching JWK''
           | Some key \<Rightarrow>
               ol_decode ol key [ov_issuer v, ov_issuer v @ ''/'']
                 (if ov_audiences v = [] then None else Some (ov_audiences v)) (jh_alg header) now token))"

definition ascii_blank :: "char \<Rightarrow> bool" where
  "ascii_blank c \<longleftrightarrow> code c \<in> {9, 10, 12, 13, 32}"

definition split_ascii_whitespace :: "string \<Rightarrow> string list" where
  "split_ascii_whitespace s = filter (\<lambda>w. w \<noteq> []) (split_by ascii_blank s)"

definition scope_satisfied :: "json \<Rightarrow> string \<Rightarrow> bool" where
  "scope_satisfied claims required \<longleftrightarrow>
     (case json_get ''scope'' claims of
        Some (Json_string s) \<Rightarrow> required \<in> set (split_ascii_whitespace s)
      | _ \<Rightarrow> False)
     \<or> (case json_get ''scp'' claims of
        Some (Json_array items) \<Rightarrow> list_ex (\<lambda>j. json_str j = Some required) items
      | _ \<Rightarrow> False)"

definition missing_scope :: "string \<Rightarrow> string" where
  "missing_scope required = ''token missing required scope '' @ quoted required"

definition validate_token_claims :: "oidc_lib \<Rightarrow> nat \<Rightarrow> oidc_validator \<Rightarrow> string \<Rightarrow> string + json" where
  "validate_token_claims ol now v token =
    (case decode_and_validate ol now v token of
       Inl e \<Rightarrow> Inl e
     | Inr claims \<Rightarrow> (case ov_required_scope v of
         None \<Rightarrow> Inr claims
       | Some required \<Rightarrow> if scope_satisfied claims required then Inr claims else Inl (missing_scope required)))"

definition validate_token_with_extra_scope ::
  "oidc_lib \<Rightarrow> nat \<Rightarrow> oidc_validator \<Rightarrow> string \<Rightarrow> string \<Rightarrow> string + unit" where
  "validate_token_with_extra_scope ol now v token extra =
    (case validate_token_claims ol now v token of
       Inl e \<Rightarrow> Inl e
     | Inr claims \<Rightarrow> if scope_satisfied claims extra then Inr () else Inl (missing_scope extra))"


section \<open>Settings\<close>

record local_auth_config =
  la_enabled :: bool
  la_admin_username :: string
  la_admin_password :: "string option"
  la_session_secret :: "string option"
  la_session_ttl_secs :: nat

record oidc_config =
  od_issuer :: "string option"
  od_discovery_url :: "string option"
  od_jwks_uri :: "string option"
  od_audience :: "string list"
  od_required_scope :: "string option"
  od_role_claim :: string
  od_role_admin :: "string list"
  od_role_operator :: "string list"
  od_role_viewer :: "string list"
  od_default_role :: string
  od_auto_create_users :: bool

record api_config =
  ap_listen :: string
  ap_webhook_secret :: "string option"
  ap_api_key :: "string option"
  ap_rate_limit_per_minute :: nat
  ap_cors_origins :: "string list"
  ap_oidc :: oidc_config
  ap_local_auth :: local_auth_config
  ap_require_auth :: bool

definition local_auth_default :: local_auth_config where
  "local_auth_default =
    \<lparr>la_enabled = True, la_admin_username = ''admin'', la_admin_password = None, la_session_secret = None,
     la_session_ttl_secs = 86400\<rparr>"

definition oidc_default :: oidc_config where
  "oidc_default =
    \<lparr>od_issuer = None, od_discovery_url = None, od_jwks_uri = None, od_audience = [], od_required_scope = None,
     od_role_claim = ''groups'', od_role_admin = [''xrelease-admin'', ''admin''],
     od_role_operator = [''xrelease-operator'', ''operator''],
     od_role_viewer = [''xrelease-viewer'', ''viewer''], od_default_role = ''viewer'',
     od_auto_create_users = True\<rparr>"

definition api_default :: api_config where
  "api_default =
    \<lparr>ap_listen = ''127.0.0.1:8080'', ap_webhook_secret = None, ap_api_key = None,
     ap_rate_limit_per_minute = 120, ap_cors_origins = [], ap_oidc = oidc_default,
     ap_local_auth = local_auth_default, ap_require_auth = True\<rparr>"

definition nonempty_option :: "string option \<Rightarrow> string option" where
  "nonempty_option v = (case v of Some s \<Rightarrow> if s = [] then None else Some s | None \<Rightarrow> None)"

definition admin_password :: "local_auth_config \<Rightarrow> string option" where
  "admin_password la = nonempty_option (la_admin_password la)"

definition session_secret :: "local_auth_config \<Rightarrow> string option" where
  "session_secret la = nonempty_option (la_session_secret la)"

definition local_auth_configured :: "api_config \<Rightarrow> bool" where
  "local_auth_configured a \<longleftrightarrow> la_enabled (ap_local_auth a) \<and> session_secret (ap_local_auth a) \<noteq> None"

definition auth_configured :: "api_config \<Rightarrow> bool" where
  "auth_configured a \<longleftrightarrow> nonempty_option (ap_api_key a) \<noteq> None
     \<or> nonempty_option (od_issuer (ap_oidc a)) \<noteq> None \<or> local_auth_configured a"

definition webhook_auth_configured :: "api_config \<Rightarrow> bool" where
  "webhook_auth_configured a \<longleftrightarrow> nonempty_option (ap_webhook_secret a) \<noteq> None"

definition oidc_aliases :: "oidc_config \<Rightarrow> role_aliases" where
  "oidc_aliases c = \<lparr>al_admin = od_role_admin c, al_operator = od_role_operator c, al_viewer = od_role_viewer c\<rparr>"

datatype config_source = Local_file | Api_ledger

record config_api_config =
  ca_api_config :: bool
  ca_apply_scope :: "string option"
  ca_source :: config_source
  ca_ui_config :: bool

text \<open>The environment and the unlocked vault, as lookups.\<close>

record token_env =
  te_var :: "string \<Rightarrow> string option"
  te_vault :: "string \<Rightarrow> string option"

definition env_token :: "token_env \<Rightarrow> string \<Rightarrow> string option" where
  "env_token env var =
    (case te_var env var of
       Some v \<Rightarrow> if trim v = [] then te_vault env var else Some v
     | None \<Rightarrow> te_vault env var)"

definition apply_secret :: "token_env \<Rightarrow> string option" where
  "apply_secret env = env_token env ''XRELEASE_CONFIG_APPLY_SECRET''"

definition routes_enabled :: "config_api_config \<Rightarrow> bool" where
  "routes_enabled c = ca_api_config c"

definition hmac_configured :: "token_env \<Rightarrow> bool" where
  "hmac_configured env \<longleftrightarrow> apply_secret env \<noteq> None"

definition accepts_pushed_config :: "config_api_config \<Rightarrow> bool" where
  "accepts_pushed_config c \<longleftrightarrow> ca_source c = Api_ledger"

definition ledger_is_bootable :: "config_api_config \<Rightarrow> bool" where
  "ledger_is_bootable c \<longleftrightarrow> ca_source c = Api_ledger"

definition ui_config_enabled :: "config_api_config \<Rightarrow> bool" where
  "ui_config_enabled c \<longleftrightarrow> ca_api_config c \<and> ca_ui_config c \<and> accepts_pushed_config c"

section \<open>Headers and signatures\<close>

text \<open>Header names in lower case; a value that is not visible ASCII has no text.\<close>

datatype header_value = Text string | Opaque "nat list"

type_synonym header_map = "(string \<times> header_value) list"

fun to_str :: "header_value \<Rightarrow> string option" where
  "to_str (Text s) = Some s"
| "to_str (Opaque _) = None"

definition header_text :: "header_map \<Rightarrow> string \<Rightarrow> string option" where
  "header_text h name = Option.bind (map_of h name) to_str"

definition bearer_token :: "header_map \<Rightarrow> string option" where
  "bearer_token h = Option.bind (header_text h ''authorization'') (strip_prefix ''Bearer '')"

definition constant_time_eq :: "string \<Rightarrow> string \<Rightarrow> bool" where
  "constant_time_eq a b = (if length a \<noteq> length b then False else a = b)"

lemma constant_time_eq [simp]: "constant_time_eq a b \<longleftrightarrow> a = b"
  by (auto simp: constant_time_eq_def)

definition text_or_empty :: "string option \<Rightarrow> string" where
  "text_or_empty v = (case v of None \<Rightarrow> [] | Some s \<Rightarrow> s)"

definition require_api_key :: "header_map \<Rightarrow> string option \<Rightarrow> api_error + unit" where
  "require_api_key h expected =
    (case expected of
       None \<Rightarrow> Inr ()
     | Some e \<Rightarrow>
         if e = [] then Inr ()
         else if constant_time_eq (text_or_empty (bearer_token h)) e then Inr ()
         else Inl (Unauthorized ''invalid or missing API key''))"

definition verify_gitlab_token :: "header_map \<Rightarrow> string option \<Rightarrow> api_error + unit" where
  "verify_gitlab_token h secret =
    (case secret of
       None \<Rightarrow> Inr ()
     | Some s \<Rightarrow>
         if s = [] then Inr ()
         else if constant_time_eq (text_or_empty (header_text h ''x-gitlab-token'')) s then Inr ()
         else Inl (Unauthorized ''invalid X-Gitlab-Token''))"

definition verify_webhook_secret :: "header_map \<Rightarrow> string option \<Rightarrow> api_error + unit" where
  "verify_webhook_secret h secret =
    (case secret of
       None \<Rightarrow> Inr ()
     | Some s \<Rightarrow>
         if s = [] then Inr ()
         else if constant_time_eq (text_or_empty (case header_text h ''x-webhook-secret'' of
               Some t \<Rightarrow> Some t | None \<Rightarrow> bearer_token h)) s then Inr ()
         else Inl (Unauthorized ''invalid webhook secret''))"

text \<open>The hexadecimal code of a body under a secret is a parameter.\<close>

type_synonym hmac_hex = "string \<Rightarrow> string \<Rightarrow> string"

definition verify_hmac_header ::
  "hmac_hex \<Rightarrow> header_map \<Rightarrow> string option \<Rightarrow> string \<Rightarrow> string \<Rightarrow> string \<Rightarrow> bool \<Rightarrow> api_error + unit" where
  "verify_hmac_header hmac h secret body name shown sha256_prefix =
    (case secret of
       None \<Rightarrow> Inr ()
     | Some s \<Rightarrow>
         if s = [] then Inr ()
         else (case map_of h name of
             None \<Rightarrow> Inl (Unauthorized (''missing '' @ shown))
           | Some value \<Rightarrow> (case to_str value of
               None \<Rightarrow> Inl (Unauthorized ''invalid signature header'')
             | Some text \<Rightarrow> (case (if sha256_prefix then strip_prefix ''sha256='' text else Some text) of
                 None \<Rightarrow> Inl (Unauthorized ''invalid signature format'')
               | Some digest \<Rightarrow>
                   if constant_time_eq digest (hmac s body) then Inr ()
                   else Inl (Unauthorized ''signature mismatch'')))))"

definition verify_config_signature :: "hmac_hex \<Rightarrow> header_map \<Rightarrow> string option \<Rightarrow> string \<Rightarrow> api_error + unit" where
  "verify_config_signature hmac h secret body =
    verify_hmac_header hmac h secret body ''x-config-signature'' ''X-Config-Signature'' True"

definition verify_github_signature :: "hmac_hex \<Rightarrow> header_map \<Rightarrow> string option \<Rightarrow> string \<Rightarrow> api_error + unit" where
  "verify_github_signature hmac h secret body =
    verify_hmac_header hmac h secret body ''x-hub-signature-256'' ''X-Hub-Signature-256'' True"

definition verify_bitbucket_signature :: "hmac_hex \<Rightarrow> header_map \<Rightarrow> string option \<Rightarrow> string \<Rightarrow> api_error + unit" where
  "verify_bitbucket_signature hmac h secret body =
    (if map_of h ''x-hub-signature'' \<noteq> None then
       verify_hmac_header hmac h secret body ''x-hub-signature'' ''X-Hub-Signature'' False
     else if map_of h ''x-hub-signature-256'' \<noteq> None then
       verify_hmac_header hmac h secret body ''x-hub-signature-256'' ''X-Hub-Signature-256'' True
     else verify_hmac_header hmac h secret body ''x-hub-signature'' ''X-Hub-Signature'' False)"


section \<open>The user store under faults\<close>

text \<open>
  The user table as the handlers of one process see it: before each call other requests may have
  written, and a call can be refused or lose its answer after the statement has run.
\<close>

datatype user_fault = Refused store_error | Answer_lost store_error

record user_world =
  uw_table :: user_table
  uw_calls :: nat
  uw_lower :: sql_lower
  uw_clock :: "nat \<Rightarrow> timestamp"
  uw_others :: "nat \<Rightarrow> (timestamp \<times> user_op) list"
  uw_fault :: "nat \<Rightarrow> user_fault option"

definition user_call ::
  "(timestamp \<Rightarrow> user_table \<Rightarrow> (store_error + 'a) \<times> user_table) \<Rightarrow> user_world \<Rightarrow> (store_error + 'a) \<times> user_world" where
  "user_call f w =
    (let n = uw_calls w;
         t = run_users (uw_lower w) (uw_others w n) (uw_table w);
         (r, t') = f (uw_clock w n) t;
         w' = w\<lparr>uw_calls := n + 1\<rparr> in
     case uw_fault w n of
       Some (Refused e) \<Rightarrow> (Inl e, w'\<lparr>uw_table := t\<rparr>)
     | Some (Answer_lost e) \<Rightarrow> (Inl e, w'\<lparr>uw_table := t'\<rparr>)
     | None \<Rightarrow> (r, w'\<lparr>uw_table := t'\<rparr>))"

text \<open>The table that the next call works on.\<close>

definition table_at_call :: "user_world \<Rightarrow> user_table" where
  "table_at_call w = run_users (uw_lower w) (uw_others w (uw_calls w)) (uw_table w)"

definition user_query :: "(user_table \<Rightarrow> 'a) \<Rightarrow> user_world \<Rightarrow> (store_error + 'a) \<times> user_world" where
  "user_query q = user_call (\<lambda>_ t. (Inr (q t), t))"

text \<open>A constraint is an error of the database; the other messages are the program's own.\<close>

definition statement_error :: "string \<Rightarrow> store_error" where
  "statement_error m = (if m = ''constraint'' then Postgres_error m else Other_store m)"

definition user_statement ::
  "(timestamp \<Rightarrow> user_table \<Rightarrow> (string + 'a) \<times> user_table) \<Rightarrow> user_world \<Rightarrow> (store_error + 'a) \<times> user_world" where
  "user_statement f = user_call (\<lambda>now t. case f now t of
     (Inl m, t') \<Rightarrow> (Inl (statement_error m), t') | (Inr r, t') \<Rightarrow> (Inr r, t'))"

section \<open>The principal of a request\<close>

datatype auth_principal =
    Api_key
  | Local_user int string app_role
  | Oidc_user "string option" "string option" resolved_roles
  | Anonymous

fun role_for_org :: "auth_principal \<Rightarrow> string option \<Rightarrow> app_role option" where
  "role_for_org Api_key organization = Some Admin"
| "role_for_org (Local_user _ _ role) organization = Some role"
| "role_for_org (Oidc_user _ _ rs) organization = Some (for_org rs organization)"
| "role_for_org Anonymous organization = None"

fun audit_label :: "auth_principal \<Rightarrow> string option" where
  "audit_label Api_key = Some ''api_key''"
| "audit_label (Local_user _ username _) = Some (''local:'' @ username)"
| "audit_label (Oidc_user _ (Some email) _) = Some (''oidc:'' @ email)"
| "audit_label (Oidc_user (Some subject) None _) = Some (''oidc:'' @ subject)"
| "audit_label (Oidc_user None None _) = Some ''oidc''"
| "audit_label Anonymous = None"

definition authorize_for_org :: "auth_principal \<Rightarrow> app_role \<Rightarrow> string option \<Rightarrow> api_error + unit" where
  "authorize_for_org p minimum organization =
    (case role_for_org p organization of
       None \<Rightarrow> Inr ()
     | Some role \<Rightarrow>
         if role_allows role minimum then Inr ()
         else Inl (Forbidden (case organization of
             Some org \<Rightarrow> ''role '' @ quoted (role_str role) @ '' on organization '' @ quoted org
               @ '' is not permitted here (requires '' @ quoted (role_str minimum) @ '' or higher)''
           | None \<Rightarrow> ''role '' @ quoted (role_str role) @ '' is not permitted here (requires ''
               @ quoted (role_str minimum) @ '' or higher)'')))"

definition authorize :: "auth_principal \<Rightarrow> app_role \<Rightarrow> api_error + unit" where
  "authorize p minimum = authorize_for_org p minimum None"

text \<open>The libraries, at the second of the request.\<close>

record auth_libs =
  lb_jwt :: jwt_lib
  lb_oidc :: oidc_lib
  lb_hmac :: hmac_hex
  lb_hash :: "string \<Rightarrow> string + string"
  lb_verify :: "string \<Rightarrow> string \<Rightarrow> bool"
  lb_decoy :: string
  lb_rfc3339 :: "timestamp \<Rightarrow> string"
  lb_now :: nat

record api_state =
  as_api :: api_config
  as_config_api :: config_api_config
  as_oidc :: "oidc_validator option"
  as_env :: token_env

definition oidc_fallback :: "oidc_config \<Rightarrow> app_role" where
  "oidc_fallback c = (case role_parse (od_default_role c) of Some r \<Rightarrow> r | None \<Rightarrow> Viewer)"

definition oidc_roles :: "oidc_config \<Rightarrow> json \<Rightarrow> resolved_roles" where
  "oidc_roles c claims =
    resolve_resolved_roles (claim_strings claims (od_role_claim c)) (oidc_aliases c) (oidc_fallback c)"

definition oidc_principal :: "oidc_config \<Rightarrow> json \<Rightarrow> auth_principal" where
  "oidc_principal c claims =
    Oidc_user (claim_str ''sub'' claims) (claim_str ''email'' claims) (oidc_roles c claims)"

definition try_oidc :: "auth_libs \<Rightarrow> api_state \<Rightarrow> string \<Rightarrow> api_error + auth_principal" where
  "try_oidc lib st token =
    (case as_oidc st of
       None \<Rightarrow> Inl (Unauthorized ''invalid bearer token'')
     | Some v \<Rightarrow> (case validate_token_claims (lb_oidc lib) (lb_now lib) v token of
         Inl _ \<Rightarrow> Inl (Unauthorized ''invalid bearer token'')
       | Inr claims \<Rightarrow> Inr (oidc_principal (ap_oidc (as_api st)) claims)))"

text \<open>The key that sessions are checked with: the configured one as it is, an empty one included.\<close>

definition verification_secret :: "api_config \<Rightarrow> string option" where
  "verification_secret a = (if la_enabled (ap_local_auth a) then la_session_secret (ap_local_auth a) else None)"

definition session_principal ::
  "session_claims \<Rightarrow> user_world \<Rightarrow> (api_error + auth_principal) \<times> user_world" where
  "session_principal c w =
    (case user_query (get_user_by_id (cl_uid c)) w of
       (Inl e, w') \<Rightarrow> (Inl (api_of_store e), w')
     | (Inr user, w') \<Rightarrow>
         if map_option au_session_version user = Some (cl_ver c)
         then (Inr (Local_user (cl_uid c) (cl_username c) (cl_role c)), w')
         else (Inl (Unauthorized ''session has been revoked''), w'))"

definition resolve_auth_principal ::
  "auth_libs \<Rightarrow> api_state \<Rightarrow> header_map \<Rightarrow> user_world \<Rightarrow> (api_error + auth_principal) \<times> user_world" where
  "resolve_auth_principal lib st h w =
    (let api_key_configured = (nonempty_option (ap_api_key (as_api st)) \<noteq> None);
         secret = verification_secret (as_api st) in
     if \<not> api_key_configured \<and> as_oidc st = None \<and> secret = None then (Inr Anonymous, w)
     else (case bearer_token h of
         None \<Rightarrow> (Inl (Unauthorized ''missing bearer token''), w)
       | Some token \<Rightarrow>
           if api_key_configured \<and> \<not> isl (require_api_key h (ap_api_key (as_api st))) then (Inr Api_key, w)
           else (case (case secret of None \<Rightarrow> None
                   | Some s \<Rightarrow> (case validate_session_token (lb_jwt lib) (lb_now lib) s token of
                       Inl _ \<Rightarrow> None | Inr c \<Rightarrow> Some c)) of
               Some c \<Rightarrow> session_principal c w
             | None \<Rightarrow> (try_oidc lib st token, w))))"

definition require_bearer_auth ::
  "auth_libs \<Rightarrow> api_state \<Rightarrow> header_map \<Rightarrow> user_world \<Rightarrow> (api_error + unit) \<times> user_world" where
  "require_bearer_auth lib st h w =
    (case resolve_auth_principal lib st h w of (Inl e, w') \<Rightarrow> (Inl e, w') | (Inr _, w') \<Rightarrow> (Inr (), w'))"

text \<open>The router layers: who may reach the handlers behind them.\<close>

definition require_role_auth ::
  "app_role \<Rightarrow> auth_libs \<Rightarrow> api_state \<Rightarrow> header_map \<Rightarrow> user_world \<Rightarrow> (api_error + unit) \<times> user_world" where
  "require_role_auth minimum lib st h w =
    (case resolve_auth_principal lib st h w of
       (Inl e, w') \<Rightarrow> (Inl e, w')
     | (Inr p, w') \<Rightarrow> (authorize p minimum, w'))"

definition require_operator_auth ::
  "auth_libs \<Rightarrow> api_state \<Rightarrow> header_map \<Rightarrow> user_world \<Rightarrow> (api_error + unit) \<times> user_world" where
  "require_operator_auth = require_role_auth Operator"

definition require_admin_auth ::
  "auth_libs \<Rightarrow> api_state \<Rightarrow> header_map \<Rightarrow> user_world \<Rightarrow> (api_error + unit) \<times> user_world" where
  "require_admin_auth = require_role_auth Admin"

section \<open>The gate of configuration pushes\<close>

definition apply_scope_gate :: "auth_libs \<Rightarrow> api_state \<Rightarrow> header_map \<Rightarrow> auth_principal \<Rightarrow> api_error + unit" where
  "apply_scope_gate lib st h p =
    (case p of
       Oidc_user _ _ _ \<Rightarrow> (case nonempty_option (ca_apply_scope (as_config_api st)) of
         None \<Rightarrow> Inr ()
       | Some scope \<Rightarrow> (case bearer_token h of
           None \<Rightarrow> Inl (Unauthorized ''missing bearer token'')
         | Some token \<Rightarrow> (case as_oidc st of
             None \<Rightarrow> Inl (Unauthorized ''OIDC required for apply_scope'')
           | Some v \<Rightarrow> (case validate_token_with_extra_scope (lb_oidc lib) (lb_now lib) v token scope of
               Inl e \<Rightarrow> Inl (Unauthorized e) | Inr _ \<Rightarrow> Inr ()))))
     | _ \<Rightarrow> Inr ())"

definition local_authority :: string where
  "local_authority = ''config_api.source = '' @ [byte 34] @ ''local'' @ [byte 34]
     @ '': the app config file is authoritative, so pushed config would be discarded on the next boot ''
     @ map byte [226, 128, 148] @ '' edit the file and POST /api/v1/reload instead''"

definition require_config_apply_auth ::
  "auth_libs \<Rightarrow> api_state \<Rightarrow> header_map \<Rightarrow> string \<Rightarrow> string option \<Rightarrow> user_world
     \<Rightarrow> (api_error + auth_principal) \<times> user_world" where
  "require_config_apply_auth lib st h body organization w =
    (if \<not> routes_enabled (as_config_api st) then (Inl (Not_found ''config apply API is disabled''), w)
     else if \<not> accepts_pushed_config (as_config_api st) then (Inl (Conflict local_authority), w)
     else (case resolve_auth_principal lib st h w of
         (Inl e, w') \<Rightarrow> (Inl e, w')
       | (Inr p, w') \<Rightarrow> (case authorize_for_org p Admin organization of
           Inl e \<Rightarrow> (Inl e, w')
         | Inr _ \<Rightarrow> (case apply_scope_gate lib st h p of
             Inl e \<Rightarrow> (Inl e, w')
           | Inr _ \<Rightarrow> (case verify_config_signature (lb_hmac lib) h (apply_secret (as_env st)) body of
               Inl e \<Rightarrow> (Inl e, w') | Inr _ \<Rightarrow> (Inr p, w'))))))"

definition config_apply_auth_configured :: "bool \<Rightarrow> bool \<Rightarrow> bool" where
  "config_apply_auth_configured bearer hmac \<longleftrightarrow> bearer \<or> hmac"


section \<open>Accounts\<close>

record auth_user_view =
  vw_id :: int
  vw_username :: "string option"
  vw_email :: "string option"
  vw_display_name :: "string option"
  vw_role :: app_role
  vw_auth_source :: string
  vw_oidc_sub :: "string option"
  vw_created_at :: string
  vw_last_login_at :: "string option"
  vw_organization_roles :: "string \<Rightarrow> app_role option"

definition user_view :: "auth_libs \<Rightarrow> app_user \<Rightarrow> app_role \<Rightarrow> (string \<Rightarrow> app_role option) \<Rightarrow> auth_user_view" where
  "user_view lib u role per_org =
    \<lparr>vw_id = au_id u, vw_username = au_username u, vw_email = au_email u,
     vw_display_name = au_display_name u, vw_role = role, vw_auth_source = au_auth_source u,
     vw_oidc_sub = au_oidc_sub u, vw_created_at = lb_rfc3339 lib (au_created_at u),
     vw_last_login_at = map_option (lb_rfc3339 lib) (au_last_login_at u), vw_organization_roles = per_org\<rparr>"

definition row_role :: "app_user \<Rightarrow> app_role" where
  "row_role u = (case role_parse (au_role u) of Some r \<Rightarrow> r | None \<Rightarrow> Viewer)"

definition plain_view :: "auth_libs \<Rightarrow> app_user \<Rightarrow> auth_user_view" where
  "plain_view lib u = user_view lib u (row_role u) (\<lambda>_. None)"

record auth_methods_response =
  am_local :: bool
  am_oidc :: bool
  am_api_key :: bool
  am_oidc_auto_create_users :: bool

definition auth_methods :: "api_state \<Rightarrow> auth_methods_response" where
  "auth_methods st =
    \<lparr>am_local = local_auth_configured (as_api st), am_oidc = as_oidc st \<noteq> None,
     am_api_key = nonempty_option (ap_api_key (as_api st)) \<noteq> None,
     am_oidc_auto_create_users = od_auto_create_users (ap_oidc (as_api st))\<rparr>"

subsection \<open>Signing in with a password\<close>

record login_response =
  lr_access_token :: string
  lr_expires_in :: nat
  lr_role :: app_role
  lr_user :: auth_user_view

definition bad_credentials :: api_error where
  "bad_credentials = Unauthorized ''invalid username or password''"

definition no_session_secret :: string where
  "no_session_secret = ''local auth has no session secret '' @ map byte [226, 128, 148]
     @ '' set XRELEASE_SESSION_SECRET''"

definition local_hash :: "app_user option \<Rightarrow> string option" where
  "local_hash row = (case row of None \<Rightarrow> None
     | Some u \<Rightarrow> if au_auth_source u = ''local'' then au_password_hash u else None)"

definition password_matches :: "auth_libs \<Rightarrow> string \<Rightarrow> app_user option \<Rightarrow> bool" where
  "password_matches lib password row =
    (let stored = local_hash row;
         ok = lb_verify lib password (case stored of Some s \<Rightarrow> s | None \<Rightarrow> lb_decoy lib) in
     stored \<noteq> None \<and> ok)"

definition grant_session ::
  "auth_libs \<Rightarrow> api_state \<Rightarrow> string \<Rightarrow> string \<Rightarrow> app_user \<Rightarrow> user_world
     \<Rightarrow> (api_error + login_response) \<times> user_world" where
  "grant_session lib st secret username u w =
    (case issue_session_token (lb_jwt lib) (lb_now lib) secret (au_id u) username (row_role u)
        (au_session_version u) (la_session_ttl_secs (ap_local_auth (as_api st))) of
       Inl e \<Rightarrow> (Inl (Internal e), w)
     | Inr (token, expires_in) \<Rightarrow>
         (let (_, w') = user_call (\<lambda>now t. (Inr (), touch_user_last_login now (au_id u) t)) w in
          (Inr \<lparr>lr_access_token = token, lr_expires_in = expires_in, lr_role = row_role u,
             lr_user = plain_view lib u\<rparr>, w')))"

definition login ::
  "auth_libs \<Rightarrow> api_state \<Rightarrow> string \<Rightarrow> string \<Rightarrow> user_world \<Rightarrow> (api_error + login_response) \<times> user_world" where
  "login lib st username password w =
    (if \<not> la_enabled (ap_local_auth (as_api st)) then (Inl (Unauthorized ''local auth is disabled''), w)
     else (case session_secret (ap_local_auth (as_api st)) of
         None \<Rightarrow> (Inl (Unauthorized no_session_secret), w)
       | Some secret \<Rightarrow>
           (let username = trim username in
            if username = [] \<or> password = [] then (Inl bad_credentials, w)
            else (case user_query (get_user_by_username username) w of
                (Inl e, w') \<Rightarrow> (Inl (api_of_store e), w')
              | (Inr row, w') \<Rightarrow>
                  if password_matches lib password row then
                    (case row of
                       Some u \<Rightarrow> grant_session lib st secret username u w'
                     | None \<Rightarrow> (Inl bad_credentials, w'))
                  else (Inl bad_credentials, w')))))"

subsection \<open>Signing in through the identity provider\<close>

definition email_verified :: "json \<Rightarrow> bool" where
  "email_verified claims =
    (case json_get ''email_verified'' claims of
       Some v \<Rightarrow> v = Json_bool True \<or> v = Json_string ''true''
     | None \<Rightarrow> False)"

text \<open>An empty \<^verbatim>\<open>name\<close> claim hides the preferred user name, and the email stands in.\<close>

definition claimed_name :: "json \<Rightarrow> string option" where
  "claimed_name claims =
    (case nonempty_option (case Option.bind (json_get ''name'' claims) json_str of
         Some n \<Rightarrow> Some n
       | None \<Rightarrow> Option.bind (json_get ''preferred_username'' claims) json_str) of
       Some n \<Rightarrow> Some n
     | None \<Rightarrow> claim_str ''email'' claims)"

definition oidc_upsert_of :: "oidc_config \<Rightarrow> json \<Rightarrow> string \<Rightarrow> app_user_upsert_oidc" where
  "oidc_upsert_of c claims sub =
    \<lparr>ao_oidc_sub = sub, ao_email = claim_str ''email'' claims, ao_display_name = claimed_name claims,
     ao_role = role_str (rr_global (oidc_roles c claims)), ao_link_by_email = email_verified claims,
     ao_allow_create = od_auto_create_users c\<rparr>"

definition no_account :: string where
  "no_account = ''no account for this identity and OIDC auto-provisioning is disabled ''
     @ map byte [226, 128, 148] @ '' ask an admin to create a local user with your email address''"

definition oidc_sync ::
  "auth_libs \<Rightarrow> api_state \<Rightarrow> header_map \<Rightarrow> user_world \<Rightarrow> (api_error + auth_user_view) \<times> user_world" where
  "oidc_sync lib st h w =
    (case as_oidc st of
       None \<Rightarrow> (Inl (Unauthorized ''OIDC is not configured''), w)
     | Some v \<Rightarrow> (case bearer_token h of
         None \<Rightarrow> (Inl (Unauthorized ''missing bearer token''), w)
       | Some token \<Rightarrow> (case validate_token_claims (lb_oidc lib) (lb_now lib) v token of
           Inl e \<Rightarrow> (Inl (Unauthorized e), w)
         | Inr claims \<Rightarrow> (case claim_str ''sub'' claims of
             None \<Rightarrow> (Inl (Unauthorized ''OIDC token missing sub''), w)
           | Some sub \<Rightarrow>
               (let c = ap_oidc (as_api st) in
                case user_statement (\<lambda>now t. upsert_oidc_user (uw_lower w) now (oidc_upsert_of c claims sub) t) w of
                  (Inl e, w') \<Rightarrow> (Inl (api_of_store e), w')
                | (Inr None, w') \<Rightarrow> (Inl (Forbidden no_account), w')
                | (Inr (Some u), w') \<Rightarrow>
                    (Inr (user_view lib u (rr_global (oidc_roles c claims)) (rr_per_org (oidc_roles c claims))),
                     w'))))))"

subsection \<open>Introspection and revocation\<close>

record me_response =
  me_method :: string
  me_role :: "app_role option"
  me_organization_roles :: "string \<Rightarrow> app_role option"
  me_user :: "auth_user_view option"

definition me ::
  "auth_libs \<Rightarrow> api_state \<Rightarrow> header_map \<Rightarrow> user_world \<Rightarrow> (api_error + me_response) \<times> user_world" where
  "me lib st h w =
    (let answer = (\<lambda>meth role orgs user.
           \<lparr>me_method = meth, me_role = role, me_organization_roles = orgs, me_user = user\<rparr>) in
     case resolve_auth_principal lib st h w of
       (Inl e, w') \<Rightarrow> (Inl e, w')
     | (Inr Api_key, w') \<Rightarrow> (Inr (answer ''api_key'' (Some Admin) (\<lambda>_. None) None), w')
     | (Inr (Local_user i _ role), w') \<Rightarrow>
         (case user_query (get_user_by_id i) w' of
            (Inl e, w'') \<Rightarrow> (Inl (api_of_store e), w'')
          | (Inr u, w'') \<Rightarrow>
              (Inr (answer ''local'' (Some role) (\<lambda>_. None)
                 (map_option (\<lambda>u. user_view lib u role (\<lambda>_. None)) u)), w''))
     | (Inr (Oidc_user subject _ roles), w') \<Rightarrow>
         (let role = rr_global roles; orgs = rr_per_org roles in
          case (case subject of
                  None \<Rightarrow> (Inr None, w') | Some s \<Rightarrow> user_query (get_user_by_oidc_sub s) w') of
            (Inl e, w'') \<Rightarrow> (Inl (api_of_store e), w'')
          | (Inr u, w'') \<Rightarrow>
              (Inr (answer ''oidc'' (Some role) orgs (map_option (\<lambda>u. user_view lib u role orgs) u)), w''))
     | (Inr Anonymous, w') \<Rightarrow> (Inr (answer ''anonymous'' None (\<lambda>_. None) None), w'))"

definition logout ::
  "auth_libs \<Rightarrow> api_state \<Rightarrow> header_map \<Rightarrow> user_world \<Rightarrow> (api_error + bool) \<times> user_world" where
  "logout lib st h w =
    (case resolve_auth_principal lib st h w of
       (Inl e, w') \<Rightarrow> (Inl e, w')
     | (Inr (Local_user i _ _), w') \<Rightarrow>
         (case user_statement (\<lambda>now. bump_session_version now i) w' of
            (Inl e, w'') \<Rightarrow> (Inl (api_of_store e), w'')
          | (Inr _, w'') \<Rightarrow> (Inr True, w''))
     | (Inr _, w') \<Rightarrow> (Inr False, w'))"

subsection \<open>The directory\<close>

definition list_users_route :: "auth_libs \<Rightarrow> user_world \<Rightarrow> (api_error + auth_user_view list) \<times> user_world" where
  "list_users_route lib w =
    (case user_query list_users w of
       (Inl e, w') \<Rightarrow> (Inl (api_of_store e), w')
     | (Inr us, w') \<Rightarrow> (Inr (map (plain_view lib) us), w'))"

record create_user_request =
  cu_username :: string
  cu_password :: string
  cu_role :: app_role
  cu_email :: "string option"
  cu_display_name :: "string option"

definition MIN_PASSWORD_LEN :: nat where "MIN_PASSWORD_LEN = 8"

definition has_white_space :: "string \<Rightarrow> bool" where
  "has_white_space s \<longleftrightarrow> list_ex (contains_str s) white_space"

definition new_local_user :: "create_user_request \<Rightarrow> string \<Rightarrow> string \<Rightarrow> app_user_insert" where
  "new_local_user b username hash =
    \<lparr>ai_username = Some username, ai_password_hash = Some hash, ai_oidc_sub = None,
     ai_email = trimmed_nonempty (cu_email b),
     ai_display_name = (case trimmed_nonempty (cu_display_name b) of Some n \<Rightarrow> Some n | None \<Rightarrow> Some username),
     ai_role = role_str (cu_role b), ai_auth_source = ''local''\<rparr>"

definition create_user ::
  "auth_libs \<Rightarrow> api_state \<Rightarrow> create_user_request \<Rightarrow> user_world \<Rightarrow> (api_error + auth_user_view) \<times> user_world" where
  "create_user lib st b w =
    (let username = trim (cu_username b) in
     if \<not> la_enabled (ap_local_auth (as_api st)) then
       (Inl (Bad_request (''local auth is disabled '' @ map byte [226, 128, 148]
          @ '' cannot create password users'')), w)
     else if la_session_secret (ap_local_auth (as_api st)) = None then (Inl (Bad_request no_session_secret), w)
     else if username = [] then (Inl (Bad_request ''username is required''), w)
     else if length username > 64 \<or> has_white_space username then
       (Inl (Bad_request (''username must be 1'' @ map byte [226, 128, 147]
          @ ''64 characters without whitespace'')), w)
     else if length (cu_password b) < MIN_PASSWORD_LEN then
       (Inl (Bad_request (''password must be at least '' @ show_nat MIN_PASSWORD_LEN @ '' characters'')), w)
     else (case user_query (get_user_by_username username) w of
         (Inl e, w') \<Rightarrow> (Inl (api_of_store e), w')
       | (Inr (Some _), w') \<Rightarrow>
           (Inl (Conflict (''username '' @ quoted username @ '' already exists'')), w')
       | (Inr None, w') \<Rightarrow> (case lb_hash lib (cu_password b) of
           Inl e \<Rightarrow> (Inl (Internal e), w')
         | Inr hash \<Rightarrow>
             (case user_statement (\<lambda>now. insert_user now (new_local_user b username hash)) w' of
                (Inl e, w'') \<Rightarrow> (Inl (api_of_store e), w'')
              | (Inr u, w'') \<Rightarrow> (Inr (user_view lib u (cu_role b) (\<lambda>_. None)), w'')))))"


record link_oidc_request =
  lk_email :: "string option"
  lk_oidc_sub :: "string option"

text \<open>The store's message decides the status.\<close>

definition link_error :: "string \<Rightarrow> store_error \<Rightarrow> api_error" where
  "link_error conflict e =
    (if contains_str (store_error_text e) ''no local app_user'' then Not_found (store_error_text e)
     else if contains_str (store_error_text e) conflict then Conflict (store_error_text e)
     else api_of_store e)"

definition link_result ::
  "auth_libs \<Rightarrow> string \<Rightarrow> (store_error + app_user) \<times> user_world \<Rightarrow> (api_error + auth_user_view) \<times> user_world" where
  "link_result lib conflict r =
    (case r of (Inl e, w) \<Rightarrow> (Inl (link_error conflict e), w) | (Inr u, w) \<Rightarrow> (Inr (plain_view lib u), w))"

definition bind_subject ::
  "auth_libs \<Rightarrow> int \<Rightarrow> string option \<Rightarrow> user_world \<Rightarrow> (api_error + auth_user_view) \<times> user_world" where
  "bind_subject lib i sub w =
    link_result lib ''already linked'' (user_statement (\<lambda>now. link_user_oidc_sub now i sub) w)"

definition link_user_oidc ::
  "auth_libs \<Rightarrow> int \<Rightarrow> link_oidc_request \<Rightarrow> user_world \<Rightarrow> (api_error + auth_user_view) \<times> user_world" where
  "link_user_oidc lib i b w =
    (case lk_oidc_sub b of
       None \<Rightarrow>
         link_result lib ''already used by user''
           (user_statement (\<lambda>now. set_user_oidc_link_email (uw_lower w) now i (trimmed_nonempty (lk_email b))) w)
     | Some _ \<Rightarrow>
         (case trimmed_nonempty (lk_oidc_sub b) of
            None \<Rightarrow> bind_subject lib i None w
          | Some sub \<Rightarrow>
              (case user_query (get_user_by_oidc_sub sub) w of
                 (Inl e, w') \<Rightarrow> (Inl (api_of_store e), w')
               | (Inr (Some owner), w') \<Rightarrow>
                   if au_id owner \<noteq> i then
                     (Inl (Conflict (''oidc_sub '' @ quoted sub @ '' is already linked to user ''
                        @ show_int (au_id owner))), w')
                   else bind_subject lib i (Some sub) w'
               | (Inr None, w') \<Rightarrow> bind_subject lib i (Some sub) w')))"

subsection \<open>The first administrator\<close>

definition first_admin :: "string \<Rightarrow> string \<Rightarrow> app_user_insert" where
  "first_admin username hash =
    \<lparr>ai_username = Some username, ai_password_hash = Some hash, ai_oidc_sub = None, ai_email = None,
     ai_display_name = Some username, ai_role = ''admin'', ai_auth_source = ''local''\<rparr>"

definition ensure_bootstrap_admin ::
  "auth_libs \<Rightarrow> api_config \<Rightarrow> user_world \<Rightarrow> (store_error + unit) \<times> user_world" where
  "ensure_bootstrap_admin lib a w =
    (let la = ap_local_auth a; username = trim (la_admin_username la) in
     if \<not> la_enabled la \<or> session_secret la = None then (Inr (), w)
     else (case user_query count_users w of
         (Inl e, w') \<Rightarrow> (Inl e, w')
       | (Inr n, w') \<Rightarrow>
           if n > 0 then (Inr (), w')
           else if username = [] then
             (Inl (Other_store
                ''api.local_auth.admin_username must not be empty when seeding the first admin''), w')
           else (case admin_password la of
               None \<Rightarrow> (Inr (), w')
             | Some password \<Rightarrow> (case lb_hash lib password of
                 Inl e \<Rightarrow> (Inl (Other_store e), w')
               | Inr hash \<Rightarrow>
                   (case user_statement (\<lambda>now. insert_user now (first_admin username hash)) w' of
                      (Inl e, w'') \<Rightarrow> (Inl e, w'') | (Inr _, w'') \<Rightarrow> (Inr (), w''))))))"


end
