(* ===== verification/Access_Safety.thy ===== *)
theory Access_Safety
  imports Access
begin

text \<open>
  The guarantees of the access model: role decisions, sessions and their revocation, password
  sign-in, and the gate of configuration pushes.  Between two requests the user table changes only
  by statements of the program (\<^verbatim>\<open>reach\<close>).
\<close>

section \<open>What the calls of a request leave behind\<close>

text \<open>The table of a later moment comes from an earlier one by statements of the program.\<close>

definition reach :: "user_world \<Rightarrow> user_world \<Rightarrow> bool" where
  "reach w w' \<longleftrightarrow> uw_lower w' = uw_lower w
     \<and> (\<exists>ps. uw_table w' = run_users (uw_lower w) ps (uw_table w))"

definition moves :: "(user_world \<Rightarrow> 'a \<times> user_world) \<Rightarrow> bool" where
  "moves f \<longleftrightarrow> (\<forall>w. reach w (snd (f w)))"

lemma run_users_append: "run_users lower (ps @ qs) t = run_users lower qs (run_users lower ps t)"
  by (induction lower ps t rule: run_users.induct) simp_all

lemma reach_refl [simp, intro]: "reach w w"
  unfolding reach_def by (metis run_users.simps(1))

lemma reach_trans: "reach u v \<Longrightarrow> reach v w \<Longrightarrow> reach u w"
  unfolding reach_def by (metis run_users_append)

lemma reach_ok: "reach w w' \<Longrightarrow> users_ok (uw_table w) \<Longrightarrow> users_ok (uw_table w')"
  by (auto simp: reach_def run_users_ok)

lemma reach_version:
  "reach w w' \<Longrightarrow> get_user_by_id i (uw_table w) = Some u
     \<Longrightarrow> \<exists>v. get_user_by_id i (uw_table w') = Some v \<and> au_session_version u \<le> au_session_version v"
  unfolding reach_def by (metis run_users_version)

lemma user_call_reach:
  assumes "\<And>now t. \<exists>ps. snd (f now t) = run_users (uw_lower w) ps t"
  shows "reach w (snd (user_call f w))"
proof -
  let ?n = "uw_calls w"
  let ?t = "run_users (uw_lower w) (uw_others w ?n) (uw_table w)"
  obtain ps where ps: "snd (f (uw_clock w ?n) ?t) = run_users (uw_lower w) ps ?t" using assms by blast
  then have "snd (f (uw_clock w ?n) ?t) = run_users (uw_lower w) (uw_others w ?n @ ps) (uw_table w)"
    by (simp add: run_users_append)
  then show ?thesis
    by (auto simp: reach_def user_call_def Let_def split_beta split: option.splits user_fault.splits)
qed

lemma user_query_reach [simp]: "reach w (snd (user_query q w))"
  unfolding user_query_def by (rule user_call_reach) (metis run_users.simps(1) snd_conv)

lemma user_statement_reach:
  assumes "\<And>now t. \<exists>p. snd (f now t) = exec_user (uw_lower w) now p t"
  shows "reach w (snd (user_statement f w))"
  unfolding user_statement_def
proof (rule user_call_reach)
  fix now t
  obtain p where "snd (f now t) = exec_user (uw_lower w) now p t" using assms by blast
  moreover have "snd (case f now t of (Inl m, t') \<Rightarrow> (Inl (statement_error m), t') | (Inr r, t') \<Rightarrow> (Inr r, t'))
      = snd (f now t)"
    by (auto split: prod.splits sum.splits)
  ultimately have "snd (case f now t of (Inl m, t') \<Rightarrow> (Inl (statement_error m), t') | (Inr r, t') \<Rightarrow> (Inr r, t'))
      = run_users (uw_lower w) [(now, p)] t" by simp
  then show "\<exists>ps. snd (case f now t of (Inl m, t') \<Rightarrow> (Inl (statement_error m), t') | (Inr r, t') \<Rightarrow> (Inr r, t'))
      = run_users (uw_lower w) ps t" by blast
qed

lemma statement_reach [simp]:
  "reach w (snd (user_statement (\<lambda>now. insert_user now b) w))"
  "reach w (snd (user_statement (\<lambda>now. bump_session_version now i) w))"
  "reach w (snd (user_statement (\<lambda>now. link_user_oidc_sub now i s) w))"
  "reach w (snd (user_statement (\<lambda>now. set_user_oidc_link_email (uw_lower w) now i e) w))"
  "reach w (snd (user_statement (\<lambda>now. upsert_oidc_user (uw_lower w) now o') w))"
  by (rule user_statement_reach, metis exec_user.simps)+

lemma touch_reach [simp]: "reach w (snd (user_call (\<lambda>now t. (Inr (), touch_user_last_login now i t)) w))"
proof (rule user_call_reach)
  fix now t
  have "touch_user_last_login now i t = run_users (uw_lower w) [(now, User_touch i)] t" by simp
  then show "\<exists>ps. snd (Inr (), touch_user_last_login now i t) = run_users (uw_lower w) ps t" by (metis snd_conv)
qed

lemma reach_of: "reach w (snd p) \<Longrightarrow> p = (r, w') \<Longrightarrow> reach w w'"
  by simp


lemmas call_reaches =
  user_query_reach [THEN reach_of] statement_reach [THEN reach_of] touch_reach [THEN reach_of]

lemma query_result:
  assumes "user_query q w = (Inr r, w')"
  shows "r = q (uw_table w') \<and> uw_table w' = table_at_call w \<and> reach w w'"
  using assms user_query_reach [of w q]
  by (auto simp: user_query_def user_call_def table_at_call_def Let_def split: option.splits user_fault.splits)

lemma session_principal_reach [simp]: "reach w (snd (session_principal c w))"
  unfolding session_principal_def by (auto split: prod.splits sum.splits if_splits dest: call_reaches)

lemma resolve_reach [simp]: "reach w (snd (resolve_auth_principal lib st h w))"
  by (auto simp: resolve_auth_principal_def Let_def split: option.splits sum.splits)

lemma login_reach: "reach w (snd (login lib st name password w))"
  by (auto simp: login_def grant_session_def Let_def split: option.splits sum.splits prod.splits
      dest!: call_reaches intro: reach_trans)

lemma logout_reach: "reach w (snd (logout lib st h w))"
  by (auto simp: logout_def split: auth_principal.splits sum.splits prod.splits
      dest!: call_reaches resolve_reach [THEN reach_of] intro: reach_trans)

lemma oidc_sync_reach: "reach w (snd (oidc_sync lib st h w))"
  by (auto simp: oidc_sync_def Let_def split: option.splits sum.splits prod.splits
      dest!: call_reaches intro: reach_trans)

lemma me_reach: "reach w (snd (me lib st h w))"
  by (auto simp: me_def Let_def split: auth_principal.splits option.splits sum.splits prod.splits
      dest!: call_reaches resolve_reach [THEN reach_of] intro: reach_trans)

lemma create_user_reach: "reach w (snd (create_user lib st b w))"
  by (auto simp: create_user_def Let_def split: option.splits sum.splits prod.splits
      dest!: call_reaches intro: reach_trans)

lemma link_result_reach: "reach w (snd r) \<Longrightarrow> reach w (snd (link_result lib s r))"
  by (auto simp: link_result_def split: prod.splits sum.splits)

lemma bind_subject_reach [simp]: "reach w (snd (bind_subject lib i sub w))"
  unfolding bind_subject_def by (rule link_result_reach) simp

lemma link_user_oidc_reach: "reach w (snd (link_user_oidc lib i b w))"
  by (auto simp: link_user_oidc_def Let_def split: option.splits sum.splits prod.splits if_splits
      dest!: call_reaches intro: reach_trans intro!: link_result_reach)

lemma bootstrap_reach: "reach w (snd (ensure_bootstrap_admin lib a w))"
  by (auto simp: ensure_bootstrap_admin_def Let_def split: option.splits sum.splits prod.splits
      dest!: call_reaches intro: reach_trans)

lemmas handler_reaches =
  login_reach logout_reach oidc_sync_reach me_reach create_user_reach link_user_oidc_reach bootstrap_reach


section \<open>Role decisions\<close>

fun aliases_of :: "role_aliases \<Rightarrow> app_role \<Rightarrow> string list" where
  "aliases_of as Admin = al_admin as"
| "aliases_of as Operator = al_operator as"
| "aliases_of as Viewer = al_viewer as"

definition names_role :: "role_aliases \<Rightarrow> string \<Rightarrow> app_role \<Rightarrow> bool" where
  "names_role as name r \<longleftrightarrow> (\<exists>a \<in> set (aliases_of as r). to_ascii_lowercase a = to_ascii_lowercase name)"

text \<open>A bare claim grants its role everywhere, a scoped one in its organization.\<close>

definition bare_grant :: "role_aliases \<Rightarrow> string list \<Rightarrow> app_role \<Rightarrow> bool" where
  "bare_grant as claimed r \<longleftrightarrow> (\<exists>claim \<in> set claimed. names_role as claim r)"

definition org_grant :: "role_aliases \<Rightarrow> string list \<Rightarrow> string \<Rightarrow> app_role \<Rightarrow> bool" where
  "org_grant as claimed org r \<longleftrightarrow>
     (\<exists>claim \<in> set claimed. \<exists>name scope. split_once '':'' claim = Some (name, scope)
        \<and> trim scope \<noteq> [] \<and> trim scope = org \<and> names_role as (trim name) r)"

lemma ex_role: "(\<exists>r. P r) \<longleftrightarrow> P Viewer \<or> P Operator \<or> P Admin"
  by (metis app_role.exhaust)

lemma role_max_allows: "role_allows (role_max r s) m \<longleftrightarrow> role_allows r m \<or> role_allows s m"
  by (auto simp: role_max_def role_allows_def)

lemma app_role_allows:
  "role_allows (resolve_app_role claimed as fallback) m
     \<longleftrightarrow> role_allows fallback m \<or> (\<exists>r. role_allows r m \<and> bare_grant as claimed r)"
proof -
  have hit: "list_ex (\<lambda>a. to_ascii_lowercase a \<in> set (map to_ascii_lowercase claimed)) (aliases_of as r)
      = bare_grant as claimed r" for r
    by (auto simp: list_ex_iff bare_grant_def names_role_def)
  show ?thesis
    using hit [of Admin] hit [of Operator] hit [of Viewer]
    by (cases fallback; cases m) (simp_all add: resolve_app_role_def Let_def role_allows_def ex_role)
qed

lemma alias_allows:
  "(case role_for_alias name as of None \<Rightarrow> False | Some r \<Rightarrow> role_allows r m)
     \<longleftrightarrow> (\<exists>r. role_allows r m \<and> names_role as (trim name) r)"
  by (cases m) (auto simp: role_for_alias_def Let_def list_ex_iff names_role_def ex_role role_allows_def)

definition scoped_allows :: "(string \<Rightarrow> app_role option) \<Rightarrow> string \<Rightarrow> app_role \<Rightarrow> bool" where
  "scoped_allows per_org org m \<longleftrightarrow> (case per_org org of None \<Rightarrow> False | Some r \<Rightarrow> role_allows r m)"

lemma grant_org_allows:
  "scoped_allows (grant_org as claim per_org) org m
     \<longleftrightarrow> scoped_allows per_org org m \<or> (\<exists>r. role_allows r m \<and> org_grant as [claim] org r)"
proof (cases "split_once '':'' claim")
  case None
  then show ?thesis by (simp add: grant_org_def org_grant_def)
next
  case (Some p)
  then obtain name scope where s: "split_once '':'' claim = Some (name, scope)" by (metis surj_pair)
  have grant: "(\<exists>r. role_allows r m \<and> org_grant as [claim] org r) \<longleftrightarrow>
      trim scope \<noteq> [] \<and> trim scope = org
        \<and> (case role_for_alias name as of None \<Rightarrow> False | Some r \<Rightarrow> role_allows r m)"
    using s alias_allows [of m name as] by (auto simp: org_grant_def)
  show ?thesis unfolding grant
    using s by (auto simp: grant_org_def scoped_allows_def role_max_allows split: option.splits)
qed

lemma org_grant_cons:
  "org_grant as (claim # claimed) org r \<longleftrightarrow> org_grant as [claim] org r \<or> org_grant as claimed org r"
  by (auto simp: org_grant_def)

lemma per_org_allows:
  "scoped_allows (fold (grant_org as) claimed per_org) org m
     \<longleftrightarrow> scoped_allows per_org org m \<or> (\<exists>r. role_allows r m \<and> org_grant as claimed org r)"
proof (induction claimed arbitrary: per_org)
  case Nil
  then show ?case by (simp add: org_grant_def)
next
  case (Cons claim claimed)
  show ?case using Cons [of "grant_org as claim per_org"] grant_org_allows [of as claim per_org org m]
    org_grant_cons [of as claim claimed org] by (simp only: fold_simps(2)) blast
qed

lemma for_org_allows:
  "role_allows (for_org rs organization) m
     \<longleftrightarrow> role_allows (rr_global rs) m \<or> (\<exists>org. organization = Some org \<and> scoped_allows (rr_per_org rs) org m)"
  by (auto simp: for_org_def scoped_allows_def role_max_allows split: option.splits)

lemma authorize_iff:
  "authorize_for_org p m organization = Inr ()
     \<longleftrightarrow> (case role_for_org p organization of None \<Rightarrow> True | Some r \<Rightarrow> role_allows r m)"
  by (simp add: authorize_for_org_def split: option.splits)

text \<open>
  C31: an identity provider user reaches a minimum role, instance wide or in an organization, exactly
  when the configured default role does, or a claimed group names a sufficient role, bare or scoped
  to that organization.
\<close>

theorem oidc_authorization_exact:
  "authorize_for_org (oidc_principal c claims) m organization = Inr () \<longleftrightarrow>
     role_allows (oidc_fallback c) m
     \<or> (\<exists>r. role_allows r m
          \<and> (bare_grant (oidc_aliases c) (claim_strings claims (od_role_claim c)) r
             \<or> (\<exists>org. organization = Some org
                  \<and> org_grant (oidc_aliases c) (claim_strings claims (od_role_claim c)) org r)))"
  unfolding authorize_iff oidc_principal_def oidc_roles_def resolve_resolved_roles_def
  by (simp add: for_org_allows app_role_allows per_org_allows scoped_allows_def [of "\<lambda>_. None"]) blast


section \<open>Sessions\<close>

text \<open>The claims of the local session that a request presents, if it does.\<close>

definition session_of :: "auth_libs \<Rightarrow> api_state \<Rightarrow> header_map \<Rightarrow> session_claims option" where
  "session_of lib st h =
    (case bearer_token h of
       None \<Rightarrow> None
     | Some token \<Rightarrow>
         if nonempty_option (ap_api_key (as_api st)) = Some token then None
         else (case verification_secret (as_api st) of
             None \<Rightarrow> None
           | Some s \<Rightarrow> (case validate_session_token (lb_jwt lib) (lb_now lib) s token of
               Inl _ \<Rightarrow> None | Inr c \<Rightarrow> Some c)))"

lemma nonempty_option_Some: "nonempty_option v = Some s \<longleftrightarrow> v = Some s \<and> s \<noteq> []"
  by (auto simp: nonempty_option_def split: option.splits)

lemma require_api_key_iff:
  "bearer_token h = Some token \<Longrightarrow> nonempty_option key \<noteq> None
     \<Longrightarrow> isl (require_api_key h key) \<longleftrightarrow> nonempty_option key \<noteq> Some token"
  by (auto simp: require_api_key_def nonempty_option_def text_or_empty_def split: option.splits if_splits)

lemma resolve_session:
  assumes "session_of lib st h = Some c"
  shows "resolve_auth_principal lib st h w = session_principal c w"
proof -
  obtain token s where token: "bearer_token h = Some token" "nonempty_option (ap_api_key (as_api st)) \<noteq> Some token"
      "verification_secret (as_api st) = Some s"
      "validate_session_token (lb_jwt lib) (lb_now lib) s token = Inr c"
    using assms by (auto simp: session_of_def split: option.splits if_splits sum.splits)
  have "nonempty_option (ap_api_key (as_api st)) \<noteq> None \<Longrightarrow> isl (require_api_key h (ap_api_key (as_api st)))"
    using require_api_key_iff [OF token(1)] token(2) by blast
  then show ?thesis using token by (auto simp: resolve_auth_principal_def Let_def)
qed

lemma session_principal_Inr:
  assumes "session_principal c w = (Inr p, w')"
  shows "reach w w' \<and> p = Local_user (cl_uid c) (cl_username c) (cl_role c)
    \<and> map_option au_session_version (get_user_by_id (cl_uid c) (uw_table w')) = Some (cl_ver c)"
  using assms query_result [of "get_user_by_id (cl_uid c)" w]
  by (auto simp: session_principal_def split: prod.splits sum.splits if_splits)

lemma statement_result:
  assumes "user_statement f w = (Inr r, w')"
  shows "\<exists>w0 now. reach w w0 \<and> f now (uw_table w0) = (Inr r, uw_table w')"
proof -
  let ?n = "uw_calls w"
  let ?t = "run_users (uw_lower w) (uw_others w ?n) (uw_table w)"
  have "f (uw_clock w ?n) ?t = (Inr r, uw_table w')"
    using assms
    by (auto simp: user_statement_def user_call_def Let_def split: prod.splits sum.splits option.splits user_fault.splits)
  moreover have "reach w (w\<lparr>uw_table := ?t\<rparr>)" by (auto simp: reach_def)
  moreover have "uw_table (w\<lparr>uw_table := ?t\<rparr>) = ?t" by simp
  ultimately show ?thesis by metis
qed

lemma session_needs_version:
  assumes "get_user_by_id (cl_uid c) (uw_table w) = Some u" and "cl_ver c < au_session_version u"
  shows "isl (fst (session_principal c w))"
proof (cases "session_principal c w")
  case (Pair r w')
  show ?thesis
  proof (cases r)
    case (Inr p)
    have "reach w w'" "map_option au_session_version (get_user_by_id (cl_uid c) (uw_table w')) = Some (cl_ver c)"
      using session_principal_Inr [of c w p w'] Pair Inr by simp_all
    then show ?thesis using reach_version [of w w' _ u] assms by fastforce
  qed (simp add: Pair)
qed

lemma logout_bumps:
  assumes "session_of lib st h = Some c" and "logout lib st h w = (Inr r, w1)"
  shows "\<exists>v. get_user_by_id (cl_uid c) (uw_table w1) = Some v \<and> cl_ver c < au_session_version v"
proof -
  obtain p w' n where p: "session_principal c w = (Inr p, w')"
      "user_statement (\<lambda>now. bump_session_version now (cl_uid c)) w' = (Inr n, w1)"
    using assms(2) session_principal_Inr [of c w]
    by (auto simp: logout_def resolve_session [OF assms(1)] split: prod.splits sum.splits auth_principal.splits)
  obtain u where u: "get_user_by_id (cl_uid c) (uw_table w') = Some u" "au_session_version u = cl_ver c"
    using session_principal_Inr [OF p(1)] by auto
  obtain w0 now where w0: "reach w' w0" "bump_session_version now (cl_uid c) (uw_table w0) = (Inr n, uw_table w1)"
    using statement_result [OF p(2)] by auto
  obtain v where "get_user_by_id (cl_uid c) (uw_table w0) = Some v" "cl_ver c \<le> au_session_version v"
    using reach_version [OF w0(1) u(1)] u(2) by auto
  then show ?thesis using bump_version [OF w0(2)] by auto
qed

text \<open>
  C3: a sign-out that reports success revokes every session of that account issued up to then: at any
  later moment a request that presents such a token is refused, whatever other requests did and
  whichever calls of the store fail.
\<close>

theorem logout_revokes:
  assumes "session_of lib st h = Some c" and "logout lib st h w = (Inr r, w1)" and "reach w1 w2"
    and "session_of lib' st' h' = Some c'" and "cl_uid c' = cl_uid c" and "cl_ver c' \<le> cl_ver c"
  shows "isl (fst (resolve_auth_principal lib' st' h' w2))"
proof -
  obtain v where v: "get_user_by_id (cl_uid c) (uw_table w1) = Some v" "cl_ver c < au_session_version v"
    using logout_bumps [OF assms(1,2)] by blast
  obtain u where "get_user_by_id (cl_uid c) (uw_table w2) = Some u" "cl_ver c < au_session_version u"
    using reach_version [OF assms(3) v(1)] v(2) by force
  then show ?thesis
    using session_needs_version [of c' w2 u] assms(5,6) by (simp add: resolve_session [OF assms(4)])
qed


section \<open>Password sign-in\<close>

definition session_claims_for :: "nat \<Rightarrow> string \<Rightarrow> app_user \<Rightarrow> nat \<Rightarrow> session_claims" where
  "session_claims_for now username u ttl =
    \<lparr>cl_sub = ''local:'' @ show_int (au_id u), cl_iss = SESSION_ISS, cl_typ = SESSION_TYP, cl_uid = au_id u,
     cl_role = row_role u, cl_username = username, cl_ver = au_session_version u,
     cl_exp = min U64_MAX (now + max ttl 60), cl_iat = now\<rparr>"

lemma login_cases:
  assumes "login lib st name password w = (Inr r, w')"
  shows "\<exists>secret u. la_enabled (ap_local_auth (as_api st))
      \<and> session_secret (ap_local_auth (as_api st)) = Some secret \<and> trim name \<noteq> []
      \<and> get_user_by_username (trim name) (table_at_call w) = Some u
      \<and> password_matches lib password (Some u) \<and> lr_role r = row_role u
      \<and> jw_encode (lb_jwt lib) secret (session_claims_for (lb_now lib) (trim name) u
            (la_session_ttl_secs (ap_local_auth (as_api st)))) = Inr (lr_access_token r)"
proof -
  obtain secret w0 row where 1: "la_enabled (ap_local_auth (as_api st))"
      "session_secret (ap_local_auth (as_api st)) = Some secret" "trim name \<noteq> []"
      "user_query (get_user_by_username (trim name)) w = (Inr row, w0)"
      "password_matches lib password row"
      "(case row of Some u \<Rightarrow> grant_session lib st secret (trim name) u w0 | None \<Rightarrow> (Inl bad_credentials, w0))
         = (Inr r, w')"
    using assms by (auto simp: login_def Let_def split: if_splits option.splits prod.splits sum.splits)
  obtain u where u: "row = Some u" "grant_session lib st secret (trim name) u w0 = (Inr r, w')"
    using 1(6) by (auto split: option.splits)
  have "jw_encode (lb_jwt lib) secret (session_claims_for (lb_now lib) (trim name) u
            (la_session_ttl_secs (ap_local_auth (as_api st)))) = Inr (lr_access_token r) \<and> lr_role r = row_role u"
    using u(2) by (auto simp: grant_session_def issue_session_token_def session_claims_for_def Let_def
        split: sum.splits prod.splits)
  then show ?thesis using 1 u query_result [OF 1(4)] by metis
qed

lemma session_accepted:
  assumes "uw_fault w (uw_calls w) = None"
    and "map_option au_session_version (get_user_by_id (cl_uid c) (table_at_call w)) = Some (cl_ver c)"
  shows "fst (session_principal c w) = Inr (Local_user (cl_uid c) (cl_username c) (cl_role c))"
  using assms by (simp add: session_principal_def user_query_def user_call_def Let_def table_at_call_def)

text \<open>
  a password sign-in succeeds only for a local row of that name whose stored hash the password
  matches, and a later request with its token acts as that user, with the role of the row, until the
  token expires or the version of the row changes.  The token library is assumed to decode what it
  encoded, before the expiry.
\<close>

theorem login_opens_session:
  assumes login: "login lib st name password w = (Inr r, w1)"
    and jwt: "\<And>s c. jw_encode (lb_jwt lib) s c = Inr (lr_access_token r) \<Longrightarrow> lb_now lib' < cl_exp c
        \<Longrightarrow> jw_decode (lb_jwt lib') s (lb_now lib') (lr_access_token r) = Inr c"
  shows "\<exists>u. get_user_by_username (trim name) (table_at_call w) = Some u
    \<and> au_auth_source u = ''local'' \<and> lb_verify lib password (text_or_empty (au_password_hash u))
    \<and> (\<forall>h w2. bearer_token h = Some (lr_access_token r) \<longrightarrow> 0 < au_id u
         \<longrightarrow> nonempty_option (ap_api_key (as_api st)) \<noteq> Some (lr_access_token r)
         \<longrightarrow> lb_now lib' < min U64_MAX (lb_now lib + max (la_session_ttl_secs (ap_local_auth (as_api st))) 60)
         \<longrightarrow> uw_fault w2 (uw_calls w2) = None
         \<longrightarrow> map_option au_session_version (get_user_by_id (au_id u) (table_at_call w2))
               = Some (au_session_version u)
         \<longrightarrow> fst (resolve_auth_principal lib' st h w2) = Inr (Local_user (au_id u) (trim name) (row_role u)))"
proof -
  obtain secret u where u: "la_enabled (ap_local_auth (as_api st))"
      "session_secret (ap_local_auth (as_api st)) = Some secret" "trim name \<noteq> []"
      "get_user_by_username (trim name) (table_at_call w) = Some u" "password_matches lib password (Some u)"
      "jw_encode (lb_jwt lib) secret (session_claims_for (lb_now lib) (trim name) u
            (la_session_ttl_secs (ap_local_auth (as_api st)))) = Inr (lr_access_token r)"
    using login_cases [OF login] by blast
  let ?c = "session_claims_for (lb_now lib) (trim name) u (la_session_ttl_secs (ap_local_auth (as_api st)))"
  have c: "cl_uid ?c = au_id u" "cl_ver ?c = au_session_version u" "cl_username ?c = trim name"
      "cl_role ?c = row_role u" "cl_typ ?c = SESSION_TYP"
      "cl_exp ?c = min U64_MAX (lb_now lib + max (la_session_ttl_secs (ap_local_auth (as_api st))) 60)"
    by (simp_all add: session_claims_for_def)
  have secret: "verification_secret (as_api st) = Some secret"
    using u(1,2) by (auto simp: verification_secret_def session_secret_def nonempty_option_Some)
  have "fst (resolve_auth_principal lib' st h w2) = Inr (Local_user (au_id u) (trim name) (row_role u))"
    if h: "bearer_token h = Some (lr_access_token r)" "0 < au_id u"
      "nonempty_option (ap_api_key (as_api st)) \<noteq> Some (lr_access_token r)"
      "lb_now lib' < cl_exp ?c" "uw_fault w2 (uw_calls w2) = None"
      "map_option au_session_version (get_user_by_id (au_id u) (table_at_call w2)) = Some (au_session_version u)"
    for h w2
  proof -
    have "validate_session_token (lb_jwt lib') (lb_now lib') secret (lr_access_token r) = Inr ?c"
      using jwt [OF u(6) h(4)] c u(3) h(2) by (simp add: validate_session_token_def)
    then have "session_of lib' st h = Some ?c" using h(1,3) secret by (simp add: session_of_def)
    then show ?thesis using session_accepted [of w2 ?c] h(5,6) c by (simp add: resolve_session)
  qed
  moreover have "au_auth_source u = ''local''" "lb_verify lib password (text_or_empty (au_password_hash u))"
    using u(5) by (auto simp: password_matches_def local_hash_def text_or_empty_def Let_def split: if_splits option.splits)
  ultimately show ?thesis using u(4) c(6) by (intro exI [of _ u]) metis
qed


section \<open>Examples\<close>

definition example_claims :: "app_role \<Rightarrow> session_claims" where
  "example_claims role =
    \<lparr>cl_sub = ''local:1'', cl_iss = SESSION_ISS, cl_typ = SESSION_TYP, cl_uid = 1, cl_role = role,
     cl_username = ''admin'', cl_ver = 0, cl_exp = 1060, cl_iat = 1000\<rparr>"

text \<open>A token library with one token under each key.\<close>

definition example_jwt :: "string \<Rightarrow> session_claims \<Rightarrow> jwt_lib" where
  "example_jwt key c =
    \<lparr>jw_encode = (\<lambda>s c'. if s = key \<and> c' = c then Inr ''tok'' else Inl ''no''),
     jw_decode = (\<lambda>s now t. if s = key \<and> t = ''tok'' \<and> now < cl_exp c then Inr c else Inl ''no'')\<rparr>"

definition example_auth_libs :: "string \<Rightarrow> session_claims \<Rightarrow> auth_libs" where
  "example_auth_libs key c =
    \<lparr>lb_jwt = example_jwt key c, lb_oidc = \<lparr>ol_header = (\<lambda>_. Inl ''no''), ol_decode = (\<lambda>_ _ _ _ _ _. Inl ''no'')\<rparr>,
     lb_hmac = (\<lambda>s body. s @ body), lb_hash = (\<lambda>p. Inr ('':'' @ p)), lb_verify = (\<lambda>p h. h = ''phc'' \<and> p = ''pw''),
     lb_decoy = ''decoy'', lb_rfc3339 = (\<lambda>_. ''t''), lb_now = 1000\<rparr>"

definition example_state :: "string option \<Rightarrow> api_state" where
  "example_state secret =
    \<lparr>as_api = api_default\<lparr>ap_local_auth := local_auth_default\<lparr>la_session_secret := secret,
        la_session_ttl_secs := 30\<rparr>\<rparr>,
     as_config_api = \<lparr>ca_api_config = True, ca_apply_scope = None, ca_source = Api_ledger, ca_ui_config = True\<rparr>,
     as_oidc = None, as_env = \<lparr>te_var = (\<lambda>_. None), te_vault = (\<lambda>v. Some ''sig'')\<rparr>\<rparr>"

definition example_user_world :: user_world where
  "example_user_world =
    \<lparr>uw_table = example_users, uw_calls = 0, uw_lower = to_ascii_lowercase, uw_clock = (\<lambda>n. 9),
     uw_others = (\<lambda>_. []), uw_fault = (\<lambda>_. None)\<rparr>"

definition example_headers :: header_map where
  "example_headers = [(''authorization'', Text ''Bearer tok''), (''x-config-signature'', Text ''sha256=sigbody'')]"

abbreviation example_session_libs :: auth_libs where
  "example_session_libs \<equiv> example_auth_libs ''k'' (example_claims Admin)"

lemma example_session: "session_of example_session_libs (example_state (Some ''k'')) example_headers = Some (example_claims Admin)"
  by code_simp

text \<open>After a sign-out the token of the example is refused.\<close>

theorem logout_revokes_witness:
  "\<exists>w1. logout example_session_libs (example_state (Some ''k'')) example_headers example_user_world = (Inr True, w1)
     \<and> isl (fst (resolve_auth_principal example_session_libs (example_state (Some ''k'')) example_headers w1))"
proof -
  let ?out = "logout example_session_libs (example_state (Some ''k'')) example_headers example_user_world"
  have "fst ?out = Inr True" by code_simp
  then obtain w1 where w1: "?out = (Inr True, w1)" by (metis prod.collapse)
  show ?thesis
    using logout_revokes [OF example_session w1 reach_refl example_session] w1 by simp
qed


text \<open>The password of the example opens a session that the next request uses.\<close>

theorem login_opens_session_witness:
  "\<exists>r w1. login example_session_libs (example_state (Some ''k'')) '' admin '' ''pw'' example_user_world = (Inr r, w1)
     \<and> fst (resolve_auth_principal example_session_libs (example_state (Some ''k'')) example_headers w1)
         = Inr (Local_user 1 ''admin'' Admin)"
proof -
  let ?libs = "example_session_libs" and ?st = "example_state (Some ''k'')"
  let ?in = "login ?libs ?st '' admin '' ''pw'' example_user_world"
  have ok: "map_sum id lr_access_token (fst ?in) = Inr ''tok''" by code_simp
  obtain r w1 where r: "?in = (Inr r, w1)" "lr_access_token r = ''tok''"
    using ok by (cases ?in; cases "fst ?in") auto
  have w1: "w1 = snd ?in" using r(1) by simp
  have fault: "uw_fault w1 (uw_calls w1) = None" unfolding w1 by code_simp
  have one: "map au_id (ut_rows (uw_table w1)) = [1]" unfolding w1 by code_simp
  have row: "map_option au_session_version (get_user_by_id 1 (table_at_call w1)) = Some 0" unfolding w1 by code_simp
  have bearer: "bearer_token example_headers = Some (lr_access_token r)" unfolding r(2) by code_simp
  have key: "nonempty_option (ap_api_key (as_api ?st)) \<noteq> Some (lr_access_token r)" unfolding r(2) by code_simp
  have now: "lb_now ?libs < min U64_MAX (lb_now ?libs + max (la_session_ttl_secs (ap_local_auth (as_api ?st))) 60)"
    by code_simp
  have jwt: "jw_decode (lb_jwt ?libs) s (lb_now ?libs) (lr_access_token r) = Inr c"
    if "jw_encode (lb_jwt ?libs) s c = Inr (lr_access_token r)" "lb_now ?libs < cl_exp c" for s c
    using that r(2) by (simp add: example_auth_libs_def example_jwt_def split: if_splits)
  have found: "get_user_by_username (trim '' admin '') (table_at_call example_user_world) = Some example_admin"
    by code_simp
  have admin: "au_id example_admin = 1" "au_session_version example_admin = 0" "row_role example_admin = Admin"
      "trim '' admin '' = ''admin''" by code_simp+
  show ?thesis
    using login_opens_session [OF r(1), of ?libs, OF jwt] bearer key now fault row found admin r(1)
    by auto
qed


section \<open>An empty session secret\<close>

text \<open>
  an empty configured session secret counts as no secret where sign-in is offered, but tokens
  are checked with it: local sign-in is off, and whoever signs claims with the empty key acts as the
  user they name, with the role they name, if the version matches.
\<close>

theorem empty_secret_accepted:
  assumes "la_enabled (ap_local_auth (as_api st))" and "la_session_secret (ap_local_auth (as_api st)) = Some []"
    and "bearer_token h = Some token" and "nonempty_option (ap_api_key (as_api st)) \<noteq> Some token"
    and "validate_session_token (lb_jwt lib) (lb_now lib) [] token = Inr c"
    and "uw_fault w (uw_calls w) = None"
    and "map_option au_session_version (get_user_by_id (cl_uid c) (table_at_call w)) = Some (cl_ver c)"
  shows "\<not> local_auth_configured (as_api st) \<and> isl (fst (login lib st name password w))
    \<and> fst (resolve_auth_principal lib st h w) = Inr (Local_user (cl_uid c) (cl_username c) (cl_role c))"
proof -
  have none: "session_secret (ap_local_auth (as_api st)) = None"
    by (simp add: session_secret_def nonempty_option_def assms(2))
  have "verification_secret (as_api st) = Some []" by (simp add: verification_secret_def assms(1,2))
  then have "session_of lib st h = Some c" using assms(3-5) by (simp add: session_of_def)
  then show ?thesis
    using none session_accepted [OF assms(6,7)]
    by (simp add: resolve_session local_auth_configured_def login_def assms(1))
qed

text \<open>A viewer account of the identity provider, and a forged administrator token for it.\<close>

definition example_viewer :: app_user where
  "example_viewer =
    \<lparr>au_id = 1, au_username = None, au_password_hash = None, au_oidc_sub = Some ''s1'',
     au_email = None, au_display_name = None, au_role = ''viewer'', au_auth_source = ''oidc'',
     au_created_at = 5, au_updated_at = 5, au_last_login_at = None, au_session_version = 0\<rparr>"

definition viewer_world :: user_world where
  "viewer_world = example_user_world\<lparr>uw_table := \<lparr>ut_rows = [example_viewer], ut_next_id = 2\<rparr>\<rparr>"

theorem empty_secret_accepted_witness:
  "users_ok (uw_table viewer_world)
   \<and> fst (resolve_auth_principal (example_auth_libs [] (example_claims Admin)) (example_state (Some [])) example_headers
        viewer_world) = Inr (Local_user 1 ''admin'' Admin)
   \<and> authorize (Local_user 1 ''admin'' Admin) Admin = Inr ()"
proof -
  let ?libs = "example_auth_libs [] (example_claims Admin)" and ?st = "example_state (Some [])"
  have "la_enabled (ap_local_auth (as_api ?st))" "la_session_secret (ap_local_auth (as_api ?st)) = Some []"
    "bearer_token example_headers = Some ''tok''" "nonempty_option (ap_api_key (as_api ?st)) \<noteq> Some ''tok''"
    "validate_session_token (lb_jwt ?libs) (lb_now ?libs) [] ''tok'' = Inr (example_claims Admin)"
    "uw_fault viewer_world (uw_calls viewer_world) = None"
    "map_option au_session_version (get_user_by_id (cl_uid (example_claims Admin)) (table_at_call viewer_world))
       = Some (cl_ver (example_claims Admin))"
    by code_simp+
  from empty_secret_accepted [OF this, of "[]" "[]"]
  have "fst (resolve_auth_principal ?libs ?st example_headers viewer_world) = Inr (Local_user 1 ''admin'' Admin)"
    by (simp add: example_claims_def)
  moreover have "users_ok (uw_table viewer_world)" "authorize (Local_user 1 ''admin'' Admin) Admin = Inr ()"
    by code_simp+
  ultimately show ?thesis by simp
qed

section \<open>Configuration pushes\<close>

definition signed_by :: "hmac_hex \<Rightarrow> header_map \<Rightarrow> string option \<Rightarrow> string \<Rightarrow> bool" where
  "signed_by hmac h secret body \<longleftrightarrow>
     (case nonempty_option secret of
        None \<Rightarrow> True
      | Some s \<Rightarrow> header_text h ''x-config-signature'' = Some (''sha256='' @ hmac s body))"

definition scope_granted :: "auth_libs \<Rightarrow> api_state \<Rightarrow> header_map \<Rightarrow> auth_principal \<Rightarrow> bool" where
  "scope_granted lib st h p \<longleftrightarrow>
     (\<forall>sub email rs scope. p = Oidc_user sub email rs \<longrightarrow> nonempty_option (ca_apply_scope (as_config_api st)) = Some scope
        \<longrightarrow> (\<exists>token v claims. bearer_token h = Some token \<and> as_oidc st = Some v
               \<and> validate_token_claims (lb_oidc lib) (lb_now lib) v token = Inr claims
               \<and> scope_satisfied claims scope))"

lemma hmac_header_iff:
  "verify_hmac_header hmac h secret body name shown pre = Inr ()
     \<longleftrightarrow> (case nonempty_option secret of
          None \<Rightarrow> True
        | Some s \<Rightarrow> header_text h name = Some ((if pre then ''sha256='' else []) @ hmac s body))"
proof -
  have digest: "(if pre then strip_prefix ''sha256='' v else Some v) = Some x
      \<longleftrightarrow> v = (if pre then ''sha256='' else []) @ x" for v x
    by (simp only: strip_prefix_Some split: if_split) simp
  have check: "(case d of None \<Rightarrow> Inl e | Some x \<Rightarrow> if constant_time_eq x y then Inr () else Inl e') = Inr ()
      \<longleftrightarrow> d = Some y" for d y and e e' :: api_error
    by (cases d) simp_all
  show ?thesis
  proof (cases "nonempty_option secret")
    case (Some s)
    then have s: "secret = Some s" "s \<noteq> []" by (simp_all add: nonempty_option_Some)
    show ?thesis unfolding Some
    proof (cases "map_of h name")
      case header: (Some v)
      show "verify_hmac_header hmac h secret body name shown pre = Inr () \<longleftrightarrow>
          (case Some s of None \<Rightarrow> True
           | Some s \<Rightarrow> header_text h name = Some ((if pre then ''sha256='' else []) @ hmac s body))"
        by (cases "to_str v")
          (simp_all add: verify_hmac_header_def s header_text_def header check digest del: constant_time_eq if_split)
    qed (simp add: verify_hmac_header_def s header_text_def)
  qed (auto simp: verify_hmac_header_def nonempty_option_def split: option.splits if_splits)
qed

lemma extra_scope_iff:
  "validate_token_with_extra_scope ol now v token scope = Inr u
     \<longleftrightarrow> (\<exists>claims. validate_token_claims ol now v token = Inr claims \<and> scope_satisfied claims scope)"
  by (auto simp: validate_token_with_extra_scope_def split: sum.splits)

lemma scope_gate_iff: "apply_scope_gate lib st h p = Inr u \<longleftrightarrow> scope_granted lib st h p"
proof (cases p)
  case (Oidc_user sub email rs)
  show ?thesis
    unfolding scope_granted_def apply_scope_gate_def Oidc_user
    by (auto split: option.splits sum.splits simp: extra_scope_iff [of _ _ _ _ _ "()"])
       (metis extra_scope_iff sum.distinct(1) sum.exhaust)+
qed (simp_all add: scope_granted_def apply_scope_gate_def)

text \<open>A request is anonymous only where no way to authenticate is configured.\<close>

definition unauthenticated_instance :: "api_state \<Rightarrow> bool" where
  "unauthenticated_instance st \<longleftrightarrow>
     nonempty_option (ap_api_key (as_api st)) = None \<and> as_oidc st = None \<and> verification_secret (as_api st) = None"

lemma anonymous_only_there:
  assumes "fst (resolve_auth_principal lib st h w) = Inr Anonymous"
  shows "unauthenticated_instance st"
proof (rule ccontr)
  have session: "fst (session_principal k w) \<noteq> Inr Anonymous" for k
    by (auto simp: session_principal_def split: prod.split sum.split)
  have oidc: "try_oidc lib st token \<noteq> Inr Anonymous" for token
    by (auto simp: try_oidc_def oidc_principal_def split: option.split sum.split)
  assume "\<not> unauthenticated_instance st"
  then show False using assms session oidc
    by (auto simp: resolve_auth_principal_def unauthenticated_instance_def Let_def split: option.splits if_splits)
qed

lemma role_granted:
  "(case role_for_org p organization of None \<Rightarrow> True | Some r \<Rightarrow> role_allows r Admin)
     \<longleftrightarrow> p = Anonymous \<or> role_for_org p organization = Some Admin"
proof -
  have admin: "role_allows r Admin \<longleftrightarrow> r = Admin" for r by (cases r) (simp_all add: role_allows_def)
  show ?thesis by (cases p) (auto simp: admin)
qed

text \<open>
  C4: a configuration push is let through for a principal exactly when pushing is enabled and the
  ledger is authoritative, the request resolves to that principal, the principal is an administrator
  of the organization it addresses, or it is the anonymous one of an instance on which neither an api
  key nor an identity provider nor a session secret is configured, an identity provider token carries
  the configured scope, and the body is signed with the configured secret.
\<close>

theorem config_push_gate:
  "fst (require_config_apply_auth lib st h body organization w) = Inr p \<longleftrightarrow>
     ca_api_config (as_config_api st) \<and> ca_source (as_config_api st) = Api_ledger
     \<and> fst (resolve_auth_principal lib st h w) = Inr p
     \<and> (if p = Anonymous then unauthenticated_instance st else role_for_org p organization = Some Admin)
     \<and> scope_granted lib st h p \<and> signed_by (lb_hmac lib) h (apply_secret (as_env st)) body"
proof -
  have signed: "verify_config_signature (lb_hmac lib) h (apply_secret (as_env st)) body = Inr ()
      \<longleftrightarrow> signed_by (lb_hmac lib) h (apply_secret (as_env st)) body"
    by (simp add: verify_config_signature_def hmac_header_iff signed_by_def split: option.splits)
  have authorized: "authorize_for_org p Admin organization = Inr ()
      \<longleftrightarrow> (if p = Anonymous then unauthenticated_instance st else role_for_org p organization = Some Admin)"
    if "fst (resolve_auth_principal lib st h w) = Inr p"
    using that anonymous_only_there [of lib st h w] by (auto simp: authorize_iff role_granted)
  have "fst (require_config_apply_auth lib st h body organization w) = Inr p \<longleftrightarrow>
     ca_api_config (as_config_api st) \<and> ca_source (as_config_api st) = Api_ledger
     \<and> fst (resolve_auth_principal lib st h w) = Inr p \<and> authorize_for_org p Admin organization = Inr ()
     \<and> scope_granted lib st h p \<and> signed_by (lb_hmac lib) h (apply_secret (as_env st)) body"
    unfolding signed [symmetric] scope_gate_iff [of _ _ _ _ "()", symmetric]
    by (auto simp: require_config_apply_auth_def routes_enabled_def accepts_pushed_config_def
        split: sum.splits prod.splits)
  then show ?thesis using authorized by blast
qed

end
