(* ===== verification/Source_Config.thy ===== *)
theory Source_Config
  imports Polling Access
begin

text \<open>
  The sources of a configuration (\<^verbatim>\<open>src/src/config/sources/mod.rs\<close> and \<^verbatim>\<open>preset.rs\<close>): the
  tagged entries, their shared settings and presets, the watch that each becomes, and the rewriting
  that scopes the sources of one organization.
\<close>

section \<open>Ordered maps\<close>

text \<open>A map with string keys, as the list of its entries in the order of the keys.\<close>

type_synonym 'a btree = "(string \<times> 'a) list"

fun str_less :: "string \<Rightarrow> string \<Rightarrow> bool" where
  "str_less _ [] = False"
| "str_less [] (c # cs) = True"
| "str_less (a # as) (b # bs) = (code a < code b \<or> code a = code b \<and> str_less as bs)"

fun btree_insert :: "string \<Rightarrow> 'a \<Rightarrow> 'a btree \<Rightarrow> 'a btree" where
  "btree_insert k v [] = [(k, v)]"
| "btree_insert k v ((k', v') # m) =
     (if k = k' then (k, v) # m
      else if str_less k k' then (k, v) # (k', v') # m
      else (k', v') # btree_insert k v m)"

definition btree_of :: "(string \<times> 'a) list \<Rightarrow> 'a btree" where
  "btree_of kvs = fold (\<lambda>(k, v). btree_insert k v) kvs []"

lemma btree_insert_lookup [simp]: "map_of (btree_insert k v m) k' = (if k' = k then Some v else map_of m k')"
  by (induction m) auto

lemma btree_insert_keys: "fst ` set (btree_insert k v m) = insert k (fst ` set m)"
  unfolding dom_map_of_conv_image_fst [symmetric] by (auto simp: dom_def)

section \<open>Shared settings and presets\<close>

record source_preset =
  sp_include_prerelease :: "bool option"
  sp_prerelease_tags :: "string list option"
  sp_exclude_updated :: "bool option"
  sp_pattern :: "string option"
  sp_exclude_pattern :: "string option"
  sp_routing_tag :: "string option"
  sp_interval_secs :: "nat option"
  sp_jitter_secs :: "nat option"
  sp_poll_on_startup :: "bool option"
  sp_notify_schedule :: "string option"

record source_common =
  so_preset :: "string option"
  so_include_prerelease :: "bool option"
  so_prerelease_tags :: "string list option"
  so_exclude_updated :: "bool option"
  so_pattern :: "string option"
  so_exclude_pattern :: "string option"
  so_routing_tag :: "string option"
  so_interval_secs :: "nat option"
  so_jitter_secs :: "nat option"
  so_poll_on_startup :: "bool option"
  so_notify_schedule :: "string option"

text \<open>The schedule and the tuning that sources inherit.\<close>

record defaults =
  df_interval_secs :: nat
  df_jitter_secs :: nat
  df_upstream_requests_per_minute :: nat
  df_poll_on_startup :: bool
  df_notify_schedule :: "string option"
  df_outbox_flush_concurrency :: nat
  df_outbox_retry_backoff_max_secs :: nat
  df_sink_breaker_failure_threshold :: nat
  df_sink_breaker_cooldown_secs :: nat
  df_ops_routing_tag :: "string option"

definition empty_preset :: source_preset where
  "empty_preset =
    \<lparr>sp_include_prerelease = None, sp_prerelease_tags = None, sp_exclude_updated = None, sp_pattern = None,
     sp_exclude_pattern = None, sp_routing_tag = None, sp_interval_secs = None, sp_jitter_secs = None,
     sp_poll_on_startup = None, sp_notify_schedule = None\<rparr>"

definition empty_common :: source_common where
  "empty_common =
    \<lparr>so_preset = None, so_include_prerelease = None, so_prerelease_tags = None, so_exclude_updated = None,
     so_pattern = None, so_exclude_pattern = None, so_routing_tag = None, so_interval_secs = None,
     so_jitter_secs = None, so_poll_on_startup = None, so_notify_schedule = None\<rparr>"

text \<open>The backslash of the patterns.\<close>

definition esc :: "string \<Rightarrow> string" where
  "esc s = concat (map (\<lambda>c. if c = CHR ''#'' then [byte 92] else [c]) s)"

definition builtin_source_presets :: "source_preset btree" where
  "builtin_source_presets =
    (let stable = empty_preset\<lparr>sp_include_prerelease := Some False\<rparr>;
         pre = empty_preset\<lparr>sp_include_prerelease := Some True\<rparr> in
     btree_of
      [(''wildcard'', pre),
       (''any-stable'', stable),
       (''semver'', stable\<lparr>sp_pattern := Some (esc ''^v?#d+#.#d+#.#d+$'')\<rparr>),
       (''semver-v'', stable\<lparr>sp_pattern := Some (esc ''^v#d+#.#d+#.#d+$'')\<rparr>),
       (''numeric'', stable\<lparr>sp_pattern := Some (esc ''^#d+#.#d+#.#d+$'')\<rparr>),
       (''major-minor'', stable\<lparr>sp_pattern := Some (esc ''^v?#d+#.#d+$'')\<rparr>),
       (''calver'', stable\<lparr>sp_pattern := Some (esc ''^v?#d{4}#.#d{1,2}#.#d{1,2}$'')\<rparr>),
       (''semver-pre'', pre\<lparr>sp_pattern := Some (esc ''^v?#d+#.#d+#.#d+(-[0-9A-Za-z.-]+)?(#+[0-9A-Za-z.-]+)?$'')\<rparr>),
       (''docker-semver'', stable\<lparr>sp_pattern := Some (esc ''^#d+#.#d+#.#d+$''),
          sp_exclude_pattern := Some ''^(latest|nightly|edge)$''\<rparr>),
       (''prerelease'', pre\<lparr>sp_prerelease_tags := Some [''alpha'', ''beta'', ''rc''],
          sp_pattern := Some (esc ''^v?#d+#.#d+#.#d+-(alpha|beta|rc)'')\<rparr>),
       (''stable'', stable\<lparr>sp_exclude_updated := Some True,
          sp_pattern := Some (esc ''^v?#d+#.#d+#.#d+$'')\<rparr>)])"

definition effective_source_presets :: "source_preset btree \<Rightarrow> source_preset btree" where
  "effective_source_presets user = fold (\<lambda>(name, p). btree_insert name p) user builtin_source_presets"

definition inherit :: "'a option \<Rightarrow> 'a option \<Rightarrow> 'a option" where
  "inherit own shared = (case own of None \<Rightarrow> shared | Some v \<Rightarrow> Some v)"

definition merge_into :: "source_preset \<Rightarrow> source_common \<Rightarrow> source_common" where
  "merge_into p c =
    \<lparr>so_preset = so_preset c,
     so_include_prerelease = inherit (so_include_prerelease c) (sp_include_prerelease p),
     so_prerelease_tags = inherit (so_prerelease_tags c) (sp_prerelease_tags p),
     so_exclude_updated = inherit (so_exclude_updated c) (sp_exclude_updated p),
     so_pattern = inherit (so_pattern c) (sp_pattern p),
     so_exclude_pattern = inherit (so_exclude_pattern c) (sp_exclude_pattern p),
     so_routing_tag = inherit (so_routing_tag c) (sp_routing_tag p),
     so_interval_secs = inherit (so_interval_secs c) (sp_interval_secs p),
     so_jitter_secs = inherit (so_jitter_secs c) (sp_jitter_secs p),
     so_poll_on_startup = inherit (so_poll_on_startup c) (sp_poll_on_startup p),
     so_notify_schedule = inherit (so_notify_schedule c) (sp_notify_schedule p)\<rparr>"

definition with_preset_resolved :: "source_preset btree \<Rightarrow> string \<Rightarrow> source_common \<Rightarrow> string + source_common" where
  "with_preset_resolved presets source_id c =
    (case so_preset c of
       None \<Rightarrow> Inr c
     | Some name \<Rightarrow>
         (let c = c\<lparr>so_preset := None\<rparr>; name = trim name in
          if name = [] then Inl (''source '' @ quoted source_id @ '': '' @ quoted ''preset'' @ '' must not be empty'')
          else (case map_of presets name of
              None \<Rightarrow> Inl (''source '' @ quoted source_id @ '': unknown preset '' @ quoted name
                @ '' (not a built-in and not listed under '' @ quoted ''presets'' @ '')'')
            | Some p \<Rightarrow> Inr (merge_into p c))))"

definition build_filter :: "regex_lib \<Rightarrow> string \<Rightarrow> source_common \<Rightarrow> string + release_filter" where
  "build_filter rx source_id c =
    (case filter_with_options rx (inherit (so_include_prerelease c) (Some False) = Some True)
        (case so_prerelease_tags c of Some tags \<Rightarrow> if tags = [] then None else Some tags | None \<Rightarrow> None)
        (so_pattern c) (so_exclude_pattern c) (inherit (so_exclude_updated c) (Some False) = Some True) of
       Inl e \<Rightarrow> Inl (''invalid pattern for source '' @ source_id)
     | Inr f \<Rightarrow> Inr f)"

definition common_schedule :: "defaults \<Rightarrow> source_common \<Rightarrow> nat \<times> nat \<times> bool" where
  "common_schedule d c =
    (case so_interval_secs c of Some s \<Rightarrow> s | None \<Rightarrow> df_interval_secs d,
     case so_jitter_secs c of Some s \<Rightarrow> s | None \<Rightarrow> df_jitter_secs d,
     case so_poll_on_startup c of Some b \<Rightarrow> b | None \<Rightarrow> df_poll_on_startup d)"

definition resolve_notify_schedule ::
  "cron_lib \<Rightarrow> source_common \<Rightarrow> defaults \<Rightarrow> string + notify_schedule option" where
  "resolve_notify_schedule cr c d =
    (let parse = (\<lambda>expr. case schedule_parse cr expr of Inl e \<Rightarrow> Inl e | Inr s \<Rightarrow> Inr (Some s)) in
     case so_notify_schedule c of
       Some expr \<Rightarrow> if trim expr = [] then Inr None else parse expr
     | None \<Rightarrow> (case df_notify_schedule d of
         None \<Rightarrow> Inr None
       | Some expr \<Rightarrow> if trim expr = [] then Inr None else parse expr))"


section \<open>The entries\<close>

record gitea_repo_cfg =
  rc_id :: "string option"
  rc_repo :: string
  rc_token :: "string option"
  rc_token_env :: "string option"
  rc_common :: source_common

record gitea_host_cfg =
  hc_id :: "string option"
  hc_host :: string
  hc_repo :: string
  hc_token :: "string option"
  hc_token_env :: "string option"
  hc_common :: source_common

record gitlab_cfg =
  gc_id :: "string option"
  gc_project :: string
  gc_host :: "string option"
  gc_token :: "string option"
  gc_token_env :: "string option"
  gc_common :: source_common

record bitbucket_cfg =
  bk_id :: "string option"
  bk_repo :: string
  bk_edition :: bitbucket_edition
  bk_host :: "string option"
  bk_token :: "string option"
  bk_token_env :: "string option"
  bk_common :: source_common

record docker_cfg =
  dr_id :: "string option"
  dr_image :: string
  dr_registry :: "string option"
  dr_token :: "string option"
  dr_token_env :: "string option"
  dr_common :: source_common

record registry_image_cfg =
  ri_id :: "string option"
  ri_image :: string
  ri_token :: "string option"
  ri_token_env :: "string option"
  ri_common :: source_common

record feed_cfg =
  fd_id :: "string option"
  fd_url :: string
  fd_common :: source_common

record package_cfg =
  pc_id :: "string option"
  pc_name :: string
  pc_common :: source_common

record artifacthub_cfg =
  ar_id :: "string option"
  ar_name :: string
  ar_host :: "string option"
  ar_package_kind :: string
  ar_common :: source_common

datatype source_config =
    Github_cfg gitea_repo_cfg
  | Codeberg_cfg gitea_repo_cfg
  | Gitea_cfg gitea_host_cfg
  | Gitlab_cfg gitlab_cfg
  | Bitbucket_cfg bitbucket_cfg
  | Docker_cfg docker_cfg
  | Ghcr_cfg registry_image_cfg
  | Quay_cfg registry_image_cfg
  | Ecr_cfg registry_image_cfg
  | Feed_cfg feed_cfg
  | Package_cfg package_registry package_cfg
  | Artifacthub_cfg artifacthub_cfg

text \<open>
  The ten package kinds carry the same fields and are told apart by their registry alone.  What an
  entry says of itself:
\<close>

fun common_of :: "source_config \<Rightarrow> source_common" where
  "common_of (Github_cfg c) = rc_common c"
| "common_of (Codeberg_cfg c) = rc_common c"
| "common_of (Gitea_cfg c) = hc_common c"
| "common_of (Gitlab_cfg c) = gc_common c"
| "common_of (Bitbucket_cfg c) = bk_common c"
| "common_of (Docker_cfg c) = dr_common c"
| "common_of (Ghcr_cfg c) = ri_common c"
| "common_of (Quay_cfg c) = ri_common c"
| "common_of (Ecr_cfg c) = ri_common c"
| "common_of (Feed_cfg c) = fd_common c"
| "common_of (Package_cfg _ c) = pc_common c"
| "common_of (Artifacthub_cfg c) = ar_common c"

fun set_source_common :: "source_common \<Rightarrow> source_config \<Rightarrow> source_config" where
  "set_source_common v (Github_cfg c) = Github_cfg (c\<lparr>rc_common := v\<rparr>)"
| "set_source_common v (Codeberg_cfg c) = Codeberg_cfg (c\<lparr>rc_common := v\<rparr>)"
| "set_source_common v (Gitea_cfg c) = Gitea_cfg (c\<lparr>hc_common := v\<rparr>)"
| "set_source_common v (Gitlab_cfg c) = Gitlab_cfg (c\<lparr>gc_common := v\<rparr>)"
| "set_source_common v (Bitbucket_cfg c) = Bitbucket_cfg (c\<lparr>bk_common := v\<rparr>)"
| "set_source_common v (Docker_cfg c) = Docker_cfg (c\<lparr>dr_common := v\<rparr>)"
| "set_source_common v (Ghcr_cfg c) = Ghcr_cfg (c\<lparr>ri_common := v\<rparr>)"
| "set_source_common v (Quay_cfg c) = Quay_cfg (c\<lparr>ri_common := v\<rparr>)"
| "set_source_common v (Ecr_cfg c) = Ecr_cfg (c\<lparr>ri_common := v\<rparr>)"
| "set_source_common v (Feed_cfg c) = Feed_cfg (c\<lparr>fd_common := v\<rparr>)"
| "set_source_common v (Package_cfg r c) = Package_cfg r (c\<lparr>pc_common := v\<rparr>)"
| "set_source_common v (Artifacthub_cfg c) = Artifacthub_cfg (c\<lparr>ar_common := v\<rparr>)"

fun source_explicit_id :: "source_config \<Rightarrow> string option" where
  "source_explicit_id (Github_cfg c) = rc_id c"
| "source_explicit_id (Codeberg_cfg c) = rc_id c"
| "source_explicit_id (Gitea_cfg c) = hc_id c"
| "source_explicit_id (Gitlab_cfg c) = gc_id c"
| "source_explicit_id (Bitbucket_cfg c) = bk_id c"
| "source_explicit_id (Docker_cfg c) = dr_id c"
| "source_explicit_id (Ghcr_cfg c) = ri_id c"
| "source_explicit_id (Quay_cfg c) = ri_id c"
| "source_explicit_id (Ecr_cfg c) = ri_id c"
| "source_explicit_id (Feed_cfg c) = fd_id c"
| "source_explicit_id (Package_cfg _ c) = pc_id c"
| "source_explicit_id (Artifacthub_cfg c) = ar_id c"

fun set_source_explicit_id :: "string option \<Rightarrow> source_config \<Rightarrow> source_config" where
  "set_source_explicit_id v (Github_cfg c) = Github_cfg (c\<lparr>rc_id := v\<rparr>)"
| "set_source_explicit_id v (Codeberg_cfg c) = Codeberg_cfg (c\<lparr>rc_id := v\<rparr>)"
| "set_source_explicit_id v (Gitea_cfg c) = Gitea_cfg (c\<lparr>hc_id := v\<rparr>)"
| "set_source_explicit_id v (Gitlab_cfg c) = Gitlab_cfg (c\<lparr>gc_id := v\<rparr>)"
| "set_source_explicit_id v (Bitbucket_cfg c) = Bitbucket_cfg (c\<lparr>bk_id := v\<rparr>)"
| "set_source_explicit_id v (Docker_cfg c) = Docker_cfg (c\<lparr>dr_id := v\<rparr>)"
| "set_source_explicit_id v (Ghcr_cfg c) = Ghcr_cfg (c\<lparr>ri_id := v\<rparr>)"
| "set_source_explicit_id v (Quay_cfg c) = Quay_cfg (c\<lparr>ri_id := v\<rparr>)"
| "set_source_explicit_id v (Ecr_cfg c) = Ecr_cfg (c\<lparr>ri_id := v\<rparr>)"
| "set_source_explicit_id v (Feed_cfg c) = Feed_cfg (c\<lparr>fd_id := v\<rparr>)"
| "set_source_explicit_id v (Package_cfg r c) = Package_cfg r (c\<lparr>pc_id := v\<rparr>)"
| "set_source_explicit_id v (Artifacthub_cfg c) = Artifacthub_cfg (c\<lparr>ar_id := v\<rparr>)"

fun default_source_id :: "source_config \<Rightarrow> string" where
  "default_source_id (Github_cfg c) = ''github:'' @ rc_repo c"
| "default_source_id (Codeberg_cfg c) = ''github:'' @ rc_repo c"
| "default_source_id (Gitea_cfg c) = ''gitea:'' @ hc_host c @ '':'' @ hc_repo c"
| "default_source_id (Gitlab_cfg c) = ''gitlab:'' @ gc_project c"
| "default_source_id (Bitbucket_cfg c) = ''bitbucket:'' @ bk_repo c"
| "default_source_id (Docker_cfg c) = ''docker:'' @ dr_image c"
| "default_source_id (Ghcr_cfg c) = ''ghcr:'' @ ri_image c"
| "default_source_id (Quay_cfg c) = ''quay:'' @ ri_image c"
| "default_source_id (Ecr_cfg c) = ''ecr:'' @ ri_image c"
| "default_source_id (Feed_cfg c) = ''feed:'' @ fd_url c"
| "default_source_id (Package_cfg r c) = registry_kind r @ '':'' @ pc_name c"
| "default_source_id (Artifacthub_cfg c) = ''artifacthub:'' @ ar_name c"

definition source_label :: "source_config \<Rightarrow> string" where
  "source_label s = (case source_explicit_id s of Some i \<Rightarrow> i | None \<Rightarrow> default_source_id s)"

definition source_routing_tag :: "source_config \<Rightarrow> string option" where
  "source_routing_tag s = so_routing_tag (common_of s)"

text \<open>The token and the name of its variable, for the kinds that have them.\<close>

fun source_token :: "source_config \<Rightarrow> (string option \<times> string option) option" where
  "source_token (Github_cfg c) = Some (rc_token c, rc_token_env c)"
| "source_token (Codeberg_cfg c) = Some (rc_token c, rc_token_env c)"
| "source_token (Gitea_cfg c) = Some (hc_token c, hc_token_env c)"
| "source_token (Gitlab_cfg c) = Some (gc_token c, gc_token_env c)"
| "source_token (Bitbucket_cfg c) = Some (bk_token c, bk_token_env c)"
| "source_token (Docker_cfg c) = Some (dr_token c, dr_token_env c)"
| "source_token (Ghcr_cfg c) = Some (ri_token c, ri_token_env c)"
| "source_token (Quay_cfg c) = Some (ri_token c, ri_token_env c)"
| "source_token (Ecr_cfg c) = Some (ri_token c, ri_token_env c)"
| "source_token _ = None"

fun set_source_token :: "string option \<Rightarrow> string option \<Rightarrow> source_config \<Rightarrow> source_config" where
  "set_source_token t e (Github_cfg c) = Github_cfg (c\<lparr>rc_token := t, rc_token_env := e\<rparr>)"
| "set_source_token t e (Codeberg_cfg c) = Codeberg_cfg (c\<lparr>rc_token := t, rc_token_env := e\<rparr>)"
| "set_source_token t e (Gitea_cfg c) = Gitea_cfg (c\<lparr>hc_token := t, hc_token_env := e\<rparr>)"
| "set_source_token t e (Gitlab_cfg c) = Gitlab_cfg (c\<lparr>gc_token := t, gc_token_env := e\<rparr>)"
| "set_source_token t e (Bitbucket_cfg c) = Bitbucket_cfg (c\<lparr>bk_token := t, bk_token_env := e\<rparr>)"
| "set_source_token t e (Docker_cfg c) = Docker_cfg (c\<lparr>dr_token := t, dr_token_env := e\<rparr>)"
| "set_source_token t e (Ghcr_cfg c) = Ghcr_cfg (c\<lparr>ri_token := t, ri_token_env := e\<rparr>)"
| "set_source_token t e (Quay_cfg c) = Quay_cfg (c\<lparr>ri_token := t, ri_token_env := e\<rparr>)"
| "set_source_token t e (Ecr_cfg c) = Ecr_cfg (c\<lparr>ri_token := t, ri_token_env := e\<rparr>)"
| "set_source_token t e s = s"

lemma source_slots [simp]:
  "common_of (set_source_common v s) = v"
  "source_explicit_id (set_source_explicit_id i s) = i"
  "common_of (set_source_explicit_id i s) = common_of s"
  "source_explicit_id (set_source_common v s) = source_explicit_id s"
  "default_source_id (set_source_common v s) = default_source_id s"
  "default_source_id (set_source_explicit_id i s) = default_source_id s"
  "default_source_id (set_source_token t e s) = default_source_id s"
  "source_token (set_source_token t e s) = map_option (\<lambda>_. (t, e)) (source_token s)"
  by (cases s; simp)+

lemma set_source_token_same [simp]: "source_token s = Some (t, e) \<Longrightarrow> set_source_token t e s = s"
  by (cases s) auto

section \<open>Watches\<close>

definition DEFAULT_REGISTRY :: string where
  "DEFAULT_REGISTRY = ''https://registry-1.docker.io''"

definition first_part :: "char \<Rightarrow> string \<Rightarrow> string" where
  "first_part c s = takeWhile (\<lambda>x. x \<noteq> c) s"

definition is_docker_hub_registry :: "string \<Rightarrow> bool" where
  "is_docker_hub_registry url =
    (if url = DEFAULT_REGISTRY then True
     else (case (case strip_prefix ''https://'' url of Some r \<Rightarrow> Some r | None \<Rightarrow> strip_prefix ''http://'' url) of
         None \<Rightarrow> False
       | Some r \<Rightarrow>
           to_ascii_lowercase (first_part (CHR '':'') (first_part (CHR ''/'') r))
             \<in> {''registry-1.docker.io'', ''docker.io'', ''index.docker.io'', ''hub.docker.com''}))"

definition resolve_docker_registry :: "string option \<Rightarrow> container_registry" where
  "resolve_docker_registry registry =
    (case trimmed_nonempty registry of
       None \<Rightarrow> Docker_hub
     | Some raw \<Rightarrow>
         (let base = trim_end_slashes (if contains_str raw ''://'' then raw else ''https://'' @ raw) in
          if is_docker_hub_registry base then Docker_hub else Custom_registry base))"

definition redacted :: string where
  "redacted = ''<redacted>''"

definition resolve_token :: "token_env \<Rightarrow> string option \<Rightarrow> string option \<Rightarrow> string \<Rightarrow> string option" where
  "resolve_token env config_token named_env global_env =
    (case (case config_token of
             Some t \<Rightarrow> if trim t \<noteq> [] \<and> trim t \<noteq> redacted \<and> \<not> contains_str (trim t) redacted then Some t else None
           | None \<Rightarrow> None) of
       Some t \<Rightarrow> Some t
     | None \<Rightarrow> (case Option.bind named_env (env_token env) of
         Some t \<Rightarrow> Some t
       | None \<Rightarrow> env_token env global_env))"

text \<open>What a source is built with: the libraries, the environment, and the shared settings.\<close>

record build_ctx =
  bx_regex :: regex_lib
  bx_cron :: cron_lib
  bx_env :: token_env
  bx_defaults :: defaults
  bx_presets :: "source_preset btree"

definition build_watch :: "build_ctx \<Rightarrow> string \<Rightarrow> provider \<Rightarrow> source_common \<Rightarrow> string + watch" where
  "build_watch x i p c =
    (case with_preset_resolved (bx_presets x) i c of
       Inl e \<Rightarrow> Inl e
     | Inr c \<Rightarrow> (case build_filter (bx_regex x) i c of
         Inl e \<Rightarrow> Inl e
       | Inr f \<Rightarrow>
           (let (interval, jitter, startup) = common_schedule (bx_defaults x) c in
            case resolve_notify_schedule (bx_cron x) c (bx_defaults x) of
              Inl e \<Rightarrow> Inl (''source '' @ i @ '': '' @ e)
            | Inr schedule \<Rightarrow>
                Inr \<lparr>wt_provider = p, wt_interval = interval, wt_jitter = jitter, wt_poll_on_startup = startup,
                  wt_filter = f, wt_routing_tag = so_routing_tag c, wt_notify_schedule = schedule,
                  wt_organization_id = None\<rparr>)))"

definition id_or :: "string option \<Rightarrow> string \<Rightarrow> string" where
  "id_or i d = (case i of Some i \<Rightarrow> i | None \<Rightarrow> d)"

text \<open>The presets of the Gitea-compatible forges.\<close>

datatype gitea_preset_cfg = Github_preset string | Codeberg_preset string | Gitea_preset string string

definition build_gitea_watch ::
  "build_ctx \<Rightarrow> gitea_preset_cfg \<Rightarrow> string option \<Rightarrow> string option \<Rightarrow> string option \<Rightarrow> string \<Rightarrow> source_common
     \<Rightarrow> string + watch" where
  "build_gitea_watch x preset i token token_env global_env c =
    (let token = resolve_token (bx_env x) token token_env global_env in
     case preset of
       Github_preset repo \<Rightarrow>
         (let i = id_or i (''github:'' @ repo) in build_watch x i (Github (gitea_github i repo token)) c)
     | Codeberg_preset repo \<Rightarrow>
         (let i = id_or i (''codeberg:'' @ repo) in build_watch x i (Codeberg (gitea_codeberg i repo token)) c)
     | Gitea_preset host repo \<Rightarrow>
         (let i = id_or i (''gitea:'' @ host @ '':'' @ repo) in
          build_watch x i (Gitea (gitea_gitea i host repo token)) c))"

definition build_package_watch :: "build_ctx \<Rightarrow> package_cfg \<Rightarrow> package_registry \<Rightarrow> string + watch" where
  "build_package_watch x c r =
    (let i = id_or (pc_id c) (registry_kind r @ '':'' @ pc_name c) in
     build_watch x i (provider_package i (pc_name c) r) (pc_common c))"

definition build_container_watch ::
  "build_ctx \<Rightarrow> string option \<Rightarrow> string \<Rightarrow> container_registry \<Rightarrow> string option \<Rightarrow> string option \<Rightarrow> string
     \<Rightarrow> source_common \<Rightarrow> string + watch" where
  "build_container_watch x i img registry token token_env global_env c =
    (let i = id_or i (container_prefix registry @ '':'' @ img);
         token = resolve_token (bx_env x) token token_env global_env in
     build_watch x i (provider_container i img registry token) c)"


text \<open>\<^verbatim>\<open>str::replace\<close>, for a pattern that is not empty.\<close>

function replace_all :: "string \<Rightarrow> string \<Rightarrow> string \<Rightarrow> string" where
  "replace_all pat new s =
    (if pat = [] then s
     else (case strip_prefix pat s of
         Some rest \<Rightarrow> new @ replace_all pat new rest
       | None \<Rightarrow> (case s of [] \<Rightarrow> [] | c # cs \<Rightarrow> c # replace_all pat new cs)))"
  by pat_completeness auto

termination
  by (relation "measure (\<lambda>(pat, new, s). length s)") (auto simp: strip_prefix_Some)

declare replace_all.simps [simp del]

definition bitbucket_provider :: "bitbucket_cfg \<Rightarrow> string \<Rightarrow> string option \<Rightarrow> string + provider" where
  "bitbucket_provider c i token =
    (case (bk_edition c, bk_host c) of
       (Cloud_edition, Some host) \<Rightarrow>
         Inr (Bitbucket (bitbucket_with_host i (bk_repo c) host
           (trim_end_slashes (replace_all ''api.bitbucket.org/2.0'' ''bitbucket.org'' host)) token))
     | (Cloud_edition, None) \<Rightarrow> Inr (Bitbucket (bitbucket_cloud i (bk_repo c) token))
     | (Server_edition, Some host) \<Rightarrow> Inr (Bitbucket (bitbucket_server i host (bk_repo c) token))
     | (Server_edition, None) \<Rightarrow>
         Inl (''bitbucket source '' @ quoted i @ '': edition = '' @ [byte 34] @ ''server'' @ [byte 34]
           @ '' requires '' @ quoted ''host''))"

definition container_watch :: "build_ctx \<Rightarrow> registry_image_cfg \<Rightarrow> container_registry \<Rightarrow> string \<Rightarrow> string + watch" where
  "container_watch x c registry global =
    build_container_watch x (ri_id c) (ri_image c) registry (ri_token c) (ri_token_env c) global (ri_common c)"

fun into_watch :: "build_ctx \<Rightarrow> source_config \<Rightarrow> string + watch" where
  "into_watch x (Github_cfg c) =
    build_gitea_watch x (Github_preset (rc_repo c)) (rc_id c) (rc_token c) (rc_token_env c) ''GITHUB_TOKEN'' (rc_common c)"
| "into_watch x (Codeberg_cfg c) =
    build_gitea_watch x (Codeberg_preset (rc_repo c)) (rc_id c) (rc_token c) (rc_token_env c) ''CODEBERG_TOKEN'' (rc_common c)"
| "into_watch x (Gitea_cfg c) =
    build_gitea_watch x (Gitea_preset (hc_host c) (hc_repo c)) (hc_id c) (hc_token c) (hc_token_env c) ''GITEA_TOKEN''
      (hc_common c)"
| "into_watch x (Gitlab_cfg c) =
    (let i = id_or (gc_id c) (''gitlab:'' @ gc_project c);
         token = resolve_token (bx_env x) (gc_token c) (gc_token_env c) ''GITLAB_TOKEN'' in
     build_watch x i (Gitlab (gitlab_new i (text_or_empty (gc_host c)) (gc_project c) token)) (gc_common c))"
| "into_watch x (Bitbucket_cfg c) =
    (let i = id_or (bk_id c) (''bitbucket:'' @ bk_repo c);
         token = resolve_token (bx_env x) (bk_token c) (bk_token_env c) ''BITBUCKET_TOKEN'' in
     case bitbucket_provider c i token of
       Inl e \<Rightarrow> Inl e | Inr p \<Rightarrow> build_watch x i p (bk_common c))"
| "into_watch x (Docker_cfg c) =
    build_container_watch x (dr_id c) (dr_image c) (resolve_docker_registry (dr_registry c)) (dr_token c)
      (dr_token_env c) ''DOCKER_TOKEN'' (dr_common c)"
| "into_watch x (Ghcr_cfg c) = container_watch x c Ghcr_registry ''GHCR_TOKEN''"
| "into_watch x (Quay_cfg c) = container_watch x c Quay_registry ''QUAY_TOKEN''"
| "into_watch x (Ecr_cfg c) = container_watch x c Ecr_public ''ECR_TOKEN''"
| "into_watch x (Feed_cfg c) =
    (let i = id_or (fd_id c) (''feed:'' @ fd_url c) in
     build_watch x i (Feed \<lparr>fs_id = i, fs_url = fd_url c\<rparr>) (fd_common c))"
| "into_watch x (Package_cfg r c) = build_package_watch x c r"
| "into_watch x (Artifacthub_cfg c) =
    (let i = id_or (ar_id c) (''artifacthub:'' @ ar_name c) in
     case artifacthub_with_options i (ar_name c) (id_or (ar_host c) ''https://artifacthub.io'') (ar_package_kind c) of
       Inl e \<Rightarrow> Inl (show_source_error e)
     | Inr s \<Rightarrow> build_watch x i (Artifact_hub s) (ar_common c))"

text \<open>The id that the watch of an entry carries.\<close>

fun watch_source_id :: "source_config \<Rightarrow> string" where
  "watch_source_id (Codeberg_cfg c) = id_or (rc_id c) (''codeberg:'' @ rc_repo c)"
| "watch_source_id s = source_label s"

lemma build_watch_fields:
  assumes "build_watch x i p c = Inr w"
  shows "wt_provider w = p" "wt_organization_id w = None"
  using assms by (auto simp: build_watch_def Let_def split: sum.splits prod.splits)

lemma provider_ids [simp]:
  "provider_id (Github s) = gs_id s" "provider_id (Codeberg s) = gs_id s" "provider_id (Gitea s) = gs_id s"
  "provider_id (Gitlab s') = gl_id s'" "provider_id (Bitbucket b) = bb_id b" "provider_id (Feed f) = fs_id f"
  "provider_id (Artifact_hub a) = ah_id a" "provider_id (provider_package i n r) = i"
  by (simp_all add: provider_id_def by_source_def provider_package_def)

lemma bitbucket_provider_id: "bitbucket_provider c i token = Inr p \<Longrightarrow> provider_id p = i"
  by (auto simp: bitbucket_provider_def bitbucket_with_host_def bitbucket_cloud_def bitbucket_server_def Let_def
      split: bitbucket_edition.splits option.splits)

lemma artifacthub_id: "artifacthub_with_options i n h k = Inr s \<Longrightarrow> ah_id s = i"
  by (auto simp: artifacthub_with_options_def split: sum.splits)

lemma docker_prefix [simp]: "container_prefix (resolve_docker_registry r) = ''docker''"
  by (simp add: resolve_docker_registry_def Let_def split: option.splits)

text \<open>Every watch carries the id of its entry.\<close>

lemma into_watch_id:
  assumes "into_watch x s = Inr w"
  shows "provider_id (wt_provider w) = watch_source_id s"
  using assms
  by (cases s)
    (auto simp: build_gitea_watch_def build_package_watch_def build_container_watch_def container_watch_def
      source_label_def id_or_def gitea_github_def gitea_codeberg_def gitea_gitea_def gitlab_new_def Let_def
      dest!: build_watch_fields(1) bitbucket_provider_id artifacthub_id
      split: option.splits sum.splits container_registry.splits)

section \<open>Hints\<close>

definition lint_pattern :: "source_preset btree \<Rightarrow> source_config \<Rightarrow> string option" where
  "lint_pattern presets s =
    (case with_preset_resolved presets (source_label s) (common_of s) of
       Inr c \<Rightarrow> so_pattern c | Inl _ \<Rightarrow> so_pattern (common_of s))"

definition noisy :: "source_preset btree \<Rightarrow> source_config \<Rightarrow> string option" where
  "noisy presets s =
    (if lint_pattern presets s = None then
       Some (''source '' @ quoted (source_label s) @ '': container registries are noisy without a ''
         @ quoted ''pattern'' @ '' filter'')
     else None)"

definition bad_name :: "source_config \<Rightarrow> string \<Rightarrow> string \<Rightarrow> string \<Rightarrow> string option" where
  "bad_name s kind shape name =
    Some (''source '' @ quoted (source_label s) @ '': '' @ kind @ '' name should be '' @ quoted shape @ '', got ''
      @ quoted name)"

fun source_lint :: "token_env \<Rightarrow> source_preset btree \<Rightarrow> source_config \<Rightarrow> string option" where
  "source_lint env presets (Docker_cfg c) = noisy presets (Docker_cfg c)"
| "source_lint env presets (Ghcr_cfg c) = noisy presets (Ghcr_cfg c)"
| "source_lint env presets (Quay_cfg c) = noisy presets (Quay_cfg c)"
| "source_lint env presets (Ecr_cfg c) = noisy presets (Ecr_cfg c)"
| "source_lint env presets (Package_cfg r c) =
    (if r = Maven \<and> CHR '':'' \<notin> set (pc_name c) then
       bad_name (Package_cfg r c) ''maven'' ''group:artifact'' (pc_name c)
     else if r = Packagist \<and> CHR ''/'' \<notin> set (pc_name c) then
       bad_name (Package_cfg r c) ''packagist'' ''vendor/package'' (pc_name c)
     else None)"
| "source_lint env presets (Github_cfg c) =
    (if resolve_token env (rc_token c) (rc_token_env c) ''GITHUB_TOKEN'' = None then
       Some (''source '' @ quoted (source_label (Github_cfg c)) @ '': no GitHub token '' @ em_dash
         @ '' using Atom feed (no release body, lower rate limit)'')
     else None)"
| "source_lint env presets (Bitbucket_cfg c) =
    (if bk_edition c = Server_edition \<and> bk_host c = None then
       Some (''source '' @ quoted (source_label (Bitbucket_cfg c)) @ '': bitbucket edition = server requires ''
         @ quoted ''host'')
     else None)"
| "source_lint env presets (Artifacthub_cfg c) =
    (if CHR ''/'' \<notin> set (ar_name c) then
       bad_name (Artifacthub_cfg c) ''artifacthub'' ''repository/chart'' (ar_name c)
     else None)"
| "source_lint env presets _ = None"

section \<open>Organizations\<close>

definition bare_source_id :: "string \<Rightarrow> string" where
  "bare_source_id i = (case split_once ORGANIZATION_SEP i of None \<Rightarrow> i | Some (_, rest) \<Rightarrow> rest)"

definition is_legacy_shared_prefix_id :: "string \<Rightarrow> bool" where
  "is_legacy_shared_prefix_id bare \<longleftrightarrow> prefix ''package:'' bare \<or> prefix ''registry:'' bare"

definition organization_source_id :: "string \<Rightarrow> source_config \<Rightarrow> string" where
  "organization_source_id org s =
    namespace_source_id org
      (case map_option bare_source_id (source_explicit_id s) of
         Some bare \<Rightarrow> if is_legacy_shared_prefix_id bare then default_source_id s else bare
       | None \<Rightarrow> default_source_id s)"

text \<open>The settings of a source with the defaults of its organization baked in.\<close>

definition organization_common :: "string \<Rightarrow> string list \<Rightarrow> defaults \<Rightarrow> source_common \<Rightarrow> source_common" where
  "organization_common org user_presets d c =
    c\<lparr>so_interval_secs := inherit (so_interval_secs c) (Some (df_interval_secs d)),
      so_jitter_secs := inherit (so_jitter_secs c) (Some (df_jitter_secs d)),
      so_poll_on_startup := inherit (so_poll_on_startup c) (Some (df_poll_on_startup d)),
      so_notify_schedule := inherit (so_notify_schedule c) (df_notify_schedule d),
      so_routing_tag := Some (namespace_routing_tag org
        (case so_routing_tag c of Some tag \<Rightarrow> if trim tag = [] then ''__org__'' else tag | None \<Rightarrow> ''__org__'')),
      so_preset := (case so_preset c of
         Some name \<Rightarrow>
           if trim name \<in> set user_presets then Some (namespace_preset_name org (trim name)) else Some name
       | None \<Rightarrow> None)\<rparr>"

definition prepare_organization_source :: "string \<Rightarrow> string list \<Rightarrow> defaults \<Rightarrow> source_config \<Rightarrow> source_config" where
  "prepare_organization_source org user_presets d s =
    (let s1 = set_source_explicit_id (Some (organization_source_id org s)) s in
     set_source_common (organization_common org user_presets d (common_of s1)) s1)"

end
