(* ===== verification/Sink_Config.thy ===== *)
theory Sink_Config
  imports Source_Config
begin

text \<open>
  The delivery sinks of a configuration (\<^verbatim>\<open>src/src/config/notifiers.rs\<close>): the tagged entries, and
  where each takes its secrets from when it is built.  The JSON texts of lists and maps are
  parameters.
\<close>

record apprise_cfg =
  xa_endpoint :: string
  xa_urls :: "string list"
  xa_urls_env :: "string option"
  xa_config_key :: "string option"
  xa_tag :: "string option"
  xa_tags :: "string list"
  xa_format :: string

datatype webhook_method_cfg = Post | Put

text \<open>The headers of a webhook, a map, in the order in which it is read.\<close>

record webhook_cfg =
  xw_name :: "string option"
  xw_tags :: "string list"
  xw_url :: string
  xw_url_env :: "string option"
  xw_method :: webhook_method_cfg
  xw_headers :: "(string \<times> string) list"
  xw_headers_env :: "string option"
  xw_content_type :: "string option"
  xw_template :: "string option"
  xw_secret :: string
  xw_secret_env :: "string option"
  xw_signature_header :: "string option"

record express_cfg =
  xe_name :: "string option"
  xe_tags :: "string list"
  xe_base_url :: string
  xe_access_token :: string
  xe_access_token_env :: "string option"
  xe_group_chat_id :: string
  xe_recipients :: "string list"
  xe_template :: "string option"

record novu_cfg =
  xv_name :: "string option"
  xv_tags :: "string list"
  xv_base_url :: string
  xv_api_key :: string
  xv_api_key_env :: "string option"
  xv_workflow :: string
  xv_topic_key :: "string option"
  xv_subscriber_id :: "string option"

record slack_cfg =
  xs_name :: "string option"
  xs_tags :: "string list"
  xs_webhook_url :: string
  xs_webhook_url_env :: "string option"
  xs_bot_token :: string
  xs_bot_token_env :: "string option"
  xs_channel :: string
  xs_api_base :: string
  xs_template :: "string option"

record telegram_cfg =
  xt_name :: "string option"
  xt_tags :: "string list"
  xt_api_base :: string
  xt_bot_token :: string
  xt_bot_token_env :: "string option"
  xt_chat_id :: string
  xt_parse_mode :: "string option"
  xt_template :: "string option"

record kafka_cfg =
  xk_name :: "string option"
  xk_tags :: "string list"
  xk_brokers :: "string list"
  xk_topic :: string
  xk_key :: "string option"
  xk_template :: "string option"

record nats_cfg =
  xn_name :: "string option"
  xn_tags :: "string list"
  xn_url :: string
  xn_url_env :: "string option"
  xn_subject :: string
  xn_template :: "string option"

record rabbitmq_cfg =
  xr_name :: "string option"
  xr_tags :: "string list"
  xr_url :: string
  xr_url_env :: "string option"
  xr_exchange :: string
  xr_routing_key :: string
  xr_template :: "string option"

datatype smtp_tls_cfg = Starttls | Implicit_tls | Plain_smtp

record smtp_cfg =
  xm_name :: "string option"
  xm_tags :: "string list"
  xm_host :: string
  xm_port :: "16 word"
  xm_username :: "string option"
  xm_password :: string
  xm_password_env :: "string option"
  xm_from :: string
  xm_to :: "string list"
  xm_tls :: smtp_tls_cfg
  xm_subject_template :: "string option"
  xm_template :: "string option"
  xm_body_format :: string

datatype notifier_config =
    Apprise_cfg apprise_cfg
  | Webhook_cfg webhook_cfg
  | Express_cfg express_cfg
  | Novu_cfg novu_cfg
  | Slack_cfg slack_cfg
  | Telegram_cfg telegram_cfg
  | Smtp_cfg smtp_cfg
  | Kafka_cfg kafka_cfg
  | Nats_cfg nats_cfg
  | Rabbitmq_cfg rabbitmq_cfg

definition apprise_default :: apprise_cfg where
  "apprise_default =
    \<lparr>xa_endpoint = ''http://localhost:8000'', xa_urls = [], xa_urls_env = None, xa_config_key = None,
     xa_tag = None, xa_tags = [], xa_format = ''markdown''\<rparr>"

fun routing_tags :: "notifier_config \<Rightarrow> string list" where
  "routing_tags (Apprise_cfg n) = xa_tags n"
| "routing_tags (Webhook_cfg n) = xw_tags n"
| "routing_tags (Express_cfg n) = xe_tags n"
| "routing_tags (Novu_cfg n) = xv_tags n"
| "routing_tags (Slack_cfg n) = xs_tags n"
| "routing_tags (Telegram_cfg n) = xt_tags n"
| "routing_tags (Smtp_cfg n) = xm_tags n"
| "routing_tags (Kafka_cfg n) = xk_tags n"
| "routing_tags (Nats_cfg n) = xn_tags n"
| "routing_tags (Rabbitmq_cfg n) = xr_tags n"

fun set_routing_tags :: "string list \<Rightarrow> notifier_config \<Rightarrow> notifier_config" where
  "set_routing_tags v (Apprise_cfg n) = Apprise_cfg (n\<lparr>xa_tags := v\<rparr>)"
| "set_routing_tags v (Webhook_cfg n) = Webhook_cfg (n\<lparr>xw_tags := v\<rparr>)"
| "set_routing_tags v (Express_cfg n) = Express_cfg (n\<lparr>xe_tags := v\<rparr>)"
| "set_routing_tags v (Novu_cfg n) = Novu_cfg (n\<lparr>xv_tags := v\<rparr>)"
| "set_routing_tags v (Slack_cfg n) = Slack_cfg (n\<lparr>xs_tags := v\<rparr>)"
| "set_routing_tags v (Telegram_cfg n) = Telegram_cfg (n\<lparr>xt_tags := v\<rparr>)"
| "set_routing_tags v (Smtp_cfg n) = Smtp_cfg (n\<lparr>xm_tags := v\<rparr>)"
| "set_routing_tags v (Kafka_cfg n) = Kafka_cfg (n\<lparr>xk_tags := v\<rparr>)"
| "set_routing_tags v (Nats_cfg n) = Nats_cfg (n\<lparr>xn_tags := v\<rparr>)"
| "set_routing_tags v (Rabbitmq_cfg n) = Rabbitmq_cfg (n\<lparr>xr_tags := v\<rparr>)"

lemma routing_tags_set [simp]: "routing_tags (set_routing_tags v n) = v"
  by (cases n) simp_all

section \<open>Secrets\<close>

record json_texts =
  jt_list :: "string list \<Rightarrow> string"
  jt_parse_list :: "string \<Rightarrow> string list option"
  jt_map :: "(string \<times> string) list \<Rightarrow> string"
  jt_parse_map :: "string \<Rightarrow> (string \<times> string) list option"

text \<open>A value that is blank or carries the placeholder of a redacted answer is no secret.\<close>

definition live_secret :: "string \<Rightarrow> bool" where
  "live_secret v \<longleftrightarrow> trim v \<noteq> [] \<and> trim v \<noteq> redacted \<and> \<not> contains_str (trim v) redacted"

definition sanitize_secret :: "string \<Rightarrow> string" where
  "sanitize_secret v = (if live_secret v then v else [])"

definition named_env :: "token_env \<Rightarrow> string option \<Rightarrow> string option" where
  "named_env env name = Option.bind (trimmed_nonempty name) (env_token env)"

definition resolve_secret :: "token_env \<Rightarrow> string \<Rightarrow> string option \<Rightarrow> string \<Rightarrow> string" where
  "resolve_secret env inline name global =
    (if trim (sanitize_secret inline) \<noteq> [] then sanitize_secret inline
     else (case named_env env name of
         Some v \<Rightarrow> sanitize_secret v
       | None \<Rightarrow> if trim global = [] then [] else sanitize_secret (text_or_empty (env_token env global))))"

definition resolve_apprise_urls :: "token_env \<Rightarrow> json_texts \<Rightarrow> apprise_cfg \<Rightarrow> string list" where
  "resolve_apprise_urls env js n =
    (let live = filter (\<lambda>u. u \<noteq> []) (map sanitize_secret (xa_urls n)) in
     if live \<noteq> [] then live
     else (case named_env env (xa_urls_env n) of
         None \<Rightarrow> []
       | Some raw \<Rightarrow> (case jt_parse_list js raw of
           Some urls \<Rightarrow> filter (\<lambda>u. u \<noteq> []) (map sanitize_secret urls)
         | None \<Rightarrow> if sanitize_secret raw = [] then [] else [sanitize_secret raw])))"

definition live_headers :: "(string \<times> string) list \<Rightarrow> (string \<times> string) list" where
  "live_headers hs = filter (\<lambda>(_, v). v \<noteq> []) (map (\<lambda>(k, v). (k, sanitize_secret v)) hs)"

definition resolve_webhook_headers :: "token_env \<Rightarrow> json_texts \<Rightarrow> webhook_cfg \<Rightarrow> (string \<times> string) list" where
  "resolve_webhook_headers env js n =
    (let headers = live_headers (xw_headers n) in
     if headers \<noteq> [] then headers
     else (case named_env env (xw_headers_env n) of
         None \<Rightarrow> headers
       | Some raw \<Rightarrow> (case jt_parse_map js raw of Some hs \<Rightarrow> live_headers hs | None \<Rightarrow> headers)))"

definition is_configured :: "apprise_cfg \<Rightarrow> bool" where
  "is_configured n \<longleftrightarrow> xa_urls n \<noteq> [] \<or> trimmed_nonempty (xa_urls_env n) \<noteq> None \<or> xa_config_key n \<noteq> None"

section \<open>What a sink is built from\<close>

text \<open>The options with the secrets resolved; the constructors of the client libraries check them.\<close>

datatype sink_options =
    Apprise_options string "string list" "string option" "string option" string
  | Webhook_options string string webhook_method_cfg "(string \<times> string) list" "string option" "string option"
      string "string option"
  | Express_options string string string string "string list" "string option"
  | Novu_options string string string string "string option" "string option"
  | Slack_options string string string string string "string option"
  | Telegram_options string string string string "string option" "string option"
  | Smtp_options string string "16 word" "string option" string string "string list" smtp_tls_cfg
      "string option" "string option" string
  | Kafka_options string "string list" string "string option" "string option"
  | Nats_options string string string "string option"
  | Rabbitmq_options string string string string "string option"

fun options_of :: "token_env \<Rightarrow> json_texts \<Rightarrow> notifier_config \<Rightarrow> sink_options" where
  "options_of env js (Apprise_cfg n) =
    Apprise_options (xa_endpoint n) (resolve_apprise_urls env js n) (xa_config_key n) (xa_tag n) (xa_format n)"
| "options_of env js (Webhook_cfg n) =
    (let url = resolve_secret env (xw_url n) (xw_url_env n) [];
         name = id_or (xw_name n) (if url = [] then ''webhook'' else url);
         secret = resolve_secret env (xw_secret n) (xw_secret_env n) ''XRELEASE_WEBHOOK_SECRET'' in
     Webhook_options name url (xw_method n) (resolve_webhook_headers env js n) (xw_content_type n) (xw_template n)
       secret (xw_signature_header n))"
| "options_of env js (Express_cfg n) =
    Express_options (id_or (xe_name n) (''express:'' @ xe_group_chat_id n)) (xe_base_url n)
      (resolve_secret env (xe_access_token n) (xe_access_token_env n) ''XRELEASE_EXPRESS_ACCESS_TOKEN'')
      (xe_group_chat_id n) (xe_recipients n) (xe_template n)"
| "options_of env js (Novu_cfg n) =
    Novu_options (id_or (xv_name n) (''novu:'' @ xv_workflow n)) (xv_base_url n)
      (resolve_secret env (xv_api_key n) (xv_api_key_env n) ''XRELEASE_NOVU_API_KEY'')
      (xv_workflow n) (xv_topic_key n) (xv_subscriber_id n)"
| "options_of env js (Slack_cfg n) =
    (let webhook_url = resolve_secret env (xs_webhook_url n) (xs_webhook_url_env n) ''XRELEASE_SLACK_WEBHOOK_URL'';
         bot_token = resolve_secret env (xs_bot_token n) (xs_bot_token_env n) ''XRELEASE_SLACK_BOT_TOKEN'';
         name = id_or (xs_name n) (if webhook_url \<noteq> [] then ''slack:webhook''
           else if trim (xs_channel n) \<noteq> [] then ''slack:'' @ trim (xs_channel n) else ''slack'') in
     Slack_options name webhook_url bot_token (xs_channel n) (xs_api_base n) (xs_template n))"
| "options_of env js (Telegram_cfg n) =
    Telegram_options (id_or (xt_name n) (''telegram:'' @ xt_chat_id n)) (xt_api_base n)
      (resolve_secret env (xt_bot_token n) (xt_bot_token_env n) ''XRELEASE_TELEGRAM_BOT_TOKEN'')
      (xt_chat_id n) (xt_parse_mode n) (xt_template n)"
| "options_of env js (Smtp_cfg n) =
    Smtp_options (id_or (xm_name n) (''smtp:'' @ xm_host n)) (xm_host n) (xm_port n) (xm_username n)
      (resolve_secret env (xm_password n) (xm_password_env n) ''XRELEASE_SMTP_PASSWORD'')
      (xm_from n) (xm_to n) (xm_tls n) (xm_subject_template n) (xm_template n) (xm_body_format n)"
| "options_of env js (Kafka_cfg n) =
    Kafka_options (id_or (xk_name n) (xk_topic n)) (xk_brokers n) (xk_topic n) (xk_key n) (xk_template n)"
| "options_of env js (Nats_cfg n) =
    Nats_options (id_or (xn_name n) (xn_subject n))
      (resolve_secret env (xn_url n) (xn_url_env n) ''XRELEASE_NATS_URL'') (xn_subject n) (xn_template n)"
| "options_of env js (Rabbitmq_cfg n) =
    Rabbitmq_options (id_or (xr_name n) (xr_routing_key n))
      (resolve_secret env (xr_url n) (xr_url_env n) ''XRELEASE_RABBITMQ_URL'') (xr_exchange n) (xr_routing_key n)
      (xr_template n)"

end
