(* ===== verification/Settings.thy ===== *)
theory Settings
  imports Sink_Config
begin

text \<open>
  The whole configuration (\<^verbatim>\<open>src/src/config/mod.rs\<close>, \<^verbatim>\<open>database.rs\<close>, \<^verbatim>\<open>log.rs\<close>), the environment
  over it, its watches, and the namespacing of one organization's document
  (\<^verbatim>\<open>organizations.rs\<close>, \<^verbatim>\<open>sources/mod.rs\<close>).
\<close>

datatype database_ssl_mode = Ssl_disable | Ssl_prefer | Ssl_require | Ssl_verify_ca | Ssl_verify_full

definition parse_libpq :: "string \<Rightarrow> database_ssl_mode option" where
  "parse_libpq raw =
    (let v = to_ascii_lowercase (trim raw) in
     if v = ''disable'' then Some Ssl_disable
     else if v = ''allow'' \<or> v = ''prefer'' then Some Ssl_prefer
     else if v = ''require'' then Some Ssl_require
     else if v = ''verify-ca'' then Some Ssl_verify_ca
     else if v = ''verify-full'' then Some Ssl_verify_full
     else None)"

record database_config =
  dbc_postgres_url :: string
  dbc_ssl_mode :: "database_ssl_mode option"
  dbc_ssl_root_cert :: "string option"
  dbc_max_connections :: "nat option"
  dbc_connect_timeout_secs :: "nat option"
  dbc_prune_seen_after_days :: nat
  dbc_prune_webhooks_after_days :: nat
  dbc_prune_outbox_sent_after_days :: nat
  dbc_prune_advisories_after_days :: nat
  dbc_prune_interval_hours :: nat

definition database_default :: database_config where
  "database_default =
    \<lparr>dbc_postgres_url = [], dbc_ssl_mode = None, dbc_ssl_root_cert = None, dbc_max_connections = None,
     dbc_connect_timeout_secs = None, dbc_prune_seen_after_days = 0, dbc_prune_webhooks_after_days = 0,
     dbc_prune_outbox_sent_after_days = 0, dbc_prune_advisories_after_days = 0, dbc_prune_interval_hours = 0\<rparr>"

text \<open>A pair without an equality sign ends the search.\<close>

fun ssl_mode_of_pairs :: "string list \<Rightarrow> database_ssl_mode option" where
  "ssl_mode_of_pairs [] = None"
| "ssl_mode_of_pairs (p # ps) =
    (case split_once ''='' p of
       None \<Rightarrow> None
     | Some (k, v) \<Rightarrow> if to_ascii_lowercase k = ''sslmode'' then parse_libpq v else ssl_mode_of_pairs ps)"

definition ssl_mode_from_url :: "string \<Rightarrow> database_ssl_mode option" where
  "ssl_mode_from_url url =
    (case split_once ''?'' url of
       None \<Rightarrow> None | Some (_, query) \<Rightarrow> ssl_mode_of_pairs (split_by (\<lambda>c. c = CHR ''&'') query))"

definition effective_ssl_mode :: "database_config \<Rightarrow> database_ssl_mode" where
  "effective_ssl_mode d =
    (case dbc_ssl_mode d of
       Some m \<Rightarrow> m
     | None \<Rightarrow> (case ssl_mode_from_url (dbc_postgres_url d) of Some m \<Rightarrow> m | None \<Rightarrow> Ssl_disable))"

record team_config =
  tm_tag :: string
  tm_name :: "string option"

definition defaults_default :: defaults where
  "defaults_default =
    \<lparr>df_interval_secs = 86400, df_jitter_secs = 3600, df_upstream_requests_per_minute = 0,
     df_poll_on_startup = True, df_notify_schedule = None, df_outbox_flush_concurrency = 8,
     df_outbox_retry_backoff_max_secs = 3600, df_sink_breaker_failure_threshold = 5,
     df_sink_breaker_cooldown_secs = 300, df_ops_routing_tag = None\<rparr>"

definition config_api_default :: config_api_config where
  "config_api_default = \<lparr>ca_api_config = False, ca_apply_scope = None, ca_source = Local_file, ca_ui_config = False\<rparr>"

record config =
  cf_defaults :: defaults
  cf_apprise :: apprise_cfg
  cf_database :: database_config
  cf_advisories :: advisory_config
  cf_log :: string
  cf_api :: api_config
  cf_config_api :: config_api_config
  cf_organizations :: "organization_config list"
  cf_notifiers :: "notifier_config list"
  cf_teams :: "team_config list"
  cf_presets :: "source_preset btree"
  cf_sources :: "source_config list"

definition config_default :: config where
  "config_default =
    \<lparr>cf_defaults = defaults_default, cf_apprise = apprise_default, cf_database = database_default,
     cf_advisories = advisory_config_default, cf_log = ''info'', cf_api = api_default,
     cf_config_api = config_api_default, cf_organizations = [], cf_notifiers = [], cf_teams = [],
     cf_presets = [], cf_sources = []\<rparr>"

section \<open>Watches\<close>

record build_libs =
  bl_regex :: regex_lib
  bl_cron :: cron_lib
  bl_env :: token_env
  bl_json :: json_texts

definition build_ctx_of :: "build_libs \<Rightarrow> config \<Rightarrow> build_ctx" where
  "build_ctx_of lib c =
    \<lparr>bx_regex = bl_regex lib, bx_cron = bl_cron lib, bx_env = bl_env lib, bx_defaults = cf_defaults c,
     bx_presets = effective_source_presets (cf_presets c)\<rparr>"

definition source_watch :: "build_ctx \<Rightarrow> source_config \<Rightarrow> string + watch" where
  "source_watch x s =
    (case into_watch x s of
       Inl e \<Rightarrow> Inl e
     | Inr w \<Rightarrow> Inr (w\<lparr>wt_organization_id := organization_id_from_source_id (provider_id (wt_provider w))\<rparr>))"

text \<open>Collecting stops at the first error.\<close>

fun collect :: "('e + 'a) list \<Rightarrow> 'e + 'a list" where
  "collect [] = Inr []"
| "collect (r # rs) =
    (case r of Inl e \<Rightarrow> Inl e | Inr a \<Rightarrow> (case collect rs of Inl e \<Rightarrow> Inl e | Inr as \<Rightarrow> Inr (a # as)))"

definition to_watches :: "build_libs \<Rightarrow> config \<Rightarrow> string + watch list" where
  "to_watches lib c = collect (map (source_watch (build_ctx_of lib c)) (cf_sources c))"

lemma collect_Inr: "collect rs = Inr as \<longleftrightarrow> rs = map Inr as"
proof
  show "collect rs = Inr as \<Longrightarrow> rs = map Inr as"
    by (induction rs arbitrary: as) (auto split: sum.splits)
  have "collect (map Inr as) = Inr as" by (induction as) simp_all
  then show "rs = map Inr as \<Longrightarrow> collect rs = Inr as" by simp
qed

text \<open>The watches line up with the sources.\<close>

lemma source_watch_id:
  "source_watch x s = Inr w \<Longrightarrow> provider_id (wt_provider w) = watch_source_id s"
  by (auto simp: source_watch_def dest: into_watch_id split: sum.splits)

lemma to_watches_ids:
  assumes "to_watches lib c = Inr ws"
  shows "map (\<lambda>w. provider_id (wt_provider w)) ws = map watch_source_id (cf_sources c)"
proof -
  have ws: "map (source_watch (build_ctx_of lib c)) (cf_sources c) = map Inr ws"
    using assms by (simp add: to_watches_def collect_Inr)
  then have len: "length ws = length (cf_sources c)" by (metis length_map)
  show ?thesis
  proof (rule nth_equalityI)
    fix n assume n: "n < length (map (\<lambda>w. provider_id (wt_provider w)) ws)"
    then have "source_watch (build_ctx_of lib c) (cf_sources c ! n) = Inr (ws ! n)"
      using ws len by (metis length_map nth_map)
    then show "map (\<lambda>w. provider_id (wt_provider w)) ws ! n = map watch_source_id (cf_sources c) ! n"
      using n len source_watch_id by simp
  qed (simp add: len)
qed

section \<open>The environment\<close>

definition parse_uint :: "nat \<Rightarrow> string \<Rightarrow> nat option" where
  "parse_uint bound s =
    (let ds = (case s of [] \<Rightarrow> [] | c # cs \<Rightarrow> if c = CHR ''+'' then cs else s) in
     if ds = [] \<or> \<not> list_all is_digit ds then None
     else (let n = foldl (\<lambda>n c. 10 * n + (code c - 48)) 0 ds in if n \<le> bound then Some n else None))"

definition split_csv :: "string \<Rightarrow> string list" where
  "split_csv v = filter (\<lambda>p. p \<noteq> []) (map trim (split_by (\<lambda>c. c = CHR '','') v))"

definition truthy :: "string \<Rightarrow> bool" where
  "truthy v \<longleftrightarrow> trim v \<in> {''1'', ''true'', ''yes'', ''on''}"

definition env_set :: "token_env \<Rightarrow> string \<Rightarrow> (string \<Rightarrow> 'a \<Rightarrow> 'a) \<Rightarrow> 'a \<Rightarrow> 'a" where
  "env_set env var f x = (case te_var env var of Some v \<Rightarrow> f v x | None \<Rightarrow> x)"

definition env_database :: "token_env \<Rightarrow> database_config \<Rightarrow> database_config" where
  "env_database env d =
    env_set env ''XRELEASE_DATABASE_SSL_ROOT_CERT'' (\<lambda>v d. d\<lparr>dbc_ssl_root_cert := Some v\<rparr>)
    (env_set env ''XRELEASE_DATABASE_SSL_MODE'' (\<lambda>v d. case parse_libpq v of Some m \<Rightarrow> d\<lparr>dbc_ssl_mode := Some m\<rparr> | None \<Rightarrow> d)
    (env_set env ''XRELEASE_DATABASE_URL'' (\<lambda>v d. d\<lparr>dbc_postgres_url := v\<rparr>) d))"

definition U32_MAX :: nat where "U32_MAX = 2 ^ 32 - 1"

definition env_oidc :: "token_env \<Rightarrow> oidc_config \<Rightarrow> oidc_config" where
  "env_oidc env c =
    env_set env ''XRELEASE_OIDC_DEFAULT_ROLE'' (\<lambda>v c. c\<lparr>od_default_role := v\<rparr>)
    (env_set env ''XRELEASE_OIDC_AUTO_CREATE_USERS'' (\<lambda>v c. c\<lparr>od_auto_create_users := truthy v\<rparr>)
    (env_set env ''XRELEASE_OIDC_ROLE_VIEWER'' (\<lambda>v c. c\<lparr>od_role_viewer := split_csv v\<rparr>)
    (env_set env ''XRELEASE_OIDC_ROLE_OPERATOR'' (\<lambda>v c. c\<lparr>od_role_operator := split_csv v\<rparr>)
    (env_set env ''XRELEASE_OIDC_ROLE_ADMIN'' (\<lambda>v c. c\<lparr>od_role_admin := split_csv v\<rparr>)
    (env_set env ''XRELEASE_OIDC_ROLE_CLAIM'' (\<lambda>v c. c\<lparr>od_role_claim := v\<rparr>)
    (env_set env ''XRELEASE_OIDC_REQUIRED_SCOPE'' (\<lambda>v c. c\<lparr>od_required_scope := Some v\<rparr>)
    (env_set env ''XRELEASE_OIDC_AUDIENCE'' (\<lambda>v c. c\<lparr>od_audience := split_csv v\<rparr>)
    (env_set env ''XRELEASE_OIDC_JWKS_URI'' (\<lambda>v c. c\<lparr>od_jwks_uri := Some v\<rparr>)
    (env_set env ''XRELEASE_OIDC_DISCOVERY_URL'' (\<lambda>v c. c\<lparr>od_discovery_url := Some v\<rparr>)
    (env_set env ''XRELEASE_OIDC_ISSUER'' (\<lambda>v c. c\<lparr>od_issuer := Some v\<rparr>) c))))))))))"

definition env_local_auth :: "token_env \<Rightarrow> local_auth_config \<Rightarrow> local_auth_config" where
  "env_local_auth env a =
    env_set env ''XRELEASE_SESSION_TTL_SECS''
      (\<lambda>v a. case parse_uint U64_MAX v of Some n \<Rightarrow> a\<lparr>la_session_ttl_secs := n\<rparr> | None \<Rightarrow> a)
    (env_set env ''XRELEASE_SESSION_SECRET'' (\<lambda>v a. a\<lparr>la_session_secret := Some v\<rparr>)
    (env_set env ''XRELEASE_ADMIN_PASSWORD'' (\<lambda>v a. a\<lparr>la_admin_password := Some v\<rparr>)
    (env_set env ''XRELEASE_ADMIN_USER'' (\<lambda>v a. a\<lparr>la_admin_username := v\<rparr>)
    (env_set env ''XRELEASE_LOCAL_AUTH'' (\<lambda>v a. a\<lparr>la_enabled := truthy v\<rparr>) a))))"

definition env_api :: "token_env \<Rightarrow> api_config \<Rightarrow> api_config" where
  "env_api env a =
    (let a = env_set env ''XRELEASE_API_RATE_LIMIT''
          (\<lambda>v a. case parse_uint U32_MAX v of Some n \<Rightarrow> a\<lparr>ap_rate_limit_per_minute := n\<rparr> | None \<Rightarrow> a)
        (env_set env ''XRELEASE_API_KEY'' (\<lambda>v a. a\<lparr>ap_api_key := Some v\<rparr>)
        (env_set env ''XRELEASE_WEBHOOK_SECRET'' (\<lambda>v a. a\<lparr>ap_webhook_secret := Some v\<rparr>)
        (env_set env ''XRELEASE_API_LISTEN'' (\<lambda>v a. a\<lparr>ap_listen := v\<rparr>) a))) in
     a\<lparr>ap_oidc := env_oidc env (ap_oidc a), ap_local_auth := env_local_auth env (ap_local_auth a)\<rparr>)"

definition env_config_api :: "token_env \<Rightarrow> config_api_config \<Rightarrow> config_api_config" where
  "env_config_api env c =
    env_set env ''XRELEASE_CONFIG_API_APPLY_SCOPE'' (\<lambda>v c. c\<lparr>ca_apply_scope := Some v\<rparr>)
    (env_set env ''XRELEASE_CONFIG_API_ENABLED'' (\<lambda>v c. c\<lparr>ca_api_config := truthy v\<rparr>) c)"

definition env_defaults :: "token_env \<Rightarrow> defaults \<Rightarrow> defaults" where
  "env_defaults env d =
    env_set env ''XRELEASE_UPSTREAM_RPM''
      (\<lambda>v d. case parse_uint U32_MAX v of Some n \<Rightarrow> d\<lparr>df_upstream_requests_per_minute := n\<rparr> | None \<Rightarrow> d) d"

definition apply_env_overrides :: "token_env \<Rightarrow> config \<Rightarrow> config" where
  "apply_env_overrides env c =
    c\<lparr>cf_database := env_database env (cf_database c),
      cf_log := (case trimmed_nonempty (te_var env ''XRELEASE_LOG'') of Some level \<Rightarrow> level | None \<Rightarrow> cf_log c),
      cf_api := env_api env (cf_api c), cf_defaults := env_defaults env (cf_defaults c),
      cf_config_api := env_config_api env (cf_config_api c)\<rparr>"

section \<open>One organization's document\<close>

definition prepare_organization_sources :: "string \<Rightarrow> config \<Rightarrow> config" where
  "prepare_organization_sources org c =
    c\<lparr>cf_presets := btree_of (map (\<lambda>(n, p). (namespace_preset_name org n, p)) (cf_presets c)),
      cf_sources := map (prepare_organization_source org (map fst (cf_presets c)) (cf_defaults c)) (cf_sources c)\<rparr>"

definition broadcast_tag :: "string \<Rightarrow> string" where
  "broadcast_tag org = namespace_routing_tag org ''__org__''"

text \<open>Every tag that events of the organization can carry, in order and once.\<close>

definition organization_event_tags :: "string \<Rightarrow> config \<Rightarrow> string list" where
  "organization_event_tags org c =
    map fst (btree_of (map (\<lambda>t. (t, ()))
      (broadcast_tag org
        # map (namespace_routing_tag org)
            (List.map_filter (\<lambda>s. trimmed_nonempty (source_routing_tag s)) (cf_sources c)
             @ (case trimmed_nonempty (df_ops_routing_tag (cf_defaults c)) of None \<Rightarrow> [] | Some t \<Rightarrow> [t])))))"

definition namespace_notifier :: "string \<Rightarrow> string list \<Rightarrow> notifier_config \<Rightarrow> notifier_config" where
  "namespace_notifier org catch_all n =
    set_routing_tags
      (if routing_tags n = [] then catch_all else map (namespace_routing_tag org) (routing_tags n)) n"

definition namespace_organization_desired :: "string \<Rightarrow> config \<Rightarrow> config" where
  "namespace_organization_desired org c =
    prepare_organization_sources org
      (c\<lparr>cf_teams := map (\<lambda>t. t\<lparr>tm_tag := namespace_routing_tag org (tm_tag t)\<rparr>) (cf_teams c),
         cf_defaults := (cf_defaults c)\<lparr>df_ops_routing_tag :=
           (case df_ops_routing_tag (cf_defaults c) of
              Some t \<Rightarrow> if trim t = [] then Some t else Some (namespace_routing_tag org (trim t))
            | None \<Rightarrow> None)\<rparr>,
         cf_notifiers := map (namespace_notifier org (organization_event_tags org c)) (cf_notifiers c)\<rparr>)"

end
