(* ===== verification/Secrets.thy ===== *)
theory Secrets
  imports Settings Advisories
begin

text \<open>
  The secrets of a document (\<^verbatim>\<open>src/src/config/secrets.rs\<close>, \<^verbatim>\<open>vault.rs\<close>): inline values move into
  the vault under names that the document keeps, and names that no document uses any more are
  collected.  The values that the sinks resolve afterwards are the ones that were written, as long
  as no two of them share a name.
\<close>

section \<open>Names\<close>

text \<open>Every character that is no ASCII letter or digit becomes one underscore.\<close>

definition sanitized :: "string \<Rightarrow> string" where
  "sanitized raw =
    concat (map (\<lambda>c. if is_alnum c then [ascii_upper_char c] else if is_continuation c then [] else ''_'') raw)"

text \<open>The loop that squeezes runs of underscores; each pass shortens the text.\<close>

lemma replace_all_length:
  assumes "length new \<le> length pat"
  shows "length (replace_all pat new s) \<le> length s"
  using assms
proof (induction pat new s rule: replace_all.induct)
  case (1 pat new s)
  then show ?case
    by (subst replace_all.simps) (force simp: strip_prefix_Some split: option.splits list.splits)
qed

lemma replace_all_shortens:
  assumes "length new < length pat" and "contains_str s pat"
  shows "length (replace_all pat new s) < length s"
  using assms
proof (induction pat new s rule: replace_all.induct)
  case (1 pat new s)
  show ?case
  proof (cases "strip_prefix pat s")
    case (Some rest)
    then have "s = pat @ rest" "pat \<noteq> []" using 1 by (auto simp: strip_prefix_Some)
    moreover have "length (replace_all pat new rest) \<le> length rest"
      using 1 by (intro replace_all_length) simp
    ultimately show ?thesis using Some 1 by (subst replace_all.simps) simp
  next
    case None
    then have np: "\<not> prefix pat s" by (auto simp: strip_prefix_def split: if_splits)
    then obtain c cs where s: "s = c # cs" "contains_str cs pat" using 1 by (cases s) auto
    then have "length (replace_all pat new cs) < length cs" using 1 None np by fastforce
    then show ?thesis using None s np by (subst replace_all.simps) auto
  qed
qed

function squeeze :: "string \<Rightarrow> string" where
  "squeeze s = (if contains_str s ''__'' then squeeze (replace_all ''__'' ''_'' s) else s)"
  by pat_completeness auto

termination
  by (relation "measure length") (auto intro: replace_all_shortens)

declare squeeze.simps [simp del]

definition trim_underscores :: "string \<Rightarrow> string" where
  "trim_underscores s = rev (dropWhile (\<lambda>c. c = CHR ''_'') (rev (dropWhile (\<lambda>c. c = CHR ''_'') s)))"

definition truncate_slug :: "string \<Rightarrow> nat \<Rightarrow> string" where
  "truncate_slug raw n = take n (trim_underscores (squeeze (sanitized raw)))"

definition auto_name :: "string option \<Rightarrow> string list \<Rightarrow> string" where
  "auto_name org parts =
    ''XRELEASE_UI'' @ (case trimmed_nonempty org of Some i \<Rightarrow> ''_'' @ sanitized i | None \<Rightarrow> [])
      @ concat (map (\<lambda>p. ''_'' @ sanitized p) parts)"

definition slot_number :: "nat \<Rightarrow> string" where
  "slot_number i = ''I'' @ show_nat i"

text \<open>What names the source or the sink: never its place, unless there is nothing else.\<close>

fun source_tip :: "source_config \<Rightarrow> string" where
  "source_tip (Github_cfg c) = rc_repo c"
| "source_tip (Codeberg_cfg c) = rc_repo c"
| "source_tip (Gitea_cfg c) = hc_repo c"
| "source_tip (Gitlab_cfg c) = gc_project c"
| "source_tip (Bitbucket_cfg c) = bk_repo c"
| "source_tip (Docker_cfg c) = dr_image c"
| "source_tip (Ghcr_cfg c) = ri_image c"
| "source_tip (Quay_cfg c) = ri_image c"
| "source_tip (Ecr_cfg c) = ri_image c"
| "source_tip (Feed_cfg c) = fd_url c"
| "source_tip (Package_cfg r c) = pc_name c"
| "source_tip (Artifacthub_cfg c) = ar_name c"

definition source_identity :: "source_config \<Rightarrow> nat \<Rightarrow> string" where
  "source_identity s i =
    (let slug = truncate_slug (source_tip s) 48 in if slug = [] then slot_number i else slug)"

fun notifier_name :: "notifier_config \<Rightarrow> string option" where
  "notifier_name (Apprise_cfg n) = None"
| "notifier_name (Webhook_cfg n) = xw_name n"
| "notifier_name (Express_cfg n) = xe_name n"
| "notifier_name (Novu_cfg n) = xv_name n"
| "notifier_name (Slack_cfg n) = xs_name n"
| "notifier_name (Telegram_cfg n) = xt_name n"
| "notifier_name (Smtp_cfg n) = xm_name n"
| "notifier_name (Kafka_cfg n) = xk_name n"
| "notifier_name (Nats_cfg n) = xn_name n"
| "notifier_name (Rabbitmq_cfg n) = xr_name n"

definition notifier_label :: "notifier_config \<Rightarrow> string option" where
  "notifier_label n = trimmed_nonempty (notifier_name n)"

fun notifier_kind_slug :: "notifier_config \<Rightarrow> string" where
  "notifier_kind_slug (Apprise_cfg n) = ''APPRISE''"
| "notifier_kind_slug (Webhook_cfg n) = ''WEBHOOK''"
| "notifier_kind_slug (Express_cfg n) = ''EXPRESS''"
| "notifier_kind_slug (Novu_cfg n) = ''NOVU''"
| "notifier_kind_slug (Slack_cfg n) = ''SLACK''"
| "notifier_kind_slug (Telegram_cfg n) = ''TELEGRAM''"
| "notifier_kind_slug (Smtp_cfg n) = ''SMTP''"
| "notifier_kind_slug (Kafka_cfg n) = ''KAFKA''"
| "notifier_kind_slug (Nats_cfg n) = ''NATS''"
| "notifier_kind_slug (Rabbitmq_cfg n) = ''RABBITMQ''"

fun notifier_tip :: "notifier_config \<Rightarrow> string option" where
  "notifier_tip (Apprise_cfg n) = inherit (inherit (xa_config_key n) (xa_tag n)) (Some (xa_endpoint n))"
| "notifier_tip (Webhook_cfg n) = (if trim (xw_url n) \<noteq> [] then Some (xw_url n) else None)"
| "notifier_tip (Express_cfg n) = Some (xe_group_chat_id n)"
| "notifier_tip (Novu_cfg n) = Some (xv_workflow n)"
| "notifier_tip (Slack_cfg n) = (if trim (xs_channel n) \<noteq> [] then Some (xs_channel n) else None)"
| "notifier_tip (Telegram_cfg n) = Some (xt_chat_id n)"
| "notifier_tip (Smtp_cfg n) = Some (xm_host n)"
| "notifier_tip (Kafka_cfg n) = Some (xk_topic n)"
| "notifier_tip (Nats_cfg n) = Some (xn_subject n)"
| "notifier_tip (Rabbitmq_cfg n) = Some (xr_routing_key n)"

definition notifier_stable_tip :: "notifier_config \<Rightarrow> string option" where
  "notifier_stable_tip n =
    (case notifier_tip n of None \<Rightarrow> None | Some t \<Rightarrow> if live_secret t then Some (trim t) else None)"

definition notifier_identity :: "notifier_config \<Rightarrow> nat \<Rightarrow> string" where
  "notifier_identity n i =
    (case notifier_label n of
       Some name \<Rightarrow> truncate_slug name 40
     | None \<Rightarrow>
         join_with ''_''
           ((case find (\<lambda>t. trim t \<noteq> []) (routing_tags n) of Some t \<Rightarrow> [truncate_slug (trim t) 24] | None \<Rightarrow> [])
            @ [notifier_kind_slug n]
            @ [case notifier_stable_tip n of Some t \<Rightarrow> truncate_slug t 24 | None \<Rightarrow> slot_number i]))"

section \<open>Moving the secrets\<close>

record secret_write =
  sx_name :: string
  sx_value :: string

text \<open>The first write of a name takes the new value; a new name goes to the end.\<close>

fun put_write :: "string \<Rightarrow> string \<Rightarrow> secret_write list \<Rightarrow> secret_write list" where
  "put_write name value [] = [\<lparr>sx_name = name, sx_value = value\<rparr>]"
| "put_write name value (w # ws) =
    (if sx_name w = name then w\<lparr>sx_value := value\<rparr> # ws else w # put_write name value ws)"

definition push_write :: "string \<Rightarrow> string \<Rightarrow> secret_write list \<Rightarrow> secret_write list" where
  "push_write name value ws = (if trim name = [] \<or> trim value = [] then ws else put_write name value ws)"

text \<open>The field is emptied in either case; only a live value comes back.\<close>

definition take_inline :: "string \<Rightarrow> string option" where
  "take_inline v = (if live_secret v then Some v else None)"

definition ensure_env_name :: "string option \<Rightarrow> string \<Rightarrow> string \<times> string option" where
  "ensure_env_name existing generated =
    (case trimmed_nonempty existing of
       Some name \<Rightarrow> (name, existing) | None \<Rightarrow> (generated, Some generated))"

text \<open>One secret field with its variable: the variable afterwards, and the writes.\<close>

definition store_slot ::
  "string \<Rightarrow> string option \<Rightarrow> string option \<Rightarrow> secret_write list \<Rightarrow> string option \<times> secret_write list" where
  "store_slot generated value env ws =
    (case value of
       None \<Rightarrow> (env, ws)
     | Some v \<Rightarrow> (let (name, env') = ensure_env_name env generated in (env', push_write name v ws)))"

definition normalize_source_token ::
  "string option \<Rightarrow> nat \<Rightarrow> source_config \<Rightarrow> secret_write list \<Rightarrow> source_config \<times> secret_write list" where
  "normalize_source_token org i s ws =
    (case source_token s of
       None \<Rightarrow> (s, ws)
     | Some (None, _) \<Rightarrow> (s, ws)
     | Some (Some v, env) \<Rightarrow>
         (case take_inline v of
            None \<Rightarrow> (set_source_token (Some []) env s, ws)
          | Some value \<Rightarrow>
              (let (env', ws') = store_slot (auto_name org [''SRC'', source_identity s i, ''TOKEN'']) (Some value) env ws
               in (set_source_token None env' s, ws'))))"

definition live_entries :: "(string \<times> string) list \<Rightarrow> (string \<times> string) list" where
  "live_entries hs = filter (\<lambda>(_, v). live_secret v) hs"

definition slot_name :: "string option \<Rightarrow> notifier_config \<Rightarrow> nat \<Rightarrow> string \<Rightarrow> string" where
  "slot_name org n i what = auto_name org [''N'', notifier_identity n i, what]"

definition stored_urls :: "json_texts \<Rightarrow> string list \<Rightarrow> string option" where
  "stored_urls js urls =
    (let live = filter live_secret urls in if live = [] then None else Some (jt_list js live))"

definition stored_headers :: "json_texts \<Rightarrow> (string \<times> string) list \<Rightarrow> string option" where
  "stored_headers js hs =
    (let live = live_entries hs in if live = [] then None else Some (jt_map js live))"

fun normalize_notifier ::
  "json_texts \<Rightarrow> string option \<Rightarrow> nat \<Rightarrow> notifier_config \<Rightarrow> secret_write list
     \<Rightarrow> notifier_config \<times> secret_write list" where
  "normalize_notifier js org i (Apprise_cfg n) ws =
    (let (env, ws) = store_slot (slot_name org (Apprise_cfg n) i ''APPRISE_URLS'')
          (stored_urls js (xa_urls n)) (xa_urls_env n) ws in
     (Apprise_cfg (n\<lparr>xa_urls := [], xa_urls_env := env\<rparr>), ws))"
| "normalize_notifier js org i (Webhook_cfg n) ws =
    (let (url_env, ws) = store_slot (slot_name org (Webhook_cfg n) i ''WEBHOOK_URL'')
          (take_inline (xw_url n)) (xw_url_env n) ws;
         (secret_env, ws) = store_slot (slot_name org (Webhook_cfg n) i ''WEBHOOK_SECRET'')
          (take_inline (xw_secret n)) (xw_secret_env n) ws;
         (headers_env, ws) = store_slot (slot_name org (Webhook_cfg n) i ''WEBHOOK_HEADERS'')
          (stored_headers js (xw_headers n)) (xw_headers_env n) ws in
     (Webhook_cfg (n\<lparr>xw_url := [], xw_url_env := url_env, xw_secret := [], xw_secret_env := secret_env,
        xw_headers := [], xw_headers_env := headers_env\<rparr>), ws))"
| "normalize_notifier js org i (Express_cfg n) ws =
    (let (env, ws) = store_slot (slot_name org (Express_cfg n) i ''EXPRESS_TOKEN'')
          (take_inline (xe_access_token n)) (xe_access_token_env n) ws in
     (Express_cfg (n\<lparr>xe_access_token := [], xe_access_token_env := env\<rparr>), ws))"
| "normalize_notifier js org i (Novu_cfg n) ws =
    (let (env, ws) = store_slot (slot_name org (Novu_cfg n) i ''NOVU_KEY'')
          (take_inline (xv_api_key n)) (xv_api_key_env n) ws in
     (Novu_cfg (n\<lparr>xv_api_key := [], xv_api_key_env := env\<rparr>), ws))"
| "normalize_notifier js org i (Slack_cfg n) ws =
    (let (url_env, ws) = store_slot (slot_name org (Slack_cfg n) i ''SLACK_WEBHOOK'')
          (take_inline (xs_webhook_url n)) (xs_webhook_url_env n) ws;
         (bot_env, ws) = store_slot (slot_name org (Slack_cfg n) i ''SLACK_BOT'')
          (take_inline (xs_bot_token n)) (xs_bot_token_env n) ws in
     (Slack_cfg (n\<lparr>xs_webhook_url := [], xs_webhook_url_env := url_env, xs_bot_token := [],
        xs_bot_token_env := bot_env\<rparr>), ws))"
| "normalize_notifier js org i (Telegram_cfg n) ws =
    (let (env, ws) = store_slot (slot_name org (Telegram_cfg n) i ''TELEGRAM_BOT'')
          (take_inline (xt_bot_token n)) (xt_bot_token_env n) ws in
     (Telegram_cfg (n\<lparr>xt_bot_token := [], xt_bot_token_env := env\<rparr>), ws))"
| "normalize_notifier js org i (Smtp_cfg n) ws =
    (let (env, ws) = store_slot (slot_name org (Smtp_cfg n) i ''SMTP_PASSWORD'')
          (take_inline (xm_password n)) (xm_password_env n) ws in
     (Smtp_cfg (n\<lparr>xm_password := [], xm_password_env := env\<rparr>), ws))"
| "normalize_notifier js org i (Rabbitmq_cfg n) ws =
    (let (env, ws) = store_slot (slot_name org (Rabbitmq_cfg n) i ''RABBITMQ_URL'')
          (take_inline (xr_url n)) (xr_url_env n) ws in
     (Rabbitmq_cfg (n\<lparr>xr_url := [], xr_url_env := env\<rparr>), ws))"
| "normalize_notifier js org i (Nats_cfg n) ws =
    (let (env, ws) = store_slot (slot_name org (Nats_cfg n) i ''NATS_URL'')
          (take_inline (xn_url n)) (xn_url_env n) ws in
     (Nats_cfg (n\<lparr>xn_url := [], xn_url_env := env\<rparr>), ws))"
| "normalize_notifier js org i (Kafka_cfg n) ws = (Kafka_cfg n, ws)"

text \<open>The entries in order, each with its index.\<close>

fun thread :: "(nat \<Rightarrow> 'a \<Rightarrow> 'w \<Rightarrow> 'a \<times> 'w) \<Rightarrow> nat \<Rightarrow> 'a list \<Rightarrow> 'w \<Rightarrow> 'a list \<times> 'w" where
  "thread f i [] w = ([], w)"
| "thread f i (x # xs) w =
    (let (y, w1) = f i x w; (ys, w2) = thread f (Suc i) xs w1 in (y # ys, w2))"

definition normalize_secrets_to_refs ::
  "json_texts \<Rightarrow> string option \<Rightarrow> config \<Rightarrow> config \<times> secret_write list" where
  "normalize_secrets_to_refs js org c =
    (let (sources, ws) = thread (normalize_source_token org) 0 (cf_sources c) [];
         (notifiers, ws) = thread (normalize_notifier js org) 0 (cf_notifiers c) ws in
     (c\<lparr>cf_sources := sources, cf_notifiers := notifiers\<rparr>, ws))"

section \<open>References\<close>

fun notifier_env_refs :: "notifier_config \<Rightarrow> string option list" where
  "notifier_env_refs (Apprise_cfg n) = [xa_urls_env n]"
| "notifier_env_refs (Webhook_cfg n) = [xw_url_env n, xw_secret_env n, xw_headers_env n]"
| "notifier_env_refs (Express_cfg n) = [xe_access_token_env n]"
| "notifier_env_refs (Novu_cfg n) = [xv_api_key_env n]"
| "notifier_env_refs (Slack_cfg n) = [xs_webhook_url_env n, xs_bot_token_env n]"
| "notifier_env_refs (Telegram_cfg n) = [xt_bot_token_env n]"
| "notifier_env_refs (Smtp_cfg n) = [xm_password_env n]"
| "notifier_env_refs (Nats_cfg n) = [xn_url_env n]"
| "notifier_env_refs (Rabbitmq_cfg n) = [xr_url_env n]"
| "notifier_env_refs (Kafka_cfg n) = []"

definition source_env_ref :: "source_config \<Rightarrow> string option" where
  "source_env_ref s = (case source_token s of Some (_, env) \<Rightarrow> env | None \<Rightarrow> None)"

definition collect_secret_env_refs :: "config \<Rightarrow> string list" where
  "collect_secret_env_refs c =
    remdups (List.map_filter trimmed_nonempty
      (map source_env_ref (cf_sources c) @ concat (map notifier_env_refs (cf_notifiers c))))"

definition is_ui_managed_secret_name :: "string \<Rightarrow> string option \<Rightarrow> bool" where
  "is_ui_managed_secret_name name org =
    (let name = trim name in
     prefix ''XRELEASE_UI_'' name
     \<and> (case trimmed_nonempty org of
          Some i \<Rightarrow> prefix (''XRELEASE_UI_'' @ sanitized i @ ''_'') name
        | None \<Rightarrow> prefix ''XRELEASE_UI_SRC_'' name \<or> prefix ''XRELEASE_UI_N_'' name))"

definition sort_names :: "string list \<Rightarrow> string list" where
  "sort_names names = map fst (btree_of (map (\<lambda>n. (n, ())) names))"

definition stale_ui_managed_secrets :: "string list \<Rightarrow> string list \<Rightarrow> string option \<Rightarrow> string list" where
  "stale_ui_managed_secrets previous new_refs org =
    sort_names (filter (\<lambda>n. n \<notin> set new_refs \<and> is_ui_managed_secret_name n org) previous)"

section \<open>The vault\<close>

type_synonym vault = "string \<rightharpoonup> string"

definition vault_upsert :: "string \<Rightarrow> string \<Rightarrow> vault \<Rightarrow> vault" where
  "vault_upsert name value v = (if trim name = [] \<or> trim value = [] then v else v(name \<mapsto> value))"

definition vault_remove :: "string \<Rightarrow> vault \<Rightarrow> vault" where
  "vault_remove name v = (if trim name = [] then v else v(trim name := None))"

definition vault_get :: "vault \<Rightarrow> string \<Rightarrow> string option" where
  "vault_get v name =
    (if trim name = [] then None
     else (case v (trim name) of Some value \<Rightarrow> if trim value = [] then None else Some value | None \<Rightarrow> None))"

definition store_writes :: "secret_write list \<Rightarrow> vault \<Rightarrow> vault" where
  "store_writes ws v = fold (\<lambda>w. vault_upsert (sx_name w) (sx_value w)) ws v"

definition with_vault :: "token_env \<Rightarrow> vault \<Rightarrow> token_env" where
  "with_vault env v = env\<lparr>te_vault := vault_get v\<rparr>"

section \<open>Names are what they seem\<close>

lemma upper_of_alnum: "is_alnum c \<Longrightarrow> is_digit (ascii_upper_char c) \<or> is_upper (ascii_upper_char c)"
proof -
  assume a: "is_alnum c"
  have "is_lower c \<Longrightarrow> code (byte (code c - 32)) = code c - 32"
    by (rule code_byte) (rule le_less_trans [OF diff_le_self code_less_256])
  then show ?thesis using a
    unfolding is_alnum_def ascii_upper_char_def is_lower_def is_upper_def is_digit_def by auto
qed

lemma sanitized_chars:
  assumes "c \<in> set (sanitized s)"
  shows "is_digit c \<or> is_upper c \<or> c = CHR ''_''"
proof -
  obtain d where "c \<in> set (if is_alnum d then [ascii_upper_char d] else if is_continuation d then [] else ''_'')"
    using assms unfolding sanitized_def set_concat set_map by blast
  then show ?thesis using upper_of_alnum by (cases "is_alnum d"; cases "is_continuation d") auto
qed

lemma name_char_no_white_space:
  assumes "w \<in> set white_space" and "is_digit c \<or> is_upper c \<or> c = CHR ''_''"
  shows "c \<notin> set w"
proof -
  have "list_all (\<lambda>w. list_all (\<lambda>c. \<not> (is_digit c \<or> is_upper c \<or> c = CHR ''_'')) w) white_space" by code_simp
  then show ?thesis using assms by (auto simp: list_all_iff)
qed

definition plain_name :: "string \<Rightarrow> bool" where
  "plain_name s \<longleftrightarrow> s \<noteq> [] \<and> (\<forall>c \<in> set s. is_digit c \<or> is_upper c \<or> c = CHR ''_'')"

lemma strip_front_plain:
  assumes "\<And>w c. w \<in> set ws \<Longrightarrow> c \<in> set s \<Longrightarrow> c \<notin> set w"
  shows "strip_front ws s = s"
proof (rule strip_front_id)
  fix w assume w: "w \<in> set ws" "w \<noteq> []"
  show "\<not> prefix w s"
  proof
    assume "prefix w s"
    then have "hd w \<in> set s" using w(2) by (cases w) (auto simp: prefix_def)
    then show False using assms [OF w(1), of "hd w"] hd_in_set [OF w(2)] by blast
  qed
qed

lemma trim_plain:
  assumes "plain_name s"
  shows "trim s = s"
proof -
  have "c \<notin> set w" if "w \<in> set white_space" "c \<in> set s" for w c
    using that assms name_char_no_white_space by (auto simp: plain_name_def)
  then have "strip_front white_space s = s" "strip_front (map rev white_space) (rev s) = rev s"
    by (intro strip_front_plain; auto)+
  then show ?thesis by (simp add: trim_def trim_start_def trim_end_def)
qed

lemma auto_name_plain: "plain_name (auto_name org parts)"
  by (auto simp: plain_name_def auto_name_def dest: sanitized_chars split: option.splits)
    (auto simp: is_upper_def code_def)

section \<open>The squeezing loop is one pass\<close>

text \<open>The pass that drops an underscore before an underscore.\<close>

fun collapse :: "string \<Rightarrow> string" where
  "collapse [] = []"
| "collapse (c # cs) =
    (if c = CHR ''_'' \<and> cs \<noteq> [] \<and> hd cs = CHR ''_'' then collapse cs else c # collapse cs)"

lemma replace_hd:
  "new \<noteq> [] \<Longrightarrow> pat \<noteq> [] \<Longrightarrow> hd new = hd pat \<Longrightarrow>
    (replace_all pat new s = [] \<longleftrightarrow> s = []) \<and> (s \<noteq> [] \<longrightarrow> hd (replace_all pat new s) = hd s)"
  by (subst (1 2) replace_all.simps) (auto simp: strip_prefix_Some split: option.splits list.splits)

lemma collapse_replace: "collapse (replace_all ''__'' ''_'' s) = collapse s"
proof (induction "''__'' :: string" "''_'' :: string" s rule: replace_all.induct)
  case (1 s)
  note same = replace_hd [of "''_''" "''__''", simplified]
  show ?case
  proof (cases "strip_prefix ''__'' s")
    case (Some rest)
    then have s: "s = ''__'' @ rest" by (simp add: strip_prefix_Some)
    have "collapse (replace_all ''__'' ''_'' rest) = collapse rest" using 1 Some by simp
    then show ?thesis
      using Some s same [of rest] by (subst replace_all.simps) (cases rest; auto)
  next
    case None
    show ?thesis
    proof (cases s)
      case Nil
      then show ?thesis using None by (subst replace_all.simps) simp
    next
      case (Cons c cs)
      have "collapse (replace_all ''__'' ''_'' cs) = collapse cs" using 1 None Cons by simp
      then show ?thesis using None Cons same [of cs] by (subst replace_all.simps) auto
    qed
  qed
qed

lemma collapse_id: "\<not> contains_str s ''__'' \<Longrightarrow> collapse s = s"
  by (induction s rule: collapse.induct) (auto simp: neq_Nil_conv)

text \<open>
  The loop that rewrites double underscores until none is left always ends, and what it returns
  is what a single pass over the text computes.
\<close>

theorem squeeze_is_collapse: "squeeze s = collapse s"
proof (induction s rule: squeeze.induct)
  case (1 s)
  then show ?case by (subst squeeze.simps) (simp add: collapse_replace collapse_id)
qed

section \<open>Threading\<close>

lemma thread_fixed:
  "(\<And>i x w. x \<in> set xs \<Longrightarrow> f i x w = (x, w)) \<Longrightarrow> thread f i xs w = (xs, w)"
  by (induction xs arbitrary: i) simp_all

lemma thread_all:
  "(\<And>i x w. P (fst (f i x w))) \<Longrightarrow> y \<in> set (fst (thread f i xs w)) \<Longrightarrow> P y"
proof (induction xs arbitrary: i w)
  case (Cons x xs)
  have "y = fst (f i x w) \<or> y \<in> set (fst (thread f (Suc i) xs (snd (f i x w))))"
    using Cons.prems(2) by (auto split: prod.splits)
  then show ?case using Cons.prems(1) [of i x w] Cons.IH [OF Cons.prems(1)] by blast
qed simp

lemma thread_collects:
  assumes "\<And>i x w. g (snd (f i x w)) \<subseteq> g w \<union> h (fst (f i x w))"
  shows "g (snd (thread f i xs w)) \<subseteq> g w \<union> \<Union> (h ` set (fst (thread f i xs w)))"
proof (induction xs arbitrary: i w)
  case (Cons x xs)
  show ?case using assms [of i x w] Cons [of "Suc i" "snd (f i x w)"] by (fastforce split: prod.splits)
qed simp

lemma thread_fold:
  assumes "\<And>i x w. snd (f i x w) = fold p (q i x) w"
  shows "snd (thread f i xs w) = fold p (concat (map (\<lambda>(i, x). q i x) (List.enumerate i xs))) w"
proof (induction xs arbitrary: i w)
  case (Cons x xs)
  show ?case using Cons assms [of i x w] by (simp split: prod.splits) (metis snd_conv)
qed simp

lemma thread_nth:
  assumes "\<And>i x w. fst (f i x w) = g i x" and "k < length xs"
  shows "fst (thread f i xs w) ! k = g (i + k) (xs ! k)" "length (fst (thread f i xs w)) = length xs"
proof -
  have "fst (thread f i xs w) = map (\<lambda>(i, x). g i x) (List.enumerate i xs)" for i w
  proof (induction xs arbitrary: i w)
    case (Cons x xs)
    show ?case using Cons assms(1) [of i x w] by (simp split: prod.splits) (metis fst_conv)
  qed simp
  then show "fst (thread f i xs w) ! k = g (i + k) (xs ! k)" "length (fst (thread f i xs w)) = length xs"
    using assms(2) by (simp_all add: nth_enumerate_eq)
qed

section \<open>What storing promises\<close>

fun inline_values :: "notifier_config \<Rightarrow> string list" where
  "inline_values (Apprise_cfg n) = xa_urls n"
| "inline_values (Webhook_cfg n) = xw_url n # xw_secret n # map snd (xw_headers n)"
| "inline_values (Express_cfg n) = [xe_access_token n]"
| "inline_values (Novu_cfg n) = [xv_api_key n]"
| "inline_values (Slack_cfg n) = [xs_webhook_url n, xs_bot_token n]"
| "inline_values (Telegram_cfg n) = [xt_bot_token n]"
| "inline_values (Smtp_cfg n) = [xm_password n]"
| "inline_values (Nats_cfg n) = [xn_url n]"
| "inline_values (Rabbitmq_cfg n) = [xr_url n]"
| "inline_values (Kafka_cfg n) = []"

definition inline_token :: "source_config \<Rightarrow> string list" where
  "inline_token s = (case source_token s of Some (Some t, _) \<Rightarrow> [t] | _ \<Rightarrow> [])"

definition inline_secrets :: "config \<Rightarrow> string list" where
  "inline_secrets c =
    filter (\<lambda>v. v \<noteq> []) (concat (map inline_token (cf_sources c)) @ concat (map inline_values (cf_notifiers c)))"

lemma live_secret_Nil [simp]: "\<not> live_secret []"
  by (simp add: live_secret_def)

lemma store_slot_None [simp]: "store_slot g None env ws = (env, ws)"
  by (simp add: store_slot_def)

lemma take_inline_Nil [simp]: "take_inline [] = None" "stored_urls js [] = None" "stored_headers js [] = None"
  by (simp_all add: take_inline_def stored_urls_def stored_headers_def live_entries_def)

lemma normalized_source: "set (inline_token (fst (normalize_source_token org i s ws))) \<subseteq> {[]}"
  by (auto simp: normalize_source_token_def inline_token_def split: option.splits prod.splits)

lemma normalized_notifier: "set (inline_values (fst (normalize_notifier js org i n ws))) \<subseteq> {[]}"
  by (cases n) (auto split: prod.splits)

lemma normalize_parts:
  "normalize_secrets_to_refs js org c =
    (c\<lparr>cf_sources := fst (thread (normalize_source_token org) 0 (cf_sources c) []),
       cf_notifiers := fst (thread (normalize_notifier js org) 0 (cf_notifiers c)
         (snd (thread (normalize_source_token org) 0 (cf_sources c) [])))\<rparr>,
     snd (thread (normalize_notifier js org) 0 (cf_notifiers c)
       (snd (thread (normalize_source_token org) 0 (cf_sources c) []))))"
  by (simp add: normalize_secrets_to_refs_def split: prod.splits)

text \<open>
  No inline secret is left in a document once its secrets have been moved: every token, address,
  key, password and header value of its sources and sinks is empty or gone.
\<close>

theorem normalize_leaves_no_secret: "inline_secrets (fst (normalize_secrets_to_refs js org c)) = []"
proof -
  have "set (inline_token s) \<subseteq> {[]}" if "s \<in> set (fst (thread (normalize_source_token org) i ss ws))" for s i ss ws
    using that by (rule thread_all [where P = "\<lambda>s. set (inline_token s) \<subseteq> {[]}", rotated]) (rule normalized_source)
  moreover have "set (inline_values n) \<subseteq> {[]}" if "n \<in> set (fst (thread (normalize_notifier js org) i ns ws))" for n i ns ws
    using that by (rule thread_all [where P = "\<lambda>n. set (inline_values n) \<subseteq> {[]}", rotated]) (rule normalized_notifier)
  ultimately show ?thesis
    unfolding normalize_parts inline_secrets_def filter_empty_conv by fastforce
qed

lemma stored_source_again:
  "normalize_source_token org j (fst (normalize_source_token org i s ws)) ws' =
    (fst (normalize_source_token org i s ws), ws')"
  by (cases "source_token s")
    (auto simp: normalize_source_token_def split: option.splits prod.splits)

lemma stored_notifier_again:
  "normalize_notifier js org j (fst (normalize_notifier js org i n ws)) ws' =
    (fst (normalize_notifier js org i n ws), ws')"
  by (cases n) (auto simp: live_entries_def split: prod.splits)

text \<open>
  Storing a document a second time changes nothing: the references stay, and there is nothing
  to write.
\<close>

theorem normalize_is_idempotent:
  "normalize_secrets_to_refs js org (fst (normalize_secrets_to_refs js org c)) =
    (fst (normalize_secrets_to_refs js org c), [])"
proof -
  have "thread (normalize_source_token org) 0 ss [] = (ss, [])"
    if ss: "ss = fst (thread (normalize_source_token org) 0 (cf_sources c) ws)" for ss ws
  proof (rule thread_fixed)
    fix i s w assume "s \<in> set ss"
    then have "\<forall>j w. normalize_source_token org j s w = (s, w)"
      unfolding ss by (rule thread_all [rotated]) (simp add: stored_source_again)
    then show "normalize_source_token org i s w = (s, w)" by blast
  qed
  moreover have "thread (normalize_notifier js org) 0 ns [] = (ns, [])"
    if ns: "ns = fst (thread (normalize_notifier js org) 0 (cf_notifiers c) ws)" for ns ws
  proof (rule thread_fixed)
    fix i n w assume "n \<in> set ns"
    then have "\<forall>j w. normalize_notifier js org j n w = (n, w)"
      unfolding ns by (rule thread_all [rotated]) (simp add: stored_notifier_again)
    then show "normalize_notifier js org i n w = (n, w)" by blast
  qed
  ultimately show ?thesis by (simp add: normalize_parts)
qed

section \<open>Every write is referenced\<close>

definition write_names :: "secret_write list \<Rightarrow> string set" where
  "write_names ws = sx_name ` set ws"

definition write_pairs :: "secret_write list \<Rightarrow> (string \<times> string) set" where
  "write_pairs ws = (\<lambda>w. (sx_name w, sx_value w)) ` set ws"

lemma push_write_pairs: "write_pairs (push_write n v ws) \<subseteq> insert (n, v) (write_pairs ws)"
proof -
  have "write_pairs (put_write n v ws) \<subseteq> insert (n, v) (write_pairs ws)"
    by (induction ws) (auto simp: write_pairs_def)
  then show ?thesis by (simp add: push_write_def subset_insertI)
qed

lemma push_write_names:
  "write_names (push_write n v ws) = (if trim n = [] \<or> trim v = [] then write_names ws else insert n (write_names ws))"
proof -
  have "write_names (put_write n v ws) = insert n (write_names ws)"
    by (induction ws) (auto simp: write_names_def)
  then show ?thesis by (simp add: push_write_def)
qed

lemma names_of_pushes:
  "write_names (fold (\<lambda>(n, v). push_write n v) ps ws) =
    write_names ws \<union> fst ` set (filter (\<lambda>(n, v). trim n \<noteq> [] \<and> trim v \<noteq> []) ps)"
  by (induction ps arbitrary: ws) (auto simp: push_write_names)

lemma values_of_pushes:
  "write_pairs (fold (\<lambda>(n, v). push_write n v) ps ws) \<subseteq> write_pairs ws \<union> set ps"
proof (induction ps arbitrary: ws)
  case (Cons p ps)
  obtain n v where "p = (n, v)" by (cases p)
  then show ?case using Cons [of "push_write n v ws"] push_write_pairs [of n v ws] by auto
qed simp

text \<open>The values that a sink or a source asks to store, by the name of each.\<close>

definition slot_push :: "string \<Rightarrow> string option \<Rightarrow> string option \<Rightarrow> (string \<times> string) list" where
  "slot_push generated value env =
    (case value of None \<Rightarrow> [] | Some v \<Rightarrow> [(fst (ensure_env_name env generated), v)])"

definition slot_env :: "string \<Rightarrow> string option \<Rightarrow> string option \<Rightarrow> string option" where
  "slot_env generated value env =
    (case value of None \<Rightarrow> env | Some v \<Rightarrow> snd (ensure_env_name env generated))"

lemma store_slot_pushes:
  "store_slot g value env ws = (slot_env g value env, fold (\<lambda>(n, v). push_write n v) (slot_push g value env) ws)"
  by (simp add: store_slot_def slot_env_def slot_push_def split: option.splits prod.splits)

lemma slot_push_name:
  "(n, v) \<in> set (slot_push (auto_name org parts) value env) \<Longrightarrow>
    trim n = n \<and> n \<noteq> [] \<and> trimmed_nonempty (slot_env (auto_name org parts) value env) = Some n"
  using trim_plain [OF auto_name_plain, of org parts] auto_name_plain [of org parts]
  by (auto simp: slot_push_def slot_env_def ensure_env_name_def trimmed_nonempty_def plain_name_def
      split: option.splits if_splits)

definition source_pushes :: "string option \<Rightarrow> nat \<Rightarrow> source_config \<Rightarrow> (string \<times> string) list" where
  "source_pushes org i s =
    (case source_token s of
       Some (Some v, env) \<Rightarrow>
         slot_push (auto_name org [''SRC'', source_identity s i, ''TOKEN'']) (take_inline v) env
     | _ \<Rightarrow> [])"

text \<open>The secret fields of a sink, each with its variable and the name of its kind.\<close>

fun secret_fields :: "json_texts \<Rightarrow> notifier_config \<Rightarrow> (string option \<times> string option \<times> string) list" where
  "secret_fields js (Apprise_cfg n) = [(stored_urls js (xa_urls n), xa_urls_env n, ''APPRISE_URLS'')]"
| "secret_fields js (Webhook_cfg n) =
    [(take_inline (xw_url n), xw_url_env n, ''WEBHOOK_URL''),
     (take_inline (xw_secret n), xw_secret_env n, ''WEBHOOK_SECRET''),
     (stored_headers js (xw_headers n), xw_headers_env n, ''WEBHOOK_HEADERS'')]"
| "secret_fields js (Express_cfg n) = [(take_inline (xe_access_token n), xe_access_token_env n, ''EXPRESS_TOKEN'')]"
| "secret_fields js (Novu_cfg n) = [(take_inline (xv_api_key n), xv_api_key_env n, ''NOVU_KEY'')]"
| "secret_fields js (Slack_cfg n) =
    [(take_inline (xs_webhook_url n), xs_webhook_url_env n, ''SLACK_WEBHOOK''),
     (take_inline (xs_bot_token n), xs_bot_token_env n, ''SLACK_BOT'')]"
| "secret_fields js (Telegram_cfg n) = [(take_inline (xt_bot_token n), xt_bot_token_env n, ''TELEGRAM_BOT'')]"
| "secret_fields js (Smtp_cfg n) = [(take_inline (xm_password n), xm_password_env n, ''SMTP_PASSWORD'')]"
| "secret_fields js (Nats_cfg n) = [(take_inline (xn_url n), xn_url_env n, ''NATS_URL'')]"
| "secret_fields js (Rabbitmq_cfg n) = [(take_inline (xr_url n), xr_url_env n, ''RABBITMQ_URL'')]"
| "secret_fields js (Kafka_cfg n) = []"

definition notifier_pushes :: "json_texts \<Rightarrow> string option \<Rightarrow> nat \<Rightarrow> notifier_config \<Rightarrow> (string \<times> string) list" where
  "notifier_pushes js org i n =
    concat (map (\<lambda>(value, env, what). slot_push (slot_name org n i what) value env) (secret_fields js n))"

definition secret_pushes :: "json_texts \<Rightarrow> string option \<Rightarrow> config \<Rightarrow> (string \<times> string) list" where
  "secret_pushes js org c =
    concat (map (\<lambda>(i, s). source_pushes org i s) (List.enumerate 0 (cf_sources c)))
    @ concat (map (\<lambda>(i, n). notifier_pushes js org i n) (List.enumerate 0 (cf_notifiers c)))"

lemma notifier_writes:
  "snd (normalize_notifier js org i n ws) = fold (\<lambda>(n, v). push_write n v) (notifier_pushes js org i n) ws"
  by (cases n) (simp_all add: notifier_pushes_def store_slot_pushes)

lemma source_writes:
  "snd (normalize_source_token org i s ws) = fold (\<lambda>(n, v). push_write n v) (source_pushes org i s) ws"
  by (auto simp: normalize_source_token_def source_pushes_def store_slot_pushes take_inline_def
      slot_push_def split: option.splits prod.splits)

lemma normalize_writes:
  "snd (normalize_secrets_to_refs js org c) = fold (\<lambda>(n, v). push_write n v) (secret_pushes js org c) []"
  by (simp add: normalize_parts secret_pushes_def thread_fold [OF notifier_writes] thread_fold [OF source_writes])

lemma stored_refs:
  "notifier_env_refs (fst (normalize_notifier js org i n ws)) =
    map (\<lambda>(value, env, what). slot_env (slot_name org n i what) value env) (secret_fields js n)"
  by (cases n) (simp_all add: store_slot_pushes)

lemma stored_source_ref:
  "source_env_ref (fst (normalize_source_token org i s ws)) =
    (case source_token s of
       Some (Some v, env) \<Rightarrow>
         slot_env (auto_name org [''SRC'', source_identity s i, ''TOKEN'']) (take_inline v) env
     | _ \<Rightarrow> source_env_ref s)"
  by (auto simp: normalize_source_token_def source_env_ref_def store_slot_pushes take_inline_def slot_env_def
      split: option.splits prod.splits)

lemma mem_map_filter: "x \<in> set (List.map_filter f xs) \<longleftrightarrow> (\<exists>y \<in> set xs. f y = Some x)"
  by (induction xs) (auto simp: map_filter_simps split: option.splits)

definition names_in :: "string option list \<Rightarrow> string set" where
  "names_in envs = {n. \<exists>e \<in> set envs. trimmed_nonempty e = Some n}"

lemma names_in_refs:
  "set (collect_secret_env_refs c) =
    \<Union> ((\<lambda>s. names_in [source_env_ref s]) ` set (cf_sources c))
    \<union> \<Union> ((\<lambda>n. names_in (notifier_env_refs n)) ` set (cf_notifiers c))"
  unfolding collect_secret_env_refs_def names_in_def set_remdups
  by (auto simp: mem_map_filter) blast+

lemma notifier_names:
  "write_names (snd (normalize_notifier js org i n ws)) \<subseteq>
    write_names ws \<union> names_in (notifier_env_refs (fst (normalize_notifier js org i n ws)))"
proof
  fix x assume "x \<in> write_names (snd (normalize_notifier js org i n ws))"
  then consider "x \<in> write_names ws" | v where "(x, v) \<in> set (notifier_pushes js org i n)"
    by (auto simp: notifier_writes names_of_pushes)
  then show "x \<in> write_names ws \<union> names_in (notifier_env_refs (fst (normalize_notifier js org i n ws)))"
  proof cases
    case 2
    then obtain u e what where "(u, e, what) \<in> set (secret_fields js n)"
      and "(x, v) \<in> set (slot_push (slot_name org n i what) u e)"
      by (auto simp: notifier_pushes_def)
    then show ?thesis
      using slot_push_name unfolding stored_refs names_in_def slot_name_def by (force simp: image_iff)
  qed simp
qed

lemma source_names:
  "write_names (snd (normalize_source_token org i s ws)) \<subseteq>
    write_names ws \<union> names_in [source_env_ref (fst (normalize_source_token org i s ws))]"
  using slot_push_name
  by (force simp: source_writes names_of_pushes stored_source_ref source_pushes_def names_in_def
      split: option.splits)

text \<open>
  Every secret that storing a document writes has a name which the stored document refers to, so
  no value goes into the vault that nothing can resolve.
\<close>

theorem writes_are_referenced:
  "write_names (snd (normalize_secrets_to_refs js org c)) \<subseteq>
    set (collect_secret_env_refs (fst (normalize_secrets_to_refs js org c)))"
proof -
  note s = thread_collects [of write_names "normalize_source_token org" "\<lambda>s. names_in [source_env_ref s]",
      OF source_names, of 0 "cf_sources c" "[]"]
  note n = thread_collects [of write_names "normalize_notifier js org" "\<lambda>n. names_in (notifier_env_refs n)",
      OF notifier_names, of 0 "cf_notifiers c" "snd (thread (normalize_source_token org) 0 (cf_sources c) [])"]
  have "write_names [] = {}" by (simp add: write_names_def)
  then show ?thesis using s n unfolding names_in_refs normalize_parts by auto
qed

section \<open>What is stored is what is resolved\<close>

lemma store_writes_get:
  assumes "(n, v) \<in> write_pairs ws" and "\<And>v'. (n, v') \<in> write_pairs ws \<Longrightarrow> v' = v"
    and "trim n \<noteq> []" "trim v \<noteq> []"
  shows "store_writes ws vault n = Some v"
proof -
  have keep: "store_writes ws vault n = Some v"
    if "vault n = Some v" "\<And>v'. (n, v') \<in> write_pairs ws \<Longrightarrow> v' = v" for ws vault
    using that
  proof (induction ws arbitrary: vault)
    case (Cons w ws)
    have "vault_upsert (sx_name w) (sx_value w) vault n = Some v"
      using Cons.prems by (auto simp: vault_upsert_def write_pairs_def)
    then show ?case using Cons by (simp add: store_writes_def write_pairs_def)
  qed (simp add: store_writes_def)
  show ?thesis
    using assms(1,2)
  proof (induction ws arbitrary: vault)
    case (Cons w ws)
    have cons: "write_pairs (w # ws) = insert (sx_name w, sx_value w) (write_pairs ws)" by (simp add: write_pairs_def)
    then have all: "\<And>v'. (n, v') \<in> write_pairs ws \<Longrightarrow> v' = v" using Cons.prems(2) by blast
    show ?case
    proof (cases "sx_name w = n")
      case True
      then have "sx_value w = v" using Cons.prems(2) unfolding cons by simp
      then have "vault_upsert (sx_name w) (sx_value w) vault n = Some v"
        using True assms(3,4) by (simp add: vault_upsert_def)
      then show ?thesis using keep [OF _ all] by (simp add: store_writes_def)
    next
      case False
      then have "(n, v) \<in> write_pairs ws" using Cons.prems(1) by (simp add: write_pairs_def)
      then show ?thesis using Cons.IH [OF _ all] by (simp add: store_writes_def)
    qed
  qed (simp add: write_pairs_def)
qed

text \<open>
  C30: A stored secret resolves to the value that was given inline: if no two secrets of the document
  ask for the same name with different values, and no process variable has one of the names, then the
  variable of every non-blank secret field of every sink leads, in the vault as it is after the writes, to
  exactly the value the field had.
\<close>

theorem stored_secret_resolves:
  assumes norm: "normalize_secrets_to_refs js org c = (c', ws)"
    and one: "\<forall>p \<in> set (secret_pushes js org c). \<forall>q \<in> set (secret_pushes js org c). fst p = fst q \<longrightarrow> snd p = snd q"
    and unset: "\<forall>p \<in> set (secret_pushes js org c). te_var env (fst p) = None"
    and i: "i < length (cf_notifiers c)" and k: "k < length (secret_fields js (cf_notifiers c ! i))"
    and v: "fst (secret_fields js (cf_notifiers c ! i) ! k) = Some v" "trim v \<noteq> []"
  shows "named_env (with_vault env (store_writes ws vault)) (notifier_env_refs (cf_notifiers c' ! i) ! k) = Some v"
proof -
  define n where "n = cf_notifiers c ! i"
  obtain e what where field: "secret_fields js n ! k = (Some v, e, what)"
    using v(1) by (cases "secret_fields js n ! k") (auto simp: n_def)
  define generated where "generated = auto_name org [''N'', notifier_identity n i, what]"
  have same: "fst (normalize_notifier js org j m w) = fst (normalize_notifier js org j m [])" for j m w
    by (cases m) (simp_all add: store_slot_pushes)
  have "cf_notifiers c' ! i = fst (normalize_notifier js org i n [])"
    using thread_nth(1) [of "normalize_notifier js org" "\<lambda>j m. fst (normalize_notifier js org j m [])", OF same i, of 0] norm
    by (auto simp: normalize_parts n_def)
  then have ref: "notifier_env_refs (cf_notifiers c' ! i) ! k = slot_env generated (Some v) e"
    using k field by (simp add: stored_refs slot_name_def generated_def n_def)
  obtain name where name: "slot_push generated (Some v) e = [(name, v)]"
    by (simp add: slot_push_def)
  have at: "trim name = name" "name \<noteq> []" "trimmed_nonempty (slot_env generated (Some v) e) = Some name"
    using slot_push_name [of name v org] name unfolding generated_def by (metis list.set_intros(1))+
  have "(name, v) \<in> set (notifier_pushes js org i n)"
    using nth_mem [OF k] field name
    by (force simp: notifier_pushes_def slot_name_def generated_def n_def)
  moreover have "(i, n) \<in> set (List.enumerate 0 (cf_notifiers c))"
    using i by (auto simp: in_set_enumerate_eq n_def)
  ultimately have push: "(name, v) \<in> set (secret_pushes js org c)"
    by (force simp: secret_pushes_def)
  have ws: "ws = fold (\<lambda>(n, v). push_write n v) (secret_pushes js org c) []"
    using normalize_writes [of js org c] norm by simp
  have pairs: "write_pairs ws \<subseteq> set (secret_pushes js org c)"
    using values_of_pushes [of "secret_pushes js org c" "[]"] ws by (simp add: write_pairs_def)
  have "(name, v) \<in> set (filter (\<lambda>(n, v). trim n \<noteq> [] \<and> trim v \<noteq> []) (secret_pushes js org c))"
    using push at(1,2) v(2) by simp
  then have "fst (name, v) \<in> fst ` set (filter (\<lambda>(n, v). trim n \<noteq> [] \<and> trim v \<noteq> []) (secret_pushes js org c))"
    by (rule imageI)
  then have "name \<in> write_names ws" unfolding ws names_of_pushes fst_conv by (rule UnI2)
  then have "name \<in> fst ` write_pairs ws" by (simp add: write_names_def write_pairs_def image_image)
  then obtain v' where "(name, v') \<in> write_pairs ws" by (metis (no_types) imageE prod.collapse)
  moreover have only: "v' = v" if "(name, v') \<in> write_pairs ws" for v'
  proof -
    have "(name, v') \<in> set (secret_pushes js org c)" using that pairs by blast
    then show ?thesis using bspec [OF bspec [OF one push]] by simp
  qed
  ultimately have "store_writes ws vault name = Some v"
    using at v(2) by (intro store_writes_get) auto
  moreover have "te_var env name = None" using bspec [OF unset push] by simp
  ultimately show ?thesis
    using at v(2) by (simp add: ref named_env_def env_token_def with_vault_def vault_get_def)
qed

definition empty_env :: token_env where
  "empty_env = \<lparr>te_var = (\<lambda>_. None), te_vault = (\<lambda>_. None)\<rparr>"

definition example_telegram :: telegram_cfg where
  "example_telegram =
    \<lparr>xt_name = None, xt_tags = [], xt_api_base = ''https://api.telegram.org'', xt_bot_token = ''secret-bot'',
     xt_bot_token_env = None, xt_chat_id = ''-100'', xt_parse_mode = None, xt_template = None\<rparr>"

definition example_texts :: json_texts where
  "example_texts = \<lparr>jt_list = concat, jt_parse_list = (\<lambda>_. None), jt_map = concat \<circ> map snd, jt_parse_map = (\<lambda>_. None)\<rparr>"

definition example_repo :: gitea_repo_cfg where
  "example_repo = \<lparr>rc_id = None, rc_repo = ''a/b'', rc_token = Some ''gh'', rc_token_env = None, rc_common = empty_common\<rparr>"

definition example_document :: config where
  "example_document =
    config_default\<lparr>cf_notifiers := [Telegram_cfg example_telegram], cf_sources := [Github_cfg example_repo]\<rparr>"

definition example_stored :: "config \<times> secret_write list" where
  "example_stored = normalize_secrets_to_refs example_texts None example_document"

theorem stored_secret_resolves_witness:
  "named_env (with_vault empty_env (store_writes (snd example_stored) Map.empty))
    (notifier_env_refs (cf_notifiers (fst example_stored) ! 0) ! 0) = Some ''secret-bot''"
proof (rule stored_secret_resolves [where c = example_document and js = example_texts and org = None and k = 0])
  show "normalize_secrets_to_refs example_texts None example_document = (fst example_stored, snd example_stored)"
    by (simp add: example_stored_def)
  show "\<forall>p\<in>set (secret_pushes example_texts None example_document).
    \<forall>q\<in>set (secret_pushes example_texts None example_document). fst p = fst q \<longrightarrow> snd p = snd q" by code_simp
qed (simp_all add: empty_env_def, (code_simp)+)

text \<open>
  Two forges that host a repository of the same name share one stored secret: with a GitHub and a
  Gitea source of the repository a/b, each with its own token, one value is written, both sources refer
  to it, and the token that the GitHub source resolves, and sends to GitHub, is the one of the other
  host.
\<close>

theorem tokens_of_two_forges_collide:
  "let gitea = \<lparr>hc_id = None, hc_host = ''git.example'', hc_repo = ''a/b'', hc_token = Some ''other'', hc_token_env = None,
         hc_common = empty_common\<rparr>;
       (c, ws) = normalize_secrets_to_refs example_texts None
         (config_default\<lparr>cf_sources := [Github_cfg example_repo, Gitea_cfg gitea]\<rparr>);
       env = with_vault empty_env (store_writes ws Map.empty) in
   length ws = 1 \<and>
   (case cf_sources c of
      [Github_cfg g, Gitea_cfg t] \<Rightarrow>
        rc_token_env g = hc_token_env t
        \<and> resolve_token env (rc_token g) (rc_token_env g) ''GITHUB_TOKEN'' = Some ''other''
    | _ \<Rightarrow> False)"
  by code_simp

definition nameless_webhook :: "string \<Rightarrow> webhook_cfg" where
  "nameless_webhook url =
    \<lparr>xw_name = None, xw_tags = [], xw_url = url, xw_url_env = None, xw_method = Post, xw_headers = [],
     xw_headers_env = None, xw_content_type = None, xw_template = None, xw_secret = [], xw_secret_env = None,
     xw_signature_header = None\<rparr>"

text \<open>
  Two sinks without a name share their stored secrets when the first 24 characters of their
  addresses agree: of two webhooks on the same host, only the address of the second is kept, and both
  deliver to it.
\<close>

theorem webhooks_on_one_host_collide:
  "let (c, ws) = normalize_secrets_to_refs example_texts None
         (config_default\<lparr>cf_notifiers := map (Webhook_cfg \<circ> nameless_webhook)
            [''https://chat.example.org/hooks/one'', ''https://chat.example.org/hooks/two'']\<rparr>);
       env = with_vault empty_env (store_writes ws Map.empty) in
   map sx_value ws = [''https://chat.example.org/hooks/two'']
   \<and> (case cf_notifiers c of
        [Webhook_cfg one, Webhook_cfg two] \<Rightarrow>
          resolve_secret env (xw_url one) (xw_url_env one) [] = ''https://chat.example.org/hooks/two''
          \<and> resolve_secret env (xw_url two) (xw_url_env two) [] = ''https://chat.example.org/hooks/two''
      | _ \<Rightarrow> False)"
  by code_simp

end
