(* ===== verification/Redaction.thy ===== *)
theory Redaction
  imports Secrets
begin

text \<open>
  What a reader of the configuration is shown, and how a document that comes back with placeholders
  gets its secrets again (\<^verbatim>\<open>src/src/config_apply/redact.rs\<close>, \<^verbatim>\<open>diff.rs\<close>).  Names of
  variables are shown; values are not.
\<close>

section \<open>Redaction\<close>

text \<open>The credentials in front of the last at-sign of the authority of an address.\<close>

definition redact_url_userinfo :: "string \<Rightarrow> string" where
  "redact_url_userinfo url =
    (case split_once ''://'' url of
       None \<Rightarrow> url
     | Some (scheme, rest) \<Rightarrow>
         (let authority = takeWhile (\<lambda>c. c \<noteq> CHR ''/'') rest in
          if CHR ''@'' \<notin> set authority then url
          else (let host = rev (takeWhile (\<lambda>c. c \<noteq> CHR ''@'') (rev authority)) in
            scheme @ ''://'' @ redacted @ ''@'' @ host @ drop (length authority) rest)))"

definition env_blank :: "string option \<Rightarrow> bool" where
  "env_blank e \<longleftrightarrow> trimmed_nonempty e = None"

definition mask_token :: "string option \<Rightarrow> string option \<Rightarrow> string option" where
  "mask_token token env =
    (if (case token of Some t \<Rightarrow> trim t \<noteq> [] | None \<Rightarrow> False) \<or> \<not> env_blank env then Some redacted else token)"

definition redact_source :: "source_config \<Rightarrow> source_config" where
  "redact_source s =
    (case source_token s of Some (t, e) \<Rightarrow> set_source_token (mask_token t e) e s | None \<Rightarrow> s)"

definition mask_text :: "string \<Rightarrow> string option \<Rightarrow> string" where
  "mask_text v env = (if v \<noteq> [] \<or> \<not> env_blank env then redacted else v)"

definition mask_broker :: "string \<Rightarrow> string option \<Rightarrow> string" where
  "mask_broker url env =
    (if \<not> env_blank env \<and> trim url = [] then redacted else redact_url_userinfo url)"

definition mask_headers :: "(string \<times> string) list \<Rightarrow> string option \<Rightarrow> (string \<times> string) list" where
  "mask_headers hs env =
    (if hs = [] \<and> \<not> env_blank env then [(''Authorization'', redacted)] else map (\<lambda>(k, v). (k, redacted)) hs)"

fun redact_notifier :: "notifier_config \<Rightarrow> notifier_config" where
  "redact_notifier (Apprise_cfg n) =
    Apprise_cfg (n\<lparr>xa_urls := (if xa_urls n \<noteq> [] \<or> \<not> env_blank (xa_urls_env n) then [redacted] else xa_urls n)\<rparr>)"
| "redact_notifier (Webhook_cfg n) =
    Webhook_cfg (n\<lparr>xw_url := mask_text (xw_url n) (xw_url_env n), xw_secret := mask_text (xw_secret n) (xw_secret_env n),
      xw_headers := mask_headers (xw_headers n) (xw_headers_env n)\<rparr>)"
| "redact_notifier (Express_cfg n) =
    Express_cfg (n\<lparr>xe_access_token := mask_text (xe_access_token n) (xe_access_token_env n)\<rparr>)"
| "redact_notifier (Novu_cfg n) = Novu_cfg (n\<lparr>xv_api_key := mask_text (xv_api_key n) (xv_api_key_env n)\<rparr>)"
| "redact_notifier (Slack_cfg n) =
    Slack_cfg (n\<lparr>xs_webhook_url := mask_text (xs_webhook_url n) (xs_webhook_url_env n),
      xs_bot_token := mask_text (xs_bot_token n) (xs_bot_token_env n)\<rparr>)"
| "redact_notifier (Telegram_cfg n) = Telegram_cfg (n\<lparr>xt_bot_token := mask_text (xt_bot_token n) (xt_bot_token_env n)\<rparr>)"
| "redact_notifier (Smtp_cfg n) = Smtp_cfg (n\<lparr>xm_password := mask_text (xm_password n) (xm_password_env n)\<rparr>)"
| "redact_notifier (Rabbitmq_cfg n) = Rabbitmq_cfg (n\<lparr>xr_url := mask_broker (xr_url n) (xr_url_env n)\<rparr>)"
| "redact_notifier (Nats_cfg n) = Nats_cfg (n\<lparr>xn_url := mask_broker (xn_url n) (xn_url_env n)\<rparr>)"
| "redact_notifier (Kafka_cfg n) = Kafka_cfg n"

definition mask_option :: "string option \<Rightarrow> string option" where
  "mask_option v = (case v of Some s \<Rightarrow> if s \<noteq> [] then Some redacted else v | None \<Rightarrow> None)"

definition redact_api :: "api_config \<Rightarrow> api_config" where
  "redact_api a =
    a\<lparr>ap_api_key := mask_option (ap_api_key a), ap_webhook_secret := mask_option (ap_webhook_secret a),
      ap_local_auth := (ap_local_auth a)\<lparr>la_session_secret := mask_option (la_session_secret (ap_local_auth a)),
        la_admin_password := mask_option (la_admin_password (ap_local_auth a))\<rparr>\<rparr>"

definition redact_config :: "config \<Rightarrow> config" where
  "redact_config c =
    c\<lparr>cf_database := (cf_database c)\<lparr>dbc_postgres_url :=
        (if trim (dbc_postgres_url (cf_database c)) \<noteq> [] then redact_url_userinfo (dbc_postgres_url (cf_database c))
         else dbc_postgres_url (cf_database c))\<rparr>,
      cf_api := redact_api (cf_api c), cf_sources := map redact_source (cf_sources c),
      cf_notifiers := map redact_notifier (cf_notifiers c)\<rparr>"

section \<open>Restoring\<close>

definition is_placeholder :: "string \<Rightarrow> bool" where
  "is_placeholder v \<longleftrightarrow> trim v = [] \<or> trim v = redacted"

definition url_needs_restore :: "string \<Rightarrow> bool" where
  "url_needs_restore v \<longleftrightarrow> is_placeholder v \<or> contains_str v redacted"

text \<open>Each step returns the new value and whether it set anything.\<close>

definition restore_env_name :: "string option \<Rightarrow> string option \<Rightarrow> string option \<times> bool" where
  "restore_env_name e prev = (if \<not> env_blank e \<or> env_blank prev then (e, False) else (prev, True))"

definition restore_inline :: "string \<Rightarrow> string \<Rightarrow> string \<times> bool" where
  "restore_inline v prev = (if \<not> is_placeholder v \<or> is_placeholder prev then (v, False) else (prev, True))"

definition restore_text ::
  "string \<times> string option \<Rightarrow> string \<times> string option \<Rightarrow> (string \<times> string option) \<times> bool" where
  "restore_text field prev =
    (let (v, set1) = restore_inline (fst field) (fst prev);
         (e, set2) = restore_env_name (snd field) (snd prev) in
     if \<not> env_blank e \<and> is_placeholder v then (([], e), True) else ((v, e), set1 \<or> set2))"

definition restore_url ::
  "string \<times> string option \<Rightarrow> string \<times> string option \<Rightarrow> (string \<times> string option) \<times> bool" where
  "restore_url field prev =
    (let (v, set1) = (if url_needs_restore (fst field) \<and> \<not> url_needs_restore (fst prev) then (fst prev, True)
           else (fst field, False));
         (e, set2) = restore_env_name (snd field) (snd prev) in
     if \<not> env_blank e \<and> url_needs_restore v then (([], e), True) else ((v, e), set1 \<or> set2))"

definition restore_headers ::
  "(string \<times> string) list \<times> string option \<Rightarrow> (string \<times> string) list \<times> string option
     \<Rightarrow> ((string \<times> string) list \<times> string option) \<times> bool" where
  "restore_headers field prev =
    (let (e, set1) = restore_env_name (snd field) (snd prev);
         needs = (\<lambda>(k, v). is_placeholder v \<and> map_of (fst prev) k \<noteq> None);
         (hs, set2) =
           (if fst field = [] \<and> fst prev \<noteq> [] then (fst prev, True)
            else (map (\<lambda>(k, v). if needs (k, v) then (k, the (map_of (fst prev) k)) else (k, v)) (fst field),
                  list_ex needs (fst field))) in
     if \<not> env_blank e \<and> list_all (is_placeholder \<circ> snd) hs then (([], e), True) else ((hs, e), set1 \<or> set2))"

definition restore_source_token ::
  "string option \<times> string option \<Rightarrow> string option \<times> string option \<Rightarrow> (string option \<times> string option) \<times> bool" where
  "restore_source_token field prev =
    (let blank = (\<lambda>t. case t of None \<Rightarrow> True | Some v \<Rightarrow> is_placeholder v);
         (t, set1) = (if blank (fst field) \<and> \<not> blank (fst prev) then (fst prev, True) else (fst field, False));
         (e, set2) = restore_env_name (snd field) (snd prev) in
     if \<not> env_blank e \<and> t = Some redacted then ((None, e), True) else ((t, e), set1 \<or> set2))"

fun source_key :: "source_config \<Rightarrow> string option" where
  "source_key (Github_cfg c) = Some (''github:'' @ rc_repo c)"
| "source_key (Codeberg_cfg c) = Some (''codeberg:'' @ rc_repo c)"
| "source_key (Gitea_cfg c) = Some (''gitea:'' @ hc_host c @ '':'' @ hc_repo c)"
| "source_key (Gitlab_cfg c) = Some (''gitlab:'' @ gc_project c)"
| "source_key (Bitbucket_cfg c) = Some (''bitbucket:'' @ bk_repo c)"
| "source_key (Docker_cfg c) = Some (''docker:'' @ dr_image c)"
| "source_key (Ghcr_cfg c) = Some (''ghcr:'' @ ri_image c)"
| "source_key (Quay_cfg c) = Some (''quay:'' @ ri_image c)"
| "source_key (Ecr_cfg c) = Some (''ecr:'' @ ri_image c)"
| "source_key _ = None"

text \<open>Equal keys come from sources of one kind: the key starts with it.\<close>

definition previous_source :: "config \<Rightarrow> source_config \<Rightarrow> source_config option" where
  "previous_source prev s =
    (case source_key s of None \<Rightarrow> None | Some k \<Rightarrow> find (\<lambda>p. source_key p = Some k) (cf_sources prev))"

definition restore_source :: "config \<Rightarrow> source_config \<Rightarrow> source_config \<times> bool" where
  "restore_source prev s =
    (case (source_token s, Option.bind (previous_source prev s) source_token) of
       (Some field, Some p) \<Rightarrow>
         (let ((t, e), set) = restore_source_token field p in (set_source_token t e s, set))
     | _ \<Rightarrow> (s, False))"

text \<open>The previous entry that a sink is matched with.\<close>

fun same_sink :: "notifier_config \<Rightarrow> notifier_config \<Rightarrow> bool" where
  "same_sink (Apprise_cfg n) q =
    (case q of Apprise_cfg p \<Rightarrow>
      (xa_endpoint p = xa_endpoint n)
    | _ \<Rightarrow> False)"
| "same_sink (Express_cfg n) q =
    (case q of Express_cfg p \<Rightarrow>
      (xe_group_chat_id p = xe_group_chat_id n)
    | _ \<Rightarrow> False)"
| "same_sink (Novu_cfg n) q =
    (case q of Novu_cfg p \<Rightarrow>
      (xv_workflow p = xv_workflow n \<and> xv_topic_key p = xv_topic_key n \<and> xv_subscriber_id p = xv_subscriber_id n)
    | _ \<Rightarrow> False)"
| "same_sink (Slack_cfg n) q =
    (case q of Slack_cfg p \<Rightarrow>
      (trim (xs_channel n) \<noteq> [] \<and> xs_channel p = xs_channel n \<or> trim (xs_channel n) = [] \<and> xs_name p = xs_name n)
    | _ \<Rightarrow> False)"
| "same_sink (Telegram_cfg n) q =
    (case q of Telegram_cfg p \<Rightarrow>
      (xt_chat_id p = xt_chat_id n)
    | _ \<Rightarrow> False)"
| "same_sink (Webhook_cfg n) q =
    (case q of Webhook_cfg p \<Rightarrow>
      (xw_name n \<noteq> None \<and> xw_name p = xw_name n \<or> \<not> url_needs_restore (xw_url n) \<and> xw_url p = xw_url n)
    | _ \<Rightarrow> False)"
| "same_sink (Smtp_cfg n) q =
    (case q of Smtp_cfg p \<Rightarrow>
      (xm_host p = xm_host n)
    | _ \<Rightarrow> False)"
| "same_sink (Rabbitmq_cfg n) q =
    (case q of Rabbitmq_cfg p \<Rightarrow>
      (xr_routing_key p = xr_routing_key n \<and> xr_name p = xr_name n)
    | _ \<Rightarrow> False)"
| "same_sink (Nats_cfg n) q =
    (case q of Nats_cfg p \<Rightarrow>
      (xn_subject p = xn_subject n \<and> xn_name p = xn_name n)
    | _ \<Rightarrow> False)"
| "same_sink (Kafka_cfg n) q = False"

fun is_webhook :: "notifier_config \<Rightarrow> bool" where
  "is_webhook (Webhook_cfg _) = True"
| "is_webhook _ = False"

text \<open>A webhook without name and address is matched with the only webhook there was.\<close>

fun only_webhook :: "config \<Rightarrow> notifier_config \<Rightarrow> notifier_config option" where
  "only_webhook prev (Webhook_cfg n) =
    (if \<not> url_needs_restore (xw_url n) \<or> xw_name n \<noteq> None then None
     else (case filter is_webhook (cf_notifiers prev) of [p] \<Rightarrow> Some p | _ \<Rightarrow> None))"
| "only_webhook prev _ = None"

definition previous_sink :: "config \<Rightarrow> notifier_config \<Rightarrow> notifier_config option" where
  "previous_sink prev n =
    (case find (same_sink n) (cf_notifiers prev) of Some p \<Rightarrow> Some p | None \<Rightarrow> only_webhook prev n)"

definition restore_urls ::
  "string option \<Rightarrow> string list \<times> string option \<Rightarrow> string list \<times> string option
     \<Rightarrow> (string list \<times> string option) \<times> bool" where
  "restore_urls config_key field prev =
    (let (e, set1) = restore_env_name (snd field) (snd prev);
         missing = list_all is_placeholder (fst field) in
     if missing \<and> config_key = None \<and> fst prev \<noteq> [] \<and> list_all (\<lambda>u. \<not> is_placeholder u) (fst prev)
     then ((fst prev, e), True)
     else if missing \<and> \<not> env_blank e then (([], e), True)
     else ((fst field, e), set1))"

fun restore_from :: "notifier_config \<Rightarrow> notifier_config \<Rightarrow> notifier_config \<times> bool" where
  "restore_from (Apprise_cfg n) q =
    (case q of Apprise_cfg p \<Rightarrow>
      (let ((urls, e), set) = restore_urls (xa_config_key n) (xa_urls n, xa_urls_env n) (xa_urls p, xa_urls_env p) in
     (Apprise_cfg (n\<lparr>xa_urls := urls, xa_urls_env := e\<rparr>), set))
    | _ \<Rightarrow> (Apprise_cfg n, False))"
| "restore_from (Express_cfg n) q =
    (case q of Express_cfg p \<Rightarrow>
      (let ((v, e), set) = restore_text (xe_access_token n, xe_access_token_env n) (xe_access_token p, xe_access_token_env p) in
     (Express_cfg (n\<lparr>xe_access_token := v, xe_access_token_env := e\<rparr>), set))
    | _ \<Rightarrow> (Express_cfg n, False))"
| "restore_from (Novu_cfg n) q =
    (case q of Novu_cfg p \<Rightarrow>
      (let ((v, e), set) = restore_text (xv_api_key n, xv_api_key_env n) (xv_api_key p, xv_api_key_env p) in
     (Novu_cfg (n\<lparr>xv_api_key := v, xv_api_key_env := e\<rparr>), set))
    | _ \<Rightarrow> (Novu_cfg n, False))"
| "restore_from (Slack_cfg n) q =
    (case q of Slack_cfg p \<Rightarrow>
      (let ((u, ue), set1) = restore_text (xs_webhook_url n, xs_webhook_url_env n) (xs_webhook_url p, xs_webhook_url_env p);
         ((b, be), set2) = restore_text (xs_bot_token n, xs_bot_token_env n) (xs_bot_token p, xs_bot_token_env p) in
     (Slack_cfg (n\<lparr>xs_webhook_url := u, xs_webhook_url_env := ue, xs_bot_token := b, xs_bot_token_env := be\<rparr>),
      set1 \<or> set2))
    | _ \<Rightarrow> (Slack_cfg n, False))"
| "restore_from (Telegram_cfg n) q =
    (case q of Telegram_cfg p \<Rightarrow>
      (let ((v, e), set) = restore_text (xt_bot_token n, xt_bot_token_env n) (xt_bot_token p, xt_bot_token_env p) in
     (Telegram_cfg (n\<lparr>xt_bot_token := v, xt_bot_token_env := e\<rparr>), set))
    | _ \<Rightarrow> (Telegram_cfg n, False))"
| "restore_from (Webhook_cfg n) q =
    (case q of Webhook_cfg p \<Rightarrow>
      (let ((u, ue), set1) = restore_url (xw_url n, xw_url_env n) (xw_url p, xw_url_env p);
         ((s, se), set2) = restore_text (xw_secret n, xw_secret_env n) (xw_secret p, xw_secret_env p);
         ((hs, he), set3) = restore_headers (xw_headers n, xw_headers_env n) (xw_headers p, xw_headers_env p) in
     (Webhook_cfg (n\<lparr>xw_url := u, xw_url_env := ue, xw_secret := s, xw_secret_env := se, xw_headers := hs,
        xw_headers_env := he\<rparr>), set1 \<or> set2 \<or> set3))
    | _ \<Rightarrow> (Webhook_cfg n, False))"
| "restore_from (Smtp_cfg n) q =
    (case q of Smtp_cfg p \<Rightarrow>
      (let ((v, e), set) = restore_text (xm_password n, xm_password_env n) (xm_password p, xm_password_env p) in
     (Smtp_cfg (n\<lparr>xm_password := v, xm_password_env := e\<rparr>), set))
    | _ \<Rightarrow> (Smtp_cfg n, False))"
| "restore_from (Rabbitmq_cfg n) q =
    (case q of Rabbitmq_cfg p \<Rightarrow>
      (let ((v, e), set) = restore_url (xr_url n, xr_url_env n) (xr_url p, xr_url_env p) in
     (Rabbitmq_cfg (n\<lparr>xr_url := v, xr_url_env := e\<rparr>), set))
    | _ \<Rightarrow> (Rabbitmq_cfg n, False))"
| "restore_from (Nats_cfg n) q =
    (case q of Nats_cfg p \<Rightarrow>
      (let ((v, e), set) = restore_url (xn_url n, xn_url_env n) (xn_url p, xn_url_env p) in
     (Nats_cfg (n\<lparr>xn_url := v, xn_url_env := e\<rparr>), set))
    | _ \<Rightarrow> (Nats_cfg n, False))"
| "restore_from (Kafka_cfg n) q = (Kafka_cfg n, False)"

definition restore_notifier :: "config \<Rightarrow> notifier_config \<Rightarrow> notifier_config \<times> bool" where
  "restore_notifier prev n = (case previous_sink prev n of Some p \<Rightarrow> restore_from n p | None \<Rightarrow> (n, False))"

definition restore_redacted_secrets :: "config \<Rightarrow> config \<Rightarrow> config \<times> bool" where
  "restore_redacted_secrets prev c =
    (let sources = map (restore_source prev) (cf_sources c);
         notifiers = map (restore_notifier prev) (cf_notifiers c) in
     (c\<lparr>cf_sources := map fst sources, cf_notifiers := map fst notifiers\<rparr>,
      list_ex snd sources \<or> list_ex snd notifiers))"

section \<open>Differences\<close>

record config_diff =
  dd_added :: "string list"
  dd_removed :: "string list"
  dd_changed :: "string list"

text \<open>A document whose watches cannot be built has no sources to compare.\<close>

definition source_content :: "build_libs \<Rightarrow> config \<Rightarrow> (string \<times> source_config) list" where
  "source_content lib c =
    (case to_watches lib c of
       Inl _ \<Rightarrow> [] | Inr ws \<Rightarrow> zip (map (\<lambda>w. provider_id (wt_provider w)) ws) (cf_sources c))"

text \<open>Of several sources with one id, the last stands for the id.\<close>

definition compute_diff :: "build_libs \<Rightarrow> config \<Rightarrow> config \<Rightarrow> config_diff" where
  "compute_diff lib current new =
    (let current = source_content lib current; new = source_content lib new;
         by_id = map_of (rev current) in
     \<lparr>dd_added = map fst (filter (\<lambda>(i, _). by_id i = None) new),
      dd_removed = map fst (filter (\<lambda>(i, _). i \<notin> fst ` set new) current),
      dd_changed = map fst (filter (\<lambda>(i, s). by_id i \<noteq> None \<and> by_id i \<noteq> Some s) new)\<rparr>)"

lemma source_content_ids:
  "to_watches lib c = Inr ws \<Longrightarrow> source_content lib c = zip (map watch_source_id (cf_sources c)) (cf_sources c)"
  using to_watches_ids [of lib c ws] by (simp add: source_content_def)

section \<open>A reader learns no secret\<close>

text \<open>
  The document with every secret value replaced by \<open>f\<close>, and by \<open>g\<close> the credentials in front of the
  host of an address.
\<close>

definition map_userinfo :: "(string \<Rightarrow> string) \<Rightarrow> string \<Rightarrow> string" where
  "map_userinfo g url =
    (case split_once ''://'' url of
       None \<Rightarrow> url
     | Some (scheme, rest) \<Rightarrow>
         (let authority = takeWhile (\<lambda>c. c \<noteq> CHR ''/'') rest in
          if CHR ''@'' \<notin> set authority then url
          else (let host = rev (takeWhile (\<lambda>c. c \<noteq> CHR ''@'') (rev authority)) in
            scheme @ ''://'' @ g (take (length authority - length host - 1) authority) @ ''@'' @ host
              @ drop (length authority) rest)))"

definition map_token :: "(string \<Rightarrow> string) \<Rightarrow> source_config \<Rightarrow> source_config" where
  "map_token f s = (case source_token s of Some (t, e) \<Rightarrow> set_source_token (map_option f t) e s | None \<Rightarrow> s)"

fun map_sink_secrets :: "(string \<Rightarrow> string) \<Rightarrow> (string \<Rightarrow> string) \<Rightarrow> notifier_config \<Rightarrow> notifier_config" where
  "map_sink_secrets f g (Apprise_cfg n) = Apprise_cfg (n\<lparr>xa_urls := map f (xa_urls n)\<rparr>)"
| "map_sink_secrets f g (Webhook_cfg n) =
    Webhook_cfg (n\<lparr>xw_url := f (xw_url n), xw_secret := f (xw_secret n),
      xw_headers := map (\<lambda>(k, v). (k, f v)) (xw_headers n)\<rparr>)"
| "map_sink_secrets f g (Express_cfg n) = Express_cfg (n\<lparr>xe_access_token := f (xe_access_token n)\<rparr>)"
| "map_sink_secrets f g (Novu_cfg n) = Novu_cfg (n\<lparr>xv_api_key := f (xv_api_key n)\<rparr>)"
| "map_sink_secrets f g (Slack_cfg n) =
    Slack_cfg (n\<lparr>xs_webhook_url := f (xs_webhook_url n), xs_bot_token := f (xs_bot_token n)\<rparr>)"
| "map_sink_secrets f g (Telegram_cfg n) = Telegram_cfg (n\<lparr>xt_bot_token := f (xt_bot_token n)\<rparr>)"
| "map_sink_secrets f g (Smtp_cfg n) = Smtp_cfg (n\<lparr>xm_password := f (xm_password n)\<rparr>)"
| "map_sink_secrets f g (Rabbitmq_cfg n) = Rabbitmq_cfg (n\<lparr>xr_url := map_userinfo g (xr_url n)\<rparr>)"
| "map_sink_secrets f g (Nats_cfg n) = Nats_cfg (n\<lparr>xn_url := map_userinfo g (xn_url n)\<rparr>)"
| "map_sink_secrets f g (Kafka_cfg n) = Kafka_cfg n"

definition map_secrets :: "(string \<Rightarrow> string) \<Rightarrow> (string \<Rightarrow> string) \<Rightarrow> config \<Rightarrow> config" where
  "map_secrets f g c =
    c\<lparr>cf_database := (cf_database c)\<lparr>dbc_postgres_url := map_userinfo g (dbc_postgres_url (cf_database c))\<rparr>,
      cf_api := (cf_api c)\<lparr>ap_api_key := map_option f (ap_api_key (cf_api c)),
        ap_webhook_secret := map_option f (ap_webhook_secret (cf_api c)),
        ap_local_auth := (ap_local_auth (cf_api c))\<lparr>
          la_session_secret := map_option f (la_session_secret (ap_local_auth (cf_api c))),
          la_admin_password := map_option f (la_admin_password (ap_local_auth (cf_api c)))\<rparr>\<rparr>,
      cf_sources := map (map_token f) (cf_sources c), cf_notifiers := map (map_sink_secrets f g) (cf_notifiers c)\<rparr>"

lemma set_source_token_twice [simp]: "set_source_token t e (set_source_token t' e' s) = set_source_token t e s"
  by (cases s) simp_all

lemma redact_map_token:
  assumes "\<And>v. trim (f v) = [] \<longleftrightarrow> trim v = []" "\<And>v. trim v = [] \<Longrightarrow> f v = v"
  shows "redact_source (map_token f s) = redact_source s"
proof (cases "source_token s")
  case (Some field)
  then obtain t e where "source_token s = Some (t, e)" by (cases field) simp
  then show ?thesis
    using assms by (cases t) (simp_all add: redact_source_def map_token_def mask_token_def)
qed (simp add: redact_source_def map_token_def)

lemma scheme_stays:
  "split_once ''://'' (a @ ''://'' @ b) = Some (a, b) \<Longrightarrow> split_once ''://'' (a @ ''://'' @ b') = Some (a, b')"
proof (induction a)
  case (Cons c a)
  have "prefix ''://'' (c # a @ ''://'' @ b') \<longleftrightarrow> prefix ''://'' (c # a @ ''://'' @ b)"
    by (cases a; cases "tl a") (auto simp: prefix_def)
  then show ?case using Cons by (auto split: if_splits)
qed simp

text \<open>An address with credentials, and what is shown of it.\<close>

lemma with_userinfo:
  assumes "split_once ''://'' url = Some (scheme, u @ ''@'' @ host @ path)" and "CHR ''/'' \<notin> set u"
    and "CHR ''/'' \<notin> set host" "CHR ''@'' \<notin> set host" and "path = [] \<or> hd path = CHR ''/''"
  shows "redact_url_userinfo url = scheme @ ''://'' @ redacted @ ''@'' @ host @ path"
    "map_userinfo g url = scheme @ ''://'' @ g u @ ''@'' @ host @ path"
proof -
  let ?a = "u @ ''@'' @ host"
  have "takeWhile (\<lambda>c. c \<noteq> CHR ''/'') (?a @ path) = ?a @ takeWhile (\<lambda>c. c \<noteq> CHR ''/'') path"
    using assms(2,3) by (intro takeWhile_append2) auto
  moreover have "takeWhile (\<lambda>c. c \<noteq> CHR ''/'') path = []" using assms(5) by (cases path) simp_all
  ultimately have authority: "takeWhile (\<lambda>c. c \<noteq> CHR ''/'') (u @ ''@'' @ host @ path) = ?a" by simp
  have "takeWhile (\<lambda>c. c \<noteq> CHR ''@'') (rev host @ CHR ''@'' # rev u) = rev host"
    by (subst takeWhile_append2) (use assms(4) in auto)
  then have host: "rev (takeWhile (\<lambda>c. c \<noteq> CHR ''@'') (rev ?a)) = host" by simp
  show "redact_url_userinfo url = scheme @ ''://'' @ redacted @ ''@'' @ host @ path"
    using host by (simp add: redact_url_userinfo_def assms(1)[simplified] authority[simplified] Let_def)
  show "map_userinfo g url = scheme @ ''://'' @ g u @ ''@'' @ host @ path"
    using host by (simp add: map_userinfo_def assms(1)[simplified] authority[simplified] Let_def)
qed

lemma userinfo_cases:
  obtains "redact_url_userinfo url = url" "\<And>g. map_userinfo g url = url"
  | scheme u host path where "split_once ''://'' url = Some (scheme, u @ ''@'' @ host @ path)" "CHR ''/'' \<notin> set u"
      "CHR ''/'' \<notin> set host" "CHR ''@'' \<notin> set host" "path = [] \<or> hd path = CHR ''/''"
proof (cases "split_once ''://'' url")
  case None
  then show ?thesis using that(1) by (simp add: redact_url_userinfo_def map_userinfo_def)
next
  case (Some p)
  obtain scheme rest where p: "p = (scheme, rest)" by (cases p)
  let ?a = "takeWhile (\<lambda>c. c \<noteq> CHR ''/'') rest"
  show ?thesis
  proof (cases "CHR ''@'' \<in> set ?a")
    case False
    then show ?thesis using that(1) Some p by (simp add: redact_url_userinfo_def map_userinfo_def Let_def)
  next
    case True
    then obtain u host where a: "?a = u @ CHR ''@'' # host" "CHR ''@'' \<notin> set host"
      using split_list_last [of "CHR ''@''" ?a] by blast
    have "rest = u @ ''@'' @ host @ dropWhile (\<lambda>c. c \<noteq> CHR ''/'') rest"
      using takeWhile_dropWhile_id [of "\<lambda>c. c \<noteq> CHR ''/''" rest] a(1) by simp
    moreover have "CHR ''/'' \<notin> set u" "CHR ''/'' \<notin> set host"
      using a(1) set_takeWhileD [of _ "\<lambda>c. c \<noteq> CHR ''/''" rest] by auto
    moreover have "dropWhile (\<lambda>c. c \<noteq> CHR ''/'') rest = [] \<or> hd (dropWhile (\<lambda>c. c \<noteq> CHR ''/'') rest) = CHR ''/''"
      using hd_dropWhile [of "\<lambda>c. c \<noteq> CHR ''/''" rest] by blast
    ultimately show ?thesis using that(2) Some p a(2) by metis
  qed
qed

lemma redact_map_userinfo:
  assumes "\<And>u. CHR ''/'' \<notin> set (g u)"
  shows "redact_url_userinfo (map_userinfo g url) = redact_url_userinfo url"
proof (cases rule: userinfo_cases [of url])
  case (2 scheme u host path)
  note shown = with_userinfo [OF 2]
  have "split_once ''://'' (scheme @ ''://'' @ (u @ ''@'' @ host @ path)) = Some (scheme, u @ ''@'' @ host @ path)"
    using 2(1) split_once_Some [OF 2(1)] by simp
  from scheme_stays [OF this] have "split_once ''://'' (map_userinfo g url) = Some (scheme, g u @ ''@'' @ host @ path)"
    unfolding shown(2) .
  from with_userinfo(1) [OF this assms 2(3-5)] show ?thesis unfolding shown(1) .
qed simp

lemma visible_kept: "(\<And>w. w \<in> set white_space \<Longrightarrow> c \<notin> set w) \<Longrightarrow> trim (u @ c # v) \<noteq> []"
proof -
  assume c: "\<And>w. w \<in> set white_space \<Longrightarrow> c \<notin> set w"
  obtain u' where start: "strip_front white_space (u @ c # v) = u' @ c # v" using strip_front_stop [OF c] by blast
  have "c \<notin> set w" if "w \<in> set (map rev white_space)" for w using that c by auto
  then obtain v' where "strip_front (map rev white_space) (rev v @ c # rev u') = v' @ c # rev u'"
    using strip_front_stop [of "map rev white_space" c] by blast
  then show ?thesis by (simp add: trim_def trim_start_def trim_end_def start)
qed

lemma blank_userinfo: "trim (map_userinfo g url) = [] \<longleftrightarrow> trim url = []" "trim url = [] \<Longrightarrow> map_userinfo g url = url"
proof -
  have "trim (map_userinfo g url) \<noteq> [] \<and> trim url \<noteq> [] \<or> map_userinfo g url = url"
  proof (cases rule: userinfo_cases [of url])
    case (2 scheme u host path)
    have "list_all (\<lambda>w. CHR '':'' \<notin> set w) white_space" by code_simp
    then have "trim (a @ ''://'' @ b) \<noteq> []" for a b
      using visible_kept [of "CHR '':''" a "''//'' @ b"] by (simp add: list_all_iff)
    then show ?thesis unfolding with_userinfo(2) [OF 2] using split_once_Some [OF 2(1)] by metis
  qed simp
  then show "trim (map_userinfo g url) = [] \<longleftrightarrow> trim url = []" "trim url = [] \<Longrightarrow> map_userinfo g url = url"
    by auto
qed

lemma mask_userinfo: "(\<And>u. CHR ''/'' \<notin> set (g u)) \<Longrightarrow> mask_broker (map_userinfo g url) e = mask_broker url e"
  by (simp add: mask_broker_def blank_userinfo(1) redact_map_userinfo)

lemma redact_map_api:
  assumes "\<And>v. f v = [] \<longleftrightarrow> v = []"
  shows "mask_option (map_option f v) = mask_option v"
  using assms [of "[]"] assms by (cases v) (auto simp: mask_option_def)

lemma redact_map_sink:
  assumes "\<And>v. f v = [] \<longleftrightarrow> v = []" and "\<And>u. CHR ''/'' \<notin> set (g u)"
  shows "redact_notifier (map_sink_secrets f g n) = redact_notifier n"
  using assms(1)
  by (cases n) (simp_all add: mask_text_def mask_headers_def split_def mask_userinfo [OF assms(2)])

text \<open>
  C29: What a reader of the configuration sees does not depend on the secrets: replacing every token,
  key, password, destination address and header value that is not blank by any other such value, and
  the credentials in front of the host in the URL of a broker or of the database by any others (without
  a slash, which would end them), leaves the redacted document the same.  A database address in the
  form of keywords and values has no such part: its password is shown.
\<close>

theorem redaction_hides_secrets:
  assumes "\<And>v. trim (f v) = [] \<longleftrightarrow> trim v = []" and "\<And>v. trim v = [] \<Longrightarrow> f v = v"
    and "\<And>u. CHR ''/'' \<notin> set (g u)"
  shows "redact_config (map_secrets f g c) = redact_config c"
proof -
  have blank: "f v = [] \<longleftrightarrow> v = []" for v using assms(1) [of v] assms(2) [of v] by (cases "trim v = []") auto
  have "map redact_source (map (map_token f) xs) = map redact_source xs" for xs
    by (simp add: redact_map_token [OF assms(1,2)])
  moreover have "map redact_notifier (map (map_sink_secrets f g) ns) = map redact_notifier ns" for ns
    by (simp add: redact_map_sink [OF blank assms(3)])
  ultimately show ?thesis
    by (cases "trim (dbc_postgres_url (cf_database c)) = []")
      (simp_all add: redact_config_def map_secrets_def redact_api_def redact_map_api [OF blank] blank_userinfo
        redact_map_userinfo [OF assms(3)] del: map_map)
qed

text \<open>The example document, on a database whose address has credentials.\<close>

definition example_credentials :: config where
  "example_credentials = example_document\<lparr>cf_database :=
     database_default\<lparr>dbc_postgres_url := ''postgres://app:secret@db/x''\<rparr>\<rparr>"

theorem redaction_hides_secrets_witness:
  "redact_config (map_secrets (\<lambda>v. if trim v = [] then v else ''other'') (\<lambda>_. ''who:what'') example_credentials)
     = redact_config example_credentials
   \<and> map_secrets (\<lambda>v. if trim v = [] then v else ''other'') (\<lambda>_. ''who:what'') example_credentials \<noteq> example_credentials"
proof -
  let ?f = "\<lambda>v. if trim v = [] then v else ''other''" and ?g = "\<lambda>_ :: string. ''who:what''"
  have "trim ''other'' \<noteq> []" by code_simp
  then have "redact_config (map_secrets ?f ?g example_credentials) = redact_config example_credentials"
    by (intro redaction_hides_secrets) auto
  moreover have "map_userinfo ?g ''postgres://app:secret@db/x'' = ''postgres://who:what@db/x''" by code_simp
  then have "dbc_postgres_url (cf_database (map_secrets ?f ?g example_credentials)) = ''postgres://who:what@db/x''"
    by (simp add: map_secrets_def example_credentials_def)
  then have "map_secrets ?f ?g example_credentials \<noteq> example_credentials"
    by (auto simp: example_credentials_def)
  ultimately show ?thesis by blast
qed

section \<open>An unchanged document comes back unchanged\<close>

text \<open>A document as the ledger keeps it: the names of variables, no values.\<close>

definition refs_only :: "config \<Rightarrow> bool" where
  "refs_only c \<longleftrightarrow>
    (\<forall>s \<in> set (cf_sources c). case source_token s of Some (t, _) \<Rightarrow> t = None | None \<Rightarrow> True)
    \<and> (\<forall>n \<in> set (cf_notifiers c). set (inline_values n) \<subseteq> {[]})
    \<and> (\<forall>n \<in> set (cf_notifiers c). case n of Apprise_cfg a \<Rightarrow> xa_urls a = [] | Webhook_cfg w \<Rightarrow> xw_headers w = [] | _ \<Rightarrow> True)"

text \<open>Each entry is the first that its redacted form is matched with.\<close>

definition told_apart :: "config \<Rightarrow> bool" where
  "told_apart c \<longleftrightarrow>
    (\<forall>s \<in> set (cf_sources c). previous_source c s \<in> {None, Some s})
    \<and> (\<forall>n \<in> set (cf_notifiers c). previous_sink c (redact_notifier n) \<in> {None, Some n})"

lemma placeholder_simps [simp]:
  "is_placeholder []" "is_placeholder redacted" "url_needs_restore []" "url_needs_restore redacted"
  "\<not> live_secret redacted" "redacted \<noteq> []" "trim redacted = redacted"
proof -
  have t: "trim redacted = redacted" by code_simp
  then show "is_placeholder redacted" "url_needs_restore redacted" "\<not> live_secret redacted" "trim redacted = redacted"
    by (simp_all add: is_placeholder_def url_needs_restore_def live_secret_def)
qed (simp_all add: is_placeholder_def url_needs_restore_def redacted_def)

lemma redact_url_Nil [simp]: "redact_url_userinfo [] = []"
  by (simp add: redact_url_userinfo_def)

lemma restore_env_same [simp]: "restore_env_name e e = (e, False)"
  by (simp add: restore_env_name_def)

lemma restored_text:
  "restore_text (mask_text [] e, e) ([], e) = (([], e), \<not> env_blank e)"
  by (simp add: restore_text_def restore_inline_def mask_text_def)

lemma restored_broker:
  "restore_url (mask_broker [] e, e) ([], e) = (([], e), \<not> env_blank e)"
  "restore_url (mask_text [] e, e) ([], e) = (([], e), \<not> env_blank e)"
  by (simp_all add: restore_url_def mask_broker_def mask_text_def)

lemma restored_headers:
  "restore_headers (mask_headers [] e, e) ([], e) = (([], e), \<not> env_blank e)"
  by (simp add: restore_headers_def mask_headers_def)

lemma restored_sink:
  assumes "set (inline_values n) \<subseteq> {[]}"
    and "case n of Apprise_cfg a \<Rightarrow> xa_urls a = [] | Webhook_cfg w \<Rightarrow> xw_headers w = [] | _ \<Rightarrow> True"
  shows "fst (restore_from (redact_notifier n) n) = n"
  using assms
  by (cases n) (simp_all add: restored_text restored_broker restored_headers restore_urls_def)

lemma restored_source:
  assumes "source_token s = Some (None, e)"
  shows "restore_source_token (mask_token None e, e) (None, e) = ((None, e), \<not> env_blank e)"
  using assms by (simp add: restore_source_token_def mask_token_def)

lemma normalize_refs_only:
  assumes "refs_only c"
  shows "normalize_secrets_to_refs js org c = (c, [])"
proof -
  have "thread (normalize_source_token org) 0 (cf_sources c) [] = (cf_sources c, [])"
    using assms by (intro thread_fixed) (auto simp: refs_only_def normalize_source_token_def split: option.splits)
  moreover have "thread (normalize_notifier js org) 0 (cf_notifiers c) [] = (cf_notifiers c, [])"
  proof (rule thread_fixed)
    fix i n w assume "n \<in> set (cf_notifiers c)"
    then have "set (inline_values n) \<subseteq> {[]}"
      and "case n of Apprise_cfg a \<Rightarrow> xa_urls a = [] | Webhook_cfg w \<Rightarrow> xw_headers w = [] | _ \<Rightarrow> True"
      using assms unfolding refs_only_def by blast+
    then show "normalize_notifier js org i n w = (n, w)" by (cases n) simp_all
  qed
  ultimately show ?thesis by (simp add: normalize_secrets_to_refs_def)
qed

lemma normalize_redacted:
  assumes "set (inline_values n) \<subseteq> {[]}"
    and "case n of Apprise_cfg a \<Rightarrow> xa_urls a = [] | Webhook_cfg w \<Rightarrow> xw_headers w = [] | _ \<Rightarrow> True"
  shows "normalize_notifier js org i (redact_notifier n) ws = (n, ws)" "normalize_notifier js org i n ws = (n, ws)"
  using assms
  by (cases n; simp add: mask_text_def mask_headers_def mask_broker_def take_inline_def stored_urls_def
      stored_headers_def live_entries_def)+

lemma source_key_token [simp]: "source_key (set_source_token t e s) = source_key s"
  by (cases s) simp_all

lemma thread_back:
  "(\<And>i x w. x \<in> set xs \<Longrightarrow> f i (g x) w = (x, w)) \<Longrightarrow> thread f i (map g xs) w = (xs, w)"
  by (induction xs arbitrary: i) simp_all

lemma source_back:
  assumes "refs_only c" "told_apart c" "s \<in> set (cf_sources c)"
  shows "normalize_source_token org i (fst (restore_source c (redact_source s))) w = (s, w)"
proof (cases "source_token s")
  case None
  then show ?thesis by (simp add: redact_source_def restore_source_def normalize_source_token_def)
next
  case (Some field)
  then obtain e where e: "source_token s = Some (None, e)"
    using assms(1,3) by (cases field) (auto simp: refs_only_def)
  then obtain k where k: "source_key s = Some k" by (cases s) auto
  have "find (\<lambda>p. source_key p = Some k) (cf_sources c) \<noteq> None"
    using assms(3) k by (auto simp: find_None_iff)
  then have "previous_source c s = Some s" using assms(2,3) k by (auto simp: told_apart_def previous_source_def)
  then have "previous_source c (redact_source s) = Some s" using e by (simp add: redact_source_def previous_source_def)
  then show ?thesis
    using e by (simp add: restore_source_def redact_source_def restored_source normalize_source_token_def)
qed

lemma sink_back:
  assumes "refs_only c" "told_apart c" "n \<in> set (cf_notifiers c)"
  shows "normalize_notifier js org i (fst (restore_notifier c (redact_notifier n))) w = (n, w)"
proof -
  have n: "set (inline_values n) \<subseteq> {[]}"
    "case n of Apprise_cfg a \<Rightarrow> xa_urls a = [] | Webhook_cfg w \<Rightarrow> xw_headers w = [] | _ \<Rightarrow> True"
    using assms(1,3) unfolding refs_only_def by blast+
  consider "previous_sink c (redact_notifier n) = None" | "previous_sink c (redact_notifier n) = Some n"
    using assms(2,3) by (auto simp: told_apart_def)
  then show ?thesis
    by cases (simp_all add: restore_notifier_def normalize_redacted [OF n] restored_sink [OF n])
qed

text \<open>
  C28: An edit that changes nothing changes nothing: when a document that holds only the names of its
  secrets is read, sent back as it was shown, completed from the running one and stored, the sources
  and sinks are the ones of the document and no secret is written, provided that its entries can be
  told apart by what they are matched on.
\<close>

theorem unchanged_document_comes_back:
  assumes "refs_only c" and "told_apart c"
  shows "(case normalize_secrets_to_refs js org (fst (restore_redacted_secrets c (redact_config c))) of
      (c', ws) \<Rightarrow> (cf_sources c', cf_notifiers c', ws)) = (cf_sources c, cf_notifiers c, [])"
proof -
  have "thread (normalize_source_token org) 0 (map (\<lambda>s. fst (restore_source c (redact_source s))) (cf_sources c)) []
      = (cf_sources c, [])"
    by (rule thread_back) (rule source_back [OF assms])
  moreover have "thread (normalize_notifier js org) 0
      (map (\<lambda>n. fst (restore_notifier c (redact_notifier n))) (cf_notifiers c)) [] = (cf_notifiers c, [])"
    by (rule thread_back) (rule sink_back [OF assms])
  ultimately show ?thesis
    by (simp add: normalize_secrets_to_refs_def restore_redacted_secrets_def redact_config_def comp_def)
qed

theorem unchanged_document_comes_back_witness:
  "(case normalize_secrets_to_refs example_texts None
      (fst (restore_redacted_secrets (fst example_stored) (redact_config (fst example_stored)))) of
      (c', ws) \<Rightarrow> (cf_sources c', cf_notifiers c', ws)) =
    (cf_sources (fst example_stored), cf_notifiers (fst example_stored), [])"
proof (rule unchanged_document_comes_back)
  show "refs_only (fst example_stored)" by code_simp
  show "told_apart (fst example_stored)" by code_simp
qed

text \<open>
  An unchanged document can gain a credential: of two mail sinks on one host, the second, which
  signs in without a password, is given the password variable of the first when the document is read
  and sent back as it was shown.
\<close>

theorem unchanged_document_gains_a_password:
  "let relay = \<lparr>xm_name = Some ''relay'', xm_tags = [], xm_host = ''smtp.example.com'', xm_port = 25, xm_username = None,
         xm_password = [], xm_password_env = None, xm_from = ''a@b.c'', xm_to = [''d@e.f''], xm_tls = Plain_smtp,
         xm_subject_template = None, xm_template = None, xm_body_format = ''html''\<rparr>;
       login = relay\<lparr>xm_name := Some ''login'', xm_password_env := Some ''MAIL_PASSWORD''\<rparr>;
       c = config_default\<lparr>cf_notifiers := [Smtp_cfg login, Smtp_cfg relay]\<rparr> in
   cf_notifiers (fst (restore_redacted_secrets c (redact_config c)))
     = [Smtp_cfg login, Smtp_cfg (relay\<lparr>xm_password_env := Some ''MAIL_PASSWORD''\<rparr>)]"
  by code_simp

text \<open>
  A database address that is not written as a URL is shown with its password: the form of keywords
  and values, which the database driver accepts as well, passes the redaction unchanged.
\<close>

theorem keyword_address_is_shown:
  "dbc_postgres_url (cf_database (redact_config
      (config_default\<lparr>cf_database := database_default\<lparr>dbc_postgres_url := ''host=db user=app password=secret''\<rparr>\<rparr>)))
    = ''host=db user=app password=secret''
  \<and> dbc_postgres_url (cf_database (redact_config
      (config_default\<lparr>cf_database := database_default\<lparr>dbc_postgres_url := ''postgres://app:secret@db/x''\<rparr>\<rparr>)))
    = ''postgres://<redacted>@db/x''"
  by code_simp

section \<open>Differences are exact\<close>

text \<open>
  The differences reported after an apply are exact: for documents whose watches can be built and
  whose source ids are distinct, the added ids are those of the new document alone, the removed ones
  those of the old document alone, and the changed ones those of both whose entries differ.
\<close>

theorem diff_is_exact:
  assumes "to_watches lib old = Inr ws" "to_watches lib new = Inr ws'"
    and "distinct (map watch_source_id (cf_sources old))" "distinct (map watch_source_id (cf_sources new))"
  shows "set (dd_added (compute_diff lib old new)) = watch_source_id ` set (cf_sources new) - watch_source_id ` set (cf_sources old)
    \<and> set (dd_removed (compute_diff lib old new)) = watch_source_id ` set (cf_sources old) - watch_source_id ` set (cf_sources new)
    \<and> set (dd_changed (compute_diff lib old new)) =
        {i. \<exists>s \<in> set (cf_sources old). \<exists>s' \<in> set (cf_sources new). watch_source_id s = i \<and> watch_source_id s' = i \<and> s \<noteq> s'}"
proof -
  define os where "os = cf_sources old"
  define ns where "ns = cf_sources new"
  have content: "source_content lib old = map (\<lambda>s. (watch_source_id s, s)) os"
    "source_content lib new = map (\<lambda>s. (watch_source_id s, s)) ns"
    using source_content_ids assms(1,2) by (simp_all add: os_def ns_def zip_map1 zip_same_conv_map)
  have look: "map_of (rev (map (\<lambda>s. (watch_source_id s, s)) os)) i = Some s \<longleftrightarrow> s \<in> set os \<and> watch_source_id s = i" for i s
  proof -
    have "distinct (map fst (rev (map (\<lambda>s. (watch_source_id s, s)) os)))"
      using assms(3) by (simp add: os_def comp_def rev_map [symmetric])
    then show ?thesis by (subst map_of_eq_Some_iff) auto
  qed
  then have none: "map_of (rev (map (\<lambda>s. (watch_source_id s, s)) os)) i = None \<longleftrightarrow> i \<notin> watch_source_id ` set os" for i
    by (auto simp: map_of_eq_None_iff image_image)
  show ?thesis
    unfolding compute_diff_def Let_def content os_def [symmetric] ns_def [symmetric]
  proof (auto simp: filter_map comp_def image_image none look)
    fix s s' assume s: "s \<in> set os" "s' \<in> set ns" "watch_source_id s' = watch_source_id s" "s \<noteq> s'"
    then have "s' \<notin> set os" using assms(3) by (auto simp: os_def distinct_map inj_on_def)
    then have "s' \<in> {x \<in> set ns. watch_source_id x \<in> watch_source_id ` set os \<and> x \<notin> set os}" using s by simp
    then show "watch_source_id s \<in> watch_source_id ` {x \<in> set ns. watch_source_id x \<in> watch_source_id ` set os \<and> x \<notin> set os}"
      using s(3) by (metis (no_types, lifting) imageI)
  qed
qed

definition example_build :: build_libs where
  "example_build =
    \<lparr>bl_regex = \<lparr>re_ok = (\<lambda>_. True), re_match = (\<lambda>_ _. True)\<rparr>,
     bl_cron = \<lparr>cron_ok = (\<lambda>_. True), cron_next = (\<lambda>_ _. None)\<rparr>, bl_env = empty_env, bl_json = example_texts\<rparr>"

definition example_repos :: "(string \<times> string option) list \<Rightarrow> config" where
  "example_repos rs =
    config_default\<lparr>cf_sources := map (\<lambda>(r, t). Github_cfg (example_repo\<lparr>rc_repo := r, rc_token := t\<rparr>)) rs\<rparr>"

theorem diff_is_exact_witness:
  "set (dd_added (compute_diff example_build (example_repos [(''a/b'', None), (''c/d'', None)])
      (example_repos [(''c/d'', Some ''t''), (''e/f'', None)]))) = {''github:e/f''}"
proof -
  have "(case to_watches example_build (example_repos [(''a/b'', None), (''c/d'', None)]) of Inl _ \<Rightarrow> False | Inr _ \<Rightarrow> True)"
    "(case to_watches example_build (example_repos [(''c/d'', Some ''t''), (''e/f'', None)]) of Inl _ \<Rightarrow> False | Inr _ \<Rightarrow> True)"
    by code_simp+
  then obtain ws ws' where "to_watches example_build (example_repos [(''a/b'', None), (''c/d'', None)]) = Inr ws"
    "to_watches example_build (example_repos [(''c/d'', Some ''t''), (''e/f'', None)]) = Inr ws'"
    by (auto split: sum.splits)
  from diff_is_exact [OF this] show ?thesis
    by (simp add: example_repos_def example_repo_def source_label_def)
qed

end
