(* ===== verification/Ledger.thy ===== *)
theory Ledger
  imports Redaction
begin

text \<open>
  The two tables behind pushed configurations, and the state that an apply works on: the ledger of
  revisions with one stream per organization (\<^verbatim>\<open>src/src/store/postgres/config_revision.rs\<close>), the
  sealed secrets with the vault that mirrors them (\<^verbatim>\<open>app_secret.rs\<close>), and what is running.  Sealing
  and digests are parameters.
\<close>

section \<open>Rows\<close>

datatype revision_status = Applied_revision | Rejected_revision

text \<open>A row of \<^verbatim>\<open>config_revision\<close>; the stream of the single document has no organization.\<close>

record revision_row =
  cr_id :: nat
  cr_content :: string
  cr_sha :: string
  cr_label :: "string option"
  cr_applied_at :: timestamp
  cr_applied_by :: "string option"
  cr_source_addr :: "string option"
  cr_status :: revision_status
  cr_error :: "string option"
  cr_org :: "string option"

record revision_insert =
  ci_content :: string
  ci_sha :: string
  ci_label :: "string option"
  ci_applied_by :: "string option"
  ci_source_addr :: "string option"
  ci_status :: revision_status
  ci_error :: "string option"
  ci_org :: "string option"

record revision_table =
  vt_rows :: "revision_row list"
  vt_next_id :: nat

definition LEDGER_BLOB_PREFIX :: string where
  "LEDGER_BLOB_PREFIX = ''xrenc1:''"

definition is_encrypted :: "string \<Rightarrow> bool" where
  "is_encrypted s \<longleftrightarrow> prefix LEDGER_BLOB_PREFIX s"

text \<open>Newest first; rows of one instant in the reverse order of their ids.\<close>

definition newest_first :: "revision_row list \<Rightarrow> revision_row list" where
  "newest_first rows = rev (sort_key (\<lambda>r. (cr_applied_at r, cr_id r)) rows)"

definition map_config_revision_row :: "revision_row \<Rightarrow> store_error + revision_row" where
  "map_config_revision_row r =
    (if is_encrypted (cr_content r) then
       Inl (Other_store (''config_revision.content must be plaintext desired-state (refs only); ''
         @ ''encrypted blobs are not supported''))
     else Inr r)"

definition stream_config_revision ::
  "revision_status \<Rightarrow> nat \<Rightarrow> string option \<Rightarrow> revision_table \<Rightarrow> store_error + revision_row option" where
  "stream_config_revision status offset org t =
    (case drop offset (newest_first (filter (\<lambda>r. cr_status r = status \<and> cr_org r = org) (vt_rows t))) of
       [] \<Rightarrow> Inr None
     | r # _ \<Rightarrow> (case map_config_revision_row r of Inl e \<Rightarrow> Inl e | Inr r \<Rightarrow> Inr (Some r)))"

definition latest_applied_config_revision :: "string option \<Rightarrow> revision_table \<Rightarrow> store_error + revision_row option" where
  "latest_applied_config_revision org = stream_config_revision Applied_revision 0 org"

definition latest_rejected_config_revision :: "string option \<Rightarrow> revision_table \<Rightarrow> store_error + revision_row option" where
  "latest_rejected_config_revision org = stream_config_revision Rejected_revision 0 org"

definition latest_rejected_config_revision_any :: "revision_table \<Rightarrow> store_error + revision_row option" where
  "latest_rejected_config_revision_any t =
    (case newest_first (filter (\<lambda>r. cr_status r = Rejected_revision) (vt_rows t)) of
       [] \<Rightarrow> Inr None
     | r # _ \<Rightarrow> (case map_config_revision_row r of Inl e \<Rightarrow> Inl e | Inr r \<Rightarrow> Inr (Some r)))"

definition previous_applied_config_revision :: "string option \<Rightarrow> revision_table \<Rightarrow> store_error + revision_row option" where
  "previous_applied_config_revision org = stream_config_revision Applied_revision 1 org"

text \<open>A summary is the row without its content.\<close>

definition config_revision_summary :: "revision_row \<Rightarrow> revision_row" where
  "config_revision_summary r = r\<lparr>cr_content := []\<rparr>"

definition list_config_revisions :: "nat \<Rightarrow> nat \<Rightarrow> revision_table \<Rightarrow> revision_row list" where
  "list_config_revisions limit offset t =
    map config_revision_summary (take limit (drop offset (newest_first (vt_rows t))))"

definition list_config_revisions_for :: "string \<Rightarrow> nat \<Rightarrow> nat \<Rightarrow> revision_table \<Rightarrow> revision_row list" where
  "list_config_revisions_for org limit offset t =
    map config_revision_summary
      (take limit (drop offset (newest_first (filter (\<lambda>r. cr_org r = Some org) (vt_rows t)))))"

definition count_config_revisions :: "revision_table \<Rightarrow> nat" where
  "count_config_revisions t = length (vt_rows t)"

definition count_config_revisions_for :: "string \<Rightarrow> revision_table \<Rightarrow> nat" where
  "count_config_revisions_for org t = length (filter (\<lambda>r. cr_org r = Some org) (vt_rows t))"

definition insert_config_revision :: "timestamp \<Rightarrow> revision_insert \<Rightarrow> revision_table \<Rightarrow> nat \<times> revision_table" where
  "insert_config_revision now row t =
    (let i = vt_next_id t in
     (i, \<lparr>vt_rows = vt_rows t @
           [\<lparr>cr_id = i, cr_content = ci_content row, cr_sha = ci_sha row, cr_label = ci_label row,
             cr_applied_at = now, cr_applied_by = ci_applied_by row, cr_source_addr = ci_source_addr row,
             cr_status = ci_status row, cr_error = ci_error row, cr_org = ci_org row\<rparr>],
         vt_next_id = i + 1\<rparr>))"

section \<open>The newest revision\<close>

definition table_ok :: "revision_table \<Rightarrow> bool" where
  "table_ok t \<longleftrightarrow> distinct (map cr_id (vt_rows t)) \<and> (\<forall>r \<in> set (vt_rows t). cr_id r < vt_next_id t)"

definition no_later :: "timestamp \<Rightarrow> revision_table \<Rightarrow> bool" where
  "no_later now t \<longleftrightarrow> (\<forall>r \<in> set (vt_rows t). cr_applied_at r \<le> now)"

lemma set_newest_first [simp]: "set (newest_first rows) = set rows"
  by (simp add: newest_first_def)

lemma insert_table_ok: "table_ok t \<Longrightarrow> table_ok (snd (insert_config_revision now row t))"
  by (auto simp: table_ok_def insert_config_revision_def Let_def less_Suc_eq)

lemma sort_key_snoc:
  assumes "\<And>x. x \<in> set xs \<Longrightarrow> f x \<le> f r"
  shows "sort_key f (xs @ [r]) = sort_key f xs @ [r]"
proof (rule properties_for_sort_key)
  show "mset (sort_key f xs @ [r]) = mset (xs @ [r])" by simp
  show "sorted (map f (sort_key f xs @ [r]))" using assms by (auto simp: sorted_append)
  show "\<And>k. k \<in> set (sort_key f xs @ [r]) \<Longrightarrow>
      filter (\<lambda>x. f k = f x) (sort_key f xs @ [r]) = filter (\<lambda>x. f k = f x) (xs @ [r])"
    using sort_key_stable [of f _ xs] by (simp add: eq_commute)
qed

lemma newest_first_snoc:
  assumes "\<And>x. x \<in> set rows \<Longrightarrow> (cr_applied_at x, cr_id x) \<le> (cr_applied_at r, cr_id r)"
  shows "newest_first (rows @ [r]) = r # newest_first rows"
  using sort_key_snoc [of rows "\<lambda>r. (cr_applied_at r, cr_id r)" r] assms by (simp add: newest_first_def)

section \<open>Sealed secrets\<close>

record secret_row =
  sk_name :: string
  sk_ciphertext :: string
  sk_sha :: string

text \<open>
  Sealing, when a key is configured, and the digest of a text.
\<close>

record secret_lib =
  sl_seal :: "(string \<Rightarrow> store_error + string) option"
  sl_open :: "string \<Rightarrow> store_error + string"
  sl_sha256 :: "string \<Rightarrow> string"

definition plaintext_ledger_allowed :: "token_env \<Rightarrow> bool" where
  "plaintext_ledger_allowed env =
    (case te_var env ''XRELEASE_ALLOW_PLAINTEXT_CONFIG_LEDGER'' of
       Some v \<Rightarrow> to_ascii_lowercase (trim v) \<in> {''1'', ''true'', ''yes'', ''on''} | None \<Rightarrow> False)"

fun put_secret :: "secret_row \<Rightarrow> secret_row list \<Rightarrow> secret_row list" where
  "put_secret r [] = [r]"
| "put_secret r (x # xs) = (if sk_name x = sk_name r then r # xs else x # put_secret r xs)"

text \<open>One write of the transaction: the row is left alone when its digest is the same.\<close>

definition write_secret :: "secret_lib \<Rightarrow> secret_write \<Rightarrow> secret_row list \<Rightarrow> store_error + secret_row list" where
  "write_secret lib w rows =
    (let name = trim (sx_name w); digest = sl_sha256 lib (sx_value w) in
     if name = [] \<or> trim (sx_value w) = [] then Inr rows
     else if list_ex (\<lambda>r. sk_name r = name \<and> sk_sha r = digest) rows then Inr rows
     else (case (case sl_seal lib of Some seal \<Rightarrow> seal (sx_value w) | None \<Rightarrow> Inr (sx_value w)) of
         Inl e \<Rightarrow> Inl e
       | Inr ciphertext \<Rightarrow> Inr (put_secret \<lparr>sk_name = name, sk_ciphertext = ciphertext, sk_sha = digest\<rparr> rows)))"

definition mirror_write :: "secret_write \<Rightarrow> vault \<Rightarrow> vault" where
  "mirror_write w v = vault_upsert (trim (sx_name w)) (sx_value w) v"

text \<open>
  The transaction: the answer, the rows, and the vault.  The vault follows each write as it is made, so
  it keeps those made before one that fails, while the rows are rolled back.
\<close>

fun write_secrets ::
  "secret_lib \<Rightarrow> secret_write list \<Rightarrow> secret_row list \<Rightarrow> vault \<Rightarrow> (store_error + secret_row list) \<times> vault" where
  "write_secrets lib [] rows v = (Inr rows, v)"
| "write_secrets lib (w # ws) rows v =
    (case write_secret lib w rows of
       Inl e \<Rightarrow> (Inl e, v)
     | Inr rows' \<Rightarrow> write_secrets lib ws rows' (mirror_write w v))"

definition deletes :: "string list \<Rightarrow> string set" where
  "deletes names = set (filter (\<lambda>n. n \<noteq> []) (map trim names))"

definition open_secret_ciphertext :: "secret_lib \<Rightarrow> string \<Rightarrow> string \<Rightarrow> store_error + string" where
  "open_secret_ciphertext lib name ciphertext =
    (if is_encrypted ciphertext then
       (case sl_seal lib of
          None \<Rightarrow> Inl (Other_store (''app_secret '' @ quoted name
            @ '' is encrypted but XRELEASE_CONFIG_ENCRYPTION_KEY is unset''))
        | Some _ \<Rightarrow> sl_open lib ciphertext)
     else Inr ciphertext)"

fun open_secrets :: "secret_lib \<Rightarrow> secret_row list \<Rightarrow> store_error + vault" where
  "open_secrets lib [] = Inr Map.empty"
| "open_secrets lib (r # rs) =
    (case open_secret_ciphertext lib (sk_name r) (sk_ciphertext r) of
       Inl e \<Rightarrow> Inl e
     | Inr v \<Rightarrow> (case open_secrets lib rs of Inl e \<Rightarrow> Inl e | Inr m \<Rightarrow> Inr (m(sk_name r \<mapsto> v))))"

section \<open>The state of an instance\<close>

text \<open>
  The tables, the vault, and what is running: the document, the watches and the sinks as they were
  built.  Store calls are counted; at each a fault may strike, and a refused call on the secrets has
  mirrored some of its writes.  Building the sink clients may fail at each swap.
\<close>

record config_world =
  gw_ledger :: revision_table
  gw_secrets :: "secret_row list"
  gw_vault :: vault
  gw_vars :: "string \<Rightarrow> string option"
  gw_files :: "string \<Rightarrow> (string + string) option"
  gw_calls :: nat
  gw_clock :: "nat \<Rightarrow> timestamp"
  gw_fault :: "nat \<Rightarrow> user_fault option"
  gw_mirrored :: "nat \<Rightarrow> nat"
  gw_running :: config
  gw_watches :: "watch list"
  gw_sinks :: "sink_options list"
  gw_swaps :: nat
  gw_swap_fault :: "nat \<Rightarrow> string option"

definition env_of :: "config_world \<Rightarrow> token_env" where
  "env_of w = with_vault \<lparr>te_var = gw_vars w, te_vault = (\<lambda>_. None)\<rparr> (gw_vault w)"

definition ledger_query ::
  "(revision_table \<Rightarrow> store_error + 'a) \<Rightarrow> config_world \<Rightarrow> (store_error + 'a) \<times> config_world" where
  "ledger_query q w =
    (let w' = w\<lparr>gw_calls := gw_calls w + 1\<rparr> in
     case gw_fault w (gw_calls w) of
       Some (Refused e) \<Rightarrow> (Inl e, w') | Some (Answer_lost e) \<Rightarrow> (Inl e, w') | None \<Rightarrow> (q (gw_ledger w), w'))"

definition append_revision :: "revision_insert \<Rightarrow> config_world \<Rightarrow> (store_error + nat) \<times> config_world" where
  "append_revision row w =
    (let n = gw_calls w; w' = w\<lparr>gw_calls := n + 1\<rparr>;
         (i, t) = insert_config_revision (gw_clock w n) row (gw_ledger w) in
     case gw_fault w n of
       Some (Refused e) \<Rightarrow> (Inl e, w')
     | Some (Answer_lost e) \<Rightarrow> (Inl e, w'\<lparr>gw_ledger := t\<rparr>)
     | None \<Rightarrow> (Inr i, w'\<lparr>gw_ledger := t\<rparr>))"

definition upsert_app_secrets :: "secret_lib \<Rightarrow> secret_write list \<Rightarrow> config_world \<Rightarrow> (store_error + unit) \<times> config_world" where
  "upsert_app_secrets lib ws w =
    (if ws = [] then (Inr (), w)
     else if sl_seal lib = None \<and> \<not> plaintext_ledger_allowed (env_of w) then
       (Inl (Other_store (''inline config secrets require XRELEASE_CONFIG_ENCRYPTION_KEY ''
         @ ''(or XRELEASE_ALLOW_PLAINTEXT_CONFIG_LEDGER=1 for lab only)'')), w)
     else
       (let n = gw_calls w; w' = w\<lparr>gw_calls := n + 1\<rparr>;
            (r, v) = write_secrets lib ws (gw_secrets w) (gw_vault w) in
        case gw_fault w n of
          Some (Refused e) \<Rightarrow>
            (Inl e, w'\<lparr>gw_vault := snd (write_secrets lib (take (gw_mirrored w n) ws) (gw_secrets w) (gw_vault w))\<rparr>)
        | Some (Answer_lost e) \<Rightarrow>
            (Inl e, w'\<lparr>gw_vault := v, gw_secrets := (case r of Inr rows \<Rightarrow> rows | Inl _ \<Rightarrow> gw_secrets w)\<rparr>)
        | None \<Rightarrow>
            (case r of
               Inl e \<Rightarrow> (Inl e, w'\<lparr>gw_vault := v\<rparr>)
             | Inr rows \<Rightarrow> (Inr (), w'\<lparr>gw_vault := v, gw_secrets := rows\<rparr>))))"

text \<open>Only names that had a row leave the vault.\<close>

definition forget :: "string list \<Rightarrow> secret_row list \<Rightarrow> vault \<Rightarrow> vault" where
  "forget names rows v = (\<lambda>n. if n \<in> deletes names \<and> n \<in> sk_name ` set rows then None else v n)"

definition delete_app_secrets :: "string list \<Rightarrow> config_world \<Rightarrow> (store_error + nat) \<times> config_world" where
  "delete_app_secrets names w =
    (if names = [] then (Inr 0, w)
     else
       (let n = gw_calls w; w' = w\<lparr>gw_calls := n + 1\<rparr>; kept = filter (\<lambda>r. sk_name r \<notin> deletes names) (gw_secrets w) in
        case gw_fault w n of
          Some (Refused e) \<Rightarrow> (Inl e, w'\<lparr>gw_vault := forget (take (gw_mirrored w n) names) (gw_secrets w) (gw_vault w)\<rparr>)
        | Some (Answer_lost e) \<Rightarrow> (Inl e, w'\<lparr>gw_secrets := kept, gw_vault := forget names (gw_secrets w) (gw_vault w)\<rparr>)
        | None \<Rightarrow>
            (Inr (length (gw_secrets w) - length kept),
             w'\<lparr>gw_secrets := kept, gw_vault := forget names (gw_secrets w) (gw_vault w)\<rparr>)))"

definition load_app_secrets_into_vault :: "secret_lib \<Rightarrow> config_world \<Rightarrow> (store_error + unit) \<times> config_world" where
  "load_app_secrets_into_vault lib w =
    (let n = gw_calls w; w' = w\<lparr>gw_calls := n + 1\<rparr> in
     case gw_fault w n of
       Some (Refused e) \<Rightarrow> (Inl e, w')
     | Some (Answer_lost e) \<Rightarrow> (Inl e, w')
     | None \<Rightarrow> (case open_secrets lib (gw_secrets w) of
         Inl e \<Rightarrow> (Inl e, w') | Inr v \<Rightarrow> (Inr (), w'\<lparr>gw_vault := v\<rparr>)))"

end
