(* ===== verification/Composition.thy ===== *)
theory Composition
  imports Ledger
begin

text \<open>
  From documents to the running configuration (\<^verbatim>\<open>src/src/config/resolve.rs\<close>,
  \<^verbatim>\<open>desired_format.rs\<close>): the format of a document, the boundary between infrastructure and
  desired state, the authority that each organization's document comes from, and the composition of
  all of them.  The parsers and printers of TOML and YAML are parameters.
\<close>

section \<open>Formats\<close>

datatype desired_format = Toml_format | Yaml_format

definition from_content_type :: "string \<Rightarrow> desired_format option" where
  "from_content_type v =
    (let mime = to_ascii_lowercase (trim (first_part (CHR '';'') v)) in
     if mime \<in> {''application/yaml'', ''application/x-yaml'', ''text/yaml''} then Some Yaml_format
     else if mime \<in> {''application/toml'', ''text/plain''} then Some Toml_format
     else None)"

text \<open>\<^verbatim>\<open>str::lines\<close>: the text after the last line end is a line only if it is not empty.\<close>

definition strip_cr :: "string \<Rightarrow> string" where
  "strip_cr s = (if s \<noteq> [] \<and> last s = byte 13 then butlast s else s)"

definition lines :: "string \<Rightarrow> string list" where
  "lines s =
    (let ps = split_by (\<lambda>c. c = byte 10) s in
     map strip_cr (butlast ps) @ (if last ps = [] then [] else [last ps]))"

definition key_char :: "char \<Rightarrow> bool" where
  "key_char c \<longleftrightarrow> is_alnum c \<or> c \<in> set ''_-.''"

definition is_toml_assignment :: "string \<Rightarrow> bool" where
  "is_toml_assignment line =
    (case split_once ''='' line of
       None \<Rightarrow> False
     | Some (key, _) \<Rightarrow>
         trim_end key \<noteq> [] \<and> list_all (\<lambda>c. key_char c \<or> c = byte 34 \<or> c = byte 39) (trim_end key))"

definition is_yaml_mapping_key :: "string \<Rightarrow> bool" where
  "is_yaml_mapping_key line =
    (case split_once '':'' line of
       None \<Rightarrow> False
     | Some (key, rest) \<Rightarrow>
         (rest = [] \<or> prefix '' '' rest) \<and> trim_end key \<noteq> [] \<and> list_all key_char (trim_end key))"

text \<open>The marks of one line for TOML and for YAML.\<close>

definition line_marks :: "string \<Rightarrow> nat \<times> nat" where
  "line_marks line =
    (let line = trim_start line in
     if line = [] \<or> prefix ''#'' line then (0, 0)
     else if prefix ''['' line \<or> is_toml_assignment line then (1, 0)
     else if prefix ''- '' line \<or> line = ''-'' \<or> is_yaml_mapping_key line then (0, 1)
     else (0, 0))"

definition detect_desired_format :: "string \<Rightarrow> desired_format" where
  "detect_desired_format s =
    (if prefix ''---'' (trim_start s) then Yaml_format
     else if sum_list (map (fst \<circ> line_marks) (lines s)) < sum_list (map (snd \<circ> line_marks) (lines s))
     then Yaml_format else Toml_format)"

definition removed_keys :: "(string \<times> string) list" where
  "removed_keys =
    (let express = ''express notifiers use '' @ quoted ''access_token'' @ '' / '' @ quoted ''access_token_env'' @ '' only'' in
     [(''apprise_tag'', ''use '' @ quoted ''routing_tag'' @ '' (team routing is not Apprise-specific)''),
      (''bot_id'', express), (''secret_key'', express), (''secret_key_env'', express)])"

definition removed_key_of_line :: "string \<Rightarrow> (string \<times> string) option" where
  "removed_key_of_line line =
    (let t = trim_start line in
     if t = [] \<or> prefix ''#'' t then None
     else
       (let t = trim_start (case strip_prefix ''- '' t of Some r \<Rightarrow> r | None \<Rightarrow> t) in
        find (\<lambda>(key, _). case strip_prefix key t of
            Some rest \<Rightarrow> rest = [] \<or> hd rest \<in> {CHR ''='', CHR '':'', CHR '' '', byte 9}
          | None \<Rightarrow> False) removed_keys))"

fun reject_lines :: "nat \<Rightarrow> string list \<Rightarrow> string + unit" where
  "reject_lines n [] = Inr ()"
| "reject_lines n (l # ls) =
    (case removed_key_of_line l of
       Some (key, hint) \<Rightarrow>
         Inl (''line '' @ show_nat (n + 1) @ '': '' @ quoted key @ '' was removed '' @ em_dash @ '' '' @ hint)
     | None \<Rightarrow> reject_lines (n + 1) ls)"

definition reject_removed_desired_keys :: "string \<Rightarrow> string + unit" where
  "reject_removed_desired_keys s = reject_lines 0 (lines s)"

section \<open>Documents\<close>

text \<open>The sections of a document, without those that are empty or at their defaults.\<close>

record desired_wire =
  dw_defaults :: "defaults option"
  dw_notifiers :: "notifier_config list"
  dw_teams :: "team_config list"
  dw_presets :: "source_preset btree"
  dw_sources :: "source_config list"

record doc_libs =
  dl_parse :: "desired_format \<Rightarrow> string \<Rightarrow> string + config"
  dl_print :: "desired_format \<Rightarrow> desired_wire \<Rightarrow> string + string"

definition parse_as :: "doc_libs \<Rightarrow> string \<Rightarrow> desired_format \<Rightarrow> string + config" where
  "parse_as lib s f =
    (case reject_removed_desired_keys s of Inl e \<Rightarrow> Inl e | Inr _ \<Rightarrow> dl_parse lib f s)"

definition other_format :: "desired_format \<Rightarrow> desired_format" where
  "other_format f = (case f of Toml_format \<Rightarrow> Yaml_format | Yaml_format \<Rightarrow> Toml_format)"

definition parse_desired_document_with_hint :: "doc_libs \<Rightarrow> string \<Rightarrow> desired_format option \<Rightarrow> string + config" where
  "parse_desired_document_with_hint lib s hint =
    (let f = (case hint of Some f \<Rightarrow> f | None \<Rightarrow> detect_desired_format s) in
     case parse_as lib s f of
       Inr c \<Rightarrow> Inr c
     | Inl e \<Rightarrow> (case parse_as lib s (other_format f) of Inr c \<Rightarrow> Inr c | Inl _ \<Rightarrow> Inl e))"

definition parse_desired_document :: "doc_libs \<Rightarrow> string \<Rightarrow> string + config" where
  "parse_desired_document lib s = parse_desired_document_with_hint lib s None"

definition wire_of :: "config \<Rightarrow> desired_wire" where
  "wire_of c =
    \<lparr>dw_defaults = (if cf_defaults c \<noteq> defaults_default then Some (cf_defaults c) else None),
     dw_notifiers = cf_notifiers c, dw_teams = cf_teams c, dw_presets = cf_presets c, dw_sources = cf_sources c\<rparr>"

definition serialize_desired_only_strict :: "doc_libs \<Rightarrow> desired_format \<Rightarrow> config \<Rightarrow> string + string" where
  "serialize_desired_only_strict lib f c = dl_print lib f (wire_of c)"

definition normalize_document_for_storage ::
  "doc_libs \<Rightarrow> json_texts \<Rightarrow> string \<Rightarrow> string option \<Rightarrow> string + string \<times> secret_write list" where
  "normalize_document_for_storage lib js raw org =
    (case parse_desired_document lib raw of
       Inl e \<Rightarrow> Inl (''config secret normalize: parse: '' @ e)
     | Inr c \<Rightarrow>
         (let (c', ws) = normalize_secrets_to_refs js org c in
          case serialize_desired_only_strict lib (detect_desired_format raw) c' of
            Inl e \<Rightarrow> Inl e | Inr content \<Rightarrow> Inr (content, ws)))"

section \<open>The boundary\<close>

definition contains_app_sections :: "config \<Rightarrow> bool" where
  "contains_app_sections c \<longleftrightarrow>
    cf_sources c \<noteq> [] \<or> cf_notifiers c \<noteq> [] \<or> cf_teams c \<noteq> [] \<or> cf_presets c \<noteq> []
    \<or> cf_defaults c \<noteq> defaults_default"

definition contains_infra_sections :: "config \<Rightarrow> bool" where
  "contains_infra_sections c \<longleftrightarrow>
    cf_database c \<noteq> cf_database config_default \<or> cf_api c \<noteq> cf_api config_default
    \<or> cf_log c \<noteq> cf_log config_default \<or> cf_config_api c \<noteq> cf_config_api config_default
    \<or> cf_advisories c \<noteq> cf_advisories config_default"

definition ensure_desired_only :: "config \<Rightarrow> string + unit" where
  "ensure_desired_only c =
    (if contains_infra_sections c then
       Inl (''desired-state document must not contain infrastructure sections ''
         @ ''([database], [api], [log], [config_api], [advisories]); configure those in bootstrap.toml only'')
     else if cf_organizations c \<noteq> [] then
       Inl (''desired-state document must not contain [[organizations]]; ''
         @ ''declare the organization catalogue in bootstrap.toml only'')
     else if cf_apprise c \<noteq> apprise_default then
       Inl (''top-level '' @ quoted ''[apprise]'' @ '' / '' @ quoted ''apprise:'' @ '' is removed; move delivery settings to ''
         @ quoted ''[[notifiers]]'' @ '' / '' @ quoted ''notifiers:'' @ '' with '' @ quoted ''type: apprise''
         @ '' (Compose/Helm may still set XRELEASE_APPRISE_ENDPOINT on those sinks)'')
     else Inr ())"

definition has_desired_state :: "config \<Rightarrow> bool" where
  "has_desired_state c = contains_app_sections c"

definition strip_desired_sections :: "config \<Rightarrow> config" where
  "strip_desired_sections c =
    c\<lparr>cf_defaults := defaults_default, cf_apprise := apprise_default, cf_notifiers := [], cf_teams := [],
      cf_presets := [], cf_sources := []\<rparr>"

definition strip_infra_sections :: "config \<Rightarrow> config" where
  "strip_infra_sections c =
    c\<lparr>cf_database := cf_database config_default, cf_log := cf_log config_default, cf_api := cf_api config_default,
      cf_config_api := cf_config_api config_default, cf_advisories := cf_advisories config_default,
      cf_organizations := []\<rparr>"

definition merge_bootstrap_over_desired :: "config \<Rightarrow> config \<Rightarrow> config" where
  "merge_bootstrap_over_desired bootstrap desired =
    desired\<lparr>cf_database := cf_database bootstrap, cf_log := cf_log bootstrap, cf_api := cf_api bootstrap,
      cf_config_api := cf_config_api bootstrap, cf_advisories := cf_advisories bootstrap,
      cf_organizations := cf_organizations bootstrap\<rparr>"

definition ensure_infra_only :: "config \<Rightarrow> string \<Rightarrow> string + unit" where
  "ensure_infra_only c path =
    (if contains_app_sections c then
       Inl (path @ '' must contain only infrastructure sections ''
         @ ''([database], [api], [log], [config_api], [advisories], [[organizations]]); ''
         @ ''move [defaults], [[teams]], [presets], [[notifiers]], and [[sources]] to ''
         @ ''app/releases.yaml or app/<org>/releases.yaml (or apply via POST /api/v1/config/apply)'')
     else Inr ())"

definition load_bootstrap :: "token_env \<Rightarrow> string \<Rightarrow> (string + config) option \<Rightarrow> string + config" where
  "load_bootstrap env path parsed =
    (case (case parsed of
             None \<Rightarrow> Inr config_default
           | Some (Inl e) \<Rightarrow> Inl e
           | Some (Inr c) \<Rightarrow> (case ensure_infra_only c path of Inl e \<Rightarrow> Inl e | Inr _ \<Rightarrow> Inr c)) of
       Inl e \<Rightarrow> Inl e
     | Inr c \<Rightarrow> Inr (strip_desired_sections (apply_env_overrides env c)))"

definition merge_pushed_document ::
  "doc_libs \<Rightarrow> token_env \<Rightarrow> config \<Rightarrow> string \<Rightarrow> desired_format option \<Rightarrow> string + config" where
  "merge_pushed_document lib env bootstrap raw hint =
    (case parse_desired_document_with_hint lib raw hint of
       Inl e \<Rightarrow> Inl e
     | Inr desired \<Rightarrow> (case ensure_desired_only desired of
         Inl e \<Rightarrow> Inl e
       | Inr _ \<Rightarrow> Inr (apply_env_overrides env (merge_bootstrap_over_desired bootstrap desired))))"

section \<open>Authority\<close>

datatype desired_source = From_ledger | From_app_file | From_nothing

definition EMPTY_ORGANIZATION_DOCUMENT :: string where
  "EMPTY_ORGANIZATION_DOCUMENT = ''{}'' @ [byte 10]"

text \<open>
  The document of an organization: the newest applied revision of its stream where the ledger may be
  booted from, its file otherwise.  A path is read relative to the bootstrap file.
\<close>

definition file_text :: "string \<Rightarrow> (string + string) option \<Rightarrow> string + string" where
  "file_text org file =
    (case file of
       None \<Rightarrow> Inl (''organization '' @ quoted org @ '' app file does not exist'')
     | Some (Inl e) \<Rightarrow> Inl (''reading organization '' @ quoted org @ '' app file: '' @ e)
     | Some (Inr raw) \<Rightarrow> Inr raw)"

definition seed_document :: "config \<Rightarrow> organization_config \<Rightarrow> config_world \<Rightarrow> string + string \<times> desired_source" where
  "seed_document bootstrap org w =
    (case org_app_path org of
       Some path \<Rightarrow> (case file_text (oc_id org) (gw_files w path) of Inl e \<Rightarrow> Inl e | Inr raw \<Rightarrow> Inr (raw, From_app_file))
     | None \<Rightarrow>
         if ledger_is_bootable (cf_config_api bootstrap) then Inr (EMPTY_ORGANIZATION_DOCUMENT, From_nothing)
         else Inl (''organization '' @ quoted (oc_id org) @ '' has no '' @ quoted ''app'' @ '' path''))"

definition organization_desired_raw ::
  "config \<Rightarrow> organization_config \<Rightarrow> config_world \<Rightarrow> (string + string \<times> desired_source) \<times> config_world" where
  "organization_desired_raw bootstrap org w =
    (if ledger_is_bootable (cf_config_api bootstrap) then
       (case ledger_query (latest_applied_config_revision (Some (oc_id org))) w of
          (Inl e, w) \<Rightarrow> (Inl (store_error_text e), w)
        | (Inr (Some r), w) \<Rightarrow> (Inr (cr_content r, From_ledger), w)
        | (Inr None, w) \<Rightarrow> (seed_document bootstrap org w, w))
     else (seed_document bootstrap org w, w))"

section \<open>Composing the organizations\<close>

record compose_libs =
  cl_docs :: doc_libs
  cl_sha256 :: "string \<Rightarrow> string"

text \<open>
  The state of the loop: the ids seen, the configuration so far, the bytes that identify it, where each
  document came from, whether the override was used, and the strictest request cap.
\<close>

record composition =
  cp_seen :: "string list"
  cp_merged :: config
  cp_identity :: string
  cp_sources :: "(string \<times> desired_source) list"
  cp_override_used :: bool
  cp_rpm :: "nat option"

definition composition_start :: "(string \<times> string) option \<Rightarrow> composition" where
  "composition_start override =
    \<lparr>cp_seen = [], cp_merged = config_default, cp_identity = [], cp_sources = [],
     cp_override_used = (override = None), cp_rpm = None\<rparr>"

definition document_of ::
  "config \<Rightarrow> (string \<times> string) option \<Rightarrow> organization_config \<Rightarrow> config_world
     \<Rightarrow> (string + string \<times> desired_source) \<times> config_world" where
  "document_of bootstrap override org w =
    (case override of
       Some (i, document) \<Rightarrow>
         if i = oc_id org then (Inr (document, From_ledger), w) else organization_desired_raw bootstrap org w
     | None \<Rightarrow> organization_desired_raw bootstrap org w)"

definition min_cap :: "nat option \<Rightarrow> nat \<Rightarrow> nat option" where
  "min_cap cap rpm = (if rpm = 0 then cap else Some (case cap of None \<Rightarrow> rpm | Some c \<Rightarrow> min c rpm))"

text \<open>One organization's document joins the configuration; the first lends it its defaults.\<close>

definition merge_organization :: "bool \<Rightarrow> config \<Rightarrow> config \<Rightarrow> config" where
  "merge_organization first d m =
    m\<lparr>cf_defaults := (if first \<and> has_desired_state d then cf_defaults d else cf_defaults m),
      cf_teams := cf_teams m @ cf_teams d, cf_notifiers := cf_notifiers m @ cf_notifiers d,
      cf_sources := cf_sources m @ cf_sources d,
      cf_presets := fold (\<lambda>(n, p). btree_insert n p) (cf_presets d) (cf_presets m)\<rparr>"

definition join_organization ::
  "token_env \<Rightarrow> string \<Rightarrow> desired_source \<Rightarrow> string \<Rightarrow> config \<Rightarrow> composition \<Rightarrow> string + composition" where
  "join_organization env i source raw parsed k =
    (case ensure_desired_only parsed of
       Inl e \<Rightarrow> Inl e
     | Inr _ \<Rightarrow>
         (let desired = apply_env_overrides env parsed in
          if source \<noteq> From_nothing \<and> \<not> has_desired_state desired then
            Inl (''organization '' @ quoted i @ '' desired document defines no desired-state sections'')
          else
            (let d = namespace_organization_desired i desired in
             if cf_apprise d \<noteq> apprise_default then
               Inl (''organization '' @ quoted i @ '': top-level '' @ quoted ''apprise:'' @ '' is removed'')
             else
               Inr (k\<lparr>cp_merged := merge_organization (cp_sources k = []) d (cp_merged k),
                 cp_rpm := (if has_desired_state d then min_cap (cp_rpm k) (df_upstream_requests_per_minute (cf_defaults d))
                   else cp_rpm k),
                 cp_identity := cp_identity k @ i @ [byte 0] @ raw @ [byte 0],
                 cp_sources := cp_sources k @ [(i, source)]\<rparr>))))"

fun join_all ::
  "compose_libs \<Rightarrow> config \<Rightarrow> (string \<times> string) option \<Rightarrow> organization_config list \<Rightarrow> composition \<Rightarrow> config_world
     \<Rightarrow> (string + composition) \<times> config_world" where
  "join_all lib bootstrap override [] k w = (Inr k, w)"
| "join_all lib bootstrap override (org # orgs) k w =
    (let i = oc_id org in
     if i = [] then (Inl ''[[organizations]] entry has an empty id'', w)
     else if i \<in> set (cp_seen k) then (Inl (''duplicate [[organizations]] id '' @ quoted i), w)
     else
       (case document_of bootstrap override org w of
          (Inl e, w) \<Rightarrow> (Inl e, w)
        | (Inr (raw, source), w) \<Rightarrow>
            (case parse_desired_document (cl_docs lib) raw of
               Inl e \<Rightarrow> (Inl (''parsing organization '' @ quoted i @ '' desired document''), w)
             | Inr parsed \<Rightarrow>
                 (let used = (case override of Some (j, _) \<Rightarrow> j = i | None \<Rightarrow> False) in
                  case join_organization (env_of w) i source raw parsed
                    (k\<lparr>cp_seen := i # cp_seen k, cp_override_used := cp_override_used k \<or> used\<rparr>) of
                    Inl e \<Rightarrow> (Inl e, w)
                  | Inr k \<Rightarrow> join_all lib bootstrap override orgs k w))))"

record composed_organizations =
  co_merged :: config
  co_identity_sha256 :: string
  co_sources :: "(string \<times> desired_source) list"

definition finish_composition :: "compose_libs \<Rightarrow> config \<Rightarrow> (string \<times> string) option \<Rightarrow> composition \<Rightarrow> string + composed_organizations" where
  "finish_composition lib bootstrap override k =
    (if \<not> cp_override_used k then
       Inl (''unknown organization '' @ quoted (case override of Some (i, _) \<Rightarrow> i | None \<Rightarrow> []) @ '' (not in [[organizations]])'')
     else
       (let m = cp_merged k;
            m = (case cp_rpm k of
              Some rpm \<Rightarrow> m\<lparr>cf_defaults := (cf_defaults m)\<lparr>df_upstream_requests_per_minute := rpm\<rparr>\<rparr> | None \<Rightarrow> m) in
        if cf_sources m = [] \<and> cf_notifiers m = [] \<and> \<not> ledger_is_bootable (cf_config_api bootstrap) then
          Inl ''[[organizations]] loaded but no sources or notifiers were found''
        else
          Inr \<lparr>co_merged = merge_bootstrap_over_desired bootstrap m,
            co_identity_sha256 = cl_sha256 lib (cp_identity k), co_sources = cp_sources k\<rparr>))"

definition compose_organizations ::
  "compose_libs \<Rightarrow> config \<Rightarrow> (string \<times> string) option \<Rightarrow> config_world
     \<Rightarrow> (string + composed_organizations) \<times> config_world" where
  "compose_organizations lib bootstrap override w =
    (case join_all lib bootstrap override (cf_organizations bootstrap) (composition_start override) w of
       (Inl e, w) \<Rightarrow> (Inl e, w)
     | (Inr k, w) \<Rightarrow> (finish_composition lib bootstrap override k, w))"

section \<open>What the composed configuration holds\<close>

definition namespaced_source :: "string \<Rightarrow> source_config \<Rightarrow> bool" where
  "namespaced_source org s \<longleftrightarrow>
    (\<exists>x. source_explicit_id s = Some (namespace_source_id org x))
    \<and> (\<exists>t. source_routing_tag s = Some (namespace_routing_tag org t))"

definition namespaced_sink :: "string \<Rightarrow> notifier_config \<Rightarrow> bool" where
  "namespaced_sink org n \<longleftrightarrow> routing_tags n \<noteq> [] \<and> set (routing_tags n) \<subseteq> range (namespace_routing_tag org)"

definition of_organizations :: "string set \<Rightarrow> config \<Rightarrow> bool" where
  "of_organizations orgs c \<longleftrightarrow>
    (\<forall>s \<in> set (cf_sources c). \<exists>org \<in> orgs. namespaced_source org s)
    \<and> (\<forall>n \<in> set (cf_notifiers c). \<exists>org \<in> orgs. namespaced_sink org n)"

lemma prepared_source: "namespaced_source org (prepare_organization_source org ps d s)"
  by (auto simp: namespaced_source_def prepare_organization_source_def organization_common_def Let_def
      organization_source_id_def source_routing_tag_def)

lemma btree_of_keys: "fst ` set (btree_of kvs) = fst ` set kvs"
proof -
  have "fst ` set (fold (\<lambda>(k, v). btree_insert k v) kvs m) = fst ` set kvs \<union> fst ` set m" for m
  proof (induction kvs arbitrary: m)
    case (Cons p kvs)
    then show ?case by (cases p) (simp add: btree_insert_keys)
  qed simp
  then show ?thesis by (simp add: btree_of_def)
qed

lemma sorted_tags: "set (map fst (btree_of (map (\<lambda>t. (t, ())) tags))) = set tags"
  unfolding set_map btree_of_keys by (simp add: image_image)

lemma event_tags:
  "set (organization_event_tags org c) =
    insert (broadcast_tag org) (namespace_routing_tag org `
      ({t. \<exists>s \<in> set (cf_sources c). trimmed_nonempty (source_routing_tag s) = Some t}
       \<union> set_option (trimmed_nonempty (df_ops_routing_tag (cf_defaults c)))))"
proof -
  have "set (List.map_filter f xs) = {t. \<exists>x \<in> set xs. f x = Some t}" for f :: "source_config \<Rightarrow> string option" and xs
    by (auto simp: mem_map_filter)
  then show ?thesis
    unfolding organization_event_tags_def sorted_tags
    by (cases "trimmed_nonempty (df_ops_routing_tag (cf_defaults c))") (simp_all add: image_Un)
qed

lemma namespaced_sink_of:
  assumes "set tags \<subseteq> range (namespace_routing_tag org)" "tags \<noteq> []"
  shows "namespaced_sink org (namespace_notifier org tags n)"
  using assms by (cases "routing_tags n = []") (simp_all add: namespaced_sink_def namespace_notifier_def image_subset_iff)

lemma namespaced_entries:
  "of_organizations {org} (namespace_organization_desired org c)"
proof -
  have tags: "set (organization_event_tags org c) \<subseteq> range (namespace_routing_tag org)"
    unfolding event_tags by (auto simp: broadcast_tag_def)
  have "organization_event_tags org c \<noteq> []"
    using event_tags [of org c] by (cases "organization_event_tags org c") simp_all
  then show ?thesis
    using namespaced_sink_of [OF tags] prepared_source
    by (auto simp: of_organizations_def namespace_organization_desired_def prepare_organization_sources_def)
qed

lemma of_organizations_mono: "of_organizations A c \<Longrightarrow> A \<subseteq> B \<Longrightarrow> of_organizations B c"
  by (fastforce simp: of_organizations_def)

lemma of_organizations_append:
  assumes "of_organizations A c" "of_organizations A d"
    "cf_sources m = cf_sources c @ cf_sources d" "cf_notifiers m = cf_notifiers c @ cf_notifiers d"
  shows "of_organizations A m"
  using assms by (auto simp: of_organizations_def)

lemma join_organization_entries:
  assumes "join_organization env i source raw parsed k = Inr k'" "of_organizations A (cp_merged k)" "i \<in> A"
  shows "of_organizations A (cp_merged k')"
proof -
  define d where d: "d = namespace_organization_desired i (apply_env_overrides env parsed)"
  have k': "cp_merged k' = merge_organization (cp_sources k = []) d (cp_merged k)"
    using assms(1) unfolding join_organization_def Let_def d [symmetric]
    by (auto split: sum.split_asm if_split_asm)
  have "of_organizations A d"
    using namespaced_entries of_organizations_mono assms(3) unfolding d by blast
  moreover have "cf_sources (cp_merged k') = cf_sources (cp_merged k) @ cf_sources d"
    "cf_notifiers (cp_merged k') = cf_notifiers (cp_merged k) @ cf_notifiers d"
    by (simp_all add: k' merge_organization_def)
  ultimately show ?thesis using assms(2) of_organizations_append by blast
qed

lemma join_all_entries:
  assumes "join_all lib bootstrap override orgs k w = (Inr k', w')"
    and "of_organizations A (cp_merged k)" "oc_id ` set orgs \<subseteq> A"
  shows "of_organizations A (cp_merged k')"
  using assms
proof (induction orgs arbitrary: k w)
  case (Cons org orgs)
  obtain raw source parsed k1 w1 where
    "join_organization (env_of w1) (oc_id org) source raw parsed
      (k\<lparr>cp_seen := oc_id org # cp_seen k, cp_override_used := cp_override_used k
         \<or> (case override of Some (j, _) \<Rightarrow> j = oc_id org | None \<Rightarrow> False)\<rparr>) = Inr k1"
    "join_all lib bootstrap override orgs k1 w1 = (Inr k', w')"
    using Cons.prems(1) by (auto simp: Let_def split: if_splits prod.splits sum.splits)
  then show ?case
    using Cons.IH [of k1 w1] Cons.prems(2,3) join_organization_entries [of "env_of w1" "oc_id org"] by simp
qed simp

lemma composed_entries:
  assumes "compose_organizations lib bootstrap override w = (Inr k, w')"
  shows "of_organizations (oc_id ` set (cf_organizations bootstrap)) (co_merged k)"
proof -
  obtain k1 where k1: "join_all lib bootstrap override (cf_organizations bootstrap) (composition_start override) w = (Inr k1, w')"
    and k: "finish_composition lib bootstrap override k1 = Inr k"
    using assms by (auto simp: compose_organizations_def split: prod.splits sum.splits)
  have "of_organizations (oc_id ` set (cf_organizations bootstrap)) (cp_merged k1)"
    by (rule join_all_entries [OF k1]) (simp_all add: of_organizations_def composition_start_def config_default_def)
  moreover have "cf_sources (co_merged k) = cf_sources (cp_merged k1)" "cf_notifiers (co_merged k) = cf_notifiers (cp_merged k1)"
    using k by (auto simp: finish_composition_def merge_bootstrap_over_desired_def Let_def split: if_splits option.splits)
  ultimately show ?thesis by (simp add: of_organizations_def)
qed

section \<open>Organizations do not hear each other\<close>

lemma preset_keeps_tag:
  assumes "with_preset_resolved ps i c = Inr c'" "so_routing_tag c = Some t"
  shows "so_routing_tag c' = Some t"
proof -
  have "so_routing_tag (merge_into p (c\<lparr>so_preset := None\<rparr>)) = Some t" for p
    using assms(2) by (simp add: merge_into_def inherit_def)
  then show ?thesis
    using assms unfolding with_preset_resolved_def Let_def
    by (auto split: option.split_asm if_split_asm simp del: source_common.update_convs)
qed

lemma build_watch_tag:
  assumes "build_watch x i p c = Inr w" "so_routing_tag c = Some t"
  shows "wt_routing_tag w = Some t"
proof (cases "with_preset_resolved (bx_presets x) i c")
  case (Inl e)
  then show ?thesis using assms(1) by (simp add: build_watch_def)
next
  case (Inr c')
  then have "so_routing_tag c' = Some t" using preset_keeps_tag assms(2) by blast
  moreover have "wt_routing_tag w = so_routing_tag c'"
    using assms(1) Inr
    by (cases "build_filter (bx_regex x) i c'"; cases "resolve_notify_schedule (bx_cron x) c' (bx_defaults x)")
      (auto simp: build_watch_def common_schedule_def)
  ultimately show ?thesis by simp
qed

lemma into_watch_tag:
  assumes "into_watch x s = Inr w" "source_routing_tag s = Some t"
  shows "wt_routing_tag w = Some t"
  using assms
  by (cases s)
    (auto simp: build_gitea_watch_def build_package_watch_def build_container_watch_def container_watch_def
      source_routing_tag_def Let_def dest: build_watch_tag
      split: sum.splits gitea_preset_cfg.splits)

lemma watch_of_source:
  assumes "to_watches lb c = Inr ws" "v \<in> set ws"
  obtains s where "s \<in> set (cf_sources c)" "source_watch (build_ctx_of lb c) s = Inr v"
proof -
  have "map (source_watch (build_ctx_of lb c)) (cf_sources c) = map Inr ws"
    using assms(1) by (simp add: to_watches_def collect_Inr)
  then have "Inr v \<in> source_watch (build_ctx_of lb c) ` set (cf_sources c)"
    using assms(2) by (metis image_set imageI)
  then show ?thesis using that by auto
qed

lemma namespaced_watch:
  assumes "source_watch x s = Inr v" "namespaced_source org s" "slug_ok org"
  shows "wt_organization_id v = Some org" "\<exists>t. wt_routing_tag v = Some (namespace_routing_tag org t)"
proof -
  obtain u i where u: "into_watch x s = Inr u"
    and v: "v = u\<lparr>wt_organization_id := organization_id_from_source_id (provider_id (wt_provider u))\<rparr>"
    using assms(1) by (auto simp: source_watch_def split: sum.splits)
  obtain y where y: "source_explicit_id s = Some (namespace_source_id org y)"
    using assms(2) by (auto simp: namespaced_source_def)
  obtain t where t: "source_routing_tag s = Some (namespace_routing_tag org t)"
    using assms(2) by (auto simp: namespaced_source_def)
  have "watch_source_id s = namespace_source_id org y"
    using y by (cases s) (simp_all add: source_label_def id_or_def)
  moreover obtain z where "namespace_source_id org y = org @ ''::'' @ z"
    using namespace_scoped_shape by (auto simp: namespace_source_id_def)
  ultimately show "wt_organization_id v = Some org"
    using into_watch_id [OF u] org_of_namespaced [OF assms(3)] by (simp add: v)
  show "\<exists>t. wt_routing_tag v = Some (namespace_routing_tag org t)"
    using into_watch_tag [OF u t] by (auto simp: v)
qed

lemma trimmed_namespace: "slug_ok org \<Longrightarrow> trimmed_nonempty (Some (namespace_routing_tag org t)) = Some (trim (namespace_routing_tag org t))"
  using trim_namespaced [of org t] by (auto simp: trimmed_nonempty_def namespace_routing_tag_def)

text \<open>
  C9: Organizations do not hear each other: in a configuration composed from a catalogue whose ids are
  slugs (not empty, no leading blank, no final colon, no separator inside, of which the code checks
  only the first), a sink that an event of some watch reaches is a sink of the organization that the
  watch belongs to, whatever tags, presets and ids their documents chose.
\<close>

theorem organizations_are_isolated:
  assumes "compose_organizations lib bootstrap override w = (Inr k, w')"
    and slugs: "\<forall>org \<in> set (cf_organizations bootstrap). slug_ok (oc_id org)"
    and "to_watches lb (co_merged k) = Inr ws" "v \<in> set ws" "n \<in> set (cf_notifiers (co_merged k))"
    and "matches_routing_tags (routing_tags n) (wt_routing_tag v)"
  shows "\<exists>org \<in> set (cf_organizations bootstrap). wt_organization_id v = Some (oc_id org) \<and> namespaced_sink (oc_id org) n"
proof -
  have all: "of_organizations (oc_id ` set (cf_organizations bootstrap)) (co_merged k)"
    using assms(1) by (rule composed_entries)
  obtain s where s: "s \<in> set (cf_sources (co_merged k))" "source_watch (build_ctx_of lb (co_merged k)) s = Inr v"
    using assms(3,4) by (rule watch_of_source)
  obtain a where a: "a \<in> set (cf_organizations bootstrap)" "namespaced_source (oc_id a) s"
    using all s(1) by (auto simp: of_organizations_def)
  obtain b where b: "b \<in> set (cf_organizations bootstrap)" "namespaced_sink (oc_id b) n"
    using all assms(5) by (auto simp: of_organizations_def)
  have slug: "slug_ok (oc_id a)" "slug_ok (oc_id b)" using slugs a b by auto
  obtain t where t: "wt_routing_tag v = Some (namespace_routing_tag (oc_id a) t)"
    using namespaced_watch [OF s(2) a(2) slug(1)] by blast
  obtain t' where "t' \<in> set (routing_tags n)" "trim t' = trim (namespace_routing_tag (oc_id a) t)"
    using assms(6) b(2) by (auto simp: matches_routing_tags_def namespaced_sink_def t trimmed_namespace [OF slug(1)] list_ex_iff)
  moreover from this obtain u where "t' = namespace_routing_tag (oc_id b) u"
    using b(2) by (auto simp: namespaced_sink_def)
  ultimately have "trim (namespace_scoped (oc_id b) u) = trim (namespace_scoped (oc_id a) t)"
    by (simp add: namespace_routing_tag_def)
  then have "oc_id a = oc_id b" using org_of_trimmed slug by (metis option.inject)
  then show ?thesis using a b namespaced_watch(1) [OF s(2) a(2) slug(1)] by auto
qed

text \<open>
  A sink without tags is a catch-all of its organization: it hears every source of the
  organization's document, tagged or not.
\<close>

theorem untagged_sink_hears_its_organization:
  assumes "slug_ok org" "routing_tags n = []" "s \<in> set (cf_sources c)"
  shows "matches_routing_tags (routing_tags (namespace_notifier org (organization_event_tags org c) n))
    (source_routing_tag (prepare_organization_source org ps d s))"
proof -
  define tag where "tag = (case source_routing_tag s of Some tag \<Rightarrow> if trim tag = [] then ''__org__'' else tag | None \<Rightarrow> ''__org__'')"
  have prepared: "source_routing_tag (prepare_organization_source org ps d s) = Some (namespace_routing_tag org tag)"
    by (simp add: source_routing_tag_def prepare_organization_source_def organization_common_def Let_def tag_def)
  have same: "namespace_routing_tag org (trim t) = namespace_routing_tag org t" for t
    by (simp add: namespace_routing_tag_def namespace_scoped_def)
  have "namespace_routing_tag org tag \<in> set (organization_event_tags org c)"
  proof (cases "trimmed_nonempty (source_routing_tag s)")
    case None
    then have "tag = ''__org__''" by (auto simp: tag_def trimmed_nonempty_def split: option.splits if_splits)
    then show ?thesis unfolding event_tags by (simp add: broadcast_tag_def)
  next
    case (Some t)
    then have "t = trim tag" by (auto simp: tag_def trimmed_nonempty_def split: option.splits if_splits)
    then have "namespace_routing_tag org tag = namespace_routing_tag org t" by (simp add: same)
    then show ?thesis unfolding event_tags using Some assms(3) by blast
  qed
  then show ?thesis
    using assms(2) by (auto simp: prepared namespace_notifier_def matches_routing_tags_def trimmed_namespace [OF assms(1)] list_ex_iff)
qed

section \<open>A catalogue of two organizations\<close>

definition example_organization :: "string \<Rightarrow> organization_config" where
  "example_organization i = \<lparr>oc_id = i, oc_name = None, oc_app = Some i\<rparr>"

definition example_bootstrap :: config where
  "example_bootstrap =
    config_default\<lparr>cf_organizations := [example_organization ''platform'', example_organization ''security'']\<rparr>"

definition example_source :: "source_common \<Rightarrow> source_config" where
  "example_source common = Github_cfg (example_repo\<lparr>rc_token := None, rc_common := common\<rparr>)"

text \<open>The document of an organization is its name; what it parses to is given.\<close>

definition example_docs :: "(string \<Rightarrow> config) \<Rightarrow> compose_libs" where
  "example_docs parsed =
    \<lparr>cl_docs = \<lparr>dl_parse = (\<lambda>_ s. Inr (parsed s)), dl_print = (\<lambda>_ _. Inr [])\<rparr>, cl_sha256 = id\<rparr>"

definition example_instance :: config_world where
  "example_instance =
    \<lparr>gw_ledger = \<lparr>vt_rows = [], vt_next_id = 1\<rparr>, gw_secrets = [], gw_vault = Map.empty, gw_vars = Map.empty,
     gw_files = (\<lambda>path. Some (Inr path)), gw_calls = 0, gw_clock = int, gw_fault = (\<lambda>_. None),
     gw_mirrored = (\<lambda>_. 0), gw_running = config_default, gw_watches = [], gw_sinks = [], gw_swaps = 0,
     gw_swap_fault = (\<lambda>_. None)\<rparr>"

definition example_parsed :: "string \<Rightarrow> config" where
  "example_parsed org =
    (if org = ''platform'' then
       config_default\<lparr>cf_sources := [example_source (empty_common\<lparr>so_routing_tag := Some ''core''\<rparr>)],
         cf_notifiers := [Telegram_cfg example_telegram]\<rparr>
     else config_default\<lparr>cf_sources := [example_source empty_common]\<rparr>)"

definition composed_of :: "(string \<Rightarrow> config) \<Rightarrow> string + composed_organizations" where
  "composed_of parsed = fst (compose_organizations (example_docs parsed) example_bootstrap None example_instance)"

lemma no_env: "(\<And>var. te_var env var = None) \<Longrightarrow> apply_env_overrides env c = c"
  by (simp add: apply_env_overrides_def env_database_def env_api_def env_defaults_def env_config_api_def env_oidc_def
      env_local_auth_def env_set_def trimmed_nonempty_def Let_def)

text \<open>What the two documents compose to.\<close>

definition two_merged :: "(string \<Rightarrow> config) \<Rightarrow> config" where
  "two_merged parsed =
    merge_bootstrap_over_desired example_bootstrap
      (merge_organization False (namespace_organization_desired ''security'' (parsed ''security''))
        (merge_organization True (namespace_organization_desired ''platform'' (parsed ''platform'')) config_default))"

lemma namespaced_parts [simp]:
  "cf_apprise (namespace_organization_desired org c) = cf_apprise c"
  "df_upstream_requests_per_minute (cf_defaults (namespace_organization_desired org c)) = df_upstream_requests_per_minute (cf_defaults c)"
  "cf_sources (namespace_organization_desired org c) = [] \<longleftrightarrow> cf_sources c = []"
  by (simp_all add: namespace_organization_desired_def prepare_organization_sources_def)

lemma example_parse:
  assumes "i = ''platform'' \<or> i = ''security''"
  shows "parse_desired_document (cl_docs (example_docs parsed)) i = Inr (parsed i)"
proof -
  have "reject_removed_desired_keys ''platform'' = Inr ()" "reject_removed_desired_keys ''security'' = Inr ()"
    by code_simp+
  then show ?thesis
    using assms by (auto simp: parse_desired_document_def parse_desired_document_with_hint_def parse_as_def
        example_docs_def Let_def)
qed

lemma example_document_of:
  assumes "i = ''platform'' \<or> i = ''security''"
  shows "document_of example_bootstrap None (example_organization i) example_instance = (Inr (i, From_app_file), example_instance)"
proof -
  have "trim ''platform'' = ''platform''" "trim ''security'' = ''security''" by code_simp+
  then show ?thesis
    using assms
    by (auto simp: document_of_def organization_desired_raw_def seed_document_def example_bootstrap_def config_default_def
        config_api_default_def ledger_is_bootable_def org_app_path_def example_organization_def trimmed_nonempty_def
        file_text_def example_instance_def)
qed

definition example_document_ok :: "config \<Rightarrow> bool" where
  "example_document_ok c \<longleftrightarrow>
    ensure_desired_only c = Inr () \<and> cf_sources c \<noteq> [] \<and> cf_apprise c = apprise_default
    \<and> df_upstream_requests_per_minute (cf_defaults c) = 0"

lemma joined:
  assumes "example_document_ok c" "\<And>var. te_var env var = None"
  shows "join_organization env i From_app_file raw c k =
    Inr (k\<lparr>cp_merged := merge_organization (cp_sources k = []) (namespace_organization_desired i c) (cp_merged k),
      cp_identity := cp_identity k @ i @ [byte 0] @ raw @ [byte 0], cp_sources := cp_sources k @ [(i, From_app_file)]\<rparr>)"
  using assms
  by (simp add: join_organization_def example_document_ok_def no_env Let_def has_desired_state_def
      contains_app_sections_def min_cap_def)

lemma composed_of_two:
  assumes "\<And>i. example_document_ok (parsed i)"
  shows "\<exists>k. composed_of parsed = Inr k \<and> co_merged k = two_merged parsed"
proof -
  have env: "te_var (env_of example_instance) var = None" for var
    by (simp add: env_of_def example_instance_def with_vault_def)
  have ids: "oc_id (example_organization i) = i" for i by (simp add: example_organization_def)
  have orgs: "cf_organizations example_bootstrap = [example_organization ''platform'', example_organization ''security'']"
    by (simp add: example_bootstrap_def)
  have ne: "cf_sources (merge_organization f (namespace_organization_desired i (parsed i)) m) \<noteq> []" for f i m
    using assms by (simp add: merge_organization_def example_document_ok_def)
  show ?thesis
    unfolding composed_of_def compose_organizations_def orgs
    by (simp add: Let_def ids example_document_of example_parse joined [OF assms env] composition_start_def
        finish_composition_def ne two_merged_def)
qed

text \<open>Its watches depend on its sources, presets and defaults alone.\<close>

lemma two_watches:
  "to_watches lb (two_merged parsed) =
    (let a = namespace_organization_desired ''platform'' (parsed ''platform'');
         b = namespace_organization_desired ''security'' (parsed ''security'') in
     to_watches lb (config_default\<lparr>
       cf_defaults := (if has_desired_state a then cf_defaults a else defaults_default),
       cf_presets := fold (\<lambda>(n, p). btree_insert n p) (cf_presets b) (fold (\<lambda>(n, p). btree_insert n p) (cf_presets a) []),
       cf_sources := cf_sources a @ cf_sources b\<rparr>))"
  by (simp add: two_merged_def to_watches_def build_ctx_of_def merge_bootstrap_over_desired_def merge_organization_def
      config_default_def Let_def)

theorem organizations_are_isolated_witness:
  "\<exists>k ws v n. composed_of example_parsed = Inr k \<and> to_watches example_build (co_merged k) = Inr ws
    \<and> v \<in> set ws \<and> n \<in> set (cf_notifiers (co_merged k))
    \<and> matches_routing_tags (routing_tags n) (wt_routing_tag v)
    \<and> (\<exists>org \<in> set (cf_organizations example_bootstrap). wt_organization_id v = Some (oc_id org) \<and> namespaced_sink (oc_id org) n)"
proof -
  have "example_document_ok (example_parsed i)" for i
    by (simp add: example_parsed_def example_document_ok_def config_default_def defaults_default_def
        ensure_desired_only_def contains_infra_sections_def)
  then obtain k where k: "composed_of example_parsed = Inr k" and m: "co_merged k = two_merged example_parsed"
    using composed_of_two by blast
  define n where "n = namespace_notifier ''platform'' (organization_event_tags ''platform'' (example_parsed ''platform''))
      (Telegram_cfg example_telegram)"
  have n: "n \<in> set (cf_notifiers (co_merged k))"
    by (simp add: m two_merged_def merge_bootstrap_over_desired_def merge_organization_def n_def
        namespace_organization_desired_def prepare_organization_sources_def example_parsed_def)
  have "(case to_watches example_build (two_merged example_parsed) of
      Inl _ \<Rightarrow> False | Inr ws \<Rightarrow> ws \<noteq> [] \<and> matches_routing_tags (routing_tags n) (wt_routing_tag (hd ws)))"
    unfolding two_watches n_def by code_simp
  then obtain ws where ws: "to_watches example_build (co_merged k) = Inr ws" "ws \<noteq> []"
    and hit: "matches_routing_tags (routing_tags n) (wt_routing_tag (hd ws))"
    by (auto simp: m split: sum.splits)
  obtain w' where run: "compose_organizations (example_docs example_parsed) example_bootstrap None example_instance = (Inr k, w')"
    using k by (cases "compose_organizations (example_docs example_parsed) example_bootstrap None example_instance")
      (simp add: composed_of_def)
  have slugs: "\<forall>org \<in> set (cf_organizations example_bootstrap). slug_ok (oc_id org)" by code_simp
  show ?thesis using k ws n hit organizations_are_isolated [OF run slugs ws(1) _ n hit] by (meson hd_in_set)
qed

theorem untagged_sink_hears_its_organization_witness:
  "matches_routing_tags (routing_tags (namespace_notifier ''platform''
      (organization_event_tags ''platform'' (example_parsed ''platform'')) (Telegram_cfg example_telegram)))
    (source_routing_tag (prepare_organization_source ''platform'' [] defaults_default
      (example_source (empty_common\<lparr>so_routing_tag := Some ''core''\<rparr>))))"
proof (rule untagged_sink_hears_its_organization)
  show "slug_ok ''platform''" by code_simp
qed (simp_all add: example_telegram_def example_parsed_def)

section \<open>What composition loses\<close>

definition the_watches :: "(string \<Rightarrow> config) \<Rightarrow> watch list" where
  "the_watches parsed =
    (case composed_of parsed of
       Inl _ \<Rightarrow> []
     | Inr k \<Rightarrow> (case to_watches example_build (co_merged k) of Inl _ \<Rightarrow> [] | Inr ws \<Rightarrow> ws))"

lemma the_watches_of_two:
  assumes "\<And>i. example_document_ok (parsed i)"
  shows "the_watches parsed =
    (case to_watches example_build (two_merged parsed) of Inl _ \<Rightarrow> [] | Inr ws \<Rightarrow> ws)"
proof -
  obtain k where "composed_of parsed = Inr k" "co_merged k = two_merged parsed"
    using composed_of_two [of parsed] assms by blast
  then show ?thesis by (simp add: the_watches_def)
qed

definition scheduled_documents :: "string \<Rightarrow> config" where
  "scheduled_documents org =
    (let c = config_default\<lparr>cf_sources := [example_source empty_common]\<rparr> in
     if org = ''platform'' then c\<lparr>cf_defaults := defaults_default\<lparr>df_notify_schedule := Some ''@daily''\<rparr>\<rparr> else c)"

definition preset_document :: config where
  "preset_document =
    config_default\<lparr>
      cf_presets := [(''urgent'', empty_preset\<lparr>sp_routing_tag := Some ''security'', sp_interval_secs := Some 60\<rparr>)],
      cf_sources := [example_source (empty_common\<lparr>so_preset := Some ''urgent''\<rparr>)]\<rparr>"

text \<open>
  The delivery schedule of the first organization leaks to the others: a source whose own document
  sets no schedule, neither on the source nor as a default, is delivered on the schedule that the
  defaults of the first organization of the catalogue set.
\<close>

theorem first_schedule_leaks:
  "map (\<lambda>v. (wt_organization_id v, map_option ns_expr (wt_notify_schedule v))) (the_watches scheduled_documents)
     = [(Some ''platform'', Some ''@daily''), (Some ''security'', Some ''@daily'')]"
proof -
  have "example_document_ok (scheduled_documents i)" for i
    by (simp add: scheduled_documents_def example_document_ok_def Let_def config_default_def defaults_default_def
        ensure_desired_only_def contains_infra_sections_def)
  then have the: "the_watches scheduled_documents =
      (case to_watches example_build (two_merged scheduled_documents) of Inl _ \<Rightarrow> [] | Inr ws \<Rightarrow> ws)"
    by (rule the_watches_of_two)
  show ?thesis unfolding the two_watches by code_simp
qed

text \<open>
  A preset's tag and interval are lost among organizations: the same source and preset give a watch
  with the tag and the interval of the preset in a single document, and one with the broadcast tag and
  the default interval when the document belongs to an organization.
\<close>

theorem preset_settings_are_lost:
  "map_sum id (map (\<lambda>v. (wt_routing_tag v, wt_interval v))) (to_watches example_build preset_document)
     = Inr [(Some ''security'', 60)]
   \<and> map (\<lambda>v. (wt_routing_tag v, wt_interval v)) (the_watches (\<lambda>_. preset_document))
     = [(Some ''platform::__org__'', 86400), (Some ''security::__org__'', 86400)]"
proof -
  have "example_document_ok preset_document"
    by (simp add: preset_document_def example_document_ok_def config_default_def defaults_default_def
        ensure_desired_only_def contains_infra_sections_def)
  then have the: "the_watches (\<lambda>_. preset_document) =
      (case to_watches example_build (two_merged (\<lambda>_. preset_document)) of Inl _ \<Rightarrow> [] | Inr ws \<Rightarrow> ws)"
    by (rule the_watches_of_two)
  show ?thesis unfolding the two_watches by code_simp
qed

section \<open>The boundary holds\<close>

definition env_val :: "token_env \<Rightarrow> string \<Rightarrow> (string \<Rightarrow> 'a option) \<Rightarrow> 'a \<Rightarrow> 'a" where
  "env_val env var f x = (case Option.bind (te_var env var) f of Some y \<Rightarrow> y | None \<Rightarrow> x)"

lemma env_val_twice [simp]: "env_val env var f (env_val env var f x) = env_val env var f x"
  by (simp add: env_val_def split: option.split)

lemma env_fields:
  "env_database env d = d\<lparr>
     dbc_postgres_url := env_val env ''XRELEASE_DATABASE_URL'' Some (dbc_postgres_url d),
     dbc_ssl_mode := env_val env ''XRELEASE_DATABASE_SSL_MODE'' (map_option Some \<circ> parse_libpq) (dbc_ssl_mode d),
     dbc_ssl_root_cert := env_val env ''XRELEASE_DATABASE_SSL_ROOT_CERT'' (Some \<circ> Some) (dbc_ssl_root_cert d)\<rparr>"
  "env_local_auth env a = a\<lparr>
     la_enabled := env_val env ''XRELEASE_LOCAL_AUTH'' (Some \<circ> truthy) (la_enabled a),
     la_admin_username := env_val env ''XRELEASE_ADMIN_USER'' Some (la_admin_username a),
     la_admin_password := env_val env ''XRELEASE_ADMIN_PASSWORD'' (Some \<circ> Some) (la_admin_password a),
     la_session_secret := env_val env ''XRELEASE_SESSION_SECRET'' (Some \<circ> Some) (la_session_secret a),
     la_session_ttl_secs := env_val env ''XRELEASE_SESSION_TTL_SECS'' (parse_uint U64_MAX) (la_session_ttl_secs a)\<rparr>"
  "env_config_api env c = c\<lparr>
     ca_api_config := env_val env ''XRELEASE_CONFIG_API_ENABLED'' (Some \<circ> truthy) (ca_api_config c),
     ca_apply_scope := env_val env ''XRELEASE_CONFIG_API_APPLY_SCOPE'' (Some \<circ> Some) (ca_apply_scope c)\<rparr>"
  unfolding env_database_def env_local_auth_def env_config_api_def env_set_def env_val_def
  by (simp_all split: option.split)

lemma oidc_field:
  "env_set env var (\<lambda>v c. c\<lparr>od_issuer := Some v\<rparr>) c = c\<lparr>od_issuer := env_val env var (Some \<circ> Some) (od_issuer c)\<rparr>"
  "env_set env var (\<lambda>v c. c\<lparr>od_discovery_url := Some v\<rparr>) c = c\<lparr>od_discovery_url := env_val env var (Some \<circ> Some) (od_discovery_url c)\<rparr>"
  "env_set env var (\<lambda>v c. c\<lparr>od_jwks_uri := Some v\<rparr>) c = c\<lparr>od_jwks_uri := env_val env var (Some \<circ> Some) (od_jwks_uri c)\<rparr>"
  "env_set env var (\<lambda>v c. c\<lparr>od_audience := split_csv v\<rparr>) c = c\<lparr>od_audience := env_val env var (Some \<circ> split_csv) (od_audience c)\<rparr>"
  "env_set env var (\<lambda>v c. c\<lparr>od_required_scope := Some v\<rparr>) c = c\<lparr>od_required_scope := env_val env var (Some \<circ> Some) (od_required_scope c)\<rparr>"
  "env_set env var (\<lambda>v c. c\<lparr>od_role_claim := v\<rparr>) c = c\<lparr>od_role_claim := env_val env var Some (od_role_claim c)\<rparr>"
  "env_set env var (\<lambda>v c. c\<lparr>od_role_admin := split_csv v\<rparr>) c = c\<lparr>od_role_admin := env_val env var (Some \<circ> split_csv) (od_role_admin c)\<rparr>"
  "env_set env var (\<lambda>v c. c\<lparr>od_role_operator := split_csv v\<rparr>) c = c\<lparr>od_role_operator := env_val env var (Some \<circ> split_csv) (od_role_operator c)\<rparr>"
  "env_set env var (\<lambda>v c. c\<lparr>od_role_viewer := split_csv v\<rparr>) c = c\<lparr>od_role_viewer := env_val env var (Some \<circ> split_csv) (od_role_viewer c)\<rparr>"
  "env_set env var (\<lambda>v c. c\<lparr>od_auto_create_users := truthy v\<rparr>) c = c\<lparr>od_auto_create_users := env_val env var (Some \<circ> truthy) (od_auto_create_users c)\<rparr>"
  "env_set env var (\<lambda>v c. c\<lparr>od_default_role := v\<rparr>) c = c\<lparr>od_default_role := env_val env var Some (od_default_role c)\<rparr>"
  by (simp_all add: env_set_def env_val_def split: option.split)

lemma env_oidc_fields:
  "env_oidc env c = c\<lparr>
     od_issuer := env_val env ''XRELEASE_OIDC_ISSUER'' (Some \<circ> Some) (od_issuer c),
     od_discovery_url := env_val env ''XRELEASE_OIDC_DISCOVERY_URL'' (Some \<circ> Some) (od_discovery_url c),
     od_jwks_uri := env_val env ''XRELEASE_OIDC_JWKS_URI'' (Some \<circ> Some) (od_jwks_uri c),
     od_audience := env_val env ''XRELEASE_OIDC_AUDIENCE'' (Some \<circ> split_csv) (od_audience c),
     od_required_scope := env_val env ''XRELEASE_OIDC_REQUIRED_SCOPE'' (Some \<circ> Some) (od_required_scope c),
     od_role_claim := env_val env ''XRELEASE_OIDC_ROLE_CLAIM'' Some (od_role_claim c),
     od_role_admin := env_val env ''XRELEASE_OIDC_ROLE_ADMIN'' (Some \<circ> split_csv) (od_role_admin c),
     od_role_operator := env_val env ''XRELEASE_OIDC_ROLE_OPERATOR'' (Some \<circ> split_csv) (od_role_operator c),
     od_role_viewer := env_val env ''XRELEASE_OIDC_ROLE_VIEWER'' (Some \<circ> split_csv) (od_role_viewer c),
     od_auto_create_users := env_val env ''XRELEASE_OIDC_AUTO_CREATE_USERS'' (Some \<circ> truthy) (od_auto_create_users c),
     od_default_role := env_val env ''XRELEASE_OIDC_DEFAULT_ROLE'' Some (od_default_role c)\<rparr>"
  unfolding env_oidc_def oidc_field by simp

lemma env_api_twice: "env_api env (env_api env a) = env_api env a"
proof -
  have "env_api env a = a\<lparr>ap_listen := env_val env ''XRELEASE_API_LISTEN'' Some (ap_listen a),
      ap_webhook_secret := env_val env ''XRELEASE_WEBHOOK_SECRET'' (Some \<circ> Some) (ap_webhook_secret a),
      ap_api_key := env_val env ''XRELEASE_API_KEY'' (Some \<circ> Some) (ap_api_key a),
      ap_rate_limit_per_minute := env_val env ''XRELEASE_API_RATE_LIMIT'' (parse_uint U32_MAX) (ap_rate_limit_per_minute a),
      ap_oidc := env_oidc env (ap_oidc a), ap_local_auth := env_local_auth env (ap_local_auth a)\<rparr>" for a
    unfolding env_api_def env_set_def env_val_def Let_def by (simp split: option.split)
  moreover have "env_oidc env (env_oidc env c) = env_oidc env c" for c by (simp add: env_oidc_fields)
  moreover have "env_local_auth env (env_local_auth env c) = env_local_auth env c" for c by (simp add: env_fields)
  ultimately show ?thesis by simp
qed

lemma overridden:
  "cf_database (apply_env_overrides env c) = env_database env (cf_database c)"
  "cf_api (apply_env_overrides env c) = env_api env (cf_api c)"
  "cf_config_api (apply_env_overrides env c) = env_config_api env (cf_config_api c)"
  "cf_log (apply_env_overrides env c) =
    (case trimmed_nonempty (te_var env ''XRELEASE_LOG'') of Some level \<Rightarrow> level | None \<Rightarrow> cf_log c)"
  "cf_advisories (apply_env_overrides env c) = cf_advisories c"
  "cf_organizations (apply_env_overrides env c) = cf_organizations c"
  by (simp_all add: apply_env_overrides_def)

lemma same_infra:
  assumes "cf_database c = cf_database d" "cf_api c = cf_api d" "cf_log c = cf_log d"
    "cf_config_api c = cf_config_api d" "cf_advisories c = cf_advisories d" "cf_organizations c = cf_organizations d"
  shows "strip_desired_sections c = strip_desired_sections d"
  using assms by (cases c; cases d) (simp add: strip_desired_sections_def)

text \<open>
  A pushed document cannot reach the infrastructure: whatever the document says, the database, log,
  API, push and advisory settings and the catalogue of the merged configuration are those of the
  bootstrap file with the environment over it.
\<close>

theorem pushed_document_keeps_infrastructure:
  assumes "load_bootstrap env path file = Inr b" and "merge_pushed_document lib env b raw hint = Inr m"
  shows "strip_desired_sections m = strip_desired_sections b"
proof -
  obtain b0 where b: "b = strip_desired_sections (apply_env_overrides env b0)"
    using assms(1) unfolding load_bootstrap_def by (auto split: sum.split_asm)
  obtain d where m: "m = apply_env_overrides env (merge_bootstrap_over_desired b d)"
    using assms(2) unfolding merge_pushed_document_def by (auto split: sum.split_asm)
  have twice: "env_database env (env_database env x) = env_database env x"
    "env_config_api env (env_config_api env y) = env_config_api env y" for x y
    by (simp_all add: env_fields)
  show ?thesis
  proof (rule same_infra)
    show "cf_log m = cf_log b"
      by (simp add: m b overridden merge_bootstrap_over_desired_def strip_desired_sections_def split: option.split)
  qed (simp_all add: m b overridden twice env_api_twice merge_bootstrap_over_desired_def strip_desired_sections_def)
qed

text \<open>
  A pushed document with a source and a sink, over a bootstrap file with a catalogue of two
  organizations.
\<close>

theorem pushed_document_keeps_infrastructure_witness:
  "\<exists>b m. load_bootstrap empty_env ''bootstrap.toml'' (Some (Inr example_bootstrap)) = Inr b
    \<and> merge_pushed_document (cl_docs (example_docs example_parsed)) empty_env b ''platform'' None = Inr m
    \<and> cf_sources m \<noteq> [] \<and> cf_notifiers m \<noteq> [] \<and> cf_organizations m = cf_organizations example_bootstrap
    \<and> strip_desired_sections m = strip_desired_sections b"
proof -
  have bootstrap: "load_bootstrap empty_env ''bootstrap.toml'' (Some (Inr example_bootstrap)) = Inr (strip_desired_sections example_bootstrap)"
    by (simp add: load_bootstrap_def ensure_infra_only_def contains_app_sections_def example_bootstrap_def config_default_def
        no_env empty_env_def)
  have parsed: "parse_desired_document_with_hint (cl_docs (example_docs example_parsed)) ''platform'' None = Inr (example_parsed ''platform'')"
    using example_parse [of "''platform''" example_parsed] by (simp add: parse_desired_document_def)
  have "ensure_desired_only (example_parsed ''platform'') = Inr ()" by code_simp
  with parsed obtain m where
    m: "merge_pushed_document (cl_docs (example_docs example_parsed)) empty_env (strip_desired_sections example_bootstrap) ''platform'' None = Inr m"
      and what: "m = merge_bootstrap_over_desired (strip_desired_sections example_bootstrap) (example_parsed ''platform'')"
    by (simp add: merge_pushed_document_def no_env empty_env_def)
  have "cf_sources m \<noteq> []" "cf_notifiers m \<noteq> []" "cf_organizations m = cf_organizations example_bootstrap"
    by (simp_all add: what merge_bootstrap_over_desired_def strip_desired_sections_def example_parsed_def example_bootstrap_def
        config_default_def)
  then show ?thesis using bootstrap m pushed_document_keeps_infrastructure [OF bootstrap m] by blast
qed

text \<open>
  A wrong guess of the format never rejects a document: whatever format is hinted or guessed, the
  document is accepted exactly when it has no removed key and one of the two parsers accepts it.
\<close>

theorem format_guess_is_advisory:
  "(\<exists>c. parse_desired_document_with_hint lib s hint = Inr c) \<longleftrightarrow>
    reject_removed_desired_keys s = Inr () \<and> (\<exists>f c. dl_parse lib f s = Inr c)"
proof -
  define g where "g = (case hint of Some f \<Rightarrow> f | None \<Rightarrow> detect_desired_format s)"
  have either: "f = g \<or> f = other_format g" for f
    by (cases f; cases g) (simp_all add: other_format_def)
  have "(\<exists>c. parse_desired_document_with_hint lib s hint = Inr c) \<longleftrightarrow>
      (\<exists>c. parse_as lib s g = Inr c) \<or> (\<exists>c. parse_as lib s (other_format g) = Inr c)"
    by (auto simp: parse_desired_document_with_hint_def g_def Let_def split: sum.split)
  also have "\<dots> \<longleftrightarrow> (\<exists>f c. parse_as lib s f = Inr c)" using either by metis
  also have "\<dots> \<longleftrightarrow> reject_removed_desired_keys s = Inr () \<and> (\<exists>f c. dl_parse lib f s = Inr c)"
    by (cases "reject_removed_desired_keys s") (simp_all add: parse_as_def)
  finally show ?thesis .
qed

text \<open>
  What is cut out of a document is accepted: a document without its infrastructure sections passes the
  guard of the desired state, if it has no top-level sink settings.
\<close>

lemma stripped_is_desired_only:
  "cf_apprise c = apprise_default \<Longrightarrow> ensure_desired_only (strip_infra_sections c) = Inr ()"
  by (simp add: ensure_desired_only_def contains_infra_sections_def strip_infra_sections_def config_default_def)

section \<open>Boot\<close>

text \<open>
  The configuration at boot: the composition of the catalogue, or the newest applied revision of the
  single document's stream, or the application file.  A store that is not reachable is none.
\<close>

definition finish_file :: "token_env \<Rightarrow> config \<Rightarrow> config \<Rightarrow> string + config" where
  "finish_file env bootstrap desired =
    (case ensure_desired_only desired of
       Inl e \<Rightarrow> Inl e
     | Inr _ \<Rightarrow>
         (let desired = apply_env_overrides env desired in
          if has_desired_state desired then Inr (merge_bootstrap_over_desired bootstrap desired)
          else if ledger_is_bootable (cf_config_api bootstrap) then
            Inr (merge_bootstrap_over_desired bootstrap config_default)
          else Inl ''app config defines no desired-state sections (sources / notifiers / apprise)''))"

definition resolve_file ::
  "compose_libs \<Rightarrow> config \<Rightarrow> string option \<Rightarrow> (string \<Rightarrow> desired_format option) \<Rightarrow> config_world \<Rightarrow> string + config" where
  "resolve_file lib bootstrap app format w =
    (case (app, Option.bind app (gw_files w)) of
       (Some path, Some (Inl e)) \<Rightarrow> Inl (''reading app config '' @ path)
     | (Some path, Some (Inr raw)) \<Rightarrow>
         (case parse_desired_document_with_hint (cl_docs lib) raw (format path) of
            Inl e \<Rightarrow> Inl e | Inr desired \<Rightarrow> finish_file (env_of w) bootstrap desired)
     | _ \<Rightarrow>
         if ledger_is_bootable (cf_config_api bootstrap) then
           Inr (merge_bootstrap_over_desired bootstrap config_default)
         else (case app of
             None \<Rightarrow> Inl (''no applied config revision in PostgreSQL and no app config file '' @ em_dash
               @ '' set --app app/releases.yaml, declare [[organizations]] in bootstrap.toml, ''
               @ ''or apply desired state via POST /api/v1/config/apply'')
           | Some path \<Rightarrow> Inl (''app config file '' @ path @ '' does not exist (no applied revision in PostgreSQL)'')))"

definition resolve_config ::
  "compose_libs \<Rightarrow> config \<Rightarrow> string option \<Rightarrow> (string \<Rightarrow> desired_format option) \<Rightarrow> config_world
     \<Rightarrow> (string + config) \<times> config_world" where
  "resolve_config lib bootstrap app format w =
    (if cf_organizations bootstrap \<noteq> [] then
       (case compose_organizations lib bootstrap None w of
          (Inl e, w) \<Rightarrow> (Inl e, w) | (Inr k, w) \<Rightarrow> (Inr (co_merged k), w))
     else if ledger_is_bootable (cf_config_api bootstrap) then
       (case ledger_query (latest_applied_config_revision None) w of
          (Inl e, w) \<Rightarrow> (Inl (store_error_text e), w)
        | (Inr (Some r), w) \<Rightarrow>
            ((case parse_desired_document (cl_docs lib) (cr_content r) of
                Inl e \<Rightarrow> Inl e
              | Inr desired \<Rightarrow> (case ensure_desired_only desired of
                  Inl e \<Rightarrow> Inl e
                | Inr _ \<Rightarrow> Inr (merge_bootstrap_over_desired bootstrap (apply_env_overrides (env_of w) desired)))), w)
        | (Inr None, w) \<Rightarrow> (resolve_file lib bootstrap app format w, w))
     else (resolve_file lib bootstrap app format w, w))"

text \<open>
  A deployment pinned to its files ignores the ledger: with the local source, what an instance
  boots with does not depend on the revisions that the database holds.
\<close>

theorem local_source_ignores_ledger:
  assumes "ca_source (cf_config_api bootstrap) \<noteq> Api_ledger"
  shows "fst (resolve_config lib bootstrap app format (w\<lparr>gw_ledger := t\<rparr>)) = fst (resolve_config lib bootstrap app format w)"
proof -
  have env: "env_of (w\<lparr>gw_ledger := t\<rparr>) = env_of w" for w by (simp add: env_of_def)
  have doc: "document_of bootstrap override org (w\<lparr>gw_ledger := t\<rparr>) =
      (fst (document_of bootstrap override org w), w\<lparr>gw_ledger := t\<rparr>) \<and> snd (document_of bootstrap override org w) = w"
    for override org w
    using assms by (auto simp: document_of_def organization_desired_raw_def seed_document_def ledger_is_bootable_def
        split: option.split prod.split)
  have join: "join_all lib bootstrap override orgs k (w\<lparr>gw_ledger := t\<rparr>) =
      (fst (join_all lib bootstrap override orgs k w), w\<lparr>gw_ledger := t\<rparr>)" for override orgs k w
  proof (induction orgs arbitrary: k)
    case (Cons org orgs)
    obtain d where "document_of bootstrap override org w = (d, w)" using doc by (metis prod.collapse)
    moreover from this have "document_of bootstrap override org (w\<lparr>gw_ledger := t\<rparr>) = (d, w\<lparr>gw_ledger := t\<rparr>)"
      using doc by simp
    ultimately show ?case using Cons by (simp add: Let_def env split: sum.split prod.split)
  qed simp
  have compose: "fst (compose_organizations lib bootstrap None (w\<lparr>gw_ledger := t\<rparr>)) =
      fst (compose_organizations lib bootstrap None w)" (is "fst (?c ?w') = fst (?c w)")
  proof (cases "join_all lib bootstrap None (cf_organizations bootstrap) (composition_start None) w")
    case (Pair r w')
    then show ?thesis
      by (cases r) (simp_all add: compose_organizations_def join)
  qed
  have from_file: "resolve_file lib bootstrap app format (w\<lparr>gw_ledger := t\<rparr>) = resolve_file lib bootstrap app format w"
    unfolding resolve_file_def env by simp
  have pinned: "\<not> ledger_is_bootable (cf_config_api bootstrap)"
    using assms by (simp add: ledger_is_bootable_def)
  have pick: "fst (case p of (Inl e, w) \<Rightarrow> (Inl e, w) | (Inr k, w) \<Rightarrow> (Inr (co_merged k), w)) =
      map_sum id co_merged (fst p)" for p :: "(string + composed_organizations) \<times> config_world"
    by (cases p; cases "fst p") auto
  show ?thesis
    by (simp add: resolve_config_def pinned from_file pick compose)
qed

text \<open>
  The catalogue of two organizations, pinned to its files, over any ledger.
\<close>

theorem local_source_ignores_ledger_witness:
  "\<forall>t. fst (resolve_config (example_docs example_parsed)
        (example_bootstrap\<lparr>cf_config_api := config_api_default\<lparr>ca_source := Local_file\<rparr>\<rparr>) None (\<lambda>_. None)
        (example_instance\<lparr>gw_ledger := t\<rparr>))
    = fst (resolve_config (example_docs example_parsed)
        (example_bootstrap\<lparr>cf_config_api := config_api_default\<lparr>ca_source := Local_file\<rparr>\<rparr>) None (\<lambda>_. None)
        example_instance)"
  by (intro allI local_source_ignores_ledger) simp

end
