(* ===== verification/Validation.thy ===== *)
theory Validation
  imports Composition
begin

text \<open>
  The checks of a configuration (\<^verbatim>\<open>src/src/validate.rs\<close>): what each check complains about, the
  report, the probes of the upstreams, and what a valid configuration guarantees when it runs.
\<close>

section \<open>Socket addresses\<close>

text \<open>
  The addresses that \<^verbatim>\<open>SocketAddr::from_str\<close> of the standard library accepts.  A reader returns
  the text behind what it has read.
\<close>

definition read_char :: "char \<Rightarrow> string \<Rightarrow> string option" where
  "read_char c s = (case s of d # r \<Rightarrow> if d = c then Some r else None | [] \<Rightarrow> None)"

definition radix_digit :: "nat \<Rightarrow> char \<Rightarrow> nat option" where
  "radix_digit radix c =
    (let d = (if is_digit c then Some (code c - 48)
       else if is_lower c then Some (code c - 87) else if is_upper c then Some (code c - 55) else None) in
     case d of Some n \<Rightarrow> if n < radix then d else None | None \<Rightarrow> None)"

definition read_number :: "nat \<Rightarrow> nat option \<Rightarrow> bool \<Rightarrow> nat \<Rightarrow> string \<Rightarrow> string option" where
  "read_number radix max_digits zero_prefix bound s =
    (let ds = takeWhile (\<lambda>c. radix_digit radix c \<noteq> None) s in
     if ds = [] \<or> (case max_digits of Some m \<Rightarrow> m < length ds | None \<Rightarrow> False)
       \<or> \<not> zero_prefix \<and> hd ds = CHR ''0'' \<and> 1 < length ds
       \<or> bound < foldl (\<lambda>n c. n * radix + the (radix_digit radix c)) 0 ds
     then None else Some (drop (length ds) s))"

definition read_octet :: "string \<Rightarrow> string option" where
  "read_octet = read_number 10 (Some 3) False 255"

fun read_octets :: "nat \<Rightarrow> string \<Rightarrow> string option" where
  "read_octets 0 s = Some s"
| "read_octets (Suc n) s = Option.bind (read_char CHR ''.'' s) (\<lambda>s. Option.bind (read_octet s) (read_octets n))"

definition read_ipv4 :: "string \<Rightarrow> string option" where
  "read_ipv4 s = Option.bind (read_octet s) (read_octets 3)"

text \<open>Groups of an IPv6 address from place \<open>i\<close> on: how many, and whether they end in an IPv4 address.\<close>

fun read_groups :: "nat \<Rightarrow> nat \<Rightarrow> string \<Rightarrow> nat \<times> bool \<times> string" where
  "read_groups i 0 s = (i, False, s)"
| "read_groups i (Suc n) s =
    (let at = (if 0 < i then read_char CHR '':'' s else Some s) in
     case (if 0 < n then Option.bind at read_ipv4 else None) of
       Some r \<Rightarrow> (i + 2, True, r)
     | None \<Rightarrow> (case Option.bind at (read_number 16 (Some 4) True 65535) of
         None \<Rightarrow> (i, False, s) | Some r \<Rightarrow> read_groups (i + 1) n r))"

definition read_ipv6 :: "string \<Rightarrow> string option" where
  "read_ipv6 s =
    (let (h, v4, s) = read_groups 0 8 s in
     if h = 8 then Some s else if v4 then None
     else Option.bind (read_char CHR '':'' s) (\<lambda>s. Option.bind (read_char CHR '':'' s)
       (\<lambda>s. Some (snd (snd (read_groups 0 (8 - (h + 1)) s))))))"

definition read_port :: "string \<Rightarrow> string option" where
  "read_port s = Option.bind (read_char CHR '':'' s) (read_number 10 None True 65535)"

definition read_bracketed :: "string \<Rightarrow> string option" where
  "read_bracketed s =
    Option.bind (read_char CHR ''['' s) (\<lambda>s. Option.bind (read_ipv6 s) (\<lambda>s.
      let s = (case Option.bind (read_char CHR ''%'' s) (read_number 10 None True U32_MAX) of Some r \<Rightarrow> r | None \<Rightarrow> s) in
      Option.bind (read_char CHR '']'' s) read_port))"

definition is_socket_addr :: "string \<Rightarrow> bool" where
  "is_socket_addr s =
    (case Option.bind (read_ipv4 s) read_port of
       Some r \<Rightarrow> r = [] | None \<Rightarrow> read_bracketed s = Some [])"

lemma socket_addr_examples:
  "is_socket_addr ''0.0.0.0:8080''" "is_socket_addr ''[::1]:8080''" "is_socket_addr ''[::ffff:1.2.3.4%1]:0''"
  "\<not> is_socket_addr ''localhost:8080''" "\<not> is_socket_addr ''01.0.0.0:80''" "\<not> is_socket_addr ''1.2.3.4:65536''"
  by code_simp+

section \<open>The report\<close>

record online_probe =
  op_source_id :: string
  op_kind :: string
  op_ok :: bool
  op_releases :: "nat option"
  op_not_modified :: bool
  op_error :: "string option"

record validation_report =
  vr_valid :: bool
  vr_sources :: nat
  vr_errors :: "string list"
  vr_warnings :: "string list"
  vr_probes :: "online_probe list"

record validate_options =
  vo_strict :: bool
  vo_online :: bool
  vo_source_filter :: "string option"

text \<open>A check only ever adds complaints to the report, so it is the list of what it adds.\<close>

datatype complaint = Error string | Warning string

fun complain :: "complaint \<Rightarrow> validation_report \<Rightarrow> validation_report" where
  "complain (Error m) r = r\<lparr>vr_valid := False, vr_errors := vr_errors r @ [m]\<rparr>"
| "complain (Warning m) r = r\<lparr>vr_warnings := vr_warnings r @ [m]\<rparr>"

definition error_when :: "bool \<Rightarrow> string \<Rightarrow> complaint list" where
  "error_when b m = (if b then [Error m] else [])"

definition warn_when :: "bool \<Rightarrow> string \<Rightarrow> complaint list" where
  "warn_when b m = (if b then [Warning m] else [])"

definition errors_in :: "complaint list \<Rightarrow> string list" where
  "errors_in cs = concat (map (\<lambda>c. case c of Error m \<Rightarrow> [m] | Warning _ \<Rightarrow> []) cs)"

definition warnings_in :: "complaint list \<Rightarrow> string list" where
  "warnings_in cs = concat (map (\<lambda>c. case c of Error _ \<Rightarrow> [] | Warning m \<Rightarrow> [m]) cs)"

lemma complaints_simps [simp]:
  "errors_in [] = []" "errors_in (Error m # cs) = m # errors_in cs" "errors_in (Warning m # cs) = errors_in cs"
  "errors_in (cs @ ds) = errors_in cs @ errors_in ds"
  "warnings_in [] = []" "warnings_in (Error m # cs) = warnings_in cs" "warnings_in (Warning m # cs) = m # warnings_in cs"
  "warnings_in (cs @ ds) = warnings_in cs @ warnings_in ds"
  "errors_in (error_when b m) = (if b then [m] else [])" "errors_in (warn_when b m) = []"
  "warnings_in (error_when b m) = []" "warnings_in (warn_when b m) = (if b then [m] else [])"
  by (simp_all add: errors_in_def warnings_in_def error_when_def warn_when_def)

lemma errors_in_concat: "errors_in (concat xss) = concat (map errors_in xss)"
  by (induction xss) simp_all

lemma noted:
  "fold complain cs r =
    r\<lparr>vr_valid := vr_valid r \<and> errors_in cs = [], vr_errors := vr_errors r @ errors_in cs,
      vr_warnings := vr_warnings r @ warnings_in cs\<rparr>"
proof (induction cs arbitrary: r)
  case (Cons c cs)
  then show ?case by (cases c) simp_all
qed simp

definition apply_strict :: "bool \<Rightarrow> validation_report \<Rightarrow> validation_report" where
  "apply_strict strict r =
    (if strict \<and> vr_warnings r \<noteq> [] then
       r\<lparr>vr_valid := False, vr_errors := vr_errors r @ map (\<lambda>w. ''strict: '' @ w) (vr_warnings r)\<rparr>
     else r)"

section \<open>Sinks\<close>

definition secret_env_named :: "string option \<Rightarrow> bool" where
  "secret_env_named name \<longleftrightarrow> trimmed_nonempty name \<noteq> None"

definition secret_configured :: "token_env \<Rightarrow> string \<Rightarrow> string option \<Rightarrow> string \<Rightarrow> bool" where
  "secret_configured env inline name global \<longleftrightarrow>
    live_secret inline \<or> secret_env_named name \<or> global \<noteq> [] \<and> env_token env global \<noteq> None"

definition notifier_prefix :: "nat \<Rightarrow> string \<Rightarrow> string" where
  "notifier_prefix i kind = ''notifiers['' @ show_nat i @ ''] ('' @ kind @ ''): ''"

definition must_not_be_empty :: "string \<Rightarrow> string" where
  "must_not_be_empty field = quoted field @ '' must not be empty''"

definition validate_apprise_fields :: "apprise_cfg \<Rightarrow> complaint list" where
  "validate_apprise_fields n =
    error_when (xa_format n \<notin> {''markdown'', ''text'', ''html''})
      (''apprise.format must be markdown|text|html, got '' @ quoted (xa_format n))
    @ error_when (trim (xa_endpoint n) = []) ''apprise.endpoint must not be empty''"

text \<open>The complaints about one sink, after its place and kind.\<close>

fun sink_complaints :: "token_env \<Rightarrow> (string \<Rightarrow> string) \<Rightarrow> notifier_config \<Rightarrow> complaint list" where
  "sink_complaints env at (Apprise_cfg n) =
    error_when (\<not> is_configured n)
      (at ''apprise'' @ ''set '' @ quoted ''urls'' @ '', '' @ quoted ''urls_env'' @ '', or '' @ quoted ''config_key'')
    @ validate_apprise_fields n"
| "sink_complaints env at (Webhook_cfg n) =
    error_when (\<not> secret_configured env (xw_url n) (xw_url_env n) [])
      (at ''webhook'' @ ''set '' @ quoted ''url'' @ '' or '' @ quoted ''url_env'')"
| "sink_complaints env at (Express_cfg n) =
    error_when (trim (xe_base_url n) = []) (at ''express'' @ must_not_be_empty ''base_url'')
    @ error_when (trim (xe_group_chat_id n) = []) (at ''express'' @ must_not_be_empty ''group_chat_id'')
    @ error_when (\<not> secret_configured env (xe_access_token n) (xe_access_token_env n) ''XRELEASE_EXPRESS_ACCESS_TOKEN'')
      (at ''express'' @ ''set '' @ quoted ''access_token'' @ '' or '' @ quoted ''access_token_env''
        @ '' (Bearer for POST /api/v4/botx/notifications/direct) '' @ em_dash @ '' HMAC/GET /token is not used'')"
| "sink_complaints env at (Novu_cfg n) =
    error_when (trim (xv_base_url n) = []) (at ''novu'' @ must_not_be_empty ''base_url'')
    @ error_when (trim (xv_workflow n) = []) (at ''novu'' @ must_not_be_empty ''workflow'')
    @ error_when (trimmed_nonempty (xv_topic_key n) = None \<and> trimmed_nonempty (xv_subscriber_id n) = None)
      (at ''novu'' @ ''set '' @ quoted ''topic_key'' @ '' or '' @ quoted ''subscriber_id'' @ '' (Novu Topic or Subscriber target)'')
    @ error_when (\<not> secret_configured env (xv_api_key n) (xv_api_key_env n) ''XRELEASE_NOVU_API_KEY'')
      (at ''novu'' @ ''set '' @ quoted ''api_key'' @ '' or '' @ quoted ''api_key_env'' @ '' (or '' @ quoted ''XRELEASE_NOVU_API_KEY'' @ '')'')"
| "sink_complaints env at (Slack_cfg n) =
    (let webhook = secret_configured env (xs_webhook_url n) (xs_webhook_url_env n) ''XRELEASE_SLACK_WEBHOOK_URL'';
         bot = secret_configured env (xs_bot_token n) (xs_bot_token_env n) ''XRELEASE_SLACK_BOT_TOKEN'' in
     if webhook \<and> bot then
       [Error (at ''slack'' @ ''set either '' @ quoted ''webhook_url'' @ ''/'' @ quoted ''webhook_url_env'' @ '' or ''
         @ quoted ''bot_token'' @ ''/'' @ quoted ''bot_token_env'' @ ''+'' @ quoted ''channel'' @ '', not both'')]
     else if \<not> webhook \<and> \<not> bot then
       [Error (at ''slack'' @ ''set '' @ quoted ''webhook_url'' @ '' (or env) or '' @ quoted ''bot_token'' @ ''+''
         @ quoted ''channel'' @ '' (or env)'')]
     else error_when (bot \<and> trim (xs_channel n) = [])
       (at ''slack'' @ must_not_be_empty ''channel'' @ '' when using '' @ quoted ''bot_token''))"
| "sink_complaints env at (Telegram_cfg n) =
    error_when (trim (xt_chat_id n) = []) (at ''telegram'' @ must_not_be_empty ''chat_id'')
    @ error_when (\<not> secret_configured env (xt_bot_token n) (xt_bot_token_env n) ''XRELEASE_TELEGRAM_BOT_TOKEN'')
      (at ''telegram'' @ ''set '' @ quoted ''bot_token'' @ '' or '' @ quoted ''bot_token_env''
        @ '' (or '' @ quoted ''XRELEASE_TELEGRAM_BOT_TOKEN'' @ '')'')
    @ (case trimmed_nonempty (xt_parse_mode n) of
         None \<Rightarrow> []
       | Some mode \<Rightarrow> error_when (mode \<notin> {''Markdown'', ''MarkdownV2'', ''HTML''})
           (at ''telegram'' @ quoted ''parse_mode'' @ '' must be Markdown|MarkdownV2|HTML, got '' @ quoted mode))"
| "sink_complaints env at (Smtp_cfg n) =
    error_when (trim (xm_host n) = []) (at ''smtp'' @ must_not_be_empty ''host'')
    @ error_when (trim (xm_from n) = []) (at ''smtp'' @ must_not_be_empty ''from'')
    @ error_when (xm_to n = []) (at ''smtp'' @ quoted ''to'' @ '' must contain at least one address'')
    @ warn_when (xm_username n \<noteq> None \<and> \<not> secret_configured env (xm_password n) (xm_password_env n) ''XRELEASE_SMTP_PASSWORD'')
      (at ''smtp'' @ quoted ''username'' @ '' is set but no password '' @ em_dash @ '' set '' @ quoted ''password'' @ '', ''
        @ quoted ''password_env'' @ '', or '' @ quoted ''XRELEASE_SMTP_PASSWORD'')"
| "sink_complaints env at (Kafka_cfg n) =
    error_when (xk_brokers n = []) (at ''kafka'' @ must_not_be_empty ''brokers'')
    @ error_when (trim (xk_topic n) = []) (at ''kafka'' @ must_not_be_empty ''topic'')"
| "sink_complaints env at (Nats_cfg n) =
    error_when (\<not> secret_configured env (xn_url n) (xn_url_env n) ''XRELEASE_NATS_URL'')
      (at ''nats'' @ ''set '' @ quoted ''url'' @ '' or '' @ quoted ''url_env'' @ '' (or '' @ quoted ''XRELEASE_NATS_URL'' @ '')'')
    @ error_when (trim (xn_subject n) = []) (at ''nats'' @ must_not_be_empty ''subject'')"
| "sink_complaints env at (Rabbitmq_cfg n) =
    error_when (\<not> secret_configured env (xr_url n) (xr_url_env n) ''XRELEASE_RABBITMQ_URL'')
      (at ''rabbitmq'' @ ''set '' @ quoted ''url'' @ '' or '' @ quoted ''url_env'' @ '' (or '' @ quoted ''XRELEASE_RABBITMQ_URL'' @ '')'')
    @ error_when (trim (xr_routing_key n) = []) (at ''rabbitmq'' @ must_not_be_empty ''routing_key'')"

definition validate_notifier_entry :: "token_env \<Rightarrow> nat \<Rightarrow> notifier_config \<Rightarrow> complaint list" where
  "validate_notifier_entry env i n = sink_complaints env (notifier_prefix i) n"

definition no_notifiers :: string where
  "no_notifiers = ''no notifiers configured: add one or more '' @ quoted ''[[notifiers]]'' @ '' / ''
    @ quoted ''notifiers:'' @ '' entries''"

definition validate_notifiers :: "token_env \<Rightarrow> config \<Rightarrow> complaint list" where
  "validate_notifiers env c =
    (if cf_notifiers c \<noteq> [] then []
     else if ledger_is_bootable (cf_config_api c) then
       [Warning (no_notifiers @ '' '' @ em_dash @ '' API/UI mode: process will idle until delivery channels are applied'')]
     else [Error no_notifiers])
    @ error_when (cf_apprise c \<noteq> apprise_default)
      (''top-level '' @ quoted ''[apprise]'' @ '' / '' @ quoted ''apprise:'' @ '' is removed; use '' @ quoted ''[[notifiers]]''
        @ '' with '' @ quoted (''type = '' @ [byte 34] @ ''apprise'' @ [byte 34]))
    @ concat (map2 (validate_notifier_entry env) [0..<length (cf_notifiers c)] (cf_notifiers c))"

section \<open>Infrastructure\<close>

definition validate_database :: "token_env \<Rightarrow> config \<Rightarrow> complaint list" where
  "validate_database env c =
    error_when (trim (dbc_postgres_url (cf_database c)) = []
        \<and> (case te_var env ''XRELEASE_DATABASE_URL'' of Some url \<Rightarrow> trim url = [] | None \<Rightarrow> True))
      ''database.postgres_url is required (or set XRELEASE_DATABASE_URL)''
    @ warn_when (0 < dbc_prune_interval_hours (cf_database c) \<and> dbc_prune_seen_after_days (cf_database c) = 0
        \<and> dbc_prune_webhooks_after_days (cf_database c) = 0)
      (''database.prune_interval_hours is set but no prune_*_after_days '' @ em_dash @ '' periodic prune will not run'')"

definition key_env_present :: "token_env \<Rightarrow> bool" where
  "key_env_present env \<longleftrightarrow>
    (case te_var env ''XRELEASE_CONFIG_ENCRYPTION_KEY'' of Some v \<Rightarrow> trim v \<noteq> [] | None \<Rightarrow> False)"

definition api_source :: string where
  "api_source = ''source = '' @ [byte 34] @ ''api'' @ [byte 34]"

definition validate_config_api :: "token_env \<Rightarrow> config \<Rightarrow> complaint list" where
  "validate_config_api env c =
    (let ca = cf_config_api c; api = (ca_source ca = Api_ledger) in
     error_when (api \<and> \<not> ca_api_config ca)
       (''config_api: '' @ api_source @ '' requires api_config = true (ledger authority needs apply/rollback routes)'')
     @ error_when (ca_ui_config ca \<and> \<not> (ca_api_config ca \<and> api))
       (''config_api: ui_config = true requires api_config = true and '' @ api_source)
     @ (if \<not> api \<or> key_env_present env then []
        else if plaintext_ledger_allowed env then
          [Warning (''config_api: '' @ api_source @ '' with XRELEASE_ALLOW_PLAINTEXT_CONFIG_LEDGER '' @ em_dash
            @ '' app_secret values are stored as plaintext; set XRELEASE_CONFIG_ENCRYPTION_KEY for production'')]
        else
          [Error (''config_api: '' @ api_source @ '' requires XRELEASE_CONFIG_ENCRYPTION_KEY ''
            @ ''(AES-256-GCM seals app_secret values). Generate with '' @ quoted ''openssl rand -base64 32''
            @ ''. Lab-only escape: XRELEASE_ALLOW_PLAINTEXT_CONFIG_LEDGER=1'')]))"

definition env_filled :: "token_env \<Rightarrow> string \<Rightarrow> bool" where
  "env_filled env var \<longleftrightarrow> (case te_var env var of Some v \<Rightarrow> v \<noteq> [] | None \<Rightarrow> False)"

definition has_credentials :: "token_env \<Rightarrow> api_config \<Rightarrow> bool" where
  "has_credentials env a \<longleftrightarrow>
    (ap_api_key a \<noteq> None \<or> te_var env ''XRELEASE_API_KEY'' \<noteq> None)
    \<or> (nonempty_option (od_issuer (ap_oidc a)) \<noteq> None \<or> env_filled env ''XRELEASE_OIDC_ISSUER'')
    \<or> (local_auth_configured a \<or> env_filled env ''XRELEASE_SESSION_SECRET'')"

definition validate_api :: "token_env \<Rightarrow> config \<Rightarrow> complaint list" where
  "validate_api env c =
    (let a = cf_api c in
     error_when (\<not> is_socket_addr (ap_listen a)) (''api.listen is not a valid socket address: '' @ quoted (ap_listen a))
     @ warn_when (ap_webhook_secret a = None \<and> te_var env ''XRELEASE_WEBHOOK_SECRET'' = None)
       (''api.webhook_secret is not set '' @ em_dash @ '' webhook signature verification is disabled'')
     @ (if has_credentials env a then []
        else if ap_require_auth a then
          [Error (''api.require_auth is true but api.api_key, api.oidc, and local session secret are unset '' @ em_dash
            @ '' set a bearer secret, OIDC issuer, or XRELEASE_SESSION_SECRET (or set require_auth = false for lab-only)'')]
        else
          [Warning (''api.require_auth is false and no credentials are set '' @ em_dash
            @ '' management routes are unauthenticated (default is require_auth = true)'')])
     @ warn_when (ap_rate_limit_per_minute a = 0) ''api.rate_limit_per_minute = 0 disables HTTP rate limiting'')"

definition validate_defaults :: "config \<Rightarrow> complaint list" where
  "validate_defaults c =
    error_when (df_interval_secs (cf_defaults c) = 0) ''defaults.interval_secs must be > 0''
    @ warn_when (df_upstream_requests_per_minute (cf_defaults c) = 0 \<and> 20 < length (cf_sources c))
      (''defaults.upstream_requests_per_minute = 0 with many sources '' @ em_dash
        @ '' consider setting a global upstream cap (e.g. 60)'')"

section \<open>Routing\<close>

definition right_quote :: string where
  "right_quote = [byte 226, byte 128, byte 153]"

definition notifier_tags :: "config \<Rightarrow> string list" where
  "notifier_tags c = concat (map routing_tags (cf_notifiers c))"

definition wildcard_notifier :: "config \<Rightarrow> bool" where
  "wildcard_notifier c \<longleftrightarrow> list_ex (\<lambda>n. routing_tags n = []) (cf_notifiers c)"

definition in_catalog :: "config \<Rightarrow> string \<Rightarrow> bool" where
  "in_catalog c tag \<longleftrightarrow> cf_teams c = [] \<or> tag \<in> tm_tag ` set (cf_teams c)"

definition has_sink :: "config \<Rightarrow> string \<Rightarrow> bool" where
  "has_sink c tag \<longleftrightarrow> wildcard_notifier c \<or> tag \<in> set (notifier_tags c)"

text \<open>The tag after the preset; a preset that is not known is a complaint of the sources.\<close>

definition effective_tag :: "config \<Rightarrow> source_config \<Rightarrow> string option" where
  "effective_tag c s =
    (case with_preset_resolved (effective_source_presets (cf_presets c)) (source_label s) (common_of s) of
       Inr common \<Rightarrow> inherit (so_routing_tag common) (source_routing_tag s)
     | Inl _ \<Rightarrow> source_routing_tag s)"

definition available_tags :: "config \<Rightarrow> string" where
  "available_tags c =
    (if notifier_tags c = [] then
       ''(none '' @ em_dash @ '' add tags on a channel, or leave a channel'' @ right_quote @ ''s tags empty for wildcard)''
     else join_with '', '' (sort_names (notifier_tags c)))"

text \<open>A tag that no sink hears: an error once there is any sink.\<close>

definition unheard :: "config \<Rightarrow> string \<Rightarrow> string \<Rightarrow> complaint" where
  "unheard c message hint = (if cf_notifiers c \<noteq> [] then Error message else Warning (message @ '' '' @ em_dash @ hint))"

definition source_routing_complaints :: "config \<Rightarrow> source_config \<Rightarrow> complaint list" where
  "source_routing_complaints c s =
    (let source = ''source '' @ quoted (source_label s) in
     case effective_tag c s of
       None \<Rightarrow>
         warn_when (\<not> wildcard_notifier c \<and> notifier_tags c \<noteq> [])
           (source @ '' has no routing_tag '' @ em_dash @ '' only wildcard notifiers will receive its events'')
     | Some tag \<Rightarrow>
         if trim tag = [] then [Warning (source @ '' has an empty routing_tag'')]
         else
           warn_when (\<not> in_catalog c tag)
             (source @ '' uses routing_tag '' @ quoted tag @ '' which is not listed in [[teams]]'')
           @ (if has_sink c tag then []
              else [unheard c (source @ '' routing_tag '' @ quoted tag @ '' has no matching notifier '' @ em_dash
                  @ '' channel tags: ['' @ available_tags c @ '']; select '' @ quoted tag @ '' on a channel, or clear a channel''
                  @ right_quote @ ''s tags (wildcard)'')
                '' no delivery channels yet; notifications will start after a channel is applied'']))"

definition ops_tag :: "config \<Rightarrow> string option" where
  "ops_tag c = trimmed_nonempty (df_ops_routing_tag (cf_defaults c))"

definition ops_complaints :: "config \<Rightarrow> complaint list" where
  "ops_complaints c =
    (case ops_tag c of
       None \<Rightarrow> []
     | Some tag \<Rightarrow>
         (let ops = ''defaults.ops_routing_tag '' @ quoted tag in
          warn_when (\<not> in_catalog c tag) (ops @ '' is not listed in [[teams]]'')
          @ (if has_sink c tag then []
             else [unheard c (ops @ '' has no matching notifier '' @ em_dash
                 @ '' meta-alerts on dead outbox / tripped breakers will fail to deliver'')
               '' no delivery channels yet; set a matching channel before relying on ops alerts''])))"

definition used_team_tags :: "config \<Rightarrow> string set" where
  "used_team_tags c =
    set (filter (\<lambda>t. trim t \<noteq> []) (List.map_filter (effective_tag c) (cf_sources c))) \<union> set_option (ops_tag c)"

definition validate_team_routing :: "config \<Rightarrow> complaint list" where
  "validate_team_routing c =
    concat (map (\<lambda>t. error_when (trim (tm_tag t) = []) ''teams[].tag must not be empty'') (cf_teams c))
    @ concat (map (source_routing_complaints c) (cf_sources c))
    @ ops_complaints c
    @ concat (map (\<lambda>t. let tag = trim (tm_tag t) in
        warn_when (tag \<noteq> [] \<and> tag \<notin> used_team_tags c \<and> tag \<notin> set (notifier_tags c))
          (''teams tag '' @ quoted tag @ '' is unused by sources and notifiers'')) (cf_teams c))"

section \<open>Sources\<close>

definition source_preset_name :: "source_config \<Rightarrow> string option" where
  "source_preset_name s = trimmed_nonempty (so_preset (common_of s))"

definition preset_complaints :: "config \<Rightarrow> source_config \<Rightarrow> complaint list" where
  "preset_complaints c s =
    (case source_preset_name s of
       None \<Rightarrow> []
     | Some name \<Rightarrow>
         error_when (map_of (effective_source_presets (cf_presets c)) name = None)
           (''source '' @ quoted (source_label s) @ '': unknown preset '' @ quoted name
             @ '' (not a built-in and not listed under '' @ quoted ''presets'' @ '')''))"

fun watch_complaints :: "string list \<Rightarrow> watch list \<Rightarrow> complaint list" where
  "watch_complaints seen [] = []"
| "watch_complaints seen (w # ws) =
    (let i = provider_id (wt_provider w) in
     error_when (i \<in> set seen)
       (''duplicate source id '' @ quoted i @ '' '' @ em_dash @ '' set explicit '' @ quoted ''id'' @ '' on one of the blocks'')
     @ error_when (wt_interval w = 0) (''source '' @ quoted i @ '': interval_secs must be > 0'')
     @ watch_complaints (i # seen) ws)"

definition validate_sources :: "build_libs \<Rightarrow> config \<Rightarrow> complaint list" where
  "validate_sources lib c =
    warn_when (cf_sources c = []) (''no [[sources]] configured '' @ em_dash @ '' backend will idle'')
    @ concat (map (preset_complaints c) (cf_sources c))
    @ concat (map (\<lambda>(name, _). warn_when (name \<notin> set (List.map_filter source_preset_name (cf_sources c)))
        (''preset '' @ quoted name @ '' is unused by any source'')) (cf_presets c))
    @ (case to_watches lib c of
         Inl e \<Rightarrow> [Error (''failed to build watches: '' @ e)]
       | Inr ws \<Rightarrow>
           watch_complaints [] ws
           @ map Warning (List.map_filter (source_lint (bl_env lib) (effective_source_presets (cf_presets c)))
               (cf_sources c)))"

section \<open>Validation\<close>

definition complaints :: "build_libs \<Rightarrow> config \<Rightarrow> complaint list" where
  "complaints lib c =
    validate_notifiers (bl_env lib) c @ validate_database (bl_env lib) c @ validate_config_api (bl_env lib) c
    @ validate_team_routing c @ validate_api (bl_env lib) c @ validate_defaults c @ validate_sources lib c"

definition validate_full :: "build_libs \<Rightarrow> config \<Rightarrow> validation_report" where
  "validate_full lib c =
    fold complain (complaints lib c)
      \<lparr>vr_valid = True, vr_sources = length (cf_sources c), vr_errors = [], vr_warnings = [], vr_probes = []\<rparr>"

text \<open>The probes: each source that passes the filter is fetched once.\<close>

definition probe_of :: "watch \<Rightarrow> source_error + 'v fetch_outcome \<Rightarrow> online_probe" where
  "probe_of w answer =
    \<lparr>op_source_id = provider_id (wt_provider w), op_kind = provider_kind (wt_provider w),
     op_ok = (\<exists>x. answer = Inr x),
     op_releases = (case answer of Inr x \<Rightarrow> Some (length (fo_releases x)) | Inl _ \<Rightarrow> None),
     op_not_modified = (case answer of Inr x \<Rightarrow> fo_not_modified x | Inl _ \<Rightarrow> False),
     op_error = (case answer of Inr _ \<Rightarrow> None | Inl e \<Rightarrow> Some (show_source_error e))\<rparr>"

definition probe_sources ::
  "build_libs \<Rightarrow> fetch_env \<Rightarrow> 'v source_libs \<Rightarrow> http \<Rightarrow> config \<Rightarrow> validate_options \<Rightarrow> online_probe list" where
  "probe_sources lib env libs http c opts =
    (case to_watches lib c of
       Inl _ \<Rightarrow> []
     | Inr ws \<Rightarrow>
         map (\<lambda>w. probe_of w (provider_fetch env libs http (wt_provider w) None))
           (filter (\<lambda>w. case vo_source_filter opts of None \<Rightarrow> True | Some i \<Rightarrow> provider_id (wt_provider w) = i) ws))"

definition merge_probes :: "online_probe list \<Rightarrow> validation_report \<Rightarrow> validation_report" where
  "merge_probes probes r =
    (fold complain
      (concat (map (\<lambda>p. error_when (\<not> op_ok p) (''online probe '' @ quoted (op_source_id p) @ '' failed: ''
         @ (case op_error p of Some e \<Rightarrow> e | None \<Rightarrow> ''unknown error''))) probes)) r)\<lparr>vr_probes := probes\<rparr>"

section \<open>What a valid configuration guarantees\<close>

lemma validate_full_report:
  "validate_full lib c =
    \<lparr>vr_valid = (errors_in (complaints lib c) = []), vr_sources = length (cf_sources c),
     vr_errors = errors_in (complaints lib c), vr_warnings = warnings_in (complaints lib c), vr_probes = []\<rparr>"
  by (simp add: validate_full_def noted)

lemma no_errors:
  assumes "vr_valid (validate_full lib c)"
  shows "errors_in (validate_sources lib c) = []" "errors_in (validate_team_routing c) = []"
    "errors_in (validate_api (bl_env lib) c) = []" "errors_in (validate_notifiers (bl_env lib) c) = []"
  using assms by (simp_all add: validate_full_report complaints_def)

lemma watch_complaints_none:
  assumes "errors_in (watch_complaints seen ws) = []"
  shows "distinct (map (\<lambda>w. provider_id (wt_provider w)) ws) \<and> (\<forall>w \<in> set ws. provider_id (wt_provider w) \<notin> set seen \<and> 0 < wt_interval w)"
  using assms
proof (induction ws arbitrary: seen)
  case (Cons v ws)
  then have "errors_in (watch_complaints (provider_id (wt_provider v) # seen) ws) = []"
    and "provider_id (wt_provider v) \<notin> set seen" "0 < wt_interval v"
    by (simp_all add: Let_def split: if_splits)
  then show ?case using Cons.IH [of "provider_id (wt_provider v) # seen"] by auto
qed simp

lemma watches_line_up: "to_watches lib c = Inr ws \<Longrightarrow> length ws = length (cf_sources c)"
  unfolding to_watches_def collect_Inr by (metis length_map)

text \<open>
  C25: A valid configuration can run: its watches are built, one for each source, their ids are
  distinct, and every watch has a poll interval.
\<close>

theorem valid_configuration_runs:
  assumes "vr_valid (validate_full lib c)"
  shows "\<exists>ws. to_watches lib c = Inr ws \<and> length ws = length (cf_sources c)
    \<and> distinct (map (\<lambda>w. provider_id (wt_provider w)) ws) \<and> (\<forall>w \<in> set ws. 0 < wt_interval w)"
proof (cases "to_watches lib c")
  case (Inl e)
  then show ?thesis using no_errors(1) [OF assms] by (simp add: validate_sources_def)
next
  case (Inr ws)
  then have "errors_in (watch_complaints [] ws) = []"
    using no_errors(1) [OF assms] by (simp add: validate_sources_def)
  from watch_complaints_none [OF this] show ?thesis using Inr watches_line_up by auto
qed

text \<open>The tag that a watch carries is the one that was validated.\<close>

lemma preset_any_id:
  "with_preset_resolved ps i c = Inr c' \<Longrightarrow> with_preset_resolved ps j c = Inr c'"
  by (auto simp: with_preset_resolved_def Let_def split: option.splits if_splits)

lemma build_watch_routing:
  assumes "build_watch x i p c = Inr w"
  shows "\<exists>c'. with_preset_resolved (bx_presets x) j c = Inr c' \<and> wt_routing_tag w = so_routing_tag c'"
proof (cases "with_preset_resolved (bx_presets x) i c")
  case (Inl e)
  then show ?thesis using assms by (simp add: build_watch_def)
next
  case (Inr c')
  moreover have "wt_routing_tag w = so_routing_tag c'"
    using assms Inr
    by (cases "build_filter (bx_regex x) i c'"; cases "resolve_notify_schedule (bx_cron x) c' (bx_defaults x)")
      (auto simp: build_watch_def common_schedule_def)
  ultimately show ?thesis using preset_any_id by blast
qed

lemma into_watch_routing:
  assumes "into_watch x s = Inr w"
  shows "\<exists>c'. with_preset_resolved (bx_presets x) j (common_of s) = Inr c' \<and> wt_routing_tag w = so_routing_tag c'"
  using assms
  by (cases s)
    (auto simp: build_gitea_watch_def build_package_watch_def build_container_watch_def container_watch_def
      Let_def dest: build_watch_routing [where j = j]
      split: sum.splits gitea_preset_cfg.splits)

lemma watch_tag:
  assumes "source_watch (build_ctx_of lib c) s = Inr w"
  shows "wt_routing_tag w = effective_tag c s"
proof -
  obtain u where u: "into_watch (build_ctx_of lib c) s = Inr u" and w: "wt_routing_tag w = wt_routing_tag u"
    using assms by (auto simp: source_watch_def split: sum.splits)
  from into_watch_routing [OF u, of "source_label s"] obtain c' where
    c': "with_preset_resolved (effective_source_presets (cf_presets c)) (source_label s) (common_of s) = Inr c'"
      and tag: "wt_routing_tag u = so_routing_tag c'"
    by (auto simp: build_ctx_of_def)
  have "so_routing_tag c' = None \<Longrightarrow> source_routing_tag s = None"
    using preset_keeps_tag [OF c'] by (cases "source_routing_tag s") (auto simp: source_routing_tag_def)
  then show ?thesis by (cases "so_routing_tag c'") (simp_all add: effective_tag_def c' inherit_def w tag)
qed

text \<open>
  C26: A tagged source of a valid configuration with sinks is heard: for every watch with a routing
  tag that is not blank there is a sink that the tag reaches.
\<close>

theorem valid_tags_are_heard:
  assumes "vr_valid (validate_full lib c)" and "to_watches lib c = Inr ws" and "w \<in> set ws"
    and "trimmed_nonempty (wt_routing_tag w) \<noteq> None" and "cf_notifiers c \<noteq> []"
  shows "\<exists>n \<in> set (cf_notifiers c). matches_routing_tags (routing_tags n) (wt_routing_tag w)"
proof -
  obtain s where s: "s \<in> set (cf_sources c)" "source_watch (build_ctx_of lib c) s = Inr w"
    using watch_of_source assms(2,3) by blast
  obtain t where t: "effective_tag c s = Some t" "trim t \<noteq> []"
    using assms(4) watch_tag [OF s(2)] by (auto simp: trimmed_nonempty_def split: option.splits if_splits)
  have "errors_in (source_routing_complaints c s) = []"
    using no_errors(2) [OF assms(1)] s(1) by (auto simp: validate_team_routing_def errors_in_concat)
  then have "has_sink c t"
    using assms(5) t by (cases "has_sink c t") (simp_all add: source_routing_complaints_def unheard_def)
  then show ?thesis
    using t watch_tag [OF s(2)]
    by (force simp: has_sink_def wildcard_notifier_def notifier_tags_def matches_routing_tags_def trimmed_nonempty_def
        list_ex_iff)
qed

text \<open>
  Strict validation accepts exactly the configurations that no check complains about.
\<close>

theorem strict_means_no_complaint:
  "vr_valid (apply_strict True (validate_full lib c)) \<longleftrightarrow> complaints lib c = []"
proof -
  have "errors_in cs = [] \<and> warnings_in cs = [] \<longleftrightarrow> cs = []" for cs
  proof (cases cs)
    case (Cons d ds)
    then show ?thesis by (cases d) simp_all
  qed simp
  then show ?thesis by (auto simp: apply_strict_def validate_full_report)
qed

section \<open>Starting to serve\<close>

text \<open>
  What an instance refuses to start with (\<^verbatim>\<open>runtime.rs\<close> and \<^verbatim>\<open>api/mod.rs\<close>,
  \<^verbatim>\<open>serve\<close>), in the order of the checks.
\<close>

definition serve_checks :: "token_env \<Rightarrow> config \<Rightarrow> string + unit" where
  "serve_checks env c =
    (if \<not> auth_configured (cf_api c) \<and> ap_require_auth (cf_api c) then
       Inl (''api.require_auth is set but no management authentication is configured '' @ em_dash
         @ '' set api.api_key, api.oidc.issuer, or XRELEASE_SESSION_SECRET ''
         @ ''(or set api.require_auth = false for trusted lab-only)'')
     else if \<not> is_socket_addr (ap_listen (cf_api c)) then
       Inl (''invalid api.listen '' @ quoted (ap_listen (cf_api c)))
     else if ca_api_config (cf_config_api c) \<and> \<not> config_apply_auth_configured (auth_configured (cf_api c)) (hmac_configured env) then
       Inl (''config_api.api_config is set but no authentication guards it at all '' @ em_dash
         @ '' set api.api_key, api.oidc.issuer, XRELEASE_SESSION_SECRET, or XRELEASE_CONFIG_APPLY_SECRET before enabling ''
         @ ''POST /api/v1/config/apply and /config/rollback (unauthenticated, they let anyone hijack notification delivery)'')
     else Inr ())"

text \<open>The state the handlers share: an identity provider is asked exactly when an issuer is set.\<close>

definition started_with :: "config \<Rightarrow> api_state \<Rightarrow> bool" where
  "started_with c st \<longleftrightarrow> as_api st = cf_api c \<and> as_config_api st = cf_config_api c
    \<and> (as_oidc st = None \<longleftrightarrow> nonempty_option (od_issuer (ap_oidc (cf_api c))) = None)"

text \<open>
  C27: An instance that serves with required authentication takes no request for an anonymous one,
  whatever its headers are.
\<close>

theorem serving_is_authenticated:
  assumes "serve_checks env c = Inr ()" and "ap_require_auth (cf_api c)" and "started_with c st"
  shows "fst (resolve_auth_principal lib st h w) \<noteq> Inr Anonymous"
proof -
  have "auth_configured (cf_api c)"
    using assms(1,2) by (auto simp: serve_checks_def split: if_splits)
  then have configured: "\<not> (nonempty_option (ap_api_key (as_api st)) = None \<and> as_oidc st = None \<and> verification_secret (as_api st) = None)"
    using assms(3) by (auto simp: auth_configured_def started_with_def local_auth_configured_def session_secret_def
        verification_secret_def nonempty_option_def)
  have session: "fst (session_principal k w) \<noteq> Inr Anonymous" for k
    by (auto simp: session_principal_def split: prod.split sum.split)
  have oidc: "try_oidc lib st token \<noteq> Inr Anonymous" for token
    by (auto simp: try_oidc_def oidc_principal_def split: option.split sum.split)
  show ?thesis
    using configured session oidc
    unfolding resolve_auth_principal_def Let_def
    by (auto split: option.split)
qed

section \<open>Examples\<close>

definition example_valid :: config where
  "example_valid =
    config_default\<lparr>cf_database := database_default\<lparr>dbc_postgres_url := ''postgres://db/x''\<rparr>,
      cf_api := api_default\<lparr>ap_require_auth := False\<rparr>,
      cf_notifiers := [Telegram_cfg (example_telegram\<lparr>xt_tags := [''core'']\<rparr>)],
      cf_sources := [example_source (empty_common\<lparr>so_routing_tag := Some ''core''\<rparr>)]\<rparr>"

lemma example_valid_report: "vr_valid (validate_full example_build example_valid)"
  by code_simp

lemma example_valid_watch:
  obtains w where "to_watches example_build example_valid = Inr [w]" "wt_routing_tag w = Some ''core''"
proof -
  obtain ws where ws: "to_watches example_build example_valid = Inr ws" "length ws = length (cf_sources example_valid)"
    using example_valid_report by (auto simp: validate_full_report complaints_def validate_sources_def dest: watches_line_up split: sum.splits)
  have "length (cf_sources example_valid) = 1" by (simp add: example_valid_def)
  then obtain w where w: "ws = [w]" using ws(2) by (cases ws) auto
  obtain s where s: "s \<in> set (cf_sources example_valid)" "source_watch (build_ctx_of example_build example_valid) s = Inr w"
    using watch_of_source [OF ws(1), of w] w by auto
  have "effective_tag example_valid (example_source (empty_common\<lparr>so_routing_tag := Some ''core''\<rparr>)) = Some ''core''"
    by code_simp
  moreover have "s = example_source (empty_common\<lparr>so_routing_tag := Some ''core''\<rparr>)"
    using s(1) by (simp add: example_valid_def)
  ultimately have "wt_routing_tag w = Some ''core''" using watch_tag [OF s(2)] by simp
  then show ?thesis using that ws w by blast
qed

text \<open>
  One tagged source and one sink with its tag.
\<close>

theorem valid_configuration_runs_witness:
  "vr_valid (validate_full example_build example_valid)
    \<and> (\<exists>ws. to_watches example_build example_valid = Inr ws \<and> length ws = 1 \<and> (\<forall>w \<in> set ws. 0 < wt_interval w))"
  using example_valid_report valid_configuration_runs [OF example_valid_report] by (auto simp: example_valid_def)

text \<open>
  The watch of that source has the tag of the sink.
\<close>

theorem valid_tags_are_heard_witness:
  "\<exists>w. to_watches example_build example_valid = Inr [w] \<and> wt_routing_tag w = Some ''core''
    \<and> (\<exists>n \<in> set (cf_notifiers example_valid). matches_routing_tags (routing_tags n) (wt_routing_tag w))"
proof -
  obtain w where w: "to_watches example_build example_valid = Inr [w]" "wt_routing_tag w = Some ''core''"
    by (rule example_valid_watch)
  have "trimmed_nonempty (Some ''core'') \<noteq> None" by code_simp
  moreover have "cf_notifiers example_valid \<noteq> []" by (simp add: example_valid_def)
  ultimately show ?thesis
    using w valid_tags_are_heard [OF example_valid_report w(1), of w] by auto
qed

definition example_guarded :: config where
  "example_guarded = config_default\<lparr>cf_api := api_default\<lparr>ap_api_key := Some ''key''\<rparr>\<rparr>"

definition guarded_state :: api_state where
  "guarded_state = \<lparr>as_api = cf_api example_guarded, as_config_api = cf_config_api example_guarded, as_oidc = None,
     as_env = empty_env\<rparr>"

text \<open>The instance of the example with a key: no request to it is anonymous.\<close>

theorem serving_is_authenticated_witness:
  "serve_checks empty_env example_guarded = Inr () \<and> ap_require_auth (cf_api example_guarded)
    \<and> (\<forall>lib h w. fst (resolve_auth_principal lib guarded_state h w) \<noteq> Inr Anonymous)"
proof -
  have s: "serve_checks empty_env example_guarded = Inr ()" by code_simp
  have r: "ap_require_auth (cf_api example_guarded)" by (simp add: example_guarded_def api_default_def)
  have "started_with example_guarded guarded_state"
    by (simp add: started_with_def guarded_state_def example_guarded_def api_default_def oidc_default_def nonempty_option_def)
  from serving_is_authenticated [OF s r this] show ?thesis using s r by simp
qed

section \<open>What validation misses\<close>

text \<open>
  Secrets that are set to nothing pass: validation accepts a configuration with required
  authentication whose key and webhook secret are empty without a word, and the instance then refuses to
  start; with a session secret it starts, and its webhooks are not checked.
\<close>

theorem blank_secrets_pass_validation:
  "\<exists>a. let c = example_valid\<lparr>cf_api := a\<rparr>; d = c\<lparr>cf_api := a\<lparr>ap_local_auth := local_auth_default\<lparr>la_session_secret := Some ''s''\<rparr>\<rparr>\<rparr> in
     ap_require_auth a \<and> vr_valid (validate_full example_build c) \<and> validate_api empty_env c = []
     \<and> (\<exists>e. serve_checks empty_env c = Inl e)
     \<and> validate_api empty_env d = [] \<and> serve_checks empty_env d = Inr () \<and> \<not> webhook_auth_configured (cf_api d)"
proof -
  let ?a = "api_default\<lparr>ap_api_key := Some [], ap_webhook_secret := Some []\<rparr>"
  let ?c = "example_valid\<lparr>cf_api := ?a\<rparr>"
  let ?d = "?c\<lparr>cf_api := ?a\<lparr>ap_local_auth := local_auth_default\<lparr>la_session_secret := Some ''s''\<rparr>\<rparr>\<rparr>"
  have "ap_require_auth ?a" by (simp add: api_default_def)
  moreover have "vr_valid (validate_full example_build ?c)" by code_simp
  moreover have "validate_api empty_env ?c = []" by code_simp
  moreover have "isl (serve_checks empty_env ?c)" by code_simp
  moreover have "validate_api empty_env ?d = []" by code_simp
  moreover have "serve_checks empty_env ?d = Inr ()" by code_simp
  moreover have "\<not> webhook_auth_configured (cf_api ?d)" by code_simp
  ultimately show ?thesis by (intro exI [of _ ?a]) (simp add: Let_def isl_def)
qed

end
