(* ===== verification/Apply.thy ===== *)
theory Apply
  imports Validation
begin

text \<open>
  Applying a document (\<^verbatim>\<open>src/src/config_apply/mod.rs\<close>, with the hot-swap and the guards of
  \<^verbatim>\<open>api/config.rs\<close>): the candidate of a scope, its checks, the secrets, the swap, and the revision
  that records it.  The handlers hold one lock, so the operations here run one after the other.
\<close>

section \<open>Requests and answers\<close>

datatype apply_scope = Whole | Organization string

fun ledger_stream :: "apply_scope \<Rightarrow> string option" where
  "ledger_stream Whole = None"
| "ledger_stream (Organization org) = Some org"

datatype apply_error =
    Document_rejected string
  | Validation_rejected "nat option" validation_report
  | Nothing_to_roll_back_to
  | Server_error string

record apply_origin =
  ao_revision_label :: "string option"
  ao_applied_by :: "string option"
  ao_source_addr :: "string option"

record apply_response =
  ay_applied :: bool
  ay_sha :: string
  ay_revision :: nat
  ay_added :: "string list"
  ay_removed :: "string list"
  ay_changed :: "string list"
  ay_warnings :: "string list"

record apply_libs =
  yl_compose :: compose_libs
  yl_secret :: secret_lib
  yl_regex :: regex_lib
  yl_cron :: cron_lib
  yl_json :: json_texts

definition docs_of :: "apply_libs \<Rightarrow> doc_libs" where
  "docs_of lib = cl_docs (yl_compose lib)"

text \<open>What watches and sinks are built with, at a moment.\<close>

definition libs_at :: "apply_libs \<Rightarrow> config_world \<Rightarrow> build_libs" where
  "libs_at lib w = \<lparr>bl_regex = yl_regex lib, bl_cron = yl_cron lib, bl_env = env_of w, bl_json = yl_json lib\<rparr>"

definition content_sha256 :: "apply_libs \<Rightarrow> string \<Rightarrow> string" where
  "content_sha256 lib raw = cl_sha256 (yl_compose lib) raw"

section \<open>Swapping the runtime\<close>

text \<open>
  Every sink is built with its secrets as they are now; the endpoint of the environment is that of
  all Apprise sinks.  A client library may refuse to build one.
\<close>

definition built_sinks :: "token_env \<Rightarrow> json_texts \<Rightarrow> config \<Rightarrow> sink_options list" where
  "built_sinks env js c =
    map (\<lambda>n. case (n, trimmed_nonempty (te_var env ''XRELEASE_APPRISE_ENDPOINT'')) of
        (Apprise_cfg a, Some endpoint) \<Rightarrow> options_of env js (Apprise_cfg (a\<lparr>xa_endpoint := endpoint\<rparr>))
      | _ \<Rightarrow> options_of env js n) (cf_notifiers c)"

definition apply_runtime :: "apply_libs \<Rightarrow> config \<Rightarrow> config_world \<Rightarrow> (apply_error + unit) \<times> config_world" where
  "apply_runtime lib c w =
    (case to_watches (libs_at lib w) c of
       Inl e \<Rightarrow> (Inl (Server_error e), w)
     | Inr ws \<Rightarrow>
         (let n = gw_swaps w; w = w\<lparr>gw_swaps := n + 1\<rparr> in
          case gw_swap_fault w n of
            Some e \<Rightarrow> (Inl (Server_error e), w)
          | None \<Rightarrow> (Inr (), w\<lparr>gw_running := c, gw_watches := ws, gw_sinks := built_sinks (env_of w) (yl_json lib) c\<rparr>)))"

section \<open>Candidates\<close>

record scoped_candidate =
  sg_ledger_raw :: string
  sg_ledger_sha :: string
  sg_merged :: config
  sg_writes :: "secret_write list"
  sg_refs :: "string list"

definition merge_or_reject ::
  "apply_libs \<Rightarrow> token_env \<Rightarrow> config \<Rightarrow> string \<Rightarrow> desired_format option \<Rightarrow> apply_error + config" where
  "merge_or_reject lib env bootstrap raw hint =
    (case merge_pushed_document (docs_of lib) env bootstrap raw hint of
       Inl e \<Rightarrow> Inl (Document_rejected e) | Inr c \<Rightarrow> Inr c)"

definition effective_secret_rotations :: "vault \<Rightarrow> secret_write list \<Rightarrow> secret_write list" where
  "effective_secret_rotations v ws = filter (\<lambda>x. vault_get v (sx_name x) \<noteq> Some (sx_value x)) ws"

definition desired_state_for_ledger :: "config \<Rightarrow> config" where
  "desired_state_for_ledger m =
    config_default\<lparr>cf_defaults := cf_defaults m, cf_notifiers := cf_notifiers m, cf_teams := cf_teams m,
      cf_presets := cf_presets m, cf_sources := cf_sources m\<rparr>"

definition format_of :: "string \<Rightarrow> desired_format option \<Rightarrow> desired_format" where
  "format_of raw hint = (case hint of Some f \<Rightarrow> f | None \<Rightarrow> detect_desired_format raw)"

definition unknown_organization :: "string \<Rightarrow> string" where
  "unknown_organization org = ''unknown organization '' @ quoted org @ '' (not in [[organizations]])''"

definition find_organization :: "config \<Rightarrow> string \<Rightarrow> organization_config option" where
  "find_organization bootstrap org = find (\<lambda>o'. oc_id o' = org) (cf_organizations bootstrap)"

text \<open>The guards of an organization's file, on the pushed document.\<close>

definition guarded_document ::
  "apply_libs \<Rightarrow> string \<Rightarrow> desired_format option \<Rightarrow> apply_error + config" where
  "guarded_document lib raw hint =
    (case parse_desired_document_with_hint (docs_of lib) raw hint of
       Inl e \<Rightarrow> Inl (Document_rejected e)
     | Inr c \<Rightarrow> (case ensure_desired_only c of
         Inl e \<Rightarrow> Inl (Document_rejected e)
       | Inr _ \<Rightarrow>
           if has_desired_state c then Inr c
           else Inl (Document_rejected ''document defines no desired-state sections (sources / notifiers)'')))"

text \<open>The document with the secrets that its own stream had, and its printed form.\<close>

definition restore_org_candidate ::
  "apply_libs \<Rightarrow> config \<Rightarrow> string \<Rightarrow> string \<Rightarrow> desired_format option \<Rightarrow> config_world
     \<Rightarrow> (apply_error + config \<times> string) \<times> config_world" where
  "restore_org_candidate lib bootstrap org raw hint w =
    (case guarded_document lib raw hint of
       Inl e \<Rightarrow> (Inl e, w)
     | Inr c \<Rightarrow> (case find_organization bootstrap org of
         None \<Rightarrow> (Inl (Server_error (unknown_organization org)), w)
       | Some o' \<Rightarrow> (case organization_desired_raw bootstrap o' w of
           (Inl e, w) \<Rightarrow> (Inl (Server_error e), w)
         | (Inr (previous_raw, _), w) \<Rightarrow>
             (let c = (case parse_desired_document (docs_of lib) previous_raw of
                    Inr previous \<Rightarrow> fst (restore_redacted_secrets previous c) | Inl _ \<Rightarrow> c) in
              case serialize_desired_only_strict (docs_of lib) (format_of raw hint) c of
                Inl e \<Rightarrow> (Inl (Server_error e), w) | Inr body \<Rightarrow> (Inr (c, body), w)))))"

text \<open>The document with its secrets moved out: what the ledger keeps, and what it refers to.\<close>

definition candidate_of ::
  "apply_libs \<Rightarrow> string option \<Rightarrow> desired_format \<Rightarrow> config \<Rightarrow> apply_error + scoped_candidate" where
  "candidate_of lib stream format c =
    (let (desired, ws) = normalize_secrets_to_refs (yl_json lib) stream c in
     case serialize_desired_only_strict (docs_of lib) format desired of
       Inl e \<Rightarrow> Inl (Server_error e)
     | Inr body \<Rightarrow>
         Inr \<lparr>sg_ledger_raw = body, sg_ledger_sha = content_sha256 lib body, sg_merged = desired,
           sg_writes = ws, sg_refs = collect_secret_env_refs desired\<rparr>)"

definition whole_candidate ::
  "apply_libs \<Rightarrow> token_env \<Rightarrow> config \<Rightarrow> string \<Rightarrow> desired_format option \<Rightarrow> config option \<Rightarrow> apply_error + scoped_candidate" where
  "whole_candidate lib env bootstrap raw hint previous =
    (case merge_or_reject lib env bootstrap raw hint of
       Inl e \<Rightarrow> Inl e
     | Inr merged \<Rightarrow>
         (let merged = (case previous of Some p \<Rightarrow> fst (restore_redacted_secrets p merged) | None \<Rightarrow> merged) in
          case candidate_of lib None (format_of raw hint) (desired_state_for_ledger merged) of
            Inl e \<Rightarrow> Inl e
          | Inr k \<Rightarrow>
              (let d = sg_merged k in
               Inr (k\<lparr>sg_merged := merged\<lparr>cf_defaults := cf_defaults d, cf_notifiers := cf_notifiers d,
                 cf_teams := cf_teams d, cf_presets := cf_presets d, cf_sources := cf_sources d\<rparr>\<rparr>))))"

definition org_candidate ::
  "apply_libs \<Rightarrow> config \<Rightarrow> string \<Rightarrow> string \<Rightarrow> desired_format option \<Rightarrow> config_world
     \<Rightarrow> (apply_error + scoped_candidate) \<times> config_world" where
  "org_candidate lib bootstrap org raw hint w =
    (case restore_org_candidate lib bootstrap org raw hint w of
       (Inl e, w) \<Rightarrow> (Inl e, w)
     | (Inr (c, _), w) \<Rightarrow> (case candidate_of lib (Some org) (format_of raw hint) c of
         Inl e \<Rightarrow> (Inl e, w)
       | Inr k \<Rightarrow> (case compose_organizations (yl_compose lib) bootstrap (Some (org, sg_ledger_raw k)) w of
           (Inl e, w) \<Rightarrow> (Inl (Server_error e), w)
         | (Inr composed, w) \<Rightarrow> (Inr (k\<lparr>sg_merged := co_merged composed\<rparr>), w))))"

definition resolve_scoped_candidate ::
  "apply_libs \<Rightarrow> config \<Rightarrow> string \<Rightarrow> desired_format option \<Rightarrow> apply_scope \<Rightarrow> config option \<Rightarrow> config_world
     \<Rightarrow> (apply_error + scoped_candidate) \<times> config_world" where
  "resolve_scoped_candidate lib bootstrap raw hint scope previous w =
    (case scope of
       Whole \<Rightarrow> (whole_candidate lib (env_of w) bootstrap raw hint previous, w)
     | Organization org \<Rightarrow> org_candidate lib bootstrap org raw hint w)"

section \<open>Recording\<close>

definition record_attempt ::
  "string \<Rightarrow> string \<Rightarrow> apply_origin \<Rightarrow> revision_status \<Rightarrow> string option \<Rightarrow> string option \<Rightarrow> config_world
     \<Rightarrow> (apply_error + nat) \<times> config_world" where
  "record_attempt raw sha origin status err stream w =
    (case append_revision
        \<lparr>ci_content = raw, ci_sha = sha, ci_label = ao_revision_label origin, ci_applied_by = ao_applied_by origin,
         ci_source_addr = ao_source_addr origin, ci_status = status, ci_error = err, ci_org = stream\<rparr> w of
       (Inl e, w) \<Rightarrow> (Inl (Server_error ''recording config revision''), w)
     | (Inr i, w) \<Rightarrow> (Inr i, w))"

text \<open>What is recorded of a rejected document: its form without secrets, or nothing of it.\<close>

definition rejected_ledger_body :: "apply_libs \<Rightarrow> string \<Rightarrow> string option \<Rightarrow> string \<times> string" where
  "rejected_ledger_body lib raw stream =
    (let body = (case normalize_document_for_storage (docs_of lib) (yl_json lib) raw stream of
        Inr (content, _) \<Rightarrow> content | Inl _ \<Rightarrow> EMPTY_ORGANIZATION_DOCUMENT) in
     (body, content_sha256 lib body))"

definition apply_error_text :: "apply_error \<Rightarrow> string" where
  "apply_error_text e =
    (case e of
       Document_rejected m \<Rightarrow> m
     | Validation_rejected (Some i) _ \<Rightarrow> ''config validation failed (revision '' @ show_nat i @ '')''
     | Validation_rejected None _ \<Rightarrow> ''config validation failed''
     | Nothing_to_roll_back_to \<Rightarrow> ''no earlier applied revision to roll back to''
     | Server_error m \<Rightarrow> m)"

text \<open>A candidate that cannot be made: recorded, when the fault is the document's.\<close>

definition reject_document ::
  "apply_libs \<Rightarrow> string \<Rightarrow> apply_origin \<Rightarrow> string option \<Rightarrow> apply_error \<Rightarrow> config_world
     \<Rightarrow> apply_error \<times> config_world" where
  "reject_document lib raw origin stream e w =
    (case e of
       Document_rejected m \<Rightarrow>
         (let (body, sha) = rejected_ledger_body lib raw stream in
          case record_attempt body sha origin Rejected_revision (Some m) stream w of
            (Inl e, w) \<Rightarrow> (e, w)
          | (Inr i, w) \<Rightarrow> (Document_rejected (m @ '' (revision '' @ show_nat i @ '' recorded as rejected)''), w))
     | _ \<Rightarrow> (e, w))"

definition reject_invalid ::
  "scoped_candidate \<Rightarrow> validation_report \<Rightarrow> apply_origin \<Rightarrow> string option \<Rightarrow> config_world
     \<Rightarrow> apply_error \<times> config_world" where
  "reject_invalid k report origin stream w =
    (let summary = (case vr_errors report of e # _ \<Rightarrow> e | [] \<Rightarrow> ''validation failed'') in
     case record_attempt (sg_ledger_raw k) (sg_ledger_sha k) origin Rejected_revision (Some summary) stream w of
       (Inl e, w) \<Rightarrow> (e, w) | (Inr i, w) \<Rightarrow> (Validation_rejected (Some i) report, w))"

section \<open>Secrets\<close>

definition previous_secret_env_refs ::
  "apply_libs \<Rightarrow> config \<Rightarrow> apply_scope \<Rightarrow> config \<Rightarrow> config_world \<Rightarrow> (apply_error + string list) \<times> config_world" where
  "previous_secret_env_refs lib bootstrap scope previous w =
    (case scope of
       Whole \<Rightarrow> (Inr (collect_secret_env_refs (desired_state_for_ledger previous)), w)
     | Organization org \<Rightarrow> (case find_organization bootstrap org of
         None \<Rightarrow> (Inl (Server_error (unknown_organization org)), w)
       | Some o' \<Rightarrow> (case organization_desired_raw bootstrap o' w of
           (Inl e, w) \<Rightarrow> (Inl (Server_error e), w)
         | (Inr (raw, _), w) \<Rightarrow>
             (Inr (case parse_desired_document (docs_of lib) raw of
                Inr c \<Rightarrow> collect_secret_env_refs c | Inl _ \<Rightarrow> []), w))))"

definition prune_stale_app_secrets ::
  "apply_libs \<Rightarrow> config \<Rightarrow> apply_scope \<Rightarrow> config \<Rightarrow> string list \<Rightarrow> config_world \<Rightarrow> (apply_error + unit) \<times> config_world" where
  "prune_stale_app_secrets lib bootstrap scope previous refs w =
    (case previous_secret_env_refs lib bootstrap scope previous w of
       (Inl e, w) \<Rightarrow> (Inl e, w)
     | (Inr before, w) \<Rightarrow>
         (let stale = stale_ui_managed_secrets before refs (ledger_stream scope) in
          if stale = [] then (Inr (), w)
          else (case delete_app_secrets stale w of
              (Inl e, w) \<Rightarrow> (Inl (Server_error ''pruning stale app secrets''), w) | (Inr _, w) \<Rightarrow> (Inr (), w))))"

definition store_secrets ::
  "apply_libs \<Rightarrow> config \<Rightarrow> apply_scope \<Rightarrow> config \<Rightarrow> scoped_candidate \<Rightarrow> config_world \<Rightarrow> (apply_error + unit) \<times> config_world" where
  "store_secrets lib bootstrap scope previous k w =
    (case upsert_app_secrets (yl_secret lib) (sg_writes k) w of
       (Inl e, w) \<Rightarrow> (Inl (Server_error ''persisting app secrets''), w)
     | (Inr _, w) \<Rightarrow> prune_stale_app_secrets lib bootstrap scope previous (sg_refs k) w)"

section \<open>Applying\<close>

definition unchanged_response :: "string \<Rightarrow> nat \<Rightarrow> apply_response" where
  "unchanged_response sha i =
    \<lparr>ay_applied = False, ay_sha = sha, ay_revision = i, ay_added = [], ay_removed = [], ay_changed = [], ay_warnings = []\<rparr>"

text \<open>The same structure with other secrets: only the secrets are stored.\<close>

definition rotate_secrets ::
  "apply_libs \<Rightarrow> config \<Rightarrow> apply_origin \<Rightarrow> apply_scope \<Rightarrow> config \<Rightarrow> nat \<Rightarrow> scoped_candidate \<Rightarrow> config_world
     \<Rightarrow> (apply_error + apply_response) \<times> config_world" where
  "rotate_secrets lib bootstrap origin scope previous i k w =
    (if effective_secret_rotations (gw_vault w) (sg_writes k) = [] then
       (Inr (unchanged_response (sg_ledger_sha k) i), w)
     else
       (let report = validate_full (libs_at lib w) (sg_merged k) in
        if \<not> vr_valid report then map_prod Inl id (reject_invalid k report origin (ledger_stream scope) w)
        else (case store_secrets lib bootstrap scope previous k w of
            (Inl e, w) \<Rightarrow> (Inl e, w)
          | (Inr _, w) \<Rightarrow>
              (Inr ((unchanged_response (sg_ledger_sha k) i)\<lparr>ay_applied := True, ay_warnings := vr_warnings report\<rparr>), w))))"

text \<open>After a failed record, the previous configuration is swapped in again, if it can be.\<close>

definition swap_and_record ::
  "apply_libs \<Rightarrow> apply_origin \<Rightarrow> apply_scope \<Rightarrow> config \<Rightarrow> scoped_candidate \<Rightarrow> config_world
     \<Rightarrow> (apply_error + nat) \<times> config_world" where
  "swap_and_record lib origin scope previous k w =
    (case apply_runtime lib (sg_merged k) w of
       (Inl e, w) \<Rightarrow> (Inl e, w)
     | (Inr _, w) \<Rightarrow>
         (case record_attempt (sg_ledger_raw k) (sg_ledger_sha k) origin Applied_revision None (ledger_stream scope) w of
            (Inl e, w) \<Rightarrow> (Inl e, snd (apply_runtime lib previous w))
          | (Inr i, w) \<Rightarrow> (Inr i, w)))"

definition apply_candidate ::
  "apply_libs \<Rightarrow> config \<Rightarrow> apply_origin \<Rightarrow> apply_scope \<Rightarrow> config \<Rightarrow> scoped_candidate \<Rightarrow> config_world
     \<Rightarrow> (apply_error + apply_response) \<times> config_world" where
  "apply_candidate lib bootstrap origin scope previous k w =
    (let report = validate_full (libs_at lib w) (sg_merged k) in
     if \<not> vr_valid report then map_prod Inl id (reject_invalid k report origin (ledger_stream scope) w)
     else
       (let diff = compute_diff (libs_at lib w) previous (sg_merged k) in
        case store_secrets lib bootstrap scope previous k w of
          (Inl e, w) \<Rightarrow> (Inl e, w)
        | (Inr _, w) \<Rightarrow> (case swap_and_record lib origin scope previous k w of
            (Inl e, w) \<Rightarrow> (Inl e, w)
          | (Inr i, w) \<Rightarrow>
              (Inr \<lparr>ay_applied = True, ay_sha = sg_ledger_sha k, ay_revision = i, ay_added = dd_added diff,
                 ay_removed = dd_removed diff, ay_changed = dd_changed diff, ay_warnings = vr_warnings report\<rparr>, w))))"

definition apply_document ::
  "apply_libs \<Rightarrow> config \<Rightarrow> string \<Rightarrow> desired_format option \<Rightarrow> apply_origin \<Rightarrow> apply_scope \<Rightarrow> config_world
     \<Rightarrow> (apply_error + apply_response) \<times> config_world" where
  "apply_document lib bootstrap raw hint origin scope w =
    (case ledger_query (latest_applied_config_revision (ledger_stream scope)) w of
       (Inl e, w) \<Rightarrow> (Inl (Server_error (store_error_text e)), w)
     | (Inr current, w) \<Rightarrow>
         (let sha = content_sha256 lib raw; previous = gw_running w in
          if map_option cr_sha current = Some sha then
            (Inr (unchanged_response sha (cr_id (the current))), w)
          else (case resolve_scoped_candidate lib bootstrap raw hint scope (Some previous) w of
              (Inl e, w) \<Rightarrow> map_prod Inl id (reject_document lib raw origin (ledger_stream scope) e w)
            | (Inr k, w) \<Rightarrow>
                if map_option cr_sha current = Some (sg_ledger_sha k) then
                  rotate_secrets lib bootstrap origin scope previous (cr_id (the current)) k w
                else apply_candidate lib bootstrap origin scope previous k w)))"

definition rollback ::
  "apply_libs \<Rightarrow> config \<Rightarrow> apply_origin \<Rightarrow> apply_scope \<Rightarrow> config_world
     \<Rightarrow> (apply_error + apply_response) \<times> config_world" where
  "rollback lib bootstrap origin scope w =
    (case ledger_query (previous_applied_config_revision (ledger_stream scope)) w of
       (Inl e, w) \<Rightarrow> (Inl (Server_error (store_error_text e)), w)
     | (Inr None, w) \<Rightarrow> (Inl Nothing_to_roll_back_to, w)
     | (Inr (Some r), w) \<Rightarrow> apply_document lib bootstrap (cr_content r) None origin scope w)"

text \<open>A dry run: neither the tables nor what is running are touched.\<close>

definition validate_document ::
  "apply_libs \<Rightarrow> config \<Rightarrow> string \<Rightarrow> bool \<Rightarrow> desired_format option \<Rightarrow> apply_scope \<Rightarrow> config option \<Rightarrow> config_world
     \<Rightarrow> (apply_error + bool \<times> string \<times> validation_report) \<times> config_world" where
  "validate_document lib bootstrap raw strict hint scope previous w =
    (case resolve_scoped_candidate lib bootstrap raw hint scope previous w of
       (Inl e, w) \<Rightarrow> (Inl e, w)
     | (Inr k, w) \<Rightarrow>
         (let report = apply_strict strict (validate_full (libs_at lib w) (sg_merged k)) in
          (Inr (vr_valid report, content_sha256 lib raw, report), w)))"

section \<open>Reloading\<close>

record reload_response =
  yr_applied :: bool
  yr_sha :: string
  yr_path :: string
  yr_added :: "string list"
  yr_removed :: "string list"
  yr_changed :: "string list"
  yr_warnings :: "string list"

definition unchanged_reload :: "string \<Rightarrow> string \<Rightarrow> reload_response" where
  "unchanged_reload sha path =
    \<lparr>yr_applied = False, yr_sha = sha, yr_path = path, yr_added = [], yr_removed = [], yr_changed = [], yr_warnings = []\<rparr>"

text \<open>The common end of both reloads.\<close>

definition reload_config ::
  "apply_libs \<Rightarrow> string \<Rightarrow> string \<Rightarrow> config \<Rightarrow> config_world \<Rightarrow> (apply_error + reload_response) \<times> config_world" where
  "reload_config lib sha path c w =
    (let report = validate_full (libs_at lib w) c in
     if \<not> vr_valid report then (Inl (Validation_rejected None report), w)
     else
       (let diff = compute_diff (libs_at lib w) (gw_running w) c in
        case apply_runtime lib c w of
          (Inl e, w) \<Rightarrow> (Inl e, w)
        | (Inr _, w) \<Rightarrow>
            (Inr ((unchanged_reload sha path)\<lparr>yr_applied := True, yr_added := dd_added diff, yr_removed := dd_removed diff,
               yr_changed := dd_changed diff, yr_warnings := vr_warnings report\<rparr>), w)))"

definition reload_document ::
  "apply_libs \<Rightarrow> config \<Rightarrow> string option \<Rightarrow> string \<Rightarrow> string \<Rightarrow> desired_format option \<Rightarrow> config_world
     \<Rightarrow> (apply_error + reload_response) \<times> config_world" where
  "reload_document lib bootstrap current_sha path raw hint w =
    (let sha = content_sha256 lib raw in
     if current_sha = Some sha then (Inr (unchanged_reload sha path), w)
     else (case merge_or_reject lib (env_of w) bootstrap raw hint of
         Inl e \<Rightarrow> (Inl e, w) | Inr c \<Rightarrow> reload_config lib sha path c w))"

definition reload_organizations ::
  "apply_libs \<Rightarrow> config \<Rightarrow> string option \<Rightarrow> config_world \<Rightarrow> (apply_error + reload_response) \<times> config_world" where
  "reload_organizations lib bootstrap current_identity w =
    (case compose_organizations (yl_compose lib) bootstrap None w of
       (Inl e, w) \<Rightarrow> (Inl (Server_error e), w)
     | (Inr composed, w) \<Rightarrow>
         (let sha = co_identity_sha256 composed in
          if current_identity = Some sha then (Inr (unchanged_reload sha ''[[organizations]]''), w)
          else reload_config lib sha ''[[organizations]]'' (co_merged composed) w))"

section \<open>What each step leaves alone\<close>

definition same_surroundings :: "config_world \<Rightarrow> config_world \<Rightarrow> bool" where
  "same_surroundings w w' \<longleftrightarrow> gw_clock w' = gw_clock w \<and> gw_fault w' = gw_fault w \<and> gw_vars w' = gw_vars w
    \<and> gw_files w' = gw_files w \<and> gw_swap_fault w' = gw_swap_fault w \<and> gw_calls w \<le> gw_calls w'"

definition same_runtime :: "config_world \<Rightarrow> config_world \<Rightarrow> bool" where
  "same_runtime w w' \<longleftrightarrow> gw_running w' = gw_running w \<and> gw_watches w' = gw_watches w \<and> gw_sinks w' = gw_sinks w"

definition same_secrets :: "config_world \<Rightarrow> config_world \<Rightarrow> bool" where
  "same_secrets w w' \<longleftrightarrow> gw_vault w' = gw_vault w \<and> gw_secrets w' = gw_secrets w"

definition reads_only :: "config_world \<Rightarrow> config_world \<Rightarrow> bool" where
  "reads_only w w' \<longleftrightarrow> same_surroundings w w' \<and> same_runtime w w' \<and> same_secrets w w' \<and> gw_ledger w' = gw_ledger w"

lemmas frame_defs = same_surroundings_def same_runtime_def same_secrets_def reads_only_def

lemma surroundings_refl [simp]: "same_surroundings w w" by (simp add: same_surroundings_def)

lemma surroundings_trans [trans]: "same_surroundings u v \<Longrightarrow> same_surroundings v w \<Longrightarrow> same_surroundings u w"
  by (auto simp: same_surroundings_def)

lemma reads_only_refl [simp]: "reads_only w w" by (simp add: frame_defs)

lemma reads_only_trans [trans]: "reads_only u v \<Longrightarrow> reads_only v w \<Longrightarrow> reads_only u w"
  by (auto simp: frame_defs)

lemma query_reads: "reads_only w (snd (ledger_query q w))"
  by (auto simp: ledger_query_def Let_def frame_defs split: option.split user_fault.split)

lemma raw_reads: "reads_only w (snd (organization_desired_raw bootstrap org w))"
proof (cases "ledger_query (latest_applied_config_revision (Some (oc_id org))) w")
  case (Pair r w1)
  moreover have "reads_only w w1" using query_reads [of w "latest_applied_config_revision (Some (oc_id org))"] Pair by simp
  ultimately show ?thesis
    by (cases r; cases "projr r") (simp_all add: organization_desired_raw_def)
qed

lemma document_reads: "reads_only w (snd (document_of bootstrap override org w))"
  using raw_reads by (auto simp: document_of_def split: option.split)

lemma join_reads: "reads_only w (snd (join_all lib bootstrap override orgs k w))"
proof (induction lib bootstrap override orgs k w rule: join_all.induct)
  case (2 lib bootstrap override org orgs k w)
  obtain r w1 where doc: "document_of bootstrap override org w = (r, w1)" by (cases "document_of bootstrap override org w")
  then have reads: "reads_only w w1" using document_reads [of w bootstrap override org] by simp
  show ?case
  proof (cases r)
    case (Inr d)
    obtain raw source where d: "d = (raw, source)" by (cases d)
    then show ?thesis
      using 2 doc Inr reads
      by (auto simp: Let_def intro: reads_only_trans split: sum.split)
  qed (use doc reads in \<open>simp add: Let_def\<close>)
qed simp

lemma compose_reads: "reads_only w (snd (compose_organizations lib bootstrap override w))"
  using join_reads [of w lib bootstrap override "cf_organizations bootstrap" "composition_start override"]
  by (cases "join_all lib bootstrap override (cf_organizations bootstrap) (composition_start override) w";
      cases "fst (join_all lib bootstrap override (cf_organizations bootstrap) (composition_start override) w)")
    (simp_all add: compose_organizations_def)

lemma restore_org_reads: "reads_only w (snd (restore_org_candidate lib bootstrap org raw hint w))"
proof (cases "guarded_document lib raw hint")
  case (Inr c)
  show ?thesis
  proof (cases "find_organization bootstrap org")
    case (Some o')
    obtain r w1 where raw: "organization_desired_raw bootstrap o' w = (r, w1)" by (cases "organization_desired_raw bootstrap o' w")
    then have "reads_only w w1" using raw_reads [of w bootstrap o'] by simp
    then show ?thesis
      using Inr Some raw by (cases r) (auto simp: restore_org_candidate_def Let_def split: sum.split)
  qed (simp add: Inr restore_org_candidate_def)
qed (simp add: restore_org_candidate_def)

lemma candidate_reads: "reads_only w (snd (resolve_scoped_candidate lib bootstrap raw hint scope previous w))"
proof (cases scope)
  case (Organization org)
  obtain r w1 where restored: "restore_org_candidate lib bootstrap org raw hint w = (r, w1)"
    by (cases "restore_org_candidate lib bootstrap org raw hint w")
  then have reads: "reads_only w w1" using restore_org_reads [of w lib bootstrap org raw hint] by simp
  show ?thesis
  proof (cases r)
    case (Inl e)
    then show ?thesis using restored reads Organization by (simp add: resolve_scoped_candidate_def org_candidate_def)
  next
    case (Inr d)
    show ?thesis
    proof (cases "candidate_of lib (Some org) (format_of raw hint) (fst d)")
      case k: (Inr k)
      obtain r2 w2 where composed: "compose_organizations (yl_compose lib) bootstrap (Some (org, sg_ledger_raw k)) w1 = (r2, w2)"
        by (cases "compose_organizations (yl_compose lib) bootstrap (Some (org, sg_ledger_raw k)) w1")
      then have "reads_only w1 w2"
        using compose_reads [of w1 "yl_compose lib" bootstrap "Some (org, sg_ledger_raw k)"] by simp
      then show ?thesis
        using restored reads Organization Inr k composed reads_only_trans [OF reads]
        by (cases r2) (auto simp: resolve_scoped_candidate_def org_candidate_def split_def)
    qed (use restored reads Organization Inr in \<open>simp add: resolve_scoped_candidate_def org_candidate_def split_def\<close>)
  qed
qed (simp add: resolve_scoped_candidate_def)

lemma refs_read: "reads_only w (snd (previous_secret_env_refs lib bootstrap scope previous w))"
proof (cases scope)
  case (Organization org)
  show ?thesis
  proof (cases "find_organization bootstrap org")
    case (Some o')
    obtain r w1 where raw: "organization_desired_raw bootstrap o' w = (r, w1)" by (cases "organization_desired_raw bootstrap o' w")
    then have "reads_only w w1" using raw_reads [of w bootstrap o'] by simp
    then show ?thesis using Organization Some raw by (cases r) (auto simp: previous_secret_env_refs_def)
  qed (simp add: Organization previous_secret_env_refs_def)
qed (simp add: previous_secret_env_refs_def)

text \<open>The steps on the secrets leave what is running and the revisions alone.\<close>

definition keeps_running :: "config_world \<Rightarrow> config_world \<Rightarrow> bool" where
  "keeps_running w w' \<longleftrightarrow> same_surroundings w w' \<and> same_runtime w w' \<and> gw_ledger w' = gw_ledger w"

lemma keeps_running_refl [simp]: "keeps_running w w"
  by (simp add: keeps_running_def same_runtime_def)

lemma keeps_running_trans [trans]: "keeps_running u v \<Longrightarrow> keeps_running v w \<Longrightarrow> keeps_running u w"
  by (auto simp: keeps_running_def frame_defs)

lemma reads_keep_running: "reads_only w w' \<Longrightarrow> keeps_running w w'"
  by (simp add: reads_only_def keeps_running_def)

lemma upsert_keeps: "keeps_running w (snd (upsert_app_secrets lib ws w))"
  by (cases "write_secrets lib ws (gw_secrets w) (gw_vault w)"; cases "gw_fault w (gw_calls w)"; cases "the (gw_fault w (gw_calls w))")
    (auto simp: upsert_app_secrets_def Let_def keeps_running_def frame_defs split: sum.split user_fault.split)

lemma delete_keeps: "keeps_running w (snd (delete_app_secrets names w))"
  by (auto simp: delete_app_secrets_def Let_def keeps_running_def frame_defs split: option.split user_fault.split)

lemma prune_keeps: "keeps_running w (snd (prune_stale_app_secrets lib bootstrap scope previous refs w))"
proof -
  obtain r w1 where refs: "previous_secret_env_refs lib bootstrap scope previous w = (r, w1)"
    by (cases "previous_secret_env_refs lib bootstrap scope previous w")
  then have k: "keeps_running w w1"
    using reads_keep_running [OF refs_read [of w lib bootstrap scope previous]] by simp
  show ?thesis
  proof (cases r)
    case (Inr before)
    define stale where "stale = stale_ui_managed_secrets before refs (ledger_stream scope)"
    obtain r2 w2 where del: "delete_app_secrets stale w1 = (r2, w2)" by (cases "delete_app_secrets stale w1")
    then have "keeps_running w w2" using keeps_running_trans [OF k] delete_keeps [of w1 stale] by simp
    then show ?thesis
      using refs Inr k del by (cases r2) (simp_all add: prune_stale_app_secrets_def stale_def Let_def)
  qed (use refs k in \<open>simp add: prune_stale_app_secrets_def\<close>)
qed

lemma store_secrets_keeps: "keeps_running w (snd (store_secrets lib bootstrap scope previous k w))"
proof -
  obtain r w1 where up: "upsert_app_secrets (yl_secret lib) (sg_writes k) w = (r, w1)"
    by (cases "upsert_app_secrets (yl_secret lib) (sg_writes k) w")
  then have "keeps_running w w1" using upsert_keeps [of w "yl_secret lib" "sg_writes k"] by simp
  then show ?thesis
    using up keeps_running_trans [OF _ prune_keeps] by (cases r) (auto simp: store_secrets_def)
qed

text \<open>The swap changes nothing else, and all of it or nothing.\<close>

definition runtime_only :: "config_world \<Rightarrow> config_world \<Rightarrow> bool" where
  "runtime_only w w' \<longleftrightarrow> same_surroundings w w' \<and> same_secrets w w' \<and> gw_ledger w' = gw_ledger w"

lemma swap_only: "runtime_only w (snd (apply_runtime lib c w))"
  by (auto simp: apply_runtime_def Let_def runtime_only_def frame_defs split: sum.split option.split)

lemma swap_failed: "fst (apply_runtime lib c w) = Inl e \<Longrightarrow> same_runtime w (snd (apply_runtime lib c w))"
  by (auto simp: apply_runtime_def Let_def frame_defs split: sum.splits option.splits)

lemma swap_done: "fst (apply_runtime lib c w) = Inr u \<Longrightarrow> gw_running (snd (apply_runtime lib c w)) = c"
  by (auto simp: apply_runtime_def Let_def split: sum.splits option.splits)

text \<open>A record appends one row, or, when the call fails, one or none.\<close>

definition attempt_row ::
  "config_world \<Rightarrow> string \<Rightarrow> string \<Rightarrow> apply_origin \<Rightarrow> revision_status \<Rightarrow> string option \<Rightarrow> string option \<Rightarrow> revision_row" where
  "attempt_row w raw sha origin status err stream =
    \<lparr>cr_id = vt_next_id (gw_ledger w), cr_content = raw, cr_sha = sha, cr_label = ao_revision_label origin,
     cr_applied_at = gw_clock w (gw_calls w), cr_applied_by = ao_applied_by origin, cr_source_addr = ao_source_addr origin,
     cr_status = status, cr_error = err, cr_org = stream\<rparr>"

definition with_row :: "revision_row \<Rightarrow> revision_table \<Rightarrow> revision_table" where
  "with_row r t = \<lparr>vt_rows = vt_rows t @ [r], vt_next_id = cr_id r + 1\<rparr>"

lemma record_effect:
  defines "row w raw sha origin status err stream \<equiv> attempt_row w raw sha origin status err stream"
  assumes "record_attempt raw sha origin status err stream w = (r, w')"
  shows "same_surroundings w w'" "same_runtime w w'" "same_secrets w w'" "gw_calls w' = gw_calls w + 1"
    "gw_ledger w' = gw_ledger w \<or> gw_ledger w' = with_row (row w raw sha origin status err stream) (gw_ledger w)"
    "r = Inr i \<Longrightarrow> gw_ledger w' = with_row (row w raw sha origin status err stream) (gw_ledger w) \<and> i = vt_next_id (gw_ledger w)"
    "r = Inl e \<Longrightarrow> e = Server_error ''recording config revision''"
  using assms
  by (auto simp: record_attempt_def append_revision_def insert_config_revision_def attempt_row_def with_row_def Let_def
      frame_defs split: option.splits user_fault.splits)

section \<open>Every revision\<close>

text \<open>What a recorded document holds: nothing, or a printed document without inline secrets.\<close>

definition clean_body :: "apply_libs \<Rightarrow> string \<Rightarrow> bool" where
  "clean_body lib s \<longleftrightarrow> s = EMPTY_ORGANIZATION_DOCUMENT
    \<or> (\<exists>f c. dl_print (docs_of lib) f (wire_of c) = Inr s \<and> inline_secrets c = [])"

definition candidate_ok :: "apply_libs \<Rightarrow> scoped_candidate \<Rightarrow> bool" where
  "candidate_ok lib k \<longleftrightarrow> clean_body lib (sg_ledger_raw k) \<and> sg_ledger_sha k = content_sha256 lib (sg_ledger_raw k)"

lemma candidate_of_ok: "candidate_of lib stream f c = Inr k \<Longrightarrow> candidate_ok lib k"
  using normalize_leaves_no_secret [of "yl_json lib" stream c]
  by (auto simp: candidate_of_def candidate_ok_def clean_body_def serialize_desired_only_strict_def split: prod.splits sum.splits)

lemma scoped_candidate_ok:
  assumes "fst (resolve_scoped_candidate lib bootstrap raw hint scope previous w) = Inr k"
  shows "candidate_ok lib k"
proof (cases scope)
  case Whole
  then show ?thesis
    using assms by (auto simp: resolve_scoped_candidate_def whole_candidate_def Let_def candidate_ok_def
        dest: candidate_of_ok split: sum.splits)
next
  case (Organization org)
  then show ?thesis
    using assms by (auto simp: resolve_scoped_candidate_def org_candidate_def candidate_ok_def
        dest: candidate_of_ok split: sum.splits prod.splits)
qed

lemma rejected_body_ok:
  "clean_body lib (fst (rejected_ledger_body lib raw stream))
    \<and> snd (rejected_ledger_body lib raw stream) = content_sha256 lib (fst (rejected_ledger_body lib raw stream))"
proof (cases "normalize_document_for_storage (docs_of lib) (yl_json lib) raw stream")
  case (Inr x)
  obtain content ws where x: "x = (content, ws)" by (cases x)
  obtain c where "dl_print (docs_of lib) (detect_desired_format raw) (wire_of (fst (normalize_secrets_to_refs (yl_json lib) stream c))) = Inr content"
    using Inr x by (force simp: normalize_document_for_storage_def serialize_desired_only_strict_def Let_def split_def split: sum.splits)
  then show ?thesis
    using Inr x normalize_leaves_no_secret [of "yl_json lib" stream c]
    by (auto simp: rejected_ledger_body_def clean_body_def)
qed (simp add: rejected_ledger_body_def clean_body_def)

text \<open>A row as it may be appended to the table.\<close>

definition recordable :: "apply_libs \<Rightarrow> config_world \<Rightarrow> revision_row \<Rightarrow> bool" where
  "recordable lib w r \<longleftrightarrow>
    cr_id r = vt_next_id (gw_ledger w) \<and> cr_applied_at r = gw_clock w (gw_calls w)
    \<and> clean_body lib (cr_content r) \<and> cr_sha r = content_sha256 lib (cr_content r)
    \<and> (cr_status r = Applied_revision \<longrightarrow>
        (\<exists>current. latest_applied_config_revision (cr_org r) (gw_ledger w) = Inr current
          \<and> map_option cr_sha current \<noteq> Some (cr_sha r)))"

datatype config_op =
    Push string "desired_format option" apply_origin apply_scope
  | Roll_back apply_origin apply_scope
  | Reload_file "string option" string string "desired_format option"
  | Reload_all "string option"

fun exec_config_op :: "apply_libs \<Rightarrow> config \<Rightarrow> config_op \<Rightarrow> config_world \<Rightarrow> config_world" where
  "exec_config_op lib b (Push raw hint origin scope) w = snd (apply_document lib b raw hint origin scope w)"
| "exec_config_op lib b (Roll_back origin scope) w = snd (rollback lib b origin scope w)"
| "exec_config_op lib b (Reload_file sha path raw hint) w = snd (reload_document lib b sha path raw hint w)"
| "exec_config_op lib b (Reload_all sha) w = snd (reload_organizations lib b sha w)"

definition run_config_ops :: "apply_libs \<Rightarrow> config \<Rightarrow> config_op list \<Rightarrow> config_world \<Rightarrow> config_world" where
  "run_config_ops lib b ops w = fold (exec_config_op lib b) ops w"

text \<open>What is kept by every recordable row, and by every step that leaves the table alone, is kept.\<close>

locale ledger_contract =
  fixes lib :: apply_libs and I :: "config_world \<Rightarrow> bool"
  assumes moved: "I w \<Longrightarrow> same_surroundings w w' \<Longrightarrow> gw_ledger w' = gw_ledger w \<Longrightarrow> I w'"
    and recorded: "I w \<Longrightarrow> recordable lib w r \<Longrightarrow> same_surroundings w w' \<Longrightarrow> gw_calls w' = gw_calls w + 1
      \<Longrightarrow> gw_ledger w' = with_row r (gw_ledger w) \<Longrightarrow> I w'"
begin

lemma reads_keep: "I w \<Longrightarrow> reads_only w w' \<Longrightarrow> I w'"
  using moved by (auto simp: reads_only_def)

lemma running_keep: "I w \<Longrightarrow> keeps_running w w' \<Longrightarrow> I w'"
  using moved by (auto simp: keeps_running_def)

lemma swap_keep: "I w \<Longrightarrow> I (snd (apply_runtime lib' c w))"
  using moved swap_only [of w lib' c] by (auto simp: runtime_only_def)

lemma record_keep:
  assumes "I w" "clean_body lib raw" "sha = content_sha256 lib raw"
    and "status = Applied_revision \<Longrightarrow> \<exists>current. latest_applied_config_revision stream (gw_ledger w) = Inr current
          \<and> map_option cr_sha current \<noteq> Some sha"
  shows "I (snd (record_attempt raw sha origin status err stream w))"
proof -
  obtain r w' where rec: "record_attempt raw sha origin status err stream w = (r, w')"
    by (cases "record_attempt raw sha origin status err stream w")
  note effect = record_effect(1-5) [OF rec]
  have "recordable lib w (attempt_row w raw sha origin status err stream)"
    using assms by (simp add: recordable_def attempt_row_def)
  then show ?thesis using effect(5) moved [OF assms(1) effect(1)] recorded [OF assms(1) _ effect(1,4)] rec by auto
qed

lemma reject_document_keep: "I w \<Longrightarrow> I (snd (reject_document lib raw origin stream e w))"
  using record_keep rejected_body_ok
  by (auto simp: reject_document_def Let_def split: apply_error.split prod.split sum.split)
    (metis fst_conv snd_conv revision_status.distinct(1))+

lemma reject_invalid_keep: "I w \<Longrightarrow> candidate_ok lib k \<Longrightarrow> I (snd (reject_invalid k report origin stream w))"
  using record_keep
  by (auto simp: reject_invalid_def Let_def candidate_ok_def split: prod.split sum.split)
    (metis snd_conv revision_status.distinct(1))+

end

lemma query_answer:
  "fst (ledger_query q w) = Inr x \<Longrightarrow> q (gw_ledger w) = Inr x"
  by (auto simp: ledger_query_def Let_def split: option.splits user_fault.splits)

lemma swap_and_record_same_table:
  "gw_ledger (snd (apply_runtime lib c w)) = gw_ledger w"
  using swap_only [of w lib c] by (simp add: runtime_only_def)

context ledger_contract
begin

lemma swap_and_record_keep:
  assumes "I w" "candidate_ok lib k"
    and "\<exists>current. latest_applied_config_revision (ledger_stream scope) (gw_ledger w) = Inr current
      \<and> map_option cr_sha current \<noteq> Some (sg_ledger_sha k)"
  shows "I (snd (swap_and_record lib origin scope previous k w))"
proof -
  obtain r w1 where swap: "apply_runtime lib (sg_merged k) w = (r, w1)" by (cases "apply_runtime lib (sg_merged k) w")
  then have w1: "I w1" "gw_ledger w1 = gw_ledger w"
    using swap_keep [OF assms(1), of lib "sg_merged k"] swap_and_record_same_table [of lib "sg_merged k" w] by simp_all
  obtain r2 w2 where rec: "record_attempt (sg_ledger_raw k) (sg_ledger_sha k) origin Applied_revision None (ledger_stream scope) w1 = (r2, w2)"
    by (cases "record_attempt (sg_ledger_raw k) (sg_ledger_sha k) origin Applied_revision None (ledger_stream scope) w1")
  have "I w2"
    using record_keep [OF w1(1), of "sg_ledger_raw k" "sg_ledger_sha k" Applied_revision "ledger_stream scope" origin None]
      assms(2,3) w1(2) rec by (simp add: candidate_ok_def)
  then show ?thesis
    using swap rec w1 swap_keep by (cases r; cases r2) (simp_all add: swap_and_record_def)
qed

lemma apply_candidate_keep:
  assumes "I w" "candidate_ok lib k"
    and "\<exists>current. latest_applied_config_revision (ledger_stream scope) (gw_ledger w) = Inr current
      \<and> map_option cr_sha current \<noteq> Some (sg_ledger_sha k)"
  shows "I (snd (apply_candidate lib bootstrap origin scope previous k w))"
proof -
  obtain r w1 where stored: "store_secrets lib bootstrap scope previous k w = (r, w1)"
    by (cases "store_secrets lib bootstrap scope previous k w")
  then have keeps: "keeps_running w w1" using store_secrets_keeps [of w lib bootstrap scope previous k] by simp
  have "I w1" using running_keep [OF assms(1) keeps] .
  moreover have "I (snd (swap_and_record lib origin scope previous k w1))"
    using swap_and_record_keep [OF \<open>I w1\<close> assms(2)] assms(3) keeps by (simp add: keeps_running_def)
  moreover have "I (snd (reject_invalid k report origin (ledger_stream scope) w))" for report
    using reject_invalid_keep assms(1,2) .
  ultimately show ?thesis
    using stored
    by (cases r; cases "swap_and_record lib origin scope previous k w1"; cases "fst (swap_and_record lib origin scope previous k w1)")
      (simp_all add: apply_candidate_def Let_def)
qed

lemma rotate_keep:
  assumes "I w" "candidate_ok lib k"
  shows "I (snd (rotate_secrets lib bootstrap origin scope previous i k w))"
proof -
  obtain r w1 where stored: "store_secrets lib bootstrap scope previous k w = (r, w1)"
    by (cases "store_secrets lib bootstrap scope previous k w")
  then have "I w1" using running_keep [OF assms(1)] store_secrets_keeps [of w lib bootstrap scope previous k] by simp
  moreover have "I (snd (reject_invalid k report origin (ledger_stream scope) w))" for report
    using reject_invalid_keep assms .
  ultimately show ?thesis using stored assms(1) by (cases r) (simp_all add: rotate_secrets_def Let_def)
qed

lemma apply_document_keep:
  assumes "I w"
  shows "I (snd (apply_document lib bootstrap raw hint origin scope w))"
proof -
  obtain r w1 where query: "ledger_query (latest_applied_config_revision (ledger_stream scope)) w = (r, w1)"
    by (cases "ledger_query (latest_applied_config_revision (ledger_stream scope)) w")
  then have reads1: "reads_only w w1" using query_reads [of w "latest_applied_config_revision (ledger_stream scope)"] by simp
  then have w1: "I w1" using reads_keep assms by blast
  show ?thesis
  proof (cases r)
    case (Inr current)
    then have current: "latest_applied_config_revision (ledger_stream scope) (gw_ledger w) = Inr current"
      using query_answer [of "latest_applied_config_revision (ledger_stream scope)" w] query by simp
    obtain r2 w2 where scoped: "resolve_scoped_candidate lib bootstrap raw hint scope (Some (gw_running w1)) w1 = (r2, w2)"
      by (cases "resolve_scoped_candidate lib bootstrap raw hint scope (Some (gw_running w1)) w1")
    then have reads2: "reads_only w1 w2"
      using candidate_reads [of w1 lib bootstrap raw hint scope "Some (gw_running w1)"] by simp
    then have w2: "I w2" using reads_keep w1 by blast
    have table: "gw_ledger w2 = gw_ledger w" using reads1 reads2 by (simp add: reads_only_def)
    show ?thesis
    proof (cases r2)
      case (Inl e)
      then show ?thesis
        using query scoped \<open>r = Inr current\<close> w1 reject_document_keep [OF w2]
        by (simp add: apply_document_def Let_def)
    next
      case k: (Inr k)
      have ok: "candidate_ok lib k" using scoped_candidate_ok scoped k by (metis fst_conv)
      have "I (snd (apply_candidate lib bootstrap origin scope (gw_running w1) k w2))"
        if "map_option cr_sha current \<noteq> Some (sg_ledger_sha k)"
        using apply_candidate_keep [OF w2 ok] current table that by simp
      then show ?thesis
        using query scoped \<open>r = Inr current\<close> w1 k rotate_keep [OF w2 ok]
        by (simp add: apply_document_def Let_def)
    qed
  qed (use query w1 in \<open>simp add: apply_document_def\<close>)
qed

lemma reload_config_keep: "I w \<Longrightarrow> I (snd (reload_config lib sha path c w))"
  using swap_keep [of w lib c] by (auto simp: reload_config_def Let_def split: prod.split sum.split)

lemma exec_keep:
  assumes "I w"
  shows "I (exec_config_op lib bootstrap p w)"
proof (cases p)
  case (Push raw hint origin scope)
  then show ?thesis using apply_document_keep assms by simp
next
  case (Roll_back origin scope)
  obtain r w1 where query: "ledger_query (previous_applied_config_revision (ledger_stream scope)) w = (r, w1)"
    by (cases "ledger_query (previous_applied_config_revision (ledger_stream scope)) w")
  then have "I w1" using reads_keep assms query_reads [of w "previous_applied_config_revision (ledger_stream scope)"] by simp
  then show ?thesis
    using Roll_back query apply_document_keep by (auto simp: rollback_def split: sum.split option.split)
next
  case (Reload_file sha path raw hint)
  then show ?thesis using assms reload_config_keep by (auto simp: reload_document_def Let_def split: sum.split)
next
  case (Reload_all sha)
  obtain r w1 where composed: "compose_organizations (yl_compose lib) bootstrap None w = (r, w1)"
    by (cases "compose_organizations (yl_compose lib) bootstrap None w")
  then have "I w1" using reads_keep assms compose_reads [of w "yl_compose lib" bootstrap None] by simp
  then show ?thesis
    using Reload_all composed reload_config_keep by (auto simp: reload_organizations_def Let_def split: sum.split)
qed

lemma run_keep: "I w \<Longrightarrow> I (run_config_ops lib bootstrap ops w)"
  unfolding run_config_ops_def by (induction ops arbitrary: w) (simp_all add: exec_keep)

end

section \<open>The ledger stays in order\<close>

definition applied_rows :: "string option \<Rightarrow> revision_table \<Rightarrow> revision_row list" where
  "applied_rows org t = filter (\<lambda>r. cr_status r = Applied_revision \<and> cr_org r = org) (vt_rows t)"

definition row_stamp :: "revision_row \<Rightarrow> timestamp \<times> nat" where
  "row_stamp r = (cr_applied_at r, cr_id r)"

text \<open>
  The rows are in the order of their instants, each has the digest of its content, and in each stream
  two applied revisions in a row have different digests.
\<close>

definition ledger_ok :: "apply_libs \<Rightarrow> config_world \<Rightarrow> bool" where
  "ledger_ok lib w \<longleftrightarrow>
    mono (gw_clock w)
    \<and> (\<forall>r \<in> set (vt_rows (gw_ledger w)). cr_id r < vt_next_id (gw_ledger w) \<and> cr_applied_at r \<le> gw_clock w (gw_calls w)
        \<and> cr_sha r = content_sha256 lib (cr_content r))
    \<and> sorted (map row_stamp (vt_rows (gw_ledger w)))
    \<and> (\<forall>org. distinct_adj (map cr_sha (applied_rows org (gw_ledger w))))"

lemma newest_first_sorted:
  assumes "sorted (map row_stamp rows)"
  shows "newest_first rows = rev rows"
proof -
  have "sort_key row_stamp rows = rows"
    by (rule properties_for_sort_key) (use assms in simp_all)
  then show ?thesis by (simp add: newest_first_def row_stamp_def [abs_def])
qed

lemma latest_is_last:
  assumes "sorted (map row_stamp (vt_rows t))" "latest_applied_config_revision org t = Inr current"
  shows "current = (if applied_rows org t = [] then None else Some (last (applied_rows org t)))"
proof -
  have "sorted (map row_stamp (applied_rows org t))"
    unfolding applied_rows_def using assms(1) by (rule sorted_filter)
  then have "newest_first (applied_rows org t) = rev (applied_rows org t)" by (rule newest_first_sorted)
  moreover have "newest_first (filter (\<lambda>r. cr_status r = Applied_revision \<and> cr_org r = org) (vt_rows t)) = newest_first (applied_rows org t)"
    by (simp add: applied_rows_def)
  ultimately show ?thesis
    using assms(2)
    by (cases "applied_rows org t" rule: rev_cases)
      (auto simp: latest_applied_config_revision_def stream_config_revision_def map_config_revision_row_def
        split: if_splits)
qed

lemma distinct_adj_snoc:
  "distinct_adj (xs @ [x]) \<longleftrightarrow> distinct_adj xs \<and> (xs \<noteq> [] \<longrightarrow> last xs \<noteq> x)"
  by (auto simp: distinct_adj_append_iff)

lemma applied_with_row:
  "applied_rows org (with_row r t) =
    applied_rows org t @ (if cr_status r = Applied_revision \<and> cr_org r = org then [r] else [])"
  by (simp add: applied_rows_def with_row_def)

interpretation ordered: ledger_contract lib "ledger_ok lib" for lib
proof
  fix w w' assume ok: "ledger_ok lib w" and same: "same_surroundings w w'" and t: "gw_ledger w' = gw_ledger w"
  have "gw_clock w (gw_calls w) \<le> gw_clock w (gw_calls w')"
    using ok same by (auto simp: ledger_ok_def same_surroundings_def intro: monoD)
  then show "ledger_ok lib w'"
    using ok same t unfolding ledger_ok_def same_surroundings_def by fastforce
next
  fix w r w'
  assume ok: "ledger_ok lib w" and row: "recordable lib w r" and same: "same_surroundings w w'"
    and calls: "gw_calls w' = gw_calls w + 1" and t: "gw_ledger w' = with_row r (gw_ledger w)"
  have later: "gw_clock w (gw_calls w) \<le> gw_clock w (gw_calls w')"
    using ok same by (auto simp: ledger_ok_def same_surroundings_def intro: monoD)
  have clock: "gw_clock w' = gw_clock w" using same by (simp add: same_surroundings_def)
  have rows: "\<forall>x \<in> set (vt_rows (gw_ledger w')). cr_id x < vt_next_id (gw_ledger w') \<and> cr_applied_at x \<le> gw_clock w' (gw_calls w')
      \<and> cr_sha x = content_sha256 lib (cr_content x)"
    using ok row later unfolding t clock by (force simp: ledger_ok_def recordable_def with_row_def)
  have "\<forall>x \<in> set (vt_rows (gw_ledger w)). row_stamp x \<le> row_stamp r"
    using ok row by (force simp: ledger_ok_def recordable_def row_stamp_def)
  then have order: "sorted (map row_stamp (vt_rows (gw_ledger w')))"
    using ok unfolding t by (auto simp: ledger_ok_def with_row_def sorted_append)
  have "distinct_adj (map cr_sha (applied_rows org (gw_ledger w')))" for org
  proof (cases "cr_status r = Applied_revision \<and> cr_org r = org")
    case True
    then obtain current where "latest_applied_config_revision org (gw_ledger w) = Inr current"
      and new: "map_option cr_sha current \<noteq> Some (cr_sha r)"
      using row by (auto simp: recordable_def)
    from latest_is_last [OF _ this(1)] ok
    have "current = (if applied_rows org (gw_ledger w) = [] then None else Some (last (applied_rows org (gw_ledger w))))"
      by (simp add: ledger_ok_def)
    then have "applied_rows org (gw_ledger w) \<noteq> [] \<longrightarrow> cr_sha (last (applied_rows org (gw_ledger w))) \<noteq> cr_sha r"
      using new by auto
    then show ?thesis
      using ok True unfolding t by (auto simp: applied_with_row distinct_adj_snoc ledger_ok_def last_map)
  next
    case False
    then show ?thesis using ok unfolding t by (auto simp: applied_with_row ledger_ok_def)
  qed
  then show "ledger_ok lib w'" using ok rows order clock by (simp add: ledger_ok_def)
qed

text \<open>
  C18: Rollback is well defined: whatever is pushed, rolled back or reloaded, and whichever database
  calls fail or lose their answers, in each stream two applied revisions in a row never have the same
  content.
\<close>

theorem consecutive_revisions_differ:
  assumes "ledger_ok lib w"
  shows "distinct_adj (map cr_content (applied_rows org (gw_ledger (run_config_ops lib bootstrap ops w))))"
proof -
  have ok: "ledger_ok lib (run_config_ops lib bootstrap ops w)" using ordered.run_keep assms .
  define rows where "rows = applied_rows org (gw_ledger (run_config_ops lib bootstrap ops w))"
  have "\<forall>r \<in> set rows. cr_sha r = content_sha256 lib (cr_content r)"
    using ok by (auto simp: rows_def applied_rows_def ledger_ok_def)
  then have "map cr_sha rows = map (content_sha256 lib) (map cr_content rows)" by simp
  moreover have "distinct_adj (map cr_sha rows)" using ok by (simp add: ledger_ok_def rows_def)
  ultimately have "distinct_adj (map (content_sha256 lib) (map cr_content rows))" by metis
  then show ?thesis unfolding rows_def [symmetric] by (rule distinct_adj_mapD)
qed

text \<open>Rows that were clean stay, and every new row is.\<close>

interpretation clean: ledger_contract lib "\<lambda>w. \<forall>r \<in> set (vt_rows (gw_ledger w)). clean_body lib (cr_content r)" for lib
  by unfold_locales (auto simp: recordable_def with_row_def)

text \<open>
  C6: The ledger keeps no secret: every revision, applied or rejected, is the empty document or the
  print of a document in which no token, key, password, destination or header value is left.
\<close>

theorem ledger_keeps_no_secret:
  assumes "vt_rows (gw_ledger w) = []" and "r \<in> set (vt_rows (gw_ledger (run_config_ops lib bootstrap ops w)))"
  shows "cr_content r = EMPTY_ORGANIZATION_DOCUMENT
    \<or> (\<exists>f c. dl_print (docs_of lib) f (wire_of c) = Inr (cr_content r) \<and> inline_secrets c = [])"
  using clean.run_keep [of w lib bootstrap ops] assms by (auto simp: clean_body_def)

section \<open>What an applied document leaves\<close>

lemma swap_and_record_done:
  assumes "swap_and_record lib origin scope previous k w = (Inr i, w')"
  shows "gw_running w' = sg_merged k" "same_surroundings w w'" "i = vt_next_id (gw_ledger w)"
    "\<exists>v. gw_ledger v = gw_ledger w \<and> gw_clock v = gw_clock w \<and> gw_ledger w' = with_row
      (attempt_row v (sg_ledger_raw k) (sg_ledger_sha k) origin Applied_revision None (ledger_stream scope)) (gw_ledger w)"
proof -
  obtain r w1 where swap: "apply_runtime lib (sg_merged k) w = (r, w1)" by (cases "apply_runtime lib (sg_merged k) w")
  then obtain u where r: "r = Inr u" using assms by (cases r) (auto simp: swap_and_record_def)
  obtain r2 w2 where rec: "record_attempt (sg_ledger_raw k) (sg_ledger_sha k) origin Applied_revision None (ledger_stream scope) w1 = (r2, w2)"
    by (cases "record_attempt (sg_ledger_raw k) (sg_ledger_sha k) origin Applied_revision None (ledger_stream scope) w1")
  have r2: "r2 = Inr i" "w2 = w'" using assms swap r rec by (auto simp: swap_and_record_def split: sum.splits)
  have only: "runtime_only w w1" "gw_running w1 = sg_merged k"
    using swap_only [of w lib "sg_merged k"] swap_done [of lib "sg_merged k" w] swap r by simp_all
  note effect = record_effect [OF rec]
  show "gw_running w' = sg_merged k" using effect(2) only(2) r2 by (simp add: same_runtime_def)
  show "same_surroundings w w'" using effect(1) only(1) r2 surroundings_trans by (auto simp: runtime_only_def)
  show "i = vt_next_id (gw_ledger w)" using effect(6) r2 only(1) by (simp add: runtime_only_def)
  show "\<exists>v. gw_ledger v = gw_ledger w \<and> gw_clock v = gw_clock w \<and> gw_ledger w' = with_row
      (attempt_row v (sg_ledger_raw k) (sg_ledger_sha k) origin Applied_revision None (ledger_stream scope)) (gw_ledger w)"
    using effect(6) r2 only(1) by (intro exI [of _ w1]) (simp add: runtime_only_def same_surroundings_def)
qed

lemma apply_candidate_done:
  assumes "apply_candidate lib bootstrap origin scope previous k w = (Inr resp, w')"
  shows "gw_running w' = sg_merged k" "same_surroundings w w'" "ay_applied resp" "ay_sha resp = sg_ledger_sha k"
    "ay_revision resp = vt_next_id (gw_ledger w)"
    "\<exists>v. gw_ledger v = gw_ledger w \<and> gw_clock v = gw_clock w \<and> gw_ledger w' = with_row
      (attempt_row v (sg_ledger_raw k) (sg_ledger_sha k) origin Applied_revision None (ledger_stream scope)) (gw_ledger w)"
proof -
  obtain r w1 where stored: "store_secrets lib bootstrap scope previous k w = (r, w1)"
    by (cases "store_secrets lib bootstrap scope previous k w")
  then have keeps: "keeps_running w w1" using store_secrets_keeps [of w lib bootstrap scope previous k] by simp
  have valid: "vr_valid (validate_full (libs_at lib w) (sg_merged k))"
    using assms by (auto simp: apply_candidate_def Let_def map_prod_def split: if_splits prod.splits)
  obtain u where r: "r = Inr u" using assms stored valid by (cases r) (auto simp: apply_candidate_def Let_def)
  obtain i where fin: "swap_and_record lib origin scope previous k w1 = (Inr i, w')" "ay_revision resp = i"
    "ay_applied resp" "ay_sha resp = sg_ledger_sha k"
    using assms stored valid r
    by (cases "swap_and_record lib origin scope previous k w1"; cases "fst (swap_and_record lib origin scope previous k w1)")
      (auto simp: apply_candidate_def Let_def)
  note fact = swap_and_record_done [OF fin(1)]
  show "gw_running w' = sg_merged k" "ay_applied resp" "ay_sha resp = sg_ledger_sha k" using fact fin by simp_all
  show "same_surroundings w w'" using fact(2) keeps surroundings_trans by (auto simp: keeps_running_def)
  show "ay_revision resp = vt_next_id (gw_ledger w)" using fact(3) fin(2) keeps by (simp add: keeps_running_def)
  show "\<exists>v. gw_ledger v = gw_ledger w \<and> gw_clock v = gw_clock w \<and> gw_ledger w' = with_row
      (attempt_row v (sg_ledger_raw k) (sg_ledger_sha k) origin Applied_revision None (ledger_stream scope)) (gw_ledger w)"
    using fact(4) keeps by (simp add: keeps_running_def same_surroundings_def)
qed

lemma rotate_done:
  assumes "rotate_secrets lib bootstrap origin scope previous i k w = (Inr resp, w')"
  shows "keeps_running w w'" "ay_sha resp = sg_ledger_sha k" "ay_revision resp = i"
proof -
  obtain r w1 where stored: "store_secrets lib bootstrap scope previous k w = (r, w1)"
    by (cases "store_secrets lib bootstrap scope previous k w")
  then have "keeps_running w w1" using store_secrets_keeps [of w lib bootstrap scope previous k] by simp
  then show "keeps_running w w'" "ay_sha resp = sg_ledger_sha k" "ay_revision resp = i"
    using assms stored
    by (cases r; auto simp: rotate_secrets_def Let_def unchanged_response_def map_prod_def split: if_splits prod.splits)+
qed

lemma apply_steps:
  assumes "ledger_query (latest_applied_config_revision (ledger_stream scope)) w = (Inr current, w1)"
    and "map_option cr_sha current \<noteq> Some (content_sha256 lib raw)"
    and "resolve_scoped_candidate lib bootstrap raw hint scope (Some (gw_running w1)) w1 = (r, w2)"
  shows "apply_document lib bootstrap raw hint origin scope w =
    (case r of
       Inl e \<Rightarrow> map_prod Inl id (reject_document lib raw origin (ledger_stream scope) e w2)
     | Inr k \<Rightarrow>
         if map_option cr_sha current = Some (sg_ledger_sha k) then
           rotate_secrets lib bootstrap origin scope (gw_running w1) (cr_id (the current)) k w2
         else apply_candidate lib bootstrap origin scope (gw_running w1) k w2)"
  using assms by (cases r) (simp_all add: apply_document_def Let_def del: map_option_eq_Some)

text \<open>An answer is about the newest revision, or about the candidate that has just been recorded.\<close>

lemma answered:
  assumes "apply_document lib bootstrap raw hint origin scope w = (Inr resp, w')"
  shows "(\<exists>r. latest_applied_config_revision (ledger_stream scope) (gw_ledger w) = Inr (Some r) \<and> cr_sha r = ay_sha resp
        \<and> cr_id r = ay_revision resp \<and> keeps_running w w')
    \<or> (\<exists>k v u. fst (resolve_scoped_candidate lib bootstrap raw hint scope (Some (gw_running w)) u) = Inr k
        \<and> reads_only w u \<and> gw_running w' = sg_merged k \<and> same_surroundings w w' \<and> ay_applied resp
        \<and> ay_sha resp = sg_ledger_sha k \<and> ay_revision resp = vt_next_id (gw_ledger w)
        \<and> gw_ledger v = gw_ledger w \<and> gw_clock v = gw_clock w \<and> gw_ledger w' = with_row
          (attempt_row v (sg_ledger_raw k) (sg_ledger_sha k) origin Applied_revision None (ledger_stream scope)) (gw_ledger w))"
proof -
  obtain r w1 where query: "ledger_query (latest_applied_config_revision (ledger_stream scope)) w = (r, w1)"
    by (cases "ledger_query (latest_applied_config_revision (ledger_stream scope)) w")
  then have reads1: "reads_only w w1" using query_reads [of w "latest_applied_config_revision (ledger_stream scope)"] by simp
  obtain current where r: "r = Inr current"
    using assms query by (cases r) (auto simp: apply_document_def)
  then have current: "latest_applied_config_revision (ledger_stream scope) (gw_ledger w) = Inr current"
    using query_answer [of "latest_applied_config_revision (ledger_stream scope)" w] query by simp
  show ?thesis
  proof (cases "map_option cr_sha current = Some (content_sha256 lib raw)")
    case True
    then show ?thesis
      using assms query r current reads_keep_running [OF reads1]
      by (auto simp: apply_document_def Let_def unchanged_response_def)
  next
    case new: False
    obtain r2 w2 where scoped: "resolve_scoped_candidate lib bootstrap raw hint scope (Some (gw_running w1)) w1 = (r2, w2)"
      by (cases "resolve_scoped_candidate lib bootstrap raw hint scope (Some (gw_running w1)) w1")
    then have reads2: "reads_only w1 w2"
      using candidate_reads [of w1 lib bootstrap raw hint scope "Some (gw_running w1)"] by simp
    obtain k where k: "r2 = Inr k"
    proof (cases r2)
      case (Inl e)
      then have "map_prod Inl id (reject_document lib raw origin (ledger_stream scope) e w2) = (Inr resp, w')"
        using assms apply_steps [OF query [unfolded r] new scoped] by simp
      then show ?thesis by (simp add: map_prod_def split: prod.splits)
    qed (use that in blast)
    have running: "gw_running w1 = gw_running w" using reads1 by (simp add: reads_only_def same_runtime_def)
    have reads: "reads_only w w2" using reads1 reads2 reads_only_trans by blast
    show ?thesis
    proof (cases "map_option cr_sha current = Some (sg_ledger_sha k)")
      case True
      then obtain c where c: "current = Some c" "cr_sha c = sg_ledger_sha k" by auto
      have "rotate_secrets lib bootstrap origin scope (gw_running w1) (cr_id c) k w2 = (Inr resp, w')"
        using assms apply_steps [OF query [unfolded r] new scoped] k True c by simp
      note rotated = rotate_done [OF this]
      have "keeps_running w w'" using reads_keep_running [OF reads] rotated(1) by (rule keeps_running_trans)
      then show ?thesis using current c rotated by auto
    next
      case False
      then have "apply_candidate lib bootstrap origin scope (gw_running w1) k w2 = (Inr resp, w')"
        using assms apply_steps [OF query [unfolded r] new scoped] k by (simp del: map_option_eq_Some)
      note fin = apply_candidate_done [OF this]
      have same: "same_surroundings w w'" "gw_ledger w2 = gw_ledger w" "gw_clock w2 = gw_clock w"
        using reads fin(2) surroundings_trans by (auto simp: reads_only_def same_surroundings_def)
      obtain v where "gw_ledger v = gw_ledger w" "gw_clock v = gw_clock w" "gw_ledger w' = with_row
          (attempt_row v (sg_ledger_raw k) (sg_ledger_sha k) origin Applied_revision None (ledger_stream scope)) (gw_ledger w)"
        using fin(6) same by auto
      moreover have "fst (resolve_scoped_candidate lib bootstrap raw hint scope (Some (gw_running w)) w1) = Inr k"
        using scoped k running by simp
      ultimately show ?thesis using reads1 fin same by (intro disjI2 exI [of _ k] exI [of _ v] exI [of _ w1]) simp
    qed
  qed
qed

lemma answered_cases [consumes 1, case_names newest recorded]:
  assumes "apply_document lib bootstrap raw hint origin scope w = (Inr resp, w')"
  obtains r where "latest_applied_config_revision (ledger_stream scope) (gw_ledger w) = Inr (Some r)"
      "cr_sha r = ay_sha resp" "cr_id r = ay_revision resp" "keeps_running w w'"
    | k v u where "fst (resolve_scoped_candidate lib bootstrap raw hint scope (Some (gw_running w)) u) = Inr k"
      "reads_only w u" "gw_running w' = sg_merged k" "same_surroundings w w'" "ay_applied resp"
      "ay_sha resp = sg_ledger_sha k" "ay_revision resp = vt_next_id (gw_ledger w)" "gw_ledger v = gw_ledger w"
      "gw_clock v = gw_clock w" "gw_ledger w' = with_row
        (attempt_row v (sg_ledger_raw k) (sg_ledger_sha k) origin Applied_revision None (ledger_stream scope)) (gw_ledger w)"
  using answered [OF assms] by (elim disjE exE conjE) (rule that; assumption)+

text \<open>
  An applied document is on record: when a push is answered, the newest applied revision of its
  stream is the reported one, with the reported digest, and the revisions of all other streams are what
  they were.
\<close>

theorem applied_is_recorded:
  assumes "ledger_ok lib w" and "apply_document lib bootstrap raw hint origin scope w = (Inr resp, w')"
  shows "(\<exists>rs r. applied_rows (ledger_stream scope) (gw_ledger w') = rs @ [r]
        \<and> cr_id r = ay_revision resp \<and> cr_sha r = ay_sha resp)
    \<and> (\<forall>org. org \<noteq> ledger_stream scope \<longrightarrow> applied_rows org (gw_ledger w') = applied_rows org (gw_ledger w))"
  using assms(2)
proof (cases rule: answered_cases)
  case (newest r)
  define rows where "rows = applied_rows (ledger_stream scope) (gw_ledger w)"
  have "rows \<noteq> []" "last rows = r"
    using latest_is_last [OF _ newest(1)] assms(1) by (auto simp: ledger_ok_def rows_def split: if_splits)
  then have "rows = butlast rows @ [r]" by (metis append_butlast_last_id)
  moreover have "gw_ledger w' = gw_ledger w" using newest(4) by (simp add: keeps_running_def)
  ultimately show ?thesis using newest(2,3) unfolding rows_def by auto
next
  case (recorded k v u)
  then show ?thesis by (simp add: applied_with_row attempt_row_def)
qed

lemma server_errors:
  "store_secrets lib bootstrap scope previous k w = (Inl e, w') \<Longrightarrow> \<exists>m. e = Server_error m"
  "swap_and_record lib origin scope previous k w = (Inl e, w') \<Longrightarrow> \<exists>m. e = Server_error m"
  by (auto simp: store_secrets_def prune_stale_app_secrets_def previous_secret_env_refs_def swap_and_record_def
      apply_runtime_def record_attempt_def Let_def
      split: prod.splits sum.splits option.splits if_splits apply_scope.splits)

text \<open>A push that ends with an error could not read the ledger, or ends with one of the three later steps.\<close>

lemma refused_cases [consumes 1, case_names unread document rotation candidate]:
  assumes "apply_document lib bootstrap raw hint origin scope w = (Inl e, w')"
  obtains m where "e = Server_error m" "reads_only w w'"
    | x u where "reads_only w u" "w' = snd (reject_document lib raw origin (ledger_stream scope) x u)"
    | i k u where "reads_only w u" "rotate_secrets lib bootstrap origin scope (gw_running u) i k u = (Inl e, w')"
    | k u where "reads_only w u" "apply_candidate lib bootstrap origin scope (gw_running u) k u = (Inl e, w')"
proof -
  obtain r w1 where query: "ledger_query (latest_applied_config_revision (ledger_stream scope)) w = (r, w1)"
    by (cases "ledger_query (latest_applied_config_revision (ledger_stream scope)) w")
  then have reads1: "reads_only w w1" using query_reads [of w "latest_applied_config_revision (ledger_stream scope)"] by simp
  show thesis
  proof (cases r)
    case (Inl x)
    then show thesis using assms query reads1 that(1) [of "store_error_text x"] by (auto simp: apply_document_def)
  next
    case r: (Inr current)
    have new: "map_option cr_sha current \<noteq> Some (content_sha256 lib raw)"
      using assms query r by (auto simp: apply_document_def Let_def)
    obtain r2 w2 where scoped: "resolve_scoped_candidate lib bootstrap raw hint scope (Some (gw_running w1)) w1 = (r2, w2)"
      by (cases "resolve_scoped_candidate lib bootstrap raw hint scope (Some (gw_running w1)) w1")
    then have reads2: "reads_only w1 w2"
      using candidate_reads [of w1 lib bootstrap raw hint scope "Some (gw_running w1)"] by simp
    then have reads: "reads_only w w2" and running: "gw_running w1 = gw_running w2"
      using reads_only_trans [OF reads1] by (simp_all add: reads_only_def same_runtime_def)
    note steps = apply_steps [OF query [unfolded r] new scoped, of origin]
    show thesis
    proof (cases r2)
      case (Inl x)
      then show thesis using that(2) [OF reads, of x] assms steps
        by (cases "reject_document lib raw origin (ledger_stream scope) x w2") simp
    next
      case (Inr k)
      then show thesis using that(3,4) [OF reads] assms steps running
        by (cases "map_option cr_sha current = Some (sg_ledger_sha k)") (simp_all del: map_option_eq_Some)
    qed
  qed
qed

text \<open>
  C19: A rejected document changes nothing: when a push is refused because of the document, what is
  running, the secrets and every applied revision are what they were; at most a rejected revision was
  added.
\<close>

theorem rejected_changes_nothing:
  assumes "apply_document lib bootstrap raw hint origin scope w = (Inl e, w')"
    and "\<And>m. e \<noteq> Server_error m"
  shows "same_runtime w w' \<and> same_secrets w w' \<and> applied_rows org (gw_ledger w') = applied_rows org (gw_ledger w)"
proof -
  define quiet where "quiet u v \<longleftrightarrow> same_runtime u v \<and> same_secrets u v \<and> applied_rows org (gw_ledger v) = applied_rows org (gw_ledger u)" for u v
  have reads: "quiet u v" if "reads_only u v" for u v using that by (simp add: quiet_def reads_only_def)
  have trans: "quiet u v \<Longrightarrow> quiet v x \<Longrightarrow> quiet u x" for u v x
    by (auto simp: quiet_def frame_defs)
  have rec: "quiet u v" if "record_attempt body sha origin Rejected_revision err stream u = (r, v)" for body sha err stream u v r
    using record_effect(2,3,5) [OF that] by (auto simp: quiet_def applied_with_row attempt_row_def)
  have rejected: "quiet u (snd (reject_document lib raw origin stream x u))" for stream x u
    by (cases x) (auto simp: reject_document_def Let_def reads split: prod.split sum.split dest: rec)
  have invalid: "quiet u (snd (reject_invalid k report origin stream u))" for k report stream u
    by (auto simp: reject_invalid_def Let_def split: prod.split sum.split dest: rec)
  from assms(1) have "quiet w w'"
  proof (cases rule: refused_cases)
    case (unread m)
    then show ?thesis using assms(2) by simp
  next
    case (document x u)
    then show ?thesis using trans [OF reads] rejected by blast
  next
    case (rotation i k u)
    define report where "report = validate_full (libs_at lib u) (sg_merged k)"
    have "w' = snd (reject_invalid k report origin (ledger_stream scope) u)"
      using rotation(2) assms(2) server_errors(1) [of lib bootstrap scope "gw_running u" k u e w']
      by (cases "reject_invalid k report origin (ledger_stream scope) u")
        (auto simp: rotate_secrets_def Let_def report_def [symmetric] split: if_splits prod.splits sum.splits)
    then show ?thesis using trans [OF reads [OF rotation(1)]] invalid by blast
  next
    case (candidate k u)
    define report where "report = validate_full (libs_at lib u) (sg_merged k)"
    have "w' = snd (reject_invalid k report origin (ledger_stream scope) u)"
      using candidate(2) assms(2) server_errors(1) [of lib bootstrap scope "gw_running u" k u e]
        server_errors(2) [of lib origin scope "gw_running u" k _ e w']
      by (cases "reject_invalid k report origin (ledger_stream scope) u")
        (auto simp: apply_candidate_def Let_def report_def [symmetric] split: if_splits prod.splits sum.splits)
    then show ?thesis using trans [OF reads [OF candidate(1)]] invalid by blast
  qed
  then show ?thesis by (simp add: quiet_def)
qed

text \<open>
  A rotated secret reaches nothing that runs: when a push is answered without a new revision, also
  when it reports that it was applied because a secret has changed, the watches and the sinks are the
  ones that were built with the old secrets.
\<close>

theorem rotation_reaches_no_sink:
  assumes "apply_document lib bootstrap raw hint origin scope w = (Inr resp, w')" and "gw_ledger w' = gw_ledger w"
  shows "gw_watches w' = gw_watches w \<and> gw_sinks w' = gw_sinks w"
  using assms(1)
proof (cases rule: answered_cases)
  case newest
  then show ?thesis by (simp add: keeps_running_def same_runtime_def)
next
  case (recorded k v u)
  have "length (vt_rows (gw_ledger w')) = length (vt_rows (gw_ledger w)) + 1"
    by (simp add: recorded(10) with_row_def)
  then show ?thesis using assms(2) by simp
qed

text \<open>Whether watches can be built does not depend on the secrets.\<close>

lemma build_watch_any_env:
  "build_watch x i p c = Inr u \<Longrightarrow> \<exists>u'. build_watch (x\<lparr>bx_env := e\<rparr>) i p' c = Inr u'"
  by (cases "with_preset_resolved (bx_presets x) i c"; cases "common_schedule (bx_defaults x) (projr (with_preset_resolved (bx_presets x) i c))")
    (auto simp: build_watch_def split: sum.splits)

lemma bitbucket_any_token: "bitbucket_provider c i t = Inr p \<Longrightarrow> \<exists>p'. bitbucket_provider c i t' = Inr p'"
  by (cases "bk_edition c"; cases "bk_host c") (simp_all add: bitbucket_provider_def)

lemma into_watch_any_env:
  assumes "into_watch x s = Inr u"
  shows "\<exists>u'. into_watch (x\<lparr>bx_env := e\<rparr>) s = Inr u'"
proof (cases s)
  case (Bitbucket_cfg c)
  obtain p where "bitbucket_provider c (id_or (bk_id c) (''bitbucket:'' @ bk_repo c))
      (resolve_token (bx_env x) (bk_token c) (bk_token_env c) ''BITBUCKET_TOKEN'') = Inr p"
    and built: "build_watch x (id_or (bk_id c) (''bitbucket:'' @ bk_repo c)) p (bk_common c) = Inr u"
    using assms Bitbucket_cfg by (auto simp: Let_def split: sum.splits)
  from bitbucket_any_token [OF this(1)] obtain p' where
    "bitbucket_provider c (id_or (bk_id c) (''bitbucket:'' @ bk_repo c))
      (resolve_token e (bk_token c) (bk_token_env c) ''BITBUCKET_TOKEN'') = Inr p'" by blast
  then show ?thesis using Bitbucket_cfg build_watch_any_env [OF built] by simp
qed (use assms in \<open>auto simp: build_gitea_watch_def build_package_watch_def build_container_watch_def container_watch_def
      Let_def dest: build_watch_any_env split: sum.splits gitea_preset_cfg.splits\<close>)

lemma watches_any_env:
  assumes "to_watches (libs_at lib w) c = Inr ws"
  shows "\<exists>ws'. to_watches (libs_at lib w') c = Inr ws'"
proof -
  let ?x = "build_ctx_of (libs_at lib w) c" and ?x' = "build_ctx_of (libs_at lib w') c"
  have x': "?x' = ?x\<lparr>bx_env := env_of w'\<rparr>" by (simp add: build_ctx_of_def libs_at_def)
  have "\<exists>v. source_watch ?x' s = Inr v" if s: "s \<in> set (cf_sources c)" for s
  proof -
    have "map (source_watch ?x) (cf_sources c) = map Inr ws" using assms by (simp add: to_watches_def collect_Inr)
    then obtain v where "source_watch ?x s = Inr v" using s by (metis imageE image_eqI list.set_map)
    then obtain u where "into_watch ?x s = Inr u" by (auto simp: source_watch_def split: sum.splits)
    from into_watch_any_env [OF this, of "env_of w'"] show ?thesis unfolding x' by (auto simp: source_watch_def)
  qed
  then have "\<forall>s \<in> set (cf_sources c). source_watch ?x' s = Inr (projr (source_watch ?x' s))" by fastforce
  then have "map (source_watch ?x') (cf_sources c) = map Inr (map (projr \<circ> source_watch ?x') (cf_sources c))" by simp
  then show ?thesis unfolding to_watches_def collect_Inr by blast
qed

text \<open>A configuration runs: its watches and sinks are those built from it and the secrets in memory.\<close>

definition runs :: "apply_libs \<Rightarrow> config \<Rightarrow> config_world \<Rightarrow> bool" where
  "runs lib c w \<longleftrightarrow> gw_running w = c \<and> to_watches (libs_at lib w) c = Inr (gw_watches w)
     \<and> gw_sinks w = built_sinks (env_of w) (yl_json lib) c"

lemma swap_runs: "fst (apply_runtime lib c w) = Inr u \<Longrightarrow> runs lib c (snd (apply_runtime lib c w))"
  by (auto simp: apply_runtime_def Let_def runs_def libs_at_def env_of_def split: sum.splits option.splits)

lemma swap_answer:
  "to_watches (libs_at lib w) c = Inr ws \<Longrightarrow> fst (apply_runtime lib c w) = Inl e \<Longrightarrow>
   gw_swap_fault w (gw_swaps (snd (apply_runtime lib c w)) - 1) \<noteq> None"
  by (auto simp: apply_runtime_def Let_def split: option.splits)

lemma runs_cong:
  "same_runtime w w' \<Longrightarrow> same_secrets w w' \<Longrightarrow> gw_vars w' = gw_vars w \<Longrightarrow> runs lib c w \<Longrightarrow> runs lib c w'"
  by (simp add: runs_def same_runtime_def same_secrets_def libs_at_def env_of_def)

text \<open>
  What runs after a failure: the runtime of before; or, when only the record failed, the previous
  configuration built anew; or, when its swap failed as well, the candidate.
\<close>

definition after_failure :: "apply_libs \<Rightarrow> apply_error \<Rightarrow> config_world \<Rightarrow> config_world \<Rightarrow> bool" where
  "after_failure lib e w w' \<longleftrightarrow> same_runtime w w'
     \<or> e = Server_error ''recording config revision'' \<and> (runs lib (gw_running w) w'
        \<or> gw_swap_fault w (gw_swaps w' - 1) \<noteq> None \<and> (\<exists>c. vr_valid (validate_full (libs_at lib w) c) \<and> runs lib c w'))"

lemma failed_swap_and_record:
  assumes "swap_and_record lib origin scope previous k w = (Inl e, w')"
    and "to_watches (libs_at lib w0) previous = Inr ws"
  shows "same_runtime w w' \<or> e = Server_error ''recording config revision'' \<and> (runs lib previous w'
     \<or> gw_swap_fault w (gw_swaps w' - 1) \<noteq> None \<and> runs lib (sg_merged k) w')"
proof -
  obtain r w1 where swap: "apply_runtime lib (sg_merged k) w = (r, w1)" by (cases "apply_runtime lib (sg_merged k) w")
  show ?thesis
  proof (cases r)
    case (Inl x)
    then have "w' = w1" using assms(1) swap by (simp add: swap_and_record_def)
    then show ?thesis using swap_failed [of lib "sg_merged k" w x] swap Inl by simp
  next
    case (Inr u)
    obtain r2 w2 where rec: "record_attempt (sg_ledger_raw k) (sg_ledger_sha k) origin Applied_revision None (ledger_stream scope) w1 = (r2, w2)"
      by (cases "record_attempt (sg_ledger_raw k) (sg_ledger_sha k) origin Applied_revision None (ledger_stream scope) w1")
    have w': "w' = snd (apply_runtime lib previous w2)" "r2 = Inl e"
      using assms(1) swap Inr rec by (cases r2; simp add: swap_and_record_def)+
    note effect = record_effect(1-3,7) [OF rec]
    have fault: "gw_swap_fault w2 = gw_swap_fault w"
      using swap_only [of w lib "sg_merged k"] swap effect(1) by (simp add: runtime_only_def same_surroundings_def)
    have "runs lib (sg_merged k) w2"
      using swap_runs [of lib "sg_merged k" w u] swap Inr runs_cong [OF effect(2,3)] effect(1)
      by (simp add: same_surroundings_def)
    moreover obtain ws' where "to_watches (libs_at lib w2) previous = Inr ws'"
      using watches_any_env [OF assms(2)] by blast
    ultimately have "runs lib previous w' \<or> gw_swap_fault w (gw_swaps w' - 1) \<noteq> None \<and> runs lib (sg_merged k) w'"
      using swap_runs [of lib previous w2] swap_answer [of lib w2 previous] swap_failed [of lib previous w2]
        runs_cong [of w2 w'] swap_only [of w2 lib previous] fault w'(1)
      by (cases "fst (apply_runtime lib previous w2)") (auto simp: runtime_only_def same_surroundings_def)
    then show ?thesis using effect(4) w'(2) by simp
  qed
qed

lemma record_same_runtime: "record_attempt raw sha origin status err stream u = (r, v) \<Longrightarrow> same_runtime u v"
  using record_effect(2) by blast

lemma same_runtime_refl [simp]: "same_runtime u u" by (simp add: same_runtime_def)

lemma refusals_keep_running:
  "same_runtime u (snd (reject_document lib raw origin stream x u))"
  "same_runtime u (snd (reject_invalid k report origin stream u))"
  by (cases x; auto simp: reject_document_def Let_def split: prod.split sum.split dest: record_same_runtime)
    (auto simp: reject_invalid_def Let_def split: prod.split sum.split dest: record_same_runtime)

lemma rotate_keeps_running: "same_runtime w (snd (rotate_secrets lib bootstrap origin scope previous i k w))"
proof -
  obtain r w1 where stored: "store_secrets lib bootstrap scope previous k w = (r, w1)"
    by (cases "store_secrets lib bootstrap scope previous k w")
  then have "keeps_running w w1" using store_secrets_keeps [of w lib bootstrap scope previous k] by simp
  then show ?thesis
    using stored refusals_keep_running(2)
    by (cases r) (simp_all add: rotate_secrets_def Let_def keeps_running_def)
qed

lemma candidate_failure:
  assumes "apply_candidate lib bootstrap origin scope (gw_running w) k w = (Inl e, w')"
    and "to_watches (libs_at lib w0) (gw_running w) = Inr ws"
  shows "after_failure lib e w w'"
proof -
  obtain r w1 where stored: "store_secrets lib bootstrap scope (gw_running w) k w = (r, w1)"
    by (cases "store_secrets lib bootstrap scope (gw_running w) k w")
  then have keeps: "same_runtime w w1" "gw_swap_fault w1 = gw_swap_fault w"
    using store_secrets_keeps [of w lib bootstrap scope "gw_running w" k] by (simp_all add: keeps_running_def same_surroundings_def)
  show ?thesis
  proof (cases "vr_valid (validate_full (libs_at lib w) (sg_merged k))")
    case False
    then have "w' = snd (reject_invalid k (validate_full (libs_at lib w) (sg_merged k)) origin (ledger_stream scope) w)"
      using assms(1) by (cases "reject_invalid k (validate_full (libs_at lib w) (sg_merged k)) origin (ledger_stream scope) w")
        (simp add: apply_candidate_def Let_def)
    then show ?thesis using refusals_keep_running(2) by (simp add: after_failure_def)
  next
    case valid: True
    show ?thesis
    proof (cases r)
      case (Inl x)
      then show ?thesis using assms(1) stored valid keeps by (simp add: apply_candidate_def Let_def after_failure_def)
    next
      case (Inr u)
      then have x: "swap_and_record lib origin scope (gw_running w) k w1 = (Inl e, w')"
        using assms(1) stored valid by (auto simp: apply_candidate_def Let_def split: prod.splits sum.splits)
      show ?thesis
        using failed_swap_and_record [OF x assms(2)] keeps valid unfolding after_failure_def same_runtime_def by metis
    qed
  qed
qed

text \<open>
  C8: A failed push leaves what ran.  Whatever error a push ends with: the running configuration, its
  watches and its sinks are untouched; or only the record of the revision failed, after the swap, and
  then the previous configuration runs again, its watches and sinks built anew from the secrets now in
  memory, unless its swap, the last one made, has failed as well: in that one case a candidate that
  passed validation runs unrecorded.  The secrets that only the previous configuration uses may be
  pruned by then.
\<close>

theorem failed_apply_keeps_running:
  assumes "apply_document lib bootstrap raw hint origin scope w = (Inl e, w')"
    and "to_watches (libs_at lib w) (gw_running w) = Inr ws"
  shows "same_runtime w w'
    \<or> e = Server_error ''recording config revision'' \<and> (runs lib (gw_running w) w'
       \<or> gw_swap_fault w (gw_swaps w' - 1) \<noteq> None \<and> (\<exists>c. vr_valid (validate_full (libs_at lib w) c) \<and> runs lib c w'))"
proof -
  have trans: "after_failure lib e w v" if "reads_only w u" "after_failure lib e u v" for u v
    using that by (simp add: after_failure_def frame_defs libs_at_def env_of_def)
  have "after_failure lib e w w'"
    using assms(1)
  proof (cases rule: refused_cases)
    case (unread m)
    then show ?thesis by (simp add: after_failure_def reads_only_def)
  next
    case (document x u)
    have "after_failure lib e u w'" unfolding document(2) after_failure_def by (rule disjI1) (rule refusals_keep_running(1))
    then show ?thesis by (rule trans [OF document(1)])
  next
    case (rotation i k u)
    have "after_failure lib e u w'"
      using rotate_keeps_running [of u lib bootstrap origin scope "gw_running u" i k] rotation(2) by (simp add: after_failure_def)
    then show ?thesis by (rule trans [OF rotation(1)])
  next
    case (candidate k u)
    have "to_watches (libs_at lib w) (gw_running u) = Inr ws"
      using assms(2) candidate(1) by (simp add: reads_only_def same_runtime_def)
    then show ?thesis using candidate_failure [OF candidate(2)] trans [OF candidate(1)] by blast
  qed
  then show ?thesis unfolding after_failure_def .
qed

section \<open>After a restart\<close>

text \<open>The environment can be laid over before or after the infrastructure of the bootstrap file.\<close>

lemma env_over_bootstrap:
  assumes "load_bootstrap env path file = Inr b"
  shows "apply_env_overrides env (merge_bootstrap_over_desired b d) = merge_bootstrap_over_desired b (apply_env_overrides env d)"
proof -
  obtain b0 where b: "b = strip_desired_sections (apply_env_overrides env b0)"
    using assms unfolding load_bootstrap_def by (auto split: sum.split_asm)
  have "env_database env (cf_database b) = cf_database b" "env_config_api env (cf_config_api b) = cf_config_api b"
    "env_api env (cf_api b) = cf_api b"
    "(case trimmed_nonempty (te_var env ''XRELEASE_LOG'') of Some level \<Rightarrow> level | None \<Rightarrow> cf_log b) = cf_log b"
    by (simp_all add: b strip_desired_sections_def overridden env_fields env_api_twice split: option.split)
  then show ?thesis
    by (cases "trimmed_nonempty (te_var env ''XRELEASE_LOG'')")
      (simp_all add: apply_env_overrides_def merge_bootstrap_over_desired_def)
qed

lemma env_defaults_twice: "env_defaults env (env_defaults env d) = env_defaults env d"
  by (simp add: env_defaults_def env_set_def split: option.split)

lemma env_same_variables:
  "te_var e = te_var e' \<Longrightarrow> apply_env_overrides e c = apply_env_overrides e' c"
  by (simp add: apply_env_overrides_def env_database_def env_api_def env_defaults_def env_config_api_def env_oidc_def
      env_local_auth_def env_set_def Let_def)

definition with_sections :: "config \<Rightarrow> config \<Rightarrow> config" where
  "with_sections m d =
    m\<lparr>cf_defaults := cf_defaults d, cf_notifiers := cf_notifiers d, cf_teams := cf_teams d,
      cf_presets := cf_presets d, cf_sources := cf_sources d\<rparr>"

lemma whole_candidate_shape:
  assumes "load_bootstrap env path file = Inr b" and "whole_candidate lib env b raw hint (Some previous) = Inr k"
  obtains f D where "serialize_desired_only_strict (docs_of lib) f D = Inr (sg_ledger_raw k)"
    "D = desired_state_for_ledger (sg_merged k)" "sg_merged k = merge_bootstrap_over_desired b (apply_env_overrides env D)"
proof -
  obtain d where d: "ensure_desired_only d = Inr ()" and merged: "merge_or_reject lib env b raw hint = Inr (merge_bootstrap_over_desired b (apply_env_overrides env d))"
    using assms unfolding whole_candidate_def merge_or_reject_def merge_pushed_document_def
    by (auto simp: env_over_bootstrap [OF assms(1)] split: sum.splits)
  define m where "m = fst (restore_redacted_secrets previous (merge_bootstrap_over_desired b (apply_env_overrides env d)))"
  define D where "D = fst (normalize_secrets_to_refs (yl_json lib) None (desired_state_for_ledger m))"
  have kept: "cf_defaults m = env_defaults env (cf_defaults d)" "cf_apprise m = apprise_default"
    "cf_database m = cf_database b" "cf_log m = cf_log b" "cf_api m = cf_api b" "cf_config_api m = cf_config_api b"
    "cf_advisories m = cf_advisories b" "cf_organizations m = cf_organizations b"
    using d by (auto simp: m_def restore_redacted_secrets_def merge_bootstrap_over_desired_def Let_def
        apply_env_overrides_def ensure_desired_only_def split: if_splits)
  have D: "cf_defaults D = cf_defaults m" "cf_teams D = cf_teams m" "cf_presets D = cf_presets m" "cf_apprise D = apprise_default"
      "D = config_default\<lparr>cf_defaults := cf_defaults D, cf_notifiers := cf_notifiers D, cf_teams := cf_teams D,
        cf_presets := cf_presets D, cf_sources := cf_sources D\<rparr>"
    by (simp_all add: D_def normalize_parts desired_state_for_ledger_def config_default_def)
  obtain k0 where k0: "candidate_of lib None (format_of raw hint) (desired_state_for_ledger m) = Inr k0"
    and k: "k = k0\<lparr>sg_merged := with_sections m (sg_merged k0)\<rparr>"
    using assms(2) merged by (auto simp: whole_candidate_def m_def [symmetric] Let_def with_sections_def split: sum.splits)
  have raw: "serialize_desired_only_strict (docs_of lib) (format_of raw hint) D = Inr (sg_ledger_raw k)" "sg_merged k = with_sections m D"
    using k0 k by (auto simp: candidate_of_def D_def split_def Let_def split: sum.splits)
  moreover have "desired_state_for_ledger (sg_merged k) = D"
    by (simp add: raw(2) desired_state_for_ledger_def with_sections_def D(5) [symmetric])
  moreover have "sg_merged k = merge_bootstrap_over_desired b (apply_env_overrides env D)"
    unfolding raw(2)
    by (rule config.equality) (simp_all add: with_sections_def merge_bootstrap_over_desired_def apply_env_overrides_def kept D(1-4) env_defaults_twice)
  ultimately show ?thesis using that by simp
qed

text \<open>
  What is asked of the TOML and YAML libraries at a document: the format it was printed in reads it
  back, the other format reads it as nothing else, and a printed document does not start like a
  sealed one.
\<close>

definition prints_back :: "apply_libs \<Rightarrow> config \<Rightarrow> bool" where
  "prints_back lib c \<longleftrightarrow>
    (\<forall>f s. dl_print (docs_of lib) f (wire_of c) = Inr s \<longrightarrow>
      \<not> is_encrypted s \<and> dl_parse (docs_of lib) f s = Inr c
      \<and> (\<forall>g c'. dl_parse (docs_of lib) g s = Inr c' \<longrightarrow> c' = c))"

text \<open>The check for removed keys looks at every line, also at those inside a text of several lines.\<close>

definition clear_of_removed_keys :: "string \<Rightarrow> bool" where
  "clear_of_removed_keys s \<longleftrightarrow> list_all (\<lambda>l. removed_key_of_line l = None) (lines s)"

lemma reject_lines_clear: "(\<exists>u. reject_lines n ls = Inr u) \<longleftrightarrow> list_all (\<lambda>l. removed_key_of_line l = None) ls"
  by (induction ls arbitrary: n) (auto split: option.split)

lemma rejects_removed:
  "if clear_of_removed_keys s then reject_removed_desired_keys s = Inr () else \<exists>e. reject_removed_desired_keys s = Inl e"
  using reject_lines_clear [of 0 "lines s"]
  by (cases "reject_lines 0 (lines s)") (auto simp: clear_of_removed_keys_def reject_removed_desired_keys_def)

lemma printed_parses:
  assumes "prints_back lib c" and "serialize_desired_only_strict (docs_of lib) f c = Inr s"
  shows "if clear_of_removed_keys s then parse_desired_document (docs_of lib) s = Inr c
    else \<exists>e. parse_desired_document (docs_of lib) s = Inl e"
proof -
  have read: "dl_parse (docs_of lib) f s = Inr c" "\<And>g c'. dl_parse (docs_of lib) g s = Inr c' \<Longrightarrow> c' = c"
    using assms by (auto simp: prints_back_def serialize_desired_only_strict_def)
  have place: "f = detect_desired_format s \<or> f = other_format (detect_desired_format s)"
    by (cases f; cases "detect_desired_format s") (simp_all add: other_format_def)
  show ?thesis
  proof (cases "clear_of_removed_keys s")
    case True
    then have as: "parse_as (docs_of lib) s g = dl_parse (docs_of lib) g s" for g
      using rejects_removed [of s] by (simp add: parse_as_def)
    have "parse_desired_document (docs_of lib) s = Inr c"
    proof (cases "dl_parse (docs_of lib) (detect_desired_format s) s")
      case (Inl e)
      then show ?thesis using place read(1)
        by (auto simp: parse_desired_document_def parse_desired_document_with_hint_def as Let_def)
    next
      case (Inr c')
      then show ?thesis using read(2) [OF Inr]
        by (simp add: parse_desired_document_def parse_desired_document_with_hint_def as Let_def)
    qed
    then show ?thesis using True by simp
  next
    case False
    then obtain e where "reject_removed_desired_keys s = Inl e" using rejects_removed [of s] by auto
    then show ?thesis using False
      by (simp add: parse_desired_document_def parse_desired_document_with_hint_def parse_as_def Let_def)
  qed
qed

lemma ledger_document_ok: "ensure_desired_only (desired_state_for_ledger m) = Inr ()"
  by (simp add: ensure_desired_only_def contains_infra_sections_def desired_state_for_ledger_def config_default_def)

text \<open>
  C7: What was applied is what boots, exactly when the boot accepts the recorded text.  Let an instance
  that serves one document (no organizations) with an ordered ledger as its authority answer a push that made
  a new revision.  An instance that starts on the same database and bootstrap file, with no fault at
  its read of the ledger, resolves to exactly the configuration that is running, if no line of the
  recorded text starts with a removed key; otherwise it refuses to start.
\<close>

theorem applied_survives_restart:
  assumes "ledger_ok lib w" and "load_bootstrap (env_of w) path file = Inr b" and "cf_organizations b = []"
    and "ca_source (cf_config_api b) = Api_ledger"
    and "apply_document lib b raw hint origin Whole w = (Inr resp, w')" and "gw_ledger w' \<noteq> gw_ledger w"
    and "prints_back lib (desired_state_for_ledger (gw_running w'))" and "gw_fault w' (gw_calls w') = None"
  shows "if clear_of_removed_keys (cr_content (last (vt_rows (gw_ledger w'))))
    then fst (resolve_config (yl_compose lib) b app format w') = Inr (gw_running w')
    else \<exists>e. fst (resolve_config (yl_compose lib) b app format w') = Inl e"
  using assms(5)
proof (cases rule: answered_cases)
  case (newest r)
  then show ?thesis using assms(6) by (simp add: keeps_running_def)
next
  case (recorded k v u)
  have vars: "te_var (env_of u) = te_var (env_of w)" "te_var (env_of w') = te_var (env_of w)"
    using recorded(2,4) by (simp_all add: env_of_def with_vault_def reads_only_def same_surroundings_def)
  have boot: "load_bootstrap (env_of u) path file = Inr b"
    using assms(2) env_same_variables [OF vars(1)] by (auto simp: load_bootstrap_def split: sum.splits)
  have "whole_candidate lib (env_of u) b raw hint (Some (gw_running w)) = Inr k"
    using recorded(1) by (simp add: resolve_scoped_candidate_def)
  from whole_candidate_shape [OF boot this] obtain f where
    printed: "serialize_desired_only_strict (docs_of lib) f (desired_state_for_ledger (sg_merged k)) = Inr (sg_ledger_raw k)"
    and shape: "sg_merged k = merge_bootstrap_over_desired b (apply_env_overrides (env_of u) (desired_state_for_ledger (sg_merged k)))"
    by metis
  have reread: "\<not> is_encrypted (sg_ledger_raw k)" and parsed:
    "if clear_of_removed_keys (sg_ledger_raw k)
     then parse_desired_document (docs_of lib) (sg_ledger_raw k) = Inr (desired_state_for_ledger (sg_merged k))
     else \<exists>e. parse_desired_document (docs_of lib) (sg_ledger_raw k) = Inl e"
    using assms(7) printed recorded(3) printed_parses [OF _ printed]
    by (auto simp: prints_back_def serialize_desired_only_strict_def)
  define row where "row = attempt_row v (sg_ledger_raw k) (sg_ledger_sha k) origin Applied_revision None None"
  have "ledger_ok lib w'" using ordered.apply_document_keep [OF assms(1), of b raw hint origin Whole] assms(5) by simp
  then have order: "sorted (map row_stamp (applied_rows None (gw_ledger w')))"
    unfolding ledger_ok_def applied_rows_def by (blast intro: sorted_filter)
  have last: "applied_rows None (gw_ledger w') = applied_rows None (gw_ledger w) @ [row]"
    using recorded(10) by (simp add: row_def applied_with_row attempt_row_def)
  have "latest_applied_config_revision None (gw_ledger w') = Inr (Some row)"
    using newest_first_sorted [OF order] reread last
    by (simp add: latest_applied_config_revision_def stream_config_revision_def applied_rows_def [symmetric]
        map_config_revision_row_def row_def attempt_row_def)
  then have "ledger_query (latest_applied_config_revision None) w' = (Inr (Some row), w'\<lparr>gw_calls := gw_calls w' + 1\<rparr>)"
    using assms(8) by (simp add: ledger_query_def Let_def)
  moreover have "cr_content (last (vt_rows (gw_ledger w'))) = sg_ledger_raw k"
    using recorded(10) by (simp add: with_row_def attempt_row_def)
  ultimately show ?thesis
    using assms(3,4) parsed ledger_document_ok [of "sg_merged k"] shape recorded(3)
      env_same_variables [of "env_of u" "env_of w'" "desired_state_for_ledger (sg_merged k)"] vars
    by (cases "clear_of_removed_keys (sg_ledger_raw k)")
      (auto simp: resolve_config_def ledger_is_bootable_def row_def attempt_row_def env_of_def docs_of_def)
qed

section \<open>A push that goes through\<close>

lemma valid_builds:
  assumes "vr_valid (validate_full lib c)"
  shows "\<exists>ws. to_watches lib c = Inr ws"
  using no_errors(1) [OF assms] by (cases "to_watches lib c") (simp_all add: validate_sources_def)

text \<open>Nothing outside fails: every call is answered, every client is built, every secret is sealed.\<close>

definition all_is_well :: "apply_libs \<Rightarrow> config_world \<Rightarrow> bool" where
  "all_is_well lib w \<longleftrightarrow> (\<forall>n. gw_fault w n = None) \<and> (\<forall>n. gw_swap_fault w n = None)
    \<and> (\<exists>seal. sl_seal (yl_secret lib) = Some seal \<and> (\<forall>s. \<exists>s'. seal s = Inr s'))"

lemma well_stays: "all_is_well lib w \<Longrightarrow> same_surroundings w w' \<Longrightarrow> all_is_well lib w'"
  by (simp add: all_is_well_def same_surroundings_def)

lemma writes_done:
  assumes "sl_seal lib = Some seal" "\<forall>s. \<exists>s'. seal s = Inr s'"
  shows "\<exists>rows'. fst (write_secrets lib ws rows v) = Inr rows'"
proof (induction ws arbitrary: rows v)
  case (Cons x ws)
  have "\<exists>rows'. write_secret lib x rows = Inr rows'"
    using assms by (auto simp: write_secret_def Let_def) (metis (no_types, lifting) sum.simps(6))
  then show ?case using Cons by auto
qed simp

lemma upsert_done:
  assumes "all_is_well lib w"
  shows "fst (upsert_app_secrets (yl_secret lib) ws w) = Inr ()"
proof -
  obtain seal where seal: "sl_seal (yl_secret lib) = Some seal" "\<forall>s. \<exists>s'. seal s = Inr s'"
    using assms by (auto simp: all_is_well_def)
  from writes_done [OF this, of ws "gw_secrets w" "gw_vault w"] show ?thesis
    using assms seal by (cases "write_secrets (yl_secret lib) ws (gw_secrets w) (gw_vault w)")
      (auto simp: upsert_app_secrets_def all_is_well_def Let_def)
qed

lemma store_secrets_done:
  assumes "all_is_well lib w"
  shows "fst (store_secrets lib bootstrap Whole previous k w) = Inr ()"
proof -
  obtain r w1 where up: "upsert_app_secrets (yl_secret lib) (sg_writes k) w = (r, w1)"
    by (cases "upsert_app_secrets (yl_secret lib) (sg_writes k) w")
  then have "r = Inr ()" using upsert_done [OF assms, of "sg_writes k"] by simp
  moreover have "all_is_well lib w1"
    using well_stays [OF assms] upsert_keeps [of w "yl_secret lib" "sg_writes k"] up by (simp add: keeps_running_def)
  ultimately show ?thesis
    using up by (simp add: store_secrets_def prune_stale_app_secrets_def previous_secret_env_refs_def
        delete_app_secrets_def all_is_well_def Let_def)
qed

lemma swap_and_record_succeeds:
  assumes "all_is_well lib w" and "to_watches (libs_at lib w) (sg_merged k) = Inr ws"
  shows "\<exists>i. fst (swap_and_record lib origin scope previous k w) = Inr i"
  using assms by (simp add: swap_and_record_def apply_runtime_def record_attempt_def append_revision_def
      insert_config_revision_def all_is_well_def Let_def)

lemma push_succeeds:
  assumes "all_is_well lib w" and "latest_applied_config_revision None (gw_ledger w) = Inr current"
    and "map_option cr_sha current \<noteq> Some (content_sha256 lib raw)"
    and "whole_candidate lib (env_of w) b raw hint (Some (gw_running w)) = Inr k"
    and "map_option cr_sha current \<noteq> Some (sg_ledger_sha k)"
    and "vr_valid (validate_full (libs_at lib w) (sg_merged k))"
  shows "\<exists>resp w'. apply_document lib b raw hint origin Whole w = (Inr resp, w') \<and> ay_applied resp
    \<and> gw_running w' = sg_merged k \<and> (\<exists>v. gw_ledger w' = with_row
      (attempt_row v (sg_ledger_raw k) (sg_ledger_sha k) origin Applied_revision None None) (gw_ledger w)
      \<and> gw_ledger v = gw_ledger w)"
proof -
  define w1 where "w1 = w\<lparr>gw_calls := gw_calls w + 1\<rparr>"
  have query: "ledger_query (latest_applied_config_revision (ledger_stream Whole)) w = (Inr current, w1)"
    using assms(1,2) by (simp add: ledger_query_def all_is_well_def w1_def)
  have w1: "all_is_well lib w1" "env_of w1 = env_of w" "gw_running w1 = gw_running w" "libs_at lib w1 = libs_at lib w"
    "gw_ledger w1 = gw_ledger w"
    using assms(1) by (simp_all add: all_is_well_def w1_def env_of_def libs_at_def)
  have scoped: "resolve_scoped_candidate lib b raw hint Whole (Some (gw_running w1)) w1 = (Inr k, w1)"
    using assms(4) w1 by (simp add: resolve_scoped_candidate_def)
  obtain r w2 where stored: "store_secrets lib b Whole (gw_running w1) k w1 = (r, w2)"
    by (cases "store_secrets lib b Whole (gw_running w1) k w1")
  then have r: "r = Inr ()" using store_secrets_done [OF w1(1), of b "gw_running w1" k] by simp
  have "all_is_well lib w2"
    using well_stays [OF w1(1)] store_secrets_keeps [of w1 lib b Whole "gw_running w1" k] stored by (simp add: keeps_running_def)
  moreover obtain ws where "to_watches (libs_at lib w2) (sg_merged k) = Inr ws"
    using valid_builds [OF assms(6)] watches_any_env by blast
  ultimately obtain i w3 where swapped: "swap_and_record lib origin Whole (gw_running w1) k w2 = (Inr i, w3)"
    using swap_and_record_succeeds by (metis prod.collapse)
  obtain resp where "apply_candidate lib b origin Whole (gw_running w1) k w1 = (Inr resp, w3)"
    using assms(6) stored r swapped w1(4) by (auto simp: apply_candidate_def Let_def)
  moreover from this have "apply_document lib b raw hint origin Whole w = (Inr resp, w3)"
    using apply_steps [OF query assms(3) scoped, of origin] assms(5) by (simp del: map_option_eq_Some)
  ultimately show ?thesis
    using apply_candidate_done [of lib b origin Whole "gw_running w1" k w1 resp w3] w1(5) by auto
qed

text \<open>
  C20: A good document is applied: when every database call is answered, the clients can be built and
  secrets can be sealed, a push of a document that merges to a valid configuration, and whose printed
  form is not the newest revision, is applied: the merged configuration runs, and its revision is the
  newest row.
\<close>

theorem good_document_is_applied:
  assumes "all_is_well lib w" and "latest_applied_config_revision None (gw_ledger w) = Inr current"
    and "map_option cr_sha current \<noteq> Some (content_sha256 lib raw)"
    and "whole_candidate lib (env_of w) b raw hint (Some (gw_running w)) = Inr k"
    and "map_option cr_sha current \<noteq> Some (sg_ledger_sha k)"
    and "vr_valid (validate_full (libs_at lib w) (sg_merged k))"
  shows "\<exists>resp w'. apply_document lib b raw hint origin Whole w = (Inr resp, w') \<and> ay_applied resp
    \<and> gw_running w' = sg_merged k \<and> cr_content (last (vt_rows (gw_ledger w'))) = sg_ledger_raw k"
proof -
  obtain resp w' v where "apply_document lib b raw hint origin Whole w = (Inr resp, w')" "ay_applied resp"
    "gw_running w' = sg_merged k" "gw_ledger w' = with_row
      (attempt_row v (sg_ledger_raw k) (sg_ledger_sha k) origin Applied_revision None None) (gw_ledger w)"
    using push_succeeds [OF assms] by blast
  then show ?thesis by (simp add: with_row_def attempt_row_def)
qed

end
