(* ===== verification/Apply_Cases.thy ===== *)
theory Apply_Cases
  imports Apply
begin

text \<open>
  Applying at work: a small instance with three documents, the witnesses for the properties of
  \<^verbatim>\<open>Apply\<close>, and two cases in which a secret is not handled as it is meant to be.
\<close>

section \<open>Two documents\<close>

text \<open>
  The document \<open>A\<close> has a source without token and a sink; \<open>B\<close> is the same with a reference to a
  secret; \<open>C\<close> has the sink alone.  A print tells them apart by the first source.
\<close>

definition example_secret :: string where
  "example_secret = ''XRELEASE_UI_SRC_APP_TOKEN''"

definition example_a :: config where
  "example_a = config_default\<lparr>cf_notifiers := [Telegram_cfg (example_telegram\<lparr>xt_bot_token := [], xt_bot_token_env := Some ''BOT''\<rparr>)],
    cf_sources := [example_source empty_common]\<rparr>"

definition example_b :: config where
  "example_b = example_a\<lparr>cf_sources := [Github_cfg (example_repo\<lparr>rc_id := Some ''app'', rc_token := None, rc_token_env := Some example_secret,
    rc_common := empty_common\<rparr>)]\<rparr>"

definition example_c :: config where
  "example_c = example_a\<lparr>cf_sources := []\<rparr>"

definition example_d :: config where
  "example_d = example_a\<lparr>cf_sources := [Github_cfg (example_repo\<lparr>rc_id := Some ''app'', rc_token := Some ''u'', rc_common := empty_common\<rparr>)]\<rparr>"

definition example_print :: "desired_wire \<Rightarrow> string" where
  "example_print d =
    (case dw_sources d of [] \<Rightarrow> ''C'' | s # _ \<Rightarrow> if source_env_ref s = None then ''A'' else ''B'')"

definition example_apply :: apply_libs where
  "example_apply =
    \<lparr>yl_compose = \<lparr>cl_docs =
       \<lparr>dl_parse = (\<lambda>_ s. Inr (if s = ''A'' then example_a else if s = ''B'' then example_b
            else if s = ''D'' then example_d else example_c)),
        dl_print = (\<lambda>_ d. Inr (example_print d))\<rparr>, cl_sha256 = id\<rparr>,
     yl_secret = \<lparr>sl_seal = Some Inr, sl_open = Inr, sl_sha256 = id\<rparr>, yl_regex = bl_regex example_build,
     yl_cron = bl_cron example_build, yl_json = example_texts\<rparr>"

definition example_file :: config where
  "example_file = config_default\<lparr>cf_database := database_default\<lparr>dbc_postgres_url := ''postgres://db/x''\<rparr>,
    cf_api := api_default\<lparr>ap_require_auth := False\<rparr>,
    cf_config_api := config_api_default\<lparr>ca_source := Api_ledger, ca_api_config := True\<rparr>\<rparr>"

definition example_base :: config where
  "example_base = strip_desired_sections example_file"

definition nobody :: apply_origin where
  "nobody = \<lparr>ao_revision_label = None, ao_applied_by = None, ao_source_addr = None\<rparr>"

definition example_idle :: config_world where
  "example_idle = example_instance\<lparr>gw_vars := [''XRELEASE_CONFIG_ENCRYPTION_KEY'' \<mapsto> ''k'']\<rparr>"

text \<open>The instance that has applied \<open>A\<close> and then \<open>B\<close>, with its secret.\<close>

definition example_live :: config where
  "example_live = merge_bootstrap_over_desired example_base example_b"

definition example_row :: "nat \<Rightarrow> string \<Rightarrow> revision_row" where
  "example_row i s = \<lparr>cr_id = i, cr_content = s, cr_sha = s, cr_label = None, cr_applied_at = 0, cr_applied_by = None,
    cr_source_addr = None, cr_status = Applied_revision, cr_error = None, cr_org = None\<rparr>"

definition example_serving :: config_world where
  "example_serving =
    example_idle\<lparr>gw_ledger := \<lparr>vt_rows = [example_row 1 ''A'', example_row 2 ''B''], vt_next_id = 3\<rparr>,
      gw_secrets := [\<lparr>sk_name = example_secret, sk_ciphertext = ''t'', sk_sha = ''t''\<rparr>],
      gw_vault := [example_secret \<mapsto> ''t''], gw_running := example_live\<rparr>"

lemma example_env: "env_of example_idle = \<lparr>te_var = [''XRELEASE_CONFIG_ENCRYPTION_KEY'' \<mapsto> ''k''], te_vault = vault_get Map.empty\<rparr>"
  by (simp add: env_of_def with_vault_def example_idle_def example_instance_def)


text \<open>The first push.\<close>

definition example_merged :: config where
  "example_merged = merge_bootstrap_over_desired example_base example_a"

lemma first_candidate:
  obtains k where "whole_candidate example_apply (env_of example_idle) example_base ''A'' None (Some config_default) = Inr k"
    "sg_ledger_raw k = ''A''" "sg_ledger_sha k = ''A''" "sg_merged k = example_merged"
proof -
  have "map_sum id (\<lambda>k. (sg_ledger_raw k, sg_ledger_sha k, sg_merged k))
      (whole_candidate example_apply (env_of example_idle) example_base ''A'' None (Some config_default)) = Inr (''A'', ''A'', example_merged)"
    by code_simp
  then show ?thesis using that
    by (cases "whole_candidate example_apply (env_of example_idle) example_base ''A'' None (Some config_default)") auto
qed

lemma first_valid: "vr_valid (validate_full (libs_at example_apply example_idle) example_merged)"
  by code_simp

lemma idle_well: "all_is_well example_apply example_idle" "all_is_well example_apply example_serving"
  by (simp_all add: all_is_well_def example_apply_def example_idle_def example_instance_def example_serving_def)

text \<open>The push of another secret for the running document, whose print is the same.\<close>

lemma rotation_candidate:
  obtains k where "whole_candidate example_apply (env_of example_serving) example_base ''D'' None (Some example_live) = Inr k"
    "sg_ledger_sha k = ''B''" "sg_writes k = [\<lparr>sx_name = example_secret, sx_value = ''u''\<rparr>]" "sg_merged k = example_live"
    "sg_refs k = [example_secret, ''BOT'']"
proof -
  have "map_sum id (\<lambda>k. (sg_ledger_sha k, sg_writes k, sg_merged k, sg_refs k))
      (whole_candidate example_apply (env_of example_serving) example_base ''D'' None (Some example_live))
    = Inr (''B'', [\<lparr>sx_name = example_secret, sx_value = ''u''\<rparr>], example_live, [example_secret, ''BOT''])"
    by code_simp
  then show ?thesis using that
    by (cases "whole_candidate example_apply (env_of example_serving) example_base ''D'' None (Some example_live)") auto
qed

text \<open>The earlier document, without the secret, pushed over the running one.\<close>

lemma rollback_candidate:
  obtains k where "whole_candidate example_apply (env_of example_serving) example_base ''A'' None (Some example_live) = Inr k"
    "sg_ledger_sha k = ''B''" "sg_writes k = []"
proof -
  have "map_sum id (\<lambda>k. (sg_ledger_sha k, sg_writes k))
      (whole_candidate example_apply (env_of example_serving) example_base ''A'' None (Some example_live)) = Inr (''B'', [])"
    by code_simp
  then show ?thesis using that
    by (cases "whole_candidate example_apply (env_of example_serving) example_base ''A'' None (Some example_live)") auto
qed

text \<open>The document without the source of the secret.\<close>

lemma removal_candidate:
  obtains k where "whole_candidate example_apply (env_of example_serving) example_base ''C'' None (Some example_live) = Inr k"
    "sg_ledger_sha k = ''C''" "sg_writes k = []" "sg_refs k = [''BOT'']"
    "sg_merged k = merge_bootstrap_over_desired example_base example_c" "sg_ledger_raw k = ''C''"
proof -
  have "map_sum id (\<lambda>k. (sg_ledger_sha k, sg_writes k, sg_refs k, sg_merged k, sg_ledger_raw k))
      (whole_candidate example_apply (env_of example_serving) example_base ''C'' None (Some example_live))
    = Inr (''C'', [], [''BOT''], merge_bootstrap_over_desired example_base example_c, ''C'')"
    by code_simp
  then show ?thesis using that
    by (cases "whole_candidate example_apply (env_of example_serving) example_base ''C'' None (Some example_live)") auto
qed

lemma serving_valid:
  "vr_valid (validate_full (libs_at example_apply example_serving) example_live)"
  "vr_valid (validate_full (libs_at example_apply example_serving) (merge_bootstrap_over_desired example_base example_c))"
  by code_simp+

lemma example_boots: "load_bootstrap (env_of example_idle) ''bootstrap.toml'' (Some (Inr example_file)) = Inr example_base"
  by code_simp

lemma example_desired: "desired_state_for_ledger example_merged = example_a"
  by code_simp

lemma example_prints_back: "prints_back example_apply example_a"
proof -
  have "dl_print (docs_of example_apply) f (wire_of example_a) = Inr ''A''" for f
    by (cases f; code_simp)
  moreover have "dl_parse (docs_of example_apply) f ''A'' = Inr example_a" for f by (cases f; code_simp)
  moreover have "\<not> is_encrypted ''A''" by code_simp
  ultimately show ?thesis by (simp add: prints_back_def)
qed

lemma serving_latest: "latest_applied_config_revision None (gw_ledger example_serving) = Inr (Some (example_row 2 ''B''))"
  "previous_applied_config_revision None (gw_ledger example_serving) = Inr (Some (example_row 1 ''A''))"
  by code_simp+

lemma serving_stale: "stale_ui_managed_secrets (collect_secret_env_refs (desired_state_for_ledger example_live)) [''BOT''] None = [example_secret]"
  by code_simp

lemma serving_rotation: "effective_secret_rotations (gw_vault example_serving) [\<lparr>sx_name = example_secret, sx_value = ''u''\<rparr>] = [\<lparr>sx_name = example_secret, sx_value = ''u''\<rparr>]"
  by code_simp

lemma serving_watches: "\<exists>ws. to_watches (libs_at example_apply example_serving) example_live = Inr ws"
  using valid_builds [OF serving_valid(1)] .

lemma serving_ok: "ledger_ok example_apply example_serving" "ledger_ok example_apply example_idle"
proof -
  have "applied_rows None (gw_ledger example_serving) = [example_row 1 ''A'', example_row 2 ''B'']"
    "applied_rows (Some x) (gw_ledger example_serving) = []" for x
    by (simp_all add: applied_rows_def example_serving_def example_row_def)
  then have "distinct_adj (map cr_sha (applied_rows org (gw_ledger example_serving)))" for org
    by (cases org) (simp_all add: example_row_def)
  then show "ledger_ok example_apply example_serving"
    by (auto simp: ledger_ok_def example_serving_def example_idle_def example_instance_def example_row_def mono_def
        content_sha256_def example_apply_def row_stamp_def less_eq_prod_def)
  show "ledger_ok example_apply example_idle"
    by (simp add: ledger_ok_def example_idle_def example_instance_def mono_def applied_rows_def)
qed

section \<open>Witnesses\<close>

lemma idle_latest: "latest_applied_config_revision None (gw_ledger example_idle) = Inr None"
  by (simp add: latest_applied_config_revision_def stream_config_revision_def newest_first_def example_idle_def example_instance_def)

lemma idle_running: "gw_running example_idle = config_default" "gw_ledger example_idle = \<lparr>vt_rows = [], vt_next_id = 1\<rparr>"
  by (simp_all add: example_idle_def example_instance_def)

lemma first_push:
  obtains resp w' v where "apply_document example_apply example_base ''A'' None nobody Whole example_idle = (Inr resp, w')"
    "ay_applied resp" "gw_running w' = example_merged" "gw_ledger w' = with_row
      (attempt_row v ''A'' ''A'' nobody Applied_revision None None) (gw_ledger example_idle)" "same_surroundings example_idle w'"
proof -
  obtain k where k: "whole_candidate example_apply (env_of example_idle) example_base ''A'' None (Some config_default) = Inr k"
    "sg_ledger_raw k = ''A''" "sg_ledger_sha k = ''A''" "sg_merged k = example_merged" using first_candidate by blast
  obtain resp w' v where "apply_document example_apply example_base ''A'' None nobody Whole example_idle = (Inr resp, w')"
    "ay_applied resp" "gw_running w' = sg_merged k" "gw_ledger w' = with_row
      (attempt_row v (sg_ledger_raw k) (sg_ledger_sha k) nobody Applied_revision None None) (gw_ledger example_idle)"
    using push_succeeds [OF idle_well(1) idle_latest, of "''A''" example_base None k nobody] k first_valid idle_running by auto
  moreover from this have "same_surroundings example_idle w'"
    using answered [of example_apply example_base "''A''" None nobody Whole example_idle resp w'] by (auto simp: keeps_running_def)
  ultimately show ?thesis using that k by simp
qed

theorem good_document_is_applied_witness:
  "\<exists>resp w'. apply_document example_apply example_base ''A'' None nobody Whole example_idle = (Inr resp, w') \<and> ay_applied resp
    \<and> gw_running w' = example_merged \<and> cr_content (last (vt_rows (gw_ledger w'))) = ''A''"
proof -
  obtain k where k: "whole_candidate example_apply (env_of example_idle) example_base ''A'' None (Some config_default) = Inr k"
    "sg_ledger_raw k = ''A''" "sg_merged k = example_merged" using first_candidate by blast
  then show ?thesis
    using good_document_is_applied [OF idle_well(1) idle_latest, of "''A''" example_base None k nobody] first_valid idle_running by simp
qed

theorem consecutive_revisions_differ_witness:
  "length (vt_rows (gw_ledger example_serving)) = 2
    \<and> distinct_adj (map cr_content (applied_rows None (gw_ledger (run_config_ops example_apply example_base
        [Push ''D'' None nobody Whole, Roll_back nobody Whole, Push ''C'' None nobody Whole] example_serving))))"
  using consecutive_revisions_differ [OF serving_ok(1)] by (simp add: example_serving_def)

theorem ledger_keeps_no_secret_witness:
  "\<exists>r \<in> set (vt_rows (gw_ledger (run_config_ops example_apply example_base [Push ''A'' None nobody Whole] example_idle))).
    cr_content r = ''A'' \<and> (cr_content r = EMPTY_ORGANIZATION_DOCUMENT
      \<or> (\<exists>f c. dl_print (docs_of example_apply) f (wire_of c) = Inr (cr_content r) \<and> inline_secrets c = []))"
proof -
  obtain resp w' v where push: "apply_document example_apply example_base ''A'' None nobody Whole example_idle = (Inr resp, w')"
    "gw_ledger w' = with_row (attempt_row v ''A'' ''A'' nobody Applied_revision None None) (gw_ledger example_idle)"
    using first_push by blast
  define r where "r = attempt_row v ''A'' ''A'' nobody Applied_revision None None"
  have "r \<in> set (vt_rows (gw_ledger (run_config_ops example_apply example_base [Push ''A'' None nobody Whole] example_idle)))"
    using push by (simp add: run_config_ops_def with_row_def r_def)
  moreover have "cr_content r = ''A''" by (simp add: r_def attempt_row_def)
  ultimately show ?thesis
    using ledger_keeps_no_secret [of example_idle r example_apply example_base "[Push ''A'' None nobody Whole]"] idle_running by auto
qed

theorem applied_is_recorded_witness:
  "\<exists>resp w'. apply_document example_apply example_base ''A'' None nobody Whole example_idle = (Inr resp, w') \<and> ay_applied resp
    \<and> (\<exists>rs r. applied_rows None (gw_ledger w') = rs @ [r] \<and> cr_id r = ay_revision resp \<and> cr_sha r = ay_sha resp)"
proof -
  obtain resp w' where push: "apply_document example_apply example_base ''A'' None nobody Whole example_idle = (Inr resp, w')"
    "ay_applied resp" using first_push by blast
  then show ?thesis using applied_is_recorded [OF serving_ok(2) push(1)] by auto
qed

text \<open>A document that neither parser accepts.\<close>

definition example_refusing :: apply_libs where
  "example_refusing = example_apply\<lparr>yl_compose := (yl_compose example_apply)\<lparr>cl_docs :=
    \<lparr>dl_parse = (\<lambda>_ _. Inl ''no document''), dl_print = (\<lambda>_ d. Inr (example_print d))\<rparr>\<rparr>\<rparr>"

lemma refused_candidate:
  obtains m where "whole_candidate example_refusing (env_of example_serving) example_base ''Z'' None (Some example_live)
    = Inl (Document_rejected m)"
proof -
  have "\<forall>f. \<exists>e. parse_as (docs_of example_refusing) ''Z'' f = Inl e"
    by (auto simp: parse_as_def docs_of_def example_refusing_def split: sum.split)
  then obtain g where "parse_as (docs_of example_refusing) ''Z'' f = Inl (g f)" for f by metis
  then obtain e where "merge_or_reject example_refusing (env_of example_serving) example_base ''Z'' None = Inl (Document_rejected e)"
    by (auto simp: merge_or_reject_def merge_pushed_document_def parse_desired_document_with_hint_def Let_def split: sum.split)
  then show ?thesis using that by (simp add: whole_candidate_def)
qed

lemma serving_query:
  "ledger_query (latest_applied_config_revision (ledger_stream Whole)) example_serving
    = (Inr (Some (example_row 2 ''B'')), example_serving\<lparr>gw_calls := 1\<rparr>)"
  using serving_latest(1) by (simp add: ledger_query_def example_serving_def example_idle_def example_instance_def)

lemma serving_after:
  "gw_running (example_serving\<lparr>gw_calls := n\<rparr>) = example_live" "env_of (example_serving\<lparr>gw_calls := n\<rparr>) = env_of example_serving"
  "libs_at lib (example_serving\<lparr>gw_calls := n\<rparr>) = libs_at lib example_serving"
  by (simp_all add: example_serving_def env_of_def libs_at_def)

lemma refused_push:
  obtains m w' where "apply_document example_refusing example_base ''Z'' None nobody Whole example_serving = (Inl (Document_rejected m), w')"
    "vt_rows (gw_ledger w') \<noteq> vt_rows (gw_ledger example_serving)"
proof -
  obtain m where m: "whole_candidate example_refusing (env_of example_serving) example_base ''Z'' None (Some example_live)
      = Inl (Document_rejected m)" using refused_candidate by blast
  define w1 where "w1 = example_serving\<lparr>gw_calls := 1\<rparr>"
  have scoped: "resolve_scoped_candidate example_refusing example_base ''Z'' None Whole (Some (gw_running w1)) w1 = (Inl (Document_rejected m), w1)"
    using m serving_after by (simp add: resolve_scoped_candidate_def w1_def)
  have sha: "map_option cr_sha (Some (example_row 2 ''B'')) \<noteq> Some (content_sha256 example_refusing ''Z'')"
    by (simp add: example_row_def content_sha256_def example_refusing_def example_apply_def)
  have steps: "apply_document example_refusing example_base ''Z'' None nobody Whole example_serving
      = map_prod Inl id (reject_document example_refusing ''Z'' nobody None (Document_rejected m) w1)"
    using apply_steps [OF serving_query sha scoped [unfolded w1_def], of nobody] by (simp add: w1_def)
  obtain body where body: "rejected_ledger_body example_refusing ''Z'' None = body" by blast
  have "\<exists>i w'. record_attempt (fst body) (snd body) nobody Rejected_revision (Some m) None w1 = (Inr i, w')
      \<and> vt_rows (gw_ledger w') \<noteq> vt_rows (gw_ledger example_serving)"
    by (simp add: record_attempt_def append_revision_def insert_config_revision_def w1_def example_serving_def
        example_idle_def example_instance_def Let_def)
  then show ?thesis using that steps body by (cases body) (auto simp: reject_document_def)
qed

theorem rejected_changes_nothing_witness:
  "\<exists>m w'. apply_document example_refusing example_base ''Z'' None nobody Whole example_serving = (Inl (Document_rejected m), w')
    \<and> vt_rows (gw_ledger w') \<noteq> vt_rows (gw_ledger example_serving) \<and> gw_running w' = example_live
    \<and> gw_secrets w' = gw_secrets example_serving
    \<and> applied_rows None (gw_ledger w') = applied_rows None (gw_ledger example_serving)"
proof -
  obtain m w' where "apply_document example_refusing example_base ''Z'' None nobody Whole example_serving = (Inl (Document_rejected m), w')"
    "vt_rows (gw_ledger w') \<noteq> vt_rows (gw_ledger example_serving)" using refused_push by blast
  with rejected_changes_nothing [OF this(1), of None] show ?thesis
    by (auto simp: same_runtime_def same_secrets_def example_serving_def)
qed

lemma stale_rotation:
  "stale_ui_managed_secrets (collect_secret_env_refs (desired_state_for_ledger example_live)) [example_secret, ''BOT''] None = []"
  by code_simp

lemma stored_rotation:
  "fst (upsert_app_secrets (yl_secret example_apply) [\<lparr>sx_name = example_secret, sx_value = ''u''\<rparr>] (example_serving\<lparr>gw_calls := 1\<rparr>)) = Inr ()"
  "gw_vault (snd (upsert_app_secrets (yl_secret example_apply) [\<lparr>sx_name = example_secret, sx_value = ''u''\<rparr>]
    (example_serving\<lparr>gw_calls := 1\<rparr>))) example_secret = Some ''u''"
  by code_simp+

lemma rotation_push:
  obtains resp w' where "apply_document example_apply example_base ''D'' None nobody Whole example_serving = (Inr resp, w')"
    "ay_applied resp" "gw_vault w' example_secret = Some ''u''" "keeps_running example_serving w'"
proof -
  obtain k where k: "whole_candidate example_apply (env_of example_serving) example_base ''D'' None (Some example_live) = Inr k"
    "sg_ledger_sha k = ''B''" "sg_writes k = [\<lparr>sx_name = example_secret, sx_value = ''u''\<rparr>]" "sg_merged k = example_live"
    "sg_refs k = [example_secret, ''BOT'']" using rotation_candidate by blast
  define w1 where "w1 = example_serving\<lparr>gw_calls := 1\<rparr>"
  have scoped: "resolve_scoped_candidate example_apply example_base ''D'' None Whole (Some (gw_running w1)) w1 = (Inr k, w1)"
    using k serving_after by (simp add: resolve_scoped_candidate_def w1_def)
  have sha: "map_option cr_sha (Some (example_row 2 ''B'')) \<noteq> Some (content_sha256 example_apply ''D'')"
    "map_option cr_sha (Some (example_row 2 ''B'')) = Some (sg_ledger_sha k)"
    by (simp_all add: example_row_def content_sha256_def example_apply_def k(2))
  obtain w2 where up: "upsert_app_secrets (yl_secret example_apply) (sg_writes k) w1 = (Inr (), w2)" "gw_vault w2 example_secret = Some ''u''"
    using stored_rotation by (metis k(3) prod.collapse w1_def)
  have store: "store_secrets example_apply example_base Whole example_live k w1 = (Inr (), w2)"
    using stale_rotation by (simp add: store_secrets_def up prune_stale_app_secrets_def previous_secret_env_refs_def k(5))
  have "effective_secret_rotations (gw_vault w1) (sg_writes k) \<noteq> []"
    using serving_rotation by (simp add: w1_def k(3))
  then have "\<exists>resp. rotate_secrets example_apply example_base nobody Whole example_live 2 k w1 = (Inr resp, w2) \<and> ay_applied resp"
    using store serving_valid(1) serving_after(3) by (simp add: rotate_secrets_def k(4) w1_def)
  then obtain resp where "rotate_secrets example_apply example_base nobody Whole example_live 2 k w1 = (Inr resp, w2)" "ay_applied resp"
    by blast
  moreover from this have "apply_document example_apply example_base ''D'' None nobody Whole example_serving = (Inr resp, w2)"
    using apply_steps [OF serving_query sha(1) scoped [unfolded w1_def], of nobody] sha(2) serving_after
    by (simp add: w1_def example_row_def)
  moreover have "keeps_running example_serving w2"
  proof -
    have "keeps_running example_serving w1" by (simp add: keeps_running_def w1_def same_runtime_def same_surroundings_def example_serving_def example_idle_def example_instance_def)
    then show ?thesis using store_secrets_keeps [of w1 example_apply example_base Whole example_live k] store keeps_running_trans by simp
  qed
  ultimately show ?thesis using that up by blast
qed

theorem rotation_reaches_no_sink_witness:
  "\<exists>resp w'. apply_document example_apply example_base ''D'' None nobody Whole example_serving = (Inr resp, w') \<and> ay_applied resp
    \<and> gw_vault example_serving example_secret = Some ''t'' \<and> gw_vault w' example_secret = Some ''u''
    \<and> gw_watches w' = gw_watches example_serving \<and> gw_sinks w' = gw_sinks example_serving"
proof -
  obtain resp w' where push: "apply_document example_apply example_base ''D'' None nobody Whole example_serving = (Inr resp, w')"
    "ay_applied resp" "gw_vault w' example_secret = Some ''u''" "keeps_running example_serving w'" using rotation_push by blast
  moreover have "gw_vault example_serving example_secret = Some ''t''" by (simp add: example_serving_def)
  ultimately show ?thesis
    using rotation_reaches_no_sink [OF push(1)] by (auto simp: keeps_running_def)
qed

lemma example_clear: "clear_of_removed_keys ''A''"
  by code_simp

theorem applied_survives_restart_witness:
  "\<exists>resp w'. apply_document example_apply example_base ''A'' None nobody Whole example_idle = (Inr resp, w')
    \<and> (\<forall>app format. fst (resolve_config (yl_compose example_apply) example_base app format w') = Inr example_merged)"
proof -
  obtain resp w' v where push: "apply_document example_apply example_base ''A'' None nobody Whole example_idle = (Inr resp, w')"
    "gw_running w' = example_merged" "gw_ledger w' = with_row
      (attempt_row v ''A'' ''A'' nobody Applied_revision None None) (gw_ledger example_idle)" "same_surroundings example_idle w'"
    using first_push by blast
  have "cf_organizations example_base = []" "ca_source (cf_config_api example_base) = Api_ledger"
    by (simp_all add: example_base_def example_file_def strip_desired_sections_def config_default_def config_api_default_def)
  moreover have "gw_ledger w' \<noteq> gw_ledger example_idle" using push(3) by (simp add: with_row_def idle_running)
  moreover have "gw_fault w' (gw_calls w') = None" using well_stays [OF idle_well(1) push(4)] by (simp add: all_is_well_def)
  ultimately show ?thesis
    using applied_survives_restart [OF serving_ok(2) example_boots _ _ push(1)] push(1,2,3) example_desired
      example_prints_back example_clear
    by (simp add: with_row_def attempt_row_def)
qed

section \<open>A rollback that keeps the secret\<close>

text \<open>
  A rollback does not always go back: the revision before the newest has no token, the newest one
  refers to one; the rollback answers that nothing was applied, the token stays in use, and the newest
  revision stays the newest, because the reference of the running document is restored into the old one.
\<close>

theorem rollback_keeps_secret:
  "\<exists>resp w'. rollback example_apply example_base nobody Whole example_serving = (Inr resp, w') \<and> \<not> ay_applied resp
    \<and> previous_applied_config_revision None (gw_ledger example_serving) = Inr (Some (example_row 1 ''A''))
    \<and> parse_desired_document (docs_of example_apply) ''A'' = Inr example_a \<and> collect_secret_env_refs example_a = [''BOT'']
    \<and> example_secret \<in> set (collect_secret_env_refs (gw_running w')) \<and> gw_ledger w' = gw_ledger example_serving"
proof -
  obtain k where k: "whole_candidate example_apply (env_of example_serving) example_base ''A'' None (Some example_live) = Inr k"
    "sg_ledger_sha k = ''B''" "sg_writes k = []" using rollback_candidate by blast
  define w1 where "w1 = example_serving\<lparr>gw_calls := 1\<rparr>"
  define w2 where "w2 = example_serving\<lparr>gw_calls := 2\<rparr>"
  have no_fault: "gw_fault example_serving n = None" "gw_calls example_serving = 0" for n
    by (simp_all add: example_serving_def example_idle_def example_instance_def)
  have first: "ledger_query (previous_applied_config_revision (ledger_stream Whole)) example_serving = (Inr (Some (example_row 1 ''A'')), w1)"
    using serving_latest(2) no_fault by (simp add: ledger_query_def w1_def)
  have second: "ledger_query (latest_applied_config_revision (ledger_stream Whole)) w1 = (Inr (Some (example_row 2 ''B'')), w2)"
    using serving_latest(1) no_fault by (simp add: ledger_query_def w1_def w2_def)
  have scoped: "resolve_scoped_candidate example_apply example_base ''A'' None Whole (Some (gw_running w2)) w2 = (Inr k, w2)"
    using k serving_after by (simp add: resolve_scoped_candidate_def w2_def)
  have sha: "map_option cr_sha (Some (example_row 2 ''B'')) \<noteq> Some (content_sha256 example_apply ''A'')"
    "map_option cr_sha (Some (example_row 2 ''B'')) = Some (sg_ledger_sha k)"
    by (simp_all add: example_row_def content_sha256_def example_apply_def k(2))
  have "apply_document example_apply example_base ''A'' None nobody Whole w1 = (Inr (unchanged_response ''B'' 2), w2)"
    using apply_steps [OF second sha(1) scoped, of nobody] sha(2)
    by (simp add: rotate_secrets_def effective_secret_rotations_def k(2,3) example_row_def)
  then have "rollback example_apply example_base nobody Whole example_serving = (Inr (unchanged_response ''B'' 2), w2)"
    using first by (simp add: rollback_def example_row_def)
  moreover have "example_secret \<in> set (collect_secret_env_refs (gw_running w2))"
  proof -
    have "example_secret \<in> set (collect_secret_env_refs example_live)" by code_simp
    then show ?thesis using serving_after(1) by (simp add: w2_def)
  qed
  moreover have "parse_desired_document (docs_of example_apply) ''A'' = Inr example_a" "collect_secret_env_refs example_a = [''BOT'']"
    by code_simp+
  ultimately show ?thesis using serving_latest(2) by (simp add: unchanged_response_def w2_def)
qed

section \<open>A push that fails at its record\<close>

definition example_failing :: "user_fault \<Rightarrow> config_world" where
  "example_failing f = example_serving\<lparr>gw_fault := (\<lambda>n. if n = 2 then Some f else None)\<rparr>"

lemma failing_same:
  "gw_running (example_failing f\<lparr>gw_calls := n\<rparr>) = example_live" "env_of (example_failing f\<lparr>gw_calls := n\<rparr>) = env_of example_serving"
  "libs_at lib (example_failing f\<lparr>gw_calls := n\<rparr>) = libs_at lib example_serving" "gw_swap_fault (example_failing f) n = None"
  "gw_swaps (example_failing f) = 0" "gw_ledger (example_failing f) = gw_ledger example_serving"
  "gw_running (example_failing f) = example_live" "libs_at lib (example_failing f) = libs_at lib example_serving"
  "gw_fault (example_failing f) = (\<lambda>n. if n = 2 then Some f else None)" "gw_calls (example_failing f) = 0"
  "gw_secrets (example_failing f) = [\<lparr>sk_name = example_secret, sk_ciphertext = ''t'', sk_sha = ''t''\<rparr>]"
  by (simp_all add: example_failing_def example_serving_def example_idle_def example_instance_def env_of_def libs_at_def)

lemma secret_deleted: "deletes [example_secret] = {example_secret}"
proof -
  have "trim example_secret = example_secret" by code_simp
  then show ?thesis by (simp add: deletes_def example_secret_def)
qed

lemma failing_push:
  obtains w' where "apply_document example_apply example_base ''C'' None nobody Whole (example_failing f)
      = (Inl (Server_error ''recording config revision''), w')"
    "gw_running w' = example_live" "gw_secrets w' = []" "gw_vault w' example_secret = None" "gw_calls w' = 3"
    "gw_fault w' = gw_fault (example_failing f)"
    "\<And>e. f = Answer_lost e \<Longrightarrow> \<exists>v. gw_ledger w' = with_row (attempt_row v ''C'' ''C'' nobody Applied_revision None None) (gw_ledger example_serving)
      \<and> gw_clock v = int \<and> gw_ledger v = gw_ledger example_serving \<and> gw_calls v = 2"
proof -
  obtain k where k: "whole_candidate example_apply (env_of example_serving) example_base ''C'' None (Some example_live) = Inr k"
    "sg_ledger_sha k = ''C''" "sg_writes k = []" "sg_refs k = [''BOT'']"
    "sg_merged k = merge_bootstrap_over_desired example_base example_c" "sg_ledger_raw k = ''C''" using removal_candidate by blast
  define w1 where "w1 = example_failing f\<lparr>gw_calls := 1\<rparr>"
  have query: "ledger_query (latest_applied_config_revision (ledger_stream Whole)) (example_failing f) = (Inr (Some (example_row 2 ''B'')), w1)"
    using serving_latest(1) by (simp add: ledger_query_def w1_def failing_same)
  have scoped: "resolve_scoped_candidate example_apply example_base ''C'' None Whole (Some (gw_running w1)) w1 = (Inr k, w1)"
    using k failing_same by (simp add: resolve_scoped_candidate_def w1_def)
  have sha: "map_option cr_sha (Some (example_row 2 ''B'')) \<noteq> Some (content_sha256 example_apply ''C'')"
    "map_option cr_sha (Some (example_row 2 ''B'')) \<noteq> Some (sg_ledger_sha k)"
    by (simp_all add: example_row_def content_sha256_def example_apply_def k(2))
  define w2 where "w2 = w1\<lparr>gw_calls := 2, gw_secrets := [], gw_vault := forget [example_secret] (gw_secrets w1) (gw_vault w1)\<rparr>"
  have store: "store_secrets example_apply example_base Whole example_live k w1 = (Inr (), w2)"
    using serving_stale by (simp add: store_secrets_def upsert_app_secrets_def k(3,4) prune_stale_app_secrets_def
        previous_secret_env_refs_def delete_app_secrets_def secret_deleted failing_same w1_def w2_def)
  have w2: "gw_swap_fault w2 n = None" "gw_swaps w2 = 0" "gw_calls w2 = 2" "gw_fault w2 = gw_fault (example_failing f)"
    "gw_ledger w2 = gw_ledger example_serving" "gw_secrets w2 = []" "gw_vault w2 example_secret = None" for n
    by (simp_all add: w2_def w1_def failing_same forget_def secret_deleted)
  obtain ws where ws: "to_watches (libs_at example_apply w2) (sg_merged k) = Inr ws"
    using valid_builds [OF serving_valid(2)] watches_any_env k(5) by metis
  define w3 where "w3 = w2\<lparr>gw_swaps := 1, gw_running := sg_merged k, gw_watches := ws,
    gw_sinks := built_sinks (env_of (w2\<lparr>gw_swaps := 1\<rparr>)) (yl_json example_apply) (sg_merged k)\<rparr>"
  have swap: "apply_runtime example_apply (sg_merged k) w2 = (Inr (), w3)"
    using ws w2 by (simp add: apply_runtime_def w3_def Let_def)
  define w4 where "w4 = snd (record_attempt (sg_ledger_raw k) (sg_ledger_sha k) nobody Applied_revision None None w3)"
  have recd: "record_attempt (sg_ledger_raw k) (sg_ledger_sha k) nobody Applied_revision None None w3
      = (Inl (Server_error ''recording config revision''), w4)"
    by (cases f) (simp_all add: w4_def record_attempt_def append_revision_def insert_config_revision_def Let_def w3_def w2 failing_same)
  note effect = record_effect [OF recd]
  have lost: "gw_ledger w4 = with_row (attempt_row w3 ''C'' ''C'' nobody Applied_revision None None) (gw_ledger example_serving)"
    if "f = Answer_lost e" for e
    using that by (simp add: w4_def record_attempt_def append_revision_def insert_config_revision_def Let_def w3_def w2
        failing_same with_row_def attempt_row_def k)
  obtain ws' where ws': "to_watches (libs_at example_apply w4) example_live = Inr ws'"
    using serving_watches watches_any_env by blast
  define w5 where "w5 = snd (apply_runtime example_apply example_live w4)"
  have swap_ok: "gw_swap_fault w4 n = None" for n
    using effect(1) w2 by (simp add: same_surroundings_def w3_def)
  then have w5: "gw_running w5 = example_live" "gw_secrets w5 = gw_secrets w4" "gw_vault w5 = gw_vault w4" "gw_ledger w5 = gw_ledger w4"
    "gw_calls w5 = gw_calls w4" "gw_fault w5 = gw_fault w4"
    by (simp_all add: w5_def apply_runtime_def ws' Let_def)
  have "swap_and_record example_apply nobody Whole example_live k w2 = (Inl (Server_error ''recording config revision''), w5)"
    using swap recd by (simp add: swap_and_record_def w5_def)
  then have "apply_candidate example_apply example_base nobody Whole example_live k w1 = (Inl (Server_error ''recording config revision''), w5)"
    using store serving_valid(2) failing_same by (simp add: apply_candidate_def k(5) w1_def)
  then have "apply_document example_apply example_base ''C'' None nobody Whole (example_failing f)
      = (Inl (Server_error ''recording config revision''), w5)"
    using apply_steps [OF query sha(1) scoped, of nobody] sha(2) failing_same by (simp add: w1_def del: map_option_eq_Some)
  moreover have "gw_secrets w4 = []" "gw_vault w4 example_secret = None" "gw_calls w4 = 3" "gw_fault w4 = gw_fault (example_failing f)"
    using effect(1,3,4) by (simp_all add: same_secrets_def same_surroundings_def w3_def w2)
  moreover have "gw_clock w3 = int \<and> gw_ledger w3 = gw_ledger example_serving \<and> gw_calls w3 = 2"
    by (simp add: w3_def w2_def w1_def example_failing_def example_serving_def example_idle_def example_instance_def)
  ultimately show ?thesis using that [of w5] w5 lost by auto
qed

theorem failed_apply_keeps_running_witness:
  "\<exists>e w'. apply_document example_apply example_base ''C'' None nobody Whole (example_failing (Refused Poller_busy)) = (Inl e, w')
    \<and> (same_runtime (example_failing (Refused Poller_busy)) w' \<or> runs example_apply example_live w')"
proof -
  obtain w' where push: "apply_document example_apply example_base ''C'' None nobody Whole (example_failing (Refused Poller_busy))
      = (Inl (Server_error ''recording config revision''), w')"
    by (rule failing_push [of "Refused Poller_busy"])
  obtain ws where "to_watches (libs_at example_apply (example_failing (Refused Poller_busy)))
      (gw_running (example_failing (Refused Poller_busy))) = Inr ws"
    using serving_watches failing_same by auto
  from failed_apply_keeps_running [OF push this] show ?thesis using push failing_same(4,7) by auto
qed

text \<open>
  A failed push can lose a secret: the push removes a source, its token is pruned before the swap
  and the record; the record is refused, the source runs again, and its token is gone from the table
  and from memory.
\<close>

theorem failed_push_loses_secret:
  "\<exists>e w'. apply_document example_apply example_base ''C'' None nobody Whole (example_failing (Refused Poller_busy)) = (Inl e, w')
    \<and> gw_running w' = gw_running (example_failing (Refused Poller_busy))
    \<and> example_secret \<in> set (collect_secret_env_refs (gw_running w'))
    \<and> gw_vault (example_failing (Refused Poller_busy)) example_secret = Some ''t''
    \<and> gw_vault w' example_secret = None \<and> gw_secrets w' = []"
proof -
  have "example_secret \<in> set (collect_secret_env_refs example_live)" by code_simp
  moreover have "gw_vault (example_failing (Refused Poller_busy)) example_secret = Some ''t''"
    by (simp add: example_failing_def example_serving_def)
  ultimately show ?thesis
    by (rule_tac failing_push [of "Refused Poller_busy"]) (simp add: failing_same)
qed

text \<open>
  A lost answer hides the document: the revision is written but the answer of the database is lost,
  so the previous configuration is swapped in again; pushing the same document once more then answers
  that it is the newest revision, and the document never runs until a restart.
\<close>

theorem lost_answer_hides_document:
  "\<exists>e w' resp w''. apply_document example_apply example_base ''C'' None nobody Whole (example_failing (Answer_lost Poller_busy)) = (Inl e, w')
    \<and> apply_document example_apply example_base ''C'' None nobody Whole w' = (Inr resp, w'')
    \<and> \<not> ay_applied resp \<and> ay_revision resp = 3 \<and> gw_running w'' = example_live \<and> cf_sources example_live \<noteq> cf_sources example_c"
proof -
  obtain w' where push: "apply_document example_apply example_base ''C'' None nobody Whole (example_failing (Answer_lost Poller_busy))
      = (Inl (Server_error ''recording config revision''), w')" "gw_running w' = example_live" "gw_calls w' = 3"
    "gw_fault w' = gw_fault (example_failing (Answer_lost Poller_busy))"
    "\<exists>v. gw_ledger w' = with_row (attempt_row v ''C'' ''C'' nobody Applied_revision None None) (gw_ledger example_serving)
      \<and> gw_clock v = int \<and> gw_ledger v = gw_ledger example_serving \<and> gw_calls v = 2"
    by (rule failing_push [of "Answer_lost Poller_busy"]) blast
  define row where "row = (example_row 3 ''C'')\<lparr>cr_applied_at := 2\<rparr>"
  have "gw_ledger w' = with_row row (gw_ledger example_serving)"
    using push(5) by (auto simp: attempt_row_def row_def example_row_def nobody_def example_serving_def)
  moreover have "latest_applied_config_revision None (with_row row (gw_ledger example_serving)) = Inr (Some row)" by (simp only: row_def) code_simp
  ultimately have "ledger_query (latest_applied_config_revision (ledger_stream Whole)) w' = (Inr (Some row), w'\<lparr>gw_calls := 4\<rparr>)"
    using push(3,4) by (simp add: ledger_query_def failing_same)
  then have "apply_document example_apply example_base ''C'' None nobody Whole w' = (Inr (unchanged_response ''C'' 3), w'\<lparr>gw_calls := 4\<rparr>)"
    by (simp add: apply_document_def row_def example_row_def content_sha256_def example_apply_def)
  moreover have "cf_sources example_live \<noteq> cf_sources example_c" by code_simp
  ultimately show ?thesis using push(1,2) by (intro exI [of _ "Server_error ''recording config revision''"] exI [of _ w']
        exI [of _ "unchanged_response ''C'' 3"] exI [of _ "w'\<lparr>gw_calls := 4\<rparr>"]) (simp add: unchanged_response_def)
qed
end
