(* ===== verification/Config_Routes.thy ===== *)
theory Config_Routes
  imports Apply_Cases Access_Safety
begin

text \<open>
  The routes that change the configuration (\<^verbatim>\<open>src/src/api/config.rs\<close>, \<^verbatim>\<open>api/organizations.rs\<close>):
  authorisation, the precondition of the request, the apply, and what is published afterwards.  Each
  handler holds the apply lock, so the requests run one after the other.
\<close>

section \<open>Requests\<close>

text \<open>What a process has from its start.\<close>

record route_env =
  hl_auth :: auth_libs
  hl_api :: api_state
  hl_apply :: apply_libs
  hl_bootstrap :: config
  hl_app :: "string option"

text \<open>The state of a process: accounts, tables and runtime, and the published identity.\<close>

record routes_world =
  hx_users :: user_world
  hx_config :: config_world
  hx_desired_sha :: "string option"
  hx_revision :: "revision_row option"
  hx_metrics :: metrics

text \<open>The status of a server error depends on the class of its cause, which its text does not tell.\<close>

datatype route_error = Api api_error | Server string

section \<open>Reading a request\<close>

definition valid_utf8 :: "string \<Rightarrow> bool" where
  "valid_utf8 s \<longleftrightarrow> utf8_lossy s = s"

text \<open>A document tag of a list of tags, weak or strong.\<close>

definition matched_tag :: "string \<Rightarrow> string" where
  "matched_tag s =
    (let q = [[byte 34]]; t = strip_front [''W/''] (trim s) in rev (strip_front q (rev (strip_front q t))))"

definition check_if_match :: "header_map \<Rightarrow> string option \<Rightarrow> string \<Rightarrow> api_error + unit" where
  "check_if_match h current reread_hint =
    (case map_of h ''if-match'' of
       None \<Rightarrow> Inr ()
     | Some v \<Rightarrow> (case to_str v of
         None \<Rightarrow> Inl (Bad_request ''invalid If-Match header'')
       | Some header \<Rightarrow>
           if trim header = ''*'' then
             (if current \<noteq> None then Inr () else Inl (Precondition_failed ''If-Match: * requires an already-applied config''))
           else if list_ex (\<lambda>t. current = Some (matched_tag t)) (split_by (\<lambda>c. c = CHR '','') header) then Inr ()
           else Inl (Precondition_failed (''config changed since it was read (current sha256 ''
             @ (case current of Some sha \<Rightarrow> sha | None \<Rightarrow> ''<none>'') @ ''); re-read '' @ reread_hint @ '' and re-apply''))))"

definition desired_format_from_headers :: "header_map \<Rightarrow> desired_format option" where
  "desired_format_from_headers h = Option.bind (header_text h ''content-type'') from_content_type"

text \<open>The verified identity, with what the client claims beside it.\<close>

definition apply_origin_from_headers :: "header_map \<Rightarrow> auth_principal \<Rightarrow> apply_origin" where
  "apply_origin_from_headers h p =
    (let claimed = trimmed_nonempty (header_text h ''x-config-applied-by'') in
     \<lparr>ao_revision_label = header_text h ''x-config-revision'',
      ao_applied_by = (case (audit_label p, claimed) of
          (Some verified, Some c) \<Rightarrow> Some (verified @ '' ('' @ c @ '')'')
        | (Some verified, None) \<Rightarrow> Some verified
        | (None, Some c) \<Rightarrow> Some (''unauthenticated ('' @ c @ '')'')
        | (None, None) \<Rightarrow> None),
      ao_source_addr =
        (case map_of h ''x-forwarded-for'' of
           Some v \<Rightarrow> to_str v | None \<Rightarrow> header_text h ''x-real-ip'')\<rparr>)"

definition REVISIONS_MAX_LIMIT :: int where "REVISIONS_MAX_LIMIT = 200"

definition REVISIONS_DEFAULT_LIMIT :: int where "REVISIONS_DEFAULT_LIMIT = 10"

text \<open>The page window of a history request.\<close>

definition revisions_window :: "int option \<Rightarrow> int option \<Rightarrow> int \<times> int" where
  "revisions_window limit offset =
    (max 1 (min REVISIONS_MAX_LIMIT (case limit of Some l \<Rightarrow> l | None \<Rightarrow> REVISIONS_DEFAULT_LIMIT)),
     max 0 (case offset of Some o' \<Rightarrow> o' | None \<Rightarrow> 0))"

text \<open>The extension of the last component of a path, and the format it stands for.\<close>

definition path_extension :: "string \<Rightarrow> string option" where
  "path_extension p =
    (case rev (filter (\<lambda>c. c \<notin> {[], ''.''}) (split_by (\<lambda>c. c = CHR ''/'') p)) of
       [] \<Rightarrow> None
     | name # _ \<Rightarrow>
         (let ext = rev (takeWhile (\<lambda>c. c \<noteq> CHR ''.'') (rev name)); stem = length name - length ext - 1 in
          if name = ''..'' \<or> CHR ''.'' \<notin> set name \<or> stem = 0 then None else Some ext))"

definition format_from_path :: "string \<Rightarrow> desired_format option" where
  "format_from_path p =
    (case path_extension p of
       None \<Rightarrow> None
     | Some e \<Rightarrow>
         if e = ''yaml'' \<or> e = ''yml'' then Some Yaml_format else if e = ''toml'' then Some Toml_format else None)"

section \<open>Answering\<close>

definition probe_json :: "online_probe \<Rightarrow> json" where
  "probe_json p =
    Json_object ([(''source_id'', Json_string (op_source_id p)), (''kind'', Json_string (op_kind p)), (''ok'', Json_bool (op_ok p))]
      @ (case op_releases p of Some n \<Rightarrow> [(''releases'', Json_number (show_nat n))] | None \<Rightarrow> [])
      @ [(''not_modified'', Json_bool (op_not_modified p))]
      @ (case op_error p of Some e \<Rightarrow> [(''error'', Json_string e)] | None \<Rightarrow> []))"

definition report_json :: "validation_report \<Rightarrow> json" where
  "report_json r =
    Json_object ([(''valid'', Json_bool (vr_valid r)), (''sources'', Json_number (show_nat (vr_sources r))),
       (''errors'', Json_array (map Json_string (vr_errors r))), (''warnings'', Json_array (map Json_string (vr_warnings r)))]
      @ (if vr_probes r = [] then [] else [(''probes'', Json_array (map probe_json (vr_probes r)))]))"

definition validation_error :: "apply_error \<Rightarrow> route_error" where
  "validation_error e =
    (case e of
       Validation_rejected _ report \<Rightarrow> Api (Unprocessable (apply_error_text e) (Some (report_json report)))
     | Document_rejected _ \<Rightarrow> Api (Bad_request (apply_error_text e))
     | Nothing_to_roll_back_to \<Rightarrow> Api (Conflict (apply_error_text e))
     | Server_error m \<Rightarrow> Server m)"

text \<open>After an apply: the identity first; the metadata only when it can be read.\<close>

definition commit_effective :: "apply_response \<Rightarrow> routes_world \<Rightarrow> routes_world" where
  "commit_effective resp s =
    (if \<not> ay_applied resp then s
     else
       (let (r, w) = ledger_query (latest_applied_config_revision None) (hx_config s) in
        s\<lparr>hx_config := w, hx_desired_sha := Some (ay_sha resp),
          hx_revision := (case r of Inr (Some row) \<Rightarrow> Some row | _ \<Rightarrow> hx_revision s)\<rparr>))"

definition count_outcome :: "apply_error + apply_response \<Rightarrow> metrics \<Rightarrow> metrics" where
  "count_outcome r m =
    (case r of
       Inr resp \<Rightarrow> if ay_applied resp then record_config_apply m else m
     | Inl (Validation_rejected _ _) \<Rightarrow> record_config_apply_rejected m
     | Inl _ \<Rightarrow> m)"

definition finish_apply ::
  "apply_error + apply_response \<Rightarrow> routes_world \<Rightarrow> (route_error + apply_response) \<times> routes_world" where
  "finish_apply r s =
    (let s = (case r of Inr resp \<Rightarrow> commit_effective resp s | Inl _ \<Rightarrow> s) in
     (case r of Inr resp \<Rightarrow> Inr resp | Inl e \<Rightarrow> Inl (validation_error e),
      s\<lparr>hx_metrics := count_outcome r (hx_metrics s)\<rparr>))"

text \<open>The identity of a composition is not that of one document, so a push to one forgets it.\<close>

definition finish_org_apply ::
  "apply_error + apply_response \<Rightarrow> routes_world \<Rightarrow> (route_error + apply_response) \<times> routes_world" where
  "finish_org_apply r s =
    (case r of Inr resp \<Rightarrow> Inr resp | Inl e \<Rightarrow> Inl (validation_error e),
     s\<lparr>hx_metrics := count_outcome r (hx_metrics s),
       hx_desired_sha := (case r of Inr resp \<Rightarrow> if ay_applied resp then None else hx_desired_sha s | Inl _ \<Rightarrow> hx_desired_sha s)\<rparr>)"

section \<open>The routes of the whole document\<close>

definition require_single_document_mode :: "config \<Rightarrow> api_error + unit" where
  "require_single_document_mode bootstrap =
    (if cf_organizations bootstrap = [] then Inr ()
     else Inl (Conflict (''this instance runs [[organizations]]; use ''
       @ ''/api/v1/organizations/{id}/config/'' @ map byte [226, 128, 166] @ '' for the organization you are changing'')))"

text \<open>Authorisation changes the accounts at most.\<close>

definition pusher ::
  "route_env \<Rightarrow> header_map \<Rightarrow> string \<Rightarrow> string option \<Rightarrow> routes_world \<Rightarrow> (api_error + auth_principal) \<times> routes_world" where
  "pusher env h body org s =
    (case require_config_apply_auth (hl_auth env) (hl_api env) h body org (hx_users s) of
       (r, u) \<Rightarrow> (r, s\<lparr>hx_users := u\<rparr>))"

definition post_apply ::
  "route_env \<Rightarrow> header_map \<Rightarrow> string \<Rightarrow> routes_world \<Rightarrow> (route_error + apply_response) \<times> routes_world" where
  "post_apply env h body s =
    (case pusher env h body None s of
       (Inl e, s) \<Rightarrow> (Inl (Api e), s)
     | (Inr p, s) \<Rightarrow>
         if \<not> valid_utf8 body then (Inl (Api (Bad_request ''config body must be valid UTF-8'')), s)
         else (case check_if_match h (hx_desired_sha s) ''GET /api/v1/config'' of
             Inl e \<Rightarrow> (Inl (Api e), s)
           | Inr _ \<Rightarrow> (case require_single_document_mode (hl_bootstrap env) of
               Inl e \<Rightarrow> (Inl (Api e), s)
             | Inr _ \<Rightarrow>
                 (let (r, w) = apply_document (hl_apply env) (hl_bootstrap env) body (desired_format_from_headers h)
                      (apply_origin_from_headers h p) Whole (hx_config s) in
                  finish_apply r (s\<lparr>hx_config := w\<rparr>)))))"

definition post_rollback ::
  "route_env \<Rightarrow> header_map \<Rightarrow> routes_world \<Rightarrow> (route_error + apply_response) \<times> routes_world" where
  "post_rollback env h s =
    (case pusher env h [] None s of
       (Inl e, s) \<Rightarrow> (Inl (Api e), s)
     | (Inr p, s) \<Rightarrow> (case require_single_document_mode (hl_bootstrap env) of
         Inl e \<Rightarrow> (Inl (Api e), s)
       | Inr _ \<Rightarrow>
           (let (r, w) = rollback (hl_apply env) (hl_bootstrap env) (apply_origin_from_headers h p) Whole (hx_config s) in
            finish_apply r (s\<lparr>hx_config := w\<rparr>))))"

text \<open>A dry run restores what the reader was not shown, as an apply does.\<close>

definition post_validate ::
  "route_env \<Rightarrow> header_map \<Rightarrow> string \<Rightarrow> routes_world
     \<Rightarrow> (route_error + bool \<times> string \<times> validation_report) \<times> routes_world" where
  "post_validate env h body s =
    (if \<not> valid_utf8 body then (Inl (Api (Bad_request ''config body must be valid UTF-8'')), s)
     else (case require_single_document_mode (hl_bootstrap env) of
         Inl e \<Rightarrow> (Inl (Api e), s)
       | Inr _ \<Rightarrow>
           (let (r, w) = validate_document (hl_apply env) (hl_bootstrap env) body False (desired_format_from_headers h)
                Whole (Some (gw_running (hx_config s))) (hx_config s) in
            (case r of Inl e \<Rightarrow> Inl (validation_error e) | Inr x \<Rightarrow> Inr x, s\<lparr>hx_config := w\<rparr>))))"

section \<open>Reloading from the files\<close>

definition finish_reload ::
  "(apply_error + reload_response) \<times> config_world \<Rightarrow> routes_world \<Rightarrow> (route_error + reload_response) \<times> routes_world" where
  "finish_reload rw s =
    (case rw of
       (Inl e, w) \<Rightarrow> (Inl (validation_error e), s\<lparr>hx_config := w\<rparr>)
     | (Inr resp, w) \<Rightarrow>
         (Inr resp, s\<lparr>hx_config := w, hx_desired_sha := (if yr_applied resp then Some (yr_sha resp) else hx_desired_sha s)\<rparr>))"

definition no_app_file :: string where
  "no_app_file = ''no app config file configured (--app / XRELEASE_APP_CONFIG); ''
     @ ''desired state is pushed via POST /api/v1/config/apply''"

definition ledger_rules :: string where
  "ledger_rules = ''config ledger is authoritative for desired state; use POST /api/v1/config/apply instead of reload''"

definition reload_from_disk :: "route_env \<Rightarrow> routes_world \<Rightarrow> (route_error + reload_response) \<times> routes_world" where
  "reload_from_disk env s =
    (let b = hl_bootstrap env; lib = hl_apply env in
     if cf_organizations b \<noteq> [] then finish_reload (reload_organizations lib b (hx_desired_sha s) (hx_config s)) s
     else (case hl_app env of
         None \<Rightarrow> (Inl (Api (Bad_request no_app_file)), s)
       | Some path \<Rightarrow> (case gw_files (hx_config s) path of
           None \<Rightarrow> (Inl (Api (Bad_request (''reading '' @ path @ '': No such file or directory (os error 2)''))), s)
         | Some (Inl e) \<Rightarrow> (Inl (Api (Bad_request (''reading '' @ path @ '': '' @ e))), s)
         | Some (Inr raw) \<Rightarrow>
             (case (if ledger_is_bootable (as_config_api (hl_api env))
                    then ledger_query (latest_applied_config_revision None) (hx_config s)
                    else (Inr None, hx_config s)) of
                (Inl e, w) \<Rightarrow> (Inl (Api (api_of_store e)), s\<lparr>hx_config := w\<rparr>)
              | (Inr (Some _), w) \<Rightarrow> (Inl (Api (Conflict ledger_rules)), s\<lparr>hx_config := w\<rparr>)
              | (Inr None, w) \<Rightarrow>
                  finish_reload (reload_document lib b (hx_desired_sha s) path raw (format_from_path path) w) s))))"

section \<open>The routes of one organization\<close>

definition require_organization :: "config \<Rightarrow> string \<Rightarrow> api_error + organization_config" where
  "require_organization bootstrap org =
    (if cf_organizations bootstrap = [] then
       Inl (Not_found (''no [[organizations]] declared in bootstrap.toml ''
         @ ''(single-document instance; use /api/v1/config)''))
     else (case find (\<lambda>x. oc_id x = trim org) (cf_organizations bootstrap) of
         Some o' \<Rightarrow> Inr o' | None \<Rightarrow> Inl (Not_found (''unknown organization '' @ quoted (trim org)))))"

definition require_pushes_accepted :: "config \<Rightarrow> api_error + unit" where
  "require_pushes_accepted bootstrap =
    (if accepts_pushed_config (cf_config_api bootstrap) then Inr ()
     else Inl (Conflict (''[config_api].source = '' @ [byte 34] @ ''local'' @ [byte 34]
       @ '' pins desired state to the app files; edit the organization's file in Git ''
       @ ''and POST /api/v1/reload (or send SIGHUP)'')))"

definition org_config_path :: "string \<Rightarrow> string" where
  "org_config_path org = ''GET /api/v1/organizations/'' @ org @ ''/config''"

definition post_org_apply ::
  "route_env \<Rightarrow> string \<Rightarrow> header_map \<Rightarrow> string \<Rightarrow> routes_world \<Rightarrow> (route_error + apply_response) \<times> routes_world" where
  "post_org_apply env org h body s =
    (let b = hl_bootstrap env; lib = hl_apply env in
     if \<not> valid_utf8 body then (Inl (Api (Bad_request ''config body must be valid UTF-8'')), s)
     else (case require_organization b org of
         Inl e \<Rightarrow> (Inl (Api e), s)
       | Inr o' \<Rightarrow> (case pusher env h body (Some (oc_id o')) s of
           (Inl e, s) \<Rightarrow> (Inl (Api e), s)
         | (Inr p, s) \<Rightarrow> (case require_pushes_accepted b of
             Inl e \<Rightarrow> (Inl (Api e), s)
           | Inr _ \<Rightarrow> (case organization_desired_raw b o' (hx_config s) of
               (Inl e, w) \<Rightarrow> (Inl (Api (Internal e)), s\<lparr>hx_config := w\<rparr>)
             | (Inr (raw, _), w) \<Rightarrow>
                 (case check_if_match h (Some (content_sha256 lib raw)) (org_config_path (oc_id o')) of
                    Inl e \<Rightarrow> (Inl (Api e), s\<lparr>hx_config := w\<rparr>)
                  | Inr _ \<Rightarrow>
                      (let (r, w) = apply_document lib b body (desired_format_from_headers h)
                           (apply_origin_from_headers h p) (Organization (oc_id o')) w in
                       finish_org_apply r (s\<lparr>hx_config := w\<rparr>))))))))"

definition post_org_rollback ::
  "route_env \<Rightarrow> string \<Rightarrow> header_map \<Rightarrow> routes_world \<Rightarrow> (route_error + apply_response) \<times> routes_world" where
  "post_org_rollback env org h s =
    (let b = hl_bootstrap env in
     case require_organization b org of
       Inl e \<Rightarrow> (Inl (Api e), s)
     | Inr o' \<Rightarrow> (case pusher env h [] (Some (oc_id o')) s of
         (Inl e, s) \<Rightarrow> (Inl (Api e), s)
       | (Inr p, s) \<Rightarrow> (case require_pushes_accepted b of
           Inl e \<Rightarrow> (Inl (Api e), s)
         | Inr _ \<Rightarrow>
             (let (r, w) = rollback (hl_apply env) b (apply_origin_from_headers h p) (Organization (oc_id o')) (hx_config s) in
              finish_org_apply r (s\<lparr>hx_config := w\<rparr>)))))"

definition post_org_validate ::
  "route_env \<Rightarrow> string \<Rightarrow> header_map \<Rightarrow> string \<Rightarrow> routes_world
     \<Rightarrow> (route_error + bool \<times> string \<times> validation_report) \<times> routes_world" where
  "post_org_validate env org h body s =
    (let b = hl_bootstrap env in
     if \<not> valid_utf8 body then (Inl (Api (Bad_request ''config body must be valid UTF-8'')), s)
     else (case require_organization b org of
         Inl e \<Rightarrow> (Inl (Api e), s)
       | Inr o' \<Rightarrow> (case resolve_auth_principal (hl_auth env) (hl_api env) h (hx_users s) of
           (Inl e, u) \<Rightarrow> (Inl (Api e), s\<lparr>hx_users := u\<rparr>)
         | (Inr p, u) \<Rightarrow> (case authorize_for_org p Operator (Some (oc_id o')) of
             Inl e \<Rightarrow> (Inl (Api e), s\<lparr>hx_users := u\<rparr>)
           | Inr _ \<Rightarrow>
               (let (r, w) = validate_document (hl_apply env) b body False (desired_format_from_headers h)
                    (Organization (oc_id o')) (Some (gw_running (hx_config s))) (hx_config s) in
                (case r of Inl e \<Rightarrow> Inl (validation_error e) | Inr x \<Rightarrow> Inr x, s\<lparr>hx_users := u, hx_config := w\<rparr>))))))"

text \<open>What a reader of an organization's document gets: the tag of the raw text, and the text without secrets.\<close>

definition redact_desired_only_document :: "doc_libs \<Rightarrow> desired_format \<Rightarrow> config \<Rightarrow> string" where
  "redact_desired_only_document lib f c =
    (let r = strip_infra_sections (redact_config c) in
     if \<not> has_desired_state r then EMPTY_ORGANIZATION_DOCUMENT
     else (case serialize_desired_only_strict lib f r of
         Inr s \<Rightarrow> s | Inl _ \<Rightarrow> ''# failed to serialize config'' @ [byte 10]))"

record org_config_view =
  oq_organization :: string
  oq_source :: desired_source
  oq_sha :: string
  oq_content :: "string option"

definition get_org_config :: "route_env \<Rightarrow> string \<Rightarrow> routes_world \<Rightarrow> (route_error + org_config_view) \<times> routes_world" where
  "get_org_config env org s =
    (let b = hl_bootstrap env; docs = docs_of (hl_apply env) in
     case require_organization b org of
       Inl e \<Rightarrow> (Inl (Api e), s)
     | Inr o' \<Rightarrow> (case organization_desired_raw b o' (hx_config s) of
         (Inl e, w) \<Rightarrow> (Inl (Api (Internal e)), s\<lparr>hx_config := w\<rparr>)
       | (Inr (raw, source), w) \<Rightarrow>
           (Inr \<lparr>oq_organization = oc_id o', oq_source = source, oq_sha = content_sha256 (hl_apply env) raw,
              oq_content = (case parse_desired_document docs raw of
                Inr c \<Rightarrow> Some (redact_desired_only_document docs (detect_desired_format raw) c) | Inl _ \<Rightarrow> None)\<rparr>,
            s\<lparr>hx_config := w\<rparr>)))"

text \<open>The history of a stream: rows without their bodies, and how many there are.\<close>

definition get_revisions :: "int option \<Rightarrow> int option \<Rightarrow> revision_table \<Rightarrow> revision_row list \<times> nat" where
  "get_revisions limit offset t =
    (let (l, o') = revisions_window limit offset in
     (list_config_revisions (nat l) (nat o') t, count_config_revisions t))"

definition get_org_revisions ::
  "route_env \<Rightarrow> string \<Rightarrow> int option \<Rightarrow> int option \<Rightarrow> revision_table \<Rightarrow> api_error + revision_row list \<times> nat" where
  "get_org_revisions env org limit offset t =
    (case require_organization (hl_bootstrap env) org of
       Inl e \<Rightarrow> Inl e
     | Inr o' \<Rightarrow>
         (let (l, o'') = revisions_window limit offset in
          Inr (list_config_revisions_for (oc_id o') (nat l) (nat o'') t, count_config_revisions_for (oc_id o') t)))"

section \<open>Preconditions\<close>

text \<open>A digest, and the header that names it.\<close>

definition plain_tag :: "string \<Rightarrow> bool" where
  "plain_tag e \<longleftrightarrow> e \<noteq> [] \<and> (\<forall>c \<in> set e. c \<in> set ''0123456789abcdef'')"

definition quoted_tag :: "string \<Rightarrow> string" where
  "quoted_tag e = byte 34 # e @ [byte 34]"

lemma quote_is_no_space: "w \<in> set white_space \<Longrightarrow> byte 34 \<notin> set w"
proof -
  have "\<forall>w \<in> set white_space. byte 34 \<notin> set w" by code_simp
  then show "w \<in> set white_space \<Longrightarrow> byte 34 \<notin> set w" by blast
qed

lemma trim_quoted_tag: "trim (quoted_tag e) = quoted_tag e"
proof -
  have nil: "strip_front ws [] = []" for ws by (rule strip_front_id) auto
  have "strip_front white_space ([] @ byte 34 # e @ [byte 34]) = [] @ byte 34 # e @ [byte 34]"
    by (rule strip_front_stop_id) (simp_all add: quote_is_no_space nil)
  moreover have "strip_front (map rev white_space) ([] @ byte 34 # rev e @ [byte 34]) = [] @ byte 34 # rev e @ [byte 34]"
    by (rule strip_front_stop_id) (auto simp: quote_is_no_space nil)
  ultimately show ?thesis by (simp add: trim_def trim_start_def trim_end_def quoted_tag_def)
qed

lemma strip_one_quote:
  assumes "u \<noteq> []" "hd u \<noteq> byte 34"
  shows "strip_front [[byte 34]] (byte 34 # u) = u"
proof -
  have "strip_front [[byte 34]] u = u"
    by (rule strip_front_id) (use assms in \<open>auto simp: prefix_def\<close>)
  then show ?thesis by (simp add: strip_front.simps [of _ "byte 34 # u"])
qed

lemma matched_quoted_tag:
  assumes "plain_tag e"
  shows "matched_tag (quoted_tag e) = e"
proof -
  have no_quote: "byte 34 \<notin> set e"
  proof -
    have "byte 34 \<notin> set ''0123456789abcdef''" by code_simp
    then show ?thesis using assms unfolding plain_tag_def by blast
  qed
  have weak: "strip_front [''W/''] (quoted_tag e) = quoted_tag e"
  proof (rule strip_front_id)
    fix w assume "w \<in> set [''W/'']"
    moreover have "byte 34 \<noteq> CHR ''W''" by code_simp
    ultimately show "\<not> prefix w (quoted_tag e)" by (auto simp: quoted_tag_def)
  qed
  have e: "e \<noteq> []" using assms by (simp add: plain_tag_def)
  have ends: "hd e \<noteq> byte 34" "last e \<noteq> byte 34" using no_quote hd_in_set [OF e] last_in_set [OF e] by metis+
  have "strip_front [[byte 34]] (quoted_tag e) = e @ [byte 34]"
    unfolding quoted_tag_def by (rule strip_one_quote) (simp_all add: e hd_append ends)
  moreover have "strip_front [[byte 34]] (byte 34 # rev e) = rev e"
    by (rule strip_one_quote) (simp_all add: e hd_rev ends)
  ultimately show ?thesis by (simp add: matched_tag_def Let_def trim_quoted_tag weak)
qed

lemma check_quoted_tag:
  assumes "map_of h ''if-match'' = Some (Text (quoted_tag e))" "plain_tag e"
  shows "check_if_match h current hint = Inr () \<longleftrightarrow> current = Some e"
proof -
  have "CHR '','' \<notin> set ''0123456789abcdef''" by code_simp
  then have "CHR '','' \<notin> set e" using assms(2) unfolding plain_tag_def by blast
  moreover have "byte 34 \<noteq> CHR '',''" by code_simp
  ultimately have "CHR '','' \<notin> set (quoted_tag e)" by (simp add: quoted_tag_def)
  then have "split_by (\<lambda>c. c = CHR '','') (quoted_tag e) = [quoted_tag e]" by (intro split_by_none) metis
  moreover have "quoted_tag e \<noteq> ''*''" by (simp add: quoted_tag_def)
  ultimately show ?thesis
    using assms by (simp add: check_if_match_def trim_quoted_tag matched_quoted_tag)
qed

lemma pusher_users: "pusher env h body org s = (r, s') \<Longrightarrow> s' = s\<lparr>hx_users := hx_users s'\<rparr>"
  by (auto simp: pusher_def split: prod.splits)

text \<open>A push that got past its precondition.\<close>

lemma post_apply_steps:
  assumes "post_apply env h body s = (Inr resp, s')"
  obtains p u w where "pusher env h body None s = (Inr p, s\<lparr>hx_users := u\<rparr>)"
    "check_if_match h (hx_desired_sha s) ''GET /api/v1/config'' = Inr ()" "cf_organizations (hl_bootstrap env) = []"
    "apply_document (hl_apply env) (hl_bootstrap env) body (desired_format_from_headers h)
      (apply_origin_from_headers h p) Whole (hx_config s) = (Inr resp, w)"
    "s' = (commit_effective resp (s\<lparr>hx_users := u, hx_config := w\<rparr>))
      \<lparr>hx_metrics := count_outcome (Inr resp) (hx_metrics s)\<rparr>"
proof -
  obtain a s1 where auth: "pusher env h body None s = (a, s1)" by (cases "pusher env h body None s")
  then obtain p where a: "a = Inr p" using assms by (cases a) (simp_all add: post_apply_def)
  have s1: "s1 = s\<lparr>hx_users := hx_users s1\<rparr>" using pusher_users [OF auth] .
  then have same: "hx_desired_sha s1 = hx_desired_sha s" "hx_config s1 = hx_config s" "hx_metrics s1 = hx_metrics s"
    by (metis routes_world.ext_inject routes_world.surjective routes_world.update_convs(1))+
  have valid: "valid_utf8 body" using assms auth a by (cases "valid_utf8 body") (simp_all add: post_apply_def)
  have tag: "check_if_match h (hx_desired_sha s) ''GET /api/v1/config'' = Inr ()"
    using assms auth a valid same by (cases "check_if_match h (hx_desired_sha s) ''GET /api/v1/config''") (simp_all add: post_apply_def)
  have single: "cf_organizations (hl_bootstrap env) = []"
    using assms auth a valid same tag
    by (cases "cf_organizations (hl_bootstrap env)") (simp_all add: post_apply_def require_single_document_mode_def)
  obtain r w where pushed: "apply_document (hl_apply env) (hl_bootstrap env) body (desired_format_from_headers h)
      (apply_origin_from_headers h p) Whole (hx_config s) = (r, w)" by fastforce
  have fin: "finish_apply r (s1\<lparr>hx_config := w\<rparr>) = (Inr resp, s')"
    using assms auth a valid same tag single pushed by (simp add: post_apply_def require_single_document_mode_def)
  then have r: "r = Inr resp" by (cases r) (simp_all add: finish_apply_def Let_def)
  have "s' = (commit_effective resp (s1\<lparr>hx_config := w\<rparr>))\<lparr>hx_metrics := count_outcome (Inr resp) (hx_metrics s)\<rparr>"
    using fin r same by (auto simp: finish_apply_def commit_effective_def Let_def split: prod.splits)
  then show ?thesis using that [of p "hx_users s1" w] auth a tag single pushed r s1 by metis
qed

text \<open>
  C5: No update is lost: after a push that was applied, every push that names an earlier version of the
  document in its precondition is refused, and changes neither the tables nor what is running.
\<close>

theorem second_writer_is_refused:
  assumes "post_apply env h body s = (Inr resp, s')" and "ay_applied resp"
    and "map_of h' ''if-match'' = Some (Text (quoted_tag e))" and "plain_tag e" and "e \<noteq> ay_sha resp"
  shows "\<exists>err s''. post_apply env h' body' s' = (Inl err, s'') \<and> hx_config s'' = hx_config s'
    \<and> hx_desired_sha s'' = Some (ay_sha resp)"
  using assms(1)
proof (rule post_apply_steps)
  fix p u w assume "s' = (commit_effective resp (s\<lparr>hx_users := u, hx_config := w\<rparr>))
      \<lparr>hx_metrics := count_outcome (Inr resp) (hx_metrics s)\<rparr>"
  then have sha: "hx_desired_sha s' = Some (ay_sha resp)"
    using assms(2) by (simp add: commit_effective_def split_def Let_def)
  obtain a s1 where auth: "pusher env h' body' None s' = (a, s1)" by (cases "pusher env h' body' None s'")
  from pusher_users [OF this] have same: "hx_desired_sha s1 = hx_desired_sha s'" "hx_config s1 = hx_config s'"
    by (metis routes_world.ext_inject routes_world.surjective routes_world.update_convs(1))+
  have "check_if_match h' (hx_desired_sha s') ''GET /api/v1/config'' \<noteq> Inr ()"
    using check_quoted_tag [OF assms(3,4)] sha assms(5) by simp
  then obtain x where "check_if_match h' (hx_desired_sha s') ''GET /api/v1/config'' = Inl x"
    by (cases "check_if_match h' (hx_desired_sha s') ''GET /api/v1/config''") auto
  then show ?thesis using auth same sha by (cases a) (simp_all add: post_apply_def)
qed

section \<open>What a push adds to the ledger\<close>

text \<open>At most one row, in its stream; an applied one only with an answer, unless a database call has failed.\<close>

definition adds :: "string option \<Rightarrow> bool \<Rightarrow> config_world \<Rightarrow> config_world \<Rightarrow> bool" where
  "adds stream applied w w' \<longleftrightarrow> gw_ledger w' = gw_ledger w
    \<or> (\<exists>r. gw_ledger w' = with_row r (gw_ledger w) \<and> cr_org r = stream \<and> (cr_status r = Applied_revision \<longrightarrow> applied))"

lemma adds_same: "gw_ledger w' = gw_ledger w \<Longrightarrow> adds stream applied w w'"
  by (simp add: adds_def)

lemma adds_after: "gw_ledger v = gw_ledger w \<Longrightarrow> adds stream applied v w' \<Longrightarrow> adds stream applied w w'"
  by (simp add: adds_def)

lemma record_adds:
  assumes "record_attempt raw sha origin status err stream w = (r, w')" and "status = Applied_revision \<longrightarrow> applied"
  shows "adds stream applied w w'"
  using record_effect(5) [OF assms(1)] assms(2) by (auto simp: adds_def attempt_row_def)

lemma refusals_add:
  "adds stream applied w (snd (reject_document lib raw origin stream e w))"
  "adds stream applied w (snd (reject_invalid k report origin stream w))"
  by (cases e; auto simp: reject_document_def Let_def adds_same split: prod.split sum.split intro: record_adds)
    (auto simp: reject_invalid_def Let_def split: prod.split sum.split intro: record_adds)

lemma rotate_adds: "adds (ledger_stream scope) applied w (snd (rotate_secrets lib bootstrap origin scope previous i k w))"
proof -
  obtain r w1 where stored: "store_secrets lib bootstrap scope previous k w = (r, w1)"
    by (cases "store_secrets lib bootstrap scope previous k w")
  then have "gw_ledger w1 = gw_ledger w" using store_secrets_keeps [of w lib bootstrap scope previous k] by (simp add: keeps_running_def)
  then show ?thesis
    using stored refusals_add(2) by (cases r) (simp_all add: rotate_secrets_def Let_def adds_same)
qed

lemma swap_and_record_adds:
  assumes "swap_and_record lib origin scope previous k w = (r, w')"
  shows "adds (ledger_stream scope) (isl r \<longrightarrow> (\<exists>n. gw_fault w n \<noteq> None)) w w'"
proof -
  obtain r1 w1 where swap: "apply_runtime lib (sg_merged k) w = (r1, w1)" by (cases "apply_runtime lib (sg_merged k) w")
  then have only: "gw_ledger w1 = gw_ledger w" "gw_fault w1 = gw_fault w"
    using swap_only [of w lib "sg_merged k"] by (simp_all add: runtime_only_def same_surroundings_def)
  show ?thesis
  proof (cases r1)
    case (Inl x)
    then show ?thesis using assms swap only by (simp add: swap_and_record_def adds_same)
  next
    case (Inr u)
    obtain r2 w2 where rec: "record_attempt (sg_ledger_raw k) (sg_ledger_sha k) origin Applied_revision None (ledger_stream scope) w1 = (r2, w2)"
      by (cases "record_attempt (sg_ledger_raw k) (sg_ledger_sha k) origin Applied_revision None (ledger_stream scope) w1")
    have w': "gw_ledger w' = gw_ledger w2" "isl r = isl r2"
      using assms swap Inr rec swap_only [of w2 lib previous] by (cases r2; auto simp: swap_and_record_def runtime_only_def)+
    have lost: "isl r2 \<longrightarrow> gw_fault w1 (gw_calls w1) \<noteq> None"
      using rec by (auto simp: record_attempt_def append_revision_def insert_config_revision_def Let_def split: option.splits)
    have "adds (ledger_stream scope) (isl r \<longrightarrow> (\<exists>n. gw_fault w n \<noteq> None)) w1 w2"
    proof (rule record_adds [OF rec], intro impI)
      assume "isl r"
      then show "\<exists>n. gw_fault w n \<noteq> None" using lost only(2) w'(2) by (intro exI [of _ "gw_calls w1"]) simp
    qed
    then show ?thesis using only w' by (simp add: adds_def)
  qed
qed

lemma candidate_adds:
  assumes "apply_candidate lib bootstrap origin scope previous k w = (r, w')"
  shows "adds (ledger_stream scope) (isl r \<longrightarrow> (\<exists>n. gw_fault w n \<noteq> None)) w w'"
proof (cases "vr_valid (validate_full (libs_at lib w) (sg_merged k))")
  case False
  then have "w' = snd (reject_invalid k (validate_full (libs_at lib w) (sg_merged k)) origin (ledger_stream scope) w)"
    using assms by (cases "reject_invalid k (validate_full (libs_at lib w) (sg_merged k)) origin (ledger_stream scope) w")
      (simp add: apply_candidate_def Let_def)
  then show ?thesis using refusals_add(2) by simp
next
  case valid: True
  obtain r1 w1 where stored: "store_secrets lib bootstrap scope previous k w = (r1, w1)"
    by (cases "store_secrets lib bootstrap scope previous k w")
  then have keeps: "gw_ledger w1 = gw_ledger w" "gw_fault w1 = gw_fault w"
    using store_secrets_keeps [of w lib bootstrap scope previous k] by (simp_all add: keeps_running_def same_surroundings_def)
  show ?thesis
  proof (cases r1)
    case (Inl x)
    then show ?thesis using assms stored valid keeps by (simp add: apply_candidate_def Let_def adds_same)
  next
    case (Inr u)
    obtain r2 w2 where swap: "swap_and_record lib origin scope previous k w1 = (r2, w2)"
      by (cases "swap_and_record lib origin scope previous k w1")
    then have "w' = w2" "isl r = isl r2" using assms stored valid Inr by (cases r2; auto simp: apply_candidate_def Let_def)+
    then show ?thesis using swap_and_record_adds [OF swap] keeps by (simp add: adds_def)
  qed
qed

lemma push_adds:
  assumes "apply_document lib bootstrap raw hint origin scope w = (r, w')"
  shows "adds (ledger_stream scope) (isl r \<longrightarrow> (\<exists>n. gw_fault w n \<noteq> None)) w w'"
proof -
  obtain q w1 where query: "ledger_query (latest_applied_config_revision (ledger_stream scope)) w = (q, w1)"
    by (cases "ledger_query (latest_applied_config_revision (ledger_stream scope)) w")
  then have reads1: "reads_only w w1" using query_reads [of w "latest_applied_config_revision (ledger_stream scope)"] by simp
  then have same1: "gw_ledger w1 = gw_ledger w" by (simp add: reads_only_def)
  show ?thesis
  proof (cases q)
    case (Inl e)
    then show ?thesis using assms query same1 by (simp add: apply_document_def adds_same)
  next
    case q: (Inr current)
    show ?thesis
    proof (cases "map_option cr_sha current = Some (content_sha256 lib raw)")
      case True
      then show ?thesis using assms query q same1 by (auto simp: apply_document_def Let_def adds_same)
    next
      case new: False
      obtain r2 w2 where scoped: "resolve_scoped_candidate lib bootstrap raw hint scope (Some (gw_running w1)) w1 = (r2, w2)"
        by (cases "resolve_scoped_candidate lib bootstrap raw hint scope (Some (gw_running w1)) w1")
      then have "reads_only w w2"
        using candidate_reads [of w1 lib bootstrap raw hint scope "Some (gw_running w1)"] reads1 reads_only_trans [of w w1 w2] by simp
      then have same: "gw_ledger w2 = gw_ledger w" "gw_fault w2 = gw_fault w" by (simp_all add: reads_only_def same_surroundings_def)
      note steps = apply_steps [OF query [unfolded q] new scoped, of origin]
      have "adds (ledger_stream scope) (isl r \<longrightarrow> (\<exists>n. gw_fault w2 n \<noteq> None)) w2 w'"
      proof (cases r2)
        case (Inl e)
        then have "w' = snd (reject_document lib raw origin (ledger_stream scope) e w2)"
          using assms steps by (cases "reject_document lib raw origin (ledger_stream scope) e w2") simp
        then show ?thesis using refusals_add(1) by simp
      next
        case (Inr k)
        show ?thesis
        proof (cases "map_option cr_sha current = Some (sg_ledger_sha k)")
          case True
          then have "w' = snd (rotate_secrets lib bootstrap origin scope (gw_running w1) (cr_id (the current)) k w2)"
            using assms steps Inr by (simp del: map_option_eq_Some)
          then show ?thesis using rotate_adds by simp
        next
          case False
          then show ?thesis using candidate_adds assms steps Inr by (simp del: map_option_eq_Some)
        qed
      qed
      then show ?thesis using same by (simp add: adds_def)
    qed
  qed
qed

lemma rollback_adds:
  assumes "rollback lib bootstrap origin scope w = (r, w')"
  shows "adds (ledger_stream scope) (isl r \<longrightarrow> (\<exists>n. gw_fault w n \<noteq> None)) w w'"
proof -
  obtain q w1 where query: "ledger_query (previous_applied_config_revision (ledger_stream scope)) w = (q, w1)"
    by (cases "ledger_query (previous_applied_config_revision (ledger_stream scope)) w")
  then have same: "gw_ledger w1 = gw_ledger w" "gw_fault w1 = gw_fault w"
    using query_reads [of w "previous_applied_config_revision (ledger_stream scope)"] by (simp_all add: reads_only_def same_surroundings_def)
  consider e where "q = Inl e" | "q = Inr None" | row where "q = Inr (Some row)" by (cases q; cases "projr q") auto
  then show ?thesis
  proof cases
    case 3
    then have "apply_document lib bootstrap (cr_content row) None origin scope w1 = (r, w')"
      using assms query by (simp add: rollback_def)
    from push_adds [OF this] show ?thesis using same by (simp add: adds_def)
  qed (use assms query same in \<open>auto simp: rollback_def adds_same\<close>)
qed

lemma adds_other_stream: "adds stream applied w w' \<Longrightarrow> org \<noteq> stream \<Longrightarrow> applied_rows org (gw_ledger w') = applied_rows org (gw_ledger w)"
  by (auto simp: adds_def applied_with_row)

lemma adds_nothing_applied: "adds stream False w w' \<Longrightarrow> applied_rows org (gw_ledger w') = applied_rows org (gw_ledger w)"
  by (auto simp: adds_def applied_with_row)

section \<open>Any sequence of requests\<close>

datatype route_call =
    Apply_route header_map string
  | Rollback_route header_map
  | Org_apply_route string header_map string
  | Org_rollback_route string header_map
  | Reload_route

fun exec_route :: "route_env \<Rightarrow> route_call \<Rightarrow> routes_world \<Rightarrow> routes_world" where
  "exec_route env (Apply_route h body) s = snd (post_apply env h body s)"
| "exec_route env (Rollback_route h) s = snd (post_rollback env h s)"
| "exec_route env (Org_apply_route org h body) s = snd (post_org_apply env org h body s)"
| "exec_route env (Org_rollback_route org h) s = snd (post_org_rollback env org h s)"
| "exec_route env Reload_route s = snd (reload_from_disk env s)"

text \<open>Whom a request asks for: its header, its signed body, and the organization it is about.\<close>

fun asks_as :: "route_call \<Rightarrow> (header_map \<times> string \<times> string option) option" where
  "asks_as (Apply_route h body) = Some (h, body, None)"
| "asks_as (Rollback_route h) = Some (h, [], None)"
| "asks_as (Org_apply_route org h body) = Some (h, body, Some (trim org))"
| "asks_as (Org_rollback_route org h) = Some (h, [], Some (trim org))"
| "asks_as Reload_route = None"

lemma require_organization_found:
  "require_organization b org = Inr o' \<Longrightarrow> oc_id o' = trim org \<and> cf_organizations b \<noteq> []"
  by (auto simp: require_organization_def split: if_splits option.splits dest: find_Some_in)

lemma refused_pusher:
  assumes "fst (require_config_apply_auth (hl_auth env) (hl_api env) h body org (hx_users s)) = Inl e"
  shows "\<exists>u. pusher env h body org s = (Inl e, s\<lparr>hx_users := u\<rparr>)"
  using assms by (cases "require_config_apply_auth (hl_auth env) (hl_api env) h body org (hx_users s)") (auto simp: pusher_def)

text \<open>
  C23: Nobody changes the configuration without the right to: a request to push or to roll back, for the
  whole instance or for one organization, that is not authorised for exactly that, leaves the ledger, the
  secrets and what is running alone.
\<close>

theorem unauthorised_changes_nothing:
  assumes "asks_as call = Some (h, body, org)"
    and "fst (require_config_apply_auth (hl_auth env) (hl_api env) h body org (hx_users s)) = Inl e"
  shows "hx_config (exec_route env call s) = hx_config s \<and> hx_desired_sha (exec_route env call s) = hx_desired_sha s"
proof -
  obtain u where denied: "pusher env h body org s = (Inl e, s\<lparr>hx_users := u\<rparr>)"
    using refused_pusher [OF assms(2)] by blast
  show ?thesis
  proof (cases call)
    case (Org_apply_route i h' body')
    then show ?thesis
      using assms(1) denied require_organization_found [of "hl_bootstrap env" i]
      by (cases "require_organization (hl_bootstrap env) i") (simp_all add: post_org_apply_def Let_def)
  next
    case (Org_rollback_route i h')
    then show ?thesis
      using assms(1) denied require_organization_found [of "hl_bootstrap env" i]
      by (cases "require_organization (hl_bootstrap env) i") (simp_all add: post_org_rollback_def Let_def)
  qed (use assms(1) denied in \<open>simp_all add: post_apply_def post_rollback_def\<close>)
qed

lemma reload_refused:
  assumes "cf_organizations (hl_bootstrap env) = []" and "ledger_is_bootable (as_config_api (hl_api env))"
    and "applied_rows None (gw_ledger (hx_config s)) \<noteq> []"
  shows "\<exists>e s'. reload_from_disk env s = (Inl e, s') \<and> reads_only (hx_config s) (hx_config s')
    \<and> hx_desired_sha s' = hx_desired_sha s"
proof -
  obtain r w where query: "ledger_query (latest_applied_config_revision None) (hx_config s) = (r, w)"
    by (cases "ledger_query (latest_applied_config_revision None) (hx_config s)")
  then have same: "reads_only (hx_config s) w"
    using query_reads [of "hx_config s" "latest_applied_config_revision None"] by simp
  have "r \<noteq> Inr None"
  proof
    assume "r = Inr None"
    then have "latest_applied_config_revision None (gw_ledger (hx_config s)) = Inr None"
      using query_answer [of "latest_applied_config_revision None" "hx_config s" None] query by simp
    then have "newest_first (applied_rows None (gw_ledger (hx_config s))) = []"
      by (simp add: latest_applied_config_revision_def stream_config_revision_def applied_rows_def split: list.splits sum.splits)
    then show False using assms(3) set_newest_first [of "applied_rows None (gw_ledger (hx_config s))"] by (metis set_empty)
  qed
  then consider e where "r = Inl e" | row where "r = Inr (Some row)" by (cases r; cases "projr r") auto
  then show ?thesis
    using assms(1,2) query same
    by cases (auto simp: reload_from_disk_def Let_def split: option.split sum.split)
qed

text \<open>
  C24: A reload never overrides the ledger: in single-document mode with a ledger that the instance boots
  from, a reload of the file is refused as long as an applied revision exists, or the database cannot
  tell; what is running stays.
\<close>

theorem reload_never_overrides_ledger:
  assumes "cf_organizations (hl_bootstrap env) = []" and "ledger_is_bootable (as_config_api (hl_api env))"
    and "applied_rows None (gw_ledger (hx_config s)) \<noteq> []"
  shows "\<exists>e s'. reload_from_disk env s = (Inl e, s') \<and> same_runtime (hx_config s) (hx_config s')
    \<and> hx_desired_sha s' = hx_desired_sha s"
  using reload_refused [OF assms] by (auto simp: reads_only_def)

section \<open>What every request keeps\<close>

lemma commit_reads: "reads_only (hx_config s) (hx_config (commit_effective resp s))"
proof -
  obtain r w where query: "ledger_query (latest_applied_config_revision None) (hx_config s) = (r, w)"
    by (cases "ledger_query (latest_applied_config_revision None) (hx_config s)")
  then have "reads_only (hx_config s) w" using query_reads [of "hx_config s" "latest_applied_config_revision None"] by simp
  then show ?thesis by (simp add: commit_effective_def query)
qed

lemma finish_reads:
  "reads_only (hx_config s) (hx_config (snd (finish_apply r s)))"
  "hx_config (snd (finish_org_apply r s)) = hx_config s"
  using commit_reads by (cases r; simp add: finish_apply_def Let_def) (simp add: finish_org_apply_def)

lemma pusher_config: "hx_config (snd (pusher env h body org s)) = hx_config s \<and> hx_desired_sha (snd (pusher env h body org s)) = hx_desired_sha s"
  by (simp add: pusher_def split: prod.split)

text \<open>How a request that is no reload changes the tables and the runtime: by reading, or by a push or a rollback.\<close>

definition read_by :: "route_env \<Rightarrow> route_call \<Rightarrow> routes_world \<Rightarrow> bool" where
  "read_by env call s \<longleftrightarrow> reads_only (hx_config s) (hx_config (exec_route env call s))
    \<and> hx_desired_sha (exec_route env call s) = hx_desired_sha s"

definition published :: "apply_scope \<Rightarrow> apply_error + apply_response \<Rightarrow> string option \<Rightarrow> string option" where
  "published scope r current =
    (case r of
       Inl _ \<Rightarrow> current
     | Inr resp \<Rightarrow> if \<not> ay_applied resp then current else if scope = Whole then Some (ay_sha resp) else None)"

definition pushed_by :: "route_env \<Rightarrow> route_call \<Rightarrow> routes_world \<Rightarrow> bool" where
  "pushed_by env call s \<longleftrightarrow> (\<exists>body hint origin scope w w1 r h b.
    reads_only (hx_config s) w
    \<and> (apply_document (hl_apply env) (hl_bootstrap env) body hint origin scope w = (r, w1)
        \<or> rollback (hl_apply env) (hl_bootstrap env) origin scope w = (r, w1))
    \<and> reads_only w1 (hx_config (exec_route env call s)) \<and> asks_as call = Some (h, b, ledger_stream scope)
    \<and> hx_desired_sha (exec_route env call s) = published scope r (hx_desired_sha s)
    \<and> (scope = Whole \<longleftrightarrow> cf_organizations (hl_bootstrap env) = []))"

lemma pushed_byI:
  assumes "reads_only (hx_config s) w"
    and "apply_document (hl_apply env) (hl_bootstrap env) body hint origin scope w = (r, w1)
        \<or> rollback (hl_apply env) (hl_bootstrap env) origin scope w = (r, w1)"
    and "reads_only w1 (hx_config (exec_route env call s))" "asks_as call = Some (h, b, ledger_stream scope)"
    and "hx_desired_sha (exec_route env call s) = published scope r (hx_desired_sha s)"
    and "scope = Whole \<longleftrightarrow> cf_organizations (hl_bootstrap env) = []"
  shows "pushed_by env call s"
  unfolding pushed_by_def using assms by blast

lemma finish_published:
  "hx_desired_sha (snd (finish_apply r t)) = published Whole r (hx_desired_sha t)"
  "hx_desired_sha (snd (finish_org_apply r t)) = published (Organization org) r (hx_desired_sha t)"
  by (cases r; simp add: finish_apply_def commit_effective_def published_def Let_def split_def)
    (cases r; simp add: finish_org_apply_def published_def)

lemma pusher_obtain:
  obtains a s1 where "pusher env h body org s = (a, s1)" "hx_config s1 = hx_config s" "hx_desired_sha s1 = hx_desired_sha s"
  using pusher_config [of env h body org s] by (cases "pusher env h body org s") auto

lemma apply_route_case: "read_by env (Apply_route h body) s \<or> pushed_by env (Apply_route h body) s"
proof (rule pusher_obtain [of env h body None s])
  fix a s1 assume auth: "pusher env h body None s = (a, s1)" and s1: "hx_config s1 = hx_config s" "hx_desired_sha s1 = hx_desired_sha s"
  define ok where "ok \<longleftrightarrow> valid_utf8 body \<and> check_if_match h (hx_desired_sha s) ''GET /api/v1/config'' = Inr ()
    \<and> cf_organizations (hl_bootstrap env) = []"
  show ?thesis
  proof (cases "isl a \<or> \<not> ok")
    case True
    then have "read_by env (Apply_route h body) s"
      using auth s1 unfolding ok_def read_by_def
      by (cases a; cases "check_if_match h (hx_desired_sha s) ''GET /api/v1/config''")
        (auto simp: post_apply_def require_single_document_mode_def)
    then show ?thesis ..
  next
    case False
    then obtain p where a: "a = Inr p" and ok by (cases a) simp_all
    obtain r w where pushed: "apply_document (hl_apply env) (hl_bootstrap env) body (desired_format_from_headers h)
        (apply_origin_from_headers h p) Whole (hx_config s) = (r, w)" by fastforce
    have run: "exec_route env (Apply_route h body) s = snd (finish_apply r (s1\<lparr>hx_config := w\<rparr>))"
      using auth a \<open>ok\<close> pushed s1 by (simp add: ok_def post_apply_def require_single_document_mode_def)
    have "pushed_by env (Apply_route h body) s"
      by (rule pushed_byI [OF reads_only_refl disjI1, OF pushed])
        (use finish_reads(1) [of "s1\<lparr>hx_config := w\<rparr>" r] run finish_published(1) \<open>ok\<close> s1 in \<open>simp_all add: ok_def\<close>)
    then show ?thesis ..
  qed
qed

lemma rollback_route_case: "read_by env (Rollback_route h) s \<or> pushed_by env (Rollback_route h) s"
proof (rule pusher_obtain [of env h "[]" None s])
  fix a s1 assume auth: "pusher env h [] None s = (a, s1)" and s1: "hx_config s1 = hx_config s" "hx_desired_sha s1 = hx_desired_sha s"
  show ?thesis
  proof (cases "isl a \<or> cf_organizations (hl_bootstrap env) \<noteq> []")
    case True
    then have "read_by env (Rollback_route h) s"
      using auth s1 unfolding read_by_def
      by (cases a) (auto simp: post_rollback_def require_single_document_mode_def)
    then show ?thesis ..
  next
    case False
    then obtain p where a: "a = Inr p" by (cases a) simp_all
    obtain r w where pushed: "rollback (hl_apply env) (hl_bootstrap env) (apply_origin_from_headers h p) Whole (hx_config s) = (r, w)"
      by fastforce
    have run: "exec_route env (Rollback_route h) s = snd (finish_apply r (s1\<lparr>hx_config := w\<rparr>))"
      using auth a False pushed s1 by (simp add: post_rollback_def require_single_document_mode_def)
    have "pushed_by env (Rollback_route h) s"
      by (rule pushed_byI [OF reads_only_refl disjI2, OF pushed])
        (use finish_reads(1) [of "s1\<lparr>hx_config := w\<rparr>" r] run finish_published(1) False s1 in simp_all)
    then show ?thesis ..
  qed
qed

lemma org_apply_route_case: "read_by env (Org_apply_route org h body) s \<or> pushed_by env (Org_apply_route org h body) s"
proof (cases "require_organization (hl_bootstrap env) org")
  case (Inl e)
  then show ?thesis by (simp add: read_by_def post_org_apply_def Let_def)
next
  case o': (Inr o')
  note id = require_organization_found [OF o']
  show ?thesis
  proof (rule pusher_obtain [of env h body "Some (oc_id o')" s])
    fix a s1 assume auth: "pusher env h body (Some (oc_id o')) s = (a, s1)"
      and s1: "hx_config s1 = hx_config s" "hx_desired_sha s1 = hx_desired_sha s"
    obtain d w where raw: "organization_desired_raw (hl_bootstrap env) o' (hx_config s) = (d, w)" by fastforce
    then have reads: "reads_only (hx_config s) w" using raw_reads [of "hx_config s" "hl_bootstrap env" o'] by simp
    define tag where "tag \<longleftrightarrow> check_if_match h (Some (content_sha256 (hl_apply env) (fst (projr d)))) (org_config_path (oc_id o')) = Inr ()"
    define ok where "ok \<longleftrightarrow> valid_utf8 body \<and> \<not> isl (require_pushes_accepted (hl_bootstrap env)) \<and> \<not> isl d \<and> tag"
    show ?thesis
    proof (cases "isl a \<or> \<not> ok")
      case True
      then have "read_by env (Org_apply_route org h body) s"
        using o' auth raw s1 reads unfolding ok_def tag_def read_by_def
        by (cases a; cases "require_pushes_accepted (hl_bootstrap env)"; cases d;
            cases "check_if_match h (Some (content_sha256 (hl_apply env) (fst (projr d)))) (org_config_path (oc_id o'))")
          (auto simp: post_org_apply_def Let_def)
      then show ?thesis ..
    next
      case False
      then obtain p raw' src where a: "a = Inr p" "d = Inr (raw', src)" and ok by (cases a; cases d) (auto simp: ok_def)
      obtain r v where pushed: "apply_document (hl_apply env) (hl_bootstrap env) body (desired_format_from_headers h)
          (apply_origin_from_headers h p) (Organization (oc_id o')) w = (r, v)" by fastforce
      have run: "exec_route env (Org_apply_route org h body) s = snd (finish_org_apply r (s1\<lparr>hx_config := v\<rparr>))"
        using o' auth a \<open>ok\<close> raw pushed s1 by (cases "require_pushes_accepted (hl_bootstrap env)")
          (auto simp: ok_def tag_def post_org_apply_def Let_def)
      have "pushed_by env (Org_apply_route org h body) s"
        by (rule pushed_byI [OF reads disjI1, OF pushed])
          (use finish_reads(2) [of r "s1\<lparr>hx_config := v\<rparr>"] run
            finish_published(2) [of r "s1\<lparr>hx_config := v\<rparr>" "oc_id o'"] id s1 in simp_all)
      then show ?thesis ..
    qed
  qed
qed

lemma org_rollback_route_case: "read_by env (Org_rollback_route org h) s \<or> pushed_by env (Org_rollback_route org h) s"
proof (cases "require_organization (hl_bootstrap env) org")
  case (Inl e)
  then show ?thesis by (simp add: read_by_def post_org_rollback_def Let_def)
next
  case o': (Inr o')
  note id = require_organization_found [OF o']
  show ?thesis
  proof (rule pusher_obtain [of env h "[]" "Some (oc_id o')" s])
    fix a s1 assume auth: "pusher env h [] (Some (oc_id o')) s = (a, s1)"
      and s1: "hx_config s1 = hx_config s" "hx_desired_sha s1 = hx_desired_sha s"
    show ?thesis
    proof (cases "isl a \<or> isl (require_pushes_accepted (hl_bootstrap env))")
      case True
      then have "read_by env (Org_rollback_route org h) s"
        using o' auth s1 unfolding read_by_def
        by (cases a; cases "require_pushes_accepted (hl_bootstrap env)") (auto simp: post_org_rollback_def Let_def)
      then show ?thesis ..
    next
      case False
      then obtain p where a: "a = Inr p" by (cases a) simp_all
      obtain r w where pushed: "rollback (hl_apply env) (hl_bootstrap env) (apply_origin_from_headers h p)
          (Organization (oc_id o')) (hx_config s) = (r, w)" by fastforce
      have run: "exec_route env (Org_rollback_route org h) s = snd (finish_org_apply r (s1\<lparr>hx_config := w\<rparr>))"
        using o' auth a False pushed s1 by (cases "require_pushes_accepted (hl_bootstrap env)") (simp_all add: post_org_rollback_def Let_def)
      have "pushed_by env (Org_rollback_route org h) s"
        by (rule pushed_byI [OF reads_only_refl disjI2, OF pushed])
          (use finish_reads(2) [of r "s1\<lparr>hx_config := w\<rparr>"] run
            finish_published(2) [of r "s1\<lparr>hx_config := w\<rparr>" "oc_id o'"] id s1 in simp_all)
      then show ?thesis ..
    qed
  qed
qed

lemma route_cases:
  "read_by env call s \<or> pushed_by env call s \<or> call = Reload_route"
  using apply_route_case rollback_route_case org_apply_route_case org_rollback_route_case by (cases call) blast+

lemma reload_config_only: "runtime_only w (snd (reload_config lib sha path c w))"
proof -
  have same: "runtime_only w w" by (simp add: runtime_only_def same_secrets_def)
  obtain r w1 where "apply_runtime lib c w = (r, w1)" by (cases "apply_runtime lib c w")
  moreover from this have "runtime_only w w1" using swap_only [of w lib c] by simp
  ultimately show ?thesis using same by (cases r) (simp_all add: reload_config_def Let_def)
qed

lemma reads_runtime_only: "reads_only w w1 \<Longrightarrow> runtime_only w1 w2 \<Longrightarrow> runtime_only w w2"
  by (auto simp: reads_only_def runtime_only_def same_secrets_def intro: surroundings_trans)

lemma reload_document_only: "runtime_only w (snd (reload_document lib b current path raw hint w))"
  using reload_config_only reads_runtime_only [OF reads_only_refl]
  by (auto simp: reload_document_def Let_def runtime_only_def same_secrets_def split: sum.split)

lemma reload_organizations_only: "runtime_only w (snd (reload_organizations lib b current w))"
proof -
  obtain r w1 where comp: "compose_organizations (yl_compose lib) b None w = (r, w1)"
    by (cases "compose_organizations (yl_compose lib) b None w")
  then have reads: "reads_only w w1" using compose_reads [of w "yl_compose lib" b None] by simp
  have "runtime_only w1 w1" by (simp add: runtime_only_def same_secrets_def)
  then have "runtime_only w w1" using reads_runtime_only [OF reads] by simp
  then show ?thesis
    using comp reads_runtime_only [OF reads reload_config_only]
    by (cases r) (simp_all add: reload_organizations_def Let_def)
qed

lemma finish_reload_config: "hx_config (snd (finish_reload rw s)) = snd rw"
  by (simp add: finish_reload_def split: prod.split sum.split)

lemma reload_only: "runtime_only (hx_config s) (hx_config (snd (reload_from_disk env s)))"
proof -
  have same: "runtime_only w w" for w by (simp add: runtime_only_def same_secrets_def)
  have after: "runtime_only w (snd (reload_document lib b current path raw hint w1))"
    if "reads_only w w1" for w w1 lib b current path raw hint
    using reads_runtime_only [OF that reload_document_only] .
  have read: "runtime_only w w1" if "reads_only w w1" for w w1 using reads_runtime_only [OF that same] .
  show ?thesis
  proof (cases "cf_organizations (hl_bootstrap env) = []")
    case False
    then show ?thesis using reload_organizations_only by (simp add: reload_from_disk_def Let_def finish_reload_config)
  next
    case True
    obtain r w where query: "(if ledger_is_bootable (as_config_api (hl_api env))
        then ledger_query (latest_applied_config_revision None) (hx_config s) else (Inr None, hx_config s)) = (r, w)" by fastforce
    then have reads: "reads_only (hx_config s) w"
      using query_reads [of "hx_config s" "latest_applied_config_revision None"] by (auto split: if_splits)
    show ?thesis
      using True query reads after [OF reads] read [OF reads] same
      by (auto simp: reload_from_disk_def Let_def finish_reload_config split: option.split sum.split)
  qed
qed

context ledger_contract
begin

lemma rollback_keep: "I w \<Longrightarrow> I (snd (rollback lib b origin scope w))"
  using exec_keep [of w b "Roll_back origin scope"] by simp

lemma route_keep:
  assumes "hl_apply env = lib" and "I (hx_config s)"
  shows "I (hx_config (exec_route env call s))"
  using route_cases [of env call s]
proof (elim disjE)
  assume "read_by env call s"
  then show ?thesis using reads_keep assms(2) by (simp add: read_by_def)
next
  assume "pushed_by env call s"
  then obtain body hint origin scope w w1 r where steps: "reads_only (hx_config s) w"
    "apply_document lib (hl_bootstrap env) body hint origin scope w = (r, w1)
      \<or> rollback lib (hl_bootstrap env) origin scope w = (r, w1)"
    "reads_only w1 (hx_config (exec_route env call s))"
    unfolding pushed_by_def assms(1) by blast
  then have "I w1"
    using reads_keep [OF assms(2) steps(1)] apply_document_keep rollback_keep by (metis snd_conv)
  then show ?thesis using reads_keep steps(3) by blast
next
  assume "call = Reload_route"
  then show ?thesis using moved [OF assms(2)] reload_only [of s env] by (simp add: runtime_only_def)
qed

end

interpretation faults: ledger_contract lib "\<lambda>w. gw_fault w = F" for lib F
  by unfold_locales (simp_all add: same_surroundings_def)

definition run_routes :: "route_env \<Rightarrow> route_call list \<Rightarrow> routes_world \<Rightarrow> routes_world" where
  "run_routes env requests s = fold (exec_route env) requests s"

lemma route_other_stream:
  assumes "\<And>h b. asks_as call \<noteq> Some (h, b, org)"
  shows "applied_rows org (gw_ledger (hx_config (exec_route env call s))) = applied_rows org (gw_ledger (hx_config s))"
  using route_cases [of env call s]
proof (elim disjE)
  assume "pushed_by env call s"
  then obtain body hint origin scope w w1 r h b where steps: "reads_only (hx_config s) w"
    "apply_document (hl_apply env) (hl_bootstrap env) body hint origin scope w = (r, w1)
      \<or> rollback (hl_apply env) (hl_bootstrap env) origin scope w = (r, w1)"
    "reads_only w1 (hx_config (exec_route env call s))" "asks_as call = Some (h, b, ledger_stream scope)"
    unfolding pushed_by_def by blast
  have "adds (ledger_stream scope) (isl r \<longrightarrow> (\<exists>n. gw_fault w n \<noteq> None)) w w1"
    using steps(2) push_adds rollback_adds by blast
  moreover have "org \<noteq> ledger_stream scope" using steps(4) assms by blast
  ultimately have "applied_rows org (gw_ledger w1) = applied_rows org (gw_ledger w)" by (rule adds_other_stream)
  then show ?thesis using steps(1,3) by (simp add: reads_only_def)
qed (use reload_only [of s env] in \<open>simp_all add: read_by_def reads_only_def runtime_only_def\<close>)

text \<open>
  C22: The streams of organizations are isolated: whatever requests are made for other organizations, for
  the whole instance or to reload, and whatever fails, the applied revisions of an organization are what
  they were.
\<close>

theorem organization_streams_isolated:
  assumes "\<forall>call \<in> set requests. \<forall>h b. asks_as call \<noteq> Some (h, b, Some org)"
  shows "applied_rows (Some org) (gw_ledger (hx_config (run_routes env requests s)))
    = applied_rows (Some org) (gw_ledger (hx_config s))"
  using assms unfolding run_routes_def
  by (induction requests arbitrary: s) (simp_all add: route_other_stream)

section \<open>The published identity\<close>

definition identity_of :: "config_world \<Rightarrow> string option \<Rightarrow> bool" where
  "identity_of w sha \<longleftrightarrow> applied_rows None (gw_ledger w) \<noteq> []
    \<longrightarrow> sha = Some (cr_sha (last (applied_rows None (gw_ledger w))))"

lemma push_identity:
  assumes "ledger_ok lib w" and "\<And>n. gw_fault w n = None" and "identity_of w sha"
    and "apply_document lib b raw hint origin Whole w = (r, w')"
  shows "identity_of w' (published Whole r sha)"
proof (cases r)
  case (Inl e)
  then have "adds None False w w'" using push_adds [OF assms(4)] assms(2) by simp
  then show ?thesis using adds_nothing_applied assms(3) Inl by (simp add: identity_of_def published_def)
next
  case (Inr resp)
  show ?thesis using assms(4) [unfolded Inr]
  proof (cases rule: answered_cases)
    case (newest row)
    then have "last (applied_rows None (gw_ledger w)) = row" "gw_ledger w' = gw_ledger w"
      using latest_is_last [OF _ newest(1)] assms(1) by (auto simp: ledger_ok_def keeps_running_def split: if_splits)
    then show ?thesis using assms(3) newest(2) Inr by (auto simp: identity_of_def published_def)
  next
    case (recorded k v u)
    then show ?thesis using Inr by (simp add: identity_of_def published_def applied_with_row attempt_row_def)
  qed
qed

lemma rollback_identity:
  assumes "ledger_ok lib w" and "\<And>n. gw_fault w n = None" and "identity_of w sha"
    and "rollback lib b origin Whole w = (r, w')"
  shows "identity_of w' (published Whole r sha)"
proof -
  obtain q w1 where query: "ledger_query (previous_applied_config_revision (ledger_stream Whole)) w = (q, w1)"
    by (cases "ledger_query (previous_applied_config_revision (ledger_stream Whole)) w")
  then have reads: "reads_only w w1"
    using query_reads [of w "previous_applied_config_revision (ledger_stream Whole)"] by simp
  then have w1: "ledger_ok lib w1" "\<And>n. gw_fault w1 n = None" "identity_of w1 sha"
    using ordered.reads_keep assms(1-3) by (simp_all add: reads_only_def same_surroundings_def identity_of_def)
  consider e where "q = Inl e" | "q = Inr None" | row where "q = Inr (Some row)" by (cases q; cases "projr q") auto
  then show ?thesis
  proof cases
    case 3
    then have "apply_document lib b (cr_content row) None origin Whole w1 = (r, w')" using assms(4) query by (simp add: rollback_def)
    then show ?thesis using push_identity [OF w1] by simp
  qed (use assms(4) query w1(3) in \<open>auto simp: rollback_def published_def\<close>)
qed

lemma route_identity:
  assumes "cf_organizations (hl_bootstrap env) = []" and "ledger_is_bootable (as_config_api (hl_api env))"
    and "ledger_ok (hl_apply env) (hx_config s)" and "\<And>n. gw_fault (hx_config s) n = None"
    and "identity_of (hx_config s) (hx_desired_sha s)"
  shows "identity_of (hx_config (exec_route env call s)) (hx_desired_sha (exec_route env call s))"
  using route_cases [of env call s]
proof (elim disjE)
  assume "read_by env call s"
  then show ?thesis using assms(5) by (simp add: read_by_def identity_of_def reads_only_def)
next
  assume "pushed_by env call s"
  then obtain body hint origin scope w w1 r where steps: "reads_only (hx_config s) w"
    "apply_document (hl_apply env) (hl_bootstrap env) body hint origin scope w = (r, w1)
      \<or> rollback (hl_apply env) (hl_bootstrap env) origin scope w = (r, w1)"
    "reads_only w1 (hx_config (exec_route env call s))"
    "hx_desired_sha (exec_route env call s) = published scope r (hx_desired_sha s)" "scope = Whole"
    unfolding pushed_by_def using assms(1) by blast
  have "ledger_ok (hl_apply env) w" "\<And>n. gw_fault w n = None" "identity_of w (hx_desired_sha s)"
    using ordered.reads_keep [OF assms(3) steps(1)] assms(4,5) steps(1)
    by (simp_all add: reads_only_def same_surroundings_def identity_of_def)
  then have "identity_of w1 (published Whole r (hx_desired_sha s))"
    using steps(2) push_identity rollback_identity unfolding steps(5) by blast
  then show ?thesis using steps(3-5) by (simp add: identity_of_def reads_only_def)
next
  assume "call = Reload_route"
  then show ?thesis
    using reload_refused [OF assms(1,2), of s] assms(5) reload_only [of s env]
    by (cases "applied_rows None (gw_ledger (hx_config s)) = []")
      (auto simp: identity_of_def runtime_only_def)
qed

text \<open>
  C17: The published identity, which preconditions are compared with, is the digest of the newest applied
  revision: on an instance that serves one document with a bootable ledger as its authority, while the
  database answers every call, on an ordered ledger, this holds after any sequence of pushes, rollbacks and reloads, refused
  ones included, when it holds before.
\<close>

theorem identity_is_newest_revision:
  assumes "cf_organizations (hl_bootstrap env) = []" and "ledger_is_bootable (as_config_api (hl_api env))"
    and "ledger_ok (hl_apply env) (hx_config s)" and "gw_fault (hx_config s) = (\<lambda>_. None)"
    and "identity_of (hx_config s) (hx_desired_sha s)"
  shows "identity_of (hx_config (run_routes env requests s)) (hx_desired_sha (run_routes env requests s))"
  using assms(3-5) unfolding run_routes_def
proof (induction requests arbitrary: s)
  case (Cons call requests)
  have "ledger_ok (hl_apply env) (hx_config (exec_route env call s))"
    by (rule ordered.route_keep) (use Cons.prems in simp_all)
  moreover have "gw_fault (hx_config (exec_route env call s)) = (\<lambda>_. None)"
    by (rule faults.route_keep) (use Cons.prems in simp_all)
  moreover have "identity_of (hx_config (exec_route env call s)) (hx_desired_sha (exec_route env call s))"
    by (rule route_identity [OF assms(1,2)]) (use Cons.prems in simp_all)
  ultimately show ?case using Cons.IH by simp
qed simp

text \<open>
  A rotated secret does not change the version: after a push that stored other secrets and made no
  revision, the published identity is what it was, so that a push by someone who read the document
  before passes its precondition and replaces the secrets again.
\<close>

theorem rotation_keeps_version:
  assumes "ledger_ok (hl_apply env) (hx_config s)" and "identity_of (hx_config s) (hx_desired_sha s)"
    and "post_apply env h body s = (Inr resp, s')" and "gw_ledger (hx_config s') = gw_ledger (hx_config s)"
  shows "hx_desired_sha s' = hx_desired_sha s"
  using assms(3)
proof (rule post_apply_steps)
  fix p u w assume pushed: "apply_document (hl_apply env) (hl_bootstrap env) body (desired_format_from_headers h)
      (apply_origin_from_headers h p) Whole (hx_config s) = (Inr resp, w)"
    and s': "s' = (commit_effective resp (s\<lparr>hx_users := u, hx_config := w\<rparr>))\<lparr>hx_metrics := count_outcome (Inr resp) (hx_metrics s)\<rparr>"
  have w: "gw_ledger w = gw_ledger (hx_config s)"
    using s' commit_reads [of "s\<lparr>hx_users := u, hx_config := w\<rparr>" resp] assms(4) by (simp add: reads_only_def)
  have sha: "hx_desired_sha s' = (if ay_applied resp then Some (ay_sha resp) else hx_desired_sha s)"
    using s' by (simp add: commit_effective_def split_def Let_def)
  show ?thesis using pushed
  proof (cases rule: answered_cases)
    case (newest row)
    then have "applied_rows None (gw_ledger (hx_config s)) \<noteq> []" "last (applied_rows None (gw_ledger (hx_config s))) = row"
      using latest_is_last [OF _ newest(1)] assms(1) by (auto simp: ledger_ok_def split: if_splits)
    then show ?thesis using sha newest(2) assms(2) by (simp add: identity_of_def)
  next
    case (recorded k v u')
    have "length (vt_rows (gw_ledger w)) = length (vt_rows (gw_ledger (hx_config s))) + 1"
      by (simp add: recorded(10) with_row_def)
    then show ?thesis using w by simp
  qed
qed

section \<open>Dry runs\<close>

lemma strict_is_valid: "vr_valid (apply_strict strict r) \<Longrightarrow> vr_valid r"
  by (simp add: apply_strict_def split: if_splits)

lemma rotation_succeeds:
  assumes "all_is_well lib w" and "vr_valid (validate_full (libs_at lib w) (sg_merged k))"
  shows "\<exists>resp w'. rotate_secrets lib b origin Whole previous i k w = (Inr resp, w')"
proof -
  obtain r w1 where "store_secrets lib b Whole previous k w = (r, w1)" by (cases "store_secrets lib b Whole previous k w")
  moreover from this have "r = Inr ()" using store_secrets_done [OF assms(1), of b previous k] by simp
  ultimately show ?thesis using assms(2) by (simp add: rotate_secrets_def Let_def)
qed

text \<open>
  C21: A dry run tells the truth: when every call is answered and secrets can be sealed, a document that a
  dry run has called valid, strictly or not, is then accepted by a push, as a new revision, as a rotation
  of secrets, or as the one that is already there.
\<close>

theorem dry_run_predicts_push:
  assumes "all_is_well lib w" and "latest_applied_config_revision None (gw_ledger w) = Inr current"
    and "validate_document lib b raw strict hint Whole (Some (gw_running w)) w = (Inr (True, sha, report), w1)"
  shows "\<exists>resp w'. apply_document lib b raw hint origin Whole w = (Inr resp, w')"
proof -
  obtain k where k: "whole_candidate lib (env_of w) b raw hint (Some (gw_running w)) = Inr k"
    "vr_valid (validate_full (libs_at lib w) (sg_merged k))"
    using assms(3) strict_is_valid
    by (cases "whole_candidate lib (env_of w) b raw hint (Some (gw_running w))")
      (auto simp: validate_document_def resolve_scoped_candidate_def Let_def)
  define v where "v = w\<lparr>gw_calls := gw_calls w + 1\<rparr>"
  have query: "ledger_query (latest_applied_config_revision (ledger_stream Whole)) w = (Inr current, v)"
    using assms(1,2) by (simp add: ledger_query_def all_is_well_def v_def)
  have v: "all_is_well lib v" "env_of v = env_of w" "gw_running v = gw_running w" "libs_at lib v = libs_at lib w"
    using assms(1) by (simp_all add: all_is_well_def v_def env_of_def libs_at_def)
  have scoped: "resolve_scoped_candidate lib b raw hint Whole (Some (gw_running v)) v = (Inr k, v)"
    using k v by (simp add: resolve_scoped_candidate_def)
  consider "map_option cr_sha current = Some (content_sha256 lib raw)"
    | "map_option cr_sha current \<noteq> Some (content_sha256 lib raw)" "map_option cr_sha current = Some (sg_ledger_sha k)"
    | "map_option cr_sha current \<noteq> Some (content_sha256 lib raw)" "map_option cr_sha current \<noteq> Some (sg_ledger_sha k)"
    by blast
  then show ?thesis
  proof cases
    case 1
    then show ?thesis using query by (auto simp: apply_document_def Let_def)
  next
    case 2
    then show ?thesis
      using apply_steps [OF query 2(1) scoped, of origin] rotation_succeeds [OF v(1)] k(2) v(4) by (simp del: map_option_eq_Some)
  next
    case 3
    then show ?thesis using push_succeeds [OF assms(1,2) _ k(1) _ k(2), of origin] by blast
  qed
qed

section \<open>Witnesses\<close>

definition example_process :: "string option \<Rightarrow> route_env" where
  "example_process secret =
    \<lparr>hl_auth = example_auth_libs ''k'' (example_claims Admin), hl_api = (example_state secret)\<lparr>as_env := empty_env\<rparr>,
     hl_apply = example_apply, hl_bootstrap = example_base, hl_app = Some ''app.yaml''\<rparr>"

definition serving_process :: "config_world \<Rightarrow> string option \<Rightarrow> routes_world" where
  "serving_process w sha =
    \<lparr>hx_users = example_user_world, hx_config = w, hx_desired_sha = sha, hx_revision = None, hx_metrics = metrics_new\<rparr>"

lemma open_pusher: "pusher (example_process None) h body None s = (Inr Anonymous, s)"
proof -
  have "apply_secret empty_env = None" by (simp add: apply_secret_def env_token_def empty_env_def)
  then show ?thesis
    by (simp add: pusher_def require_config_apply_auth_def example_process_def example_state_def resolve_auth_principal_def
        api_default_def local_auth_default_def nonempty_option_def verification_secret_def routes_enabled_def
        accepts_pushed_config_def authorize_for_org_def apply_scope_gate_def verify_config_signature_def verify_hmac_header_def)
qed

lemma example_single: "cf_organizations example_base = []"
  by (simp add: example_base_def example_file_def strip_desired_sections_def config_default_def)

lemma example_requests: "valid_utf8 ''A''" "valid_utf8 ''D''" "apply_origin_from_headers [] Anonymous = nobody"
  "desired_format_from_headers [] = None" "check_if_match [] sha hint = Inr ()"
  by (code_simp, code_simp)
    (simp_all add: apply_origin_from_headers_def nobody_def header_text_def trimmed_nonempty_def desired_format_from_headers_def
      check_if_match_def)

lemma plain_push:
  assumes "apply_document example_apply example_base body None nobody Whole w = (r, w')" and "valid_utf8 body"
  shows "post_apply (example_process None) [] body (serving_process w sha) = finish_apply r (serving_process w' sha)"
  using assms by (simp add: post_apply_def open_pusher example_requests require_single_document_mode_def)
    (simp add: example_process_def serving_process_def example_single)

theorem second_writer_is_refused_witness:
  "\<exists>resp s' err s''. post_apply (example_process None) [] ''A'' (serving_process example_idle None) = (Inr resp, s') \<and> ay_applied resp
    \<and> post_apply (example_process None) [(''if-match'', Text (quoted_tag ''ab''))] ''C'' s' = (Inl err, s'')
    \<and> hx_config s'' = hx_config s'"
proof -
  obtain resp w' v where push: "apply_document example_apply example_base ''A'' None nobody Whole example_idle = (Inr resp, w')"
    "ay_applied resp" "gw_ledger w' = with_row (attempt_row v ''A'' ''A'' nobody Applied_revision None None) (gw_ledger example_idle)"
    using first_push by blast
  have "ay_sha resp = ''A''" using push(1)
  proof (cases rule: answered_cases)
    case (newest r)
    then show ?thesis using idle_latest by simp
  next
    case (recorded k v' u)
    have "cr_sha (last (vt_rows (gw_ledger w'))) = sg_ledger_sha k" by (simp add: recorded(10) with_row_def attempt_row_def)
    moreover have "cr_sha (last (vt_rows (gw_ledger w'))) = ''A''" by (simp add: push(3) with_row_def attempt_row_def)
    ultimately show ?thesis using recorded(6) by simp
  qed
  define s' where "s' = snd (finish_apply (Inr resp) (serving_process w' None))"
  have post: "post_apply (example_process None) [] ''A'' (serving_process example_idle None) = (Inr resp, s')"
    using plain_push [OF push(1) example_requests(1), of None] by (simp add: s'_def finish_apply_def Let_def)
  have "plain_tag ''ab''" by (simp add: plain_tag_def)
  with second_writer_is_refused [OF post push(2), of "[(''if-match'', Text (quoted_tag ''ab''))]" "''ab''" "''C''"]
  show ?thesis using post push(2) \<open>ay_sha resp = ''A''\<close> by fastforce
qed

theorem rotation_keeps_version_witness:
  "\<exists>resp s'. post_apply (example_process None) [] ''D'' (serving_process example_serving (Some ''B'')) = (Inr resp, s')
    \<and> ay_applied resp \<and> gw_vault (hx_config s') example_secret \<noteq> gw_vault example_serving example_secret
    \<and> hx_desired_sha s' = Some ''B''"
proof -
  obtain resp w' where push: "apply_document example_apply example_base ''D'' None nobody Whole example_serving = (Inr resp, w')"
    "ay_applied resp" "gw_vault w' example_secret = Some ''u''" "keeps_running example_serving w'" using rotation_push by blast
  define s' where "s' = snd (finish_apply (Inr resp) (serving_process w' (Some ''B'')))"
  have post: "post_apply (example_process None) [] ''D'' (serving_process example_serving (Some ''B'')) = (Inr resp, s')"
    using plain_push [OF push(1) example_requests(2), of "Some ''B''"] by (simp add: s'_def finish_apply_def Let_def)
  have reads: "reads_only w' (hx_config s')"
    using finish_reads(1) [of "serving_process w' (Some ''B'')" "Inr resp"] by (simp add: s'_def serving_process_def)
  have ok: "ledger_ok (hl_apply (example_process None)) (hx_config (serving_process example_serving (Some ''B'')))"
    using serving_ok(1) by (simp add: example_process_def serving_process_def)
  have "applied_rows None (gw_ledger example_serving) = [example_row 1 ''A'', example_row 2 ''B'']"
    by (simp add: applied_rows_def example_serving_def example_row_def)
  then have identity: "identity_of (hx_config (serving_process example_serving (Some ''B''))) (hx_desired_sha (serving_process example_serving (Some ''B'')))"
    by (simp add: identity_of_def serving_process_def example_row_def)
  have "gw_ledger (hx_config s') = gw_ledger (hx_config (serving_process example_serving (Some ''B'')))"
    using reads push(4) by (simp add: reads_only_def keeps_running_def serving_process_def)
  from rotation_keeps_version [OF ok identity post this] have "hx_desired_sha s' = Some ''B''" by (simp add: serving_process_def)
  moreover have "gw_vault (hx_config s') example_secret \<noteq> gw_vault example_serving example_secret"
    using reads push(3) by (simp add: reads_only_def same_secrets_def example_serving_def)
  ultimately show ?thesis using post push(2) by blast
qed

theorem identity_is_newest_revision_witness:
  "identity_of example_serving (Some ''B'') \<and> (let s = run_routes (example_process None) [Apply_route [] ''D'', Rollback_route [], Reload_route]
      (serving_process example_serving (Some ''B'')) in identity_of (hx_config s) (hx_desired_sha s))"
proof -
  have rows: "applied_rows None (gw_ledger example_serving) = [example_row 1 ''A'', example_row 2 ''B'']"
    by (simp add: applied_rows_def example_serving_def example_row_def)
  then have identity: "identity_of example_serving (Some ''B'')" by (simp add: identity_of_def example_row_def)
  moreover have "identity_of (hx_config (run_routes (example_process None) [Apply_route [] ''D'', Rollback_route [], Reload_route]
      (serving_process example_serving (Some ''B''))))
    (hx_desired_sha (run_routes (example_process None) [Apply_route [] ''D'', Rollback_route [], Reload_route]
      (serving_process example_serving (Some ''B''))))"
    by (rule identity_is_newest_revision)
      (use serving_ok(1) identity in \<open>simp_all add: example_process_def serving_process_def example_single ledger_is_bootable_def
        example_state_def example_serving_def example_idle_def example_instance_def\<close>)
  ultimately show ?thesis by (simp add: Let_def)
qed

theorem unauthorised_changes_nothing_witness:
  "fst (post_apply (example_process (Some ''k'')) [] ''A'' (serving_process example_serving None)) = Inl (Api (Unauthorized ''missing bearer token''))
    \<and> hx_config (exec_route (example_process (Some ''k'')) (Apply_route [] ''A'') (serving_process example_serving None)) = example_serving"
proof -
  have denied: "require_config_apply_auth (hl_auth (example_process (Some ''k''))) (hl_api (example_process (Some ''k''))) [] ''A'' None
      (hx_users (serving_process example_serving None)) = (Inl (Unauthorized ''missing bearer token''), hx_users (serving_process example_serving None))"
    by (simp add: require_config_apply_auth_def example_process_def example_state_def resolve_auth_principal_def
        api_default_def local_auth_default_def nonempty_option_def verification_secret_def routes_enabled_def
        accepts_pushed_config_def bearer_token_def header_text_def)
  have "hx_config (exec_route (example_process (Some ''k'')) (Apply_route [] ''A'') (serving_process example_serving None))
      = hx_config (serving_process example_serving None)"
    using unauthorised_changes_nothing [of "Apply_route [] ''A''" "[]" "''A''" None "example_process (Some ''k'')"
        "serving_process example_serving None" "Unauthorized ''missing bearer token''"] denied by simp
  then show ?thesis using denied by (simp add: serving_process_def post_apply_def pusher_def)
qed

theorem reload_never_overrides_ledger_witness:
  "\<exists>e s'. reload_from_disk (example_process None) (serving_process example_serving None) = (Inl e, s')
    \<and> gw_running (hx_config s') = example_live"
proof -
  have "applied_rows None (gw_ledger example_serving) \<noteq> []"
    by (simp add: applied_rows_def example_serving_def example_row_def)
  then have "\<exists>e s'. reload_from_disk (example_process None) (serving_process example_serving None) = (Inl e, s')
      \<and> same_runtime (hx_config (serving_process example_serving None)) (hx_config s')
      \<and> hx_desired_sha s' = hx_desired_sha (serving_process example_serving None)"
    by (intro reload_never_overrides_ledger)
      (simp_all add: example_process_def serving_process_def example_single ledger_is_bootable_def example_state_def)
  then show ?thesis by (auto simp: same_runtime_def serving_process_def example_serving_def)
qed

theorem organization_streams_isolated_witness:
  "applied_rows (Some ''b'') (gw_ledger (hx_config (run_routes (example_process None)
      [Apply_route [] ''D'', Org_apply_route ''c'' [] ''A'', Reload_route] (serving_process example_serving None)))) = []"
proof -
  have "trim ''c'' \<noteq> ''b''" by code_simp
  then have "\<forall>call \<in> set [Apply_route [] ''D'', Org_apply_route ''c'' [] ''A'', Reload_route]. \<forall>h b. asks_as call \<noteq> Some (h, b, Some ''b'')"
    by simp
  from organization_streams_isolated [OF this, of "example_process None" "serving_process example_serving None"]
  show ?thesis by (simp add: serving_process_def applied_rows_def example_serving_def example_row_def)
qed

theorem dry_run_predicts_push_witness:
  "\<exists>sha report w1 resp w'. validate_document example_apply example_base ''A'' False None Whole (Some (gw_running example_idle)) example_idle
      = (Inr (True, sha, report), w1)
    \<and> apply_document example_apply example_base ''A'' None nobody Whole example_idle = (Inr resp, w')"
proof -
  obtain k where k: "whole_candidate example_apply (env_of example_idle) example_base ''A'' None (Some config_default) = Inr k"
    "sg_merged k = example_merged" using first_candidate by blast
  then have dry: "\<exists>report. validate_document example_apply example_base ''A'' False None Whole (Some (gw_running example_idle)) example_idle
      = (Inr (True, content_sha256 example_apply ''A'', report), example_idle)"
    using first_valid idle_running by (simp add: validate_document_def resolve_scoped_candidate_def apply_strict_def)
  then obtain report where "validate_document example_apply example_base ''A'' False None Whole (Some (gw_running example_idle)) example_idle
      = (Inr (True, content_sha256 example_apply ''A'', report), example_idle)" by blast
  from dry_run_predicts_push [OF idle_well(1) idle_latest this, of nobody] this show ?thesis by blast
qed

end
