(* ===== verification/Webhooks.thy ===== *)
theory Webhooks
  imports Poll_Safety Access
begin

text \<open>
  Inbound webhooks (\<^verbatim>\<open>src/src/api/webhook.rs\<close>, \<^verbatim>\<open>webhook_id.rs\<close>, \<^verbatim>\<open>webhook_payload.rs\<close>) and the index
  of watches they are resolved with (\<^verbatim>\<open>watch_lookup.rs\<close>): the signature, the claim of the delivery
  id, the decoded payload, and the delivery to every watch of the repository or image.  The decoding
  of JSON is a parameter.
\<close>

section \<open>The index of watches\<close>

record watch_index =
  wi_watches :: "watch list"
  wi_by_id :: "string \<Rightarrow> nat option"
  wi_by_repo :: "string \<times> string \<Rightarrow> nat list option"
  wi_by_image :: "string \<Rightarrow> (string \<Rightarrow> nat list option) option"

definition CONTAINER_KINDS :: "string list" where
  "CONTAINER_KINDS = [''docker'', ''ghcr'', ''quay'', ''ecr'']"

definition normalise_repo :: "string \<Rightarrow> string" where
  "normalise_repo repo = to_ascii_lowercase (trim repo)"

definition normalise_image :: "string \<Rightarrow> string" where
  "normalise_image img = to_ascii_lowercase (trim img)"

definition push_at :: "'k \<Rightarrow> nat \<Rightarrow> ('k \<Rightarrow> nat list option) \<Rightarrow> 'k \<Rightarrow> nat list option" where
  "push_at k i m = m(k \<mapsto> (case m k of Some is \<Rightarrow> is @ [i] | None \<Rightarrow> [i]))"

definition watch_kind :: "watch \<Rightarrow> string" where
  "watch_kind wt = provider_kind (wt_provider wt)"

definition watch_name :: "watch \<Rightarrow> string" where
  "watch_name wt = provider_display_name (wt_provider wt)"

definition index_watch :: "nat \<times> watch \<Rightarrow> watch_index \<Rightarrow> watch_index" where
  "index_watch p x =
    (let (i, wt) = p; kind = watch_kind wt;
         images = (case wi_by_image x kind of Some m \<Rightarrow> m | None \<Rightarrow> Map.empty) in
     x\<lparr>wi_by_id := (wi_by_id x)(provider_id (wt_provider wt) \<mapsto> i),
       wi_by_repo := push_at (kind, normalise_repo (watch_name wt)) i (wi_by_repo x),
       wi_by_image := (if kind \<in> set CONTAINER_KINDS
         then (wi_by_image x)(kind \<mapsto> push_at (normalise_image (watch_name wt)) i images) else wi_by_image x)\<rparr>)"

definition watch_index_new :: "watch list \<Rightarrow> watch_index" where
  "watch_index_new ws =
    fold index_watch (enumerate 0 ws) \<lparr>wi_watches = ws, wi_by_id = Map.empty, wi_by_repo = Map.empty, wi_by_image = Map.empty\<rparr>"

definition find_by_id :: "watch_index \<Rightarrow> string \<Rightarrow> watch option" where
  "find_by_id x i = map_option (\<lambda>n. wi_watches x ! n) (wi_by_id x i)"

definition indices_to_watches :: "watch_index \<Rightarrow> nat list option \<Rightarrow> watch list" where
  "indices_to_watches x is = (case is of Some is \<Rightarrow> map (\<lambda>n. wi_watches x ! n) is | None \<Rightarrow> [])"

definition find_repos :: "watch_index \<Rightarrow> string \<Rightarrow> string \<Rightarrow> watch list" where
  "find_repos x kind repo = indices_to_watches x (wi_by_repo x (kind, normalise_repo repo))"

definition find_repos_any :: "watch_index \<Rightarrow> string list \<Rightarrow> string \<Rightarrow> watch list" where
  "find_repos_any x kinds repo =
    concat (map (\<lambda>kind. indices_to_watches x (wi_by_repo x (kind, normalise_repo repo))) kinds)"

definition find_images_any :: "watch_index \<Rightarrow> string list \<Rightarrow> string \<Rightarrow> watch list" where
  "find_images_any x kinds img =
    concat (map (\<lambda>kind. indices_to_watches x (Option.bind (wi_by_image x kind) (\<lambda>m. m (normalise_image img)))) kinds)"

section \<open>Payloads\<close>

datatype payload_error = Malformed string | Skipped string

text \<open>The decoded bodies; a field that a body may leave out is an option.\<close>

record gitea_release_body =
  gr_tag_name :: string
  gr_html_url :: "string option"
  gr_body :: "string option"
  gr_prerelease :: "bool option"
  gr_draft :: "bool option"
  gr_published_at :: "string option"

record gitea_webhook =
  gx_action :: "string option"
  gx_release :: "gitea_release_body option"
  gx_full_name :: "string option option"

record gitlab_webhook =
  gy_object_kind :: "string option"
  gy_tag :: "string option"
  gy_name :: "string option"
  gy_description :: "string option"
  gy_url :: "string option"
  gy_released_at :: "string option"
  gy_project :: "(string option \<times> string) option"

record bitbucket_ref =
  bj_type :: "string option"
  bj_name :: "string option"
  bj_href :: "string option"

record bitbucket_webhook =
  bv_changes :: "bitbucket_ref option list option"
  bv_full_name :: "string option option"

record docker_webhook =
  dv_tag :: "string option option"
  dv_repository :: "(string option \<times> string option) option"

record generic_webhook =
  gz_source_id :: string
  gz_tag :: string
  gz_url :: "string option"
  gz_body :: "string option"
  gz_prerelease :: bool

text \<open>The \<^verbatim>\<open>Debug\<close> form of an optional string; characters beyond ASCII are shown as they are.\<close>

fun hex_lower :: "nat \<Rightarrow> char" where
  "hex_lower n = (if n < 10 then char_of (48 + n) else char_of (87 + n))"

definition debug_char :: "char \<Rightarrow> string" where
  "debug_char c =
    (let n = of_char c :: nat in
     if n = 34 \<or> n = 92 then [byte 92, c]
     else if n = 9 then byte 92 # ''t'' else if n = 10 then byte 92 # ''n'' else if n = 13 then byte 92 # ''r''
     else if n = 0 then byte 92 # ''0''
     else if n < 16 \<or> 16 \<le> n \<and> n < 32 \<or> n = 127 then
       byte 92 # ''u{'' @ (if n < 16 then [hex_lower n] else [hex_lower (n div 16), hex_lower (n mod 16)]) @ ''}''
     else [c])"

definition debug_option :: "string option \<Rightarrow> string" where
  "debug_option s =
    (case s of None \<Rightarrow> ''None'' | Some s \<Rightarrow> ''Some('' @ [byte 34] @ concat (map debug_char s) @ [byte 34] @ '')'')"

definition not_blank :: "string option \<Rightarrow> string option" where
  "not_blank s = (case s of Some s \<Rightarrow> if trim s = [] then None else Some s | None \<Rightarrow> None)"

definition gitea_release_of :: "'v source_libs \<Rightarrow> gitea_release_body \<Rightarrow> 'v release" where
  "gitea_release_of lib b =
    with_body (with_published (with_url (with_prerelease (release_new (sl_semver lib) (gr_tag_name b))
        (gr_prerelease b = Some True)) (gr_html_url b))
      (Option.bind (gr_published_at b) (parse_rfc3339 (sl_chrono lib)))) (not_blank (gr_body b))"

definition gitea_into_release :: "'v source_libs \<Rightarrow> gitea_webhook \<Rightarrow> payload_error + string \<times> 'v release" where
  "gitea_into_release lib g =
    (if gx_action g \<noteq> Some ''published'' then Inl (Skipped (''ignored action '' @ debug_option (gx_action g)))
     else (case gx_release g of
         None \<Rightarrow> Inl (Malformed ''missing release'')
       | Some r \<Rightarrow>
           if gr_draft r = Some True then Inl (Skipped ''draft release'')
           else (case Option.bind (gx_full_name g) id of
               None \<Rightarrow> Inl (Malformed ''missing repository.full_name'')
             | Some repo \<Rightarrow> Inr (repo, gitea_release_of lib r))))"

definition gitlab_into_release :: "'v source_libs \<Rightarrow> gitlab_webhook \<Rightarrow> payload_error + string \<times> 'v release" where
  "gitlab_into_release lib g =
    (if gy_object_kind g \<noteq> Some ''release'' then Inl (Skipped (''ignored object_kind '' @ debug_option (gy_object_kind g)))
     else (case gy_project g of
         None \<Rightarrow> Inl (Malformed ''missing project'')
       | Some (path, name) \<Rightarrow>
           (case (case gy_tag g of Some t \<Rightarrow> Some t | None \<Rightarrow> gy_name g) of
              None \<Rightarrow> Inl (Malformed ''missing tag'')
            | Some tag \<Rightarrow>
                (let r = release_new (sl_semver lib) tag;
                     r = (case gy_url g of Some u \<Rightarrow> with_url r (Some u) | None \<Rightarrow> r);
                     r = (case not_blank (gy_description g) of Some b \<Rightarrow> with_body r (Some b) | None \<Rightarrow> r);
                     r = (case Option.bind (gy_released_at g) (parse_rfc3339 (sl_chrono lib)) of
                         Some t \<Rightarrow> with_published r (Some t) | None \<Rightarrow> r) in
                 Inr (case path of Some p \<Rightarrow> p | None \<Rightarrow> name, r)))))"

text \<open>The first change that pushes a tag.\<close>

fun pushed_tag :: "bitbucket_ref option list \<Rightarrow> payload_error + string \<times> string option" where
  "pushed_tag [] = Inl (Skipped ''no tag push in repo:push changes'')"
| "pushed_tag (c # cs) =
    (case c of
       None \<Rightarrow> pushed_tag cs
     | Some r \<Rightarrow>
         if bj_type r \<noteq> Some ''tag'' then pushed_tag cs
         else (case not_blank (bj_name r) of
             None \<Rightarrow> Inl (Malformed ''missing tag name in push change'') | Some tag \<Rightarrow> Inr (tag, bj_href r)))"

definition bitbucket_into_release :: "'v source_libs \<Rightarrow> bitbucket_webhook \<Rightarrow> payload_error + string \<times> 'v release" where
  "bitbucket_into_release lib b =
    (case Option.bind (bv_full_name b) id of
       None \<Rightarrow> Inl (Malformed ''missing repository.full_name'')
     | Some repo \<Rightarrow> (case pushed_tag (case bv_changes b of Some cs \<Rightarrow> cs | None \<Rightarrow> []) of
         Inl e \<Rightarrow> Inl e
       | Inr (tag, url) \<Rightarrow> Inr (repo, with_url (release_new (sl_semver lib) tag) url)))"

definition docker_into_release :: "'v source_libs \<Rightarrow> docker_webhook \<Rightarrow> payload_error + string \<times> 'v release" where
  "docker_into_release lib d =
    (case dv_tag d of
       None \<Rightarrow> Inl (Malformed ''missing push_data'')
     | Some tag \<Rightarrow> (case not_blank tag of
         None \<Rightarrow> Inl (Malformed ''missing push_data.tag'')
       | Some tag \<Rightarrow>
           (case Option.bind (dv_repository d) (\<lambda>(repo_name, name). case repo_name of Some r \<Rightarrow> Some r | None \<Rightarrow> name) of
              None \<Rightarrow> Inl (Malformed ''missing repository.repo_name'')
            | Some repo \<Rightarrow>
                Inr (repo, with_url (release_new (sl_semver lib) tag)
                  (Some (''https://hub.docker.com/r/'' @ repo @ ''/tags?name='' @ tag))))))"

section \<open>Delivery ids\<close>

definition id_header :: "header_map \<Rightarrow> string \<Rightarrow> string option" where
  "id_header h name = trimmed_nonempty (header_text h name)"

definition either_header :: "header_map \<Rightarrow> string \<Rightarrow> string \<Rightarrow> string option" where
  "either_header h a b = (case id_header h a of Some i \<Rightarrow> Some i | None \<Rightarrow> id_header h b)"

definition delivery_id :: "header_map \<Rightarrow> string \<Rightarrow> string option" where
  "delivery_id h kind =
    map_option (\<lambda>i. kind @ '':'' @ i)
      (if kind = ''github'' then id_header h ''x-github-delivery''
       else if kind = ''gitlab'' then either_header h ''x-gitlab-event-uuid'' ''x-gitlab-webhook-uuid''
       else if kind = ''gitea'' then either_header h ''x-gitea-delivery'' ''x-gitea-event-id''
       else if kind = ''generic'' then either_header h ''idempotency-key'' ''x-idempotency-key''
       else if kind = ''bitbucket'' then id_header h ''x-request-uuid''
       else if kind = ''docker'' then either_header h ''idempotency-key'' ''x-idempotency-key''
       else None)"

section \<open>The handlers\<close>

record webhook_response =
  hq_accepted :: bool
  hq_source_id :: "string option"
  hq_tag :: "string option"
  hq_sent :: nat
  hq_message :: string

definition webhook_ignored :: "string \<Rightarrow> webhook_response" where
  "webhook_ignored m =
    \<lparr>hq_accepted = False, hq_source_id = None, hq_tag = None, hq_sent = 0, hq_message = m\<rparr>"

definition webhook_delivered :: "string \<Rightarrow> string \<Rightarrow> nat \<Rightarrow> webhook_response" where
  "webhook_delivered s tag n =
    \<lparr>hq_accepted = True, hq_source_id = Some s, hq_tag = Some tag, hq_sent = n,
     hq_message = ''notification delivered''\<rparr>"

definition webhook_duplicate :: "string \<Rightarrow> webhook_response" where
  "webhook_duplicate i =
    \<lparr>hq_accepted = True, hq_source_id = None, hq_tag = None, hq_sent = 0,
     hq_message = ''duplicate delivery `'' @ i @ ''` ignored''\<rparr>"

text \<open>
  The decoders of the bodies, and an error answer: one of the API, or the one that the API makes of
  a pipeline error.
\<close>

record 'v hook_libs =
  hk_poll :: "'v poll_libs"
  hk_hmac :: hmac_hex
  hk_gitea :: "string \<Rightarrow> string + gitea_webhook"
  hk_gitlab :: "string \<Rightarrow> string + gitlab_webhook"
  hk_bitbucket :: "string \<Rightarrow> string + bitbucket_webhook"
  hk_docker :: "string \<Rightarrow> string + docker_webhook"
  hk_generic :: "string \<Rightarrow> string + generic_webhook"

datatype hook_error = Refused_hook api_error | Failed_hook pipeline_error

type_synonym hook = "(world, hook_error + webhook_response) state"

definition refuse :: "api_error \<Rightarrow> hook" where
  "refuse e = State_Monad.return (Inl (Refused_hook e))"

definition count_hook :: "webhook_outcome \<Rightarrow> unit prog" where
  "count_hook k = count_metric (record_webhook k)"

definition ensure_idempotent :: "header_map \<Rightarrow> string \<Rightarrow> webhook_response option attempt" where
  "ensure_idempotent h kind =
    (case delivery_id h kind of
       None \<Rightarrow> ok None
     | Some i \<Rightarrow>
         try_bind (store_write (\<lambda>now app. claim_webhook_delivery now i)) (\<lambda>fresh.
         if fresh then ok None
         else do {
           count_hook Hook_duplicate;
           ok (Some (webhook_duplicate i))
         }))"

text \<open>The steps before the body is looked at: the signature, then the claim of the delivery id.\<close>

definition admit :: "api_error + unit \<Rightarrow> header_map \<Rightarrow> string \<Rightarrow> hook \<Rightarrow> hook" where
  "admit auth h kind rest =
    (case auth of
       Inl e \<Rightarrow> refuse e
     | Inr _ \<Rightarrow> do {
         claim \<leftarrow> ensure_idempotent h kind;
         case claim of
           Inl e \<Rightarrow> State_Monad.return (Inl (Failed_hook e))
         | Inr (Some response) \<Rightarrow> State_Monad.return (Inr response)
         | Inr None \<Rightarrow> rest
       })"

fun push_each :: "'v::linorder poll_libs \<Rightarrow> 'v release \<Rightarrow> watch list \<Rightarrow> nat attempt" where
  "push_each lib r [] = ok 0"
| "push_each lib r (wt # ws) =
     try_bind (deliver_new_releases lib wt [r]) (\<lambda>n. try_bind (push_each lib r ws) (\<lambda>m. ok (n + m)))"

definition process_pushed_release :: "'v::linorder poll_libs \<Rightarrow> watch list \<Rightarrow> 'v release \<Rightarrow> hook" where
  "process_pushed_release lib ws r = do {
     let tag = rel_raw_tag r;
     let first = (case ws of wt # _ \<Rightarrow> provider_id (wt_provider wt) | [] \<Rightarrow> []);
     result \<leftarrow> push_each lib r ws;
     case result of
       Inl e \<Rightarrow> do {
         count_hook Hook_error;
         State_Monad.return (Inl (Failed_hook e))
       }
     | Inr sent \<Rightarrow>
         if sent = 0 then do {
           count_hook Hook_ignored;
           State_Monad.return (Inr \<lparr>hq_accepted = True, hq_source_id = Some first, hq_tag = Some tag, hq_sent = 0,
             hq_message = ''accepted but no notification sent (filtered, duplicate, or baseline)''\<rparr>)
         }
         else do {
           count_hook Hook_accepted;
           let response = webhook_delivered first tag sent;
           State_Monad.return (Inr (if 1 < length ws
             then response\<lparr>hq_message := ''notification delivered ('' @ show_nat (length ws) @ '' matched sources)''\<rparr>
             else response))
         }
   }"

definition ingest_mapped_release ::
  "'v::linorder poll_libs \<Rightarrow> payload_error + string \<times> 'v release \<Rightarrow> (string \<Rightarrow> watch list) \<Rightarrow> (string \<Rightarrow> string) \<Rightarrow> hook" where
  "ingest_mapped_release lib mapped find_watches not_found =
    (case mapped of
       Inl (Skipped m) \<Rightarrow> do {
         count_hook Hook_ignored;
         State_Monad.return (Inr (webhook_ignored m))
       }
     | Inl (Malformed m) \<Rightarrow> do {
         count_hook Hook_error;
         refuse (Bad_request m)
       }
     | Inr (key, r) \<Rightarrow>
         (let ws = find_watches key in
          if ws = [] then do {
            count_hook Hook_error;
            refuse (Not_found (not_found key))
          }
          else process_pushed_release lib ws r))"

definition parse_json :: "(string \<Rightarrow> string + 'p) \<Rightarrow> string \<Rightarrow> ('p \<Rightarrow> hook) \<Rightarrow> hook" where
  "parse_json decode body rest = (case decode body of Inl e \<Rightarrow> refuse (Bad_request e) | Inr p \<Rightarrow> rest p)"

definition handle_gitea_compatible :: "'v::linorder hook_libs \<Rightarrow> watch_index \<Rightarrow> string \<Rightarrow> string list \<Rightarrow> hook" where
  "handle_gitea_compatible lib x body kinds =
    parse_json (hk_gitea lib) body (\<lambda>payload.
      ingest_mapped_release (hk_poll lib) (gitea_into_release (pb_source (hk_poll lib)) payload)
        (find_repos_any x kinds)
        (\<lambda>repo. ''no configured source for '' @ repo @ '' (kinds: '' @ join_with '', '' kinds @ '')''))"

definition github :: "'v::linorder hook_libs \<Rightarrow> string option \<Rightarrow> watch_index \<Rightarrow> header_map \<Rightarrow> string \<Rightarrow> hook" where
  "github lib secret x h body =
    admit (verify_github_signature (hk_hmac lib) h secret body) h ''github''
      (handle_gitea_compatible lib x body [''github''])"

definition gitea :: "'v::linorder hook_libs \<Rightarrow> string option \<Rightarrow> watch_index \<Rightarrow> header_map \<Rightarrow> string \<Rightarrow> hook" where
  "gitea lib secret x h body =
    admit (verify_webhook_secret h secret) h ''gitea''
      (handle_gitea_compatible lib x body [''gitea'', ''codeberg''])"

definition gitlab :: "'v::linorder hook_libs \<Rightarrow> string option \<Rightarrow> watch_index \<Rightarrow> header_map \<Rightarrow> string \<Rightarrow> hook" where
  "gitlab lib secret x h body =
    admit (verify_gitlab_token h secret) h ''gitlab''
      (parse_json (hk_gitlab lib) body (\<lambda>payload.
        ingest_mapped_release (hk_poll lib) (gitlab_into_release (pb_source (hk_poll lib)) payload)
          (find_repos x ''gitlab'')
          (\<lambda>repo. ''no configured gitlab source for '' @ repo)))"

definition bitbucket_push :: "'v::linorder hook_libs \<Rightarrow> watch_index \<Rightarrow> string \<Rightarrow> hook" where
  "bitbucket_push lib x body =
    parse_json (hk_bitbucket lib) body (\<lambda>payload.
      ingest_mapped_release (hk_poll lib) (bitbucket_into_release (pb_source (hk_poll lib)) payload)
        (find_repos x ''bitbucket'')
        (\<lambda>repo. ''no configured bitbucket source for '' @ repo))"

definition bitbucket :: "'v::linorder hook_libs \<Rightarrow> string option \<Rightarrow> watch_index \<Rightarrow> header_map \<Rightarrow> string \<Rightarrow> hook" where
  "bitbucket lib secret x h body =
    admit (verify_bitbucket_signature (hk_hmac lib) h secret body) h ''bitbucket''
      (case header_text h ''x-event-key'' of
         Some k \<Rightarrow>
           if k \<noteq> ''repo:push'' then do {
             count_hook Hook_ignored;
             State_Monad.return (Inr (webhook_ignored (''ignored X-Event-Key '' @ k)))
           }
           else bitbucket_push lib x body
       | None \<Rightarrow> bitbucket_push lib x body)"

definition docker :: "'v::linorder hook_libs \<Rightarrow> string option \<Rightarrow> watch_index \<Rightarrow> header_map \<Rightarrow> string \<Rightarrow> hook" where
  "docker lib secret x h body =
    admit (verify_webhook_secret h secret) h ''docker''
      (parse_json (hk_docker lib) body (\<lambda>payload.
        ingest_mapped_release (hk_poll lib) (docker_into_release (pb_source (hk_poll lib)) payload)
          (find_images_any x CONTAINER_KINDS)
          (\<lambda>img. ''no configured container source for image '' @ img @ '' (kinds: docker, ghcr, quay, ecr)'')))"

definition generic_release :: "'v source_libs \<Rightarrow> generic_webhook \<Rightarrow> 'v release" where
  "generic_release lib g =
    with_body (with_url (with_prerelease (release_new (sl_semver lib) (gz_tag g)) (gz_prerelease g)) (gz_url g))
      (not_blank (gz_body g))"

definition generic :: "'v::linorder hook_libs \<Rightarrow> string option \<Rightarrow> watch_index \<Rightarrow> header_map \<Rightarrow> string \<Rightarrow> hook" where
  "generic lib secret x h body =
    admit (verify_webhook_secret h secret) h ''generic''
      (parse_json (hk_generic lib) body (\<lambda>payload.
        case find_by_id x (gz_source_id payload) of
          None \<Rightarrow> do {
            count_hook Hook_error;
            refuse (Not_found (''unknown source_id '' @ gz_source_id payload))
          }
        | Some wt \<Rightarrow>
            process_pushed_release (hk_poll lib) [wt] (generic_release (pb_source (hk_poll lib)) payload)))"

text \<open>The routes.\<close>

datatype hook_route = Github_hook | Gitlab_hook | Gitea_hook | Bitbucket_hook | Docker_hook | Generic_hook

fun serve_webhook :: "'v::linorder hook_libs \<Rightarrow> string option \<Rightarrow> watch_index \<Rightarrow> hook_route \<Rightarrow> header_map \<Rightarrow> string \<Rightarrow> hook" where
  "serve_webhook lib secret x Github_hook = github lib secret x"
| "serve_webhook lib secret x Gitlab_hook = gitlab lib secret x"
| "serve_webhook lib secret x Gitea_hook = gitea lib secret x"
| "serve_webhook lib secret x Bitbucket_hook = bitbucket lib secret x"
| "serve_webhook lib secret x Docker_hook = docker lib secret x"
| "serve_webhook lib secret x Generic_hook = generic lib secret x"

section \<open>The index answers like the list of watches\<close>

definition opt_list :: "'a list option \<Rightarrow> 'a list" where
  "opt_list m = (case m of Some xs \<Rightarrow> xs | None \<Rightarrow> [])"

definition positions :: "(watch \<Rightarrow> bool) \<Rightarrow> watch list \<Rightarrow> nat list" where
  "positions P ws = map fst (filter (P \<circ> snd) (enumerate 0 ws))"

lemma positions_snoc:
  "positions P (ws @ [wt]) = positions P ws @ (if P wt then [length ws] else [])"
  by (simp add: positions_def enumerate_append_eq)

lemma at_positions: "map ((!) ws) (positions P ws) = filter P ws"
proof -
  have "map ((!) ws) (positions P ws) = map snd (filter (P \<circ> snd) (enumerate 0 ws))"
    unfolding positions_def by (auto simp: in_set_enumerate_eq)
  also have "\<dots> = filter P (map snd (enumerate 0 ws))" by (simp only: filter_map)
  finally show ?thesis by simp
qed

text \<open>The maps of the index are built from the list alone; the list itself is only kept.\<close>

abbreviation index_from :: "watch_index \<Rightarrow> watch list \<Rightarrow> watch_index" where
  "index_from x ws \<equiv> fold index_watch (enumerate 0 ws) x"

definition blank_index :: "watch list \<Rightarrow> watch_index" where
  "blank_index ws = \<lparr>wi_watches = ws, wi_by_id = Map.empty, wi_by_repo = Map.empty, wi_by_image = Map.empty\<rparr>"

lemma index_from_snoc: "index_from x (ws @ [wt]) = index_watch (length ws, wt) (index_from x ws)"
  by (simp add: enumerate_append_eq)

lemma index_keeps_watches: "wi_watches (index_from x ws) = wi_watches x"
  by (induction ws rule: rev_induct) (simp_all add: enumerate_append_eq index_watch_def Let_def)

lemma index_watch_repos:
  "opt_list (wi_by_repo (index_watch (i, wt) x) (kind, name)) = opt_list (wi_by_repo x (kind, name))
     @ (if watch_kind wt = kind \<and> normalise_repo (watch_name wt) = name then [i] else [])"
  by (simp add: index_watch_def Let_def push_at_def opt_list_def split: option.splits)

lemma index_watch_images:
  assumes "kind \<in> set CONTAINER_KINDS"
  shows "opt_list (Option.bind (wi_by_image (index_watch (i, wt) x) kind) (\<lambda>m. m name))
     = opt_list (Option.bind (wi_by_image x kind) (\<lambda>m. m name))
       @ (if watch_kind wt = kind \<and> normalise_image (watch_name wt) = name then [i] else [])"
  using assms by (auto simp: index_watch_def Let_def push_at_def opt_list_def split: option.splits)

lemma index_repos:
  "opt_list (wi_by_repo (index_from (blank_index vs) ws) (kind, name))
     = positions (\<lambda>wt. watch_kind wt = kind \<and> normalise_repo (watch_name wt) = name) ws"
proof (induction ws rule: rev_induct)
  case Nil
  then show ?case by (simp add: blank_index_def opt_list_def positions_def)
next
  case (snoc wt ws)
  then show ?case unfolding index_from_snoc positions_snoc by (simp only: index_watch_repos)
qed

lemma index_images:
  assumes "kind \<in> set CONTAINER_KINDS"
  shows "opt_list (Option.bind (wi_by_image (index_from (blank_index vs) ws) kind) (\<lambda>m. m name))
     = positions (\<lambda>wt. watch_kind wt = kind \<and> normalise_image (watch_name wt) = name) ws"
proof (induction ws rule: rev_induct)
  case Nil
  then show ?case by (simp add: blank_index_def opt_list_def positions_def)
next
  case (snoc wt ws)
  then show ?case unfolding index_from_snoc positions_snoc by (simp only: index_watch_images [OF assms])
qed

lemma index_ids:
  "wi_by_id (index_from (blank_index vs) ws) i
     = map_option fst (find (\<lambda>(n, wt). provider_id (wt_provider wt) = i) (rev (enumerate 0 ws)))"
proof (induction ws rule: rev_induct)
  case Nil
  then show ?case by (simp add: blank_index_def)
next
  case (snoc wt ws)
  then show ?case by (simp add: enumerate_append_eq index_watch_def Let_def)
qed

lemma new_index: "watch_index_new ws = index_from (blank_index ws) ws"
  by (simp add: watch_index_new_def blank_index_def)

lemma new_index_watches [simp]: "wi_watches (watch_index_new ws) = ws"
  by (simp add: new_index index_keeps_watches, simp add: blank_index_def)

lemma indices_opt_list: "indices_to_watches x is = map ((!) (wi_watches x)) (opt_list is)"
  by (simp add: indices_to_watches_def opt_list_def split: option.splits)

lemma repos_of_kind:
  "indices_to_watches (watch_index_new ws) (wi_by_repo (watch_index_new ws) (kind, name))
     = filter (\<lambda>wt. watch_kind wt = kind \<and> normalise_repo (watch_name wt) = name) ws"
  unfolding indices_opt_list new_index_watches by (simp add: new_index index_repos at_positions)

lemma images_of_kind:
  "kind \<in> set CONTAINER_KINDS \<Longrightarrow>
   indices_to_watches (watch_index_new ws) (Option.bind (wi_by_image (watch_index_new ws) kind) (\<lambda>m. m name))
     = filter (\<lambda>wt. watch_kind wt = kind \<and> normalise_image (watch_name wt) = name) ws"
  unfolding indices_opt_list new_index_watches by (simp add: new_index index_images at_positions)

lemma find_in_set: "find P xs = Some x \<Longrightarrow> x \<in> set xs"
  by (auto simp: find_Some_iff)

lemma find_last_enumerated:
  "map_option (\<lambda>p. ws ! fst p) (find (\<lambda>(n, wt). P wt) (rev (enumerate 0 ws))) = find P (rev ws)"
proof (induction ws rule: rev_induct)
  case (snoc wt ws)
  have "map_option (\<lambda>p. (ws @ [wt]) ! fst p) (find (\<lambda>(n, wt). P wt) (rev (enumerate 0 ws)))
      = map_option (\<lambda>p. ws ! fst p) (find (\<lambda>(n, wt). P wt) (rev (enumerate 0 ws)))"
    by (rule map_option_cong [OF refl])
       (auto simp: in_set_enumerate_eq nth_append dest!: find_in_set)
  with snoc show ?case by (simp add: enumerate_append_eq)
qed simp

text \<open>
  C16: the index of watches answers every lookup as a search of the watch list would: the watches of
  a repository are those of the kind whose trimmed, lower-case name is asked for, in the order of
  the configuration, the watches of several kinds follow in the order of the kinds, images are
  looked up alike among the container kinds, and an id finds the last watch that has it.
\<close>

theorem index_answers_like_the_list:
  "find_repos (watch_index_new ws) kind repo
     = filter (\<lambda>wt. watch_kind wt = kind \<and> normalise_repo (watch_name wt) = normalise_repo repo) ws
   \<and> find_repos_any (watch_index_new ws) kinds repo
     = concat (map (\<lambda>kind. filter (\<lambda>wt. watch_kind wt = kind \<and> normalise_repo (watch_name wt) = normalise_repo repo) ws) kinds)
   \<and> find_images_any (watch_index_new ws) CONTAINER_KINDS img
     = concat (map (\<lambda>kind. filter (\<lambda>wt. watch_kind wt = kind \<and> normalise_image (watch_name wt) = normalise_image img) ws)
         CONTAINER_KINDS)
   \<and> find_by_id (watch_index_new ws) i = find (\<lambda>wt. provider_id (wt_provider wt) = i) (rev ws)"
proof (intro conjI)
  show "find_images_any (watch_index_new ws) CONTAINER_KINDS img
     = concat (map (\<lambda>kind. filter (\<lambda>wt. watch_kind wt = kind \<and> normalise_image (watch_name wt) = normalise_image img) ws)
         CONTAINER_KINDS)"
    unfolding find_images_any_def by (intro arg_cong [where f = concat] map_cong refl images_of_kind)
  show "find_by_id (watch_index_new ws) i = find (\<lambda>wt. provider_id (wt_provider wt) = i) (rev ws)"
    by (simp add: find_by_id_def new_index_watches) (simp add: new_index index_ids option.map_comp comp_def find_last_enumerated)
qed (simp_all add: find_repos_def find_repos_any_def repos_of_kind)

section \<open>A push that is not authenticated\<close>

text \<open>What a request must carry, by route, when a secret is configured.\<close>

fun hook_auth :: "hook_route \<Rightarrow> 'v hook_libs \<Rightarrow> string option \<Rightarrow> header_map \<Rightarrow> string \<Rightarrow> api_error + unit" where
  "hook_auth Github_hook lib secret h body = verify_github_signature (hk_hmac lib) h secret body"
| "hook_auth Gitlab_hook lib secret h body = verify_gitlab_token h secret"
| "hook_auth Gitea_hook lib secret h body = verify_webhook_secret h secret"
| "hook_auth Bitbucket_hook lib secret h body = verify_bitbucket_signature (hk_hmac lib) h secret body"
| "hook_auth Docker_hook lib secret h body = verify_webhook_secret h secret"
| "hook_auth Generic_hook lib secret h body = verify_webhook_secret h secret"

fun hook_kind :: "hook_route \<Rightarrow> string" where
  "hook_kind Github_hook = ''github''"
| "hook_kind Gitlab_hook = ''gitlab''"
| "hook_kind Gitea_hook = ''gitea''"
| "hook_kind Bitbucket_hook = ''bitbucket''"
| "hook_kind Docker_hook = ''docker''"
| "hook_kind Generic_hook = ''generic''"

lemma serve_admits:
  "\<exists>rest. serve_webhook lib secret x route h body
     = admit (hook_auth route lib secret h body) h (hook_kind route) rest"
  by (cases route) (auto simp: github_def gitlab_def gitea_def bitbucket_def docker_def generic_def)

text \<open>The request proves that its sender knows the secret.\<close>

definition knows_secret :: "hmac_hex \<Rightarrow> hook_route \<Rightarrow> header_map \<Rightarrow> string \<Rightarrow> string \<Rightarrow> bool" where
  "knows_secret hmac route h s body \<longleftrightarrow>
    (case route of
       Github_hook \<Rightarrow> header_text h ''x-hub-signature-256'' = Some (''sha256='' @ hmac s body)
     | Bitbucket_hook \<Rightarrow> header_text h ''x-hub-signature'' = Some (hmac s body)
         \<or> header_text h ''x-hub-signature-256'' = Some (''sha256='' @ hmac s body)
     | Gitlab_hook \<Rightarrow> header_text h ''x-gitlab-token'' = Some s
     | _ \<Rightarrow> header_text h ''x-webhook-secret'' = Some s \<or> bearer_token h = Some s)"

lemma text_or_empty_some: "text_or_empty v \<noteq> [] \<Longrightarrow> v = Some (text_or_empty v)"
  by (simp add: text_or_empty_def split: option.splits)

lemma hmac_header_sound:
  assumes "verify_hmac_header hmac h (Some s) body name shown pre = Inr u" and "s \<noteq> []"
  shows "header_text h name = Some ((if pre then ''sha256='' else []) @ hmac s body)"
  using assms by (auto simp: verify_hmac_header_def header_text_def strip_prefix_Some split: option.splits if_splits)

lemma hook_auth_sound:
  assumes "hook_auth route lib (Some s) h body = Inr u" and "s \<noteq> []"
  shows "knows_secret (hk_hmac lib) route h s body"
proof (cases route)
  case Github_hook
  then show ?thesis using assms hmac_header_sound by (fastforce simp: knows_secret_def verify_github_signature_def)
next
  case Bitbucket_hook
  then show ?thesis using assms
    by (auto simp: knows_secret_def verify_bitbucket_signature_def split: if_splits dest!: hmac_header_sound)
next
  case Gitlab_hook
  then show ?thesis using assms
    by (auto simp: knows_secret_def verify_gitlab_token_def split: if_splits dest: text_or_empty_some)
qed (use assms in \<open>auto simp: knows_secret_def verify_webhook_secret_def split: if_splits option.splits dest: text_or_empty_some\<close>)

text \<open>
  C14: a webhook that does not carry the secret changes nothing.  When a secret is configured, a
  request to any of the six routes that does not prove knowledge of it (the signature of its own
  body, or the token) is answered with 401, and the tables, the queue, the metrics and the sinks are
  exactly as before: not even its delivery id is claimed, so it cannot shadow the real delivery.
\<close>

theorem unsigned_push_changes_nothing:
  assumes "s \<noteq> []" and "\<not> knows_secret (hk_hmac lib) route h s body"
  shows "\<exists>m. run_state (serve_webhook lib (Some s) x route h body) w = (Inl (Refused_hook (Unauthorized m)), w)"
proof -
  obtain rest where r: "serve_webhook lib (Some s) x route h body
      = admit (hook_auth route lib (Some s) h body) h (hook_kind route) rest"
    using serve_admits by blast
  have "\<exists>m. hook_auth route lib (Some s) h body = Inl (Unauthorized m)"
  proof (cases "hook_auth route lib (Some s) h body")
    case (Inl e)
    then show ?thesis
      by (cases route) (auto simp: verify_github_signature_def verify_bitbucket_signature_def verify_hmac_header_def
          verify_gitlab_token_def verify_webhook_secret_def split: if_splits option.splits)
  qed (use assms hook_auth_sound in blast)
  then show ?thesis by (auto simp: r admit_def refuse_def)
qed

section \<open>A delivery id is processed once\<close>

definition unpruned :: "world \<Rightarrow> bool" where
  "unpruned w \<longleftrightarrow> (\<forall>n p. Store_action p \<in> set (es_actions (w_env w n)) \<longrightarrow> \<not> is_prune p)"

definition claimed_in :: "string \<Rightarrow> world \<Rightarrow> bool" where
  "claimed_in i w \<longleftrightarrow> unpruned w \<and> webhook_known (w_db w) i"

definition no_prune_action :: "env_action \<Rightarrow> bool" where
  "no_prune_action x \<longleftrightarrow> (\<forall>p. x = Store_action p \<longrightarrow> \<not> is_prune p)"

lemma batch_webhooks: "db_webhooks (fold (\<lambda>u d. write_seen_row now s u d) us d) = db_webhooks d"
  by (induction us arbitrary: d) (simp_all add: write_seen_row_def)

lemma webhooks_table_op: "\<not> is_prune p \<Longrightarrow> p \<notin> range Op_webhook \<Longrightarrow> db_webhooks (exec_op now app p d) = db_webhooks d"
  by (cases p) (auto simp: try_enqueue_notification_def claim_outbox_batch_def claim_outbox_row_def
      update_outbox_id_def fail_notification_def update_sinks_def sync_outbox_sink_status_def
      requeue_dead_outbox_def finalize_exhausted_outbox_def record_advisories_def
      record_advisory_check_def mark_initialized_def touch_polled_def record_seen_def record_seen_batch_def
      enrich_seen_metadata_def complete_notification_def write_seen_row_def batch_webhooks
      set_latest_release_tag_def set_etag_def upsert_source_def ensure_sink_deliveries_def release_outbox_lease_def
      apply_delivery_backoff_def defer_delivery_def complete_sink_delivery_def fail_sink_delivery_def
      abandon_retryable_sinks_def Let_def split: option.splits sum.splits if_splits)

lemma known_op: "\<not> is_prune p \<Longrightarrow> webhook_known d i \<Longrightarrow> webhook_known (exec_op now app p d) i"
proof (cases "p \<in> range Op_webhook")
  case True
  assume "webhook_known d i"
  with True show ?thesis by (auto simp: webhooks.claim_claimed [of "(now, j)" for j, simplified])
qed (simp add: webhook_known_def webhooks_table_op)

interpretation claims: polling_contract "claimed_in i" no_prune_action "\<lambda>p. \<not> is_prune p" for i
proof (unfold_locales, goal_cases)
  case (1 w x n)
  then show ?case by (auto simp: claimed_in_def unpruned_def no_prune_action_def)
next
  case (2 x w)
  then show ?case by (cases x) (auto simp: claimed_in_def unpruned_def no_prune_action_def swap_runtime_def known_op)
next
  case (3 p w now app)
  then show ?case by (simp add: claimed_in_def unpruned_def known_op)
next
  case (11 p)
  then show ?case by (cases p) simp_all
next
  case (12 p)
  then show ?case by (cases p) simp_all
qed (simp_all add: claimed_in_def unpruned_def pass_time_def)

lemma push_each_keeps: "preserves (claimed_in i) (push_each lib r ws)"
  by (induction ws) (auto intro!: keeps claims.deliver_new_keeps)

lemma count_hook_keeps: "preserves (claimed_in i) (count_hook k)"
  unfolding count_hook_def by (rule claims.metric_keeps)

lemma process_keeps: "preserves (claimed_in i) (process_pushed_release lib ws r)"
  unfolding process_pushed_release_def Let_def
  by (intro preserves_bind push_each_keeps) (auto intro!: keeps count_hook_keeps split: sum.splits)

lemma ingest_keeps: "preserves (claimed_in i) (ingest_mapped_release lib m f g)"
  unfolding ingest_mapped_release_def Let_def refuse_def
  by (auto intro!: keeps count_hook_keeps process_keeps split: sum.splits payload_error.splits)

lemma parse_keeps: "(\<And>p. preserves (claimed_in i) (rest p)) \<Longrightarrow> preserves (claimed_in i) (parse_json f body rest)"
  unfolding parse_json_def refuse_def by (auto intro: keeps split: sum.splits)

lemma serve_keeps:
  fixes lib :: "'v::linorder hook_libs"
  shows "\<exists>rest. serve_webhook lib secret x route h body
       = admit (hook_auth route lib secret h body) h (hook_kind route) rest
     \<and> (\<forall>i. preserves (claimed_in i) rest)"
proof (cases route)
  case Bitbucket_hook
  have "preserves (claimed_in i) (bitbucket_push lib x body)" for i
    unfolding bitbucket_push_def by (intro parse_keeps ingest_keeps)
  then show ?thesis using Bitbucket_hook
    by (auto simp: bitbucket_def intro!: exI conjI [OF refl] keeps count_hook_keeps split: option.splits)
next
  case Generic_hook
  have "preserves (claimed_in i) (case find of None \<Rightarrow> do { count_hook Hook_error; refuse e }
      | Some wt \<Rightarrow> process_pushed_release l [wt] r)" for i find e and l :: "'v poll_libs" and r
    by (auto simp: refuse_def intro!: keeps count_hook_keeps process_keeps split: option.splits)
  then show ?thesis using Generic_hook
    by (auto simp: generic_def intro!: exI conjI [OF refl] parse_keeps)
qed (auto simp: github_def gitlab_def gitea_def docker_def handle_gitea_compatible_def
    intro!: exI conjI [OF refl] parse_keeps ingest_keeps)

lemma unpruned_turn: "unpruned w \<Longrightarrow> unpruned (snd (env_turn w))"
proof -
  have "w_env (fold env_act as v) = w_env v" for as v by (induction as arbitrary: v) simp_all
  then show "unpruned w \<Longrightarrow> unpruned (snd (env_turn w))"
    by (simp add: env_turn_def Let_def unpruned_def pass_time_def)
qed

lemma admit_claims:
  assumes "unpruned w" "delivery_id h kind = Some i" "es_fault (w_env w (w_ticks w)) \<noteq> Lost_request"
    and rest: "preserves (claimed_in i) rest"
  shows "claimed_in i (snd (run_state (admit (Inr ()) h kind rest) w))"
proof -
  let ?c = "ensure_idempotent h kind"
  have "webhook_known (snd (claim_webhook_delivery now i d)) i" for now d
    by (simp add: webhooks.claim_claimed [of "(now, i)", simplified])
  then have c: "claimed_in i (snd (run_state ?c w))"
    using assms(2,3) unpruned_turn [OF assms(1)]
    by (auto simp: ensure_idempotent_def try_bind_def store_write_def store_call_def Let_def claimed_in_def
        env_turn_def split_def count_hook_def count_metric_def modify_def ok_def unpruned_def split: fault.splits)
  show ?thesis
    using preservesD [OF rest c] c
    by (cases "run_state ?c w") (auto simp: admit_def split: sum.splits option.splits)
qed

lemma admit_duplicate:
  assumes "webhook_known (w_db (snd (env_turn w))) i" "delivery_id h kind = Some i"
    and "es_fault (w_env w (w_ticks w)) = Healthy"
  shows "run_state (admit (Inr ()) h kind rest) w = (Inr (webhook_duplicate i),
    (snd (env_turn w))\<lparr>w_metrics := record_webhook Hook_duplicate (w_metrics (snd (env_turn w)))\<rparr>)"
proof -
  have "claim_webhook_delivery now i (w_db (snd (env_turn w))) = (False, w_db (snd (env_turn w)))" for now
    using assms(1) by (simp add: claim_webhook_delivery_def webhook_known_def)
  moreover have "fst (env_turn w) = Healthy" using assms(3) by (simp add: env_turn_def Let_def)
  ultimately show ?thesis using assms(2)
    by (simp add: admit_def ensure_idempotent_def try_bind_def store_write_def store_call_def Let_def split_def
        count_hook_def count_metric_def modify_def ok_def)
qed

lemma env_act_calls: "w_calls (env_act x w) = w_calls w"
  by (cases x) (simp_all add: swap_runtime_def)

lemma turn_sent: "w_sent (snd (env_turn w)) = w_sent w" "w_calls (snd (env_turn w)) = w_calls w"
proof -
  have "w_sent (fold env_act as v) = w_sent v" "w_calls (fold env_act as v) = w_calls v" for as v
    by (induction as arbitrary: v) (simp_all add: env_act_calls)
  then show "w_sent (snd (env_turn w)) = w_sent w" "w_calls (snd (env_turn w)) = w_calls w"
    by (simp_all add: env_turn_def Let_def pass_time_def)
qed

text \<open>
  C12: a delivery id is processed at most once.  Once an authenticated push has reached the claim of
  its delivery id, whatever became of it afterwards, and as long as no prune has dropped the claim,
  a push to the same route with the same id is answered as a duplicate: it calls no sink and writes
  no table, whatever its body says and whatever the configuration has become.  This includes the
  retry of a push that failed after the claim, which is therefore never delivered by the webhook.
\<close>

theorem push_is_processed_once:
  assumes "unpruned w" and "es_fault (w_env w (w_ticks w)) \<noteq> Lost_request"
    and "hook_auth route lib secret h body = Inr ()" and "delivery_id h (hook_kind route) = Some i"
    and "run_state (serve_webhook lib secret x route h body) w = (r, w1)"
    and "es_fault (w_env w1 (w_ticks w1)) = Healthy"
    and "hook_auth route lib secret h' body' = Inr ()" and "delivery_id h' (hook_kind route) = Some i"
  shows "\<exists>w2. run_state (serve_webhook lib secret x' route h' body') w1 = (Inr (webhook_duplicate i), w2)
    \<and> w_sent w2 = w_sent w1 \<and> w_calls w2 = w_calls w1 \<and> w_db w2 = w_db (snd (env_turn w1))"
proof -
  obtain rest where "serve_webhook lib secret x route h body = admit (Inr ()) h (hook_kind route) rest"
    "preserves (claimed_in i) rest"
    using serve_keeps [of lib secret x route h body] assms(3) by auto
  then have "claimed_in i w1"
    using admit_claims [OF assms(1,4,2)] assms(5) by (metis snd_conv)
  then have "webhook_known (w_db (snd (env_turn w1))) i"
    using claims.turn_keeps by (auto simp: claimed_in_def)
  moreover obtain rest' where "serve_webhook lib secret x' route h' body' = admit (Inr ()) h' (hook_kind route) rest'"
    using serve_keeps [of lib secret x' route h' body'] assms(7) by auto
  ultimately show ?thesis
    using admit_duplicate [OF _ assms(8,6)] by (simp add: turn_sent)
qed

section \<open>Examples\<close>

definition example_hooks :: "nat hook_libs" where
  "example_hooks =
    \<lparr>hk_poll = example_poll, hk_hmac = (\<lambda>s b. s @ b), hk_gitea = (\<lambda>_. Inl ''eof''), hk_gitlab = (\<lambda>_. Inl ''eof''),
     hk_bitbucket = (\<lambda>_. Inl ''eof''), hk_docker = (\<lambda>_. Inl ''eof''),
     hk_generic = (\<lambda>_. Inr \<lparr>gz_source_id = ''cargo:serde'', gz_tag = ''1.0.0'', gz_url = None, gz_body = None,
       gz_prerelease = False\<rparr>)\<rparr>"

theorem unsigned_push_changes_nothing_witness:
  "\<exists>m. run_state (serve_webhook example_hooks (Some ''s3cret'') (watch_index_new [example_watch]) Github_hook
      [(''x-hub-signature-256'', Text ''sha256=deadbeef'')] ''{}'') fresh_world
    = (Inl (Refused_hook (Unauthorized m)), fresh_world)"
  by (rule unsigned_push_changes_nothing) (simp_all add: knows_secret_def example_hooks_def header_text_def)

definition example_headers :: header_map where
  "example_headers = [(''idempotency-key'', Text ''k1'')]"

lemma example_delivery: "delivery_id example_headers (hook_kind Generic_hook) = Some ''generic:k1''"
  by code_simp

lemma example_lost:
  "find_by_id (watch_index_new []) s = None"
  by (simp add: watch_index_new_def find_by_id_def)

text \<open>A push for a source that is not configured yet: the sender's retry is lost even after it is.\<close>

theorem push_is_processed_once_witness:
  "\<exists>w1 m w2. run_state (serve_webhook example_hooks None (watch_index_new []) Generic_hook example_headers ''{}'') fresh_world
       = (Inl (Refused_hook (Not_found m)), w1)
     \<and> run_state (serve_webhook example_hooks None (watch_index_new [example_watch]) Generic_hook example_headers ''{}'') w1
       = (Inr (webhook_duplicate ''generic:k1''), w2) \<and> w_sent w2 = []"
proof -
  let ?first = "serve_webhook example_hooks None (watch_index_new []) Generic_hook example_headers ''{}''"
  have env: "w_env fresh_world = (\<lambda>_. quiet_step)" and start: "w_sent fresh_world = []"
    by (simp_all add: fresh_world_def example_world_def)
  have claim: "claim_webhook_delivery now ''generic:k1'' empty_db
      = (True, empty_db\<lparr>db_webhooks := [\<lparr>wh_delivery_id = ''generic:k1'', wh_received_at = now\<rparr>]\<rparr>)" for now
    by (simp add: claim_webhook_delivery_def empty_db_def)
  have db: "w_db fresh_world = empty_db" by (simp add: fresh_world_def)
  have auth: "hook_auth Generic_hook example_hooks None example_headers ''{}'' = Inr ()"
    by (simp add: verify_webhook_secret_def)
  obtain m w1 where one: "run_state ?first fresh_world = (Inl (Refused_hook (Not_found m)), w1)"
    and w1: "w_env w1 = (\<lambda>_. quiet_step)" "w_sent w1 = []"
    by (simp add: generic_def admit_def verify_webhook_secret_def ensure_idempotent_def run_polls
        example_delivery [simplified] env db claim count_hook_def count_metric_def modify_def parse_json_def
        example_hooks_def example_lost refuse_def start)
  have "\<exists>w2. run_state (serve_webhook example_hooks None (watch_index_new [example_watch]) Generic_hook example_headers ''{}'') w1
      = (Inr (webhook_duplicate ''generic:k1''), w2)
    \<and> w_sent w2 = w_sent w1 \<and> w_calls w2 = w_calls w1 \<and> w_db w2 = w_db (snd (env_turn w1))"
    by (rule push_is_processed_once [OF _ _ auth example_delivery one _ auth example_delivery])
      (simp_all add: unpruned_def env w1 quiet_step_def)
  with one w1 show ?thesis by auto
qed

section \<open>A push before the first poll\<close>

definition backlog :: "nat release list" where
  "backlog = [release_new example_semver ''1.0.0'', release_new example_semver ''0.9.0'']"

definition backlog_upstream :: "nat upstream" where
  "backlog_upstream n etag = Inr \<lparr>fo_releases = backlog, fo_etag = None, fo_not_modified = False\<rparr>"

definition pushed_db :: db where
  "pushed_db = set_latest_release_tag 100 ''cargo:serde'' ''1.0.0''
     (record_seen_batch 100 ''cargo:serde'' [upsert_of example_poll (hd example_releases)]
       (enrich_seen_metadata ''cargo:serde'' (map unversioned example_releases)
         (set_latest_release_tag 100 ''cargo:serde'' ''1.0.0'' empty_db)))"

definition baseline_db :: db where
  "baseline_db = set_latest_release_tag 100 ''cargo:serde'' ''1.0.0''
     (record_seen_batch 100 ''cargo:serde'' (map (upsert_of example_poll) backlog)
       (enrich_seen_metadata ''cargo:serde'' (map unversioned backlog)
         (set_latest_release_tag 100 ''cargo:serde'' ''1.0.0'' (touch_polled 100 ''cargo:serde'' empty_db))))"

definition repolled_db :: db where
  "repolled_db = enrich_seen_metadata ''cargo:serde'' (map unversioned backlog)
     (set_latest_release_tag 100 ''cargo:serde'' ''1.0.0'' (touch_polled 100 ''cargo:serde'' pushed_db))"

definition announced_db :: db where
  "announced_db = record_seen 100 ''cargo:serde'' (upsert_of example_poll (release_new example_semver ''0.9.0''))
     (snd (try_enqueue_notification 100 100 (watch_event example_poll scheduled_watch (release_new example_semver ''0.9.0''))
       (rel_id (release_new example_semver ''0.9.0''))
       (meta_of example_poll scheduled_watch (release_new example_semver ''0.9.0'') 100) repolled_db))"

lemma backlog_facts:
  "accepted_releases example_poll scheduled_watch backlog = backlog"
  "map_option rel_raw_tag (pick_latest backlog) = Some ''1.0.0''"
  "is_initialized repolled_db ''cargo:serde''" "\<not> is_initialized empty_db ''cargo:serde''"
  "get_etag pushed_db ''cargo:serde'' = None" "get_etag empty_db ''cargo:serde'' = None"
  by code_simp+

lemma unchanged_tables [simp]:
  "db_seen (set_latest_release_tag now s t d) = db_seen d" "db_outbox (set_latest_release_tag now s t d) = db_outbox d"
  "db_next_id (set_latest_release_tag now s t d) = db_next_id d"
  "db_seen (touch_polled now s d) = db_seen d" "db_outbox (touch_polled now s d) = db_outbox d"
  "db_next_id (touch_polled now s d) = db_next_id d"
  "db_seen (mark_initialized now s d) = db_seen d" "db_outbox (mark_initialized now s d) = db_outbox d"
  "db_next_id (mark_initialized now s d) = db_next_id d"
  "db_outbox (enrich_seen_metadata s rs d) = db_outbox d" "db_next_id (enrich_seen_metadata s rs d) = db_next_id d"
  by (simp_all add: set_latest_release_tag_def touch_polled_def mark_initialized_def upsert_source_def
      enrich_seen_metadata_def)

lemma fold_writes [simp]:
  "db_outbox (fold (\<lambda>u d. write_seen_row now s u d) us d) = db_outbox d"
  "db_next_id (fold (\<lambda>u d. write_seen_row now s u d) us d) = db_next_id d"
  by (induction us arbitrary: d) (simp_all add: write_seen_row_def)

lemma example_fingerprint: "fingerprint example_poll r = hex16 7"
  by (simp add: fingerprint_def content_fingerprint_def example_poll_def)

lemma backlog_ids: "map rel_id backlog = [''1.0.0'', ''0.9.0'']" "map rel_id example_releases = [''1.0.0'']"
  by (simp_all add: backlog_def example_releases_def release_new_def Let_def)

lemma pushed_seen: "db_seen pushed_db = [seen_row_of 100 ''cargo:serde'' (upsert_of example_poll (hd example_releases))]"
  by (simp add: pushed_db_def record_seen_batch_def distinct_items_def write_seen_row_def upsert_row_def
      enrich_seen_metadata_def empty_db_def)

lemma repolled_index: "load_seen_index repolled_db ''cargo:serde'' = [''1.0.0'' \<mapsto> Some (hex16 7)]"
  using backlog_ids(2)
  by (simp add: repolled_db_def enrich_seen_metadata_def load_seen_index_def source_rows_def pushed_seen
      seen_row_of_def upsert_of_def seen_with_published_def seen_from_release_def example_fingerprint
      example_releases_def split: option.splits)

lemma backlog_new:
  "deliverable example_poll backlog (excludes_updated (wt_filter scheduled_watch)) (load_seen_index repolled_db ''cargo:serde'')
     = [release_new example_semver ''0.9.0'']"
  using backlog_ids(1)
  by (simp add: deliverable_def backlog_def repolled_index should_deliver_cached_def example_fingerprint)

lemma backlog_queued:
  "fst (try_enqueue_notification 100 100 (watch_event example_poll scheduled_watch r) i
     (meta_of example_poll scheduled_watch r 100) repolled_db)
     = Some \<lparr>eo_id = 1, eo_deliver_now = False, eo_created = True\<rparr>"
  by (simp add: try_enqueue_notification_def Let_def find_outbox_def repolled_db_def pushed_db_def record_seen_batch_def
      meta_of_def scheduled_watch_def example_poll_def next_after_def due_def empty_db_def)

lemma announced: "find_outbox announced_db ''cargo:serde'' ''0.9.0'' \<noteq> None"
proof -
  let ?r = "release_new example_semver ''0.9.0''"
  have "rel_id ?r = ''0.9.0''" by (simp add: release_new_def Let_def)
  then have "queued ''cargo:serde'' ''0.9.0'' announced_db"
    unfolding announced_db_def
    using enqueue_queues [of "watch_event example_poll scheduled_watch ?r" "rel_id ?r" 100 100
        "meta_of example_poll scheduled_watch ?r 100" repolled_db] scheduled_facts(1)
    by (simp add: queued_def record_seen_def write_seen_row_def)
  then show ?thesis by (simp add: queued_find)
qed

lemma baseline_outbox: "db_outbox baseline_db = []"
  by (simp add: baseline_db_def record_seen_batch_def empty_db_def)

lemma pushed_release:
  "generic_release (pb_source example_poll) \<lparr>gz_source_id = ''cargo:serde'', gz_tag = ''1.0.0'', gz_url = None,
     gz_body = None, gz_prerelease = False\<rparr> = hd example_releases"
  "map watch_name (case find_by_id (watch_index_new [scheduled_watch]) ''cargo:serde'' of Some wt \<Rightarrow> [wt] | None \<Rightarrow> [])
     = [''serde'']"
  "delivery_id [] ''generic'' = None"
  by code_simp+

lemma push_first:
  "\<exists>r mt n. run_state (serve_webhook example_hooks None (watch_index_new [scheduled_watch]) Generic_hook [] ''{}'') fresh_world
     = (Inr r, fresh_world\<lparr>w_ticks := n, w_db := pushed_db, w_metrics := mt\<rparr>) \<and> hq_sent r = 0"
proof -
  obtain x where x: "pick_latest example_releases = Some x" "rel_raw_tag x = ''1.0.0''"
    using example_facts(3) by auto
  have one: "[hd example_releases] = example_releases" by (simp add: example_releases_def)
  have id: "find_by_id (watch_index_new [scheduled_watch]) ''cargo:serde'' = Some scheduled_watch"
    using scheduled_facts(1)
    by (simp add: find_by_id_def) (simp add: watch_index_new_def index_watch_def Let_def)
  have clock: "w_now example_world = 100" "w_skew example_world = 0" by (simp_all add: example_world_def)
  have ups: "map (upsert_of example_poll) example_releases = [upsert_of example_poll (hd example_releases)]"
    by (simp add: example_releases_def)
  show ?thesis
    using x by (simp add: generic_def admit_def verify_webhook_secret_def ensure_idempotent_def pushed_release
        parse_json_def example_hooks_def id process_pushed_release_def Let_def one run_polls deliver_new_releases_def
        set_latest_call_def enrich_call_def select_for_delivery_def example_quiet fresh_world_def scheduled_facts
        example_facts clock app_now_def count_hook_def count_metric_def modify_def ups pushed_db_def)
      (intro exI, rule refl)
qed

lemma poll_after_push:
  "\<exists>w2. run_state (poll_once_inner example_poll backlog_upstream scheduled_watch False)
       (fresh_world\<lparr>w_ticks := n, w_db := pushed_db, w_metrics := mt\<rparr>) = (Inr 0, w2) \<and> w_db w2 = announced_db"
proof -
  obtain x where x: "pick_latest backlog = Some x" "rel_raw_tag x = ''1.0.0''"
    using backlog_facts(2) by auto
  have clock: "w_now example_world = 100" "w_skew example_world = 0" by (simp_all add: example_world_def)
  show ?thesis
    using x by (simp add: run_polls poll_once_inner_def backlog_upstream_def touch_call_def set_etag_call_def
        deliver_new_releases_def Let_def set_latest_call_def enrich_call_def select_for_delivery_def example_quiet
        fresh_world_def scheduled_facts(1) backlog_facts backlog_new backlog_queued clock app_now_def repolled_db_def [symmetric]
        deliver_release_def asks_world_def enqueue_call_def record_seen_call_def count_metric_def modify_def
        announced_db_def)
qed

lemma poll_alone:
  "\<exists>w2. run_state (poll_once_inner example_poll backlog_upstream scheduled_watch False) fresh_world = (Inr 0, w2)
     \<and> w_db w2 = baseline_db"
proof -
  obtain x where x: "pick_latest backlog = Some x" "rel_raw_tag x = ''1.0.0''"
    using backlog_facts(2) by auto
  have clock: "w_now example_world = 100" "w_skew example_world = 0" by (simp_all add: example_world_def)
  show ?thesis
    using x by (simp add: run_polls poll_once_inner_def backlog_upstream_def touch_call_def set_etag_call_def
        deliver_new_releases_def Let_def set_latest_call_def enrich_call_def select_for_delivery_def example_quiet
        fresh_world_def scheduled_facts(1) backlog_facts clock app_now_def count_metric_def modify_def
        baseline_db_def)
qed

text \<open>
  A push before the first poll makes the first poll announce the backlog.  A source whose first
  event is a poll takes everything published so far as its silent baseline.  When a webhook for the
  source comes first, its single release becomes the baseline, and the next poll queues every older
  release as if it were new: in this run the notification for 0.9.0, published before 1.0.0.
\<close>

theorem first_push_announces_backlog:
  "let push = serve_webhook example_hooks None (watch_index_new [scheduled_watch]) Generic_hook [] ''{}'';
       poll = poll_once_inner example_poll backlog_upstream scheduled_watch False;
       (r1, w1) = run_state push fresh_world; (r2, w2) = run_state poll w1; (r3, w3) = run_state poll fresh_world in
   r2 = Inr 0 \<and> find_outbox (w_db w2) ''cargo:serde'' ''0.9.0'' \<noteq> None
   \<and> r3 = Inr 0 \<and> db_outbox (w_db w3) = []"
proof -
  obtain r mt n where p: "run_state (serve_webhook example_hooks None (watch_index_new [scheduled_watch]) Generic_hook [] ''{}'')
      fresh_world = (Inr r, fresh_world\<lparr>w_ticks := n, w_db := pushed_db, w_metrics := mt\<rparr>)"
    using push_first by blast
  obtain w2 where q: "run_state (poll_once_inner example_poll backlog_upstream scheduled_watch False)
      (fresh_world\<lparr>w_ticks := n, w_db := pushed_db, w_metrics := mt\<rparr>) = (Inr 0, w2)" "w_db w2 = announced_db"
    using poll_after_push by blast
  obtain w3 where s: "run_state (poll_once_inner example_poll backlog_upstream scheduled_watch False) fresh_world = (Inr 0, w3)"
    "w_db w3 = baseline_db"
    using poll_alone by blast
  show ?thesis using q(2) s(2) announced baseline_outbox
    by (simp add: Let_def p q(1) s(1) del: serve_webhook.simps)
qed

end
