(* ===== verification/Scheduler.thy ===== *)
theory Scheduler
  imports Poll_Safety
begin

text \<open>
  The background loops (\<^verbatim>\<open>src/src/scheduler.rs\<close>): the loop of each watch with its backoff, the flush
  cycle with the sweep of exhausted rows, the prune loop and the advisory sweep.  A loop gets fuel,
  one unit per round, and answers \<open>None\<close> when it has not ended by then; the request to shut down is
  a function of the process clock, and the answers of the network and of the random generator are
  parameters by round.
\<close>

section \<open>Sleeping\<close>

definition INITIAL_BACKOFF :: nat where
  "INITIAL_BACKOFF = 5"

definition MAX_BACKOFF :: nat where
  "MAX_BACKOFF = 300"

definition SHUTDOWN_POLL_CHUNK :: nat where
  "SHUTDOWN_POLL_CHUNK = 250"

type_synonym shutdown = "instant \<Rightarrow> bool"

definition shutting_down :: "shutdown \<Rightarrow> bool prog" where
  "shutting_down down = asks_world (\<lambda>w. down (w_instant w))"

function sleep_interruptible :: "shutdown \<Rightarrow> nat \<Rightarrow> bool prog" where
  "sleep_interruptible down left =
    (if 0 < left then do {
       stop \<leftarrow> shutting_down down;
       if stop then State_Monad.return False
       else do {
         modify (pass_time (min left SHUTDOWN_POLL_CHUNK));
         sleep_interruptible down (left - min left SHUTDOWN_POLL_CHUNK)
       }
     }
     else do {
       stop \<leftarrow> shutting_down down;
       State_Monad.return (\<not> stop)
     })"
  by pat_completeness auto

termination
  by (relation "measure snd") (auto simp: SHUTDOWN_POLL_CHUNK_def)

declare sleep_interruptible.simps [simp del]

text \<open>The generator answers the \<open>k\<close>-th draw below or at a bound, in seconds.\<close>

type_synonym draws = "nat \<Rightarrow> nat \<Rightarrow> nat"

definition jitter_duration :: "draws \<Rightarrow> nat \<Rightarrow> nat \<Rightarrow> nat" where
  "jitter_duration rng k secs = (if secs = 0 then 0 else rng k secs)"

definition milliseconds :: "nat \<Rightarrow> nat" where
  "milliseconds secs = 1000 * secs"

definition between_polls :: "draws \<Rightarrow> nat \<Rightarrow> watch \<Rightarrow> nat" where
  "between_polls rng k wt = milliseconds (wt_interval wt + jitter_duration rng k (wt_jitter wt))"

section \<open>The loop of a watch\<close>

fun watch_rounds ::
  "'v::linorder poll_libs \<Rightarrow> (nat \<Rightarrow> 'v upstream) \<Rightarrow> draws \<Rightarrow> shutdown \<Rightarrow> watch \<Rightarrow> nat \<Rightarrow> nat \<Rightarrow> nat
     \<Rightarrow> unit option prog" where
  "watch_rounds lib net rng down wt 0 k backoff = State_Monad.return None"
| "watch_rounds lib net rng down wt (Suc fuel) k backoff = do {
     stop \<leftarrow> shutting_down down;
     if stop then State_Monad.return (Some ())
     else do {
       polled \<leftarrow> poll_once_inner lib (net k) wt False;
       case polled of
         Inl _ \<Rightarrow> do {
           go \<leftarrow> sleep_interruptible down (milliseconds backoff);
           if \<not> go then State_Monad.return (Some ())
           else watch_rounds lib net rng down wt fuel (k + 1) (min (backoff * 2) MAX_BACKOFF)
         }
       | Inr _ \<Rightarrow> do {
           go \<leftarrow> sleep_interruptible down (between_polls rng k wt);
           if \<not> go then State_Monad.return (Some ())
           else watch_rounds lib net rng down wt fuel (k + 1) INITIAL_BACKOFF
         }
     }
   }"

definition watch_loop ::
  "'v::linorder poll_libs \<Rightarrow> (nat \<Rightarrow> 'v upstream) \<Rightarrow> draws \<Rightarrow> shutdown \<Rightarrow> watch \<Rightarrow> nat \<Rightarrow> unit option prog" where
  "watch_loop lib net rng down wt fuel =
    (if wt_poll_on_startup wt then watch_rounds lib net rng down wt fuel 0 INITIAL_BACKOFF
     else do {
       go \<leftarrow> sleep_interruptible down (between_polls rng 0 wt);
       if \<not> go then State_Monad.return (Some ())
       else watch_rounds lib net rng down wt fuel 1 INITIAL_BACKOFF
     })"

section \<open>The queue\<close>

definition reconcile_exhausted_outbox :: "unit prog" where
  "reconcile_exhausted_outbox = do {
     result \<leftarrow> store_write (\<lambda>now app. finalize_exhausted_outbox);
     case result of
       Inl _ \<Rightarrow> State_Monad.return ()
     | Inr marked \<Rightarrow>
         if 0 < marked then do {
           count_metric (record_outbox_dead_lettered marked);
           emit_ops_alert ''Outbox dead-letter sweep''
             (show_nat marked @ '' notification outbox row(s) were marked dead after exhausting delivery retries (max_attempts=''
               @ show_int OUTBOX_MAX_ATTEMPTS @ '').'')
         }
         else State_Monad.return ()
   }"

definition FLUSH_LIMIT :: nat where
  "FLUSH_LIMIT = 50"

type_synonym group_order = "digest_groups \<Rightarrow> digest_groups"

definition startup_outbox_recovery :: "group_order \<Rightarrow> unit prog" where
  "startup_outbox_recovery order = do {
     reconcile_exhausted_outbox;
     _ \<leftarrow> flush_notification_outbox order FLUSH_LIMIT;
     State_Monad.return ()
   }"

definition flush_cycle :: "group_order \<Rightarrow> unit prog" where
  "flush_cycle order = do {
     _ \<leftarrow> flush_notification_outbox order FLUSH_LIMIT;
     reconcile_exhausted_outbox
   }"

fun outbox_rounds :: "group_order \<Rightarrow> shutdown \<Rightarrow> nat \<Rightarrow> unit option prog" where
  "outbox_rounds order down 0 = State_Monad.return None"
| "outbox_rounds order down (Suc fuel) = do {
     stop \<leftarrow> shutting_down down;
     if stop then State_Monad.return (Some ())
     else do {
       flush_cycle order;
       go \<leftarrow> sleep_interruptible down (milliseconds 60);
       if \<not> go then State_Monad.return (Some ()) else outbox_rounds order down fuel
     }
   }"

section \<open>Retention\<close>

fun prune_rounds :: "shutdown \<Rightarrow> nat \<Rightarrow> nat \<Rightarrow> unit option prog" where
  "prune_rounds down hours 0 = State_Monad.return None"
| "prune_rounds down hours (Suc fuel) = do {
     go \<leftarrow> sleep_interruptible down (milliseconds (hours * 3600));
     if \<not> go then State_Monad.return (Some ())
     else do {
       _ \<leftarrow> run_prune;
       prune_rounds down hours fuel
     }
   }"

definition maintenance_loop :: "shutdown \<Rightarrow> nat \<Rightarrow> unit option prog" where
  "maintenance_loop down fuel = do {
     s \<leftarrow> asks_world w_prune;
     if periodic_enabled s then prune_rounds down (ps_interval_hours s) fuel
     else State_Monad.return (Some ())
   }"

section \<open>The advisory sweep\<close>

record sweep_target =
  tx_source_id :: string
  tx_registry :: package_registry
  tx_ecosystem :: string
  tx_package :: string

definition sweep_target_of :: "watch \<Rightarrow> sweep_target option" where
  "sweep_target_of wt =
    (let p = wt_provider wt in
     case coordinate_from_source (provider_id p) (provider_kind p) (provider_display_name p) of
       None \<Rightarrow> None
     | Some (registry, package) \<Rightarrow>
         (case ecosystem_for_registry registry of
            None \<Rightarrow> None
          | Some eco \<Rightarrow> Some \<lparr>tx_source_id = provider_id p, tx_registry = registry, tx_ecosystem = eco,
              tx_package = package\<rparr>))"

definition sweep_targets :: "watch list \<Rightarrow> sweep_target list" where
  "sweep_targets ws = List.map_filter sweep_target_of ws"

text \<open>The lookups of a source, which run side by side, and the recording of the verified answers.\<close>

fun lookup_all :: "sweep_target \<Rightarrow> string list \<Rightarrow> (string \<times> lookup_outcome) list prog" where
  "lookup_all t [] = State_Monad.return []"
| "lookup_all t (v # vs) = do {
     out \<leftarrow> advisory_lookup (tx_registry t) (tx_package t) v;
     rest \<leftarrow> lookup_all t vs;
     State_Monad.return ((v, out) # rest)
   }"

definition persist_outcome :: "sweep_target \<Rightarrow> string \<times> lookup_outcome \<Rightarrow> unit prog" where
  "persist_outcome t p =
    (if lo_verified (snd p)
     then persist_advisory_result (tx_ecosystem t) (tx_package t) (fst p) (lo_advisories (snd p))
     else State_Monad.return ())"

fun sweep_advisories_once :: "shutdown \<Rightarrow> nat \<Rightarrow> sweep_target list \<Rightarrow> nat prog" where
  "sweep_advisories_once down batch [] = State_Monad.return 0"
| "sweep_advisories_once down batch (t # ts) = do {
     stop \<leftarrow> shutting_down down;
     if stop then State_Monad.return 0
     else do {
       versions \<leftarrow> store_read (\<lambda>now app d.
         unchecked_seen_versions d (tx_source_id t) (tx_ecosystem t) (tx_package t) batch);
       case versions of
         Inl _ \<Rightarrow> sweep_advisories_once down batch ts
       | Inr vs \<Rightarrow>
           if vs = [] then sweep_advisories_once down batch ts
           else do {
             results \<leftarrow> lookup_all t vs;
             each (persist_outcome t) results;
             checked \<leftarrow> sweep_advisories_once down batch ts;
             State_Monad.return (length (filter (lo_verified \<circ> snd) results) + checked)
           }
     }
   }"

definition sweep_advisories_now :: "watch list \<Rightarrow> nat prog" where
  "sweep_advisories_now ws = do {
     cfg \<leftarrow> asks_world w_advisory_config;
     case sweep_interval cfg of
       None \<Rightarrow> State_Monad.return 0
     | Some _ \<Rightarrow> sweep_advisories_once (\<lambda>_. False) (ac_sweep_batch cfg) (sweep_targets ws)
   }"

definition SWEEP_START_DELAY :: nat where
  "SWEEP_START_DELAY = 60"

fun sweep_rounds :: "shutdown \<Rightarrow> nat \<Rightarrow> nat \<Rightarrow> sweep_target list \<Rightarrow> nat \<Rightarrow> unit option prog" where
  "sweep_rounds down secs batch ts 0 = State_Monad.return None"
| "sweep_rounds down secs batch ts (Suc fuel) = do {
     stop \<leftarrow> shutting_down down;
     if stop then State_Monad.return (Some ())
     else do {
       _ \<leftarrow> sweep_advisories_once down batch ts;
       go \<leftarrow> sleep_interruptible down (milliseconds secs);
       if \<not> go then State_Monad.return (Some ()) else sweep_rounds down secs batch ts fuel
     }
   }"

definition advisory_sweep :: "shutdown \<Rightarrow> watch list \<Rightarrow> nat \<Rightarrow> unit option prog" where
  "advisory_sweep down ws fuel = do {
     cfg \<leftarrow> asks_world w_advisory_config;
     case sweep_interval cfg of
       None \<Rightarrow> State_Monad.return (Some ())
     | Some secs \<Rightarrow>
         if sweep_targets ws = [] then State_Monad.return (Some ())
         else do {
           go \<leftarrow> sleep_interruptible down (milliseconds SWEEP_START_DELAY);
           if \<not> go then State_Monad.return (Some ())
           else sweep_rounds down secs (ac_sweep_batch cfg) (sweep_targets ws) fuel
         }
   }"

section \<open>Sleeping takes its time, and no longer\<close>

lemma run_shutting_down [simp]: "run_state (shutting_down down) w = (down (w_instant w), w)"
  by (simp add: shutting_down_def asks_world_def)

lemma instant_pass [simp]: "w_instant (pass_time ms w) = w_instant w + ms"
  by (simp add: pass_time_def)

lemma sleep_step:
  "run_state (sleep_interruptible down left) w =
    (if down (w_instant w) then (False, w)
     else if left = 0 then (True, w)
     else run_state (sleep_interruptible down (left - min left SHUTDOWN_POLL_CHUNK))
       (pass_time (min left SHUTDOWN_POLL_CHUNK) w))"
  by (subst sleep_interruptible.simps) (simp add: modify_def)

lemma sleep_full:
  "fst (run_state (sleep_interruptible down left) w)
     \<Longrightarrow> w_instant (snd (run_state (sleep_interruptible down left) w)) = w_instant w + left"
proof (induction left arbitrary: w rule: less_induct)
  case (less left)
  let ?c = "min left SHUTDOWN_POLL_CHUNK"
  show ?case
  proof (cases "left = 0")
    case False
    then have "left - ?c < left" by (simp add: SHUTDOWN_POLL_CHUNK_def)
    note IH = less.IH [OF this, of "pass_time ?c w"]
    have "\<not> down (w_instant w)" using less.prems sleep_step [of down left w] by (simp split: if_splits)
    then have "run_state (sleep_interruptible down left) w
        = run_state (sleep_interruptible down (left - ?c)) (pass_time ?c w)"
      using False by (subst sleep_step) simp
    with IH less.prems show ?thesis by simp
  qed (use less.prems in \<open>auto simp: sleep_step [of down 0 w] split: if_splits\<close>)
qed

lemma sleep_interrupted:
  assumes "\<And>t. T \<le> t \<Longrightarrow> down t"
  shows "w_instant (snd (run_state (sleep_interruptible down left) w)) \<le> max (w_instant w) (T + SHUTDOWN_POLL_CHUNK)"
proof (induction left arbitrary: w rule: less_induct)
  case (less left)
  let ?c = "min left SHUTDOWN_POLL_CHUNK"
  show ?case
  proof (cases "left = 0 \<or> down (w_instant w)")
    case False
    then have up: "\<not> down (w_instant w)" and pos: "left \<noteq> 0" by simp_all
    have before: "w_instant w < T" using up assms not_le by blast
    have "left - ?c < left" using pos by (simp add: SHUTDOWN_POLL_CHUNK_def)
    note IH = less.IH [OF this, of "pass_time ?c w"]
    have "run_state (sleep_interruptible down left) w
        = run_state (sleep_interruptible down (left - ?c)) (pass_time ?c w)"
      using up pos by (subst sleep_step) simp
    with IH before show ?thesis by simp
  qed (auto simp: sleep_step [of down left w])
qed

lemma sleep_from_idle:
  "\<exists>ms. snd (run_state (sleep_interruptible down left) w) = pass_time ms w"
proof (induction left arbitrary: w rule: less_induct)
  case (less left)
  let ?c = "min left SHUTDOWN_POLL_CHUNK"
  show ?case
  proof (cases "left = 0 \<or> down (w_instant w)")
    case True
    then have "snd (run_state (sleep_interruptible down left) w) = pass_time 0 w"
      by (auto simp: sleep_step [of down left w] pass_time_def)
    then show ?thesis by blast
  next
    case False
    then have "left - ?c < left" by (auto simp: SHUTDOWN_POLL_CHUNK_def)
    with less.IH [of "left - ?c" "pass_time ?c w"] obtain ms where
      "snd (run_state (sleep_interruptible down (left - ?c)) (pass_time ?c w)) = pass_time ms (pass_time ?c w)"
      by blast
    moreover have "pass_time ms (pass_time ?c w) = pass_time (ms + ?c) w"
      by (simp add: pass_time_def algebra_simps)
    ultimately show ?thesis using False by (auto simp: sleep_step [of down left w])
  qed
qed

lemma env_act_instant [simp]: "w_instant (env_act x w) = w_instant w"
  by (cases x) (simp_all add: swap_runtime_def)

section \<open>What the loops keep\<close>

context program_contract
begin

lemma shutting_keeps [keeps]: "preserves J (shutting_down down)"
  by (rule preservesI) simp

lemma sleep_keeps [keeps]: "preserves J (sleep_interruptible down left)"
proof (rule preservesI)
  fix w assume "J w"
  then show "J (snd (run_state (sleep_interruptible down left) w))"
    using sleep_from_idle [of down left w] time_keeps by metis
qed

lemma reconcile_keeps: "op_ok Op_finalize \<Longrightarrow> preserves J reconcile_exhausted_outbox"
  unfolding reconcile_exhausted_outbox_def
  by (intro keeps write_keeps [where p = Op_finalize]) simp_all

end

context polling_contract
begin

lemma watch_rounds_keep: "preserves J (watch_rounds lib net rng down wt fuel k backoff)"
proof (induction fuel arbitrary: k backoff)
  case (Suc fuel)
  then show ?case by (auto intro!: keeps poll_keeps split: sum.splits)
qed (simp add: preserves_return)

lemma watch_loop_keeps: "preserves J (watch_loop lib net rng down wt fuel)"
  unfolding watch_loop_def by (intro keeps watch_rounds_keep)

end

context world_contract
begin

lemma flush_cycle_keeps: "preserves J (flush_cycle order)"
  unfolding flush_cycle_def by (intro keeps reconcile_keeps TrueI)

lemma outbox_rounds_keep: "preserves J (outbox_rounds order down fuel)"
  by (induction fuel) (auto intro!: keeps flush_cycle_keeps)

end

interpretation running_clock: world_contract "\<lambda>w. t \<le> w_instant w" for t
  by unfold_locales (auto simp: pass_time_def)

interpretation same_env: world_contract "\<lambda>w. w_env w = E" for E
  by unfold_locales (auto simp: pass_time_def)

section \<open>Every loop ends when it is asked to\<close>

lemma poll_instant: "w_instant w \<le> w_instant (snd (run_state (poll_once_inner lib net wt force) w))"
  using preservesD [OF running_clock.poll_keeps [of "w_instant w"], of w] by simp

lemma watch_rounds_end:
  assumes down: "\<And>t. T \<le> t \<Longrightarrow> down t" and pos: "0 < wt_interval wt"
  shows "0 < backoff \<Longrightarrow> T \<le> w_instant w + milliseconds fuel
    \<Longrightarrow> fst (run_state (watch_rounds lib net rng down wt (Suc fuel) k backoff) w) = Some ()"
proof (induction fuel arbitrary: w k backoff)
  case 0
  then show ?case using down by (simp add: milliseconds_def)
next
  case (Suc fuel)
  show ?case
  proof (cases "down (w_instant w)")
    case False
    obtain r w1 where p: "run_state (poll_once_inner lib (net k) wt False) w = (r, w1)" by (cases "run_state (poll_once_inner lib (net k) wt False) w")
    let ?d = "case r of Inl _ \<Rightarrow> milliseconds backoff | Inr _ \<Rightarrow> between_polls rng k wt"
    let ?b = "case r of Inl _ \<Rightarrow> min (backoff * 2) MAX_BACKOFF | Inr _ \<Rightarrow> INITIAL_BACKOFF"
    obtain go w2 where s: "run_state (sleep_interruptible down ?d) w1 = (go, w2)"
      by (cases "run_state (sleep_interruptible down ?d) w1")
    have step: "run_state (watch_rounds lib net rng down wt (Suc (Suc fuel)) k backoff) w
        = (if \<not> go then (Some (), w2) else run_state (watch_rounds lib net rng down wt (Suc fuel) (k + 1) ?b) w2)"
      using False p s by (cases r) (simp_all del: watch_rounds.simps(1) add: watch_rounds.simps(2) [of _ _ _ _ _ "Suc fuel"])
    show ?thesis
    proof (cases go)
      case True
      have "milliseconds 1 \<le> ?d" using Suc.prems(1) pos by (cases r) (simp_all add: milliseconds_def between_polls_def)
      moreover have "w_instant w2 = w_instant w1 + ?d" using sleep_full [of down ?d w1] s True by simp
      moreover have "w_instant w \<le> w_instant w1" using poll_instant [of w lib "net k" wt False] p by simp
      ultimately have "T \<le> w_instant w2 + milliseconds fuel" using Suc.prems(2) by (simp add: milliseconds_def)
      moreover have "0 < ?b" using Suc.prems(1) by (cases r) (simp_all add: MAX_BACKOFF_def INITIAL_BACKOFF_def)
      ultimately show ?thesis using step True Suc.IH by simp
    next
      case False
      then show ?thesis using step by (simp del: watch_rounds.simps)
    qed
  qed simp
qed

text \<open>
  C15: every watch loop ends after the request to shut down, whatever the polls answer.  A request
  made at the instant \<open>T\<close> (in milliseconds) is final, and a watch has a positive interval; then
  fuel for one round per second until \<open>T\<close>, and one more, is enough for the loop to return, because
  every round that goes on has slept at least a second.
\<close>

theorem watch_loop_ends:
  assumes "\<And>t. T \<le> t \<Longrightarrow> down t" and "0 < wt_interval wt" and "T \<le> milliseconds fuel"
  shows "\<exists>w'. run_state (watch_loop lib net rng down wt (Suc fuel)) w = (Some (), w')"
proof -
  have "fst (run_state (watch_rounds lib net rng down wt (Suc fuel) k INITIAL_BACKOFF) v) = Some ()" for k v
    by (rule watch_rounds_end [OF assms(1,2)]) (use assms(3) in \<open>auto simp: INITIAL_BACKOFF_def intro: trans_le_add2\<close>)
  then have "fst (run_state (watch_loop lib net rng down wt (Suc fuel)) w) = Some ()"
    by (auto simp: watch_loop_def split_def simp del: watch_rounds.simps)
  then show ?thesis by (metis prod.collapse)
qed

theorem watch_loop_ends_witness:
  "\<exists>w'. run_state (watch_loop example_poll (\<lambda>_. example_upstream) (\<lambda>k secs. secs) (\<lambda>t. 5000 \<le> t) example_watch (Suc 5))
     fresh_world = (Some (), w')"
  by (rule watch_loop_ends [where T = 5000]) (simp_all add: example_watch_def milliseconds_def)

section \<open>No row is stranded\<close>

lemma alert_db [simp]: "w_db (snd (run_state (emit_ops_alert title body) w)) = w_db w"
  by (simp add: emit_ops_alert_def Let_def pass_time_def split: option.splits)

lemma reconcile_clears:
  assumes "es_fault (w_env w (w_ticks w)) = Healthy"
  shows "list_all (\<lambda>r. \<not> exhausted r) (db_outbox (w_db (snd (run_state reconcile_exhausted_outbox w))))"
proof -
  have clear: "list_all (\<lambda>r. \<not> exhausted r) (db_outbox (snd (finalize_exhausted_outbox d)))" for d
    by (auto simp: finalize_exhausted_outbox_def list_all_iff set_update_rows exhausted_def retryable_def)
  have "fst (env_turn w) = Healthy" using assms by (simp add: env_turn_def Let_def)
  then show ?thesis using clear [of "w_db (snd (env_turn w))"]
    by (simp add: reconcile_exhausted_outbox_def store_write_def store_call_def split_def Let_def count_metric_def modify_def
        State_Monad.return_def)
qed

text \<open>
  C13: no notification is stranded by a flush cycle.  While the store answers, and whatever the
  sinks and the other workers do, after a cycle every row of the queue is sent, marked dead (and so
  counted and requeued on request), or below the cap of attempts, so that a later flush can claim
  it: there is no row that no part of the program looks at.
\<close>

theorem flush_cycle_strands_nothing:
  assumes "\<And>n. es_fault (w_env w n) = Healthy"
  shows "list_all (\<lambda>r. ob_status r \<in> {Sent, Dead} \<or> ob_attempts r < OUTBOX_MAX_ATTEMPTS)
    (db_outbox (w_db (snd (run_state (flush_cycle order) w))))"
proof -
  obtain r w1 where f: "run_state (flush_notification_outbox order FLUSH_LIMIT) w = (r, w1)"
    by (cases "run_state (flush_notification_outbox order FLUSH_LIMIT) w")
  have "preserves (\<lambda>v. w_env v = w_env w) (flush_notification_outbox order FLUSH_LIMIT)"
    by (rule same_env.flush_keeps)
  from preservesD [OF this, of w] have "w_env w1 = w_env w" using f by simp
  then have "list_all (\<lambda>r. \<not> exhausted r) (db_outbox (w_db (snd (run_state reconcile_exhausted_outbox w1))))"
    by (intro reconcile_clears) (simp add: assms)
  then show ?thesis
    by (simp add: flush_cycle_def f list_all_iff exhausted_def retryable_def) (meson not_le row_status.exhaust)
qed

theorem flush_cycle_strands_nothing_witness:
  "list_all (\<lambda>r. ob_status r \<in> {Sent, Dead} \<or> ob_attempts r < OUTBOX_MAX_ATTEMPTS)
     (db_outbox (w_db (snd (run_state (flush_cycle id) (example_world\<lparr>w_db := example_stuck\<rparr>)))))
   \<and> list_ex exhausted (db_outbox example_stuck)"
proof
  show "list_all (\<lambda>r. ob_status r \<in> {Sent, Dead} \<or> ob_attempts r < OUTBOX_MAX_ATTEMPTS)
     (db_outbox (w_db (snd (run_state (flush_cycle id) (example_world\<lparr>w_db := example_stuck\<rparr>)))))"
    by (rule flush_cycle_strands_nothing) (simp add: example_quiet quiet_step_def)
  show "list_ex exhausted (db_outbox example_stuck)" by code_simp
qed

section \<open>Backoff\<close>

lemma backoff_doubles: "((\<lambda>b. min (b * 2) MAX_BACKOFF) ^^ n) INITIAL_BACKOFF = min (INITIAL_BACKOFF * 2 ^ n) MAX_BACKOFF"
  by (induction n) (simp_all add: INITIAL_BACKOFF_def MAX_BACKOFF_def min_def)

end
