(* ===== verification/Spec2Isabelle.thy ===== *)
theory Spec2Isabelle
  imports Prelude Breaker Releases Filters Database Seen_Store Organizations Outbox_Store Metrics Notifier
    Advisories World Delivery Flush Attempt Upstream Packages Docker Forges Sources Polling Poll_Safety
    Users Access Access_Safety Source_Config Sink_Config Settings Secrets Redaction Ledger Composition Validation
    Apply Apply_Cases Config_Routes Webhooks Scheduler
begin

text \<open>
  A verification library for xrelease, a service that watches package registries, container
  registries, code forges and feeds, and announces new releases to notification sinks.  The Rust
  sources are under \<^verbatim>\<open>src/src\<close>; file names below are relative to it.

  \<^bold>\<open>The program.\<close>  A configuration (documents of the instance and of its organizations, pushed or
  read from files) is composed, validated and swapped into the running process.  It yields a list of
  watches and a list of sinks.  For every watch a loop polls the upstream; releases that pass the
  filter and were not seen before are put into a notification queue in PostgreSQL, and a first
  delivery is attempted; a webhook feeds the same pipeline.  A flush loop retries what is queued.
  Each sink has a circuit breaker and a row of its own in the ledger of a notification, so that a
  retry calls only the sinks that have not received it.  A management API with roles, sessions and
  signatures changes the configuration; every applied document becomes a revision of a ledger, from
  which the instance starts again.

  \<^bold>\<open>Conventions.\<close>  A Rust \<^verbatim>\<open>String\<close> is the list of its UTF-8 bytes.  Structs are records, enums are
  datatypes, \<^verbatim>\<open>Result\<close> is a sum with the error on the left.  Counters that wrap or saturate are words;
  timestamps of the database are integers in microseconds, instants of the process are milliseconds.
  Tables are lists of rows in the order of insertion, and a store method is a function of the tables.
  What third-party code decides (JSON, YAML and TOML parsers, semver, regular expressions, cron, HTTP,
  the digest and the cipher, password hashing, the feed parser, the random generator) is a field of a
  record of functions that the definitions take as an argument; theorems that need a law of such
  code (a digest is a function, a parser reads back what the printer wrote) state it as a
  hypothesis, and their witnesses give an instance.

  \<^bold>\<open>Foundations.\<close>
  \<^item> \<^theory_text>\<open>Prelude\<close>: byte strings, ASCII case, trimming, splitting, decimal numbers; sorting by a comparison
    function (the locale \<open>comparator\<close>); ledgers of claims (\<open>claim_ledger\<close>) and leases (\<open>lease_table\<close>).
  \<^item> \<^theory_text>\<open>Database\<close>: the tables of \<^verbatim>\<open>store/postgres_schema.sql\<close> and their integrity \<open>db_ok\<close> (keys, foreign
    keys, checks), which every statement keeps (the collection \<open>db_keeps\<close>).
  \<^item> \<^theory_text>\<open>World\<close>: the running process over those tables, with clocks, notifiers in memory, metrics and
    the runtime that a configuration swap replaces (\<^verbatim>\<open>engine.rs\<close>).  A program is a state monad over a
    world; before every store call the surroundings take a turn (time passes, other workers act on
    the tables and notifiers, the configuration is swapped), and the call may lose its request or its
    reply.  The locale \<open>program_contract\<close> says when a program preserves a property of the world;
    \<open>worker_contract\<close>, \<open>polling_contract\<close>, \<open>world_contract\<close> and \<open>store_contract\<close> extend it, and inside
    them every handler is proved once to keep what its parts keep.  The interpretations are the
    clock, the settled notifiers, the integrity of the tables, the baseline of a source, and the
    invariants of each safety theorem.

  \<^bold>\<open>Releases and their sources.\<close>
  \<^item> \<^theory_text>\<open>Releases\<close> (\<^verbatim>\<open>model.rs\<close>), \<^theory_text>\<open>Filters\<close> (\<^verbatim>\<open>pipeline/filter.rs\<close>, \<^verbatim>\<open>schedule.rs\<close>), \<^theory_text>\<open>Organizations\<close>
    (\<^verbatim>\<open>config/organizations.rs\<close>, \<^verbatim>\<open>notify/routing.rs\<close>): release values and their order, which is shown to be
    a total preorder on releases whose tags parse cleanly, and not to be one otherwise; what a watch
    accepts; namespaces and routing tags.
  \<^item> \<^theory_text>\<open>Upstream\<close>, \<^theory_text>\<open>Packages\<close>, \<^theory_text>\<open>Docker\<close>, \<^theory_text>\<open>Forges\<close>, \<^theory_text>\<open>Sources\<close> (\<^verbatim>\<open>sources/\<close>): conditional requests,
    the URLs and answers of every provider, the token handshake and the paging of a container registry
    up to its page cap.

  \<^bold>\<open>Queue and delivery.\<close>
  \<^item> \<^theory_text>\<open>Seen_Store\<close>, \<^theory_text>\<open>Outbox_Store\<close>, \<^theory_text>\<open>Advisories\<close> (\<^verbatim>\<open>store/postgres/\<close>, \<^verbatim>\<open>advisory/\<close>): every method of the store
    that the pipeline uses, with its effect on each branch; leases are exclusive.
  \<^item> \<^theory_text>\<open>Breaker\<close>, \<^theory_text>\<open>Metrics\<close>, \<^theory_text>\<open>Notifier\<close>: the breaker as a function of its history, the counters, the
    fan-out over the sinks; the breaker of each sink depends only on its own calls.
  \<^item> \<^theory_text>\<open>Delivery\<close>, \<^theory_text>\<open>Flush\<close>, \<^theory_text>\<open>Attempt\<close> (\<^verbatim>\<open>pipeline/outbox.rs\<close>): attempts, digests, the flush loop (it ends
    because each full wave uses up its limit), tables that stay intact under faults, and what a reported
    delivery means although other workers may have taken the row over: only what they do between the
    last look at the ledger and the completion of the row can still harm it, and a run shows that it can.
  \<^item> \<^theory_text>\<open>Polling\<close>, \<^theory_text>\<open>Poll_Safety\<close> (\<^verbatim>\<open>pipeline/poll.rs\<close>): one poll; the silent baseline, and that a
    successful round has queued everything new.
  \<^item> \<^theory_text>\<open>Webhooks\<close> (\<^verbatim>\<open>api/webhook.rs\<close>, \<^verbatim>\<open>webhook_payload.rs\<close>, \<^verbatim>\<open>webhook_id.rs\<close>, \<^verbatim>\<open>watch_lookup.rs\<close>): the index of
    watches equals a search of the list; a push without the secret changes nothing; a delivery id is
    processed once.
  \<^item> \<^theory_text>\<open>Scheduler\<close> (\<^verbatim>\<open>scheduler.rs\<close>): the loops that run all this.  A loop takes fuel, one unit per
    round; since a round that goes on has slept a second or more, fuel for the seconds until the
    request to shut down, and one more, lets a watch loop return.

  \<^bold>\<open>Accounts and access.\<close>
  \<^item> \<^theory_text>\<open>Users\<close> (\<^verbatim>\<open>store/postgres/users.rs\<close>): the account table, its invariant, and single sign-on.
  \<^item> \<^theory_text>\<open>Access\<close>, \<^theory_text>\<open>Access_Safety\<close> (\<^verbatim>\<open>api/auth.rs\<close>, \<^verbatim>\<open>auth_routes.rs\<close>, \<^verbatim>\<open>role.rs\<close>, \<^verbatim>\<open>session.rs\<close>, \<^verbatim>\<open>oidc.rs\<close>): the
    principal of a request, role decisions against a reference reading, sign-in, revocation by
    sign-out, and the gate of configuration pushes.

  \<^bold>\<open>Configuration.\<close>
  \<^item> \<^theory_text>\<open>Source_Config\<close>, \<^theory_text>\<open>Sink_Config\<close>, \<^theory_text>\<open>Settings\<close> (\<^verbatim>\<open>config/\<close>): the configuration tree and what it builds.
  \<^item> \<^theory_text>\<open>Secrets\<close> (\<^verbatim>\<open>config/secrets.rs\<close>, \<^verbatim>\<open>vault.rs\<close>), \<^theory_text>\<open>Redaction\<close> (\<^verbatim>\<open>config_apply/redact.rs\<close>, \<^verbatim>\<open>diff.rs\<close>): inline
    secrets move to the vault and resolve to their values where their generated names differ; a reader
    learns no secret of a field or a URL (a database address in keyword form is shown); a document whose
    entries can be told apart comes back unchanged.
  \<^item> \<^theory_text>\<open>Ledger\<close> (\<^verbatim>\<open>store/postgres/config_revision.rs\<close>, \<^verbatim>\<open>app_secret.rs\<close>), \<^theory_text>\<open>Composition\<close> (\<^verbatim>\<open>config/resolve.rs\<close>),
    \<^theory_text>\<open>Validation\<close> (\<^verbatim>\<open>validate.rs\<close>): revisions by stream, the composition of the organizations' documents,
    in which those with clean ids do not hear each other, and what a valid configuration guarantees.
  \<^item> \<^theory_text>\<open>Apply\<close>, \<^theory_text>\<open>Apply_Cases\<close>, \<^theory_text>\<open>Config_Routes\<close> (\<^verbatim>\<open>config_apply/mod.rs\<close>, \<^verbatim>\<open>api/config.rs\<close>,
    \<^verbatim>\<open>api/organizations.rs\<close>): a push, a rollback, a reload, a dry run, under failing database calls.  The
    locale \<open>ledger_contract\<close> says when such a step keeps a property; its interpretations give the order
    of the ledger, its freedom from secrets, and the faults.  The routes add preconditions, the
    published identity and authorisation.

  \<^bold>\<open>What the theorems show.\<close>  The properties are the theorems that follow a text with a claim number.
  They cover the promises above: deliveries are real and not repeated, nothing new is lost or announced
  twice from the baseline, organizations are isolated, revisions and secrets survive restarts, refused
  requests change nothing, loops end.  Hypotheses on the surroundings are stated in each theorem; a
  theorem with hypotheses has a witness that applies it to a concrete world.  Some theorems show a
  behaviour that is not intended (an entity tag that outlives a failed delivery, an empty session
  secret, colliding secret names, a lost answer that hides a document, a push before the first poll
  that announces the backlog, a late failure of a worker whose lease ran out, a recorded text that the
  boot refuses for a line inside a string); their texts say what happens.

  \<^bold>\<open>Bounds.\<close>  The page caps, the retry cap of fifty attempts, the lease of 300 seconds, the limits of
  a flush and of a sweep are those of the code.  Apart from the background loops no definition uses
  fuel: every other recursion ends by a measure or by structure.  Only the order in which a hash map
  lists the groups of a digest is left open, as a parameter.

  \<^bold>\<open>Not modelled.\<close>  The start of the process, command line, logging and router; read-only routes and
  their rendering; rate limits of the governor crate; latency histograms (floating point); the protocol
  clients of the sinks, whose options are modelled and whose answers are parameters; the cipher;
  connections, TLS and schema migration; the task runtime (spawning, aborting, the drain at shutdown);
  the schema document; the remote command line and the web front end.  A store method is one step, so
  that races of statements inside one method and row locks are not visible, and deliveries of one
  wave run one after the other, with the surroundings in between.
\<close>

end
